(* ===== verification/Go_Prelude.thy ===== *)
theory Go_Prelude
  imports Complex_Main "HOL-Library.AList" "HOL-Library.Char_ord" "HOL-Library.List_Lexorder"
    "HOL-Library.Sublist" "HOL-Library.Word"
begin

text \<open>
  The part of the Go language and of its standard library that the fleet engine uses, and the
  lemmas every component shares.

  \<^item> \<open>int\<close> and \<open>int64\<close> are mathematical integers kept in range by \<open>wrap64\<close> (two's complement
    wrap-around of the result of \<open>+\<close>, \<open>-\<close> and \<open>*\<close>); \<open>uint64\<close> is a \<open>64 word\<close>.
  \<^item> \<open>float64\<close> is a datatype with the finite values as rationals and with NaN and the infinities,
    because every use in the engine is a comparison and comparisons with NaN are all false.
  \<^item> \<open>time.Time\<close> is the number of nanoseconds since the zero instant (so \<open>IsZero\<close> is equality
    with 0), \<open>time.Duration\<close> a number of nanoseconds; \<open>Time.Sub\<close> saturates as Go's does.
  \<^item> a Go map is an association list with distinct keys. The order of the list plays the part
    of Go's unspecified iteration order: what is proved for every list holds for every order.
  \<^item> a Go string is its list of bytes; strings are compared bytewise, which is the
    lexicographic order of the library on \<open>char list\<close>.
  \<^item> an error return is the left summand of a sum type.
\<close>

named_theorems go_simps \<open>evaluation rules of the Go primitives\<close>
named_theorems map_simps \<open>lookup rules of Go maps\<close>

section \<open>Machine integers\<close>

type_synonym uint64 = "64 word"

definition wrap64 :: "int \<Rightarrow> int" where
  "wrap64 z = (z + 2 ^ 63) mod 2 ^ 64 - 2 ^ 63"

definition in_int64 :: "int \<Rightarrow> bool" where
  "in_int64 z \<longleftrightarrow> - (2 ^ 63) \<le> z \<and> z < 2 ^ 63"

definition add64 :: "int \<Rightarrow> int \<Rightarrow> int" where
  "add64 a b = wrap64 (a + b)"

definition sub64 :: "int \<Rightarrow> int \<Rightarrow> int" where
  "sub64 a b = wrap64 (a - b)"

definition mul64 :: "int \<Rightarrow> int \<Rightarrow> int" where
  "mul64 a b = wrap64 (a * b)"

text \<open>Go's \<open>/\<close> truncates towards zero. The engine divides only by values it has checked to be
  positive, so the panic of a zero divisor never arises.\<close>

definition div64 :: "int \<Rightarrow> int \<Rightarrow> int" where
  "div64 a b = sgn a * sgn b * (\<bar>a\<bar> div \<bar>b\<bar>)"

lemma wrap64_id [simp]: "in_int64 z \<Longrightarrow> wrap64 z = z"
  by (simp add: wrap64_def in_int64_def)

lemma wrap64_range: "in_int64 (wrap64 z)"
proof -
  have "0 \<le> (z + 2 ^ 63) mod 2 ^ 64" and "(z + 2 ^ 63) mod 2 ^ 64 < 2 ^ 64"
    by simp_all
  moreover have "(2::int) ^ 64 = 2 * 2 ^ 63" by simp
  ultimately show ?thesis unfolding wrap64_def in_int64_def by linarith
qed

lemma wrap64_mod: "wrap64 z mod 2 ^ 64 = z mod 2 ^ 64"
  by (simp add: wrap64_def mod_simps)

lemma wrap64_cong: "a mod 2 ^ 64 = b mod 2 ^ 64 \<Longrightarrow> wrap64 a = wrap64 b"
  unfolding wrap64_def by (metis mod_add_left_eq)

lemma wrap64_add_left [simp]: "wrap64 (wrap64 a + b) = wrap64 (a + b)"
  by (rule wrap64_cong) (metis mod_add_left_eq wrap64_mod)

lemma wrap64_add_right [simp]: "wrap64 (a + wrap64 b) = wrap64 (a + b)"
  by (rule wrap64_cong) (metis mod_add_right_eq wrap64_mod)

lemma add64_exact: "in_int64 (a + b) \<Longrightarrow> add64 a b = a + b"
  by (simp add: add64_def)

lemma sub64_exact: "in_int64 (a - b) \<Longrightarrow> sub64 a b = a - b"
  by (simp add: sub64_def)

lemma mul64_exact: "in_int64 (a * b) \<Longrightarrow> mul64 a b = a * b"
  by (simp add: mul64_def)

lemma div64_nonneg: "0 \<le> a \<Longrightarrow> 0 < b \<Longrightarrow> div64 a b = a div b"
  by (cases "a = 0") (simp_all add: div64_def)

text \<open>A sum accumulated with wrapping additions, as the engine's \<open>total += x\<close> loops do.\<close>

fun sum64 :: "int list \<Rightarrow> int" where
  "sum64 xs = foldl add64 0 xs"

lemma foldl_add64: "foldl add64 a xs = (if xs = [] then a else wrap64 (a + sum_list xs))"
proof (induction xs arbitrary: a)
  case Nil
  then show ?case by simp
next
  case (Cons x xs)
  have "foldl add64 a (x # xs) = (if xs = [] then add64 a x else wrap64 (add64 a x + sum_list xs))"
    by (simp add: Cons.IH)
  also have "\<dots> = wrap64 (a + sum_list (x # xs))"
    by (simp add: add64_def add.assoc)
  finally show ?case by simp
qed

lemma sum64_eq_wrap: "sum64 xs = wrap64 (sum_list xs)"
  by (cases "xs = []") (simp_all add: foldl_add64 wrap64_def)

lemma sum64_exact: "in_int64 (sum_list xs) \<Longrightarrow> sum64 xs = sum_list xs"
  by (simp only: sum64_eq_wrap wrap64_id)

section \<open>Floating point comparisons\<close>

datatype float64 = F_NaN | F_NegInf | F_PosInf | F_Fin rat

fun f_less :: "float64 \<Rightarrow> float64 \<Rightarrow> bool" where
  "f_less F_NaN _ = False"
| "f_less _ F_NaN = False"
| "f_less (F_Fin a) (F_Fin b) = (a < b)"
| "f_less F_NegInf b = (b \<noteq> F_NegInf)"
| "f_less (F_Fin _) b = (b = F_PosInf)"
| "f_less F_PosInf _ = False"

fun f_le :: "float64 \<Rightarrow> float64 \<Rightarrow> bool" where
  "f_le F_NaN _ = False"
| "f_le _ F_NaN = False"
| "f_le (F_Fin a) (F_Fin b) = (a \<le> b)"
| "f_le F_NegInf _ = True"
| "f_le (F_Fin _) b = (b = F_PosInf)"
| "f_le F_PosInf b = (b = F_PosInf)"

abbreviation f_greater :: "float64 \<Rightarrow> float64 \<Rightarrow> bool" where
  "f_greater a b \<equiv> f_less b a"

abbreviation f_ge :: "float64 \<Rightarrow> float64 \<Rightarrow> bool" where
  "f_ge a b \<equiv> f_le b a"

lemma f_not_less: "a \<noteq> F_NaN \<Longrightarrow> b \<noteq> F_NaN \<Longrightarrow> \<not> f_less a b \<longleftrightarrow> f_le b a"
  by (cases a; cases b) auto

lemma f_le_trans: "f_le a b \<Longrightarrow> f_le b c \<Longrightarrow> f_le a c"
  by (cases a; cases b; cases c) simp_all

lemma f_le_less_trans: "f_le a b \<Longrightarrow> f_less b c \<Longrightarrow> f_less a c"
  by (cases a; cases b; cases c) simp_all

lemma f_less_irrefl [simp]: "\<not> f_less a a"
  by (cases a) auto

section \<open>Time\<close>

type_synonym time = int
type_synonym duration = int

definition nanosecond :: duration where "nanosecond = 1"
definition second :: duration where "second = 1000000000"
definition minute :: duration where "minute = 60 * second"
definition hour :: duration where "hour = 60 * minute"

lemmas duration_defs [go_simps] = nanosecond_def second_def minute_def hour_def

definition is_zero :: "time \<Rightarrow> bool" where
  "is_zero t \<longleftrightarrow> t = 0"

definition max_duration :: duration where "max_duration = 2 ^ 63 - 1"
definition min_duration :: duration where "min_duration = - (2 ^ 63)"

text \<open>\<open>t.Sub(u)\<close> saturates at the ends of the 64 bit range.\<close>

definition time_sub :: "time \<Rightarrow> time \<Rightarrow> duration" where
  "time_sub t u = max min_duration (min max_duration (t - u))"

lemma time_sub_less_iff:
  "min_duration < d \<Longrightarrow> d \<le> max_duration \<Longrightarrow> time_sub t u < d \<longleftrightarrow> t - u < d"
  by (auto simp: time_sub_def)

lemma time_sub_greater_iff:
  "min_duration \<le> d \<Longrightarrow> d < max_duration \<Longrightarrow> d < time_sub t u \<longleftrightarrow> d < t - u"
  by (auto simp: time_sub_def)

section \<open>Results and errors\<close>

fun first_error :: "('a \<Rightarrow> 'e option) \<Rightarrow> 'a list \<Rightarrow> 'e option" where
  "first_error f [] = None"
| "first_error f (x # xs) = (case f x of Some e \<Rightarrow> Some e | None \<Rightarrow> first_error f xs)"

lemma first_error_None_iff [simp]:
  "first_error f xs = None \<longleftrightarrow> (\<forall>x \<in> set xs. f x = None)"
  by (induction xs) (auto split: option.splits)

text \<open>The error checks of a Go function in the order of its source: the first that fires wins.\<close>

fun checks :: "(bool \<times> 'e) list \<Rightarrow> 'e option" where
  "checks [] = None"
| "checks ((bad, e) # cs) = (if bad then Some e else checks cs)"

lemma checks_None_iff: "checks cs = None \<longleftrightarrow> (\<forall>(bad, e) \<in> set cs. \<not> bad)"
  by (induction cs rule: checks.induct) auto

text \<open>Validation phases in sequence: the second runs only when the first found nothing.\<close>

definition then_check :: "'e option \<Rightarrow> 'e option \<Rightarrow> 'e option" where
  "then_check a b = (case a of Some e \<Rightarrow> Some e | None \<Rightarrow> b)"

lemma then_check_None_iff [simp]: "then_check a b = None \<longleftrightarrow> a = None \<and> b = None"
  by (cases a) (simp_all add: then_check_def)

text \<open>Running a fallible step over a list, stopping at the first error.\<close>

fun fold_err :: "('a \<Rightarrow> 's \<Rightarrow> 'e + 's) \<Rightarrow> 'a list \<Rightarrow> 's \<Rightarrow> 'e + 's" where
  "fold_err f [] s = Inr s"
| "fold_err f (x # xs) s = (case f x s of Inl e \<Rightarrow> Inl e | Inr s' \<Rightarrow> fold_err f xs s')"

lemma fold_err_invariant:
  assumes step: "\<And>x s s'. x \<in> set xs \<Longrightarrow> P s \<Longrightarrow> f x s = Inr s' \<Longrightarrow> P s'"
    and "P s" and "fold_err f xs s = Inr s'"
  shows "P s'"
  using assms
proof (induction xs arbitrary: s)
  case Nil
  then show ?case by simp
next
  case (Cons x xs)
  from Cons.prems(3) obtain t where t: "f x s = Inr t" and rest: "fold_err f xs t = Inr s'"
    by (auto split: sum.splits)
  have "P t" using Cons.prems(1) [of x s t] Cons.prems(2) t by simp
  then show ?case using Cons.IH [of t] Cons.prems(1) rest by auto
qed

lemma fold_err_append:
  "fold_err f (xs @ ys) s = (case fold_err f xs s of Inl e \<Rightarrow> Inl e | Inr t \<Rightarrow> fold_err f ys t)"
  by (induction xs arbitrary: s) (auto split: sum.splits)

section \<open>Strings\<close>

definition has_prefix :: "string \<Rightarrow> string \<Rightarrow> bool" where
  "has_prefix s p \<longleftrightarrow> take (length p) s = p"

definition has_suffix :: "string \<Rightarrow> string \<Rightarrow> bool" where
  "has_suffix s p \<longleftrightarrow> length p \<le> length s \<and> drop (length s - length p) s = p"

definition trim_prefix :: "string \<Rightarrow> string \<Rightarrow> string" where
  "trim_prefix s p = (if has_prefix s p then drop (length p) s else s)"

definition trim_suffix :: "string \<Rightarrow> string \<Rightarrow> string" where
  "trim_suffix s p = (if has_suffix s p then take (length s - length p) s else s)"

fun contains :: "string \<Rightarrow> string \<Rightarrow> bool" where
  "contains [] p = (p = [])"
| "contains (c # s) p = (has_prefix (c # s) p \<or> contains s p)"

definition contains_any :: "string \<Rightarrow> string \<Rightarrow> bool" where
  "contains_any s cs \<longleftrightarrow> list_ex (\<lambda>c. c \<in> set cs) s"

text \<open>\<open>strings.Split\<close> for a separator of one byte: never empty, and empty pieces are kept.\<close>

fun split_on :: "char \<Rightarrow> string \<Rightarrow> string list" where
  "split_on c [] = [[]]"
| "split_on c (x # xs) =
     (if x = c then [] # split_on c xs
      else (case split_on c xs of [] \<Rightarrow> [[x]] | w # ws \<Rightarrow> (x # w) # ws))"

fun join_with :: "char \<Rightarrow> string list \<Rightarrow> string" where
  "join_with c [] = []"
| "join_with c [w] = w"
| "join_with c (w # ws) = w @ c # join_with c ws"

lemma has_prefix_append [simp]: "has_prefix (p @ s) p"
  by (simp add: has_prefix_def)

lemma has_prefix_iff: "has_prefix s p \<longleftrightarrow> (\<exists>t. s = p @ t)"
  unfolding has_prefix_def by (metis append_eq_conv_conj append_take_drop_id)

lemma split_on_not_Nil [simp]: "split_on c s \<noteq> []"
  by (induction s) (auto split: list.splits)

lemma split_on_no_sep: "w \<in> set (split_on c s) \<Longrightarrow> c \<notin> set w"
  by (induction s arbitrary: w) (auto split: list.splits if_splits)

lemma split_on_simple [simp]: "c \<notin> set w \<Longrightarrow> split_on c w = [w]"
  by (induction w) auto

lemma split_on_Cons_sep: "c \<notin> set w \<Longrightarrow> split_on c (w @ c # s) = w # split_on c s"
  by (induction w) auto

lemma split_on_join:
  "ws \<noteq> [] \<Longrightarrow> \<forall>w \<in> set ws. c \<notin> set w \<Longrightarrow> split_on c (join_with c ws) = ws"
  by (induction c ws rule: join_with.induct) (auto simp: split_on_Cons_sep)

lemma join_split: "join_with c (split_on c s) = s"
proof (induction s)
  case Nil
  then show ?case by simp
next
  case (Cons x s)
  obtain w ws where ws: "split_on c s = w # ws"
    using split_on_not_Nil [of c s] by (cases "split_on c s") auto
  with Cons.IH have "join_with c (w # ws) = s" by simp
  then show ?case using ws by (cases ws) auto
qed

text \<open>The white space of \<open>strings.TrimSpace\<close>: Unicode's, in UTF-8.\<close>

definition white_spaces :: "string list" where
  "white_spaces =
     [[CHR 0x09], [CHR 0x0A], [CHR 0x0B], [CHR 0x0C], [CHR 0x0D], [CHR 0x20],
      [CHR 0xC2, CHR 0x85], [CHR 0xC2, CHR 0xA0], [CHR 0xE1, CHR 0x9A, CHR 0x80],
      [CHR 0xE2, CHR 0x80, CHR 0x80], [CHR 0xE2, CHR 0x80, CHR 0x81],
      [CHR 0xE2, CHR 0x80, CHR 0x82], [CHR 0xE2, CHR 0x80, CHR 0x83],
      [CHR 0xE2, CHR 0x80, CHR 0x84], [CHR 0xE2, CHR 0x80, CHR 0x85],
      [CHR 0xE2, CHR 0x80, CHR 0x86], [CHR 0xE2, CHR 0x80, CHR 0x87],
      [CHR 0xE2, CHR 0x80, CHR 0x88], [CHR 0xE2, CHR 0x80, CHR 0x89],
      [CHR 0xE2, CHR 0x80, CHR 0x8A], [CHR 0xE2, CHR 0x80, CHR 0xA8],
      [CHR 0xE2, CHR 0x80, CHR 0xA9], [CHR 0xE2, CHR 0x80, CHR 0xAF],
      [CHR 0xE2, CHR 0x81, CHR 0x9F], [CHR 0xE3, CHR 0x80, CHR 0x80]]"

fun trim_left :: "nat \<Rightarrow> string \<Rightarrow> string" where
  "trim_left 0 s = s"
| "trim_left (Suc n) s =
     (case filter (has_prefix s) white_spaces of [] \<Rightarrow> s | w # _ \<Rightarrow> trim_left n (drop (length w) s))"

fun trim_right :: "nat \<Rightarrow> string \<Rightarrow> string" where
  "trim_right 0 s = s"
| "trim_right (Suc n) s =
     (case filter (has_suffix s) white_spaces of [] \<Rightarrow> s
      | w # _ \<Rightarrow> trim_right n (take (length s - length w) s))"

text \<open>Each round removes at least one byte, so the length of the string is enough fuel.\<close>

definition trim_space :: "string \<Rightarrow> string" where
  "trim_space s = (let t = trim_left (length s) s in trim_right (length t) t)"

section \<open>Decimal rendering\<close>

fun dec_nat :: "nat \<Rightarrow> string" where
  "dec_nat n = (if n < 10 then [char_of (48 + n)] else dec_nat (n div 10) @ [char_of (48 + n mod 10)])"

declare dec_nat.simps [simp del]

definition format_int :: "int \<Rightarrow> string" where
  "format_int z = (if z < 0 then CHR ''-'' # dec_nat (nat (- z)) else dec_nat (nat z))"

definition undec :: "string \<Rightarrow> nat" where
  "undec s = foldl (\<lambda>n c. 10 * n + (of_char c - 48)) 0 s"

lemma undec_snoc: "undec (s @ [c]) = 10 * undec s + (of_char c - 48)"
  by (simp add: undec_def)

lemma undec_dec_nat: "undec (dec_nat n) = n"
proof (induction n rule: dec_nat.induct)
  case (1 n)
  show ?case
  proof (cases "n < 10")
    case True
    then show ?thesis by (simp add: dec_nat.simps [of n] undec_def)
  next
    case False
    with "1" have "undec (dec_nat (n div 10)) = n div 10" by simp
    with False show ?thesis by (simp add: dec_nat.simps [of n] undec_snoc)
  qed
qed

lemma dec_nat_inject [simp]: "dec_nat m = dec_nat n \<longleftrightarrow> m = n"
  by (metis undec_dec_nat)

lemma dec_nat_digits: "c \<in> set (dec_nat n) \<Longrightarrow> 48 \<le> (of_char c :: nat) \<and> (of_char c :: nat) \<le> 57"
proof (induction n rule: dec_nat.induct)
  case (1 n)
  then show ?case by (cases "n < 10") (auto simp: dec_nat.simps [of n])
qed

lemma dec_nat_no_colon [simp]: "CHR '':'' \<notin> set (dec_nat n)"
  using dec_nat_digits [of "CHR '':''" n] by auto

lemma format_int_pos: "0 \<le> z \<Longrightarrow> format_int z = dec_nat (nat z)"
  by (simp add: format_int_def)

section \<open>Go maps\<close>

type_synonym 'v gomap = "(string \<times> 'v) list"

abbreviation get :: "'v gomap \<Rightarrow> string \<Rightarrow> 'v option" where
  "get m k \<equiv> map_of m k"

abbreviation put :: "string \<Rightarrow> 'v \<Rightarrow> 'v gomap \<Rightarrow> 'v gomap" where
  "put k v m \<equiv> AList.update k v m"

abbreviation del :: "string \<Rightarrow> 'v gomap \<Rightarrow> 'v gomap" where
  "del k m \<equiv> AList.delete k m"

definition has :: "'v gomap \<Rightarrow> string \<Rightarrow> bool" where
  "has m k \<longleftrightarrow> get m k \<noteq> None"

definition keys :: "'v gomap \<Rightarrow> string list" where
  "keys m = map fst m"

definition wf_map :: "'v gomap \<Rightarrow> bool" where
  "wf_map m \<longleftrightarrow> distinct (keys m)"

lemma has_iff_keys: "has m k \<longleftrightarrow> k \<in> set (keys m)"
  by (simp add: has_def keys_def map_of_eq_None_iff)

lemma get_put [map_simps]: "get (put k v m) k' = (if k = k' then Some v else get m k')"
  by (simp add: update_conv')

lemma get_del [map_simps]: "get (del k m) k' = (if k = k' then None else get m k')"
  by (simp add: delete_conv')

lemma has_put [map_simps]: "has (put k v m) k' \<longleftrightarrow> k = k' \<or> has m k'"
  by (simp add: has_def get_put)

lemma has_del [map_simps]: "has (del k m) k' \<longleftrightarrow> k \<noteq> k' \<and> has m k'"
  by (simp add: has_def get_del)

lemma wf_put [map_simps]: "wf_map m \<Longrightarrow> wf_map (put k v m)"
  by (simp add: wf_map_def keys_def distinct_update)

lemma wf_del [map_simps]: "wf_map m \<Longrightarrow> wf_map (del k m)"
  by (simp add: wf_map_def keys_def distinct_delete)

lemma wf_empty [map_simps]: "wf_map []"
  by (simp add: wf_map_def keys_def)

lemma get_iff_mem: "wf_map m \<Longrightarrow> get m k = Some v \<longleftrightarrow> (k, v) \<in> set m"
  by (simp add: wf_map_def keys_def)

lemma get_in_keys: "get m k = Some v \<Longrightarrow> k \<in> set (keys m)"
  by (force simp: keys_def dest: map_of_SomeD)

lemma mem_has: "(k, v) \<in> set m \<Longrightarrow> has m k"
  by (force simp: has_iff_keys keys_def)

lemma wf_filter [map_simps]: "wf_map m \<Longrightarrow> wf_map (filter P m)"
  by (simp add: wf_map_def keys_def distinct_map_filter)

lemma get_filter: "wf_map m \<Longrightarrow> get (filter (\<lambda>(k, v). P k v) m) k =
    (case get m k of None \<Rightarrow> None | Some v \<Rightarrow> if P k v then Some v else None)"
proof (induction m)
  case Nil
  show ?case by simp
next
  case (Cons x m)
  obtain a b where x: "x = (a, b)" by (cases x)
  from Cons.prems x have wf: "wf_map m" and a: "a \<notin> fst ` set m"
    by (auto simp: wf_map_def keys_def)
  have "get (filter (\<lambda>(k, v). P k v) m) a = None"
    using a by (auto simp: map_of_eq_None_iff)
  with Cons.IH [OF wf] x show ?case by auto
qed

text \<open>Updating every value of a map in place.\<close>

lemma keys_map_value: "(\<And>p. fst (f p) = fst p) \<Longrightarrow> keys (map f m) = keys m"
  by (simp add: keys_def)

lemma get_map_value:
  "get (map (\<lambda>(k, v). (k, g k v)) m) k = map_option (g k) (get m k)"
  by (induction m) auto

lemma wf_fold:
  "wf_map m \<Longrightarrow> (\<And>x m. wf_map m \<Longrightarrow> wf_map (f x m)) \<Longrightarrow> wf_map (fold f xs m)"
  by (induction xs arbitrary: m) auto

section \<open>Sorting\<close>

text \<open>\<open>sort.Strings\<close> is \<open>sort\<close> of the library over the bytewise order. \<open>sort.Slice\<close> with a
  comparison function is insertion sort: where the comparison is a strict total order on the
  elements there is one sorted permutation only, so the choice of algorithm is not visible.\<close>

fun insert_by :: "('a \<Rightarrow> 'a \<Rightarrow> bool) \<Rightarrow> 'a \<Rightarrow> 'a list \<Rightarrow> 'a list" where
  "insert_by lt x [] = [x]"
| "insert_by lt x (y # ys) = (if lt y x then y # insert_by lt x ys else x # y # ys)"

definition sort_slice :: "('a \<Rightarrow> 'a \<Rightarrow> bool) \<Rightarrow> 'a list \<Rightarrow> 'a list" where
  "sort_slice lt xs = foldr (insert_by lt) xs []"

lemma set_insert_by [simp]: "set (insert_by lt x ys) = insert x (set ys)"
  by (induction ys) auto

lemma set_sort_slice [simp]: "set (sort_slice lt xs) = set xs"
  by (induction xs) (auto simp: sort_slice_def)

lemma distinct_insert_by: "distinct (insert_by lt x ys) \<longleftrightarrow> x \<notin> set ys \<and> distinct ys"
  by (induction ys) auto

lemma sort_slice_Nil [simp]: "sort_slice lt [] = []"
  by (simp add: sort_slice_def)

lemma sort_slice_Cons: "sort_slice lt (x # xs) = insert_by lt x (sort_slice lt xs)"
  by (simp add: sort_slice_def)

lemma distinct_sort_slice [simp]: "distinct (sort_slice lt xs) \<longleftrightarrow> distinct xs"
  by (induction xs) (simp_all add: sort_slice_Cons distinct_insert_by)

lemma length_insert_by [simp]: "length (insert_by lt x ys) = Suc (length ys)"
  by (induction ys) auto

lemma length_sort_slice [simp]: "length (sort_slice lt xs) = length xs"
  by (induction xs) (auto simp: sort_slice_def)

lemma sorted_insert_by:
  assumes "\<And>a b. \<not> lt a b \<Longrightarrow> le b a" and "\<And>a b. lt a b \<Longrightarrow> le a b"
    and "\<And>a b c. le a b \<Longrightarrow> le b c \<Longrightarrow> le a c"
    and "sorted_wrt le ys"
  shows "sorted_wrt le (insert_by lt x ys)"
  using assms(4)
proof (induction ys)
  case Nil
  then show ?case by simp
next
  case (Cons y ys)
  show ?case
  proof (cases "lt y x")
    case True
    with Cons assms(2) show ?thesis by simp
  next
    case False
    with assms(1) have "le x y" .
    with Cons False assms(3) show ?thesis by auto
  qed
qed

lemma sorted_sort_slice:
  assumes "\<And>a b. \<not> lt a b \<Longrightarrow> le b a" and "\<And>a b. lt a b \<Longrightarrow> le a b"
    and "\<And>a b c. le a b \<Longrightarrow> le b c \<Longrightarrow> le a c"
  shows "sorted_wrt le (sort_slice lt xs)"
proof (induction xs)
  case Nil
  show ?case by simp
next
  case (Cons x xs)
  show ?case
    unfolding sort_slice_Cons by (rule sorted_insert_by [OF assms Cons.IH])
qed

end
