(* ===== verification/Admission.thy ===== *)
theory Admission
  imports Go_Prelude
begin

text \<open>
  The host admission rule of \<open>src/internal/admission/admission.go\<close>: a pure decision from a host
  snapshot, a reserve policy and a request. The arithmetic is Go's, wrap-around included; the
  properties say for which magnitudes it is exact.
\<close>

section \<open>Data\<close>

datatype reason =
    ReasonAdmitted | ReasonHostUnhealthy | ReasonDiskPressure | ReasonPoolSaturated
  | ReasonInsufficientCPU | ReasonCPUAllowance | ReasonInsufficientMemory
  | ReasonPressureUnavailable | ReasonCPUPressure | ReasonMemoryPressure | ReasonIOPressure
  | ReasonRecentOOM | ReasonDiagnosticWAL | ReasonPlacementRefused | ReasonLargerClassWaiting
  | ReasonUnset \<comment> \<open>the empty string of a decision that was never filled in\<close>

record host_snapshot =
  Healthy :: bool
  TotalCPUUnits :: int
  TotalMemoryMiB :: int
  AvailableMemoryMiB :: int
  AllocatedCPUUnits :: int
  AllocatedCPUAllowanceUnits :: int
  AllocatedMemoryMiB :: int
  FreeDiskPercent :: int
  PressureAvailable :: bool
  CPUSomeAvg10 :: float64
  MemoryFullAvg10 :: float64
  IOFullAvg10 :: float64
  RecentOOMKills :: int

record reserve_policy =
  MinimumCPUUnits :: int
  MaximumFleetCPUPercent :: int
  CPUAllowanceOvercommit :: int
  MinimumMemoryMiB :: int
  MinimumPercent :: int
  MinimumFreeDiskPercent :: int
  RequirePressure :: bool
  MaxCPUSomeAvg10 :: float64
  MaxMemoryFullAvg10 :: float64
  MaxIOFullAvg10 :: float64
  MaxRecentOOMKills :: int

record admission_request =
  req_PoolName :: string
  req_VCPU :: int
  req_CPUAllowanceUnits :: int
  req_MemoryMiB :: int

record decision =
  Admitted :: bool
  Reason :: reason
  Pool :: string
  RequiredCPUReserve :: int
  RequiredMemoryReserve :: int
  RemainingCPUUnits :: int
  RemainingCPUAllowanceUnits :: int
  RemainingMemoryMiB :: int
  RemainingAvailableMiB :: int

datatype admission_error =
    HostTotalsNotPositive | AvailableExceedsCapacity | AllocatedCPUNegative
  | AllocatedMemoryNegative | FreeDiskPercentRange | PressureSnapshotInvalid
  | ReservePolicyInvalid | AggregateCPUPolicyInvalid | CPUOvercommitInvalid
  | DiskReservePolicyInvalid | PressurePolicyInvalid | AdmissionRequestInvalid

section \<open>Operations\<close>

definition percentCeiling :: "int \<Rightarrow> int \<Rightarrow> int" where
  "percentCeiling tot percent = div64 (add64 (mul64 tot percent) 99) 100"

definition effectiveOvercommit :: "int \<Rightarrow> int" where
  "effectiveOvercommit declared = (if declared \<le> 0 then 1 else declared)"

definition max_int :: "int \<Rightarrow> int \<Rightarrow> int" where
  "max_int left right = (if left > right then left else right)"

definition validate_admission ::
    "host_snapshot \<Rightarrow> reserve_policy \<Rightarrow> admission_request \<Rightarrow> admission_error option" where
  "validate_admission s p r = checks [
     (TotalCPUUnits s \<le> 0 \<or> TotalMemoryMiB s \<le> 0 \<or> AvailableMemoryMiB s \<le> 0,
        HostTotalsNotPositive),
     (AvailableMemoryMiB s > TotalMemoryMiB s, AvailableExceedsCapacity),
     (AllocatedCPUUnits s < 0, AllocatedCPUNegative),
     (AllocatedMemoryMiB s < 0, AllocatedMemoryNegative),
     (FreeDiskPercent s < 0 \<or> FreeDiskPercent s > 100, FreeDiskPercentRange),
     (f_less (CPUSomeAvg10 s) (F_Fin 0) \<or> f_greater (CPUSomeAvg10 s) (F_Fin 100)
        \<or> f_less (MemoryFullAvg10 s) (F_Fin 0) \<or> f_greater (MemoryFullAvg10 s) (F_Fin 100)
        \<or> f_less (IOFullAvg10 s) (F_Fin 0) \<or> f_greater (IOFullAvg10 s) (F_Fin 100)
        \<or> RecentOOMKills s < 0, PressureSnapshotInvalid),
     (MinimumCPUUnits p < 0 \<or> MinimumMemoryMiB p < 0 \<or> MinimumPercent p < 0
        \<or> MinimumPercent p > 100, ReservePolicyInvalid),
     (MaximumFleetCPUPercent p < 0 \<or> MaximumFleetCPUPercent p > 98, AggregateCPUPolicyInvalid),
     (CPUAllowanceOvercommit p < 0 \<or> CPUAllowanceOvercommit p > 4, CPUOvercommitInvalid),
     (MinimumFreeDiskPercent p < 0 \<or> MinimumFreeDiskPercent p > 100, DiskReservePolicyInvalid),
     (f_less (MaxCPUSomeAvg10 p) (F_Fin 0) \<or> f_greater (MaxCPUSomeAvg10 p) (F_Fin 100)
        \<or> f_less (MaxMemoryFullAvg10 p) (F_Fin 0) \<or> f_greater (MaxMemoryFullAvg10 p) (F_Fin 100)
        \<or> f_less (MaxIOFullAvg10 p) (F_Fin 0) \<or> f_greater (MaxIOFullAvg10 p) (F_Fin 100)
        \<or> MaxRecentOOMKills p < 0, PressurePolicyInvalid),
     (req_PoolName r = [] \<or> req_VCPU r \<le> 0 \<or> req_MemoryMiB r \<le> 0, AdmissionRequestInvalid)]"

text \<open>The quantities \<open>Evaluate\<close> computes before its switch, each as the source writes it.\<close>

definition cpuReserve :: "host_snapshot \<Rightarrow> reserve_policy \<Rightarrow> int" where
  "cpuReserve s p =
     (if MaximumFleetCPUPercent p > 0 then 0
      else max_int (MinimumCPUUnits p) (percentCeiling (TotalCPUUnits s) (MinimumPercent p)))"

definition memoryReserve :: "host_snapshot \<Rightarrow> reserve_policy \<Rightarrow> int" where
  "memoryReserve s p =
     max_int (MinimumMemoryMiB p) (percentCeiling (TotalMemoryMiB s) (MinimumPercent p))"

definition remainingCPU :: "host_snapshot \<Rightarrow> admission_request \<Rightarrow> int" where
  "remainingCPU s r = sub64 (sub64 (TotalCPUUnits s) (AllocatedCPUUnits s)) (req_VCPU r)"

definition allowanceLimit :: "host_snapshot \<Rightarrow> reserve_policy \<Rightarrow> int" where
  "allowanceLimit s p =
     (if MaximumFleetCPUPercent p > 0
      then mul64 (div64 (mul64 (TotalCPUUnits s) (MaximumFleetCPUPercent p)) 100)
                 (effectiveOvercommit (CPUAllowanceOvercommit p))
      else TotalCPUUnits s)"

definition allocatedAllowance :: "host_snapshot \<Rightarrow> int" where
  "allocatedAllowance s =
     (if AllocatedCPUAllowanceUnits s = 0 then AllocatedCPUUnits s else AllocatedCPUAllowanceUnits s)"

definition requestedAllowance :: "admission_request \<Rightarrow> int" where
  "requestedAllowance r = (if req_CPUAllowanceUnits r = 0 then req_VCPU r else req_CPUAllowanceUnits r)"

definition remainingAllowance :: "host_snapshot \<Rightarrow> reserve_policy \<Rightarrow> admission_request \<Rightarrow> int" where
  "remainingAllowance s p r =
     sub64 (sub64 (allowanceLimit s p) (allocatedAllowance s)) (requestedAllowance r)"

definition remainingMemory :: "host_snapshot \<Rightarrow> admission_request \<Rightarrow> int" where
  "remainingMemory s r = sub64 (sub64 (TotalMemoryMiB s) (AllocatedMemoryMiB s)) (req_MemoryMiB r)"

definition remainingAvailableMemory :: "host_snapshot \<Rightarrow> admission_request \<Rightarrow> int" where
  "remainingAvailableMemory s r = sub64 (AvailableMemoryMiB s) (req_MemoryMiB r)"

text \<open>The switch of \<open>Evaluate\<close>: the first case that holds names the reason.\<close>

definition evaluate_reason ::
    "host_snapshot \<Rightarrow> reserve_policy \<Rightarrow> admission_request \<Rightarrow> reason" where
  "evaluate_reason s p r =
     (case checks [
        (\<not> Healthy s, ReasonHostUnhealthy),
        (FreeDiskPercent s < MinimumFreeDiskPercent p, ReasonDiskPressure),
        (RequirePressure p \<and> \<not> PressureAvailable s, ReasonPressureUnavailable),
        (RequirePressure p \<and> PressureAvailable s \<and> RecentOOMKills s > MaxRecentOOMKills p,
           ReasonRecentOOM),
        (RequirePressure p \<and> PressureAvailable s
           \<and> f_greater (MemoryFullAvg10 s) (MaxMemoryFullAvg10 p), ReasonMemoryPressure),
        (RequirePressure p \<and> PressureAvailable s
           \<and> f_greater (CPUSomeAvg10 s) (MaxCPUSomeAvg10 p), ReasonCPUPressure),
        (RequirePressure p \<and> PressureAvailable s
           \<and> f_greater (IOFullAvg10 s) (MaxIOFullAvg10 p), ReasonIOPressure),
        (remainingCPU s r < cpuReserve s p, ReasonInsufficientCPU),
        (remainingAllowance s p r < 0, ReasonCPUAllowance),
        (remainingMemory s r < memoryReserve s p \<or> remainingAvailableMemory s r < memoryReserve s p,
           ReasonInsufficientMemory)]
      of Some why \<Rightarrow> why | None \<Rightarrow> ReasonAdmitted)"

definition Evaluate ::
    "host_snapshot \<Rightarrow> reserve_policy \<Rightarrow> admission_request \<Rightarrow> admission_error + decision" where
  "Evaluate s p r =
     (case validate_admission s p r of
        Some e \<Rightarrow> Inl e
      | None \<Rightarrow>
          (let why = evaluate_reason s p r
           in Inr \<lparr>Admitted = (why = ReasonAdmitted), Reason = why, Pool = req_PoolName r,
                   RequiredCPUReserve = cpuReserve s p, RequiredMemoryReserve = memoryReserve s p,
                   RemainingCPUUnits = remainingCPU s r,
                   RemainingCPUAllowanceUnits = remainingAllowance s p r,
                   RemainingMemoryMiB = remainingMemory s r,
                   RemainingAvailableMiB = remainingAvailableMemory s r\<rparr>))"

lemmas quantity_defs =
  cpuReserve_def memoryReserve_def remainingCPU_def allowanceLimit_def allocatedAllowance_def
  requestedAllowance_def remainingAllowance_def remainingMemory_def remainingAvailableMemory_def

section \<open>Exactness of the arithmetic\<close>

text \<open>Magnitudes for which no intermediate result leaves the 64 bit range: 2 to the 40 MiB is an
  exbibyte of memory, far beyond any host.\<close>

definition magnitude_ok :: "int \<Rightarrow> bool" where
  "magnitude_ok z \<longleftrightarrow> - (2 ^ 40) \<le> z \<and> z \<le> 2 ^ 40"

definition exact_inputs :: "host_snapshot \<Rightarrow> admission_request \<Rightarrow> bool" where
  "exact_inputs s r \<longleftrightarrow> list_all magnitude_ok
     [TotalCPUUnits s, TotalMemoryMiB s, AvailableMemoryMiB s, AllocatedCPUUnits s,
      AllocatedCPUAllowanceUnits s, AllocatedMemoryMiB s, req_VCPU r, req_CPUAllowanceUnits r,
      req_MemoryMiB r]"

lemma percentCeiling_exact:
  assumes "0 \<le> t" "t \<le> 2 ^ 40" "0 \<le> q" "q \<le> 100"
  shows "percentCeiling t q = (t * q + 99) div 100"
proof -
  have "t * q \<le> 2 ^ 40 * 100" using assms by (intro mult_mono) auto
  moreover have "0 \<le> t * q" using assms by simp
  ultimately have "in_int64 (t * q)" and "in_int64 (t * q + 99)"
    by (simp_all add: in_int64_def)
  with \<open>0 \<le> t * q\<close> show ?thesis
    by (simp add: percentCeiling_def mul64_exact add64_exact div64_nonneg)
qed

text \<open>The percentage reserve is the least integer that covers the percentage.\<close>

lemma percentCeiling_covers:
  assumes "0 \<le> t" "t \<le> 2 ^ 40" "0 \<le> q" "q \<le> 100"
  shows "t * q \<le> 100 * percentCeiling t q" and "100 * percentCeiling t q < t * q + 100"
  using percentCeiling_exact [OF assms] by presburger+

lemma sub64_twice_exact:
  assumes "magnitude_ok a" "magnitude_ok b" "magnitude_ok c"
  shows "sub64 (sub64 a b) c = a - b - c"
proof -
  from assms have "in_int64 (a - b)" and "in_int64 (a - b - c)"
    by (auto simp: magnitude_ok_def in_int64_def)
  then show ?thesis by (simp add: sub64_exact)
qed

lemma remaining_exact:
  assumes "exact_inputs s r"
  shows "remainingCPU s r = TotalCPUUnits s - AllocatedCPUUnits s - req_VCPU r"
    and "remainingMemory s r = TotalMemoryMiB s - AllocatedMemoryMiB s - req_MemoryMiB r"
    and "remainingAvailableMemory s r = AvailableMemoryMiB s - req_MemoryMiB r"
proof -
  show "remainingCPU s r = TotalCPUUnits s - AllocatedCPUUnits s - req_VCPU r"
    and "remainingMemory s r = TotalMemoryMiB s - AllocatedMemoryMiB s - req_MemoryMiB r"
    using assms unfolding remainingCPU_def remainingMemory_def exact_inputs_def
    by (auto intro!: sub64_twice_exact)
  have "in_int64 (AvailableMemoryMiB s - req_MemoryMiB r)"
    using assms by (auto simp: exact_inputs_def magnitude_ok_def in_int64_def)
  then show "remainingAvailableMemory s r = AvailableMemoryMiB s - req_MemoryMiB r"
    by (simp add: remainingAvailableMemory_def sub64_exact)
qed

lemma validate_admission_ranges:
  assumes "validate_admission s p r = None"
  shows "0 < TotalCPUUnits s" "0 < TotalMemoryMiB s" "0 \<le> AllocatedCPUUnits s"
    "0 \<le> AllocatedMemoryMiB s" "0 < req_VCPU r" "0 < req_MemoryMiB r"
    "0 \<le> MinimumPercent p" "MinimumPercent p \<le> 100" "0 \<le> MinimumMemoryMiB p"
    "0 \<le> MinimumCPUUnits p" "0 \<le> MaximumFleetCPUPercent p" "MaximumFleetCPUPercent p \<le> 98"
    "0 \<le> CPUAllowanceOvercommit p" "CPUAllowanceOvercommit p \<le> 4"
    "AvailableMemoryMiB s \<le> TotalMemoryMiB s"
  using assms unfolding validate_admission_def checks_None_iff by simp_all

lemma allowanceLimit_exact:
  assumes "validate_admission s p r = None" "exact_inputs s r" "0 < MaximumFleetCPUPercent p"
  shows "allowanceLimit s p =
    TotalCPUUnits s * MaximumFleetCPUPercent p div 100 * effectiveOvercommit (CPUAllowanceOvercommit p)"
proof -
  let ?t = "TotalCPUUnits s" and ?q = "MaximumFleetCPUPercent p"
  let ?o = "effectiveOvercommit (CPUAllowanceOvercommit p)"
  note v = validate_admission_ranges [OF assms(1)]
  have "?t \<le> 2 ^ 40" using assms(2) by (simp add: exact_inputs_def magnitude_ok_def)
  then have "?t * ?q \<le> 2 ^ 40 * 98" using v by (intro mult_mono) auto
  moreover have nn: "0 \<le> ?t * ?q" using v by simp
  ultimately have le: "?t * ?q div 100 \<le> 2 ^ 40" and r1: "in_int64 (?t * ?q)"
    by (auto simp: in_int64_def)
  have o: "1 \<le> ?o" "?o \<le> 4" using v by (auto simp: effectiveOvercommit_def)
  have d: "0 \<le> ?t * ?q div 100" using nn by (simp add: pos_imp_zdiv_nonneg_iff)
  have "?t * ?q div 100 * ?o \<le> 2 ^ 40 * 4" using le o d by (intro mult_mono) auto
  moreover have "0 \<le> ?t * ?q div 100 * ?o" using d o by simp
  ultimately have "in_int64 (?t * ?q div 100 * ?o)" by (simp add: in_int64_def)
  with r1 nn assms(3) show ?thesis
    by (simp add: allowanceLimit_def mul64_exact div64_nonneg)
qed

section \<open>The admission rule\<close>

lemma Evaluate_cases:
  "Evaluate s p r = Inr d \<Longrightarrow>
     validate_admission s p r = None \<and> Reason d = evaluate_reason s p r \<and> Pool d = req_PoolName r
     \<and> (Admitted d \<longleftrightarrow> Reason d = ReasonAdmitted)
     \<and> RequiredMemoryReserve d = memoryReserve s p \<and> RequiredCPUReserve d = cpuReserve s p"
  by (auto simp: Evaluate_def Let_def split: option.splits)

text \<open>What admission promises, stated without machine arithmetic.\<close>

definition fits :: "host_snapshot \<Rightarrow> reserve_policy \<Rightarrow> admission_request \<Rightarrow> bool" where
  "fits s p r \<longleftrightarrow>
     Healthy s \<and> MinimumFreeDiskPercent p \<le> FreeDiskPercent s
     \<and> (RequirePressure p \<longrightarrow> PressureAvailable s \<and> RecentOOMKills s \<le> MaxRecentOOMKills p
          \<and> \<not> f_greater (MemoryFullAvg10 s) (MaxMemoryFullAvg10 p)
          \<and> \<not> f_greater (CPUSomeAvg10 s) (MaxCPUSomeAvg10 p)
          \<and> \<not> f_greater (IOFullAvg10 s) (MaxIOFullAvg10 p))
     \<and> AllocatedCPUUnits s + req_VCPU r + cpuReserve s p \<le> TotalCPUUnits s
     \<and> allocatedAllowance s + requestedAllowance r \<le> allowanceLimit s p
     \<and> AllocatedMemoryMiB s + req_MemoryMiB r + memoryReserve s p \<le> TotalMemoryMiB s
     \<and> req_MemoryMiB r + memoryReserve s p \<le> AvailableMemoryMiB s"

lemma remainingAllowance_exact:
  assumes "validate_admission s p r = None" "exact_inputs s r"
  shows "remainingAllowance s p r = allowanceLimit s p - allocatedAllowance s - requestedAllowance r"
proof -
  note v = validate_admission_ranges [OF assms(1)]
  have "0 \<le> allowanceLimit s p \<and> allowanceLimit s p \<le> 2 ^ 42"
  proof (cases "0 < MaximumFleetCPUPercent p")
    case True
    let ?o = "effectiveOvercommit (CPUAllowanceOvercommit p)"
    have o: "1 \<le> ?o" "?o \<le> 4" using v by (auto simp: effectiveOvercommit_def)
    have "TotalCPUUnits s * MaximumFleetCPUPercent p \<le> 2 ^ 40 * 98"
      using v assms(2) by (intro mult_mono) (auto simp: exact_inputs_def magnitude_ok_def)
    then have "TotalCPUUnits s * MaximumFleetCPUPercent p div 100 * ?o \<le> 2 ^ 40 * 4"
      using o v by (intro mult_mono) auto
    moreover have "0 \<le> TotalCPUUnits s * MaximumFleetCPUPercent p div 100 * ?o"
      using o v by (simp add: pos_imp_zdiv_nonneg_iff)
    ultimately show ?thesis using allowanceLimit_exact [OF assms True] by simp
  next
    case False
    then show ?thesis using v assms(2)
      by (auto simp: allowanceLimit_def exact_inputs_def magnitude_ok_def)
  qed
  moreover have "magnitude_ok (allocatedAllowance s)" "magnitude_ok (requestedAllowance r)"
    using assms(2) by (auto simp: exact_inputs_def allocatedAllowance_def requestedAllowance_def)
  ultimately have "in_int64 (allowanceLimit s p - allocatedAllowance s)"
    "in_int64 (allowanceLimit s p - allocatedAllowance s - requestedAllowance r)"
    by (auto simp: magnitude_ok_def in_int64_def)
  then show ?thesis by (simp add: remainingAllowance_def sub64_exact)
qed

lemma evaluate_reason_admitted_iff:
  "evaluate_reason s p r = ReasonAdmitted \<longleftrightarrow>
     Healthy s \<and> MinimumFreeDiskPercent p \<le> FreeDiskPercent s
     \<and> (RequirePressure p \<longrightarrow> PressureAvailable s \<and> RecentOOMKills s \<le> MaxRecentOOMKills p
          \<and> \<not> f_greater (MemoryFullAvg10 s) (MaxMemoryFullAvg10 p)
          \<and> \<not> f_greater (CPUSomeAvg10 s) (MaxCPUSomeAvg10 p)
          \<and> \<not> f_greater (IOFullAvg10 s) (MaxIOFullAvg10 p))
     \<and> cpuReserve s p \<le> remainingCPU s r \<and> 0 \<le> remainingAllowance s p r
     \<and> memoryReserve s p \<le> remainingMemory s r \<and> memoryReserve s p \<le> remainingAvailableMemory s r"
  unfolding evaluate_reason_def by simp linarith

lemma Evaluate_admits_iff_fits:
  assumes "validate_admission s p r = None" "exact_inputs s r"
  shows "(\<exists>d. Evaluate s p r = Inr d \<and> Admitted d) \<longleftrightarrow> fits s p r"
proof -
  have "(\<exists>d. Evaluate s p r = Inr d \<and> Admitted d) \<longleftrightarrow> evaluate_reason s p r = ReasonAdmitted"
    using assms(1) by (simp add: Evaluate_def Let_def)
  also have "\<dots> \<longleftrightarrow> fits s p r"
    unfolding evaluate_reason_admitted_iff fits_def remaining_exact [OF assms(2)]
      remainingAllowance_exact [OF assms] by (simp add: algebra_simps)
  finally show ?thesis .
qed

section \<open>Properties\<close>

definition sample_snapshot :: host_snapshot where
  "sample_snapshot = \<lparr>Healthy = True, TotalCPUUnits = 32, TotalMemoryMiB = 65536, AvailableMemoryMiB = 60000,
     AllocatedCPUUnits = 8, AllocatedCPUAllowanceUnits = 16, AllocatedMemoryMiB = 16384, FreeDiskPercent = 50,
     PressureAvailable = True, CPUSomeAvg10 = F_Fin 10, MemoryFullAvg10 = F_Fin 0, IOFullAvg10 = F_Fin 0,
     RecentOOMKills = 0\<rparr>"

definition sample_policy :: reserve_policy where
  "sample_policy = \<lparr>MinimumCPUUnits = 2, MaximumFleetCPUPercent = 90, CPUAllowanceOvercommit = 2,
     MinimumMemoryMiB = 2048, MinimumPercent = 10, MinimumFreeDiskPercent = 15, RequirePressure = True,
     MaxCPUSomeAvg10 = F_Fin 80, MaxMemoryFullAvg10 = F_Fin 5, MaxIOFullAvg10 = F_Fin 20,
     MaxRecentOOMKills = 0\<rparr>"

definition sample_admission :: admission_request where
  "sample_admission = \<lparr>req_PoolName = ''linux'', req_VCPU = 8, req_CPUAllowanceUnits = 16, req_MemoryMiB = 16384\<rparr>"



text \<open>Admission is monotone. A host that admits a request admits every valid request that asks for no
  more vCPU, CPU allowance and memory.\<close>

theorem Evaluate_monotone:
  assumes "Evaluate s p r = Inr d" "Admitted d" and v': "validate_admission s p r' = None"
    and x: "exact_inputs s r" "exact_inputs s r'"
    and le: "req_VCPU r' \<le> req_VCPU r" "requestedAllowance r' \<le> requestedAllowance r"
      "req_MemoryMiB r' \<le> req_MemoryMiB r"
  shows "\<exists>d'. Evaluate s p r' = Inr d' \<and> Admitted d'"
proof -
  have "fits s p r" using Evaluate_admits_iff_fits [OF _ x(1)] Evaluate_cases [OF assms(1)] assms(1,2) by blast
  then have "fits s p r'" using le unfolding fits_def by auto
  then show ?thesis using Evaluate_admits_iff_fits [OF v' x(2)] by blast
qed

theorem Evaluate_monotone_witness:
  "\<exists>d'. Evaluate sample_snapshot sample_policy (sample_admission\<lparr>req_VCPU := 4, req_CPUAllowanceUnits := 8\<rparr>) = Inr d'
     \<and> Admitted d'"
proof -
  have "case Evaluate sample_snapshot sample_policy sample_admission of Inr d \<Rightarrow> Admitted d | Inl e \<Rightarrow> False"
    by code_simp
  then obtain d where d: "Evaluate sample_snapshot sample_policy sample_admission = Inr d" "Admitted d"
    by (auto split: sum.splits)
  let ?r = "sample_admission\<lparr>req_VCPU := 4, req_CPUAllowanceUnits := 8\<rparr>"
  have v: "validate_admission sample_snapshot sample_policy ?r = None" by code_simp
  have x: "exact_inputs sample_snapshot sample_admission" by code_simp
  have x': "exact_inputs sample_snapshot ?r" by code_simp
  have q: "requestedAllowance ?r \<le> requestedAllowance sample_admission" by code_simp
  show ?thesis
    using Evaluate_monotone [OF d v x x'] q by (simp add: sample_admission_def)
qed

end
