(* ===== verification/Durable_Store.thy ===== *)
theory Durable_Store
  imports Go_Prelude
begin

text \<open>
  The contract of the engine's journal files. Four packages (\<open>providerjournal\<close>, \<open>cachebroker\<close>,
  \<open>schedulerrecovery\<close>, \<open>vanishedjob\<close>) keep their state in one file under a lock and publish it the
  same way: read, mutate in memory, validate, write a temporary file, fsync, rename, fsync the
  directory. The environment says how the lock and the write go; the locale states what a client
  may rely on, and its lemmas hold for every run of operations.
\<close>

text \<open>How a publication ends: written and synced, failed before the rename (the old file stays),
  or failed after the rename (the new file is in place but the caller sees an error).\<close>

datatype write_outcome = WriteOk | WriteFailsBeforeRename | WriteFailsAfterRename

record store_env =
  env_locked :: bool
  env_write :: write_outcome
  env_now :: time

text \<open>Publishing a new content: what the caller sees and what the file then holds.\<close>

definition publish :: "write_outcome \<Rightarrow> 'e \<Rightarrow> 'r \<Rightarrow> 'f \<Rightarrow> 'f \<Rightarrow> ('e + 'r) \<times> 'f" where
  "publish w e r old new =
     (case w of
        WriteOk \<Rightarrow> (Inr r, new)
      | WriteFailsBeforeRename \<Rightarrow> (Inl e, old)
      | WriteFailsAfterRename \<Rightarrow> (Inl e, new))"

lemma publish_cases:
  "snd (publish w e r old new) = old \<or> snd (publish w e r old new) = new"
  "w \<noteq> WriteFailsAfterRename \<Longrightarrow> fst (publish w e r old new) = Inl x \<Longrightarrow> snd (publish w e r old new) = old"
  "fst (publish w e r old new) = Inr y \<Longrightarrow> y = r \<and> snd (publish w e r old new) = new"
  by (auto simp: publish_def split: write_outcome.splits)

fun run_ops :: "('env \<Rightarrow> 'op \<Rightarrow> 'f \<Rightarrow> 'a \<times> 'f) \<Rightarrow> ('env \<times> 'op) list \<Rightarrow> 'f \<Rightarrow> 'f" where
  "run_ops step [] f = f"
| "run_ops step ((env, op) # ops) f = run_ops step ops (snd (step env op f))"

lemma run_ops_append: "run_ops step (xs @ ys) f = run_ops step ys (run_ops step xs f)"
  by (induction xs arbitrary: f) auto

locale durable_store =
  fixes step :: "'env \<Rightarrow> 'op \<Rightarrow> 'file \<Rightarrow> ('e + 'r) \<times> 'file"
    and read_file :: "'file \<Rightarrow> 'x + 'j"
    and ok :: "'j \<Rightarrow> bool"
    and allowed :: "'op \<Rightarrow> bool"
    and durable :: "'env \<Rightarrow> bool"
    and good :: "'file \<Rightarrow> bool"
  assumes good_step: "good f \<Longrightarrow> allowed op \<Longrightarrow> good (snd (step env op f))"
    and published: "good f \<Longrightarrow> allowed op \<Longrightarrow> snd (step env op f) \<noteq> f \<Longrightarrow>
      \<exists>j. read_file (snd (step env op f)) = Inr j \<and> ok j"
    and rejected: "durable env \<Longrightarrow> fst (step env op f) = Inl e \<Longrightarrow> snd (step env op f) = f"
begin

lemma run_good:
  "good f \<Longrightarrow> \<forall>(env, op) \<in> set ops. allowed op \<Longrightarrow> good (run_ops step ops f)"
  by (induction ops arbitrary: f) (auto simp: good_step)

text \<open>After any run the file is untouched or holds a complete journal that validates: no
  interleaving of failures leaves a torn or an invalid journal behind.\<close>

lemma run_atomic:
  assumes "good f" and "\<forall>(env, op) \<in> set ops. allowed op"
  shows "run_ops step ops f = f \<or> (\<exists>j. read_file (run_ops step ops f) = Inr j \<and> ok j)"
  using assms
proof (induction ops rule: rev_induct)
  case Nil
  then show ?case by simp
next
  case (snoc x ops)
  obtain env op where x: "x = (env, op)" by (cases x)
  let ?g = "run_ops step ops f"
  have g: "good ?g" using snoc.prems run_good [of f ops] by auto
  have "run_ops step (ops @ [x]) f = snd (step env op ?g)"
    by (simp add: run_ops_append x)
  then show ?case
    using published [OF g, of op env] snoc x by (cases "snd (step env op ?g) = ?g") auto
qed

lemma run_readable:
  assumes "good f" "\<forall>(env, op) \<in> set ops. allowed op" "read_file f = Inr j" "ok j"
  shows "\<exists>j'. read_file (run_ops step ops f) = Inr j' \<and> ok j'"
  using run_atomic [OF assms(1,2)] assms(3,4) by auto

lemma run_rejected:
  assumes "\<And>env op g. (env, op) \<in> set ops \<Longrightarrow> durable env \<and> (\<exists>e. fst (step env op g) = Inl e)"
  shows "run_ops step ops f = f"
  using assms
proof (induction ops arbitrary: f)
  case Nil
  then show ?case by simp
next
  case (Cons x ops)
  obtain env op where x: "x = (env, op)" by (cases x)
  have "snd (step env op f) = f"
    using Cons.prems [of env op f] rejected [of env op f] x by auto
  moreover have "run_ops step ops f = f"
    using Cons.prems by (intro Cons.IH) auto
  ultimately show ?case by (simp add: x)
qed

end

end
