(* ===== verification/Provider_Journal.thy ===== *)
theory Provider_Journal
  imports Durable_Store
begin

text \<open>
  The provider journal of \<open>src/internal/providerjournal\<close>: leases of admitted capacity, claims that
  bind one job to one warm instance, the validation every generation has to pass
  (\<open>types.go\<close>), the locked file store (\<open>store.go\<close>) and the reconciliation of expired image
  maintenance leases (\<open>maintenance.go\<close>). A journal file is modelled by the value it decodes to.
\<close>

named_theorems journal_simps \<open>evaluation rules of the journal\<close>

section \<open>Data\<close>

definition SchemaVersion :: int where "SchemaVersion = 4"
definition LegacySchemaVersion :: int where "LegacySchemaVersion = 1"
definition ClaimsSchemaVersion :: int where "ClaimsSchemaVersion = 2"
definition PreemptionSchemaVersion :: int where "PreemptionSchemaVersion = 3"

lemmas schema_defs [journal_simps] =
  SchemaVersion_def LegacySchemaVersion_def ClaimsSchemaVersion_def PreemptionSchemaVersion_def

datatype lease_state =
    StateAdmitted | StateCreated | StateDeleting | StateWarmReady | StateWarmClaimed
  | StateEmpty \<comment> \<open>the empty string\<close>
  | StateInvalid string \<comment> \<open>any other string\<close>

datatype claim_state = ClaimReserved | ClaimInjected | ClaimInvalid string

record claim =
  c_JobName :: string
  c_InstanceName :: string
  c_ControllerID :: string
  c_PoolID :: string
  c_PoolName :: string
  c_ImageFingerprint :: string
  c_State :: claim_state
  c_ReservedAt :: time
  c_UpdatedAt :: time
  c_ExpiresAt :: time

record lease =
  l_InstanceName :: string
  l_ControllerID :: string
  l_PoolID :: string
  l_PoolName :: string
  l_VCPU :: int
  l_CPUAllowanceUnits :: int
  l_MemoryMiB :: int
  l_ImageFingerprint :: string
  l_State :: lease_state
  l_PreemptedBy :: string
  l_AdmittedAt :: time
  l_UpdatedAt :: time
  l_ExpiresAt :: time

record journal =
  j_SchemaVersion :: int
  j_Generation :: uint64
  j_UpdatedAt :: time
  j_WarmPreemptionsTotal :: uint64
  j_Leases :: "lease gomap"
  j_Claims :: "claim gomap"

definition newJournal :: journal where
  "newJournal = \<lparr>j_SchemaVersion = SchemaVersion, j_Generation = 0, j_UpdatedAt = 0,
     j_WarmPreemptionsTotal = 0, j_Leases = [], j_Claims = []\<rparr>"

datatype journal_error =
    SchemaVersionMustBe int | LeasesNull | ClaimsNull
  | LeaseKeyMismatch string string | LeaseOwnership string | LeaseResources string
  | LeaseAllowance string | LeaseFingerprint string | LeaseStateInvalid string lease_state
  | LeaseTimestamps string | LeaseExpiry string | LeasePreemptionOwnership string
  | ClaimKeyMismatch string string | ClaimOwnership string
  | InstanceClaimedTwice string string string | ClaimMissingLease string string
  | ClaimLeaseConflict string string | ClaimPreemptedLease string string
  | ClaimLeaseState string string lease_state | ClaimStateInvalid string claim_state
  | ClaimTimestamps string | ClaimExpiry string
  | PreemptionTarget string string

section \<open>Validation\<close>

abbreviation warm_prefix :: string where "warm_prefix \<equiv> ''warm/''"

definition validate_lease :: "string \<Rightarrow> lease \<Rightarrow> journal_error option" where
  "validate_lease key l = checks [
     (key = [] \<or> l_InstanceName l \<noteq> key, LeaseKeyMismatch key (l_InstanceName l)),
     (l_ControllerID l = [] \<or> l_PoolID l = [] \<or> l_PoolName l = [], LeaseOwnership key),
     (l_VCPU l \<le> 0 \<or> l_MemoryMiB l \<le> 0, LeaseResources key),
     (l_CPUAllowanceUnits l > 0 \<and> l_CPUAllowanceUnits l < l_VCPU l, LeaseAllowance key),
     (l_ImageFingerprint l = [], LeaseFingerprint key),
     (l_State l \<notin> {StateAdmitted, StateCreated, StateDeleting, StateWarmReady, StateWarmClaimed},
        LeaseStateInvalid key (l_State l)),
     (is_zero (l_AdmittedAt l) \<or> is_zero (l_UpdatedAt l) \<or> is_zero (l_ExpiresAt l),
        LeaseTimestamps key),
     (l_ExpiresAt l < l_UpdatedAt l, LeaseExpiry key),
     (l_PreemptedBy l \<noteq> [] \<and>
        (\<not> (l_State l = StateCreated \<or> l_State l = StateWarmReady \<or> l_State l = StateDeleting)
         \<or> \<not> has_prefix (l_PoolID l) warm_prefix \<or> l_PreemptedBy l = key),
        LeasePreemptionOwnership key)]"

text \<open>One claim, given the instances claimed by the claims before it.\<close>

definition validate_claim ::
    "lease gomap \<Rightarrow> string gomap \<Rightarrow> string \<Rightarrow> claim \<Rightarrow> journal_error option" where
  "validate_claim leases claimed key c = then_check
     (checks [
        (key = [] \<or> c_JobName c \<noteq> key, ClaimKeyMismatch key (c_JobName c)),
        (c_InstanceName c = [] \<or> c_ControllerID c = [] \<or> c_PoolID c = [] \<or> c_PoolName c = []
           \<or> c_ImageFingerprint c = [], ClaimOwnership key)])
     (case get claimed (c_InstanceName c) of
        Some previous \<Rightarrow> Some (InstanceClaimedTwice (c_InstanceName c) previous key)
      | None \<Rightarrow>
        (case get leases (c_InstanceName c) of
           None \<Rightarrow> Some (ClaimMissingLease key (c_InstanceName c))
         | Some l \<Rightarrow> checks [
             (l_ControllerID l \<noteq> c_ControllerID c \<or> l_PoolName l \<noteq> c_PoolName c
                \<or> l_ImageFingerprint l \<noteq> c_ImageFingerprint c,
                ClaimLeaseConflict key (c_InstanceName c)),
             (l_PreemptedBy l \<noteq> [], ClaimPreemptedLease key (c_InstanceName c)),
             (l_State l \<noteq> StateWarmClaimed \<and> l_State l \<noteq> StateCreated \<and> l_State l \<noteq> StateDeleting,
                ClaimLeaseState key (c_InstanceName c) (l_State l)),
             (c_State c \<notin> {ClaimReserved, ClaimInjected}, ClaimStateInvalid key (c_State c)),
             (is_zero (c_ReservedAt c) \<or> is_zero (c_UpdatedAt c) \<or> is_zero (c_ExpiresAt c),
                ClaimTimestamps key),
             (c_ExpiresAt c < c_UpdatedAt c, ClaimExpiry key)]))"

fun validate_claims ::
    "lease gomap \<Rightarrow> claim gomap \<Rightarrow> string gomap \<Rightarrow> string list \<Rightarrow> journal_error option" where
  "validate_claims leases claims claimed [] = None"
| "validate_claims leases claims claimed (key # rest) =
     (case get claims key of
        None \<Rightarrow> validate_claims leases claims claimed rest
      | Some c \<Rightarrow>
          (case validate_claim leases claimed key c of
             Some e \<Rightarrow> Some e
           | None \<Rightarrow> validate_claims leases claims (put (c_InstanceName c) key claimed) rest))"

definition validate_target :: "lease gomap \<Rightarrow> string \<times> lease \<Rightarrow> journal_error option" where
  "validate_target leases = (\<lambda>(key, l).
     if l_PreemptedBy l = [] then None
     else (case get leases (l_PreemptedBy l) of
             None \<Rightarrow> Some (PreemptionTarget key (l_PreemptedBy l))
           | Some target \<Rightarrow>
               if has_prefix (l_PoolID target) warm_prefix \<or> l_PreemptedBy target \<noteq> []
               then Some (PreemptionTarget key (l_PreemptedBy l)) else None))"

definition validate_maps :: "lease gomap \<Rightarrow> claim gomap \<Rightarrow> journal_error option" where
  "validate_maps leases claims =
     then_check
       (first_error (\<lambda>key. case get leases key of None \<Rightarrow> None | Some l \<Rightarrow> validate_lease key l)
          (sort (keys leases)))
       (then_check (validate_claims leases claims [] (sort (keys claims)))
          (first_error (validate_target leases) leases))"

definition journal_Validate :: "journal \<Rightarrow> journal_error option" where
  "journal_Validate j =
     (if j_SchemaVersion j \<noteq> SchemaVersion then Some (SchemaVersionMustBe SchemaVersion)
      else validate_maps (j_Leases j) (j_Claims j))"

section \<open>The file store\<close>

text \<open>A decoded document: its maps may be JSON null.\<close>

record journal_doc =
  d_SchemaVersion :: int
  d_Generation :: uint64
  d_UpdatedAt :: time
  d_WarmPreemptionsTotal :: uint64
  d_Leases :: "lease gomap option"
  d_Claims :: "claim gomap option"

definition doc_of :: "journal \<Rightarrow> journal_doc" where
  "doc_of j = \<lparr>d_SchemaVersion = j_SchemaVersion j, d_Generation = j_Generation j,
     d_UpdatedAt = j_UpdatedAt j, d_WarmPreemptionsTotal = j_WarmPreemptionsTotal j,
     d_Leases = Some (j_Leases j), d_Claims = Some (j_Claims j)\<rparr>"

text \<open>What the path holds: no file, a file that cannot be opened, is not a private regular file,
  is too large or does not decode to exactly one document, or a document.\<close>

datatype journal_file = NoFile | BadFile | JournalFile journal_doc

datatype store_error =
    LockFailed | OpenOrDecodeFailed | StoredJournalInvalid journal_error
  | MutatedJournalInvalid journal_error | WriteFailed

definition readUnlocked :: "journal_file \<Rightarrow> store_error + journal" where
  "readUnlocked f =
     (case f of
        NoFile \<Rightarrow> Inr newJournal
      | BadFile \<Rightarrow> Inl OpenOrDecodeFailed
      | JournalFile d \<Rightarrow>
          (let claims = (if d_SchemaVersion d = LegacySchemaVersion \<and> d_Claims d = None
                         then Some [] else d_Claims d);
               version = (if d_SchemaVersion d = LegacySchemaVersion
                            \<or> d_SchemaVersion d = ClaimsSchemaVersion
                            \<or> d_SchemaVersion d = PreemptionSchemaVersion
                          then SchemaVersion else d_SchemaVersion d)
           in if version \<noteq> SchemaVersion
              then Inl (StoredJournalInvalid (SchemaVersionMustBe SchemaVersion))
              else (case d_Leases d of
                      None \<Rightarrow> Inl (StoredJournalInvalid LeasesNull)
                    | Some leases \<Rightarrow>
                      (case claims of
                         None \<Rightarrow> Inl (StoredJournalInvalid ClaimsNull)
                       | Some cs \<Rightarrow>
                         (case validate_maps leases cs of
                            Some e \<Rightarrow> Inl (StoredJournalInvalid e)
                          | None \<Rightarrow> Inr \<lparr>j_SchemaVersion = version, j_Generation = d_Generation d,
                                         j_UpdatedAt = d_UpdatedAt d,
                                         j_WarmPreemptionsTotal = d_WarmPreemptionsTotal d,
                                         j_Leases = leases, j_Claims = cs\<rparr>)))))"

definition journalsEqual :: "journal \<Rightarrow> journal \<Rightarrow> bool" where
  "journalsEqual left right \<longleftrightarrow>
     j_SchemaVersion left = j_SchemaVersion right
     \<and> j_WarmPreemptionsTotal left = j_WarmPreemptionsTotal right
     \<and> length (j_Leases left) = length (j_Leases right)
     \<and> length (j_Claims left) = length (j_Claims right)
     \<and> list_all (\<lambda>(key, l). get (j_Leases right) key = Some l) (j_Leases left)
     \<and> list_all (\<lambda>(key, c). get (j_Claims right) key = Some c) (j_Claims left)"

text \<open>\<open>Store.Read\<close> under the lock, and \<open>Store.Update\<close> with the caller's mutation; the mutation
  reports its own errors as \<open>'e\<close> and its result as \<open>'r\<close>.\<close>

definition store_Read :: "store_env \<Rightarrow> journal_file \<Rightarrow> store_error + journal" where
  "store_Read env f = (if \<not> env_locked env then Inl LockFailed else readUnlocked f)"

datatype 'e update_error = StoreError store_error | MutationError 'e

definition store_Update ::
    "store_env \<Rightarrow> (journal \<Rightarrow> 'e + journal \<times> 'r) \<Rightarrow> journal_file
      \<Rightarrow> ('e update_error + 'r \<times> journal) \<times> journal_file" where
  "store_Update env mutate f =
     (if \<not> env_locked env then (Inl (StoreError LockFailed), f)
      else (case readUnlocked f of
              Inl e \<Rightarrow> (Inl (StoreError e), f)
            | Inr before \<Rightarrow>
              (case mutate before of
                 Inl e \<Rightarrow> (Inl (MutationError e), f)
               | Inr (j, r) \<Rightarrow>
                 (case journal_Validate j of
                    Some e \<Rightarrow> (Inl (StoreError (MutatedJournalInvalid e)), f)
                  | None \<Rightarrow>
                    if journalsEqual before j then (Inr (r, j), f)
                    else (let j' = j\<lparr>j_Generation := j_Generation j + 1, j_UpdatedAt := env_now env\<rparr>
                          in publish (env_write env) (StoreError WriteFailed) (r, j') f
                               (JournalFile (doc_of j')))))))"

section \<open>Expired image maintenance\<close>

definition maintenanceExpiryGrace :: duration where "maintenanceExpiryGrace = minute"

record maintenance_result =
  mr_Applied :: bool
  mr_ObservedAt :: time
  mr_Candidates :: "string list"
  mr_Removed :: "string list"
  mr_Retained :: "string list"

definition IsImageMaintenanceInstance :: "string \<Rightarrow> bool" where
  "IsImageMaintenanceInstance name \<longleftrightarrow>
     list_ex (\<lambda>p. has_prefix name p \<and> length name = length p + 12
         \<and> list_all (\<lambda>c. c \<in> set ''0123456789abcdef'') (drop (length p) name))
       [''gha-image-builder-'', ''gha-image-smoke-'']"

definition maintenance_pool_prefix :: string where
  "maintenance_pool_prefix = ''image-maintenance/''"

definition maintenanceCandidates :: "journal \<Rightarrow> string list \<Rightarrow> time \<Rightarrow> string list" where
  "maintenanceCandidates j visible now = sort (map fst (filter (\<lambda>(name, l).
     \<not> (\<not> IsImageMaintenanceInstance name \<or> \<not> has_prefix (l_PoolID l) maintenance_pool_prefix
        \<or> name \<in> set visible \<or> name \<in> set (map (c_InstanceName \<circ> snd) (j_Claims j))
        \<or> l_PreemptedBy l \<noteq> [] \<or> now < l_ExpiresAt l + maintenanceExpiryGrace)) (j_Leases j)))"

definition retainedMaintenance :: "journal \<Rightarrow> string list \<Rightarrow> string list" where
  "retainedMaintenance j removed = sort (map fst (filter (\<lambda>(name, l).
     IsImageMaintenanceInstance name \<and> has_prefix (l_PoolID l) maintenance_pool_prefix
     \<and> name \<notin> set removed) (j_Leases j)))"

definition remove_instance :: "string \<Rightarrow> journal \<Rightarrow> journal" where
  "remove_instance name j = j\<lparr>j_Leases := del name (j_Leases j),
     j_Claims := filter (\<lambda>(job, c). c_InstanceName c \<noteq> name) (j_Claims j)\<rparr>"

definition remove_maintenance :: "string list \<Rightarrow> time \<Rightarrow> journal \<Rightarrow> unit + journal \<times> string list" where
  "remove_maintenance visible now j =
     (let names = maintenanceCandidates j visible now
      in Inr (fold remove_instance names j, names))"

definition ReconcileExpiredMaintenance ::
    "store_env \<Rightarrow> store_env \<Rightarrow> string list \<Rightarrow> time \<Rightarrow> bool \<Rightarrow> journal_file
      \<Rightarrow> (unit update_error + maintenance_result) \<times> journal_file" where
  "ReconcileExpiredMaintenance env_read env_update visible now apply f =
     (case store_Read env_read f of
        Inl e \<Rightarrow> (Inl (StoreError e), f)
      | Inr j \<Rightarrow>
        (let candidates = maintenanceCandidates j visible now
         in if \<not> apply
            then (Inr \<lparr>mr_Applied = False, mr_ObservedAt = now, mr_Candidates = candidates,
                       mr_Removed = [], mr_Retained = retainedMaintenance j candidates\<rparr>, f)
            else (case store_Update env_update (remove_maintenance visible now) f of
                    (Inl e, f') \<Rightarrow> (Inl e, f')
                  | (Inr (removed, updated), f') \<Rightarrow>
                      (Inr \<lparr>mr_Applied = True, mr_ObservedAt = now, mr_Candidates = candidates,
                            mr_Removed = removed, mr_Retained = retainedMaintenance updated removed\<rparr>,
                       f'))))"

section \<open>What a valid journal promises\<close>

text \<open>The validation as a set of declarative laws.\<close>

definition lease_ok :: "lease gomap \<Rightarrow> string \<Rightarrow> lease \<Rightarrow> bool" where
  "lease_ok leases key l \<longleftrightarrow>
     key \<noteq> [] \<and> l_InstanceName l = key
     \<and> l_ControllerID l \<noteq> [] \<and> l_PoolID l \<noteq> [] \<and> l_PoolName l \<noteq> []
     \<and> 0 < l_VCPU l \<and> 0 < l_MemoryMiB l
     \<and> (l_CPUAllowanceUnits l \<le> 0 \<or> l_VCPU l \<le> l_CPUAllowanceUnits l)
     \<and> l_ImageFingerprint l \<noteq> []
     \<and> l_State l \<in> {StateAdmitted, StateCreated, StateDeleting, StateWarmReady, StateWarmClaimed}
     \<and> l_AdmittedAt l \<noteq> 0 \<and> l_UpdatedAt l \<noteq> 0 \<and> l_ExpiresAt l \<noteq> 0
     \<and> l_UpdatedAt l \<le> l_ExpiresAt l
     \<and> (l_PreemptedBy l \<noteq> [] \<longrightarrow>
          l_State l \<in> {StateCreated, StateWarmReady, StateDeleting}
          \<and> has_prefix (l_PoolID l) warm_prefix \<and> l_PreemptedBy l \<noteq> key
          \<and> (\<exists>target. get leases (l_PreemptedBy l) = Some target
                \<and> \<not> has_prefix (l_PoolID target) warm_prefix \<and> l_PreemptedBy target = []))"

definition claim_ok :: "lease gomap \<Rightarrow> string \<Rightarrow> claim \<Rightarrow> bool" where
  "claim_ok leases key c \<longleftrightarrow>
     key \<noteq> [] \<and> c_JobName c = key
     \<and> c_InstanceName c \<noteq> [] \<and> c_ControllerID c \<noteq> [] \<and> c_PoolID c \<noteq> [] \<and> c_PoolName c \<noteq> []
     \<and> c_ImageFingerprint c \<noteq> []
     \<and> c_State c \<in> {ClaimReserved, ClaimInjected}
     \<and> c_ReservedAt c \<noteq> 0 \<and> c_UpdatedAt c \<noteq> 0 \<and> c_ExpiresAt c \<noteq> 0 \<and> c_UpdatedAt c \<le> c_ExpiresAt c
     \<and> (\<exists>l. get leases (c_InstanceName c) = Some l
          \<and> l_ControllerID l = c_ControllerID c \<and> l_PoolName l = c_PoolName c
          \<and> l_ImageFingerprint l = c_ImageFingerprint c \<and> l_PreemptedBy l = []
          \<and> l_State l \<in> {StateWarmClaimed, StateCreated, StateDeleting})"

definition maps_ok :: "lease gomap \<Rightarrow> claim gomap \<Rightarrow> bool" where
  "maps_ok leases claims \<longleftrightarrow>
     (\<forall>key l. get leases key = Some l \<longrightarrow> lease_ok leases key l)
     \<and> (\<forall>key c. get claims key = Some c \<longrightarrow> claim_ok leases key c)
     \<and> (\<forall>k1 c1 k2 c2. get claims k1 = Some c1 \<longrightarrow> get claims k2 = Some c2
          \<longrightarrow> c_InstanceName c1 = c_InstanceName c2 \<longrightarrow> k1 = k2)"

definition wf_journal :: "journal \<Rightarrow> bool" where
  "wf_journal j \<longleftrightarrow> wf_map (j_Leases j) \<and> wf_map (j_Claims j)"

definition journal_ok :: "journal \<Rightarrow> bool" where
  "journal_ok j \<longleftrightarrow> j_SchemaVersion j = SchemaVersion \<and> wf_journal j \<and> maps_ok (j_Leases j) (j_Claims j)"

lemma validate_lease_None_iff:
  "validate_lease key l = None \<and> validate_target leases (key, l) = None \<longleftrightarrow> lease_ok leases key l"
proof (cases "l_PreemptedBy l = []")
  case True
  then show ?thesis
    unfolding validate_lease_def checks_None_iff lease_ok_def validate_target_def is_zero_def
    by (simp add: not_less not_le)
next
  case False
  have "validate_target leases (key, l) = None \<longleftrightarrow> (\<exists>target. get leases (l_PreemptedBy l) = Some target
      \<and> \<not> has_prefix (l_PoolID target) warm_prefix \<and> l_PreemptedBy target = [])"
    using False by (auto simp: validate_target_def split: option.splits if_splits)
  then show ?thesis
    using False unfolding validate_lease_def checks_None_iff lease_ok_def is_zero_def
    by (simp add: not_less not_le) meson
qed

lemma validate_claim_None_iff:
  "validate_claim leases claimed key c = None \<longleftrightarrow>
     claim_ok leases key c \<and> \<not> has claimed (c_InstanceName c)"
proof (cases "get leases (c_InstanceName c)")
  case None
  then show ?thesis
    by (simp add: validate_claim_def claim_ok_def checks_None_iff split: option.split)
next
  case (Some l)
  show ?thesis
  proof (cases "get claimed (c_InstanceName c)")
    case None
    with Some show ?thesis
      unfolding validate_claim_def claim_ok_def then_check_None_iff
      by (simp add: checks_None_iff is_zero_def has_def not_less del: checks.simps) meson
  next
    case (Some k)
    then show ?thesis by (simp add: validate_claim_def has_def)
  qed
qed

text \<open>The claims of a list of keys are pairwise on different instances, and none is on an instance
  claimed before.\<close>

fun claims_disjoint :: "claim gomap \<Rightarrow> string gomap \<Rightarrow> string list \<Rightarrow> bool" where
  "claims_disjoint claims claimed [] = True"
| "claims_disjoint claims claimed (key # rest) =
     (case get claims key of
        None \<Rightarrow> claims_disjoint claims claimed rest
      | Some c \<Rightarrow> \<not> has claimed (c_InstanceName c)
          \<and> claims_disjoint claims (put (c_InstanceName c) key claimed) rest)"

lemma validate_claims_None_iff:
  "validate_claims leases claims claimed ks = None \<longleftrightarrow>
     (\<forall>key c. key \<in> set ks \<longrightarrow> get claims key = Some c \<longrightarrow> claim_ok leases key c)
     \<and> claims_disjoint claims claimed ks"
proof (induction ks arbitrary: claimed)
  case Nil
  show ?case by simp
next
  case (Cons key ks)
  show ?case
  proof (cases "get claims key")
    case None
    with Cons.IH show ?thesis by auto
  next
    case (Some c)
    have step: "validate_claims leases claims claimed (key # ks) = None \<longleftrightarrow>
        validate_claim leases claimed key c = None
        \<and> validate_claims leases claims (put (c_InstanceName c) key claimed) ks = None"
      using Some by (simp split: option.split)
    show ?thesis
      unfolding step Cons.IH validate_claim_None_iff using Some by auto
  qed
qed

lemma claims_disjoint_iff:
  "distinct ks \<Longrightarrow> claims_disjoint claims claimed ks \<longleftrightarrow>
     (\<forall>k c. k \<in> set ks \<longrightarrow> get claims k = Some c \<longrightarrow> \<not> has claimed (c_InstanceName c))
     \<and> (\<forall>k1 c1 k2 c2. k1 \<in> set ks \<longrightarrow> k2 \<in> set ks \<longrightarrow> get claims k1 = Some c1 \<longrightarrow> get claims k2 = Some c2
          \<longrightarrow> c_InstanceName c1 = c_InstanceName c2 \<longrightarrow> k1 = k2)"
proof (induction ks arbitrary: claimed)
  case Nil
  show ?case by simp
next
  case (Cons key ks)
  then have nd: "key \<notin> set ks" "distinct ks" by auto
  show ?case
  proof (cases "get claims key")
    case None
    with Cons.IH [OF nd(2)] show ?thesis by auto
  next
    case (Some c)
    have step: "claims_disjoint claims claimed (key # ks) \<longleftrightarrow> \<not> has claimed (c_InstanceName c)
        \<and> claims_disjoint claims (put (c_InstanceName c) key claimed) ks"
      using Some by simp
    show ?thesis
      unfolding step Cons.IH [OF nd(2)] has_put using Some nd(1)
      by (intro iffI conjI allI impI) (auto; metis)+
  qed
qed

lemma validate_maps_None_iff:
  assumes "wf_map leases" "wf_map claims"
  shows "validate_maps leases claims = None \<longleftrightarrow> maps_ok leases claims"
proof -
  have d: "distinct (sort (keys claims))" using assms(2) by (simp add: wf_map_def)
  have leases: "(first_error (\<lambda>key. case get leases key of None \<Rightarrow> None | Some l \<Rightarrow> validate_lease key l)
      (sort (keys leases)) = None \<and> first_error (validate_target leases) leases = None) \<longleftrightarrow>
      (\<forall>key l. get leases key = Some l \<longrightarrow> lease_ok leases key l)"
  proof -
    have "first_error (\<lambda>key. case get leases key of None \<Rightarrow> None | Some l \<Rightarrow> validate_lease key l)
        (sort (keys leases)) = None \<longleftrightarrow> (\<forall>key l. get leases key = Some l \<longrightarrow> validate_lease key l = None)"
      by (auto split: option.splits dest: get_in_keys)
    moreover have "first_error (validate_target leases) leases = None \<longleftrightarrow>
        (\<forall>key l. get leases key = Some l \<longrightarrow> validate_target leases (key, l) = None)"
      using assms(1) by (auto simp: get_iff_mem)
    ultimately show ?thesis
      using validate_lease_None_iff [of _ _ leases] by blast
  qed
  have claims: "validate_claims leases claims [] (sort (keys claims)) = None \<longleftrightarrow>
      (\<forall>key c. get claims key = Some c \<longrightarrow> claim_ok leases key c)
      \<and> (\<forall>k1 c1 k2 c2. get claims k1 = Some c1 \<longrightarrow> get claims k2 = Some c2
          \<longrightarrow> c_InstanceName c1 = c_InstanceName c2 \<longrightarrow> k1 = k2)"
    unfolding validate_claims_None_iff claims_disjoint_iff [OF d]
    by (auto simp: has_def dest: get_in_keys) (metis get_in_keys)+
  show ?thesis
    unfolding validate_maps_def maps_ok_def then_check_None_iff using leases claims by blast
qed

lemma journal_Validate_iff:
  "wf_journal j \<Longrightarrow> journal_Validate j = None \<longleftrightarrow> journal_ok j"
  by (simp add: journal_Validate_def journal_ok_def wf_journal_def validate_maps_None_iff)

section \<open>The store implements the durable-store contract\<close>

definition wf_file :: "journal_file \<Rightarrow> bool" where
  "wf_file f \<longleftrightarrow> (case f of JournalFile d \<Rightarrow>
     (\<forall>m. d_Leases d = Some m \<longrightarrow> wf_map m) \<and> (\<forall>m. d_Claims d = Some m \<longrightarrow> wf_map m) | _ \<Rightarrow> True)"

definition wf_mutation :: "(journal \<Rightarrow> 'e + journal \<times> 'r) \<Rightarrow> bool" where
  "wf_mutation mutate \<longleftrightarrow> (\<forall>j j' r. wf_journal j \<longrightarrow> mutate j = Inr (j', r) \<longrightarrow> wf_journal j')"

definition env_durable :: "store_env \<Rightarrow> bool" where
  "env_durable env \<longleftrightarrow> env_write env \<noteq> WriteFailsAfterRename"

lemma wf_newJournal [simp]: "wf_journal newJournal"
  by (simp add: wf_journal_def newJournal_def wf_empty)

lemma validate_maps_empty [simp]: "validate_maps [] [] = None"
  by (simp add: validate_maps_def keys_def)

lemma readUnlocked_valid: "readUnlocked f = Inr j \<Longrightarrow> journal_Validate j = None"
  by (auto simp: readUnlocked_def journal_Validate_def newJournal_def Let_def
      split: journal_file.splits option.splits if_splits)

lemma readUnlocked_wf: "wf_file f \<Longrightarrow> readUnlocked f = Inr j \<Longrightarrow> wf_journal j"
  by (auto simp: readUnlocked_def wf_file_def wf_journal_def Let_def wf_empty newJournal_def
      split: journal_file.splits option.splits if_splits)

lemma readUnlocked_ok: "wf_file f \<Longrightarrow> readUnlocked f = Inr j \<Longrightarrow> journal_ok j"
  using readUnlocked_valid readUnlocked_wf journal_Validate_iff by blast

text \<open>A published generation reads back as it was written.\<close>

lemma readUnlocked_doc_of:
  "journal_Validate j = None \<Longrightarrow> readUnlocked (JournalFile (doc_of j)) = Inr j"
  by (simp add: readUnlocked_def doc_of_def journal_Validate_def Let_def schema_defs split: if_splits)

lemma store_Update_cases:
  assumes "store_Update env mutate f = (res, f')"
  obtains (unchanged) "f' = f"
  | (published) before j r where "env_locked env" "readUnlocked f = Inr before" "mutate before = Inr (j, r)"
      "journal_Validate j = None" "\<not> journalsEqual before j" "env_write env \<noteq> WriteFailsBeforeRename"
      "f' = JournalFile (doc_of (j\<lparr>j_Generation := j_Generation j + 1, j_UpdatedAt := env_now env\<rparr>))"
      "res = (if env_write env = WriteOk
              then Inr (r, j\<lparr>j_Generation := j_Generation j + 1, j_UpdatedAt := env_now env\<rparr>)
              else Inl (StoreError WriteFailed))"
  using assms
  by (auto simp: store_Update_def publish_def Let_def
      split: if_splits sum.splits prod.splits option.splits write_outcome.splits)

lemma journal_Validate_stamp [simp]:
  "journal_Validate (j\<lparr>j_Generation := g, j_UpdatedAt := t\<rparr>) = journal_Validate j"
  by (simp add: journal_Validate_def)

interpretation pj: durable_store
  "store_Update :: store_env \<Rightarrow> (journal \<Rightarrow> 'e + journal \<times> 'r) \<Rightarrow> journal_file
    \<Rightarrow> ('e update_error + 'r \<times> journal) \<times> journal_file"
  readUnlocked journal_ok wf_mutation env_durable wf_file
proof
  fix f env and op :: "journal \<Rightarrow> 'e + journal \<times> 'r"
  assume f: "wf_file f" and op: "wf_mutation op"
  obtain res f' where st: "store_Update env op f = (res, f')" by fastforce
  have pub: "f' = f \<or> wf_file f' \<and> (\<exists>j. readUnlocked f' = Inr j \<and> journal_ok j)"
    using st
  proof (cases rule: store_Update_cases)
    case unchanged
    then show ?thesis by simp
  next
    case (published before j r)
    have wf: "wf_journal j"
      using readUnlocked_wf [OF f] op published(2,3) unfolding wf_mutation_def by blast
    let ?j = "j\<lparr>j_Generation := j_Generation j + 1, j_UpdatedAt := env_now env\<rparr>"
    have "wf_file f'" using wf published(7)
      by (simp add: wf_file_def doc_of_def wf_journal_def)
    moreover have "readUnlocked f' = Inr ?j"
      using published(4,7) by (simp add: readUnlocked_doc_of)
    ultimately show ?thesis using readUnlocked_ok by blast
  qed
  show "wf_file (snd (store_Update env op f))" using pub f st by auto
  show "\<exists>j. readUnlocked (snd (store_Update env op f)) = Inr j \<and> journal_ok j"
    if "snd (store_Update env op f) \<noteq> f" using pub that st by auto
next
  fix env f e and op :: "journal \<Rightarrow> 'e + journal \<times> 'r"
  assume "env_durable env" "fst (store_Update env op f) = Inl e"
  then show "snd (store_Update env op f) = f"
    by (cases "store_Update env op f" rule: prod.exhaust)
       (auto elim!: store_Update_cases simp: env_durable_def split: if_splits
             intro: write_outcome.exhaust)
qed

section \<open>What a successful update leaves in the file\<close>

lemma list_all_get_eq:
  assumes "wf_map m" "wf_map n" "length m = length n" "list_all (\<lambda>(k, v). get n k = Some v) m"
  shows "get m = get n"
proof -
  have sub: "set m \<subseteq> set n"
    using assms(2,4) by (auto simp: list_all_iff get_iff_mem)
  have "distinct m" "distinct n"
    using assms(1,2) by (auto simp: wf_map_def keys_def distinct_map)
  then have "card (set m) = card (set n)" using assms(3) by (simp add: distinct_card)
  with sub have eq: "set m = set n" by (simp add: card_subset_eq)
  show ?thesis
  proof
    fix k
    show "get m k = get n k"
      using eq get_iff_mem [OF assms(1)] get_iff_mem [OF assms(2)]
      by (metis not_Some_eq)
  qed
qed

lemma journalsEqual_get:
  assumes "journalsEqual a b" "wf_journal a" "wf_journal b"
  shows "get (j_Leases a) = get (j_Leases b)" "get (j_Claims a) = get (j_Claims b)"
  using assms list_all_get_eq unfolding journalsEqual_def wf_journal_def by blast+

lemma store_Update_succeeds:
  assumes env: "env_locked env" "env_write env = WriteOk" and f: "wf_file f"
    and j: "readUnlocked f = Inr j" and m: "m j = Inr (j', r)" and ok: "journal_ok j'"
  shows "\<exists>f' j1 j2. store_Update env m f = (Inr (r, j2), f') \<and> readUnlocked f' = Inr j1
    \<and> get (j_Leases j1) = get (j_Leases j') \<and> get (j_Claims j1) = get (j_Claims j')"
proof -
  have v: "journal_Validate j' = None" and wf': "wf_journal j'"
    using ok journal_Validate_iff by (auto simp: journal_ok_def)
  have wf: "wf_journal j" using readUnlocked_wf [OF f j] .
  show ?thesis
  proof (cases "journalsEqual j j'")
    case True
    then have "store_Update env m f = (Inr (r, j'), f)"
      using env j m v by (simp add: store_Update_def)
    then show ?thesis using j journalsEqual_get [OF True wf wf'] by blast
  next
    case False
    let ?j = "j'\<lparr>j_Generation := j_Generation j' + 1, j_UpdatedAt := env_now env\<rparr>"
    have "store_Update env m f = (Inr (r, ?j), JournalFile (doc_of ?j))"
      using env j m v False by (simp add: store_Update_def publish_def Let_def)
    moreover have "readUnlocked (JournalFile (doc_of ?j)) = Inr ?j"
      using v by (intro readUnlocked_doc_of) simp
    moreover have "get (j_Leases ?j) = get (j_Leases j')" "get (j_Claims ?j) = get (j_Claims j')" by simp_all
    ultimately show ?thesis by blast
  qed
qed

lemma store_Update_result:
  assumes st: "store_Update env m f = (Inr (r, j2), f')" and f: "wf_file f" and m: "wf_mutation m"
  shows "\<exists>before j j1. readUnlocked f = Inr before \<and> wf_journal before \<and> m before = Inr (j, r) \<and> journal_ok j
    \<and> readUnlocked f' = Inr j1 \<and> wf_journal j1
    \<and> get (j_Leases j1) = get (j_Leases j) \<and> get (j_Claims j1) = get (j_Claims j)"
proof -
  obtain before j where b: "readUnlocked f = Inr before" "m before = Inr (j, r)" "journal_Validate j = None"
      "env_locked env"
    using st by (auto simp: store_Update_def publish_def Let_def
        split: if_splits sum.splits prod.splits option.splits write_outcome.splits)
  have wfb: "wf_journal before" using readUnlocked_wf [OF f b(1)] .
  then have wfj: "wf_journal j" using m b(2) unfolding wf_mutation_def by blast
  have ok: "journal_ok j" using journal_Validate_iff [OF wfj] b(3) by blast
  show ?thesis
  proof (cases "journalsEqual before j")
    case True
    then have "f' = f" using st b by (simp add: store_Update_def)
    then show ?thesis using b wfb ok journalsEqual_get [OF True wfb wfj] by blast
  next
    case False
    let ?j = "j\<lparr>j_Generation := j_Generation j + 1, j_UpdatedAt := env_now env\<rparr>"
    have "f' = JournalFile (doc_of ?j)"
      using st b False by (auto simp: store_Update_def publish_def Let_def split: write_outcome.splits)
    moreover have "readUnlocked (JournalFile (doc_of ?j)) = Inr ?j" using b(3) by (intro readUnlocked_doc_of) simp
    moreover have "wf_journal ?j" "get (j_Leases ?j) = get (j_Leases j)" "get (j_Claims ?j) = get (j_Claims j)"
      using wfj by (simp_all add: wf_journal_def)
    ultimately show ?thesis using b wfb ok by blast
  qed
qed

section \<open>Removing expired maintenance\<close>

lemma fold_remove_instance:
  assumes "wf_journal j"
  shows "wf_journal (fold remove_instance names j)
    \<and> get (j_Leases (fold remove_instance names j)) k = (if k \<in> set names then None else get (j_Leases j) k)
    \<and> (get (j_Claims (fold remove_instance names j)) job = Some cl \<longleftrightarrow>
         get (j_Claims j) job = Some cl \<and> c_InstanceName cl \<notin> set names)
    \<and> j_SchemaVersion (fold remove_instance names j) = j_SchemaVersion j"
  using assms
proof (induction names arbitrary: j)
  case Nil
  then show ?case by simp
next
  case (Cons n ns)
  have wf: "wf_journal (remove_instance n j)"
    using Cons.prems by (simp add: wf_journal_def remove_instance_def wf_del wf_filter)
  have g: "get (j_Leases (remove_instance n j)) k = (if k = n then None else get (j_Leases j) k)"
      "get (j_Claims (remove_instance n j)) job = Some cl \<longleftrightarrow> get (j_Claims j) job = Some cl \<and> c_InstanceName cl \<noteq> n"
      "j_SchemaVersion (remove_instance n j) = j_SchemaVersion j"
    using Cons.prems
    by (auto simp: remove_instance_def map_simps get_filter wf_journal_def split: option.splits if_splits)
  show ?case using Cons.IH [OF wf] g by auto
qed

lemma maintenanceCandidates_iff:
  assumes "wf_journal j"
  shows "name \<in> set (maintenanceCandidates j visible now) \<longleftrightarrow>
    (\<exists>l. get (j_Leases j) name = Some l \<and> IsImageMaintenanceInstance name
       \<and> has_prefix (l_PoolID l) maintenance_pool_prefix \<and> name \<notin> set visible \<and> l_PreemptedBy l = []
       \<and> l_ExpiresAt l + minute \<le> now \<and> (\<forall>job k. get (j_Claims j) job = Some k \<longrightarrow> c_InstanceName k \<noteq> name))"
proof -
  have "(name \<in> set (map (c_InstanceName \<circ> snd) (j_Claims j))) \<longleftrightarrow>
      (\<exists>job k. get (j_Claims j) job = Some k \<and> c_InstanceName k = name)"
    using assms by (force simp: wf_journal_def get_iff_mem)
  then show ?thesis
    using assms unfolding maintenanceCandidates_def maintenanceExpiryGrace_def
    by (auto simp: wf_journal_def get_iff_mem not_less image_iff)
qed

section \<open>A concrete journal\<close>

text \<open>A journal with a dead image builder and a live lease.\<close>

definition builder_lease :: lease where
  "builder_lease = \<lparr>l_InstanceName = ''gha-image-smoke-0123456789ab'', l_ControllerID = ''c'',
     l_PoolID = ''image-maintenance/smoke'', l_PoolName = ''image-maintenance'', l_VCPU = 2, l_CPUAllowanceUnits = 2,
     l_MemoryMiB = 2048, l_ImageFingerprint = ''img'', l_State = StateAdmitted, l_PreemptedBy = [],
     l_AdmittedAt = 1, l_UpdatedAt = 1, l_ExpiresAt = 2\<rparr>"

definition builder_journal :: journal where
  "builder_journal = newJournal\<lparr>j_Leases := [(l_InstanceName builder_lease, builder_lease),
     (''job'', builder_lease\<lparr>l_InstanceName := ''job'', l_PoolID := ''scale/1''\<rparr>)]\<rparr>"

definition builder_file :: journal_file where "builder_file = JournalFile (doc_of builder_journal)"

definition writable :: store_env where
  "writable = \<lparr>env_locked = True, env_write = WriteOk, env_now = 5\<rparr>"

lemma builder_file_wf: "wf_file builder_file"
  by (simp add: wf_file_def builder_file_def doc_of_def builder_journal_def newJournal_def wf_map_def keys_def
      builder_lease_def)

lemma builder_file_reads: "readUnlocked builder_file = Inr builder_journal"
  by code_simp

section \<open>Properties\<close>

text \<open>C22: the executable validation of a journal accepts exactly the journals that satisfy the declarative
  laws: identity of keys, positive resources, known states, ordered timestamps, claims bound one to one
  to live leases of the same owner, pool and image, and preemption marks that point to a live, regular,
  unpreempted request.\<close>

theorem journal_validation_exact:
  assumes "wf_journal j"
  shows "journal_Validate j = None \<longleftrightarrow> journal_ok j"
  by (rule journal_Validate_iff [OF assms])

theorem journal_validation_exact_witness:
  "journal_Validate builder_journal = None \<and> journal_ok builder_journal"
proof -
  have "wf_journal builder_journal" by code_simp
  moreover have "journal_Validate builder_journal = None" by code_simp
  ultimately show ?thesis using journal_validation_exact by blast
qed



text \<open>A reported success is on disk. After an update that succeeds the file either is untouched, because
  the mutation changed nothing, or reads back as exactly the journal the caller was given, one
  generation later.\<close>

theorem store_Update_roundtrip:
  assumes "store_Update env m f = (Inr (r, j), f')" "readUnlocked f = Inr before"
  shows "f' = f \<and> journalsEqual before j \<or>
    readUnlocked f' = Inr j \<and> (\<exists>j0. m before = Inr (j0, r) \<and> \<not> journalsEqual before j0
      \<and> j = j0\<lparr>j_Generation := j_Generation j0 + 1, j_UpdatedAt := env_now env\<rparr>)"
  using assms
  by (auto simp: store_Update_def publish_def Let_def intro!: readUnlocked_doc_of
      split: if_splits sum.splits prod.splits option.splits write_outcome.splits)

theorem store_Update_roundtrip_witness:
  "\<exists>r j f'. store_Update writable (remove_maintenance [] (2 * minute)) builder_file = (Inr (r, j), f')
     \<and> readUnlocked f' = Inr j \<and> r \<noteq> []"
proof -
  let ?u = "store_Update writable (remove_maintenance [] (2 * minute)) builder_file"
  have "case fst ?u of Inr (r, j) \<Rightarrow> r \<noteq> [] \<and> \<not> journalsEqual builder_journal j | Inl e \<Rightarrow> False" by code_simp
  moreover obtain x f' where x: "?u = (x, f')" by fastforce
  ultimately have "\<exists>r j. x = Inr (r, j) \<and> r \<noteq> [] \<and> \<not> journalsEqual builder_journal j"
    unfolding x fst_conv by (auto split: sum.splits)
  then obtain r j where o: "?u = (Inr (r, j), f')" "r \<noteq> []" "\<not> journalsEqual builder_journal j" using x by blast
  from store_Update_roundtrip [OF o(1) builder_file_reads] o show ?thesis by blast
qed

text \<open>Image maintenance reconciliation removes only what is certainly dead: every removed lease belongs to
  an image builder or smoke instance of a maintenance pool that is not visible, not claimed, not
  preempted and expired for more than a minute; every other lease and claim survives; a dry run
  changes nothing, and the result is again a valid journal.\<close>

theorem maintenance_removes_only_dead:
  assumes "wf_file f" "readUnlocked f = Inr j"
    and "ReconcileExpiredMaintenance er eu visible now apply f = (Inr res, f')"
  shows "(\<not> apply \<longrightarrow> f' = f \<and> mr_Removed res = [])
    \<and> (\<exists>j'. readUnlocked f' = Inr j' \<and> journal_ok j'
         \<and> (\<forall>name. get (j_Leases j') name = (if name \<in> set (mr_Removed res) then None else get (j_Leases j) name))
         \<and> (\<forall>job k. get (j_Claims j') job = Some k \<longleftrightarrow> get (j_Claims j) job = Some k))
    \<and> (\<forall>name \<in> set (mr_Removed res). \<exists>l. get (j_Leases j) name = Some l \<and> IsImageMaintenanceInstance name
         \<and> has_prefix (l_PoolID l) maintenance_pool_prefix \<and> name \<notin> set visible \<and> l_PreemptedBy l = []
         \<and> l_ExpiresAt l + minute \<le> now)"
proof (cases "apply")
  case False
  then show ?thesis
    using assms readUnlocked_ok [OF assms(1,2)]
    by (auto simp: ReconcileExpiredMaintenance_def Let_def split: sum.splits)
next
  case True
  have wf: "wf_journal j" and ok: "journal_ok j" using readUnlocked_wf [OF assms(1,2)] readUnlocked_ok [OF assms(1,2)] .
  let ?names = "maintenanceCandidates j visible now"
  note cand = maintenanceCandidates_iff [OF wf]
  obtain removed j2 where u: "store_Update eu (remove_maintenance visible now) f = (Inr (removed, j2), f')"
      "mr_Removed res = removed"
    using assms(3) True by (auto simp: ReconcileExpiredMaintenance_def Let_def split: sum.splits prod.splits)
  have m: "remove_maintenance visible now j = Inr (fold remove_instance ?names j, ?names)"
    by (simp add: remove_maintenance_def Let_def)
  have "wf_mutation (remove_maintenance visible now)"
    using fold_remove_instance by (auto simp: wf_mutation_def remove_maintenance_def Let_def)
  from store_Update_result [OF u(1) assms(1) this] assms(2) m obtain j' where
    j': "readUnlocked f' = Inr j'" "removed = ?names" "wf_journal j'"
      "get (j_Leases j') = get (j_Leases (fold remove_instance ?names j))"
      "get (j_Claims j') = get (j_Claims (fold remove_instance ?names j))"
    by auto
  have "wf_file f'" using pj.good_step [OF assms(1) \<open>wf_mutation (remove_maintenance visible now)\<close>, of eu] u(1) by simp
  then have "journal_ok j'" using readUnlocked_ok j'(1) by blast
  moreover have "get (j_Claims j') job = Some k \<longleftrightarrow> get (j_Claims j) job = Some k" for job k
    using fold_remove_instance [OF wf, of ?names _ job k] cand unfolding j'(5) by auto
  ultimately show ?thesis
    using True j' u(2) fold_remove_instance [OF wf, of ?names] cand by auto
qed

theorem maintenance_removes_only_dead_witness:
  "\<exists>res f' j'. ReconcileExpiredMaintenance writable writable [] (2 * minute) True builder_file = (Inr res, f')
     \<and> mr_Removed res = [''gha-image-smoke-0123456789ab''] \<and> readUnlocked f' = Inr j' \<and> journal_ok j'
     \<and> get (j_Leases j') ''job'' = get (j_Leases builder_journal) ''job''"
proof -
  let ?u = "ReconcileExpiredMaintenance writable writable [] (2 * minute) True builder_file"
  have "case fst ?u of Inr res \<Rightarrow> mr_Removed res = [''gha-image-smoke-0123456789ab''] | Inl e \<Rightarrow> False" by code_simp
  moreover obtain x f' where x: "?u = (x, f')" by fastforce
  ultimately have "\<exists>res. x = Inr res \<and> mr_Removed res = [''gha-image-smoke-0123456789ab'']"
    unfolding x fst_conv by (simp split: sum.splits)
  then obtain res where o: "?u = (Inr res, f')" "mr_Removed res = [''gha-image-smoke-0123456789ab'']" using x by blast
  from maintenance_removes_only_dead [OF builder_file_wf builder_file_reads o(1)] o(2)
  show ?thesis using o by auto
qed

end
