(* ===== verification/Provider_Admission.thy ===== *)
theory Provider_Admission
  imports Admission Provider_Journal
begin

text \<open>
  The admission controller of \<open>src/internal/provideradmission/controller.go\<close>. Every operation is a
  mutation of the provider journal run by \<open>Store.Update\<close>; it first reconciles the journal with the
  observed Incus inventory and then admits, preempts, claims or releases. The clock is an argument
  of each operation.
\<close>

unbundle bit_operations_syntax

section \<open>Data\<close>

record allocation =
  a_InstanceName :: string
  a_ControllerID :: string
  a_PoolID :: string
  a_PoolName :: string
  a_VCPU :: int
  a_CPUAllowanceUnits :: int
  a_MemoryMiB :: int
  a_ImageFingerprint :: string
  a_State :: lease_state
  a_JobName :: string
  a_Location :: string

record request =
  r_Allocation :: allocation
  r_QueueIntentAuthorized :: bool

record admission_result =
  ar_Decision :: decision
  ar_PreemptedWarmWorkers :: "string list"

record warm_claim_request =
  w_JobName :: string
  w_ControllerID :: string
  w_PoolID :: string
  w_PoolName :: string
  w_ImageFingerprint :: string

record warm_claim_result =
  wr_InstanceName :: string
  wr_State :: claim_state
  wr_Found :: bool

record controller =
  ctl_ControllerID :: string
  ctl_Policy :: reserve_policy
  ctl_LeaseTTL :: duration

datatype mismatch =
    InstanceNameMismatch | ControllerMismatch | PoolIDMismatch | PoolNameMismatch
  | ResourceMismatch | CPUAllowanceMismatch | ImageFingerprintMismatch | JobNameMismatch

datatype allocation_error =
    AllocationIdentityIncomplete | AllocationResourcesInvalid | AllowanceBelowReservation

datatype controller_error =
    ControllerIDRequired | LeaseTTLRange
  | RequestInvalid allocation_error | RequestControllerMismatch | WarmCannotPreempt
  | ObservedInvalid allocation_error | ForeignInstance string string | DuplicateObserved string
  | ForeignJournalLease string string | ObservedConflict mismatch | LeaseMismatch mismatch
  | EvaluateError admission_error | PreemptionCounterOverflow
  | PlacementNeedsLease string | ClaimIdentityIncomplete | ClaimControllerMismatch
  | ClaimMismatch mismatch | ClaimNotOwned string string
  | DrainNameRequired | DrainNeedsZeroClaims nat | DrainNoLease string | DrainForeignLease string
  | DrainLeaseState lease_state | DrainPreempted string
  | InstanceNameRequired | LeaseMissing string | LeaseForeign string

type_synonym 'r op_result = "(controller_error update_error + 'r) \<times> journal_file"

section \<open>Validation and matching\<close>

definition validateAllocation :: "allocation \<Rightarrow> allocation_error option" where
  "validateAllocation a = checks [
     (a_InstanceName a = [] \<or> a_ControllerID a = [] \<or> a_PoolID a = [] \<or> a_PoolName a = [],
        AllocationIdentityIncomplete),
     (a_VCPU a \<le> 0 \<or> a_MemoryMiB a \<le> 0 \<or> a_ImageFingerprint a = [], AllocationResourcesInvalid),
     (a_CPUAllowanceUnits a > 0 \<and> a_CPUAllowanceUnits a < a_VCPU a, AllowanceBelowReservation)]"

definition controller_validate :: "controller \<Rightarrow> controller_error option" where
  "controller_validate c = checks [
     (ctl_ControllerID c = [], ControllerIDRequired),
     (ctl_LeaseTTL c < minute \<or> ctl_LeaseTTL c > hour, LeaseTTLRange)]"

definition observe_one ::
    "controller \<Rightarrow> allocation \<Rightarrow> allocation gomap \<Rightarrow> controller_error + allocation gomap" where
  "observe_one c a result =
     (case validateAllocation a of
        Some e \<Rightarrow> Inl (ObservedInvalid e)
      | None \<Rightarrow>
        if a_ControllerID a \<noteq> ctl_ControllerID c
        then Inl (ForeignInstance (a_InstanceName a) (a_ControllerID a))
        else if has result (a_InstanceName a) then Inl (DuplicateObserved (a_InstanceName a))
        else Inr (put (a_InstanceName a) a result))"

definition validateObserved ::
    "controller \<Rightarrow> allocation list \<Rightarrow> controller_error + allocation gomap" where
  "validateObserved c observed = fold_err (observe_one c) observed []"

definition effectiveCPUAllowance :: "int \<Rightarrow> int \<Rightarrow> int" where
  "effectiveCPUAllowance allowance reservation = (if allowance > 0 then allowance else reservation)"

definition leaseMatches :: "lease \<Rightarrow> allocation \<Rightarrow> mismatch option" where
  "leaseMatches l a = checks [
     (l_InstanceName l \<noteq> a_InstanceName a, InstanceNameMismatch),
     (l_ControllerID l \<noteq> a_ControllerID a, ControllerMismatch),
     (l_PoolID l \<noteq> a_PoolID a, PoolIDMismatch),
     (l_PoolName l \<noteq> a_PoolName a, PoolNameMismatch),
     (l_VCPU l \<noteq> a_VCPU a \<or> l_MemoryMiB l \<noteq> a_MemoryMiB a, ResourceMismatch),
     (effectiveCPUAllowance (l_CPUAllowanceUnits l) (l_VCPU l)
        \<noteq> effectiveCPUAllowance (a_CPUAllowanceUnits a) (a_VCPU a), CPUAllowanceMismatch),
     (l_ImageFingerprint l \<noteq> a_ImageFingerprint a, ImageFingerprintMismatch)]"

definition leaseMatchesIdentity :: "lease \<Rightarrow> allocation \<Rightarrow> bool" where
  "leaseMatchesIdentity l a \<longleftrightarrow>
     l_InstanceName l = a_InstanceName a \<and> l_ControllerID l = a_ControllerID a
     \<and> l_PoolID l = a_PoolID a \<and> l_PoolName l = a_PoolName a
     \<and> l_ImageFingerprint l = a_ImageFingerprint a"

definition normalizedObservedState :: "lease_state \<Rightarrow> lease_state" where
  "normalizedObservedState st = (if st = StateEmpty then StateCreated else st)"

definition allocationMatchesClaim :: "allocation \<Rightarrow> claim \<Rightarrow> bool" where
  "allocationMatchesClaim a c \<longleftrightarrow>
     a_JobName a = c_JobName c \<and> a_InstanceName a = c_InstanceName c
     \<and> a_ControllerID a = c_ControllerID c \<and> a_PoolID a = c_PoolID c
     \<and> a_PoolName a = c_PoolName c \<and> a_ImageFingerprint a = c_ImageFingerprint c"

definition claimMatches :: "claim \<Rightarrow> warm_claim_request \<Rightarrow> mismatch option" where
  "claimMatches c r = checks [
     (c_JobName c \<noteq> w_JobName r, JobNameMismatch),
     (c_ControllerID c \<noteq> w_ControllerID r, ControllerMismatch),
     (c_PoolID c \<noteq> w_PoolID r, PoolIDMismatch),
     (c_PoolName c \<noteq> w_PoolName r, PoolNameMismatch),
     (c_ImageFingerprint c \<noteq> w_ImageFingerprint r, ImageFingerprintMismatch)]"

section \<open>Reconciliation with the observed inventory\<close>

definition stamp_lease :: "controller \<Rightarrow> time \<Rightarrow> lease \<Rightarrow> lease" where
  "stamp_lease c now l = l\<lparr>l_UpdatedAt := now, l_ExpiresAt := now + ctl_LeaseTTL c\<rparr>"

definition stamp_claim :: "controller \<Rightarrow> time \<Rightarrow> claim \<Rightarrow> claim" where
  "stamp_claim c now k = k\<lparr>c_UpdatedAt := now, c_ExpiresAt := now + ctl_LeaseTTL c\<rparr>"

definition claims_by_instance :: "claim gomap \<Rightarrow> claim gomap" where
  "claims_by_instance claims = fold (\<lambda>(job, k). put (c_InstanceName k) k) claims []"

text \<open>The lease an observed instance continues under: unchanged when it matches, with the observed
  resources when only those differ, with the observed pool when a claim explains it.\<close>

definition adopt_observed :: "lease \<Rightarrow> allocation \<Rightarrow> claim option \<Rightarrow> controller_error + lease" where
  "adopt_observed l a claimed =
     (case leaseMatches l a of
        None \<Rightarrow> Inr l
      | Some e \<Rightarrow>
        if leaseMatchesIdentity l a
        then Inr (l\<lparr>l_VCPU := a_VCPU a, l_CPUAllowanceUnits := a_CPUAllowanceUnits a,
                    l_MemoryMiB := a_MemoryMiB a\<rparr>)
        else (case claimed of
                None \<Rightarrow> Inl (ObservedConflict e)
              | Some k \<Rightarrow>
                if \<not> allocationMatchesClaim a k \<or> l_InstanceName l \<noteq> a_InstanceName a
                   \<or> l_ControllerID l \<noteq> a_ControllerID a \<or> l_PoolName l \<noteq> a_PoolName a
                   \<or> l_VCPU l \<noteq> a_VCPU a \<or> l_MemoryMiB l \<noteq> a_MemoryMiB a
                   \<or> l_ImageFingerprint l \<noteq> a_ImageFingerprint a
                then Inl (ObservedConflict e) else Inr (l\<lparr>l_PoolID := a_PoolID a\<rparr>)))"

text \<open>The state and the preemption mark an adopted lease continues with.\<close>

definition observed_lease :: "lease gomap \<Rightarrow> time \<Rightarrow> allocation \<Rightarrow> lease \<Rightarrow> lease" where
  "observed_lease leases now a l =
     (let st = normalizedObservedState (a_State a);
          st = (if l_State l = StateWarmClaimed \<and> st = StateWarmReady then StateWarmClaimed else st)
      in if l_PreemptedBy l \<noteq> []
         then (if has leases (l_PreemptedBy l) \<and> now < l_ExpiresAt l
               then l\<lparr>l_State := (if l_State l = StateDeleting then StateDeleting else st)\<rparr>
               else l\<lparr>l_PreemptedBy := [], l_State := st\<rparr>)
         else l\<lparr>l_State := st\<rparr>)"

type_synonym reconcile_state = "lease gomap \<times> claim gomap \<times> allocation gomap"

definition reconcile_lease ::
    "controller \<Rightarrow> claim gomap \<Rightarrow> time \<Rightarrow> string \<Rightarrow> reconcile_state \<Rightarrow> controller_error + reconcile_state" where
  "reconcile_lease c claimsByInstance now name = (\<lambda>(leases, claims, observed).
     case get leases name of
       None \<Rightarrow> Inr (leases, claims, observed)
     | Some l \<Rightarrow>
       if l_ControllerID l \<noteq> ctl_ControllerID c then Inl (ForeignJournalLease name (l_ControllerID l))
       else (case get observed name of
               Some a \<Rightarrow>
                 (case adopt_observed l a (get claimsByInstance name) of
                    Inl e \<Rightarrow> Inl e
                  | Inr l' \<Rightarrow>
                    Inr (put name (stamp_lease c now (observed_lease leases now a l')) leases,
                         (case get claimsByInstance name of
                            Some k \<Rightarrow> put (c_JobName k) (stamp_claim c now k) claims
                          | None \<Rightarrow> claims),
                         del name observed))
             | None \<Rightarrow>
                 if l_State l \<noteq> StateAdmitted \<or> \<not> now < l_ExpiresAt l
                 then Inr (del name leases,
                           (case get claimsByInstance name of
                              Some k \<Rightarrow> del (c_JobName k) claims | None \<Rightarrow> claims),
                           observed)
                 else Inr (leases, claims, observed)))"

text \<open>A victim whose preemption target is gone is handed back to what was observed.\<close>

definition hand_back ::
    "controller \<Rightarrow> lease_state gomap \<Rightarrow> time \<Rightarrow> string \<times> lease \<Rightarrow> lease gomap \<Rightarrow> lease gomap" where
  "hand_back c observedStates now = (\<lambda>(name, l) leases.
     if l_PreemptedBy l = [] then leases
     else if has leases (l_PreemptedBy l) then leases
     else (case get observedStates name of
             None \<Rightarrow> del name leases
           | Some st \<Rightarrow> put name (stamp_lease c now (l\<lparr>l_State := st, l_PreemptedBy := []\<rparr>)) leases))"

definition lease_of_observed :: "controller \<Rightarrow> time \<Rightarrow> allocation \<Rightarrow> lease" where
  "lease_of_observed c now a =
     \<lparr>l_InstanceName = a_InstanceName a, l_ControllerID = a_ControllerID a, l_PoolID = a_PoolID a,
      l_PoolName = a_PoolName a, l_VCPU = a_VCPU a, l_CPUAllowanceUnits = a_CPUAllowanceUnits a,
      l_MemoryMiB = a_MemoryMiB a, l_ImageFingerprint = a_ImageFingerprint a,
      l_State = normalizedObservedState (a_State a), l_PreemptedBy = [],
      l_AdmittedAt = now, l_UpdatedAt = now, l_ExpiresAt = now + ctl_LeaseTTL c\<rparr>"

definition adopt_new ::
    "controller \<Rightarrow> time \<Rightarrow> allocation gomap \<Rightarrow> string \<Rightarrow> lease gomap \<Rightarrow> lease gomap" where
  "adopt_new c now observed name leases =
     (case get observed name of None \<Rightarrow> leases | Some a \<Rightarrow> put name (lease_of_observed c now a) leases)"

definition reconcile ::
    "controller \<Rightarrow> allocation gomap \<Rightarrow> time \<Rightarrow> journal \<Rightarrow> controller_error + journal" where
  "reconcile c observed now j =
     (let observedStates = map (\<lambda>(name, a). (name, normalizedObservedState (a_State a))) observed
      in case fold_err (reconcile_lease c (claims_by_instance (j_Claims j)) now)
                (sort (keys (j_Leases j))) (j_Leases j, j_Claims j, observed) of
           Inl e \<Rightarrow> Inl e
         | Inr (leases, claims, rest) \<Rightarrow>
             (let leases = fold (hand_back c observedStates now) leases leases;
                  leases = fold (adopt_new c now rest) (sort (keys rest)) leases
              in Inr (j\<lparr>j_Leases := leases, j_Claims := claims\<rparr>)))"

definition drop_snapshot :: "('e update_error + 'r \<times> journal) \<times> journal_file \<Rightarrow> ('e update_error + 'r) \<times> journal_file" where
  "drop_snapshot = (\<lambda>(res, f). (case res of Inl e \<Rightarrow> Inl e | Inr (r, _) \<Rightarrow> Inr r, f))"

definition Reconcile ::
    "controller \<Rightarrow> store_env \<Rightarrow> time \<Rightarrow> allocation list \<Rightarrow> journal_file \<Rightarrow> unit op_result" where
  "Reconcile c env now observed f =
     (case controller_validate c of
        Some e \<Rightarrow> (Inl (MutationError e), f)
      | None \<Rightarrow>
        (case validateObserved c observed of
           Inl e \<Rightarrow> (Inl (MutationError e), f)
         | Inr obs \<Rightarrow>
           drop_snapshot (store_Update env
             (\<lambda>j. case reconcile c obs now j of Inl e \<Rightarrow> Inl e | Inr j' \<Rightarrow> Inr (j', ())) f)))"

section \<open>The capacity ledger\<close>

definition exclusionSet :: "string list \<Rightarrow> string list" where
  "exclusionSet names = filter (\<lambda>n. n \<noteq> []) names"

definition counted_leases :: "lease gomap \<Rightarrow> string list \<Rightarrow> lease list" where
  "counted_leases leases excluded = map snd (filter (\<lambda>(name, l). name \<notin> set excluded) leases)"

definition withAllocatedLeasesExcluding ::
    "host_snapshot \<Rightarrow> lease gomap \<Rightarrow> string list \<Rightarrow> host_snapshot" where
  "withAllocatedLeasesExcluding host leases excluded =
     (let counted = counted_leases leases excluded
      in host\<lparr>AllocatedCPUUnits := sum64 (map l_VCPU counted),
              AllocatedCPUAllowanceUnits :=
                sum64 (map (\<lambda>l. effectiveCPUAllowance (l_CPUAllowanceUnits l) (l_VCPU l)) counted),
              AllocatedMemoryMiB := sum64 (map l_MemoryMiB counted)\<rparr>)"

definition withAllocatedLeases :: "host_snapshot \<Rightarrow> lease gomap \<Rightarrow> string \<Rightarrow> host_snapshot" where
  "withAllocatedLeases host leases exclude =
     withAllocatedLeasesExcluding host leases (exclusionSet [exclude])"

definition preemptionsFor :: "lease gomap \<Rightarrow> string \<Rightarrow> string list" where
  "preemptionsFor leases requestName =
     sort (map fst (filter (\<lambda>(name, l). l_PreemptedBy l = requestName) leases))"

definition lease_memory :: "lease gomap \<Rightarrow> string \<Rightarrow> int" where
  "lease_memory leases name = (case get leases name of None \<Rightarrow> 0 | Some l \<Rightarrow> l_MemoryMiB l)"

definition projectedAvailableMemory :: "host_snapshot \<Rightarrow> lease gomap \<Rightarrow> string list \<Rightarrow> int" where
  "projectedAvailableMemory host leases preemptions =
     (let available = foldl add64 (AvailableMemoryMiB host) (map (lease_memory leases) preemptions)
      in if available > TotalMemoryMiB host then TotalMemoryMiB host else available)"

definition leasesMemoryMiB :: "lease gomap \<Rightarrow> string list \<Rightarrow> int" where
  "leasesMemoryMiB leases names = sum64 (map (lease_memory leases) names)"

definition evaluation_request :: "allocation \<Rightarrow> admission_request" where
  "evaluation_request a =
     \<lparr>req_PoolName = a_PoolName a, req_VCPU = a_VCPU a,
      req_CPUAllowanceUnits = a_CPUAllowanceUnits a, req_MemoryMiB = a_MemoryMiB a\<rparr>"

text \<open>The host as it will be once the named victims are gone.\<close>

definition project_host :: "host_snapshot \<Rightarrow> lease gomap \<Rightarrow> string list \<Rightarrow> host_snapshot" where
  "project_host host leases victims =
     (withAllocatedLeasesExcluding host leases (exclusionSet victims))
       \<lparr>AvailableMemoryMiB := projectedAvailableMemory host leases victims\<rparr>"

definition preemptibleReason :: "reason \<Rightarrow> bool" where
  "preemptibleReason why \<longleftrightarrow> why = ReasonInsufficientCPU \<or> why = ReasonInsufficientMemory"

section \<open>Planning preemption\<close>

definition candidate_less :: "lease \<Rightarrow> lease \<Rightarrow> bool" where
  "candidate_less x y =
     (if l_VCPU x \<noteq> l_VCPU y then l_VCPU x > l_VCPU y
      else if l_MemoryMiB x \<noteq> l_MemoryMiB y then l_MemoryMiB x > l_MemoryMiB y
      else if l_AdmittedAt x \<noteq> l_AdmittedAt y then l_AdmittedAt x < l_AdmittedAt y
      else l_InstanceName x < l_InstanceName y)"

definition is_candidate :: "journal \<Rightarrow> request \<Rightarrow> bool \<Rightarrow> lease \<Rightarrow> bool" where
  "is_candidate j req allowSamePool l \<longleftrightarrow>
     l_InstanceName l \<notin> set (map (c_InstanceName \<circ> snd) (j_Claims j))
     \<and> (l_State l = StateWarmReady \<or> r_QueueIntentAuthorized req \<and> l_State l = StateCreated)
     \<and> l_PreemptedBy l = [] \<and> has_prefix (l_PoolID l) warm_prefix
     \<and> (allowSamePool \<or> l_PoolName l \<noteq> a_PoolName (r_Allocation req))"

definition preemption_candidates :: "journal \<Rightarrow> request \<Rightarrow> bool \<Rightarrow> lease list" where
  "preemption_candidates j req allowSamePool =
     sort_slice candidate_less (filter (is_candidate j req allowSamePool) (map snd (j_Leases j)))"

definition leaseMemoryByName :: "lease list \<Rightarrow> string \<Rightarrow> int" where
  "leaseMemoryByName leases name =
     (case filter (\<lambda>l. l_InstanceName l = name) leases of [] \<Rightarrow> 0 | l # _ \<Rightarrow> l_MemoryMiB l)"

definition warm_location :: "string gomap \<Rightarrow> lease \<Rightarrow> string" where
  "warm_location locations l =
     (case get locations (l_InstanceName l) of
        None \<Rightarrow> CHR 0x00 # l_InstanceName l
      | Some loc \<Rightarrow> if loc = [] then CHR 0x00 # l_InstanceName l else loc)"

definition group_by_location :: "string gomap \<Rightarrow> lease list \<Rightarrow> lease list gomap" where
  "group_by_location locations candidates =
     fold (\<lambda>l groups. put (warm_location locations l)
             ((case get groups (warm_location locations l) of None \<Rightarrow> [] | Some g \<Rightarrow> g) @ [l]) groups)
       candidates []"

text \<open>Victims of one location in order until their memory covers the need: the names, their
  memory, and whether they cover it.\<close>

fun cover_group :: "int \<Rightarrow> lease list \<Rightarrow> string list \<Rightarrow> int \<Rightarrow> string list \<times> int \<times> bool" where
  "cover_group need [] selected memory = (selected, memory, False)"
| "cover_group need (l # ls) selected memory =
     (let selected = selected @ [l_InstanceName l]; memory = add64 memory (l_MemoryMiB l)
      in if memory \<ge> need then (selected, memory, True) else cover_group need ls selected memory)"

record victim_scan =
  vs_covering :: "string list list"
  vs_bestPartial :: "string list"
  vs_bestPartialMemory :: int
  vs_bestPartialLocation :: string
  vs_considered :: nat

definition scan_location :: "int \<Rightarrow> string list \<Rightarrow> string \<times> lease list \<Rightarrow> victim_scan \<Rightarrow> victim_scan" where
  "scan_location need preferred = (\<lambda>(location, group) s.
     if preferred \<noteq> [] \<and> location \<notin> set preferred then s
     else (case cover_group need group [] 0 of
             (selected, memory, covers) \<Rightarrow>
               (let s = s\<lparr>vs_considered := Suc (vs_considered s)\<rparr>;
                    s = (if covers then s\<lparr>vs_covering := vs_covering s @ [selected]\<rparr> else s)
                in if memory < need \<and> (memory > vs_bestPartialMemory s
                       \<or> memory = vs_bestPartialMemory s \<and> location < vs_bestPartialLocation s)
                   then s\<lparr>vs_bestPartial := selected, vs_bestPartialMemory := memory,
                          vs_bestPartialLocation := location\<rparr>
                   else s)))"

definition empty_scan :: victim_scan where
  "empty_scan = \<lparr>vs_covering = [], vs_bestPartial = [], vs_bestPartialMemory = - 1,
     vs_bestPartialLocation = [], vs_considered = 0\<rparr>"

definition covering_less :: "lease list \<Rightarrow> string list \<Rightarrow> string list \<Rightarrow> bool" where
  "covering_less candidates x y =
     (if length x \<noteq> length y then length x < length y
      else (let mx = sum64 (map (leaseMemoryByName candidates) x);
                my = sum64 (map (leaseMemoryByName candidates) y)
            in if mx \<noteq> my then mx < my
               else (case (x, y) of (n # _, m # _) \<Rightarrow> n < m | _ \<Rightarrow> False)))"

function selectPlacementWarmVictims ::
    "lease list \<Rightarrow> int \<Rightarrow> string gomap \<Rightarrow> string list \<Rightarrow> string list" where
  "selectPlacementWarmVictims candidates need locations preferred =
     (if need \<le> 0 \<or> candidates = [] then []
      else (let s = fold (scan_location need preferred) (group_by_location locations candidates) empty_scan
            in if preferred \<noteq> [] \<and> vs_considered s = 0
               then selectPlacementWarmVictims candidates need locations []
               else (case sort_slice (covering_less candidates) (vs_covering s) of
                       best # _ \<Rightarrow> best
                     | [] \<Rightarrow> if preferred \<noteq> [] then selectPlacementWarmVictims candidates need locations []
                            else vs_bestPartial s)))"
  by pat_completeness auto
termination
  by (relation "measure (\<lambda>(candidates, need, locations, preferred). length preferred)") auto

declare selectPlacementWarmVictims.simps [simp del]

text \<open>The shortest prefix of the candidates whose removal admits the request, if any.\<close>

fun preempt_prefix ::
    "controller \<Rightarrow> host_snapshot \<Rightarrow> lease gomap \<Rightarrow> admission_request \<Rightarrow> decision \<Rightarrow> string list \<Rightarrow> lease list
      \<Rightarrow> controller_error + decision \<times> string list" where
  "preempt_prefix c host leases req d selected [] = Inr (d, [])"
| "preempt_prefix c host leases req d selected (l # ls) =
     (let selected = selected @ [l_InstanceName l]
      in case Evaluate (project_host host leases selected) (ctl_Policy c) req of
           Inl e \<Rightarrow> Inl (EvaluateError e)
         | Inr d' \<Rightarrow> if Admitted d' then Inr (d', selected)
                    else preempt_prefix c host leases req d' selected ls)"

definition planWarmPreemption ::
    "controller \<Rightarrow> host_snapshot \<Rightarrow> journal \<Rightarrow> request \<Rightarrow> bool \<Rightarrow> int \<Rightarrow> string gomap \<Rightarrow> string list
      \<Rightarrow> controller_error + decision \<times> string list" where
  "planWarmPreemption c host j req allowSamePool minFreed locations preferred =
     (let er = evaluation_request (r_Allocation req)
      in case Evaluate (withAllocatedLeases host (j_Leases j) []) (ctl_Policy c) er of
           Inl e \<Rightarrow> Inl (EvaluateError e)
         | Inr d \<Rightarrow>
           (let candidates = preemption_candidates j req allowSamePool
            in if minFreed > 0
               then (let selected = selectPlacementWarmVictims candidates minFreed locations preferred
                     in if selected = [] then Inr (d, [])
                        else (case Evaluate (project_host host (j_Leases j) selected) (ctl_Policy c) er of
                                Inl e \<Rightarrow> Inl (EvaluateError e)
                              | Inr d' \<Rightarrow>
                                  Inr (if Admitted d' then d'
                                       else d'\<lparr>Admitted := True, Reason := ReasonAdmitted\<rparr>, selected)))
               else preempt_prefix c host (j_Leases j) er d [] candidates))"

section \<open>Admission\<close>

definition zero_decision :: decision where
  "zero_decision = \<lparr>Admitted = False, Reason = ReasonUnset, Pool = [], RequiredCPUReserve = 0,
     RequiredMemoryReserve = 0, RemainingCPUUnits = 0, RemainingCPUAllowanceUnits = 0,
     RemainingMemoryMiB = 0, RemainingAvailableMiB = 0\<rparr>"

text \<open>The zero lease Go's map read yields for a missing key.\<close>

definition zero_lease :: lease where
  "zero_lease = \<lparr>l_InstanceName = [], l_ControllerID = [], l_PoolID = [], l_PoolName = [],
     l_VCPU = 0, l_CPUAllowanceUnits = 0, l_MemoryMiB = 0, l_ImageFingerprint = [],
     l_State = StateEmpty, l_PreemptedBy = [], l_AdmittedAt = 0, l_UpdatedAt = 0, l_ExpiresAt = 0\<rparr>"

definition lease_or_zero :: "lease gomap \<Rightarrow> string \<Rightarrow> lease" where
  "lease_or_zero leases name = (case get leases name of None \<Rightarrow> zero_lease | Some l \<Rightarrow> l)"

definition refresh_leases :: "controller \<Rightarrow> time \<Rightarrow> string list \<Rightarrow> lease gomap \<Rightarrow> lease gomap" where
  "refresh_leases c now names leases =
     fold (\<lambda>name m. put name (stamp_lease c now (lease_or_zero m name)) m) names leases"

definition mark_victims :: "controller \<Rightarrow> time \<Rightarrow> string \<Rightarrow> string list \<Rightarrow> lease gomap \<Rightarrow> lease gomap" where
  "mark_victims c now target names leases =
     fold (\<lambda>name m. put name (stamp_lease c now ((lease_or_zero m name)\<lparr>l_PreemptedBy := target\<rparr>)) m)
       names leases"

definition admitted_lease :: "controller \<Rightarrow> time \<Rightarrow> allocation \<Rightarrow> lease" where
  "admitted_lease c now a =
     \<lparr>l_InstanceName = a_InstanceName a, l_ControllerID = a_ControllerID a, l_PoolID = a_PoolID a,
      l_PoolName = a_PoolName a, l_VCPU = a_VCPU a, l_CPUAllowanceUnits = a_CPUAllowanceUnits a,
      l_MemoryMiB = a_MemoryMiB a, l_ImageFingerprint = a_ImageFingerprint a,
      l_State = StateAdmitted, l_PreemptedBy = [],
      l_AdmittedAt = now, l_UpdatedAt = now, l_ExpiresAt = now + ctl_LeaseTTL c\<rparr>"

definition count_preemptions :: "string list \<Rightarrow> journal \<Rightarrow> controller_error + journal" where
  "count_preemptions victims j =
     (let increment = word_of_nat (length victims) :: uint64
      in if (NOT 0) - j_WarmPreemptionsTotal j < increment then Inl PreemptionCounterOverflow
         else Inr (j\<lparr>j_WarmPreemptionsTotal := j_WarmPreemptionsTotal j + increment\<rparr>))"

text \<open>A request whose lease exists already: the decision is taken again without its own reservation
  and without its victims', and the leases are extended when the hand-off still stands.\<close>

definition readmit ::
    "controller \<Rightarrow> host_snapshot \<Rightarrow> request \<Rightarrow> time \<Rightarrow> lease \<Rightarrow> journal \<Rightarrow> controller_error + journal \<times> admission_result" where
  "readmit c host req now existing j =
     (let a = r_Allocation req; name = a_InstanceName a
      in case leaseMatches existing a of
           Some e \<Rightarrow> Inl (LeaseMismatch e)
         | None \<Rightarrow>
           (let preemptions = preemptionsFor (j_Leases j) name;
                h = (withAllocatedLeasesExcluding host (j_Leases j) (exclusionSet (name # preemptions)))
                      \<lparr>AvailableMemoryMiB := projectedAvailableMemory host (j_Leases j) preemptions\<rparr>
            in case Evaluate h (ctl_Policy c) (evaluation_request a) of
                 Inl e \<Rightarrow> Inl (EvaluateError e)
               | Inr d \<Rightarrow>
                 (let result = \<lparr>ar_Decision = d, ar_PreemptedWarmWorkers = preemptions\<rparr>
                  in if \<not> Admitted d \<and> preemptions = [] then Inr (j, result)
                     else Inr (j\<lparr>j_Leases := refresh_leases c now preemptions
                                   (put name (stamp_lease c now existing) (j_Leases j))\<rparr>, result))))"

definition admit_new ::
    "controller \<Rightarrow> host_snapshot \<Rightarrow> request \<Rightarrow> bool \<Rightarrow> time \<Rightarrow> journal \<Rightarrow> controller_error + journal \<times> admission_result" where
  "admit_new c host req allowWarmPreemption now j =
     (let a = r_Allocation req
      in case Evaluate (withAllocatedLeases host (j_Leases j) []) (ctl_Policy c) (evaluation_request a) of
           Inl e \<Rightarrow> Inl (EvaluateError e)
         | Inr d \<Rightarrow>
           (case (if \<not> Admitted d \<and> allowWarmPreemption \<and> preemptibleReason (Reason d)
                  then planWarmPreemption c host j req False 0 [] [] else Inr (d, [])) of
              Inl e \<Rightarrow> Inl e
            | Inr (d', victims) \<Rightarrow>
              (let result = \<lparr>ar_Decision = d', ar_PreemptedWarmWorkers = victims\<rparr>
               in if \<not> Admitted d' then Inr (j, result)
                  else (case count_preemptions victims
                               (j\<lparr>j_Leases := mark_victims c now (a_InstanceName a) victims
                                    (put (a_InstanceName a) (admitted_lease c now a) (j_Leases j))\<rparr>) of
                          Inl e \<Rightarrow> Inl e | Inr j' \<Rightarrow> Inr (j', result)))))"

definition admit_mutation ::
    "controller \<Rightarrow> host_snapshot \<Rightarrow> allocation gomap \<Rightarrow> request \<Rightarrow> bool \<Rightarrow> time \<Rightarrow> journal
      \<Rightarrow> controller_error + journal \<times> admission_result" where
  "admit_mutation c host obs req allowWarmPreemption now j =
     (case reconcile c obs now j of
        Inl e \<Rightarrow> Inl e
      | Inr j' \<Rightarrow>
        (case get (j_Leases j') (a_InstanceName (r_Allocation req)) of
           Some existing \<Rightarrow> readmit c host req now existing j'
         | None \<Rightarrow> admit_new c host req allowWarmPreemption now j'))"

definition admit ::
    "controller \<Rightarrow> store_env \<Rightarrow> time \<Rightarrow> host_snapshot \<Rightarrow> allocation list \<Rightarrow> request \<Rightarrow> bool \<Rightarrow> journal_file
      \<Rightarrow> admission_result op_result" where
  "admit c env now host observed req allowWarmPreemption f =
     (case then_check (controller_validate c)
             (then_check (map_option RequestInvalid (validateAllocation (r_Allocation req)))
               (checks [(a_ControllerID (r_Allocation req) \<noteq> ctl_ControllerID c, RequestControllerMismatch),
                        (allowWarmPreemption \<and> has_prefix (a_PoolID (r_Allocation req)) warm_prefix,
                           WarmCannotPreempt)])) of
        Some e \<Rightarrow> (Inl (MutationError e), f)
      | None \<Rightarrow>
        (case validateObserved c observed of
           Inl e \<Rightarrow> (Inl (MutationError e), f)
         | Inr obs \<Rightarrow>
             drop_snapshot (store_Update env (admit_mutation c host obs req allowWarmPreemption now) f)))"

definition Admit ::
    "controller \<Rightarrow> store_env \<Rightarrow> time \<Rightarrow> host_snapshot \<Rightarrow> allocation list \<Rightarrow> request \<Rightarrow> journal_file
      \<Rightarrow> decision op_result" where
  "Admit c env now host observed req f =
     (case admit c env now host observed req False f of
        (Inl e, f') \<Rightarrow> (Inl e, f') | (Inr r, f') \<Rightarrow> (Inr (ar_Decision r), f'))"

definition AdmitPreemptible ::
    "controller \<Rightarrow> store_env \<Rightarrow> time \<Rightarrow> host_snapshot \<Rightarrow> allocation list \<Rightarrow> request \<Rightarrow> journal_file
      \<Rightarrow> admission_result op_result" where
  "AdmitPreemptible c env now host observed req f = admit c env now host observed req True f"

section \<open>Preemption for placement\<close>

definition observedLocations :: "allocation list \<Rightarrow> string gomap" where
  "observedLocations observed = fold (\<lambda>a m. if a_InstanceName a = [] \<or> a_Location a = [] then m
     else put (a_InstanceName a) (a_Location a) m) observed []"

definition locationsOf :: "string list \<Rightarrow> string gomap \<Rightarrow> string list" where
  "locationsOf names locations = remdups (filter (\<lambda>loc. loc \<noteq> [])
     (map (\<lambda>name. case get locations name of None \<Rightarrow> [] | Some loc \<Rightarrow> loc) names))"

definition place_mutation ::
    "controller \<Rightarrow> host_snapshot \<Rightarrow> allocation list \<Rightarrow> request \<Rightarrow> time \<Rightarrow> lease \<Rightarrow> journal
      \<Rightarrow> controller_error + journal \<times> admission_result" where
  "place_mutation c host observed req now existing j =
     (let a = r_Allocation req; name = a_InstanceName a;
          already = preemptionsFor (j_Leases j) name;
          locations = observedLocations observed;
          alreadyMemory = leasesMemoryMiB (j_Leases j) already;
          extended = put name (stamp_lease c now existing) (j_Leases j)
      in if already \<noteq> [] \<and> alreadyMemory \<ge> a_MemoryMiB a
         then Inr (j\<lparr>j_Leases := extended\<rparr>,
                   \<lparr>ar_Decision = zero_decision\<lparr>Admitted := True, Reason := ReasonAdmitted, Pool := a_PoolName a\<rparr>,
                    ar_PreemptedWarmWorkers = already\<rparr>)
         else (let remaining = sub64 (a_MemoryMiB a) alreadyMemory;
                   need = (if remaining < 1 then a_MemoryMiB a else remaining)
               in case planWarmPreemption c host j req True need locations (locationsOf already locations) of
                    Inl e \<Rightarrow> Inl e
                  | Inr (d, selected) \<Rightarrow>
                    if already = [] \<and> selected = []
                    then Inr (j, \<lparr>ar_Decision = zero_decision\<lparr>Reason := ReasonPlacementRefused, Pool := a_PoolName a\<rparr>,
                                  ar_PreemptedWarmWorkers = []\<rparr>)
                    else (let result = \<lparr>ar_Decision = (if Admitted d then d
                                          else d\<lparr>Admitted := True, Reason := ReasonAdmitted\<rparr>),
                                        ar_PreemptedWarmWorkers = already @ selected\<rparr>;
                              j' = j\<lparr>j_Leases := mark_victims c now name selected extended\<rparr>
                          in if selected = [] then Inr (j', result)
                             else (case count_preemptions selected j' of
                                     Inl e \<Rightarrow> Inl e | Inr j'' \<Rightarrow> Inr (j'', result)))))"

definition placement_mutation ::
    "controller \<Rightarrow> host_snapshot \<Rightarrow> allocation list \<Rightarrow> allocation gomap \<Rightarrow> request \<Rightarrow> time \<Rightarrow> journal
      \<Rightarrow> controller_error + journal \<times> admission_result" where
  "placement_mutation c host observed obs req now j =
     (case reconcile c obs now j of
        Inl e \<Rightarrow> Inl e
      | Inr j' \<Rightarrow>
        (case get (j_Leases j') (a_InstanceName (r_Allocation req)) of
           None \<Rightarrow> Inl (PlacementNeedsLease (a_InstanceName (r_Allocation req)))
         | Some existing \<Rightarrow>
           (case leaseMatches existing (r_Allocation req) of
              Some e \<Rightarrow> Inl (LeaseMismatch e)
            | None \<Rightarrow> place_mutation c host observed req now existing j')))"

definition PreemptForPlacement ::
    "controller \<Rightarrow> store_env \<Rightarrow> time \<Rightarrow> host_snapshot \<Rightarrow> allocation list \<Rightarrow> request \<Rightarrow> journal_file
      \<Rightarrow> admission_result op_result" where
  "PreemptForPlacement c env now host observed req f =
     (case then_check (controller_validate c)
             (then_check (map_option RequestInvalid (validateAllocation (r_Allocation req)))
               (checks [(a_ControllerID (r_Allocation req) \<noteq> ctl_ControllerID c, RequestControllerMismatch)])) of
        Some e \<Rightarrow> (Inl (MutationError e), f)
      | None \<Rightarrow>
        (case validateObserved c observed of
           Inl e \<Rightarrow> (Inl (MutationError e), f)
         | Inr obs \<Rightarrow>
             drop_snapshot (store_Update env (placement_mutation c host observed obs req now) f)))"

section \<open>Warm claims\<close>

definition warm_candidates :: "warm_claim_request \<Rightarrow> lease gomap \<Rightarrow> string list" where
  "warm_candidates r leases = sort (map fst (filter (\<lambda>(name, l).
     l_State l = StateWarmReady \<and> l_PreemptedBy l = [] \<and> l_ControllerID l = w_ControllerID r
     \<and> l_PoolName l = w_PoolName r \<and> l_ImageFingerprint l = w_ImageFingerprint r) leases))"

definition new_claim :: "controller \<Rightarrow> time \<Rightarrow> warm_claim_request \<Rightarrow> string \<Rightarrow> claim" where
  "new_claim c now r instance_name =
     \<lparr>c_JobName = w_JobName r, c_InstanceName = instance_name, c_ControllerID = w_ControllerID r,
      c_PoolID = w_PoolID r, c_PoolName = w_PoolName r, c_ImageFingerprint = w_ImageFingerprint r,
      c_State = ClaimReserved, c_ReservedAt = now, c_UpdatedAt = now,
      c_ExpiresAt = now + ctl_LeaseTTL c\<rparr>"

definition claim_in ::
    "controller \<Rightarrow> time \<Rightarrow> warm_claim_request \<Rightarrow> journal \<Rightarrow> controller_error + journal \<times> warm_claim_result" where
  "claim_in c now r j =
     (case get (j_Claims j) (w_JobName r) of
        Some existing \<Rightarrow>
          (case claimMatches existing r of
             Some e \<Rightarrow> Inl (ClaimMismatch e)
           | None \<Rightarrow>
             (let inst = c_InstanceName existing
              in Inr (j\<lparr>j_Claims := put (w_JobName r) (stamp_claim c now existing) (j_Claims j),
                        j_Leases := put inst (stamp_lease c now (lease_or_zero (j_Leases j) inst)) (j_Leases j)\<rparr>,
                      \<lparr>wr_InstanceName = inst, wr_State = c_State existing, wr_Found = True\<rparr>)))
      | None \<Rightarrow>
          (case warm_candidates r (j_Leases j) of
             [] \<Rightarrow> Inr (j, \<lparr>wr_InstanceName = [], wr_State = ClaimInvalid [], wr_Found = False\<rparr>)
           | inst # _ \<Rightarrow>
             Inr (j\<lparr>j_Leases := put inst (stamp_lease c now
                        ((lease_or_zero (j_Leases j) inst)\<lparr>l_State := StateWarmClaimed\<rparr>)) (j_Leases j),
                    j_Claims := put (w_JobName r) (new_claim c now r inst) (j_Claims j)\<rparr>,
                  \<lparr>wr_InstanceName = inst, wr_State = ClaimReserved, wr_Found = True\<rparr>)))"

definition claim_mutation ::
    "controller \<Rightarrow> allocation gomap \<Rightarrow> warm_claim_request \<Rightarrow> time \<Rightarrow> journal
      \<Rightarrow> controller_error + journal \<times> warm_claim_result" where
  "claim_mutation c obs r now j =
     (case reconcile c obs now j of Inl e \<Rightarrow> Inl e | Inr j' \<Rightarrow> claim_in c now r j')"

definition ClaimWarm ::
    "controller \<Rightarrow> store_env \<Rightarrow> time \<Rightarrow> allocation list \<Rightarrow> warm_claim_request \<Rightarrow> journal_file
      \<Rightarrow> warm_claim_result op_result" where
  "ClaimWarm c env now observed r f =
     (case then_check (controller_validate c)
             (checks [(w_JobName r = [] \<or> w_ControllerID r = [] \<or> w_PoolID r = [] \<or> w_PoolName r = []
                         \<or> w_ImageFingerprint r = [], ClaimIdentityIncomplete),
                      (w_ControllerID r \<noteq> ctl_ControllerID c, ClaimControllerMismatch)]) of
        Some e \<Rightarrow> (Inl (MutationError e), f)
      | None \<Rightarrow>
        (case validateObserved c observed of
           Inl e \<Rightarrow> (Inl (MutationError e), f)
         | Inr obs \<Rightarrow> drop_snapshot (store_Update env (claim_mutation c obs r now) f)))"

definition inject_mutation ::
    "controller \<Rightarrow> time \<Rightarrow> string \<Rightarrow> string \<Rightarrow> journal \<Rightarrow> controller_error + journal \<times> unit" where
  "inject_mutation c now job inst j =
     (case get (j_Claims j) job of
        None \<Rightarrow> Inl (ClaimNotOwned job inst)
      | Some k \<Rightarrow>
        if c_InstanceName k \<noteq> inst \<or> c_ControllerID k \<noteq> ctl_ControllerID c then Inl (ClaimNotOwned job inst)
        else Inr (j\<lparr>j_Claims := put job (stamp_claim c now (k\<lparr>c_State := ClaimInjected\<rparr>)) (j_Claims j),
                    j_Leases := put inst (stamp_lease c now (lease_or_zero (j_Leases j) inst)) (j_Leases j)\<rparr>, ()))"

definition guarded ::
    "controller \<Rightarrow> store_env \<Rightarrow> (journal \<Rightarrow> controller_error + journal \<times> 'r) \<Rightarrow> journal_file \<Rightarrow> 'r op_result" where
  "guarded c env mutate f =
     (case controller_validate c of
        Some e \<Rightarrow> (Inl (MutationError e), f)
      | None \<Rightarrow> drop_snapshot (store_Update env mutate f))"

definition MarkWarmInjected ::
    "controller \<Rightarrow> store_env \<Rightarrow> time \<Rightarrow> string \<Rightarrow> string \<Rightarrow> journal_file \<Rightarrow> unit op_result" where
  "MarkWarmInjected c env now job inst f = guarded c env (inject_mutation c now job inst) f"

definition Resolve ::
    "controller \<Rightarrow> store_env \<Rightarrow> string \<Rightarrow> journal_file \<Rightarrow> controller_error update_error + string" where
  "Resolve c env identifier f =
     (case controller_validate c of
        Some e \<Rightarrow> Inl (MutationError e)
      | None \<Rightarrow>
        (case store_Read env f of
           Inl e \<Rightarrow> Inl (StoreError e)
         | Inr j \<Rightarrow>
           if has (j_Leases j) identifier then Inr identifier
           else (case get (j_Claims j) identifier of
                   Some k \<Rightarrow> if c_ControllerID k = ctl_ControllerID c then Inr (c_InstanceName k)
                            else Inr identifier
                 | None \<Rightarrow> Inr identifier)))"

definition drain_check :: "controller \<Rightarrow> string \<Rightarrow> journal \<Rightarrow> controller_error + journal \<times> unit" where
  "drain_check c inst j =
     (if j_Claims j \<noteq> [] then Inl (DrainNeedsZeroClaims (length (j_Claims j)))
      else (case get (j_Leases j) inst of
              None \<Rightarrow> Inl (DrainNoLease inst)
            | Some l \<Rightarrow>
              (case checks [(l_ControllerID l \<noteq> ctl_ControllerID c, DrainForeignLease inst),
                            (l_State l \<noteq> StateWarmReady, DrainLeaseState (l_State l)),
                            (l_PreemptedBy l \<noteq> [], DrainPreempted (l_PreemptedBy l))] of
                 Some e \<Rightarrow> Inl e | None \<Rightarrow> Inr (j, ()))))"

definition AuthorizeWarmDrain ::
    "controller \<Rightarrow> store_env \<Rightarrow> string \<Rightarrow> journal_file \<Rightarrow> unit op_result" where
  "AuthorizeWarmDrain c env inst f =
     (case then_check (controller_validate c) (checks [(inst = [], DrainNameRequired)]) of
        Some e \<Rightarrow> (Inl (MutationError e), f)
      | None \<Rightarrow> drop_snapshot (store_Update env (drain_check c inst) f))"

section \<open>Release and transitions\<close>

text \<open>Giving a victim back. The clock is read once per victim.\<close>

definition give_back :: "controller \<Rightarrow> (string \<Rightarrow> time) \<Rightarrow> string \<Rightarrow> string \<times> lease \<Rightarrow> string \<times> lease" where
  "give_back c clock inst = (\<lambda>(name, l).
     if l_PreemptedBy l \<noteq> inst then (name, l)
     else if l_State l \<noteq> StateDeleting
          then (name, stamp_lease c (clock name) (l\<lparr>l_PreemptedBy := []\<rparr>))
          else (name, l\<lparr>l_PreemptedBy := []\<rparr>))"

definition release_mutation ::
    "controller \<Rightarrow> (string \<Rightarrow> time) \<Rightarrow> string \<Rightarrow> journal \<Rightarrow> controller_error + journal \<times> unit" where
  "release_mutation c clock identifier j =
     (let inst = (case get (j_Claims j) identifier of Some k \<Rightarrow> c_InstanceName k | None \<Rightarrow> identifier)
      in case get (j_Leases j) inst of
           None \<Rightarrow> Inr (j, ())
         | Some l \<Rightarrow>
           if l_ControllerID l \<noteq> ctl_ControllerID c then Inl (LeaseForeign inst)
           else Inr (remove_instance inst (j\<lparr>j_Leases := map (give_back c clock inst) (j_Leases j)\<rparr>), ()))"

definition Release ::
    "controller \<Rightarrow> store_env \<Rightarrow> (string \<Rightarrow> time) \<Rightarrow> string \<Rightarrow> journal_file \<Rightarrow> unit op_result" where
  "Release c env clock identifier f = guarded c env (release_mutation c clock identifier) f"

definition transition_mutation ::
    "controller \<Rightarrow> time \<Rightarrow> string \<Rightarrow> lease_state \<Rightarrow> bool \<Rightarrow> journal \<Rightarrow> controller_error + journal \<times> unit" where
  "transition_mutation c now inst st requireExisting j =
     (case get (j_Leases j) inst of
        None \<Rightarrow> if requireExisting then Inl (LeaseMissing inst) else Inr (j, ())
      | Some l \<Rightarrow>
        if l_ControllerID l \<noteq> ctl_ControllerID c then Inl (LeaseForeign inst)
        else Inr (j\<lparr>j_Leases := put inst (stamp_lease c now (l\<lparr>l_State := st\<rparr>)) (j_Leases j)\<rparr>, ()))"

definition transition ::
    "controller \<Rightarrow> store_env \<Rightarrow> time \<Rightarrow> string \<Rightarrow> lease_state \<Rightarrow> bool \<Rightarrow> journal_file \<Rightarrow> unit op_result" where
  "transition c env now inst st requireExisting f =
     (case then_check (controller_validate c) (checks [(inst = [], InstanceNameRequired)]) of
        Some e \<Rightarrow> (Inl (MutationError e), f)
      | None \<Rightarrow> drop_snapshot (store_Update env (transition_mutation c now inst st requireExisting) f))"

definition MarkCreated :: "controller \<Rightarrow> store_env \<Rightarrow> time \<Rightarrow> string \<Rightarrow> journal_file \<Rightarrow> unit op_result" where
  "MarkCreated c env now inst f = transition c env now inst StateCreated True f"

definition MarkDeleting :: "controller \<Rightarrow> store_env \<Rightarrow> time \<Rightarrow> string \<Rightarrow> journal_file \<Rightarrow> unit op_result" where
  "MarkDeleting c env now inst f = transition c env now inst StateDeleting False f"

section \<open>Every mutation keeps the maps well formed\<close>

lemma reconcile_lease_wf:
  assumes "wf_map leases" "wf_map claims"
    and "reconcile_lease c cbi now name (leases, claims, obs) = Inr (leases', claims', obs')"
  shows "wf_map leases' \<and> wf_map claims'"
  using assms
  by (auto simp: reconcile_lease_def map_simps split: option.splits if_splits sum.splits)

lemma wf_hand_back: "wf_map m \<Longrightarrow> wf_map (hand_back c sts now x m)"
  by (auto simp: hand_back_def map_simps split: prod.splits option.splits)

lemma wf_adopt_new: "wf_map m \<Longrightarrow> wf_map (adopt_new c now rest name m)"
  by (auto simp: adopt_new_def map_simps split: option.splits)

lemma reconcile_leases_wf:
  assumes "wf_map leases" "wf_map claims"
    and "fold_err (reconcile_lease c cbi now) names (leases, claims, obs) = Inr (leases', claims', obs')"
  shows "wf_map leases' \<and> wf_map claims'"
proof -
  let ?P = "\<lambda>(ls, cs, os :: allocation gomap). wf_map (ls :: lease gomap) \<and> wf_map (cs :: claim gomap)"
  have "?P (leases', claims', obs')"
  proof (rule fold_err_invariant [where P = ?P and f = "reconcile_lease c cbi now"])
    show "?P (leases, claims, obs)" using assms by simp
    show "fold_err (reconcile_lease c cbi now) names (leases, claims, obs) = Inr (leases', claims', obs')"
      by (rule assms)
  next
    fix x s s'
    assume "?P s" "reconcile_lease c cbi now x s = Inr s'"
    then show "?P s'"
      by (cases s; cases s') (auto dest: reconcile_lease_wf)
  qed
  then show ?thesis by simp
qed

lemma reconcile_wf:
  assumes "wf_journal j" "reconcile c obs now j = Inr j'"
  shows "wf_journal j'"
proof -
  obtain leases claims rest where
    f: "fold_err (reconcile_lease c (claims_by_instance (j_Claims j)) now)
          (sort (keys (j_Leases j))) (j_Leases j, j_Claims j, obs) = Inr (leases, claims, rest)"
    using assms(2) by (auto simp: reconcile_def Let_def split: sum.splits)
  with assms(1) have "wf_map leases \<and> wf_map claims"
    by (intro reconcile_leases_wf [OF _ _ f]) (simp_all add: wf_journal_def)
  moreover have "j' = j\<lparr>j_Leases := fold (adopt_new c now rest) (sort (keys rest))
      (fold (hand_back c (map (\<lambda>(name, a). (name, normalizedObservedState (a_State a))) obs) now) leases leases),
      j_Claims := claims\<rparr>"
    using assms(2) f by (simp add: reconcile_def Let_def)
  ultimately show ?thesis
    by (simp add: wf_journal_def wf_fold wf_hand_back wf_adopt_new)
qed

lemma wf_refresh [map_simps]: "wf_map m \<Longrightarrow> wf_map (refresh_leases c now names m)"
  by (simp add: refresh_leases_def wf_fold wf_put)

lemma wf_mark [map_simps]: "wf_map m \<Longrightarrow> wf_map (mark_victims c now target names m)"
  by (simp add: mark_victims_def wf_fold wf_put)

lemma count_preemptions_maps:
  "count_preemptions v j = Inr j' \<Longrightarrow> j_Leases j' = j_Leases j \<and> j_Claims j' = j_Claims j
     \<and> j_SchemaVersion j' = j_SchemaVersion j"
  by (auto simp: count_preemptions_def Let_def split: if_splits)

lemma readmit_wf: "wf_journal j \<Longrightarrow> readmit c host req now l j = Inr (j', r) \<Longrightarrow> wf_journal j'"
  by (auto simp: readmit_def Let_def wf_journal_def map_simps split: option.splits sum.splits if_splits)

lemma admit_new_wf: "wf_journal j \<Longrightarrow> admit_new c host req b now j = Inr (j', r) \<Longrightarrow> wf_journal j'"
  by (auto simp: admit_new_def Let_def wf_journal_def map_simps
      dest!: count_preemptions_maps split: sum.splits if_splits)

lemma place_mutation_wf:
  "wf_journal j \<Longrightarrow> place_mutation c host obs req now l j = Inr (j', r) \<Longrightarrow> wf_journal j'"
  by (auto simp: place_mutation_def Let_def wf_journal_def map_simps
      dest!: count_preemptions_maps split: sum.splits if_splits)

lemma claim_in_wf: "wf_journal j \<Longrightarrow> claim_in c now r j = Inr (j', res) \<Longrightarrow> wf_journal j'"
  by (auto simp: claim_in_def Let_def wf_journal_def map_simps split: option.splits list.splits)

lemma keys_give_back [simp]: "keys (map (give_back c clock inst) m) = keys m"
  by (rule keys_map_value) (simp add: give_back_def split: prod.splits)

lemma wf_give_back: "wf_map m \<Longrightarrow> wf_map (map (give_back c clock inst) m)"
  by (simp add: wf_map_def)

lemma wf_mutation_reconcile:
  "wf_mutation (\<lambda>j. case reconcile c obs now j of Inl e \<Rightarrow> Inl e | Inr j' \<Rightarrow> Inr (j', ()))"
  by (auto simp: wf_mutation_def dest: reconcile_wf split: sum.splits)

lemma wf_mutation_admit: "wf_mutation (admit_mutation c host obs req b now)"
  by (auto simp: wf_mutation_def admit_mutation_def split: sum.splits option.splits
      dest: reconcile_wf readmit_wf admit_new_wf)

lemma wf_mutation_place: "wf_mutation (placement_mutation c host observed obs req now)"
  by (auto simp: wf_mutation_def placement_mutation_def split: sum.splits option.splits
      dest: reconcile_wf place_mutation_wf)

lemma wf_mutation_claim: "wf_mutation (claim_mutation c obs r now)"
  by (auto simp: wf_mutation_def claim_mutation_def split: sum.splits dest: reconcile_wf claim_in_wf)

lemma wf_mutation_inject: "wf_mutation (inject_mutation c now job inst)"
  by (auto simp: wf_mutation_def inject_mutation_def wf_journal_def map_simps split: option.splits if_splits)

lemma wf_mutation_drain: "wf_mutation (drain_check c inst)"
  by (auto simp: wf_mutation_def drain_check_def split: option.splits if_splits)

lemma wf_mutation_release: "wf_mutation (release_mutation c clock inst)"
  by (auto simp: wf_mutation_def release_mutation_def remove_instance_def wf_journal_def Let_def
      wf_del wf_filter wf_give_back split: option.splits if_splits)

lemma wf_mutation_transition: "wf_mutation (transition_mutation c now inst st b)"
  by (auto simp: wf_mutation_def transition_mutation_def wf_journal_def map_simps split: option.splits if_splits)

lemmas wf_mutations =
  wf_mutation_reconcile wf_mutation_admit wf_mutation_place wf_mutation_claim wf_mutation_inject
  wf_mutation_drain wf_mutation_release wf_mutation_transition

section \<open>Reachable journals\<close>

text \<open>The files a controller can leave behind: it starts with no file, and any of its operations may
  run next, with any environment, clock, host and inventory. An operation that fails, also one
  whose publication fails half way, is a step like any other.\<close>

inductive reachable_file :: "controller \<Rightarrow> journal_file \<Rightarrow> bool" for c where
  start: "reachable_file c NoFile"
| reconcile: "reachable_file c f \<Longrightarrow> reachable_file c (snd (Reconcile c env now observed f))"
| admit: "reachable_file c f \<Longrightarrow> reachable_file c (snd (Admit c env now host observed req f))"
| admit_preemptible: "reachable_file c f \<Longrightarrow>
    reachable_file c (snd (AdmitPreemptible c env now host observed req f))"
| place: "reachable_file c f \<Longrightarrow> reachable_file c (snd (PreemptForPlacement c env now host observed req f))"
| claim: "reachable_file c f \<Longrightarrow> reachable_file c (snd (ClaimWarm c env now observed wreq f))"
| inject: "reachable_file c f \<Longrightarrow> reachable_file c (snd (MarkWarmInjected c env now job inst f))"
| drain: "reachable_file c f \<Longrightarrow> reachable_file c (snd (AuthorizeWarmDrain c env inst f))"
| created: "reachable_file c f \<Longrightarrow> reachable_file c (snd (MarkCreated c env now inst f))"
| deleting: "reachable_file c f \<Longrightarrow> reachable_file c (snd (MarkDeleting c env now inst f))"
| release: "reachable_file c f \<Longrightarrow> reachable_file c (snd (Release c env clock inst f))"

definition file_ok :: "journal_file \<Rightarrow> bool" where
  "file_ok f \<longleftrightarrow> wf_file f \<and> (\<exists>j. readUnlocked f = Inr j \<and> journal_ok j)"

lemma file_ok_start: "file_ok NoFile"
  using readUnlocked_ok [of NoFile] by (simp add: file_ok_def wf_file_def readUnlocked_def)

lemma file_ok_update: "file_ok f \<Longrightarrow> wf_mutation m \<Longrightarrow> file_ok (snd (store_Update env m f))"
  using pj.good_step [of f m env] pj.published [of f m env] unfolding file_ok_def by fastforce

lemma snd_drop_snapshot [simp]: "snd (drop_snapshot p) = snd p"
  by (simp add: drop_snapshot_def split: prod.splits)

lemma file_ok_guarded: "file_ok f \<Longrightarrow> wf_mutation m \<Longrightarrow> file_ok (snd (guarded c env m f))"
  by (simp add: guarded_def file_ok_update split: option.split)

lemma file_ok_Reconcile: "file_ok f \<Longrightarrow> file_ok (snd (Reconcile c env now observed f))"
  by (simp add: Reconcile_def file_ok_update wf_mutations split: option.split sum.split)

lemma file_ok_admit: "file_ok f \<Longrightarrow> file_ok (snd (admit c env now host observed req b f))"
  by (simp add: admit_def file_ok_update wf_mutations split: option.split sum.split)

lemma snd_Admit [simp]: "snd (Admit c env now host observed req f) = snd (admit c env now host observed req False f)"
  by (simp add: Admit_def split: prod.splits sum.splits)

lemma file_ok_place: "file_ok f \<Longrightarrow> file_ok (snd (PreemptForPlacement c env now host observed req f))"
  by (simp add: PreemptForPlacement_def file_ok_update wf_mutations split: option.split sum.split)

lemma file_ok_claim: "file_ok f \<Longrightarrow> file_ok (snd (ClaimWarm c env now observed r f))"
  by (simp add: ClaimWarm_def file_ok_update wf_mutations split: option.split sum.split)

lemma file_ok_transition: "file_ok f \<Longrightarrow> file_ok (snd (transition c env now inst st b f))"
  by (simp add: transition_def file_ok_update wf_mutations split: option.split)

lemma file_ok_drain: "file_ok f \<Longrightarrow> file_ok (snd (AuthorizeWarmDrain c env inst f))"
  by (simp add: AuthorizeWarmDrain_def file_ok_update wf_mutations split: option.split)

lemma reachable_file_ok: "reachable_file c f \<Longrightarrow> file_ok f"
  by (induction rule: reachable_file.induct)
     (simp_all add: file_ok_start file_ok_Reconcile file_ok_admit file_ok_place file_ok_claim
        file_ok_drain file_ok_transition file_ok_guarded wf_mutations AdmitPreemptible_def
        MarkWarmInjected_def MarkCreated_def MarkDeleting_def Release_def)

end
