(* ===== verification/Provider_Laws.thy ===== *)
theory Provider_Laws
  imports Provider_Admission
begin

text \<open>
  What the operations of the admission controller promise. The first part shows that a transition, a
  claim, an injection and a release keep a valid journal valid, so the validation of the store never
  refuses them; the second that a successful update can be read back. The properties are about the
  journal files the controller can reach and about single operations on them.
\<close>

section \<open>Operations that keep a valid journal valid\<close>

lemma stamp_lease_simps [simp]:
  "l_InstanceName (stamp_lease c now l) = l_InstanceName l"
  "l_ControllerID (stamp_lease c now l) = l_ControllerID l"
  "l_PoolID (stamp_lease c now l) = l_PoolID l"
  "l_PoolName (stamp_lease c now l) = l_PoolName l"
  "l_VCPU (stamp_lease c now l) = l_VCPU l"
  "l_CPUAllowanceUnits (stamp_lease c now l) = l_CPUAllowanceUnits l"
  "l_MemoryMiB (stamp_lease c now l) = l_MemoryMiB l"
  "l_ImageFingerprint (stamp_lease c now l) = l_ImageFingerprint l"
  "l_State (stamp_lease c now l) = l_State l"
  "l_PreemptedBy (stamp_lease c now l) = l_PreemptedBy l"
  "l_AdmittedAt (stamp_lease c now l) = l_AdmittedAt l"
  "l_UpdatedAt (stamp_lease c now l) = now"
  "l_ExpiresAt (stamp_lease c now l) = now + ctl_LeaseTTL c"
  by (simp_all add: stamp_lease_def)

lemma stamp_claim_simps [simp]:
  "c_JobName (stamp_claim c now k) = c_JobName k"
  "c_InstanceName (stamp_claim c now k) = c_InstanceName k"
  "c_ControllerID (stamp_claim c now k) = c_ControllerID k"
  "c_PoolID (stamp_claim c now k) = c_PoolID k"
  "c_PoolName (stamp_claim c now k) = c_PoolName k"
  "c_ImageFingerprint (stamp_claim c now k) = c_ImageFingerprint k"
  "c_State (stamp_claim c now k) = c_State k"
  "c_ReservedAt (stamp_claim c now k) = c_ReservedAt k"
  "c_UpdatedAt (stamp_claim c now k) = now"
  "c_ExpiresAt (stamp_claim c now k) = now + ctl_LeaseTTL c"
  by (simp_all add: stamp_claim_def)

lemma controller_validate_TTL: "controller_validate c = None \<Longrightarrow> 0 < ctl_LeaseTTL c"
  by (simp add: controller_validate_def duration_defs split: if_splits)

text \<open>Two laws carry the proofs: a lease may be restamped in place, with another state that its
  preemption mark and its claim allow; and the laws of the other leases only look at the pool and
  the preemption mark of their target.\<close>

lemma lease_ok_other:
  assumes "lease_ok leases key l"
    and "\<And>t. l_PreemptedBy l \<noteq> [] \<Longrightarrow> get leases (l_PreemptedBy l) = Some t \<Longrightarrow>
      \<exists>t'. get leases' (l_PreemptedBy l) = Some t' \<and> l_PoolID t' = l_PoolID t \<and> l_PreemptedBy t' = l_PreemptedBy t"
  shows "lease_ok leases' key l"
proof (cases "l_PreemptedBy l = []")
  case True
  then show ?thesis using assms(1) by (simp add: lease_ok_def)
next
  case False
  with assms(1) obtain t where t: "get leases (l_PreemptedBy l) = Some t"
    "\<not> has_prefix (l_PoolID t) warm_prefix" "l_PreemptedBy t = []"
    unfolding lease_ok_def by blast
  from assms(2) [OF False t(1)] t obtain t' where "get leases' (l_PreemptedBy l) = Some t'"
    "\<not> has_prefix (l_PoolID t') warm_prefix" "l_PreemptedBy t' = []" by auto
  then show ?thesis using assms(1) False unfolding lease_ok_def by auto
qed

lemma lease_ok_restamp:
  assumes "lease_ok leases key l" "0 < now" "0 < ctl_LeaseTTL c"
    and "st \<in> {StateAdmitted, StateCreated, StateDeleting, StateWarmReady, StateWarmClaimed}"
    and "l_PreemptedBy l \<noteq> [] \<Longrightarrow> st \<in> {StateCreated, StateWarmReady, StateDeleting}"
  shows "lease_ok leases key (stamp_lease c now (l\<lparr>l_State := st\<rparr>))"
  using assms unfolding lease_ok_def by simp

lemma claim_ok_other:
  assumes "claim_ok leases key k"
    and "\<And>l. get leases (c_InstanceName k) = Some l \<Longrightarrow> l_PreemptedBy l = [] \<Longrightarrow>
      l_State l \<in> {StateWarmClaimed, StateCreated, StateDeleting} \<Longrightarrow>
      \<exists>l'. get leases' (c_InstanceName k) = Some l' \<and> l_ControllerID l' = l_ControllerID l
        \<and> l_PoolName l' = l_PoolName l \<and> l_ImageFingerprint l' = l_ImageFingerprint l
        \<and> l_PreemptedBy l' = [] \<and> l_State l' \<in> {StateWarmClaimed, StateCreated, StateDeleting}"
  shows "claim_ok leases' key k"
proof -
  from assms(1) obtain l where l: "get leases (c_InstanceName k) = Some l" "l_PreemptedBy l = []"
      "l_State l \<in> {StateWarmClaimed, StateCreated, StateDeleting}"
      "l_ControllerID l = c_ControllerID k" "l_PoolName l = c_PoolName k"
      "l_ImageFingerprint l = c_ImageFingerprint k"
    unfolding claim_ok_def by auto
  from assms(2) [OF l(1-3)] l(4-6) obtain l' where "get leases' (c_InstanceName k) = Some l'"
      "l_ControllerID l' = c_ControllerID k" "l_PoolName l' = c_PoolName k"
      "l_ImageFingerprint l' = c_ImageFingerprint k" "l_PreemptedBy l' = []"
      "l_State l' \<in> {StateWarmClaimed, StateCreated, StateDeleting}" by auto
  then show ?thesis using assms(1) unfolding claim_ok_def by auto
qed

text \<open>Restamping one lease keeps every law of the two maps.\<close>

lemma maps_ok_restamp:
  assumes ok: "maps_ok leases claims" and l: "get leases inst = Some l"
    and t: "0 < now" "0 < ctl_LeaseTTL c"
    and st: "st \<in> {StateAdmitted, StateCreated, StateDeleting, StateWarmReady, StateWarmClaimed}"
      "l_PreemptedBy l \<noteq> [] \<Longrightarrow> st \<in> {StateCreated, StateWarmReady, StateDeleting}"
      "(\<exists>job k. get claims job = Some k \<and> c_InstanceName k = inst) \<Longrightarrow>
         st \<in> {StateWarmClaimed, StateCreated, StateDeleting}"
  shows "maps_ok (put inst (stamp_lease c now (l\<lparr>l_State := st\<rparr>)) leases) claims"
    (is "maps_ok ?leases claims")
  unfolding maps_ok_def
proof (intro conjI allI impI)
  fix key l1 assume g: "get ?leases key = Some l1"
  have "lease_ok leases key l1"
  proof (cases "key = inst")
    case True
    then have "l1 = stamp_lease c now (l\<lparr>l_State := st\<rparr>)" using g by (simp add: map_simps)
    then show ?thesis using True lease_ok_restamp [OF _ t st(1,2)] ok l
      unfolding maps_ok_def by auto
  next
    case False
    then show ?thesis using g ok by (simp add: map_simps maps_ok_def)
  qed
  then show "lease_ok ?leases key l1"
    by (rule lease_ok_other) (use l in \<open>auto simp: map_simps\<close>)
next
  fix key k assume g: "get claims key = Some k"
  then have "claim_ok leases key k" using ok by (simp add: maps_ok_def)
  then show "claim_ok ?leases key k"
    by (rule claim_ok_other) (use l g st(3) in \<open>auto simp: map_simps\<close>)
next
  fix k1 c1 k2 c2
  assume "get claims k1 = Some c1" "get claims k2 = Some c2" "c_InstanceName c1 = c_InstanceName c2"
  then show "k1 = k2" using ok unfolding maps_ok_def by blast
qed

lemma transition_mutation_ok:
  assumes "journal_ok j" "controller_validate c = None" "0 < now" "st \<in> {StateCreated, StateDeleting}"
    and "transition_mutation c now inst st b j = Inr (j', u)"
  shows "journal_ok j'"
proof (cases "get (j_Leases j) inst")
  case None
  then show ?thesis using assms by (simp add: transition_mutation_def split: if_splits)
next
  case (Some l)
  then have j': "j' = j\<lparr>j_Leases := put inst (stamp_lease c now (l\<lparr>l_State := st\<rparr>)) (j_Leases j)\<rparr>"
    using assms(5) by (simp add: transition_mutation_def split: if_splits)
  have "maps_ok (j_Leases j) (j_Claims j)" "wf_journal j"
    using assms(1) by (simp_all add: journal_ok_def)
  from maps_ok_restamp [OF this(1) Some assms(3) controller_validate_TTL [OF assms(2)], of st]
  have "maps_ok (j_Leases j') (j_Claims j')" using assms(4) j' by auto
  then show ?thesis using assms(1) by (simp add: j' journal_ok_def wf_journal_def map_simps)
qed

lemma claim_in_ok:
  assumes ok: "journal_ok j" and c: "controller_validate c = None" and now: "0 < now"
    and r: "w_JobName r \<noteq> []" "w_ControllerID r \<noteq> []" "w_PoolID r \<noteq> []" "w_PoolName r \<noteq> []"
      "w_ImageFingerprint r \<noteq> []"
    and res: "claim_in c now r j = Inr (j', w)"
  shows "journal_ok j'"
proof -
  note ttl = controller_validate_TTL [OF c]
  have m: "maps_ok (j_Leases j) (j_Claims j)" and wf: "wf_journal j" and v: "j_SchemaVersion j = SchemaVersion"
    using ok by (simp_all add: journal_ok_def)
  have wf': "wf_journal j'" using claim_in_wf [OF wf res] .
  show ?thesis
  proof (cases "get (j_Claims j) (w_JobName r)")
    case (Some k)
    then have co: "claim_ok (j_Leases j) (w_JobName r) k" using m by (simp add: maps_ok_def)
    then obtain l where l: "get (j_Leases j) (c_InstanceName k) = Some l"
        "l_State l \<in> {StateWarmClaimed, StateCreated, StateDeleting}" "l_PreemptedBy l = []"
      unfolding claim_ok_def by auto
    have ll: "l\<lparr>l_State := l_State l\<rparr> = l" by simp
    have m1: "maps_ok (put (c_InstanceName k) (stamp_lease c now l) (j_Leases j)) (j_Claims j)"
      using maps_ok_restamp [OF m l(1) now ttl, of "l_State l"] l(2,3) unfolding ll by auto
    have j': "j' = j\<lparr>j_Claims := put (w_JobName r) (stamp_claim c now k) (j_Claims j),
        j_Leases := put (c_InstanceName k) (stamp_lease c now l) (j_Leases j)\<rparr>"
      using res Some l(1) by (simp add: claim_in_def Let_def lease_or_zero_def split: option.splits)
    have "claim_ok (put (c_InstanceName k) (stamp_lease c now l) (j_Leases j)) (w_JobName r) (stamp_claim c now k)"
      using m1 Some now ttl unfolding maps_ok_def claim_ok_def by auto
    then have "maps_ok (j_Leases j') (j_Claims j')"
      using m1 Some unfolding j' maps_ok_def by (auto simp: map_simps split: if_splits)
    then show ?thesis using wf' v j' by (simp add: journal_ok_def)
  next
    case None
    show ?thesis
    proof (cases "warm_candidates r (j_Leases j)")
      case Nil
      then show ?thesis using res None ok by (simp add: claim_in_def)
    next
      case (Cons inst rest)
      have "inst \<in> set (warm_candidates r (j_Leases j))" by (simp add: Cons)
      then obtain l where lm: "(inst, l) \<in> set (j_Leases j)" and l: "l_State l = StateWarmReady"
          "l_PreemptedBy l = []" "l_ControllerID l = w_ControllerID r" "l_PoolName l = w_PoolName r"
          "l_ImageFingerprint l = w_ImageFingerprint r"
        by (auto simp: warm_candidates_def)
      have g: "get (j_Leases j) inst = Some l" using lm wf by (simp add: get_iff_mem wf_journal_def)
      have free: "\<not> (get (j_Claims j) job = Some k \<and> c_InstanceName k = inst)" for job k
        using m g l(1) unfolding maps_ok_def claim_ok_def by force
      define leases where "leases = put inst (stamp_lease c now (l\<lparr>l_State := StateWarmClaimed\<rparr>)) (j_Leases j)"
      have m1: "maps_ok leases (j_Claims j)"
        using maps_ok_restamp [OF m g now ttl, of StateWarmClaimed] free l(2) unfolding leases_def by auto
      have j': "j' = j\<lparr>j_Leases := leases, j_Claims := put (w_JobName r) (new_claim c now r inst) (j_Claims j)\<rparr>"
        using res None Cons g by (simp add: claim_in_def Let_def lease_or_zero_def leases_def)
      have "inst \<noteq> []" using m g unfolding maps_ok_def lease_ok_def by blast
      then have "claim_ok leases (w_JobName r) (new_claim c now r inst)"
        using r l now ttl unfolding claim_ok_def leases_def by (simp add: new_claim_def map_simps)
      then have "maps_ok (j_Leases j') (j_Claims j')"
        using m1 free unfolding j' maps_ok_def by (auto simp: map_simps new_claim_def split: if_splits)
      then show ?thesis using wf' v j' by (simp add: journal_ok_def)
    qed
  qed
qed

lemma inject_mutation_ok:
  assumes ok: "journal_ok j" and c: "controller_validate c = None" and now: "0 < now"
    and res: "inject_mutation c now job inst j = Inr (j', u)"
  shows "journal_ok j'"
proof -
  note ttl = controller_validate_TTL [OF c]
  have m: "maps_ok (j_Leases j) (j_Claims j)" and v: "j_SchemaVersion j = SchemaVersion" "wf_journal j"
    using ok by (simp_all add: journal_ok_def)
  obtain k where k: "get (j_Claims j) job = Some k" "c_InstanceName k = inst"
    using res by (auto simp: inject_mutation_def split: option.splits if_splits)
  then obtain l where l: "get (j_Leases j) inst = Some l" "l_PreemptedBy l = []"
      "l_State l \<in> {StateWarmClaimed, StateCreated, StateDeleting}"
    using m unfolding maps_ok_def claim_ok_def by blast
  have ll: "l\<lparr>l_State := l_State l\<rparr> = l" by simp
  have m1: "maps_ok (put inst (stamp_lease c now l) (j_Leases j)) (j_Claims j)"
    using maps_ok_restamp [OF m l(1) now ttl, of "l_State l"] l(2,3) unfolding ll by auto
  let ?k = "stamp_claim c now (k\<lparr>c_State := ClaimInjected\<rparr>)"
  have j': "j' = j\<lparr>j_Claims := put job ?k (j_Claims j), j_Leases := put inst (stamp_lease c now l) (j_Leases j)\<rparr>"
    using res k l(1) by (simp add: inject_mutation_def lease_or_zero_def split: if_splits)
  have "claim_ok (put inst (stamp_lease c now l) (j_Leases j)) job ?k"
    using m1 k(1) now ttl unfolding maps_ok_def claim_ok_def by auto
  then have "maps_ok (j_Leases j') (j_Claims j')"
    using m1 k(1) unfolding j' maps_ok_def by (auto simp: map_simps split: if_splits)
  then show ?thesis using v by (simp add: j' journal_ok_def wf_journal_def map_simps)
qed

definition given_back :: "controller \<Rightarrow> (string \<Rightarrow> time) \<Rightarrow> string \<Rightarrow> string \<Rightarrow> lease \<Rightarrow> lease" where
  "given_back c clock inst name l = snd (give_back c clock inst (name, l))"

lemma get_give_back:
  "get (map (give_back c clock inst) m) name = map_option (given_back c clock inst name) (get m name)"
proof -
  have "give_back c clock inst = (\<lambda>(k, v). (k, given_back c clock inst k v))"
    by (auto simp: given_back_def give_back_def)
  then show ?thesis using get_map_value [of "given_back c clock inst"] by simp
qed

lemma given_back_simps:
  "l_PreemptedBy (given_back c clock inst name l) = (if l_PreemptedBy l = inst then [] else l_PreemptedBy l)"
  "l_ControllerID (given_back c clock inst name l) = l_ControllerID l"
  "l_PoolID (given_back c clock inst name l) = l_PoolID l"
  "l_PoolName (given_back c clock inst name l) = l_PoolName l"
  "l_ImageFingerprint (given_back c clock inst name l) = l_ImageFingerprint l"
  "l_State (given_back c clock inst name l) = l_State l"
  by (simp_all add: given_back_def give_back_def)

lemma lease_ok_given_back:
  assumes "lease_ok leases name l" "\<forall>n. 0 < clock n" "0 < ctl_LeaseTTL c" "inst \<noteq> []"
  shows "lease_ok leases name (given_back c clock inst name l)"
  using assms(1,3,4) assms(2) [THEN spec, of name]
  by (cases "l_PreemptedBy l = inst"; cases "l_State l = StateDeleting")
     (simp_all add: lease_ok_def given_back_def give_back_def)

text \<open>The journal after a release: nothing of the instance is left, its victims are free again, and
  everything else is as it was.\<close>

lemma release_mutation_cases:
  assumes "release_mutation c clock identifier j = Inr (j', u)"
  obtains (absent) "j' = j"
      "get (j_Leases j) (case get (j_Claims j) identifier of Some k \<Rightarrow> c_InstanceName k | None \<Rightarrow> identifier) = None"
  | (released) inst l where
      "inst = (case get (j_Claims j) identifier of Some k \<Rightarrow> c_InstanceName k | None \<Rightarrow> identifier)"
      "get (j_Leases j) inst = Some l" "l_ControllerID l = ctl_ControllerID c"
      "j' = j\<lparr>j_Leases := del inst (map (give_back c clock inst) (j_Leases j)),
              j_Claims := filter (\<lambda>(job, k). c_InstanceName k \<noteq> inst) (j_Claims j)\<rparr>"
  using assms
  by (auto simp: release_mutation_def Let_def remove_instance_def split: option.splits if_splits)

lemma maps_ok_release:
  assumes ok: "maps_ok leases claims" and wf: "wf_map claims" and inst: "get leases inst = Some l"
    and t: "\<forall>n. 0 < clock n" "0 < ctl_LeaseTTL c"
  shows "maps_ok (del inst (map (give_back c clock inst) leases))
    (filter (\<lambda>(job, k). c_InstanceName k \<noteq> inst) claims)" (is "maps_ok ?leases ?claims")
proof -
  have ne: "inst \<noteq> []" using ok inst unfolding maps_ok_def lease_ok_def by blast
  have gl: "get ?leases key = (if key = inst then None else map_option (given_back c clock inst key) (get leases key))"
    for key by (simp add: map_simps get_give_back)
  have gc: "get ?claims key = Some k \<longleftrightarrow> get claims key = Some k \<and> c_InstanceName k \<noteq> inst" for key k
    by (auto simp: get_filter [OF wf] split: option.splits if_splits)
  show ?thesis
    unfolding maps_ok_def
  proof (intro conjI allI impI)
    fix key l1 assume "get ?leases key = Some l1"
    then obtain l0 where l0: "get leases key = Some l0" "l1 = given_back c clock inst key l0" "key \<noteq> inst"
      by (auto simp: gl split: if_splits)
    then have "lease_ok leases key l1"
      using lease_ok_given_back [OF _ t ne] ok unfolding maps_ok_def by blast
    then show "lease_ok ?leases key l1"
    proof (rule lease_ok_other)
      fix tg assume tg: "l_PreemptedBy l1 \<noteq> []" "get leases (l_PreemptedBy l1) = Some tg"
      have "l_PreemptedBy l1 \<noteq> inst" using tg(1) ne by (auto simp: l0(2) given_back_simps)
      moreover have "l_PreemptedBy tg = []"
        using \<open>lease_ok leases key l1\<close> tg unfolding lease_ok_def by auto
      ultimately show "\<exists>t'. get ?leases (l_PreemptedBy l1) = Some t' \<and> l_PoolID t' = l_PoolID tg
          \<and> l_PreemptedBy t' = l_PreemptedBy tg"
        using tg(2) by (simp add: gl given_back_simps)
    qed
  next
    fix key k assume "get ?claims key = Some k"
    then have k: "claim_ok leases key k" "c_InstanceName k \<noteq> inst"
      using ok unfolding gc maps_ok_def by blast+
    then show "claim_ok ?leases key k"
      by (elim claim_ok_other) (simp add: gl given_back_simps)
  next
    fix k1 c1 k2 c2
    assume "get ?claims k1 = Some c1" "get ?claims k2 = Some c2" "c_InstanceName c1 = c_InstanceName c2"
    then show "k1 = k2" using ok unfolding gc maps_ok_def by blast
  qed
qed

lemma release_mutation_ok:
  assumes ok: "journal_ok j" and c: "controller_validate c = None" and clock: "\<forall>n. 0 < clock n"
    and res: "release_mutation c clock identifier j = Inr (j', u)"
  shows "journal_ok j'"
  using res
proof (cases rule: release_mutation_cases)
  case absent
  then show ?thesis using ok by simp
next
  case (released inst l)
  have "maps_ok (j_Leases j') (j_Claims j')"
    using maps_ok_release [OF _ _ released(2) clock controller_validate_TTL [OF c]] ok
    by (simp add: released(4) journal_ok_def wf_journal_def)
  then show ?thesis using ok
    by (simp add: released(4) journal_ok_def wf_journal_def wf_del wf_filter wf_give_back)
qed

section \<open>A concrete history\<close>

text \<open>An instance is observed warm and claimed by a job.\<close>

definition sample_controller :: controller where
  "sample_controller = \<lparr>ctl_ControllerID = ''c'',
     ctl_Policy = \<lparr>MinimumCPUUnits = 2, MaximumFleetCPUPercent = 0, CPUAllowanceOvercommit = 1,
       MinimumMemoryMiB = 1024, MinimumPercent = 10, MinimumFreeDiskPercent = 10, RequirePressure = False,
       MaxCPUSomeAvg10 = F_Fin 80, MaxMemoryFullAvg10 = F_Fin 10, MaxIOFullAvg10 = F_Fin 20,
       MaxRecentOOMKills = 0\<rparr>,
     ctl_LeaseTTL = hour\<rparr>"

definition sample_host :: host_snapshot where
  "sample_host = \<lparr>Healthy = True, TotalCPUUnits = 16, TotalMemoryMiB = 16384, AvailableMemoryMiB = 16000,
     AllocatedCPUUnits = 0, AllocatedCPUAllowanceUnits = 0, AllocatedMemoryMiB = 0, FreeDiskPercent = 50,
     PressureAvailable = True, CPUSomeAvg10 = F_Fin 1, MemoryFullAvg10 = F_Fin 0, IOFullAvg10 = F_Fin 0,
     RecentOOMKills = 0\<rparr>"

definition sample_request :: request where
  "sample_request = \<lparr>r_Allocation = \<lparr>a_InstanceName = ''job-1'', a_ControllerID = ''c'', a_PoolID = ''scale/1'',
     a_PoolName = ''small'', a_VCPU = 4, a_CPUAllowanceUnits = 4, a_MemoryMiB = 4096,
     a_ImageFingerprint = ''img'', a_State = StateCreated, a_JobName = [], a_Location = []\<rparr>,
     r_QueueIntentAuthorized = False\<rparr>"

definition good_env :: store_env where
  "good_env = \<lparr>env_locked = True, env_write = WriteOk, env_now = 7\<rparr>"

definition sample_warm :: allocation where
  "sample_warm = \<lparr>a_InstanceName = ''w1'', a_ControllerID = ''c'', a_PoolID = ''warm/small'',
     a_PoolName = ''small'', a_VCPU = 8, a_CPUAllowanceUnits = 8, a_MemoryMiB = 8192,
     a_ImageFingerprint = ''img'', a_State = StateWarmReady, a_JobName = [], a_Location = ''m1''\<rparr>"

definition sample_claim :: warm_claim_request where
  "sample_claim = \<lparr>w_JobName = ''job-7'', w_ControllerID = ''c'', w_PoolID = ''scale/7'',
     w_PoolName = ''small'', w_ImageFingerprint = ''img''\<rparr>"

definition warm_file :: journal_file where
  "warm_file = snd (Reconcile sample_controller good_env 5 [sample_warm] NoFile)"

definition claimed_file :: journal_file where
  "claimed_file = snd (ClaimWarm sample_controller good_env 6 [sample_warm] sample_claim warm_file)"

lemma sample_controller_valid: "controller_validate sample_controller = None"
  by code_simp

lemma claimed_file_reachable: "reachable_file sample_controller claimed_file"
  unfolding claimed_file_def warm_file_def
  by (intro reachable_file.claim reachable_file.reconcile reachable_file.start)

definition claimed_journal :: journal where
  "claimed_journal = (case readUnlocked claimed_file of Inr j \<Rightarrow> j | Inl e \<Rightarrow> newJournal)"

lemma read_claimed_file: "readUnlocked claimed_file = Inr claimed_journal"
  by code_simp

lemma claimed_journal_lease:
  "map_option l_ControllerID (get (j_Leases claimed_journal) ''w1'') = Some ''c''"
  by code_simp

lemma claimed_journal_claim:
  "map_option c_InstanceName (get (j_Claims claimed_journal) ''job-7'') = Some ''w1''"
  by code_simp

section \<open>Properties\<close>



text \<open>releasing an instance of this controller, by its name or by the job that claimed it, always
  succeeds when the store can be locked and written, and afterwards the journal holds no lease of the
  instance, no claim on it and no lease still marked as preempted for it.\<close>

theorem Release_clears:
  assumes "reachable_file c f" "controller_validate c = None" "\<forall>n. 0 < clock n"
    and "env_locked env" "env_write env = WriteOk" and j: "readUnlocked f = Inr j"
    and inst: "inst = (case get (j_Claims j) identifier of Some k \<Rightarrow> c_InstanceName k | None \<Rightarrow> identifier)"
    and owner: "get (j_Leases j) inst = Some l" "l_ControllerID l = ctl_ControllerID c"
  shows "\<exists>f' j'. Release c env clock identifier f = (Inr (), f') \<and> readUnlocked f' = Inr j'
    \<and> get (j_Leases j') inst = None
    \<and> (\<forall>job k. get (j_Claims j') job = Some k \<longrightarrow> c_InstanceName k \<noteq> inst)
    \<and> (\<forall>name l. get (j_Leases j') name = Some l \<longrightarrow> l_PreemptedBy l \<noteq> inst)"
proof -
  have fo: "wf_file f" and ok: "journal_ok j"
    using reachable_file_ok [OF assms(1)] j unfolding file_ok_def by auto
  define j1 where "j1 = j\<lparr>j_Leases := del inst (map (give_back c clock inst) (j_Leases j)),
    j_Claims := filter (\<lambda>(job, k). c_InstanceName k \<noteq> inst) (j_Claims j)\<rparr>"
  have m: "release_mutation c clock identifier j = Inr (j1, ())"
    using owner unfolding inst release_mutation_def j1_def by (simp add: Let_def remove_instance_def)
  obtain f' j' j2 where u: "store_Update env (release_mutation c clock identifier) f = (Inr ((), j2), f')"
      "readUnlocked f' = Inr j'" "get (j_Leases j') = get (j_Leases j1)" "get (j_Claims j') = get (j_Claims j1)"
    using store_Update_succeeds [where m = "release_mutation c clock identifier", OF assms(4,5) fo j m release_mutation_ok [OF ok assms(2,3) m]] by blast
  have "inst \<noteq> []" using ok owner(1) unfolding journal_ok_def maps_ok_def lease_ok_def by blast
  then show ?thesis
    using u ok assms(2)
    by (auto simp: Release_def guarded_def drop_snapshot_def j1_def map_simps get_give_back
        given_back_simps get_filter journal_ok_def wf_journal_def split: option.splits if_splits)
qed

theorem Release_clears_witness:
  "\<exists>f' j'. Release sample_controller good_env (\<lambda>_. 9) ''job-7'' claimed_file = (Inr (), f')
    \<and> readUnlocked f' = Inr j' \<and> get (j_Leases j') ''w1'' = None"
proof -
  have "''w1'' = (case get (j_Claims claimed_journal) ''job-7'' of
      Some k \<Rightarrow> c_InstanceName k | None \<Rightarrow> ''job-7'')"
    using claimed_journal_claim by auto
  moreover obtain l where "get (j_Leases claimed_journal) ''w1'' = Some l"
      "l_ControllerID l = ctl_ControllerID sample_controller"
    using claimed_journal_lease by (auto simp: sample_controller_def)
  ultimately show ?thesis
    using Release_clears [OF claimed_file_reachable sample_controller_valid, of "\<lambda>_. 9" good_env claimed_journal]
      read_claimed_file by (fastforce simp: good_env_def)
qed

text \<open>A warm claim is sticky: when a claim succeeded, repeating it for the same job, at any later
  time, is granted the same instance again, and the journal still holds exactly that claim.\<close>

theorem claim_retry_same_instance:
  assumes "claim_in c now r j = Inr (j', w)" "wr_Found w"
  shows "\<exists>j'' w'. claim_in c now' r j' = Inr (j'', w') \<and> wr_Found w'
    \<and> wr_InstanceName w' = wr_InstanceName w \<and> wr_State w' = wr_State w
    \<and> map_option c_InstanceName (get (j_Claims j'') (w_JobName r)) = Some (wr_InstanceName w)"
  using assms
  by (auto simp: claim_in_def Let_def map_simps new_claim_def claimMatches_def checks_None_iff
      split: option.splits list.splits)


theorem claim_retry_same_instance_witness:
  "\<exists>j' w j'' w'. claim_in sample_controller 6 sample_claim claimed_journal = Inr (j', w)
     \<and> claim_in sample_controller 8 sample_claim j' = Inr (j'', w') \<and> wr_InstanceName w' = ''w1''"
proof -
  have "case claim_in sample_controller 6 sample_claim claimed_journal of
      Inr (j, w) \<Rightarrow> wr_Found w \<and> wr_InstanceName w = ''w1'' | Inl e \<Rightarrow> False"
    by code_simp
  then obtain j' w where "claim_in sample_controller 6 sample_claim claimed_journal = Inr (j', w)"
      "wr_Found w" "wr_InstanceName w = ''w1''"
    by (auto split: sum.splits)
  with claim_retry_same_instance [OF this(1,2), of 8] show ?thesis by auto
qed

lemma journalsEqual_refl: "wf_journal j \<Longrightarrow> journalsEqual j j"
  by (auto simp: journalsEqual_def list_all_iff wf_journal_def get_iff_mem)

text \<open>A first warm claim is granted the least instance name among the leases that are warm and
  ready, unpreempted, and of the same controller, pool and image; it is reported as not found exactly
  when there is none.\<close>

theorem claim_picks_least_ready:
  assumes "wf_map (j_Leases j)" "get (j_Claims j) (w_JobName r) = None"
  shows "\<exists>j' w. claim_in c now r j = Inr (j', w)
    \<and> (let ready = {name. \<exists>l. get (j_Leases j) name = Some l \<and> l_State l = StateWarmReady
            \<and> l_PreemptedBy l = [] \<and> l_ControllerID l = w_ControllerID r
            \<and> l_PoolName l = w_PoolName r \<and> l_ImageFingerprint l = w_ImageFingerprint r}
       in (wr_Found w \<longleftrightarrow> ready \<noteq> {})
          \<and> (wr_Found w \<longrightarrow> wr_InstanceName w \<in> ready \<and> (\<forall>name \<in> ready. wr_InstanceName w \<le> name)
               \<and> map_option l_State (get (j_Leases j') (wr_InstanceName w)) = Some StateWarmClaimed))"
proof -
  define ready where "ready = {name. \<exists>l. get (j_Leases j) name = Some l \<and> l_State l = StateWarmReady
            \<and> l_PreemptedBy l = [] \<and> l_ControllerID l = w_ControllerID r
            \<and> l_PoolName l = w_PoolName r \<and> l_ImageFingerprint l = w_ImageFingerprint r}"
  have set_eq: "set (warm_candidates r (j_Leases j)) = ready"
    using assms(1) by (force simp: warm_candidates_def ready_def get_iff_mem)
  have sorted: "sorted (warm_candidates r (j_Leases j))" by (simp add: warm_candidates_def)
  show ?thesis
  proof (cases "warm_candidates r (j_Leases j)")
    case Nil
    then show ?thesis using assms(2) set_eq by (simp add: claim_in_def ready_def [symmetric])
  next
    case (Cons inst rest)
    then have "inst \<in> ready" "\<forall>name \<in> ready. inst \<le> name"
      using set_eq sorted by auto
    then show ?thesis
      using assms(2) Cons by (auto simp: claim_in_def ready_def [symmetric] map_simps)
  qed
qed

theorem claim_picks_least_ready_witness:
  "get (j_Claims claimed_journal) ''job-8'' = None
   \<and> (\<exists>j' w. claim_in sample_controller 6 (sample_claim\<lparr>w_JobName := ''job-8''\<rparr>) claimed_journal = Inr (j', w)
        \<and> \<not> wr_Found w)"
proof -
  have none: "get (j_Claims claimed_journal) ''job-8'' = None" by code_simp
  have only: "\<forall>p \<in> set (j_Leases claimed_journal). l_State (snd p) \<noteq> StateWarmReady" by code_simp
  have wf: "wf_map (j_Leases claimed_journal)" by code_simp
  from claim_picks_least_ready [of claimed_journal "sample_claim\<lparr>w_JobName := ''job-8''\<rparr>" sample_controller 6]
  show ?thesis using none only wf by (fastforce simp: Let_def get_iff_mem)
qed

text \<open>the controller authorises the drain of a warm instance only when no job has any claim at all,
  the instance has a lease of this controller, and that lease is warm, ready and not preempted; the
  authorisation itself changes nothing.\<close>

theorem AuthorizeWarmDrain_safe:
  assumes "reachable_file c f" "AuthorizeWarmDrain c env inst f = (Inr (), f')"
  shows "f' = f \<and> (\<exists>j l. readUnlocked f = Inr j \<and> j_Claims j = [] \<and> get (j_Leases j) inst = Some l
    \<and> l_ControllerID l = ctl_ControllerID c \<and> l_State l = StateWarmReady \<and> l_PreemptedBy l = [])"
proof -
  obtain j where j: "readUnlocked f = Inr j" "wf_journal j"
    using reachable_file_ok [OF assms(1)] by (auto simp: file_ok_def journal_ok_def)
  have u: "store_Update env (drain_check c inst) f = (Inr ((), j2), f') \<Longrightarrow> drain_check c inst j = Inr (j, ())" for j2
    using j by (auto simp: store_Update_def drain_check_def split: if_splits sum.splits option.splits)
  obtain j2 where st: "store_Update env (drain_check c inst) f = (Inr ((), j2), f')"
    using assms(2) by (auto simp: AuthorizeWarmDrain_def drop_snapshot_def split: option.splits prod.splits sum.splits)
  have d: "drain_check c inst j = Inr (j, ())" using u [OF st] .
  then have "f' = f"
    using st j journalsEqual_refl [OF j(2)]
    by (auto simp: store_Update_def split: if_splits option.splits)
  moreover have "\<exists>l. j_Claims j = [] \<and> get (j_Leases j) inst = Some l \<and> l_ControllerID l = ctl_ControllerID c
      \<and> l_State l = StateWarmReady \<and> l_PreemptedBy l = []"
    using d by (auto simp: drain_check_def split: if_splits option.splits)
  ultimately show ?thesis using j(1) by blast
qed

theorem AuthorizeWarmDrain_safe_witness:
  "AuthorizeWarmDrain sample_controller good_env ''w1'' warm_file = (Inr (), warm_file)
   \<and> (\<exists>j. readUnlocked warm_file = Inr j \<and> j_Claims j = [] \<and> has (j_Leases j) ''w1'')"
proof -
  have r: "reachable_file sample_controller warm_file"
    unfolding warm_file_def by (intro reachable_file.reconcile reachable_file.start)
  have "AuthorizeWarmDrain sample_controller good_env ''w1'' warm_file = (Inr (), warm_file)" by code_simp
  with AuthorizeWarmDrain_safe [OF r this] show ?thesis by (auto simp: has_def)
qed

end
