(* ===== verification/Provider_Capacity.thy ===== *)
theory Provider_Capacity
  imports Provider_Laws
begin

text \<open>
  Capacity safety of the admission controller: what reconciliation leaves in the journal, how admission
  changes the ledger of leases, which victims a preemption takes, and that the sums of a granted
  admission stay under the totals minus the reserves.
\<close>

section \<open>Reconciliation\<close>

definition lease_agrees :: "lease \<Rightarrow> allocation \<Rightarrow> bool" where
  "lease_agrees l a \<longleftrightarrow>
     l_InstanceName l = a_InstanceName a \<and> l_ControllerID l = a_ControllerID a
     \<and> l_PoolID l = a_PoolID a \<and> l_PoolName l = a_PoolName a \<and> l_VCPU l = a_VCPU a
     \<and> l_MemoryMiB l = a_MemoryMiB a \<and> l_ImageFingerprint l = a_ImageFingerprint a"

lemma adopt_observed_agrees: "adopt_observed l a claimed = Inr l' \<Longrightarrow> lease_agrees l' a"
  by (auto simp: adopt_observed_def lease_agrees_def leaseMatches_def leaseMatchesIdentity_def
      split: option.splits if_splits)

lemma observed_lease_agrees [simp]: "lease_agrees (stamp_lease c now (observed_lease m now a l)) a' \<longleftrightarrow> lease_agrees l a'"
  by (simp add: lease_agrees_def observed_lease_def Let_def)

text \<open>What reconciliation has settled for one name: an observed instance with a lease agrees with it
  and is off the list of observations; an unobserved lease survives only while it is admitted and has
  not expired.\<close>

definition settled ::
    "time \<Rightarrow> lease gomap \<Rightarrow> allocation gomap \<Rightarrow> lease gomap \<Rightarrow> allocation gomap \<Rightarrow> string \<Rightarrow> bool" where
  "settled now leases obs leases' obs' name \<longleftrightarrow>
     (case get leases name of
        None \<Rightarrow> get leases' name = None \<and> get obs' name = get obs name
      | Some l \<Rightarrow> get obs' name = None \<and>
          (case get obs name of
             Some a \<Rightarrow> (\<exists>l'. get leases' name = Some l' \<and> lease_agrees l' a)
           | None \<Rightarrow> get leases' name = None
               \<or> get leases' name = Some l \<and> l_State l = StateAdmitted \<and> now < l_ExpiresAt l))"

lemma reconcile_lease_settles:
  assumes "reconcile_lease c cbi now name (leases, claims, obs) = Inr (leases', claims', obs')"
  shows "settled now leases obs leases' obs' name"
    and "k \<noteq> name \<Longrightarrow> get leases' k = get leases k" "k \<noteq> name \<Longrightarrow> get obs' k = get obs k"
  using assms
  by (auto simp: reconcile_lease_def settled_def map_simps dest: adopt_observed_agrees
      split: option.splits if_splits sum.splits)

lemma reconcile_leases_settle:
  assumes "fold_err (reconcile_lease c cbi now) names (leases, claims, obs) = Inr (leases', claims', obs')"
    and "distinct names"
  shows "(\<forall>k \<in> set names. settled now leases obs leases' obs' k)
    \<and> (\<forall>k. k \<notin> set names \<longrightarrow> get leases' k = get leases k \<and> get obs' k = get obs k)"
  using assms
proof (induction names arbitrary: leases claims obs)
  case Nil
  then show ?case by simp
next
  case (Cons n ns)
  obtain l1 c1 o1 where s: "reconcile_lease c cbi now n (leases, claims, obs) = Inr (l1, c1, o1)"
      "fold_err (reconcile_lease c cbi now) ns (l1, c1, o1) = Inr (leases', claims', obs')"
    using Cons.prems(1) by (auto split: sum.splits)
  note first = reconcile_lease_settles [OF s(1)]
  from Cons.IH [OF s(2)] Cons.prems(2)
  have rest: "\<forall>k \<in> set ns. settled now l1 o1 leases' obs' k"
    "\<forall>k. k \<notin> set ns \<longrightarrow> get leases' k = get l1 k \<and> get obs' k = get o1 k" by auto
  have "settled now leases obs leases' obs' n"
  proof -
    have "get leases' n = get l1 n" "get obs' n = get o1 n" using rest(2) Cons.prems(2) by auto
    then show ?thesis using first(1) unfolding settled_def by (simp split: option.splits)
  qed
  moreover have "settled now leases obs leases' obs' k" if "k \<in> set ns" for k
  proof -
    have "k \<noteq> n" using that Cons.prems(2) by auto
    moreover have "settled now l1 o1 leases' obs' k" using rest(1) that by blast
    ultimately show ?thesis using first(2,3) [of k] unfolding settled_def by (simp split: option.splits)
  qed
  moreover have "get leases' k = get leases k \<and> get obs' k = get obs k" if "k \<notin> set (n # ns)" for k
    using that rest(2) first(2,3) [of k] by auto
  ultimately show ?case by auto
qed

lemma hand_back_keeps:
  assumes "wf_map leases"
    and "\<And>k a. get obs k = Some a \<Longrightarrow> get sts k \<noteq> None"
    and "\<And>k a l. get obs k = Some a \<Longrightarrow> get leases k = Some l \<Longrightarrow> lease_agrees l a"
  shows "(\<forall>k a. get obs k = Some a \<longrightarrow> get leases k \<noteq> None \<longrightarrow>
            (\<exists>l. get (fold (hand_back c sts now) leases leases) k = Some l \<and> lease_agrees l a))
    \<and> (\<forall>k. get sts k = None \<longrightarrow> get (fold (hand_back c sts now) leases leases) k \<in> {None, get leases k})
    \<and> (\<forall>k. get leases k = None \<longrightarrow> get (fold (hand_back c sts now) leases leases) k = None)"
proof -
  let ?P = "\<lambda>m. (\<forall>k a. get obs k = Some a \<longrightarrow> get leases k \<noteq> None \<longrightarrow> (\<exists>l. get m k = Some l \<and> lease_agrees l a))
    \<and> (\<forall>k. get sts k = None \<longrightarrow> get m k \<in> {None, get leases k}) \<and> (\<forall>k. get leases k = None \<longrightarrow> get m k = None)"
  have step: "?P (hand_back c sts now x m)" if "x \<in> set leases" "?P m" for x m
  proof -
    obtain name l where x: "x = (name, l)" by (cases x)
    have g: "get leases name = Some l" using that(1) assms(1) by (simp add: x get_iff_mem)
    have "lease_agrees (stamp_lease c now (l\<lparr>l_State := st, l_PreemptedBy := []\<rparr>)) a" if "get obs name = Some a" for a st
      using assms(3) [OF that g] by (simp add: lease_agrees_def)
    moreover have "get sts name = None \<Longrightarrow> get obs name = None"
      using assms(2) [of name] by (cases "get obs name") auto
    ultimately show ?thesis using that(2) g by (auto simp: x hand_back_def map_simps split: option.splits)
  qed
  have "?P (fold (hand_back c sts now) xs m)" if "set xs \<subseteq> set leases" "?P m" for xs m
    using that
  proof (induction xs arbitrary: m)
    case Nil
    then show ?case by simp
  next
    case (Cons x xs)
    then show ?case using step [of x m] by (auto intro!: Cons.IH)
  qed
  then show ?thesis using assms(3) by blast
qed

lemma adopt_new_get:
  "distinct names \<Longrightarrow> get (fold (adopt_new c now rest) names m) k =
     (if k \<in> set names then (case get rest k of None \<Rightarrow> get m k | Some a \<Rightarrow> Some (lease_of_observed c now a))
      else get m k)"
  by (induction names arbitrary: m) (auto simp: adopt_new_def map_simps split: option.splits)

lemma reconcile_rest_wf:
  "fold_err (reconcile_lease c cbi now) names (leases, claims, obs) = Inr (leases', claims', obs') \<Longrightarrow>
     wf_map obs \<Longrightarrow> wf_map obs'"
proof (induction names arbitrary: leases claims obs)
  case Nil
  then show ?case by simp
next
  case (Cons n ns)
  obtain l1 c1 o1 where s: "reconcile_lease c cbi now n (leases, claims, obs) = Inr (l1, c1, o1)"
      "fold_err (reconcile_lease c cbi now) ns (l1, c1, o1) = Inr (leases', claims', obs')"
    using Cons.prems(1) by (auto split: sum.splits)
  have "wf_map o1" using s(1) Cons.prems(2)
    by (auto simp: reconcile_lease_def map_simps split: option.splits if_splits sum.splits)
  then show ?case using Cons.IH s(2) by blast
qed

lemma validateObserved_names:
  assumes "validateObserved c observed = Inr obs"
  shows "wf_map obs \<and> (\<forall>name a. get obs name = Some a \<longrightarrow> a_InstanceName a = name
    \<and> validateAllocation a = None \<and> a_ControllerID a = ctl_ControllerID c)"
proof -
  let ?P = "\<lambda>obs. wf_map obs \<and> (\<forall>name a. get obs name = Some a \<longrightarrow> a_InstanceName a = name
    \<and> validateAllocation a = None \<and> a_ControllerID a = ctl_ControllerID c)"
  show ?thesis
  proof (rule fold_err_invariant [where P = ?P and f = "observe_one c"])
    show "fold_err (observe_one c) observed [] = Inr obs" using assms by (simp add: validateObserved_def)
    show "?P []" by (simp add: wf_empty)
  next
    fix x s s' assume "?P s" "observe_one c x s = Inr s'"
    then show "?P s'" by (auto simp: observe_one_def map_simps split: option.splits if_splits)
  qed
qed

lemma reconcile_matches:
  assumes wf: "wf_journal j" and obs: "validateObserved c observed = Inr obs"
    and res: "reconcile c obs now j = Inr j'"
  shows "get obs name = Some a \<Longrightarrow> \<exists>l. get (j_Leases j') name = Some l \<and> lease_agrees l a"
    and "get obs name = None \<Longrightarrow> get (j_Leases j') name = Some l \<Longrightarrow>
      get (j_Leases j) name = Some l \<and> l_State l = StateAdmitted \<and> now < l_ExpiresAt l"
proof -
  obtain leases claims rest where
    f: "fold_err (reconcile_lease c (claims_by_instance (j_Claims j)) now)
          (sort (keys (j_Leases j))) (j_Leases j, j_Claims j, obs) = Inr (leases, claims, rest)"
    using res by (auto simp: reconcile_def Let_def split: sum.splits)
  define sts where "sts = map (\<lambda>(name, a). (name, normalizedObservedState (a_State a))) obs"
  define mid where "mid = fold (hand_back c sts now) leases leases"
  have j': "j_Leases j' = fold (adopt_new c now rest) (sort (keys rest)) mid"
    using res f by (auto simp: reconcile_def Let_def sts_def mid_def)
  have d: "distinct (sort (keys (j_Leases j)))" using wf by (simp add: wf_journal_def wf_map_def)
  have wfl: "wf_map leases" using reconcile_leases_wf [OF _ _ f] wf by (simp add: wf_journal_def)
  note st = reconcile_leases_settle [OF f d]
  have all: "settled now (j_Leases j) obs leases rest k" for k
  proof (cases "k \<in> set (keys (j_Leases j))")
    case True
    then show ?thesis using st by simp
  next
    case False
    then have "get (j_Leases j) k = None" by (meson get_in_keys not_Some_eq)
    then show ?thesis using st False by (auto simp: settled_def)
  qed
  have sts: "get sts k = map_option (\<lambda>a. normalizedObservedState (a_State a)) (get obs k)" for k
    unfolding sts_def using get_map_value [of "\<lambda>k a. normalizedObservedState (a_State a)" obs k] by simp
  have agrees: "lease_agrees l a" if "get obs k = Some a" "get leases k = Some l" for k a l
    using all [of k] that by (auto simp: settled_def split: option.splits)
  note hb = hand_back_keeps [OF wfl, of obs sts c now, folded mid_def]
  have hb1: "\<exists>l. get mid k = Some l \<and> lease_agrees l a" if "get obs k = Some a" "get leases k \<noteq> None" for k a
    using hb that agrees sts by auto
  have hb2: "get mid k \<in> {None, get leases k}" if "get obs k = None" for k
    using hb that agrees sts by auto
  have drest: "distinct (sort (keys rest))"
    using reconcile_rest_wf [OF f] validateObserved_names [OF obs] by (simp add: wf_map_def)
  show "\<exists>l. get (j_Leases j') name = Some l \<and> lease_agrees l a" if o: "get obs name = Some a"
  proof (cases "get (j_Leases j) name")
    case None
    then have "get rest name = Some a" using all [of name] o by (simp add: settled_def)
    then show ?thesis
      using validateObserved_names [OF obs] o
      by (auto simp: j' adopt_new_get [OF drest] lease_agrees_def lease_of_observed_def dest: get_in_keys)
  next
    case (Some l)
    then have "get rest name = None" "get leases name \<noteq> None" using all [of name] o by (auto simp: settled_def)
    then show ?thesis using hb1 [OF o] by (simp add: j' adopt_new_get [OF drest])
  qed
  show "get (j_Leases j) name = Some l \<and> l_State l = StateAdmitted \<and> now < l_ExpiresAt l"
    if o: "get obs name = None" and l: "get (j_Leases j') name = Some l"
  proof -
    have "get rest name = None" using all [of name] o by (auto simp: settled_def split: option.splits)
    then have "get mid name = Some l" using l by (simp add: j' adopt_new_get [OF drest] split: if_splits)
    then have "get leases name = Some l" using hb2 [OF o] by auto
    then show ?thesis using all [of name] o by (auto simp: settled_def split: option.splits)
  qed
qed

section \<open>The ledger of a journal\<close>

text \<open>What the leases of a journal hold of a resource, apart from the leases that are already marked
  to make room for the named request.\<close>

definition held :: "(lease \<Rightarrow> int) \<Rightarrow> string \<Rightarrow> lease gomap \<Rightarrow> int" where
  "held resource name leases =
     sum_list (map (\<lambda>(k, l). if l_PreemptedBy l = name then 0 else resource l) leases)"

definition lease_allowance :: "lease \<Rightarrow> int" where
  "lease_allowance l = effectiveCPUAllowance (l_CPUAllowanceUnits l) (l_VCPU l)"

lemma sum_over_keys:
  "wf_map m \<Longrightarrow> sum_list (map (\<lambda>(k, v). g k v) m) = (\<Sum>k \<in> set (keys m). case get m k of Some v \<Rightarrow> g k v | None \<Rightarrow> (0::int))"
proof (induction m)
  case Nil
  show ?case by (simp add: keys_def)
next
  case (Cons x m)
  obtain k v where x: "x = (k, v)" by (cases x)
  have wf: "wf_map m" and k: "k \<notin> set (keys m)" using Cons.prems by (auto simp: wf_map_def keys_def x)
  have "(\<Sum>k' \<in> set (keys m). case get (x # m) k' of Some v \<Rightarrow> g k' v | None \<Rightarrow> 0)
      = (\<Sum>k' \<in> set (keys m). case get m k' of Some v \<Rightarrow> g k' v | None \<Rightarrow> 0)"
    using k by (intro sum.cong) (auto simp: x)
  then show ?case using Cons.IH [OF wf] k by (simp add: x keys_def)
qed

lemma sum_same_get:
  assumes "wf_map m" "wf_map n" "get m = get n"
  shows "sum_list (map (\<lambda>(k, v). g k v :: int) m) = sum_list (map (\<lambda>(k, v). g k v) n)"
proof -
  have "set (keys m) = set (keys n)"
    using assms(3) by (metis has_def has_iff_keys subsetI subset_antisym)
  then show ?thesis using assms by (simp add: sum_over_keys)
qed

text \<open>How admission changes the leases: every lease keeps its resources, and a lease afterwards is the
  admitted one, one that makes room for it, or one that was counted against it.\<close>

definition ledger_step :: "allocation \<Rightarrow> string list \<Rightarrow> lease gomap \<Rightarrow> lease gomap \<Rightarrow> bool" where
  "ledger_step a excluded L L' \<longleftrightarrow>
     (\<forall>k l. get L k = Some l \<longrightarrow> (\<exists>l'. get L' k = Some l' \<and> l_VCPU l' = l_VCPU l
        \<and> l_MemoryMiB l' = l_MemoryMiB l \<and> lease_allowance l' = lease_allowance l))
     \<and> (\<exists>l'. get L' (a_InstanceName a) = Some l' \<and> l_VCPU l' = a_VCPU a \<and> l_MemoryMiB l' = a_MemoryMiB a
          \<and> lease_allowance l' = effectiveCPUAllowance (a_CPUAllowanceUnits a) (a_VCPU a))
     \<and> (\<forall>k l'. get L' k = Some l' \<longrightarrow> k \<noteq> a_InstanceName a \<longrightarrow>
          l_PreemptedBy l' = a_InstanceName a \<or> k \<notin> set excluded \<and> get L k = Some l')"

text \<open>A resource read off a lease that the step respects.\<close>

definition step_resource :: "allocation \<Rightarrow> (lease \<Rightarrow> int) \<Rightarrow> int \<Rightarrow> bool" where
  "step_resource a resource need \<longleftrightarrow> (resource, need) \<in> {(l_VCPU, a_VCPU a), (l_MemoryMiB, a_MemoryMiB a),
     (lease_allowance, effectiveCPUAllowance (a_CPUAllowanceUnits a) (a_VCPU a))}"

lemma counted_sum:
  "sum_list (map resource (counted_leases L excluded)) =
     sum_list (map (\<lambda>(k, l). if k \<in> set excluded then 0 else resource l) L)"
  by (induction L) (auto simp: counted_leases_def)

lemma step_resource_old:
  assumes "ledger_step a excluded L L'" "step_resource a resource need" "get L k = Some l"
  shows "\<exists>l'. get L' k = Some l' \<and> resource l' = resource l"
  using assms unfolding ledger_step_def step_resource_def by fastforce

lemma step_resource_new:
  assumes "ledger_step a excluded L L'" "step_resource a resource need"
  shows "\<exists>l'. get L' (a_InstanceName a) = Some l' \<and> resource l' = need"
  using assms unfolding ledger_step_def step_resource_def by fastforce

lemma step_keys:
  assumes "ledger_step a excluded L L'" "step_resource a resource need"
  shows "set (keys L) \<subseteq> set (keys L')"
proof
  fix k assume "k \<in> set (keys L)"
  then obtain l where "get L k = Some l" unfolding has_iff_keys [symmetric] has_def by blast
  then obtain l' where "get L' k = Some l'" using step_resource_old [OF assms] by metis
  then show "k \<in> set (keys L')" by (rule get_in_keys)
qed

text \<open>What one key contributes to the counted sum.\<close>

lemma counted_value:
  assumes "ledger_step a excluded L L'" "step_resource a resource need"
    and "\<forall>k l. get L' k = Some l \<longrightarrow> 0 \<le> resource l"
  shows "0 \<le> (case get L k of Some l \<Rightarrow> if k \<in> set excluded then 0 else resource l | None \<Rightarrow> 0)"
    and "(case get L k of Some l \<Rightarrow> if k \<in> set excluded then 0 else resource l | None \<Rightarrow> 0)
      \<le> (case get L' k of Some l \<Rightarrow> resource l | None \<Rightarrow> 0)"
proof -
  have "0 \<le> resource l \<and> (\<exists>l'. get L' k = Some l' \<and> resource l' = resource l)" if "get L k = Some l" for l
    using step_resource_old [OF assms(1,2) that] assms(3) by metis
  then show "0 \<le> (case get L k of Some l \<Rightarrow> if k \<in> set excluded then 0 else resource l | None \<Rightarrow> 0)"
    by (simp split: option.split)
  show "(case get L k of Some l \<Rightarrow> if k \<in> set excluded then 0 else resource l | None \<Rightarrow> 0)
      \<le> (case get L' k of Some l \<Rightarrow> resource l | None \<Rightarrow> 0)"
  proof (cases "get L k")
    case None
    then show ?thesis using assms(3) by (simp split: option.split)
  next
    case (Some l)
    obtain l' where "get L' k = Some l'" "resource l' = resource l" "0 \<le> resource l'"
      using step_resource_old [OF assms(1,2) Some] assms(3) by metis
    then show ?thesis using Some by simp
  qed
qed

lemma held_le_counted:
  assumes step: "ledger_step a excluded L L'" and res: "step_resource a resource need"
    and wf: "wf_map L" "wf_map L'" and nonneg: "\<forall>k l. get L' k = Some l \<longrightarrow> 0 \<le> resource l"
  shows "held resource (a_InstanceName a) L' \<le> need + sum_list (map resource (counted_leases L excluded))"
proof -
  let ?n = "a_InstanceName a"
  let ?h = "\<lambda>k. case get L' k of Some l \<Rightarrow> if l_PreemptedBy l = ?n then 0 else resource l | None \<Rightarrow> 0"
  let ?g = "\<lambda>k. case get L k of Some l \<Rightarrow> if k \<in> set excluded then 0 else resource l | None \<Rightarrow> 0"
  obtain ln where ln: "get L' ?n = Some ln" "resource ln = need" using step_resource_new [OF step res] by blast
  have nn: "0 \<le> need" using nonneg ln by auto
  note g0 = counted_value(1) [OF step res nonneg]
  note sub = step_keys [OF step res]
  have bound: "?h k \<le> (if k = ?n then need else 0) + ?g k" for k
  proof (cases "get L' k")
    case None
    then show ?thesis using g0 [of k] nn by simp
  next
    case (Some l')
    show ?thesis
    proof (cases "k = ?n")
      case True
      then show ?thesis using Some ln g0 [of k] nn by auto
    next
      case False
      then have "l_PreemptedBy l' = ?n \<or> k \<notin> set excluded \<and> get L k = Some l'"
        using step Some unfolding ledger_step_def by blast
      then show ?thesis using Some g0 [of k] False by auto
    qed
  qed
  have "held resource ?n L' = (\<Sum>k \<in> set (keys L'). ?h k)"
    unfolding held_def using sum_over_keys [OF wf(2), of "\<lambda>k l. if l_PreemptedBy l = ?n then 0 else resource l"] by simp
  also have "\<dots> \<le> (\<Sum>k \<in> set (keys L'). (if k = ?n then need else 0) + ?g k)"
    using bound by (rule sum_mono)
  also have "\<dots> = need + (\<Sum>k \<in> set (keys L'). ?g k)"
    using get_in_keys [OF ln(1)] by (simp add: sum.distrib)
  also have "(\<Sum>k \<in> set (keys L'). ?g k) = (\<Sum>k \<in> set (keys L). ?g k)"
  proof (rule sum.mono_neutral_right)
    show "\<forall>k \<in> set (keys L') - set (keys L). ?g k = 0"
      by (auto simp: has_iff_keys [symmetric] has_def)
  qed (use sub in auto)
  also have "\<dots> = sum_list (map resource (counted_leases L excluded))"
    unfolding counted_sum using sum_over_keys [OF wf(1), of "\<lambda>k l. if k \<in> set excluded then 0 else resource l"] by simp
  finally show ?thesis by simp
qed

lemma counted_le_sum:
  assumes step: "ledger_step a excluded L L'" and res: "step_resource a resource need"
    and wf: "wf_map L" "wf_map L'" and nonneg: "\<forall>k l. get L' k = Some l \<longrightarrow> 0 \<le> resource l"
  shows "0 \<le> sum_list (map resource (counted_leases L excluded))"
    and "sum_list (map resource (counted_leases L excluded)) \<le> sum_list (map (\<lambda>(k, l). resource l) L')"
    and "0 \<le> need" and "need \<le> sum_list (map (\<lambda>(k, l). resource l) L')"
proof -
  let ?f = "\<lambda>k. case get L' k of Some l \<Rightarrow> resource l | None \<Rightarrow> 0"
  let ?g = "\<lambda>k. case get L k of Some l \<Rightarrow> if k \<in> set excluded then 0 else resource l | None \<Rightarrow> 0"
  have c: "sum_list (map resource (counted_leases L excluded)) = (\<Sum>k \<in> set (keys L). ?g k)"
    unfolding counted_sum using sum_over_keys [OF wf(1), of "\<lambda>k l. if k \<in> set excluded then 0 else resource l"] by simp
  have t: "sum_list (map (\<lambda>(k, l). resource l) L') = (\<Sum>k \<in> set (keys L'). ?f k)"
    using sum_over_keys [OF wf(2), of "\<lambda>k l. resource l"] by simp
  have f0: "0 \<le> ?f k" for k using nonneg by (simp split: option.splits)
  have gf: "0 \<le> ?g k \<and> ?g k \<le> ?f k" for k
    using counted_value [OF step res nonneg, of k] by blast
  note sub = step_keys [OF step res]
  show "0 \<le> sum_list (map resource (counted_leases L excluded))"
    unfolding c using gf by (intro sum_nonneg) blast
  have "(\<Sum>k \<in> set (keys L). ?g k) \<le> (\<Sum>k \<in> set (keys L). ?f k)" using gf by (intro sum_mono) blast
  also have "\<dots> \<le> (\<Sum>k \<in> set (keys L'). ?f k)" using sub f0 by (intro sum_mono2) auto
  finally show "sum_list (map resource (counted_leases L excluded)) \<le> sum_list (map (\<lambda>(k, l). resource l) L')"
    unfolding c t .
  obtain ln where ln: "get L' (a_InstanceName a) = Some ln" "resource ln = need"
    using step_resource_new [OF step res] by blast
  then show "0 \<le> need" using nonneg by blast
  have "?f (a_InstanceName a) \<le> (\<Sum>k \<in> set (keys L'). ?f k)"
    using ln(1) get_in_keys f0 by (intro member_le_sum) auto
  then show "need \<le> sum_list (map (\<lambda>(k, l). resource l) L')" unfolding t using ln by simp
qed

section \<open>What admission does to the ledger\<close>

lemma mark_victims_get:
  "get (mark_victims c now t vs m) k =
     (if k \<in> set vs then Some (stamp_lease c now ((lease_or_zero m k)\<lparr>l_PreemptedBy := t\<rparr>)) else get m k)"
proof (induction vs arbitrary: m)
  case Nil
  show ?case by (simp add: mark_victims_def)
next
  case (Cons v vs)
  have "mark_victims c now t (v # vs) m =
      mark_victims c now t vs (put v (stamp_lease c now ((lease_or_zero m v)\<lparr>l_PreemptedBy := t\<rparr>)) m)"
    by (simp add: mark_victims_def)
  then show ?case
    by (auto simp: Cons.IH map_simps lease_or_zero_def stamp_lease_def)
qed

lemma refresh_leases_get:
  "get (refresh_leases c now vs m) k =
     (if k \<in> set vs then Some (stamp_lease c now (lease_or_zero m k)) else get m k)"
proof (induction vs arbitrary: m)
  case Nil
  show ?case by (simp add: refresh_leases_def)
next
  case (Cons v vs)
  have "refresh_leases c now (v # vs) m = refresh_leases c now vs (put v (stamp_lease c now (lease_or_zero m v)) m)"
    by (simp add: refresh_leases_def)
  then show ?case by (auto simp: Cons.IH map_simps lease_or_zero_def stamp_lease_def)
qed

lemma preemptionsFor_iff:
  "wf_map m \<Longrightarrow> k \<in> set (preemptionsFor m name) \<longleftrightarrow> (\<exists>l. get m k = Some l \<and> l_PreemptedBy l = name)"
  by (force simp: preemptionsFor_def get_iff_mem)

lemma lease_allowance_stamp [simp]:
  "lease_allowance (stamp_lease c now l) = lease_allowance l"
  "lease_allowance (l\<lparr>l_PreemptedBy := t\<rparr>) = lease_allowance l"
  by (simp_all add: lease_allowance_def)

text \<open>The prefixes the preemption plan tries are prefixes of the candidate list.\<close>

lemma preempt_prefix_result:
  assumes "preempt_prefix c host leases er d sel ls = Inr (d', vs)"
  shows "vs = [] \<or> (\<exists>n > 0. n \<le> length ls \<and> vs = sel @ map l_InstanceName (take n ls)
      \<and> Admitted d' \<and> Evaluate (project_host host leases vs) (ctl_Policy c) er = Inr d'
      \<and> (\<forall>m. 0 < m \<longrightarrow> m < n \<longrightarrow> (\<exists>dm. Evaluate (project_host host leases (sel @ map l_InstanceName (take m ls)))
            (ctl_Policy c) er = Inr dm \<and> \<not> Admitted dm)))"
  using assms
proof (induction ls arbitrary: sel d)
  case Nil
  then show ?case by simp
next
  case (Cons l ls)
  let ?sel = "sel @ [l_InstanceName l]"
  obtain d1 where d1: "Evaluate (project_host host leases ?sel) (ctl_Policy c) er = Inr d1"
    using Cons.prems by (auto simp: Let_def split: sum.splits)
  show ?case
  proof (cases "Admitted d1")
    case True
    then have "d' = d1" "vs = ?sel" using Cons.prems d1 by (auto simp: Let_def)
    then show ?thesis using True d1 by (intro disjI2 exI [of _ 1]) auto
  next
    case False
    then have "preempt_prefix c host leases er d1 ?sel ls = Inr (d', vs)"
      using Cons.prems d1 by (auto simp: Let_def)
    from Cons.IH [OF this] show ?thesis
    proof
      assume "vs = []"
      then show ?thesis by simp
    next
      assume "\<exists>n > 0. n \<le> length ls \<and> vs = ?sel @ map l_InstanceName (take n ls)
        \<and> Admitted d' \<and> Evaluate (project_host host leases vs) (ctl_Policy c) er = Inr d'
        \<and> (\<forall>m. 0 < m \<longrightarrow> m < n \<longrightarrow> (\<exists>dm. Evaluate (project_host host leases (?sel @ map l_InstanceName (take m ls)))
            (ctl_Policy c) er = Inr dm \<and> \<not> Admitted dm))"
      then obtain n where n: "n > 0" "n \<le> length ls" "vs = ?sel @ map l_InstanceName (take n ls)" "Admitted d'"
        "Evaluate (project_host host leases vs) (ctl_Policy c) er = Inr d'"
        "\<And>m. 0 < m \<Longrightarrow> m < n \<Longrightarrow> (\<exists>dm. Evaluate (project_host host leases (?sel @ map l_InstanceName (take m ls)))
            (ctl_Policy c) er = Inr dm \<and> \<not> Admitted dm)" by blast
      have "\<exists>dm. Evaluate (project_host host leases (sel @ map l_InstanceName (take m (l # ls)))) (ctl_Policy c) er = Inr dm
          \<and> \<not> Admitted dm" if "0 < m" "m < Suc n" for m
      proof (cases m)
        case 0
        then show ?thesis using that by simp
      next
        case (Suc m')
        then show ?thesis using n(6) [of m'] that d1 False by (cases m') auto
      qed
      then show ?thesis using n by (intro disjI2 exI [of _ "Suc n"]) auto
    qed
  qed
qed

lemma preempt_prefix_none:
  assumes "preempt_prefix c host leases er d sel ls = Inr (d', [])" "ls \<noteq> []" "\<not> Admitted d"
  shows "\<not> Admitted d' \<and> (\<forall>m. 0 < m \<longrightarrow> m \<le> length ls \<longrightarrow>
      (\<exists>dm. Evaluate (project_host host leases (sel @ map l_InstanceName (take m ls))) (ctl_Policy c) er = Inr dm
         \<and> \<not> Admitted dm))"
  using assms
proof (induction ls arbitrary: sel d)
  case Nil
  then show ?case by simp
next
  case (Cons l ls)
  let ?sel = "sel @ [l_InstanceName l]"
  obtain d1 where d1: "Evaluate (project_host host leases ?sel) (ctl_Policy c) er = Inr d1" "\<not> Admitted d1"
      "preempt_prefix c host leases er d1 ?sel ls = Inr (d', [])"
    using Cons.prems(1) by (auto simp: Let_def split: sum.splits if_splits)
  have rest: "\<exists>dm. Evaluate (project_host host leases (?sel @ map l_InstanceName (take m ls))) (ctl_Policy c) er = Inr dm
      \<and> \<not> Admitted dm" if "0 < m" "m \<le> length ls" for m
    using Cons.IH [OF d1(3) _ d1(2)] that by (cases "ls = []") auto
  have "\<not> Admitted d'" using Cons.IH [OF d1(3) _ d1(2)] d1 by (cases "ls = []") auto
  moreover have "\<exists>dm. Evaluate (project_host host leases (sel @ map l_InstanceName (take m (l # ls)))) (ctl_Policy c) er = Inr dm
      \<and> \<not> Admitted dm" if "0 < m" "m \<le> length (l # ls)" for m
  proof (cases m)
    case 0
    then show ?thesis using that by simp
  next
    case (Suc m')
    then show ?thesis using rest [of m'] that d1 by (cases m') auto
  qed
  ultimately show ?case by blast
qed

text \<open>An admission on the capacity of a host from which some leases have been taken out.\<close>

definition admitted_without ::
    "controller \<Rightarrow> host_snapshot \<Rightarrow> lease gomap \<Rightarrow> string list \<Rightarrow> allocation \<Rightarrow> bool" where
  "admitted_without c host leases excluded a \<longleftrightarrow>
     (\<exists>available d. Evaluate ((withAllocatedLeasesExcluding host leases excluded)\<lparr>AvailableMemoryMiB := available\<rparr>)
        (ctl_Policy c) (evaluation_request a) = Inr d \<and> Admitted d)"

lemma admitted_withoutI:
  "Evaluate (withAllocatedLeases host L []) (ctl_Policy c) (evaluation_request a) = Inr d \<Longrightarrow> Admitted d \<Longrightarrow>
     admitted_without c host L [] a"
  "Evaluate (project_host host L vs) (ctl_Policy c) (evaluation_request a) = Inr d \<Longrightarrow> Admitted d \<Longrightarrow>
     admitted_without c host L (exclusionSet vs) a"
proof -
  assume "Evaluate (withAllocatedLeases host L []) (ctl_Policy c) (evaluation_request a) = Inr d" "Admitted d"
  moreover have "withAllocatedLeases host L [] =
      (withAllocatedLeasesExcluding host L [])\<lparr>AvailableMemoryMiB := AvailableMemoryMiB host\<rparr>"
    by (simp add: withAllocatedLeases_def exclusionSet_def withAllocatedLeasesExcluding_def Let_def)
  ultimately show "admitted_without c host L [] a" unfolding admitted_without_def by metis
next
  assume "Evaluate (project_host host L vs) (ctl_Policy c) (evaluation_request a) = Inr d" "Admitted d"
  then show "admitted_without c host L (exclusionSet vs) a"
    unfolding admitted_without_def project_host_def by blast
qed

lemma plan_admits:
  assumes "planWarmPreemption c host j req same 0 locations preferred = Inr (d', vs)" "Admitted d'"
    and "\<forall>d. Evaluate (withAllocatedLeases host (j_Leases j) []) (ctl_Policy c)
           (evaluation_request (r_Allocation req)) = Inr d \<longrightarrow> \<not> Admitted d"
  shows "vs \<noteq> [] \<and> Evaluate (project_host host (j_Leases j) vs) (ctl_Policy c)
      (evaluation_request (r_Allocation req)) = Inr d'"
proof -
  let ?er = "evaluation_request (r_Allocation req)" and ?ls = "preemption_candidates j req same"
  obtain d where d: "\<not> Admitted d" "preempt_prefix c host (j_Leases j) ?er d [] ?ls = Inr (d', vs)"
    using assms by (auto simp: planWarmPreemption_def Let_def split: sum.splits)
  have "vs \<noteq> []"
  proof
    assume "vs = []"
    then show False
      using d assms(2) preempt_prefix_none [of c host "j_Leases j" ?er d "[]" ?ls d'] by (cases "?ls = []") auto
  qed
  then show ?thesis using preempt_prefix_result [OF d(2)] by auto
qed

lemma count_preemptions_leases: "count_preemptions vs j = Inr j' \<Longrightarrow> j_Leases j' = j_Leases j"
  using count_preemptions_maps by blast

lemma admit_new_step:
  assumes res: "admit_new c host req b now j = Inr (j', r)" and adm: "Admitted (ar_Decision r)"
    and new: "get (j_Leases j) (a_InstanceName (r_Allocation req)) = None"
  shows "\<exists>excluded. admitted_without c host (j_Leases j) excluded (r_Allocation req)
    \<and> ledger_step (r_Allocation req) excluded (j_Leases j) (j_Leases j')"
proof -
  let ?a = "r_Allocation req" and ?L = "j_Leases j"
  let ?er = "evaluation_request ?a"
  obtain d where d: "Evaluate (withAllocatedLeases host ?L []) (ctl_Policy c) ?er = Inr d"
    using res by (auto simp: admit_new_def Let_def split: sum.splits)
  obtain vs where plan: "(if \<not> Admitted d \<and> b \<and> preemptibleReason (Reason d)
        then planWarmPreemption c host j req False 0 [] [] else Inr (d, [])) = Inr (ar_Decision r, vs)"
      and L': "j_Leases j' = mark_victims c now (a_InstanceName ?a) vs (put (a_InstanceName ?a) (admitted_lease c now ?a) ?L)"
    using res adm d
    by (auto simp: admit_new_def Let_def dest!: count_preemptions_leases split: sum.splits if_splits)
  have "\<exists>excluded. set excluded \<subseteq> set vs \<and> admitted_without c host ?L excluded ?a"
  proof (cases "\<not> Admitted d \<and> b \<and> preemptibleReason (Reason d)")
    case True
    then have "planWarmPreemption c host j req False 0 [] [] = Inr (ar_Decision r, vs)" using plan by simp
    from plan_admits [OF this adm] d True have "admitted_without c host ?L (exclusionSet vs) ?a"
      using admitted_withoutI(2) [OF _ adm] by auto
    then show ?thesis by (intro exI [of _ "exclusionSet vs"]) (auto simp: exclusionSet_def)
  next
    case False
    then have "d = ar_Decision r" using plan by (auto split: if_splits)
    then show ?thesis using admitted_withoutI(1) d adm by (intro exI [of _ "[]"]) auto
  qed
  then obtain excluded where e: "set excluded \<subseteq> set vs" "admitted_without c host ?L excluded ?a" by blast
  have "ledger_step ?a excluded ?L (j_Leases j')"
    unfolding ledger_step_def L' mark_victims_get
    using new e(1)
    by (auto simp: map_simps lease_or_zero_def admitted_lease_def lease_allowance_def)
  then show ?thesis using e(2) by blast
qed

lemma readmit_step:
  assumes res: "readmit c host req now l j = Inr (j', r)" and adm: "Admitted (ar_Decision r)"
    and old: "get (j_Leases j) (a_InstanceName (r_Allocation req)) = Some l" and wf: "wf_journal j"
    and ne: "a_InstanceName (r_Allocation req) \<noteq> []"
  shows "\<exists>excluded. admitted_without c host (j_Leases j) excluded (r_Allocation req)
    \<and> ledger_step (r_Allocation req) excluded (j_Leases j) (j_Leases j')"
proof -
  let ?a = "r_Allocation req" and ?L = "j_Leases j"
  let ?n = "a_InstanceName ?a"
  let ?vs = "preemptionsFor ?L ?n"
  have match: "leaseMatches l ?a = None" using res by (auto simp: readmit_def Let_def split: option.splits)
  have ev: "Evaluate ((withAllocatedLeasesExcluding host ?L (exclusionSet (?n # ?vs)))
      \<lparr>AvailableMemoryMiB := projectedAvailableMemory host ?L ?vs\<rparr>) (ctl_Policy c) (evaluation_request ?a)
      = Inr (ar_Decision r)"
    and L': "j_Leases j' = refresh_leases c now ?vs (put ?n (stamp_lease c now l) ?L)"
    using res match adm by (auto simp: readmit_def Let_def split: sum.splits if_splits)
  have vs: "k \<in> set ?vs \<longleftrightarrow> (\<exists>l. get ?L k = Some l \<and> l_PreemptedBy l = ?n)" for k
    using preemptionsFor_iff wf unfolding wf_journal_def by blast
  have "ledger_step ?a (exclusionSet (?n # ?vs)) ?L (j_Leases j')"
    unfolding ledger_step_def L' refresh_leases_get vs
    using old match ne
    by (auto simp: map_simps lease_or_zero_def lease_allowance_def leaseMatches_def exclusionSet_def vs
        split: if_splits)
  then show ?thesis using ev adm unfolding admitted_without_def by blast
qed

section \<open>From the decision to the sums\<close>

text \<open>The magnitudes for which the controller's 64 bit sums are exact.\<close>

definition small_ledger :: "host_snapshot \<Rightarrow> lease gomap \<Rightarrow> bool" where
  "small_ledger host leases \<longleftrightarrow> TotalCPUUnits host \<le> 2 ^ 40 \<and> TotalMemoryMiB host \<le> 2 ^ 40
     \<and> sum_list (map (\<lambda>(k, l). l_VCPU l) leases) \<le> 2 ^ 40
     \<and> sum_list (map (\<lambda>(k, l). l_MemoryMiB l) leases) \<le> 2 ^ 40
     \<and> sum_list (map (\<lambda>(k, l). lease_allowance l) leases) \<le> 2 ^ 40"

definition within_capacity :: "controller \<Rightarrow> host_snapshot \<Rightarrow> string \<Rightarrow> lease gomap \<Rightarrow> bool" where
  "within_capacity c host name leases \<longleftrightarrow>
     held l_VCPU name leases + cpuReserve host (ctl_Policy c) \<le> TotalCPUUnits host
     \<and> held l_MemoryMiB name leases + memoryReserve host (ctl_Policy c) \<le> TotalMemoryMiB host
     \<and> held lease_allowance name leases \<le> allowanceLimit host (ctl_Policy c)"

lemma effectiveCPUAllowance_pos: "0 < v \<Longrightarrow> 0 < effectiveCPUAllowance x v"
  by (simp add: effectiveCPUAllowance_def)

lemma sum_allowance_zero:
  assumes "\<forall>l \<in> set ls. 0 < l_VCPU l" "sum_list (map lease_allowance ls) = 0"
  shows "sum_list (map l_VCPU ls) = 0"
proof (cases ls)
  case (Cons l ls')
  have "0 \<le> sum_list (map lease_allowance ls')"
    using assms(1) Cons effectiveCPUAllowance_pos
    by (intro sum_list_nonneg) (auto simp: lease_allowance_def less_imp_le)
  moreover have "0 < lease_allowance l"
    using assms(1) Cons effectiveCPUAllowance_pos by (simp add: lease_allowance_def)
  ultimately show ?thesis using assms(2) Cons by simp
qed simp

lemma step_within_capacity:
  assumes step: "ledger_step a excluded L L'" and ev: "admitted_without c host L excluded a"
    and wf: "wf_map L" "wf_map L'"
    and pos: "\<forall>k l. get L' k = Some l \<longrightarrow> 0 < l_VCPU l \<and> 0 < l_MemoryMiB l"
    and a: "0 \<le> a_CPUAllowanceUnits a" and small: "small_ledger host L'"
  shows "within_capacity c host (a_InstanceName a) L'"
proof -
  let ?cl = "counted_leases L excluded" and ?p = "ctl_Policy c" and ?r = "evaluation_request a"
  let ?need = "effectiveCPUAllowance (a_CPUAllowanceUnits a) (a_VCPU a)"
  obtain available d where ev: "Evaluate ((withAllocatedLeasesExcluding host L excluded)
      \<lparr>AvailableMemoryMiB := available\<rparr>) ?p ?r = Inr d" "Admitted d"
    using ev unfolding admitted_without_def by blast
  define h where "h = (withAllocatedLeasesExcluding host L excluded)\<lparr>AvailableMemoryMiB := available\<rparr>"
  have v: "validate_admission h ?p ?r = None" using Evaluate_cases [OF ev(1)] by (simp add: h_def)
  note rng = validate_admission_ranges [OF v]
  have R: "step_resource a l_VCPU (a_VCPU a)" "step_resource a l_MemoryMiB (a_MemoryMiB a)"
      "step_resource a lease_allowance ?need" by (simp_all add: step_resource_def)
  have nn: "\<forall>k l. get L' k = Some l \<longrightarrow> 0 \<le> l_VCPU l" "\<forall>k l. get L' k = Some l \<longrightarrow> 0 \<le> l_MemoryMiB l"
      "\<forall>k l. get L' k = Some l \<longrightarrow> 0 \<le> lease_allowance l"
    using pos effectiveCPUAllowance_pos unfolding lease_allowance_def by (meson less_imp_le)+
  note C = counted_le_sum [OF step R(1) wf nn(1)]
  note Mm = counted_le_sum [OF step R(2) wf nn(2)]
  note A = counted_le_sum [OF step R(3) wf nn(3)]
  note S = small [unfolded small_ledger_def]
  have small64: "in_int64 x" if "0 \<le> x" "x \<le> 2 ^ 40" for x :: int
    using that by (simp add: in_int64_def)
  have "in_int64 (sum_list (map l_VCPU ?cl))" "in_int64 (sum_list (map l_MemoryMiB ?cl))"
      "in_int64 (sum_list (map lease_allowance ?cl))"
    using C(1,2) Mm(1,2) A(1,2) S by (auto intro!: small64)
  note sums = this [THEN sum64_exact]
  have h: "AllocatedCPUUnits h = sum_list (map l_VCPU ?cl)" "AllocatedMemoryMiB h = sum_list (map l_MemoryMiB ?cl)"
      "AllocatedCPUAllowanceUnits h = sum_list (map lease_allowance ?cl)"
      "TotalCPUUnits h = TotalCPUUnits host" "TotalMemoryMiB h = TotalMemoryMiB host" "AvailableMemoryMiB h = available"
    unfolding sums [symmetric] h_def withAllocatedLeasesExcluding_def lease_allowance_def
    by (simp_all add: Let_def comp_def)
  have need: "a_CPUAllowanceUnits a \<le> ?need" "requestedAllowance ?r = ?need"
    using a rng(5) by (auto simp: effectiveCPUAllowance_def requestedAllowance_def evaluation_request_def)
  have "0 < AvailableMemoryMiB h" using v unfolding validate_admission_def checks_None_iff by simp
  then have "exact_inputs h ?r"
    unfolding exact_inputs_def h evaluation_request_def magnitude_ok_def
    using C Mm A S rng(1,2,15) need a by (simp add: h)
  then have fit: "fits h ?p ?r"
    using Evaluate_admits_iff_fits [OF v] ev by (auto simp: h_def)
  have reserves: "cpuReserve h ?p = cpuReserve host ?p" "memoryReserve h ?p = memoryReserve host ?p"
      "allowanceLimit h ?p = allowanceLimit host ?p"
    by (simp_all add: cpuReserve_def memoryReserve_def allowanceLimit_def h)
  have "\<forall>l \<in> set ?cl. 0 < l_VCPU l"
    using step_resource_old [OF step R(1)] pos wf(1) by (fastforce simp: counted_leases_def get_iff_mem)
  then have "allocatedAllowance h = sum_list (map lease_allowance ?cl)"
    using sum_allowance_zero [of ?cl] by (simp add: allocatedAllowance_def h)
  then show ?thesis
    using fit held_le_counted [OF step R(1) wf nn(1)] held_le_counted [OF step R(2) wf nn(2)]
      held_le_counted [OF step R(3) wf nn(3)] need(2)
    unfolding within_capacity_def fits_def reserves h by (simp add: evaluation_request_def)
qed

section \<open>Properties\<close>

lemma sums_same_get:
  assumes "wf_map m" "wf_map n" "get m = get n"
  shows "small_ledger host m \<longleftrightarrow> small_ledger host n" and "within_capacity c host name m \<longleftrightarrow> within_capacity c host name n"
  using sum_same_get [OF assms] unfolding small_ledger_def within_capacity_def held_def by metis+

lemma drop_snapshot_Inr: "drop_snapshot p = (Inr r, f') \<longleftrightarrow> (\<exists>j. p = (Inr (r, j), f'))"
  by (cases p) (auto simp: drop_snapshot_def split: sum.splits)

lemma admit_Inr:
  assumes "admit c env now host observed req b f = (Inr r, f')"
  obtains obs j2 where "validateAllocation (r_Allocation req) = None"
    "a_ControllerID (r_Allocation req) = ctl_ControllerID c"
    "validateObserved c observed = Inr obs" "controller_validate c = None"
    "store_Update env (admit_mutation c host obs req b now) f = (Inr (r, j2), f')"
  using assms
  by (auto simp: admit_def drop_snapshot_Inr split: option.splits sum.splits if_splits)

lemma admit_mutation_step:
  assumes "admit_mutation c host obs req b now j = Inr (j', r)" "Admitted (ar_Decision r)" "wf_journal j"
    and "a_InstanceName (r_Allocation req) \<noteq> []"
  shows "\<exists>j1 excluded. reconcile c obs now j = Inr j1 \<and> wf_journal j1
    \<and> admitted_without c host (j_Leases j1) excluded (r_Allocation req)
    \<and> ledger_step (r_Allocation req) excluded (j_Leases j1) (j_Leases j')"
proof -
  obtain j1 where j1: "reconcile c obs now j = Inr j1"
    using assms(1) by (auto simp: admit_mutation_def split: sum.splits)
  have wf: "wf_journal j1" using reconcile_wf [OF assms(3) j1] .
  show ?thesis
  proof (cases "get (j_Leases j1) (a_InstanceName (r_Allocation req))")
    case None
    then have "admit_new c host req b now j1 = Inr (j', r)" using assms(1) j1 by (simp add: admit_mutation_def)
    from admit_new_step [OF this assms(2) None] show ?thesis using j1 wf by blast
  next
    case (Some l)
    then have "readmit c host req now l j1 = Inr (j', r)" using assms(1) j1 by (simp add: admit_mutation_def)
    from readmit_step [OF this assms(2) Some wf assms(4)] show ?thesis using j1 wf by blast
  qed
qed

text \<open>C2: capacity safety. Whenever an admission is granted, with or without preemption, to a new request
  or to one that already has a lease, the journal left on disk reserves no more than the host has: the
  vCPU, the memory and the CPU allowance of all leases, apart from the warm workers marked to make room
  for this request, fit under the totals minus the reserves of the policy.\<close>

theorem admit_within_capacity:
  assumes "reachable_file c f" and res: "admit c env now host observed req b f = (Inr r, f')"
    and adm: "Admitted (ar_Decision r)" and j': "readUnlocked f' = Inr j'"
    and a: "0 \<le> a_CPUAllowanceUnits (r_Allocation req)" and small: "small_ledger host (j_Leases j')"
  shows "within_capacity c host (a_InstanceName (r_Allocation req)) (j_Leases j')"
proof -
  have f: "wf_file f" using reachable_file_ok [OF assms(1)] by (simp add: file_ok_def)
  obtain obs j2 where v: "validateAllocation (r_Allocation req) = None"
      "store_Update env (admit_mutation c host obs req b now) f = (Inr (r, j2), f')"
    using admit_Inr [OF res] by metis
  have name: "a_InstanceName (r_Allocation req) \<noteq> []"
    using v(1) by (simp add: validateAllocation_def split: if_splits)
  obtain before j j1 where u: "wf_journal before" "admit_mutation c host obs req b now before = Inr (j, r)"
      "journal_ok j" "readUnlocked f' = Inr j1" "wf_journal j1" "get (j_Leases j1) = get (j_Leases j)"
    using store_Update_result [OF v(2) f wf_mutation_admit] by metis
  have eq: "j1 = j'" using u(4) j' by simp
  have wfj: "wf_map (j_Leases j)" "wf_map (j_Leases j')" and get: "get (j_Leases j') = get (j_Leases j)"
    using u eq by (simp_all add: journal_ok_def wf_journal_def)
  note same = sums_same_get [OF wfj(2,1) get]
  obtain jr excluded where s: "wf_journal jr"
      "admitted_without c host (j_Leases jr) excluded (r_Allocation req)"
      "ledger_step (r_Allocation req) excluded (j_Leases jr) (j_Leases j)"
    using admit_mutation_step [OF u(2) adm u(1) name] by blast
  have "\<forall>k l. get (j_Leases j) k = Some l \<longrightarrow> 0 < l_VCPU l \<and> 0 < l_MemoryMiB l"
    using u(3) unfolding journal_ok_def maps_ok_def lease_ok_def by blast
  then show ?thesis
    using step_within_capacity [OF s(3,2) _ wfj(1) _ a] s(1) small same by (simp add: wf_journal_def)
qed

lemma candidates_ok:
  "journal_ok j \<Longrightarrow> l \<in> set (preemption_candidates j req same) \<Longrightarrow>
     is_candidate j req same l \<and> get (j_Leases j) (l_InstanceName l) = Some l"
  by (fastforce simp: preemption_candidates_def journal_ok_def wf_journal_def maps_ok_def lease_ok_def get_iff_mem)


lemma validateObserved_all:
  assumes "validateObserved c observed = Inr obs"
  shows "(a \<in> set observed \<longrightarrow> get obs (a_InstanceName a) = Some a)
    \<and> (get obs name = Some b \<longrightarrow> b \<in> set observed)"
proof -
  have "(\<forall>a \<in> set observed. get obs (a_InstanceName a) = Some a)
      \<and> (\<forall>name b. get obs name = Some b \<longrightarrow> b \<in> set observed \<or> get acc name = Some b)
      \<and> (\<forall>name. get acc name \<noteq> None \<longrightarrow> get obs name = get acc name)"
    if "fold_err (observe_one c) observed acc = Inr obs" for acc
    using that
  proof (induction observed arbitrary: acc)
    case Nil
    then show ?case by simp
  next
    case (Cons x xs)
    then obtain acc' where x: "observe_one c x acc = Inr acc'" "fold_err (observe_one c) xs acc' = Inr obs"
      by (auto split: sum.splits)
    then have acc': "acc' = put (a_InstanceName x) x acc" "get acc (a_InstanceName x) = None"
      by (auto simp: observe_one_def has_def split: option.splits if_splits)
    note IH = Cons.IH [OF x(2)]
    have "get obs (a_InstanceName x) = Some x" using IH acc' by (auto simp: map_simps)
    moreover have "b \<in> set (x # xs) \<or> get acc name = Some b" if "get obs name = Some b" for name b
    proof -
      have "b \<in> set xs \<or> get acc' name = Some b" using IH that by blast
      then show ?thesis unfolding acc'(1) by (auto simp: map_simps split: if_splits)
    qed
    moreover have "get obs name = get acc name" if "get acc name \<noteq> None" for name
    proof -
      have "name \<noteq> a_InstanceName x" using that acc'(2) by auto
      then show ?thesis using IH that unfolding acc'(1) by (auto simp: map_simps)
    qed
    ultimately show ?case using IH by simp
  qed
  from this [of "[]"] assms show ?thesis by (auto simp: validateObserved_def)
qed

text \<open>after a reconciliation the journal and the Incus inventory agree: every observed instance has a
  lease with exactly its owner, pool, resources and image, and every lease without an observed instance
  is an old admission that has not expired; nothing else is kept.\<close>

theorem Reconcile_matches_inventory:
  assumes "reachable_file c f" and j: "readUnlocked f = Inr j"
    and res: "Reconcile c env now observed f = (Inr (), f')" and j': "readUnlocked f' = Inr j'"
  shows "(\<forall>a \<in> set observed. \<exists>l. get (j_Leases j') (a_InstanceName a) = Some l \<and> lease_agrees l a)
    \<and> (\<forall>name l. get (j_Leases j') name = Some l \<longrightarrow> name \<notin> a_InstanceName ` set observed \<longrightarrow>
         get (j_Leases j) name = Some l \<and> l_State l = StateAdmitted \<and> now < l_ExpiresAt l)"
proof -
  have f: "wf_file f" using reachable_file_ok [OF assms(1)] by (simp add: file_ok_def)
  let ?m = "\<lambda>obs j. case reconcile c obs now j of Inl e \<Rightarrow> Inl e | Inr j' \<Rightarrow> Inr (j', ())"
  obtain obs j2 where obs: "validateObserved c observed = Inr obs"
      and u: "store_Update env (?m obs) f = (Inr ((), j2), f')"
    using res by (auto simp: Reconcile_def drop_snapshot_Inr split: option.splits sum.splits)
  obtain jr where wf: "wf_journal j" and r: "?m obs j = Inr (jr, ())" and g: "get (j_Leases j') = get (j_Leases jr)"
    using store_Update_result [OF u f wf_mutation_reconcile] j j' by auto
  have r: "reconcile c obs now j = Inr jr" using r by (auto split: sum.splits)
  note m = reconcile_matches [OF wf obs r]
  have "get obs name = None" if "name \<notin> a_InstanceName ` set observed" for name
    using validateObserved_all [OF obs] validateObserved_names [OF obs] that
    by (metis image_eqI not_Some_eq)
  then show ?thesis using m validateObserved_all [OF obs] unfolding g by blast
qed

definition sample_big :: request where
  "sample_big = \<lparr>r_Allocation = \<lparr>a_InstanceName = ''job-9'', a_ControllerID = ''c'', a_PoolID = ''scale/9'',
     a_PoolName = ''big'', a_VCPU = 8, a_CPUAllowanceUnits = 8, a_MemoryMiB = 8192,
     a_ImageFingerprint = ''img'', a_State = StateCreated, a_JobName = [], a_Location = []\<rparr>,
     r_QueueIntentAuthorized = False\<rparr>"

definition warm_journal :: journal where
  "warm_journal = (case readUnlocked warm_file of Inr j \<Rightarrow> j | Inl e \<Rightarrow> newJournal)"

definition big_outcome :: "admission_result op_result" where
  "big_outcome = admit sample_controller good_env 6 sample_host [sample_warm] sample_big True warm_file"

definition big_journal :: journal where
  "big_journal = (case readUnlocked (snd big_outcome) of Inr j \<Rightarrow> j | Inl e \<Rightarrow> newJournal)"

lemma warm_file_reachable: "reachable_file sample_controller warm_file"
  unfolding warm_file_def by (intro reachable_file.reconcile reachable_file.start)

theorem admit_within_capacity_witness:
  "\<exists>r f' j'. big_outcome = (Inr r, f') \<and> ar_PreemptedWarmWorkers r = [''w1''] \<and> readUnlocked f' = Inr j'
     \<and> within_capacity sample_controller sample_host ''job-9'' (j_Leases j')"
proof -
  have "case fst big_outcome of Inr r \<Rightarrow> Admitted (ar_Decision r) \<and> ar_PreemptedWarmWorkers r = [''w1''] | Inl e \<Rightarrow> False"
    by code_simp
  moreover obtain x f' where x: "big_outcome = (x, f')" by fastforce
  ultimately have "\<exists>r. x = Inr r \<and> Admitted (ar_Decision r) \<and> ar_PreemptedWarmWorkers r = [''w1'']"
    unfolding x fst_conv by (simp split: sum.splits)
  then obtain r where o: "big_outcome = (Inr r, f')" and r: "Admitted (ar_Decision r)" "ar_PreemptedWarmWorkers r = [''w1'']"
    using x by blast
  have read: "readUnlocked (snd big_outcome) = Inr big_journal" by code_simp
  have small: "small_ledger sample_host (j_Leases big_journal)" by code_simp
  have rf: "readUnlocked f' = Inr big_journal" using read unfolding o by simp
  have "a_InstanceName (r_Allocation sample_big) = ''job-9''" "0 \<le> a_CPUAllowanceUnits (r_Allocation sample_big)"
    by (simp_all add: sample_big_def)
  then show ?thesis
    using admit_within_capacity [OF warm_file_reachable o [unfolded big_outcome_def] r(1) rf _ small] rf o r by metis
qed


theorem Reconcile_matches_inventory_witness:
  "\<exists>j' l. readUnlocked warm_file = Inr j' \<and> get (j_Leases j') ''w1'' = Some l \<and> lease_agrees l sample_warm"
proof -
  have "fst (Reconcile sample_controller good_env 5 [sample_warm] NoFile) = Inr ()" by code_simp
  then have r: "Reconcile sample_controller good_env 5 [sample_warm] NoFile = (Inr (), warm_file)"
    by (simp add: warm_file_def prod_eq_iff)
  have w: "readUnlocked warm_file = Inr warm_journal" by code_simp
  have "a_InstanceName sample_warm = ''w1''" by (simp add: sample_warm_def)
  with Reconcile_matches_inventory [OF reachable_file.start _ r w, of newJournal] w show ?thesis
    by (auto simp: readUnlocked_def)
qed

end
