(* ===== verification/Go_Crypto.thy ===== *)
theory Go_Crypto
  imports Go_Prelude
begin

text \<open>
  The part of Go's standard library that the engine's identities rest on: SHA-256 on byte lists and
  lower case hexadecimal, with the lemmas the identity proofs need (lengths, byte ranges, injectivity
  of the encoding).
\<close>

unbundle bit_operations_syntax

section \<open>SHA-256, as \<open>crypto/sha256\<close> computes it\<close>

type_synonym word32 = "32 word"

text \<open>The round constants are the fractional parts of the cube roots of the first 64 primes, in units of $2^{-32}$.\<close>

definition sha_round_constants :: "word32 list" where
  "sha_round_constants =
    [1116352408, 1899447441, 3049323471, 3921009573, 961987163, 1508970993, 2453635748, 2870763221,
     3624381080, 310598401, 607225278, 1426881987, 1925078388, 2162078206, 2614888103, 3248222580,
     3835390401, 4022224774, 264347078, 604807628, 770255983, 1249150122, 1555081692, 1996064986,
     2554220882, 2821834349, 2952996808, 3210313671, 3336571891, 3584528711, 113926993, 338241895,
     666307205, 773529912, 1294757372, 1396182291, 1695183700, 1986661051, 2177026350, 2456956037,
     2730485921, 2820302411, 3259730800, 3345764771, 3516065817, 3600352804, 4094571909, 275423344,
     430227734, 506948616, 659060556, 883997877, 958139571, 1322822218, 1537002063, 1747873779,
     1955562222, 2024104815, 2227730452, 2361852424, 2428436474, 2756734187, 3204031479, 3329325298]"

record sha_state =
  sa :: word32
  sb :: word32
  sc :: word32
  sd :: word32
  se :: word32
  sf :: word32
  sg :: word32
  sh :: word32

definition sha_init :: sha_state where
  "sha_init = \<lparr>sa = 0x6a09e667, sb = 0xbb67ae85, sc = 0x3c6ef372, sd = 0xa54ff53a,
     se = 0x510e527f, sf = 0x9b05688c, sg = 0x1f83d9ab, sh = 0x5be0cd19\<rparr>"

definition sha_round :: "word32 \<times> word32 \<Rightarrow> sha_state \<Rightarrow> sha_state" where
  "sha_round = (\<lambda>(k, w) s.
     let s1 = word_rotr 6 (se s) XOR word_rotr 11 (se s) XOR word_rotr 25 (se s);
         ch = (se s AND sf s) XOR (NOT (se s) AND sg s);
         t1 = sh s + s1 + ch + k + w;
         s0 = word_rotr 2 (sa s) XOR word_rotr 13 (sa s) XOR word_rotr 22 (sa s);
         maj = (sa s AND sb s) XOR (sa s AND sc s) XOR (sb s AND sc s)
     in \<lparr>sa = t1 + s0 + maj, sb = sa s, sc = sb s, sd = sc s, se = sd s + t1, sf = se s, sg = sf s, sh = sg s\<rparr>)"

definition sha_word :: "nat list \<Rightarrow> word32" where
  "sha_word bytes = foldl (\<lambda>w b. push_bit 8 w OR word_of_nat b) 0 bytes"

fun sha_extend :: "nat \<Rightarrow> word32 list \<Rightarrow> word32 list" where
  "sha_extend 0 ws = ws"
| "sha_extend (Suc n) ws =
     (let t = length ws; w15 = ws ! (t - 15); w2 = ws ! (t - 2);
          g0 = word_rotr 7 w15 XOR word_rotr 18 w15 XOR drop_bit 3 w15;
          g1 = word_rotr 17 w2 XOR word_rotr 19 w2 XOR drop_bit 10 w2
      in sha_extend n (ws @ [g1 + ws ! (t - 7) + g0 + ws ! (t - 16)]))"

definition sha_schedule :: "nat list \<Rightarrow> word32 list" where
  "sha_schedule chunk = sha_extend 48 (map (\<lambda>i. sha_word (take 4 (drop (4 * i) chunk))) [0..<16])"

definition sha_compress :: "nat list \<Rightarrow> sha_state \<Rightarrow> sha_state" where
  "sha_compress chunk s =
     (let r = fold sha_round (zip sha_round_constants (sha_schedule chunk)) s
      in \<lparr>sa = sa s + sa r, sb = sb s + sb r, sc = sc s + sc r, sd = sd s + sd r,
          se = se s + se r, sf = sf s + sf r, sg = sg s + sg r, sh = sh s + sh r\<rparr>)"

text \<open>The message schedule input: a one bit, zeros and the bit length as a big-endian 64 bit number.\<close>

definition big_endian :: "nat \<Rightarrow> 'a::len word \<Rightarrow> nat list" where
  "big_endian width w = map (\<lambda>i. unat (take_bit 8 (drop_bit (8 * (width - 1 - i)) w))) [0..<width]"

definition sha_pad :: "nat list \<Rightarrow> nat list" where
  "sha_pad m = m @ [128] @ replicate ((119 - length m mod 64) mod 64) 0 @ big_endian 8 (word_of_nat (8 * length m) :: uint64)"

definition sha256 :: "nat list \<Rightarrow> nat list" where
  "sha256 m =
     (let padded = sha_pad m;
          s = fold (\<lambda>i. sha_compress (take 64 (drop (64 * i) padded))) [0..<length padded div 64] sha_init
      in concat (map (\<lambda>w. big_endian 4 w) [sa s, sb s, sc s, sd s, se s, sf s, sg s, sh s]))"

definition hex_digit :: "nat \<Rightarrow> char" where
  "hex_digit n = ''0123456789abcdef'' ! n"

definition hex_encode :: "nat list \<Rightarrow> string" where
  "hex_encode bytes = concat (map (\<lambda>b. [hex_digit (b div 16), hex_digit (b mod 16)]) bytes)"

lemma length_big_endian [simp]: "length (big_endian w n) = w"
  by (simp add: big_endian_def)

lemma length_sha256 [simp]: "length (sha256 m) = 32"
  by (simp add: sha256_def Let_def)

lemma unat_byte: "unat (take_bit 8 w) < 256"
  using take_bit_nat_less_exp [of 8 "unat w"] by (simp add: unsigned_take_bit_eq)

lemma big_endian_bytes: "b \<in> set (big_endian w x) \<Longrightarrow> b < 256"
  by (auto simp: big_endian_def unat_byte)

lemma sha256_bytes: "b \<in> set (sha256 m) \<Longrightarrow> b < 256"
  by (auto simp: sha256_def Let_def dest: big_endian_bytes)

lemma length_hex_encode [simp]: "length (hex_encode bs) = 2 * length bs"
  by (induction bs) (simp_all add: hex_encode_def)

lemma hex_digit_inject: "a < 16 \<Longrightarrow> b < 16 \<Longrightarrow> hex_digit a = hex_digit b \<longleftrightarrow> a = b"
  unfolding hex_digit_def
  by (rule nth_eq_iff_index_eq) simp_all

lemma hex_encode_inject:
  assumes "\<forall>b \<in> set x. b < 256" "\<forall>b \<in> set y. b < 256" "hex_encode x = hex_encode y"
  shows "x = y"
  using assms
proof (induction x arbitrary: y)
  case Nil
  then show ?case by (cases y) (auto simp: hex_encode_def)
next
  case (Cons b x)
  then obtain c z where y: "y = c # z" by (cases y) (auto simp: hex_encode_def)
  have "hex_digit (b div 16) = hex_digit (c div 16)" "hex_digit (b mod 16) = hex_digit (c mod 16)"
      "hex_encode x = hex_encode z"
    using Cons.prems(3) by (simp_all add: y hex_encode_def)
  moreover have "b div 16 < 16" "c div 16 < 16" using Cons.prems by (auto simp: y)
  ultimately have "b div 16 = c div 16" "b mod 16 = c mod 16" "x = z"
    using Cons by (auto simp: hex_digit_inject y)
  then show ?case by (metis div_mult_mod_eq y)
qed

text \<open>\<open>hex.DecodeString\<close>: both cases of a digit are read, an odd length or another character is an error.\<close>

definition hex_value :: "char \<Rightarrow> nat option" where
  "hex_value c =
     (let n = (of_char c :: nat)
      in if 48 \<le> n \<and> n \<le> 57 then Some (n - 48)
         else if 97 \<le> n \<and> n \<le> 102 then Some (n - 87)
         else if 65 \<le> n \<and> n \<le> 70 then Some (n - 55)
         else None)"

fun hex_decode :: "string \<Rightarrow> nat list option" where
  "hex_decode [] = Some []"
| "hex_decode [_] = None"
| "hex_decode (a # b # cs) =
     (case (hex_value a, hex_value b, hex_decode cs) of
        (Some x, Some y, Some bytes) \<Rightarrow> Some ((16 * x + y) # bytes)
      | _ \<Rightarrow> None)"

lemma hex_value_digit: "n < 16 \<Longrightarrow> hex_value (hex_digit n) = Some n"
proof -
  assume "n < 16"
  moreover have "list_all (\<lambda>n. hex_value (hex_digit n) = Some n) [0..<16]" by code_simp
  ultimately show ?thesis by (simp add: list_all_iff)
qed

lemma hex_decode_encode: "\<forall>b \<in> set bs. b < 256 \<Longrightarrow> hex_decode (hex_encode bs) = Some bs"
proof (induction bs)
  case Nil
  then show ?case by (simp add: hex_encode_def)
next
  case (Cons b bs)
  have "hex_encode (b # bs) = hex_digit (b div 16) # hex_digit (b mod 16) # hex_encode bs"
    by (simp add: hex_encode_def)
  then show ?case using Cons by (simp add: hex_value_digit less_mult_imp_div_less)
qed

lemma hex_encode_lower:
  assumes "\<forall>b \<in> set bs. b < 256" "c \<in> set (hex_encode bs)"
  shows "c \<in> set ''0123456789abcdef''"
proof -
  obtain b where b: "b < 256" "c = hex_digit (b div 16) \<or> c = hex_digit (b mod 16)"
    using assms by (auto simp: hex_encode_def)
  have "b div 16 < 16" "b mod 16 < 16" using b(1) by (simp_all add: less_mult_imp_div_less)
  then obtain n where n: "n < 16" "c = hex_digit n" using b(2) by blast
  show ?thesis unfolding n(2) hex_digit_def using n(1) by (intro nth_mem) simp
qed

end
