(* ===== verification/Worker_Lifecycle.thy ===== *)
theory Worker_Lifecycle
  imports Go_Crypto
begin

text \<open>
  Job identities (\<open>src/internal/domain/job.go\<close>) and the state machine of a disposable worker
  (\<open>src/internal/lifecycle/lifecycle.go\<close>). Histories are sequences of accepted events; the invariant
  is proved by rule induction over them, and a rank bounds their length.
\<close>

section \<open>Job identities (\<open>src/internal/domain/job.go\<close>)\<close>

type_synonym JobKey = string

record WebhookJobIdentity =
  RepositoryID :: int
  WorkflowJobID :: int
  RunAttempt :: int

record ScaleSetJobIdentity =
  ScaleSetID :: int
  JobID :: string

datatype identity_error =
    RepositoryIDNotPositive | WorkflowJobIDNotPositive | RunAttemptNotPositive
  | ScaleSetIDNotPositive | JobIDEmpty

definition webhook_Validate :: "WebhookJobIdentity \<Rightarrow> identity_error option" where
  "webhook_Validate i = checks [
     (RepositoryID i \<le> 0, RepositoryIDNotPositive),
     (WorkflowJobID i \<le> 0, WorkflowJobIDNotPositive),
     (RunAttempt i \<le> 0, RunAttemptNotPositive)]"

definition keyFromCanonical :: "string \<Rightarrow> JobKey" where
  "keyFromCanonical canonical = ''ghjob:v1:'' @ hex_encode (sha256 (map of_char canonical))"

definition webhook_canonical :: "WebhookJobIdentity \<Rightarrow> string" where
  "webhook_canonical i = ''github-webhook-job:v1:'' @ format_int (RepositoryID i) @ '':''
     @ format_int (WorkflowJobID i) @ '':'' @ format_int (RunAttempt i)"

definition webhook_Key :: "WebhookJobIdentity \<Rightarrow> identity_error + JobKey" where
  "webhook_Key i = (case webhook_Validate i of Some e \<Rightarrow> Inl e | None \<Rightarrow> Inr (keyFromCanonical (webhook_canonical i)))"

definition scaleset_Validate :: "ScaleSetJobIdentity \<Rightarrow> identity_error option" where
  "scaleset_Validate i = checks [(ScaleSetID i \<le> 0, ScaleSetIDNotPositive), (JobID i = [], JobIDEmpty)]"

definition scaleset_canonical :: "ScaleSetJobIdentity \<Rightarrow> string" where
  "scaleset_canonical i = ''github-scale-set-job:v2:'' @ format_int (ScaleSetID i) @ '':'' @ JobID i"

definition scaleset_Key :: "ScaleSetJobIdentity \<Rightarrow> identity_error + JobKey" where
  "scaleset_Key i = (case scaleset_Validate i of Some e \<Rightarrow> Inl e | None \<Rightarrow> Inr (keyFromCanonical (scaleset_canonical i)))"

abbreviation key_IsZero :: "JobKey \<Rightarrow> bool" where "key_IsZero k \<equiv> k = []"

section \<open>The worker state machine (\<open>src/internal/lifecycle/lifecycle.go\<close>)\<close>

datatype State =
    StateProvisioning | StateAvailableWarm | StateAdmitted | StateRegistering | StateOnline | StateAssigned
  | StateRunning | StateCollecting | StateDestroying | StateDestroyed | StateQuarantined
  | StateOther string

datatype Event =
    EventWarmReady | EventAdmit | EventBeginRegistration | EventRunnerOnline | EventAssigned | EventJobStarted
  | EventJobSucceeded | EventJobFailed | EventJobCancelled | EventProvisionFailed | EventRegistrationFailed
  | EventAssignmentTimedOut | EventDrain | EventDiagnosticsCollected | EventDiagnosticsFailed | EventDestroyed
  | EventDestroyFailed | EventRetryDestroy | EventOther string

datatype Outcome =
    OutcomeNone | OutcomeSucceeded | OutcomeFailed | OutcomeCancelled | OutcomeInfrastructureFailure

record Worker =
  ID :: string
  ImageDigest :: string
  wState :: State
  wJobKey :: JobKey
  HasRun :: bool
  wOutcome :: Outcome

datatype worker_error =
    WorkerIDRequired | ImageDigestInvalid | EventNotValid Event State | AdmissionRequiresKey
  | AlreadyBoundOrExecuted | EventJobMismatch Event | EventRequiresJob Event | EventCarriesKey Event
  | CannotReturnToWarmPool

definition transitions :: "((State \<times> Event) \<times> State) list" where
  "transitions = [
     ((StateProvisioning, EventWarmReady), StateAvailableWarm),
     ((StateProvisioning, EventProvisionFailed), StateDestroying),
     ((StateAvailableWarm, EventAdmit), StateAdmitted),
     ((StateAvailableWarm, EventDrain), StateDestroying),
     ((StateAdmitted, EventBeginRegistration), StateRegistering),
     ((StateAdmitted, EventJobCancelled), StateCollecting),
     ((StateRegistering, EventRunnerOnline), StateOnline),
     ((StateRegistering, EventRegistrationFailed), StateCollecting),
     ((StateRegistering, EventJobCancelled), StateCollecting),
     ((StateOnline, EventAssigned), StateAssigned),
     ((StateOnline, EventAssignmentTimedOut), StateCollecting),
     ((StateOnline, EventJobCancelled), StateCollecting),
     ((StateAssigned, EventJobStarted), StateRunning),
     ((StateAssigned, EventJobCancelled), StateCollecting),
     ((StateRunning, EventJobSucceeded), StateCollecting),
     ((StateRunning, EventJobFailed), StateCollecting),
     ((StateRunning, EventJobCancelled), StateCollecting),
     ((StateCollecting, EventDiagnosticsCollected), StateDestroying),
     ((StateCollecting, EventDiagnosticsFailed), StateDestroying),
     ((StateDestroying, EventDestroyed), StateDestroyed),
     ((StateDestroying, EventDestroyFailed), StateQuarantined),
     ((StateQuarantined, EventRetryDestroy), StateDestroying)]"

definition imageDigestPattern :: "string \<Rightarrow> bool" where
  "imageDigestPattern s \<longleftrightarrow> has_prefix s ''sha256:'' \<and> length s = 71
     \<and> list_all (\<lambda>c. c \<in> set ''0123456789abcdef'') (drop 7 s)"

definition NewWorker :: "string \<Rightarrow> string \<Rightarrow> worker_error + Worker" where
  "NewWorker wid digest =
     (if wid = [] then Inl WorkerIDRequired
      else if \<not> imageDigestPattern digest then Inl ImageDigestInvalid
      else Inr \<lparr>ID = wid, ImageDigest = digest, wState = StateProvisioning, wJobKey = [], HasRun = False,
                wOutcome = OutcomeNone\<rparr>)"

definition eventNeedsJob :: "Event \<Rightarrow> bool" where
  "eventNeedsJob e \<longleftrightarrow> e \<in> {EventAdmit, EventBeginRegistration, EventRunnerOnline, EventAssigned,
     EventJobStarted, EventJobSucceeded, EventJobFailed, EventJobCancelled, EventRegistrationFailed,
     EventAssignmentTimedOut}"

text \<open>The guard on the job key, with the key the worker continues under.\<close>

definition bind_key :: "Worker \<Rightarrow> Event \<Rightarrow> JobKey \<Rightarrow> worker_error + JobKey" where
  "bind_key w e key =
     (if e = EventAdmit
      then (if key_IsZero key then Inl AdmissionRequiresKey
            else if \<not> key_IsZero (wJobKey w) \<or> HasRun w then Inl AlreadyBoundOrExecuted
            else Inr key)
      else if \<not> key_IsZero (wJobKey w)
      then (if key_IsZero key \<or> wJobKey w \<noteq> key then Inl (EventJobMismatch e) else Inr (wJobKey w))
      else if eventNeedsJob e then Inl (EventRequiresJob e)
      else if \<not> key_IsZero key then Inl (EventCarriesKey e)
      else Inr (wJobKey w))"

definition apply_event :: "Event \<Rightarrow> Worker \<Rightarrow> Worker" where
  "apply_event e w =
     (case e of
        EventJobStarted \<Rightarrow> w\<lparr>HasRun := True\<rparr>
      | EventJobSucceeded \<Rightarrow> w\<lparr>wOutcome := OutcomeSucceeded\<rparr>
      | EventJobFailed \<Rightarrow> w\<lparr>wOutcome := OutcomeFailed\<rparr>
      | EventJobCancelled \<Rightarrow> w\<lparr>wOutcome := OutcomeCancelled\<rparr>
      | EventRegistrationFailed \<Rightarrow> w\<lparr>wOutcome := OutcomeInfrastructureFailure\<rparr>
      | EventAssignmentTimedOut \<Rightarrow> w\<lparr>wOutcome := OutcomeInfrastructureFailure\<rparr>
      | _ \<Rightarrow> w)"

definition worker_Transition :: "Worker \<Rightarrow> Event \<Rightarrow> JobKey \<Rightarrow> worker_error + Worker" where
  "worker_Transition w e key =
     (case map_of transitions (wState w, e) of
        None \<Rightarrow> Inl (EventNotValid e (wState w))
      | Some next_state \<Rightarrow>
        (case bind_key w e key of
           Inl err \<Rightarrow> Inl err
         | Inr bound \<Rightarrow>
           (let w' = apply_event e (w\<lparr>wJobKey := bound, wState := next_state\<rparr>)
            in if wState w' = StateAvailableWarm \<and> (HasRun w' \<or> \<not> key_IsZero (wJobKey w'))
               then Inl CannotReturnToWarmPool else Inr w')))"

lemma transitions_iff: "map_of transitions (s, e) = Some s' \<longleftrightarrow> ((s, e), s') \<in> set transitions"
  by (rule map_of_eq_Some_iff) (simp add: transitions_def)

text \<open>The workers that exist: created by \<open>NewWorker\<close> and moved by \<open>Transition\<close> only.\<close>

inductive worker_run :: "Worker \<Rightarrow> (Event \<times> JobKey) list \<Rightarrow> Worker \<Rightarrow> bool" where
  stay: "worker_run w [] w"
| move: "worker_run w es w' \<Longrightarrow> worker_Transition w' e key = Inr w'' \<Longrightarrow> worker_run w (es @ [(e, key)]) w''"

inductive_cases worker_run_snocE: "worker_run w (es @ [x]) w''"
inductive_cases worker_run_NilE: "worker_run w [] w''"

lemma worker_run_append:
  "worker_run w2 fs w3 \<Longrightarrow> worker_run w1 es w2 \<Longrightarrow> worker_run w1 (es @ fs) w3"
proof (induction rule: worker_run.induct)
  case (stay w)
  then show ?case by simp
next
  case (move w fs w' e key w'')
  then show ?case using worker_run.move [of w1 "es @ fs" w' e key w''] by simp
qed

text \<open>What a single transition does.\<close>

lemma worker_Transition_cases:
  assumes "worker_Transition w e key = Inr w'"
  shows "((wState w, e), wState w') \<in> set transitions" and "ID w' = ID w" "ImageDigest w' = ImageDigest w"
    and "e = EventAdmit \<Longrightarrow> key \<noteq> [] \<and> wJobKey w = [] \<and> \<not> HasRun w \<and> wJobKey w' = key"
    and "e \<noteq> EventAdmit \<Longrightarrow> wJobKey w' = wJobKey w \<and> key = wJobKey w"
    and "eventNeedsJob e \<Longrightarrow> wJobKey w' \<noteq> []"
    and "HasRun w' = (HasRun w \<or> e = EventJobStarted)"
    and "wOutcome w' = wOutcome (apply_event e w)"
proof -
  obtain s bound where s: "map_of transitions (wState w, e) = Some s" and b: "bind_key w e key = Inr bound"
      and w': "w' = apply_event e (w\<lparr>wJobKey := bound, wState := s\<rparr>)"
    using assms by (auto simp: worker_Transition_def Let_def split: option.splits sum.splits if_splits)
  have f: "wState w' = s" "wJobKey w' = bound" "ID w' = ID w" "ImageDigest w' = ImageDigest w"
      "HasRun w' = (HasRun w \<or> e = EventJobStarted)" "wOutcome w' = wOutcome (apply_event e w)"
    unfolding w' by (simp_all add: apply_event_def split: Event.split)
  show "((wState w, e), wState w') \<in> set transitions" using s f transitions_iff by simp
  show "ID w' = ID w" "ImageDigest w' = ImageDigest w" "HasRun w' = (HasRun w \<or> e = EventJobStarted)"
      "wOutcome w' = wOutcome (apply_event e w)" using f by simp_all
  show "e = EventAdmit \<Longrightarrow> key \<noteq> [] \<and> wJobKey w = [] \<and> \<not> HasRun w \<and> wJobKey w' = key"
    using b f by (auto simp: bind_key_def split: if_splits)
  show "e \<noteq> EventAdmit \<Longrightarrow> wJobKey w' = wJobKey w \<and> key = wJobKey w"
    using b f by (auto simp: bind_key_def split: if_splits)
  show "eventNeedsJob e \<Longrightarrow> wJobKey w' \<noteq> []"
    using b f by (auto simp: bind_key_def split: if_splits)
qed

text \<open>The invariant: the states before admission are those without a job, a worker that has run is past
  assignment, and a worker that is being cleaned up after a job has an outcome.\<close>

definition unbound_states :: "State set" where
  "unbound_states = {StateProvisioning, StateAvailableWarm}"

definition bound_states :: "State set" where
  "bound_states = {StateAdmitted, StateRegistering, StateOnline, StateAssigned, StateRunning, StateCollecting}"

definition worker_inv :: "Worker \<Rightarrow> bool" where
  "worker_inv w \<longleftrightarrow>
     (wState w \<in> unbound_states \<longrightarrow> wJobKey w = [] \<and> wOutcome w = OutcomeNone)
     \<and> (wState w \<in> bound_states \<longrightarrow> wJobKey w \<noteq> [])
     \<and> (HasRun w \<longrightarrow> wJobKey w \<noteq> [] \<and> wState w \<in> {StateRunning, StateCollecting, StateDestroying, StateDestroyed, StateQuarantined})
     \<and> (wState w = StateRunning \<longrightarrow> HasRun w)
     \<and> (wState w \<in> {StateCollecting, StateDestroying, StateDestroyed, StateQuarantined} \<longrightarrow>
          (wJobKey w \<noteq> [] \<longleftrightarrow> wOutcome w \<noteq> OutcomeNone))
     \<and> (wState w \<in> bound_states - {StateCollecting} \<longrightarrow> wOutcome w = OutcomeNone)
     \<and> (wOutcome w \<in> {OutcomeSucceeded, OutcomeFailed} \<longrightarrow> HasRun w)
     \<and> (wOutcome w = OutcomeInfrastructureFailure \<longrightarrow> \<not> HasRun w)"

lemma NewWorker_inv: "NewWorker i d = Inr w \<Longrightarrow> worker_inv w"
  by (auto simp: NewWorker_def worker_inv_def bound_states_def split: if_splits)

lemma Transition_inv:
  assumes "worker_inv w" "worker_Transition w e key = Inr w'"
  shows "worker_inv w'"
proof -
  note t = worker_Transition_cases [OF assms(2)]
  show ?thesis
    using t(1) [unfolded transitions_def, simplified] assms(1) t(4-8)
    by (elim disjE; simp add: worker_inv_def bound_states_def unbound_states_def apply_event_def
      eventNeedsJob_def; blast?)
qed

lemma run_inv: "worker_run w es w' \<Longrightarrow> worker_inv w \<Longrightarrow> worker_inv w'"
  by (induction rule: worker_run.induct) (auto intro: Transition_inv)

section \<open>Counting events along a run\<close>

abbreviation occurrences :: "Event \<Rightarrow> (Event \<times> JobKey) list \<Rightarrow> nat" where
  "occurrences e es \<equiv> length (filter (\<lambda>x. fst x = e) es)"

lemma run_single_use:
  assumes "worker_run w0 es w" "worker_inv w0" "wJobKey w0 = []" "\<not> HasRun w0"
  shows "occurrences EventAdmit es = (if wJobKey w = [] then 0 else 1)
    \<and> occurrences EventJobStarted es = (if HasRun w then 1 else 0)
    \<and> (\<forall>x \<in> set es. snd x \<noteq> [] \<longrightarrow> snd x = wJobKey w) \<and> ID w = ID w0 \<and> ImageDigest w = ImageDigest w0"
  using assms
proof (induction rule: worker_run.induct)
  case (stay w)
  then show ?case by simp
next
  case (move w es w' e key w'')
  note t = worker_Transition_cases [OF move.hyps(2)]
  have inv: "worker_inv w'" using run_inv [OF move.hyps(1)] move.prems by blast
  have started: "\<not> HasRun w'" if "e = EventJobStarted"
    using t(1) inv that by (auto simp: transitions_def worker_inv_def)
  show ?case
    using move.IH [OF move.prems] t(2-7) started by (cases "e = EventAdmit"; cases "e = EventJobStarted") auto
qed

fun rank :: "State \<Rightarrow> nat" where
  "rank StateProvisioning = 9"
| "rank StateAvailableWarm = 8"
| "rank StateAdmitted = 7"
| "rank StateRegistering = 6"
| "rank StateOnline = 5"
| "rank StateAssigned = 4"
| "rank StateRunning = 3"
| "rank StateCollecting = 2"
| "rank StateDestroying = 1"
| "rank StateDestroyed = 0"
| "rank StateQuarantined = 2"
| "rank (StateOther s) = 0"

lemma transitions_rank:
  "((s, e), s') \<in> set transitions \<Longrightarrow> if e = EventDestroyFailed then rank s' = rank s + 1 else rank s' < rank s"
  by (auto simp: transitions_def)

lemma run_length:
  "worker_run w0 es w \<Longrightarrow> length es + rank (wState w) \<le> rank (wState w0) + 2 * occurrences EventDestroyFailed es"
proof (induction rule: worker_run.induct)
  case (stay w)
  then show ?case by simp
next
  case (move w es w' e key w'')
  show ?case
    using transitions_rank [OF worker_Transition_cases(1) [OF move.hyps(2)]] move.IH
    by (cases "e = EventDestroyFailed") auto
qed

text \<open>A worker that is not destroyed can always move: some event with its own job key is accepted.\<close>

definition known_states :: "State set" where
  "known_states = {StateProvisioning, StateDestroying, StateDestroyed, StateQuarantined, StateAvailableWarm} \<union> bound_states"

lemma worker_progress:
  assumes "worker_inv w" "wState w \<in> known_states" "wState w \<noteq> StateDestroyed"
  shows "\<exists>e w'. worker_Transition w e (wJobKey w) = Inr w'"
proof -
  define next_event where "next_event =
    (case wState w of StateProvisioning \<Rightarrow> EventProvisionFailed | StateAvailableWarm \<Rightarrow> EventDrain
     | StateCollecting \<Rightarrow> EventDiagnosticsCollected | StateDestroying \<Rightarrow> EventDestroyed
     | StateQuarantined \<Rightarrow> EventRetryDestroy | _ \<Rightarrow> EventJobCancelled)"
  have "\<exists>w'. worker_Transition w next_event (wJobKey w) = Inr w'"
    using assms
    by (cases "wState w"; cases "wJobKey w = []")
       (simp_all add: next_event_def worker_Transition_def transitions_def bind_key_def eventNeedsJob_def
        apply_event_def worker_inv_def bound_states_def unbound_states_def known_states_def)
  then show ?thesis by blast
qed

lemma run_known: "worker_run w0 es w \<Longrightarrow> wState w0 \<in> known_states \<Longrightarrow> wState w \<in> known_states"
proof (induction rule: worker_run.induct)
  case (move w es w' e key w'')
  then show ?case
    using worker_Transition_cases(1) [OF move.hyps(2)]
    by (auto simp: transitions_def known_states_def bound_states_def)
qed

section \<open>Canonical identities\<close>

lemma dec_nat_colon_split:
  "dec_nat m @ CHR '':'' # x = dec_nat n @ CHR '':'' # y \<Longrightarrow> m = n \<and> x = y"
proof -
  assume eq: "dec_nat m @ CHR '':'' # x = dec_nat n @ CHR '':'' # y"
  have "takeWhile (\<lambda>c. c \<noteq> CHR '':'') (dec_nat k @ CHR '':'' # z) = dec_nat k" for k z
    by (subst takeWhile_append2) (use dec_nat_no_colon [of k] in auto)
  with eq have "dec_nat m = dec_nat n" by metis
  with eq show ?thesis by simp
qed

lemma webhook_canonical_inject:
  assumes "webhook_Validate i = None" "webhook_Validate k = None" "webhook_canonical i = webhook_canonical k"
  shows "i = k"
proof -
  have pos: "0 < RepositoryID i" "0 < WorkflowJobID i" "0 < RunAttempt i"
      "0 < RepositoryID k" "0 < WorkflowJobID k" "0 < RunAttempt k"
    using assms(1,2) by (auto simp: webhook_Validate_def split: if_splits)
  have "nat (RepositoryID i) = nat (RepositoryID k)" "nat (WorkflowJobID i) = nat (WorkflowJobID k)"
      "nat (RunAttempt i) = nat (RunAttempt k)"
    using assms(3) pos by (auto simp: webhook_canonical_def format_int_pos dest!: dec_nat_colon_split)
  then show ?thesis using pos by simp
qed

lemma scaleset_canonical_inject:
  assumes "scaleset_Validate i = None" "scaleset_Validate k = None" "scaleset_canonical i = scaleset_canonical k"
  shows "i = k"
proof -
  have pos: "0 < ScaleSetID i" "0 < ScaleSetID k"
    using assms(1,2) by (auto simp: scaleset_Validate_def split: if_splits)
  have "nat (ScaleSetID i) = nat (ScaleSetID k)" "JobID i = JobID k"
    using assms(3) pos by (auto simp: scaleset_canonical_def format_int_pos dest!: dec_nat_colon_split)
  then show ?thesis using pos by simp
qed

lemma canonical_disjoint: "webhook_canonical i \<noteq> scaleset_canonical k"
  by (simp add: webhook_canonical_def scaleset_canonical_def)

lemma keyFromCanonical_inject:
  "keyFromCanonical x = keyFromCanonical y \<Longrightarrow> sha256 (map of_char x) = sha256 (map of_char y)"
  by (auto simp: keyFromCanonical_def intro!: hex_encode_inject dest: sha256_bytes)

section \<open>Properties\<close>

definition sample_worker :: Worker where
  "sample_worker = \<lparr>ID = ''w'', ImageDigest = ''sha256:'' @ replicate 64 CHR ''a'', wState = StateProvisioning,
     wJobKey = [], HasRun = False, wOutcome = OutcomeNone\<rparr>"

lemma sample_worker_new: "NewWorker ''w'' (''sha256:'' @ replicate 64 CHR ''a'') = Inr sample_worker"
  by code_simp

fun run_events :: "Worker \<Rightarrow> (Event \<times> JobKey) list \<Rightarrow> Worker option" where
  "run_events w [] = Some w"
| "run_events w ((e, key) # es) = (case worker_Transition w e key of Inl err \<Rightarrow> None | Inr w' \<Rightarrow> run_events w' es)"

lemma run_events_run: "run_events w es = Some w' \<Longrightarrow> worker_run w es w'"
proof (induction es arbitrary: w)
  case Nil
  then show ?case by (simp add: worker_run.stay)
next
  case (Cons x es)
  obtain e key where x: "x = (e, key)" by (cases x)
  obtain w1 where w1: "worker_Transition w e key = Inr w1" "run_events w1 es = Some w'"
    using Cons.prems by (auto simp: x split: sum.splits)
  have "worker_run w [(e, key)] w1" using worker_run.move [OF worker_run.stay w1(1)] by simp
  from worker_run_append [OF Cons.IH [OF w1(2)] this] show ?case by (simp add: x)
qed

definition sample_history :: "(Event \<times> JobKey) list" where
  "sample_history = [(EventWarmReady, []), (EventAdmit, ''j''), (EventBeginRegistration, ''j''), (EventRunnerOnline, ''j''),
     (EventAssigned, ''j''), (EventJobStarted, ''j''), (EventJobFailed, ''j''), (EventDiagnosticsFailed, ''j''),
     (EventDestroyFailed, ''j''), (EventRetryDestroy, ''j''), (EventDestroyed, ''j'')]"

lemma sample_history_run: "\<exists>w. worker_run sample_worker sample_history w \<and> HasRun w \<and> wState w = StateDestroyed"
proof -
  have "case run_events sample_worker sample_history of Some w \<Rightarrow> HasRun w \<and> wState w = StateDestroyed | None \<Rightarrow> False"
    by code_simp
  then show ?thesis using run_events_run by (auto split: option.splits)
qed

text \<open>C15: workers are single use. Over every history of a new worker it is admitted at most once and starts at
  most one job, every job key it ever carries is the same, its identity and image never change, and
  whenever it is in the warm pool it has no job and has not run.\<close>

theorem worker_single_use:
  assumes "NewWorker i d = Inr w0" "worker_run w0 es w"
  shows "occurrences EventAdmit es \<le> 1 \<and> occurrences EventJobStarted es \<le> occurrences EventAdmit es
    \<and> (\<forall>x \<in> set es. snd x \<noteq> [] \<longrightarrow> snd x = wJobKey w) \<and> ID w = i \<and> ImageDigest w = d
    \<and> (wState w = StateAvailableWarm \<longrightarrow> wJobKey w = [] \<and> \<not> HasRun w)"
proof -
  have w0: "worker_inv w0" "wJobKey w0 = []" "\<not> HasRun w0" "ID w0 = i" "ImageDigest w0 = d"
    using assms(1) NewWorker_inv by (auto simp: NewWorker_def split: if_splits)
  have "worker_inv w" using run_inv assms(2) w0 by blast
  then show ?thesis using run_single_use [OF assms(2) w0(1-3)] w0
    by (auto simp: worker_inv_def unbound_states_def)
qed

theorem worker_single_use_witness:
  "\<exists>w. worker_run sample_worker sample_history w \<and> HasRun w \<and> occurrences EventAdmit sample_history \<le> 1
     \<and> wJobKey w = ''j''"
proof -
  obtain w where w: "worker_run sample_worker sample_history w" "HasRun w" using sample_history_run by blast
  from worker_single_use [OF sample_worker_new w(1)] w show ?thesis
    by (auto simp: sample_history_def)
qed

text \<open>every worker is eventually destroyed. A history of a new worker has at most nine events plus two for
  every failed destruction, and a worker that is not destroyed always accepts some further event, so a
  history stops only in the destroyed state; a worker that ran a job and is being cleaned up has
  recorded how the job ended.\<close>

theorem worker_terminates:
  assumes "NewWorker i d = Inr w0" "worker_run w0 es w"
  shows "length es \<le> 9 + 2 * occurrences EventDestroyFailed es
    \<and> (wState w \<noteq> StateDestroyed \<longrightarrow> (\<exists>e w'. worker_Transition w e (wJobKey w) = Inr w'))
    \<and> (HasRun w \<longrightarrow> wState w \<noteq> StateRunning \<longrightarrow> wOutcome w \<in> {OutcomeSucceeded, OutcomeFailed, OutcomeCancelled})"
proof -
  have w0: "worker_inv w0" "wState w0 = StateProvisioning"
    using assms(1) NewWorker_inv by (auto simp: NewWorker_def split: if_splits)
  have inv: "worker_inv w" using run_inv assms(2) w0 by blast
  have k: "wState w \<in> known_states" using run_known [OF assms(2)] w0(2) by (simp add: known_states_def)
  have "length es \<le> 9 + 2 * occurrences EventDestroyFailed es" using run_length [OF assms(2)] w0(2) by simp
  moreover have "wState w \<noteq> StateDestroyed \<longrightarrow> (\<exists>e w'. worker_Transition w e (wJobKey w) = Inr w')"
    using worker_progress [OF inv k] by blast
  moreover have "wOutcome w \<in> {OutcomeSucceeded, OutcomeFailed, OutcomeCancelled}"
    if "HasRun w" "wState w \<noteq> StateRunning"
  proof -
    have "wOutcome w \<noteq> OutcomeNone" "wOutcome w \<noteq> OutcomeInfrastructureFailure"
      using inv that unfolding worker_inv_def by blast+
    then show ?thesis by (cases "wOutcome w") auto
  qed
  ultimately show ?thesis by blast
qed

theorem worker_terminates_witness:
  "\<exists>w. worker_run sample_worker sample_history w \<and> length sample_history \<le> 9 + 2 * 1
     \<and> wOutcome w \<in> {OutcomeSucceeded, OutcomeFailed, OutcomeCancelled}"
proof -
  obtain w where w: "worker_run sample_worker sample_history w" "HasRun w" "wState w = StateDestroyed"
    using sample_history_run by blast
  from worker_terminates [OF sample_worker_new w(1)] w show ?thesis
    by (auto simp: sample_history_def)
qed

definition sha_collision :: "string \<Rightarrow> string \<Rightarrow> bool" where
  "sha_collision x y \<longleftrightarrow> x \<noteq> y \<and> sha256 (map of_char x) = sha256 (map of_char y)"

text \<open>Job keys identify jobs. Two valid identities, webhook or scale set, have the same key only if they are
  the same identity, or if SHA-256 maps their two different canonical strings to the same digest; a
  webhook key never equals a scale set key without such a collision. Every key is 73 characters long.\<close>

theorem job_keys_identify:
  assumes "webhook_Key i = Inr a" "webhook_Key i' = Inr a'" "scaleset_Key s = Inr b" "scaleset_Key s' = Inr b'"
  shows "(a = a' \<longleftrightarrow> i = i' \<or> sha_collision (webhook_canonical i) (webhook_canonical i'))
    \<and> (b = b' \<longleftrightarrow> s = s' \<or> sha_collision (scaleset_canonical s) (scaleset_canonical s'))
    \<and> (a = b \<longleftrightarrow> sha_collision (webhook_canonical i) (scaleset_canonical s))
    \<and> length a = 73 \<and> length b = 73"
proof -
  have v: "webhook_Validate i = None" "a = keyFromCanonical (webhook_canonical i)"
      "webhook_Validate i' = None" "a' = keyFromCanonical (webhook_canonical i')"
      "scaleset_Validate s = None" "b = keyFromCanonical (scaleset_canonical s)"
      "scaleset_Validate s' = None" "b' = keyFromCanonical (scaleset_canonical s')"
    using assms(1-4) by (auto simp: webhook_Key_def scaleset_Key_def split: option.splits)
  have key: "keyFromCanonical x = keyFromCanonical y \<longleftrightarrow> x = y \<or> sha_collision x y" for x y
    using keyFromCanonical_inject [of x y] by (auto simp: sha_collision_def keyFromCanonical_def)
  have "length a = 73" "length b = 73" by (simp_all add: v keyFromCanonical_def)
  then show ?thesis
    using webhook_canonical_inject [OF v(1,3)] scaleset_canonical_inject [OF v(5,7)] canonical_disjoint [of i s]
    unfolding v(2,4,6,8) key by (auto simp: sha_collision_def)
qed

theorem job_keys_identify_witness:
  "\<exists>a b. webhook_Key \<lparr>RepositoryID = 7, WorkflowJobID = 11, RunAttempt = 1\<rparr> = Inr a
     \<and> scaleset_Key \<lparr>ScaleSetID = 7, JobID = ''x''\<rparr> = Inr b \<and> length a = 73 \<and> length b = 73"
proof -
  obtain a b where ab: "webhook_Key \<lparr>RepositoryID = 7, WorkflowJobID = 11, RunAttempt = 1\<rparr> = Inr a"
      "scaleset_Key \<lparr>ScaleSetID = 7, JobID = ''x''\<rparr> = Inr b"
    by (simp add: webhook_Key_def webhook_Validate_def scaleset_Key_def scaleset_Validate_def)
  from job_keys_identify [OF ab(1) ab(1) ab(2) ab(2)] ab show ?thesis by blast
qed

end
