(* ===== verification/Pressure_Gate.thy ===== *)
theory Pressure_Gate
  imports Go_Prelude
begin

text \<open>
  The pressure gate of \<open>src/internal/pressuregate/pressure.go\<close>: a hysteretic signal, from Linux pressure
  samples and OOM counts, that closes and reopens a cluster member, and the drain marker beside it.
  The metadata of a gate and the publisher are in Pressure_Publish.
\<close>

section \<open>Data\<close>

datatype gate = StateOpen | StateClosed | GateOther string

record Policy =
  Required :: bool
  StaleAfterSeconds :: int
  HeartbeatSeconds :: int
  MinimumClosedSeconds :: int
  CPUSomeClose :: float64
  CPUSomeReopen :: float64
  MemoryFullClose :: float64
  MemoryFullReopen :: float64
  IOFullClose :: float64
  IOFullReopen :: float64
  MaximumRecentOOMKills :: uint64

record Sample =
  s_ObservedAt :: time
  s_CPUSomeAvg10 :: float64
  s_MemoryFullAvg10 :: float64
  s_IOFullAvg10 :: float64
  s_OOMKillsTotal :: uint64

record GateState =
  g_SchemaVersion :: int
  g_State :: gate
  g_Reason :: string
  g_StateSince :: time
  g_ObservedAt :: time
  g_OOMKillsTotal :: uint64

datatype pressure_error =
    DisabledCarriesThresholds | StaleAfterRange | HeartbeatRange | MinimumClosedRange | OOMRange
  | ThresholdsInvalid string | SampleTimestamp | SampleStale | SampleRange string
  | StateSchemaInvalid | StateTimestampsInvalid | ForcedReasonInvalid

abbreviation pressure_schema :: int where "pressure_schema \<equiv> 1"

definition zero_policy :: Policy where
  "zero_policy = \<lparr>Required = False, StaleAfterSeconds = 0, HeartbeatSeconds = 0, MinimumClosedSeconds = 0,
     CPUSomeClose = F_Fin 0, CPUSomeReopen = F_Fin 0, MemoryFullClose = F_Fin 0, MemoryFullReopen = F_Fin 0,
     IOFullClose = F_Fin 0, IOFullReopen = F_Fin 0, MaximumRecentOOMKills = 0\<rparr>"

section \<open>Operations\<close>

text \<open>The source ranges over a map of the three pairs; which of several violations it names depends on the
  iteration order, that it rejects does not.\<close>

definition threshold_bad :: "float64 \<Rightarrow> float64 \<Rightarrow> bool" where
  "threshold_bad reopen close \<longleftrightarrow> f_less reopen (F_Fin 0) \<or> f_le close reopen \<or> f_greater close (F_Fin 100)"

definition policy_Validate :: "Policy \<Rightarrow> pressure_error option" where
  "policy_Validate p =
     (if \<not> Required p
      then (if p \<noteq> zero_policy then Some DisabledCarriesThresholds else None)
      else checks [
        (StaleAfterSeconds p < 15 \<or> StaleAfterSeconds p > 300, StaleAfterRange),
        (HeartbeatSeconds p < 10 \<or> HeartbeatSeconds p \<ge> StaleAfterSeconds p, HeartbeatRange),
        (MinimumClosedSeconds p < 15 \<or> MinimumClosedSeconds p > 600, MinimumClosedRange),
        (MaximumRecentOOMKills p > 10, OOMRange),
        (threshold_bad (CPUSomeReopen p) (CPUSomeClose p), ThresholdsInvalid ''cpu_some''),
        (threshold_bad (MemoryFullReopen p) (MemoryFullClose p), ThresholdsInvalid ''memory_full''),
        (threshold_bad (IOFullReopen p) (IOFullClose p), ThresholdsInvalid ''io_full'')])"

definition percent_bad :: "float64 \<Rightarrow> bool" where
  "percent_bad x \<longleftrightarrow> f_less x (F_Fin 0) \<or> f_greater x (F_Fin 100)"

definition sample_Validate :: "Sample \<Rightarrow> time \<Rightarrow> duration \<Rightarrow> pressure_error option" where
  "sample_Validate s now staleAfter = checks [
     (is_zero (s_ObservedAt s) \<or> s_ObservedAt s > now + second, SampleTimestamp),
     (time_sub now (s_ObservedAt s) > staleAfter, SampleStale),
     (percent_bad (s_CPUSomeAvg10 s), SampleRange ''cpu_some_avg10''),
     (percent_bad (s_MemoryFullAvg10 s), SampleRange ''memory_full_avg10''),
     (percent_bad (s_IOFullAvg10 s), SampleRange ''io_full_avg10'')]"

definition state_Validate :: "GateState \<Rightarrow> pressure_error option" where
  "state_Validate s = checks [
     (g_SchemaVersion s \<noteq> pressure_schema \<or> g_State s \<noteq> StateOpen \<and> g_State s \<noteq> StateClosed, StateSchemaInvalid),
     (g_Reason s = [] \<or> is_zero (g_StateSince s) \<or> is_zero (g_ObservedAt s)
        \<or> g_StateSince s > g_ObservedAt s + second, StateTimestampsInvalid)]"

definition closeReason :: "Sample \<Rightarrow> uint64 \<Rightarrow> Policy \<Rightarrow> string" where
  "closeReason s recentOOMKills p =
     (case checks [
        (recentOOMKills > MaximumRecentOOMKills p, ''recent-oom''),
        (f_ge (s_MemoryFullAvg10 s) (MemoryFullClose p), ''memory-pressure''),
        (f_ge (s_CPUSomeAvg10 s) (CPUSomeClose p), ''cpu-pressure''),
        (f_ge (s_IOFullAvg10 s) (IOFullClose p), ''io-pressure'')]
      of Some why \<Rightarrow> why | None \<Rightarrow> [])"

definition belowReopen :: "Sample \<Rightarrow> Policy \<Rightarrow> bool" where
  "belowReopen s p \<longleftrightarrow>
     f_le (s_CPUSomeAvg10 s) (CPUSomeReopen p) \<and> f_le (s_MemoryFullAvg10 s) (MemoryFullReopen p)
     \<and> f_le (s_IOFullAvg10 s) (IOFullReopen p)"

definition gate_known :: "GateState \<Rightarrow> bool" where
  "gate_known s \<longleftrightarrow> g_State s = StateOpen \<or> g_State s = StateClosed"

definition recent_oom :: "GateState \<Rightarrow> Sample \<Rightarrow> uint64" where
  "recent_oom previous s =
     (if gate_known previous \<and> s_OOMKillsTotal s \<ge> g_OOMKillsTotal previous
      then s_OOMKillsTotal s - g_OOMKillsTotal previous else 0)"

definition initial_gate :: "Sample \<Rightarrow> time \<Rightarrow> GateState" where
  "initial_gate s now = \<lparr>g_SchemaVersion = pressure_schema, g_State = StateClosed, g_Reason = ''initializing'',
     g_StateSince = now, g_ObservedAt = 0, g_OOMKillsTotal = s_OOMKillsTotal s\<rparr>"

definition observed :: "GateState \<Rightarrow> Sample \<Rightarrow> string \<Rightarrow> GateState" where
  "observed g s why = g\<lparr>g_Reason := why, g_ObservedAt := s_ObservedAt s, g_OOMKillsTotal := s_OOMKillsTotal s\<rparr>"

definition close_gate :: "GateState \<Rightarrow> Sample \<Rightarrow> time \<Rightarrow> string \<Rightarrow> GateState" where
  "close_gate g s now why =
     observed (g\<lparr>g_StateSince := (if g_State g \<noteq> StateClosed then now else g_StateSince g),
                 g_SchemaVersion := pressure_schema, g_State := StateClosed\<rparr>) s why"

definition pressure_Evaluate :: "GateState \<Rightarrow> Sample \<Rightarrow> Policy \<Rightarrow> time \<Rightarrow> pressure_error + GateState" where
  "pressure_Evaluate previous s p now =
     (case then_check (policy_Validate p) (sample_Validate s now (StaleAfterSeconds p * second)) of
        Some e \<Rightarrow> Inl e
      | None \<Rightarrow>
        (let recentOOMKills = recent_oom previous s;
             g = (if gate_known previous then previous else initial_gate s now);
             why = closeReason s recentOOMKills p
         in if why \<noteq> [] then Inr (close_gate g s now why)
            else if g_State g = StateClosed \<and> \<not> belowReopen s p then Inr (observed g s ''reopen-hysteresis'')
            else if g_State g = StateClosed \<and> time_sub now (g_StateSince g) < MinimumClosedSeconds p * second
            then Inr (observed g s ''minimum-closed-period'')
            else (let g = (if g_State g = StateClosed then g\<lparr>g_State := StateOpen, g_StateSince := now\<rparr> else g)
                  in Inr (observed (g\<lparr>g_SchemaVersion := pressure_schema\<rparr>) s ''healthy''))))"

definition ForceClosed :: "GateState \<Rightarrow> Sample \<Rightarrow> Policy \<Rightarrow> time \<Rightarrow> string \<Rightarrow> pressure_error + GateState" where
  "ForceClosed previous s p now why =
     (case then_check (policy_Validate p)
             (then_check (sample_Validate s now (StaleAfterSeconds p * second))
                (checks [(why = [] \<or> length why > 64, ForcedReasonInvalid)])) of
        Some e \<Rightarrow> Inl e
      | None \<Rightarrow> Inr (close_gate previous s now why))"

section \<open>The drain marker\<close>

text \<open>The file beside the gate state: absent, unreadable or not decodable, or a marker.\<close>

datatype drain_file = NoMarker | BadMarker | Marker string time

datatype marker_error = MarkerUnreadable | MarkerWithoutReason | MarkerNeedsReason | MarkerWriteFailed | MarkerRemoveFailed

definition ReadDrainMarker :: "drain_file \<Rightarrow> marker_error + (string \<times> time) option" where
  "ReadDrainMarker f =
     (case f of
        NoMarker \<Rightarrow> Inr None
      | BadMarker \<Rightarrow> Inl MarkerUnreadable
      | Marker why since \<Rightarrow> if why = [] then Inl MarkerWithoutReason else Inr (Some (why, since)))"

definition WriteDrainMarker :: "bool \<Rightarrow> string \<Rightarrow> time \<Rightarrow> drain_file \<Rightarrow> (marker_error + unit) \<times> drain_file" where
  "WriteDrainMarker writable why now f =
     (if why = [] then (Inl MarkerNeedsReason, f)
      else if \<not> writable then (Inl MarkerWriteFailed, f)
      else (Inr (), Marker why now))"

definition ClearDrainMarker :: "bool \<Rightarrow> drain_file \<Rightarrow> (marker_error + unit) \<times> drain_file" where
  "ClearDrainMarker removable f =
     (if f = NoMarker then (Inr (), f)
      else if \<not> removable then (Inl MarkerRemoveFailed, f)
      else (Inr (), NoMarker))"

section \<open>Laws of one evaluation\<close>

lemma observed_simps [simp]:
  "g_State (observed g s why) = g_State g" "g_StateSince (observed g s why) = g_StateSince g"
  "g_SchemaVersion (observed g s why) = g_SchemaVersion g" "g_Reason (observed g s why) = why"
  "g_ObservedAt (observed g s why) = s_ObservedAt s" "g_OOMKillsTotal (observed g s why) = s_OOMKillsTotal s"
  by (simp_all add: observed_def)

lemma close_gate_simps [simp]:
  "g_State (close_gate g s now why) = StateClosed"
  "g_StateSince (close_gate g s now why) = (if g_State g \<noteq> StateClosed then now else g_StateSince g)"
  "g_Reason (close_gate g s now why) = why" "g_ObservedAt (close_gate g s now why) = s_ObservedAt s"
  "g_SchemaVersion (close_gate g s now why) = pressure_schema"
  "g_OOMKillsTotal (close_gate g s now why) = s_OOMKillsTotal s"
  by (simp_all add: close_gate_def)

lemma pressure_Evaluate_accepts:
  "pressure_Evaluate previous s p now = Inr g \<Longrightarrow>
     policy_Validate p = None \<and> sample_Validate s now (StaleAfterSeconds p * second) = None
     \<and> g_OOMKillsTotal g = s_OOMKillsTotal s \<and> g_ObservedAt g = s_ObservedAt s \<and> gate_known g \<and> g_Reason g \<noteq> []"
  by (auto simp: pressure_Evaluate_def Let_def gate_known_def initial_gate_def split: option.splits if_splits)

lemma time_sub_self: "time_sub now now = 0"
  by (simp add: time_sub_def min_duration_def max_duration_def)

text \<open>When the gate comes out open, it was open with no reason to close, or it was closed, is below every
  reopening threshold and has been closed for the minimum period.\<close>

lemma evaluate_open:
  assumes "pressure_Evaluate previous s p now = Inr g" "g_State g = StateOpen" "0 < MinimumClosedSeconds p"
  shows "closeReason s (recent_oom previous s) p = []"
    and "g_State previous = StateOpen \<and> g_StateSince g = g_StateSince previous
      \<or> g_State previous = StateClosed \<and> g_StateSince g = now \<and> belowReopen s p
        \<and> MinimumClosedSeconds p * second \<le> time_sub now (g_StateSince previous)"
  using assms
  by (auto simp: pressure_Evaluate_def Let_def gate_known_def initial_gate_def time_sub_self second_def
      split: option.splits if_splits)

lemma evaluate_closed:
  assumes "pressure_Evaluate previous s p now = Inr g" "g_State g = StateClosed"
  shows "g_StateSince g = (if g_State previous = StateClosed then g_StateSince previous else now)"
  using assms
  by (auto simp: pressure_Evaluate_def Let_def gate_known_def initial_gate_def split: option.splits if_splits)

lemma evaluate_closes:
  assumes "pressure_Evaluate previous s p now = Inr g" "closeReason s (recent_oom previous s) p \<noteq> []"
  shows "g_State g = StateClosed"
  using assms by (auto simp: pressure_Evaluate_def Let_def split: option.splits if_splits)

lemma closeReason_iff:
  "closeReason s n p \<noteq> [] \<longleftrightarrow> n > MaximumRecentOOMKills p \<or> f_ge (s_MemoryFullAvg10 s) (MemoryFullClose p)
     \<or> f_ge (s_CPUSomeAvg10 s) (CPUSomeClose p) \<or> f_ge (s_IOFullAvg10 s) (IOFullClose p)"
  by (auto simp: closeReason_def)

section \<open>Runs of the gate\<close>

text \<open>One publisher cycle: an evaluation, or a forced close with its reason.\<close>

datatype gate_cycle = Evaluated Sample time | Forced Sample time string

definition cycle_time :: "gate_cycle \<Rightarrow> time" where
  "cycle_time c = (case c of Evaluated s now \<Rightarrow> now | Forced s now why \<Rightarrow> now)"

definition gate_step :: "Policy \<Rightarrow> gate_cycle \<Rightarrow> GateState \<Rightarrow> pressure_error + GateState" where
  "gate_step p c g = (case c of Evaluated s now \<Rightarrow> pressure_Evaluate g s p now | Forced s now why \<Rightarrow> ForceClosed g s p now why)"

lemma gate_step_closed:
  assumes "gate_step p c g = Inr g'" "g_State g' = StateClosed"
  shows "g_StateSince g' = (if g_State g = StateClosed then g_StateSince g else cycle_time c)"
  using assms evaluate_closed
  by (auto simp: gate_step_def cycle_time_def ForceClosed_def split: gate_cycle.splits option.splits)

lemma gate_step_open:
  assumes "gate_step p c g = Inr g'" "g_State g' = StateOpen" "0 < MinimumClosedSeconds p" "g_State g \<noteq> StateOpen"
  shows "MinimumClosedSeconds p * second \<le> time_sub (cycle_time c) (g_StateSince g)"
  using assms
  by (auto simp: gate_step_def cycle_time_def ForceClosed_def dest!: evaluate_open(2) split: gate_cycle.splits option.splits)

text \<open>A run all of whose states are closed.\<close>

fun closed_run :: "Policy \<Rightarrow> GateState \<Rightarrow> gate_cycle list \<Rightarrow> GateState option" where
  "closed_run p g [] = Some g"
| "closed_run p g (c # cs) =
     (case gate_step p c g of
        Inr g' \<Rightarrow> if g_State g' = StateClosed then closed_run p g' cs else None
      | Inl e \<Rightarrow> None)"

lemma closed_run_since:
  "closed_run p g cs = Some g' \<Longrightarrow> g_State g = StateClosed \<Longrightarrow> g_State g' = StateClosed \<and> g_StateSince g' = g_StateSince g"
proof (induction cs arbitrary: g)
  case (Cons c cs)
  then show ?case using gate_step_closed by (auto split: sum.splits if_splits)
qed simp

section \<open>Properties\<close>

definition sample_gate_policy :: Policy where
  "sample_gate_policy = \<lparr>Required = True, StaleAfterSeconds = 60, HeartbeatSeconds = 15, MinimumClosedSeconds = 30,
     CPUSomeClose = F_Fin 80, CPUSomeReopen = F_Fin 50, MemoryFullClose = F_Fin 10, MemoryFullReopen = F_Fin 2,
     IOFullClose = F_Fin 40, IOFullReopen = F_Fin 20, MaximumRecentOOMKills = 0\<rparr>"

definition calm :: "time \<Rightarrow> Sample" where
  "calm t = \<lparr>s_ObservedAt = t, s_CPUSomeAvg10 = F_Fin 10, s_MemoryFullAvg10 = F_Fin 0, s_IOFullAvg10 = F_Fin 0,
     s_OOMKillsTotal = 0\<rparr>"

definition open_gate :: GateState where
  "open_gate = \<lparr>g_SchemaVersion = 1, g_State = StateOpen, g_Reason = ''healthy'', g_StateSince = second,
     g_ObservedAt = second, g_OOMKillsTotal = 0\<rparr>"

definition busy :: "time \<Rightarrow> Sample" where "busy t = (calm t)\<lparr>s_CPUSomeAvg10 := F_Fin 95\<rparr>"

text \<open>hysteresis. An evaluation leaves the gate open only when no closing threshold is reached, and either
  it already was open (and then the time of its last change is kept), or it was properly closed, every
  pressure is at or below its reopening threshold and the minimum closed period is over; a gate with no
  valid previous state never comes out open.\<close>

theorem gate_opens_only_when_calm:
  assumes "pressure_Evaluate previous s p now = Inr g" "Required p" "g_State g = StateOpen"
  shows "\<not> f_ge (s_CPUSomeAvg10 s) (CPUSomeClose p) \<and> \<not> f_ge (s_MemoryFullAvg10 s) (MemoryFullClose p)
    \<and> \<not> f_ge (s_IOFullAvg10 s) (IOFullClose p) \<and> recent_oom previous s \<le> MaximumRecentOOMKills p
    \<and> (g_State previous = StateOpen \<and> g_StateSince g = g_StateSince previous
       \<or> g_State previous = StateClosed \<and> g_StateSince g = now \<and> f_le (s_CPUSomeAvg10 s) (CPUSomeReopen p)
         \<and> f_le (s_MemoryFullAvg10 s) (MemoryFullReopen p) \<and> f_le (s_IOFullAvg10 s) (IOFullReopen p)
         \<and> MinimumClosedSeconds p * second \<le> time_sub now (g_StateSince previous))"
proof -
  have "0 < MinimumClosedSeconds p"
    using pressure_Evaluate_accepts [OF assms(1)] assms(2) by (auto simp: policy_Validate_def split: if_splits)
  from evaluate_open [OF assms(1,3) this] closeReason_iff [of s "recent_oom previous s" p]
  show ?thesis by (auto simp: belowReopen_def)
qed

theorem gate_opens_only_when_calm_witness:
  "\<exists>g. pressure_Evaluate (open_gate\<lparr>g_State := StateClosed\<rparr>) (calm (40 * second)) sample_gate_policy (40 * second) = Inr g
     \<and> g_State g = StateOpen \<and> MinimumClosedSeconds sample_gate_policy * second \<le> time_sub (40 * second) second"
proof -
  let ?e = "pressure_Evaluate (open_gate\<lparr>g_State := StateClosed\<rparr>) (calm (40 * second)) sample_gate_policy (40 * second)"
  have "case ?e of Inr g \<Rightarrow> g_State g = StateOpen | Inl e \<Rightarrow> False" by code_simp
  then obtain g where g: "?e = Inr g" "g_State g = StateOpen" by (auto split: sum.splits)
  from gate_opens_only_when_calm [OF g(1) _ g(2)] g show ?thesis
    by (auto simp: sample_gate_policy_def open_gate_def)
qed



text \<open>not-a-number slips through. The validation of a sample promises percentages in 0..100, but it rejects only
  values that compare below 0 or above 100, so a sample whose three pressures are all NaN is accepted,
  and an open gate stays open on it, reported healthy, whatever the thresholds are.\<close>

theorem nan_sample_keeps_gate_open:
  assumes "policy_Validate p = None" "g_State previous = StateOpen"
    and "s_ObservedAt s \<noteq> 0" "s_ObservedAt s \<le> now + second" "time_sub now (s_ObservedAt s) \<le> StaleAfterSeconds p * second"
    and "s_OOMKillsTotal s = g_OOMKillsTotal previous"
    and "s_CPUSomeAvg10 s = F_NaN" "s_MemoryFullAvg10 s = F_NaN" "s_IOFullAvg10 s = F_NaN"
  shows "\<exists>g. pressure_Evaluate previous s p now = Inr g \<and> g_State g = StateOpen \<and> g_Reason g = ''healthy''"
proof -
  have v: "sample_Validate s now (StaleAfterSeconds p * second) = None"
    using assms by (simp add: sample_Validate_def is_zero_def percent_bad_def)
  have "\<not> f_le x F_NaN" for x by (cases x) auto
  then have "closeReason s (recent_oom previous s) p = []"
    using assms by (simp add: closeReason_def recent_oom_def)
  moreover have "then_check (policy_Validate p) (sample_Validate s now (StaleAfterSeconds p * second)) = None"
    using v assms(1) by simp
  ultimately show ?thesis using assms(2) unfolding pressure_Evaluate_def by (simp add: Let_def gate_known_def then_check_def)
qed

theorem nan_sample_keeps_gate_open_witness:
  "\<exists>g. pressure_Evaluate open_gate ((calm (2 * second))\<lparr>s_CPUSomeAvg10 := F_NaN, s_MemoryFullAvg10 := F_NaN,
       s_IOFullAvg10 := F_NaN\<rparr>) sample_gate_policy (2 * second) = Inr g \<and> g_State g = StateOpen"
proof -
  have v: "policy_Validate sample_gate_policy = None" by code_simp
  let ?s = "(calm (2 * second))\<lparr>s_CPUSomeAvg10 := F_NaN, s_MemoryFullAvg10 := F_NaN, s_IOFullAvg10 := F_NaN\<rparr>"
  have "s_ObservedAt ?s \<noteq> 0" by code_simp
  moreover have "s_ObservedAt ?s \<le> 2 * second + second" by code_simp
  moreover have "time_sub (2 * second) (s_ObservedAt ?s) \<le> StaleAfterSeconds sample_gate_policy * second" by code_simp
  moreover have "g_State open_gate = StateOpen" "s_OOMKillsTotal ?s = g_OOMKillsTotal open_gate"
    by (simp_all add: open_gate_def calm_def)
  ultimately show ?thesis
    using nan_sample_keeps_gate_open [OF v, of open_gate ?s "2 * second"] by auto
qed

end
