(* ===== verification/Member_Drain.thy ===== *)
theory Member_Drain
  imports Go_Prelude
begin

text \<open>
  Draining and restoring a cluster member (\<open>src/internal/memberdrain/drain.go\<close>). The injected
  dependencies are the environment of the model; every effect is recorded in the order it is attempted,
  and the waiting loop is a partial function whose termination is proved from the clock.
\<close>

section \<open>Data\<close>

record incus_instance =
  i_Name :: string
  i_Location :: string
  i_Status :: string

record Occupant =
  o_Name :: string
  o_Status :: string

record Options =
  opt_MemberName :: string
  opt_Reason :: string
  opt_TimerUnit :: string
  opt_Timeout :: duration
  opt_Poll :: duration
  opt_Apply :: bool
  opt_FenceOnly :: bool

record Result =
  res_MemberName :: string
  res_Action :: string
  res_Reason :: string
  res_TimerUnit :: string
  res_TimerStopped :: bool
  res_TimerRunning :: bool
  res_GateClosed :: bool
  res_GateRepublished :: bool
  res_SchedulerInstance :: string
  res_Occupants :: "Occupant list"
  res_RecycledWarm :: "string list"
  res_WaitedSecs :: int
  res_Drained :: bool
  res_TimedOut :: bool
  res_Applied :: bool
  res_FenceOnly :: bool

definition zero_result :: Result where
  "zero_result = \<lparr>res_MemberName = [], res_Action = [], res_Reason = [], res_TimerUnit = [], res_TimerStopped = False,
     res_TimerRunning = False, res_GateClosed = False, res_GateRepublished = False, res_SchedulerInstance = [],
     res_Occupants = [], res_RecycledWarm = [], res_WaitedSecs = 0, res_Drained = False, res_TimedOut = False,
     res_Applied = False, res_FenceOnly = False\<rparr>"

datatype drain_error =
    ContextDone | DepsMissing | MemberNameRequired | PollExceedsTimeout | ReasonRequired | ListFailed
  | UnitsFailed | MarkerSetFailed | MarkerClearFailed | ForceCloseFailed | ReopenFailed | StartFailed | SleepInterrupted

text \<open>The injected dependencies: what the k-th listing, the k-th reading of the clock and the k-th sleep give,
  and how every other effect goes (\<open>None\<close> is an error).\<close>

record Deps =
  d_ctxDone :: bool
  d_complete :: bool
  d_list :: "nat \<Rightarrow> incus_instance list option"
  d_isActive :: "bool option"
  d_start :: bool
  d_forceClose :: "string option"
  d_reopen :: "string option"
  d_markerSet :: bool
  d_markerClear :: bool
  d_now :: "nat \<Rightarrow> time"
  d_sleep :: "nat \<Rightarrow> bool"

text \<open>The effects, in the order they are attempted.\<close>

datatype effect =
    MarkerSet string | MarkerClear | GateForceClose string | GateReopen | TimerStart string
  | ListInstances | TimerIsActive | SleepFor duration

section \<open>Operations\<close>

definition DefaultTimerUnit :: string where "DefaultTimerUnit = ''gha-pressure-gate.timer''"
definition DefaultTimeout :: duration where "DefaultTimeout = 45 * minute"
definition DefaultPoll :: duration where "DefaultPoll = 5 * second"

definition occupants_of :: "string \<Rightarrow> incus_instance list \<Rightarrow> Occupant list" where
  "occupants_of member insts = sort_slice (\<lambda>x y. o_Name x < o_Name y)
     (map (\<lambda>i. \<lparr>o_Name = i_Name i, o_Status = i_Status i\<rparr>)
        (filter (\<lambda>i. i_Location i = member \<and> i_Status i \<noteq> ''Stopped'') insts))"

definition Occupancy :: "incus_instance list option \<Rightarrow> string \<Rightarrow> drain_error + Occupant list" where
  "Occupancy listing member =
     (if member = [] then Inl MemberNameRequired
      else (case listing of None \<Rightarrow> Inl ListFailed | Some insts \<Rightarrow> Inr (occupants_of member insts)))"

definition normalised :: "Options \<Rightarrow> drain_error + Options" where
  "normalised opt =
     (if opt_MemberName opt = [] then Inl MemberNameRequired
      else (let opt = opt\<lparr>opt_TimerUnit := (if opt_TimerUnit opt = [] then DefaultTimerUnit else opt_TimerUnit opt),
                          opt_Timeout := (if opt_Timeout opt \<le> 0 then DefaultTimeout else opt_Timeout opt),
                          opt_Poll := (if opt_Poll opt \<le> 0 then DefaultPoll else opt_Poll opt)\<rparr>
            in if opt_Poll opt > opt_Timeout opt then Inl PollExceedsTimeout else Inr opt))"

text \<open>The waiting loop. Iteration k uses the k-th listing, the clock readings 2k+1 and 2k+2 (reading 0 is the
  start) and the k-th sleep.\<close>

partial_function (option) drain_loop ::
    "Deps \<Rightarrow> Options \<Rightarrow> time \<Rightarrow> Result \<Rightarrow> nat \<Rightarrow> effect list \<Rightarrow> ((drain_error + Result) \<times> effect list) option" where
  "drain_loop deps opt started result k effs =
     (case Occupancy (d_list deps k) (opt_MemberName opt) of
        Inl e \<Rightarrow> Some (Inl e, effs @ [ListInstances])
      | Inr occupants \<Rightarrow>
        (let effs = effs @ [ListInstances];
             result = result\<lparr>res_Occupants := occupants,
                             res_WaitedSecs := div64 (time_sub (d_now deps (2 * k + 1)) started) second\<rparr>
         in if occupants = [] then Some (Inr (result\<lparr>res_Drained := True\<rparr>), effs)
            else if opt_FenceOnly opt then Some (Inr result, effs)
            else if \<not> d_now deps (2 * k + 2) < started + opt_Timeout opt
            then Some (Inr (result\<lparr>res_TimedOut := True\<rparr>), effs)
            else if \<not> d_sleep deps k then Some (Inl SleepInterrupted, effs @ [SleepFor (opt_Poll opt)])
            else drain_loop deps opt started result (Suc k) (effs @ [SleepFor (opt_Poll opt)])))"

definition prepare :: "Deps \<Rightarrow> Options \<Rightarrow> drain_error + Options" where
  "prepare deps opt =
     (if d_ctxDone deps then Inl ContextDone else if \<not> d_complete deps then Inl DepsMissing else normalised opt)"

definition Drain :: "Deps \<Rightarrow> Options \<Rightarrow> ((drain_error + Result) \<times> effect list) option" where
  "Drain deps opt0 =
     (case prepare deps opt0 of
        Inl e \<Rightarrow> Some (Inl e, [])
      | Inr opt \<Rightarrow>
        if opt_Reason opt = [] then Some (Inl ReasonRequired, [])
        else (let result = zero_result\<lparr>res_MemberName := opt_MemberName opt,
                             res_Action := (if opt_FenceOnly opt then ''fence'' else ''drain''),
                             res_Reason := opt_Reason opt, res_TimerUnit := opt_TimerUnit opt,
                             res_Applied := opt_Apply opt, res_FenceOnly := opt_FenceOnly opt\<rparr>
              in if \<not> opt_Apply opt
                 then (case Occupancy (d_list deps 0) (opt_MemberName opt) of
                         Inl e \<Rightarrow> Some (Inl e, [ListInstances])
                       | Inr occupants \<Rightarrow>
                         (case d_isActive deps of
                            None \<Rightarrow> Some (Inl UnitsFailed, [ListInstances, TimerIsActive])
                          | Some running \<Rightarrow>
                              Some (Inr (result\<lparr>res_Occupants := occupants, res_Drained := (occupants = []),
                                                res_TimerRunning := running\<rparr>), [ListInstances, TimerIsActive])))
                 else if \<not> d_markerSet deps then Some (Inl MarkerSetFailed, [MarkerSet (opt_Reason opt)])
                 else (case d_forceClose deps of
                         None \<Rightarrow> Some (Inl ForceCloseFailed, [MarkerSet (opt_Reason opt), GateForceClose (opt_Reason opt)])
                       | Some scheduler \<Rightarrow>
                           drain_loop deps opt (d_now deps 0)
                             (result\<lparr>res_GateClosed := True, res_SchedulerInstance := scheduler\<rparr>) 0
                             [MarkerSet (opt_Reason opt), GateForceClose (opt_Reason opt)])))"

definition Restore :: "Deps \<Rightarrow> Options \<Rightarrow> (drain_error + Result) \<times> effect list" where
  "Restore deps opt0 =
     (case prepare deps opt0 of
        Inl e \<Rightarrow> (Inl e, [])
      | Inr opt \<Rightarrow>
        (let result = zero_result\<lparr>res_MemberName := opt_MemberName opt, res_Action := ''restore'',
                         res_TimerUnit := opt_TimerUnit opt, res_Applied := opt_Apply opt\<rparr>
         in case d_isActive deps of
              None \<Rightarrow> (Inl UnitsFailed, [TimerIsActive])
            | Some running \<Rightarrow>
              (let result = result\<lparr>res_TimerRunning := running\<rparr>
               in if \<not> opt_Apply opt then (Inr result, [TimerIsActive])
                  else if \<not> d_markerClear deps then (Inl MarkerClearFailed, [TimerIsActive, MarkerClear])
                  else (case d_reopen deps of
                          None \<Rightarrow> (Inl ReopenFailed, [TimerIsActive, MarkerClear, GateReopen])
                        | Some scheduler \<Rightarrow>
                          if \<not> d_start deps
                          then (Inl StartFailed, [TimerIsActive, MarkerClear, GateReopen, TimerStart (opt_TimerUnit opt)])
                          else (Inr (result\<lparr>res_GateRepublished := True, res_SchedulerInstance := scheduler,
                                           res_TimerRunning := True\<rparr>),
                                [TimerIsActive, MarkerClear, GateReopen, TimerStart (opt_TimerUnit opt)])))))"

section \<open>The waiting loop\<close>

declare drain_loop.simps [code]

lemma occupants_of_empty:
  "occupants_of member insts = [] \<longleftrightarrow> (\<forall>i \<in> set insts. i_Location i = member \<longrightarrow> i_Status i = ''Stopped'')"
proof -
  have "sort_slice lt xs = [] \<longleftrightarrow> xs = []" for lt and xs :: "Occupant list"
    by (metis length_0_conv length_sort_slice)
  then show ?thesis by (auto simp: occupants_of_def filter_empty_conv)
qed

text \<open>What a loop result means: the effects it adds are listings and sleeps, and a reported drain rests on a
  listing without occupants.\<close>

definition loop_post :: "Deps \<Rightarrow> Options \<Rightarrow> Result \<Rightarrow> effect list \<Rightarrow> (drain_error + Result) \<times> effect list \<Rightarrow> bool" where
  "loop_post deps opt result effs out \<longleftrightarrow>
     (\<exists>added. snd out = effs @ added \<and> set added \<subseteq> {ListInstances, SleepFor (opt_Poll opt)})
     \<and> (\<forall>r. fst out = Inr r \<longrightarrow> res_GateClosed r = res_GateClosed result
          \<and> (\<exists>k insts. d_list deps k = Some insts \<and> res_Occupants r = occupants_of (opt_MemberName opt) insts
               \<and> (res_Drained r \<longleftrightarrow> res_Occupants r = [])
               \<and> (res_TimedOut r \<longrightarrow> res_Occupants r \<noteq> [] \<and> d_now deps 0 + opt_Timeout opt \<le> d_now deps (2 * k + 2)))
          \<and> (opt_FenceOnly opt \<or> res_Drained r \<or> res_TimedOut r))"

lemma loop_post_step:
  assumes "loop_post deps opt result' (effs @ [ListInstances, SleepFor (opt_Poll opt)]) out"
    "res_GateClosed result' = res_GateClosed result"
  shows "loop_post deps opt result effs out"
proof -
  obtain added where "snd out = (effs @ [ListInstances, SleepFor (opt_Poll opt)]) @ added"
      "set added \<subseteq> {ListInstances, SleepFor (opt_Poll opt)}"
    using assms(1) unfolding loop_post_def by blast
  then have "\<exists>added. snd out = effs @ added \<and> set added \<subseteq> {ListInstances, SleepFor (opt_Poll opt)}"
    by (intro exI [of _ "[ListInstances, SleepFor (opt_Poll opt)] @ added"]) auto
  then show ?thesis using assms unfolding loop_post_def by auto
qed

lemma drain_loop_post:
  assumes "drain_loop deps opt started result k effs = Some out"
  shows "started = d_now deps 0 \<longrightarrow> \<not> res_Drained result \<longrightarrow> \<not> res_TimedOut result \<longrightarrow> opt_MemberName opt \<noteq> [] \<longrightarrow>
    loop_post deps opt result effs out"
  using assms
proof (rule drain_loop.raw_induct [rotated])
  fix rec deps opt started result k effs out
  assume IH: "\<And>deps opt started result k effs out. rec deps opt started result k effs = Some out \<Longrightarrow>
      started = d_now deps 0 \<longrightarrow> \<not> res_Drained result \<longrightarrow> \<not> res_TimedOut result \<longrightarrow> opt_MemberName opt \<noteq> [] \<longrightarrow>
      loop_post deps opt result effs out"
    and body: "(case Occupancy (d_list deps k) (opt_MemberName opt) of
        Inl e \<Rightarrow> Some (Inl e, effs @ [ListInstances])
      | Inr occupants \<Rightarrow>
        (let effs = effs @ [ListInstances];
             result = result\<lparr>res_Occupants := occupants,
                             res_WaitedSecs := div64 (time_sub (d_now deps (2 * k + 1)) started) second\<rparr>
         in if occupants = [] then Some (Inr (result\<lparr>res_Drained := True\<rparr>), effs)
            else if opt_FenceOnly opt then Some (Inr result, effs)
            else if \<not> d_now deps (2 * k + 2) < started + opt_Timeout opt
            then Some (Inr (result\<lparr>res_TimedOut := True\<rparr>), effs)
            else if \<not> d_sleep deps k then Some (Inl SleepInterrupted, effs @ [SleepFor (opt_Poll opt)])
            else rec deps opt started result (Suc k) (effs @ [SleepFor (opt_Poll opt)]))) = Some out"
  show "started = d_now deps 0 \<longrightarrow> \<not> res_Drained result \<longrightarrow> \<not> res_TimedOut result \<longrightarrow> opt_MemberName opt \<noteq> [] \<longrightarrow>
      loop_post deps opt result effs out"
  proof (intro impI)
    assume h: "started = d_now deps 0" "\<not> res_Drained result" "\<not> res_TimedOut result" "opt_MemberName opt \<noteq> []"
    show "loop_post deps opt result effs out"
    proof (cases "d_list deps k")
      case None
      then show ?thesis using body h by (auto simp: Occupancy_def loop_post_def)
    next
      case (Some insts)
      let ?occ = "occupants_of (opt_MemberName opt) insts"
      let ?r = "result\<lparr>res_Occupants := ?occ, res_WaitedSecs := div64 (time_sub (d_now deps (2 * k + 1)) started) second\<rparr>"
      show ?thesis
      proof (cases "?occ = [] \<or> opt_FenceOnly opt \<or> \<not> d_now deps (2 * k + 2) < started + opt_Timeout opt \<or> \<not> d_sleep deps k")
        case True
        then show ?thesis
          using body h Some by (fastforce simp: Occupancy_def Let_def loop_post_def split: if_splits)
      next
        case False
        then have "rec deps opt started ?r (Suc k) (effs @ [ListInstances, SleepFor (opt_Poll opt)]) = Some out"
          using body h Some by (simp add: Occupancy_def Let_def)
        from IH [OF this] h have "loop_post deps opt ?r (effs @ [ListInstances, SleepFor (opt_Poll opt)]) out" by simp
        then show ?thesis by (rule loop_post_step) simp
      qed
    qed
  qed
qed

text \<open>The loop ends: a listing fails, the member is empty, the sleep is interrupted, or the clock passes the
  deadline at the latest.\<close>

lemma drain_loop_ends:
  assumes "k \<le> n" "\<not> d_now deps (2 * n + 2) < started + opt_Timeout opt"
  shows "\<exists>out. drain_loop deps opt started result k effs = Some out
    \<and> length (filter (\<lambda>x. x = ListInstances) (snd out)) \<le> length (filter (\<lambda>x. x = ListInstances) effs) + (n - k + 1)"
  using assms
proof (induction "n - k" arbitrary: k result effs)
  case 0
  then have "k = n" by simp
  with 0 show ?case
    by (subst drain_loop.simps) (auto simp: Let_def split: sum.split)
next
  case (Suc d)
  then have k: "Suc k \<le> n" "d = n - Suc k" by auto
  note IH = Suc.hyps(1) [OF k(2) k(1) Suc.prems(2)]
  show ?case
  proof (cases "Occupancy (d_list deps k) (opt_MemberName opt)")
    case (Inl e)
    then show ?thesis by (subst drain_loop.simps) simp
  next
    case (Inr occ)
    let ?r = "result\<lparr>res_Occupants := occ, res_WaitedSecs := div64 (time_sub (d_now deps (2 * k + 1)) started) second\<rparr>"
    show ?thesis
    proof (cases "occ = [] \<or> opt_FenceOnly opt \<or> \<not> d_now deps (2 * k + 2) < started + opt_Timeout opt \<or> \<not> d_sleep deps k")
      case True
      then show ?thesis using Inr by (subst drain_loop.simps) (auto simp: Let_def)
    next
      case False
      then have "drain_loop deps opt started result k effs =
          drain_loop deps opt started ?r (Suc k) (effs @ [ListInstances, SleepFor (opt_Poll opt)])"
        using Inr by (subst drain_loop.simps) (simp add: Let_def)
      moreover obtain out where "drain_loop deps opt started ?r (Suc k) (effs @ [ListInstances, SleepFor (opt_Poll opt)]) = Some out"
          "length (filter (\<lambda>x. x = ListInstances) (snd out)) \<le> Suc (length (filter (\<lambda>x. x = ListInstances) effs)) + (n - Suc k + 1)"
        using IH [of ?r "effs @ [ListInstances, SleepFor (opt_Poll opt)]"] by auto
      ultimately show ?thesis using k by auto
    qed
  qed
qed

lemma normalised_positive:
  "normalised opt = Inr opt' \<Longrightarrow> opt_MemberName opt' \<noteq> [] \<and> 0 < opt_Poll opt' \<and> opt_Poll opt' \<le> opt_Timeout opt'
     \<and> opt_MemberName opt' = opt_MemberName opt \<and> opt_Reason opt' = opt_Reason opt \<and> opt_Apply opt' = opt_Apply opt
     \<and> opt_FenceOnly opt' = opt_FenceOnly opt"
  by (auto simp: normalised_def Let_def DefaultTimeout_def DefaultPoll_def duration_defs split: if_splits)

lemma prepare_Inr: "prepare deps opt = Inr opt' \<Longrightarrow> normalised opt = Inr opt'"
  by (auto simp: prepare_def split: if_splits)

section \<open>Properties\<close>

definition sample_deps :: Deps where
  "sample_deps = \<lparr>d_ctxDone = False, d_complete = True,
     d_list = (\<lambda>k. Some (if k < 2 then [\<lparr>i_Name = ''job'', i_Location = ''m1'', i_Status = ''Running''\<rparr>] else [])),
     d_isActive = Some True, d_start = True, d_forceClose = Some ''manual'', d_reopen = Some ''all'',
     d_markerSet = True, d_markerClear = True, d_now = (\<lambda>k. int k * 10 * second), d_sleep = (\<lambda>_. True)\<rparr>"

definition sample_options :: Options where
  "sample_options = \<lparr>opt_MemberName = ''m1'', opt_Reason = ''image build'', opt_TimerUnit = [], opt_Timeout = minute,
     opt_Poll = 0, opt_Apply = True, opt_FenceOnly = False\<rparr>"

lemma Drain_effects:
  assumes "Drain deps opt = Some (outcome, effs)"
  shows "(opt_Apply opt \<longrightarrow> set effs \<subseteq> {MarkerSet (opt_Reason opt), GateForceClose (opt_Reason opt), ListInstances} \<union> range SleepFor
            \<and> (effs = [] \<or> hd effs = MarkerSet (opt_Reason opt)))
    \<and> (\<not> opt_Apply opt \<longrightarrow> set effs \<subseteq> {ListInstances, TimerIsActive})
    \<and> (\<forall>r. outcome = Inr r \<longrightarrow> opt_Apply opt \<longrightarrow>
         take 2 effs = [MarkerSet (opt_Reason opt), GateForceClose (opt_Reason opt)] \<and> res_GateClosed r
         \<and> (\<exists>k insts. d_list deps k = Some insts
              \<and> (res_Drained r \<longleftrightarrow> (\<forall>i \<in> set insts. i_Location i = opt_MemberName opt \<longrightarrow> i_Status i = ''Stopped'')))
         \<and> (opt_FenceOnly opt \<or> res_Drained r \<or> res_TimedOut r))"
proof (cases "prepare deps opt")
  case (Inl e)
  then show ?thesis using assms by (auto simp: Drain_def)
next
  case (Inr opt')
  note n = normalised_positive [OF prepare_Inr [OF Inr]]
  let ?pre = "[MarkerSet (opt_Reason opt), GateForceClose (opt_Reason opt)]"
  show ?thesis
  proof (cases "opt_Reason opt \<noteq> [] \<and> opt_Apply opt \<and> d_markerSet deps \<and> d_forceClose deps \<noteq> None")
    case False
    then show ?thesis using assms Inr n
      by (auto simp: Drain_def Let_def split: if_splits sum.splits option.splits)
  next
    case True
    then obtain result where lp: "drain_loop deps opt' (d_now deps 0) result 0 ?pre = Some (outcome, effs)"
        "\<not> res_Drained result" "\<not> res_TimedOut result" "res_GateClosed result"
      using assms Inr n by (auto simp: Drain_def Let_def zero_result_def)
    have post: "loop_post deps opt' result ?pre (outcome, effs)"
      using drain_loop_post [OF lp(1)] lp(2,3) n by metis
    then obtain added where added: "effs = ?pre @ added" "set added \<subseteq> {ListInstances, SleepFor (opt_Poll opt')}"
      unfolding loop_post_def by auto
    have "res_GateClosed r \<and> (\<exists>k insts. d_list deps k = Some insts
          \<and> (res_Drained r \<longleftrightarrow> (\<forall>i \<in> set insts. i_Location i = opt_MemberName opt \<longrightarrow> i_Status i = ''Stopped'')))
        \<and> (opt_FenceOnly opt \<or> res_Drained r \<or> res_TimedOut r)" if "outcome = Inr r" for r
    proof -
      have q: "res_GateClosed r = res_GateClosed result"
          "\<exists>k insts. d_list deps k = Some insts \<and> res_Occupants r = occupants_of (opt_MemberName opt') insts
             \<and> (res_Drained r \<longleftrightarrow> res_Occupants r = [])"
          "opt_FenceOnly opt' \<or> res_Drained r \<or> res_TimedOut r"
        using post that unfolding loop_post_def by auto
      then obtain k insts where "d_list deps k = Some insts" "res_Drained r \<longleftrightarrow> occupants_of (opt_MemberName opt') insts = []"
        by metis
      then show ?thesis using q(1,3) lp(4) n unfolding occupants_of_empty by metis
    qed
    then show ?thesis using True added by auto
  qed
qed

text \<open>a drain is safe and honest. An applied drain writes the marker, then closes the gate, and after that only
  lists instances and sleeps: it never reopens the gate, removes the marker or touches an instance. It
  reports the member drained exactly when a listing showed nothing but stopped instances on it; unless
  it only fences, it returns drained or timed out; and a dry run performs no change at all.\<close>

theorem Drain_safe:
  assumes "Drain deps opt = Some (outcome, effs)"
  shows "(opt_Apply opt \<longrightarrow> set effs \<subseteq> {MarkerSet (opt_Reason opt), GateForceClose (opt_Reason opt), ListInstances} \<union> range SleepFor
            \<and> (effs = [] \<or> hd effs = MarkerSet (opt_Reason opt)))
    \<and> (\<not> opt_Apply opt \<longrightarrow> set effs \<subseteq> {ListInstances, TimerIsActive})
    \<and> (\<forall>r. outcome = Inr r \<longrightarrow> opt_Apply opt \<longrightarrow>
         take 2 effs = [MarkerSet (opt_Reason opt), GateForceClose (opt_Reason opt)] \<and> res_GateClosed r
         \<and> (\<exists>k insts. d_list deps k = Some insts
              \<and> (res_Drained r \<longleftrightarrow> (\<forall>i \<in> set insts. i_Location i = opt_MemberName opt \<longrightarrow> i_Status i = ''Stopped'')))
         \<and> (opt_FenceOnly opt \<or> res_Drained r \<or> res_TimedOut r))"
  using Drain_effects [OF assms] .

theorem Drain_safe_witness:
  "\<exists>r effs. Drain sample_deps sample_options = Some (Inr r, effs) \<and> res_Drained r \<and> res_GateClosed r
     \<and> take 2 effs = [MarkerSet ''image build'', GateForceClose ''image build'']"
proof -
  have "case Drain sample_deps sample_options of Some (Inr r, effs) \<Rightarrow> res_Drained r | _ \<Rightarrow> False" by code_simp
  then obtain r effs where r: "Drain sample_deps sample_options = Some (Inr r, effs)" "res_Drained r"
    by (auto split: option.split_asm prod.split_asm sum.split_asm)
  from Drain_safe [OF r(1)] r show ?thesis by (auto simp: sample_options_def)
qed

text \<open>C24: a drain always returns. Whatever the cluster lists and however the effects go, when every iteration of
  the loop takes at least one poll interval the drain ends with an outcome after at most
  \<open>Timeout / Poll + 2\<close> listings.\<close>

theorem Drain_returns:
  assumes "prepare deps opt = Inr opt'"
    and "\<And>k. d_now deps 0 + int k * opt_Poll opt' \<le> d_now deps (2 * k + 2)"
  shows "\<exists>outcome effs. Drain deps opt = Some (outcome, effs)
    \<and> length (filter (\<lambda>x. x = ListInstances) effs) \<le> nat (opt_Timeout opt' div opt_Poll opt') + 2"
proof -
  note n = normalised_positive [OF prepare_Inr [OF assms(1)]]
  define N where "N = nat (opt_Timeout opt' div opt_Poll opt') + 1"
  have eq: "opt_Timeout opt' = opt_Poll opt' * (opt_Timeout opt' div opt_Poll opt') + opt_Timeout opt' mod opt_Poll opt'"
    by simp
  have "opt_Timeout opt' mod opt_Poll opt' < opt_Poll opt'" "0 \<le> opt_Timeout opt' div opt_Poll opt'"
    using n by (simp_all add: pos_imp_zdiv_nonneg_iff)
  moreover from this(2) have "int N * opt_Poll opt' = opt_Poll opt' * (opt_Timeout opt' div opt_Poll opt') + opt_Poll opt'"
    by (simp add: N_def algebra_simps)
  ultimately have "opt_Timeout opt' \<le> int N * opt_Poll opt'" using eq by linarith
  then have "\<not> d_now deps (2 * N + 2) < d_now deps 0 + opt_Timeout opt'" using assms(2) [of N] by linarith
  note ends = drain_loop_ends [where k = 0 and n = N, OF _ this]
  show ?thesis
  proof (cases "opt_Reason opt' \<noteq> [] \<and> opt_Apply opt' \<and> d_markerSet deps \<and> d_forceClose deps \<noteq> None")
    case False
    then show ?thesis using assms(1)
      by (auto simp: Drain_def Let_def split: sum.split option.split)
  next
    case True
    then obtain result where "Drain deps opt = drain_loop deps opt' (d_now deps 0) result 0
        [MarkerSet (opt_Reason opt'), GateForceClose (opt_Reason opt')]"
      using assms(1) by (auto simp: Drain_def Let_def)
    moreover obtain out where "drain_loop deps opt' (d_now deps 0) result 0
        [MarkerSet (opt_Reason opt'), GateForceClose (opt_Reason opt')] = Some out"
        "length (filter (\<lambda>x. x = ListInstances) (snd out)) \<le> N + 1"
      using ends [of result "[MarkerSet (opt_Reason opt'), GateForceClose (opt_Reason opt')]"] by auto
    ultimately show ?thesis by (cases out) (auto simp: N_def)
  qed
qed

theorem Drain_returns_witness:
  "\<exists>opt' outcome effs. prepare sample_deps sample_options = Inr opt' \<and> Drain sample_deps sample_options = Some (outcome, effs)"
proof -
  have "case prepare sample_deps sample_options of Inr opt' \<Rightarrow> opt_Poll opt' = 5 * second | Inl e \<Rightarrow> False" by code_simp
  then obtain opt' where p: "prepare sample_deps sample_options = Inr opt'" "opt_Poll opt' = 5 * second"
    by (auto split: sum.split_asm)
  have "d_now sample_deps 0 + int k * opt_Poll opt' \<le> d_now sample_deps (2 * k + 2)" for k
    unfolding p(2) by (simp add: sample_deps_def second_def)
  from Drain_returns [OF p(1) this] p(1) show ?thesis by blast
qed

text \<open>A restore hands the member back in a safe order. Applied, it clears the marker before it republishes the
  gate, so that no publisher cycle closes the gate again for the old reason, and starts the timer last;
  it reports success only when all three succeeded, and without \<open>Apply\<close> it only asks for the timer.\<close>

theorem Restore_order:
  "prefix (snd (Restore deps opt)) (if opt_Apply opt then [TimerIsActive, MarkerClear, GateReopen,
       TimerStart (case normalised opt of Inr o' \<Rightarrow> opt_TimerUnit o' | Inl e \<Rightarrow> [])] else [TimerIsActive])
   \<and> (\<forall>r. fst (Restore deps opt) = Inr r \<and> opt_Apply opt \<longrightarrow> d_markerClear deps \<and> d_reopen deps \<noteq> None \<and> d_start deps
        \<and> res_GateRepublished r \<and> res_TimerRunning r)"
proof (cases "prepare deps opt")
  case (Inl e)
  then show ?thesis by (simp add: Restore_def)
next
  case (Inr opt')
  note n = normalised_positive [OF prepare_Inr [OF Inr]] prepare_Inr [OF Inr]
  then show ?thesis using Inr
    by (auto simp: Restore_def Let_def split: option.split)
qed

theorem Restore_order_witness:
  "snd (Restore sample_deps sample_options) = [TimerIsActive, MarkerClear, GateReopen, TimerStart DefaultTimerUnit]
   \<and> prefix (snd (Restore sample_deps sample_options)) [TimerIsActive, MarkerClear, GateReopen, TimerStart DefaultTimerUnit]"
proof -
  have "snd (Restore sample_deps sample_options) = [TimerIsActive, MarkerClear, GateReopen, TimerStart DefaultTimerUnit]"
    by code_simp
  with Restore_order [of sample_deps sample_options] show ?thesis by simp
qed

end
