(* ===== verification/Go_Time.thy ===== *)
theory Go_Time
  imports Go_Crypto
begin

text \<open>
  The part of Go's \<open>time\<close> and \<open>slices\<close> packages that attempt identities use: the RFC 3339 rendering of an
  instant in UTC and the removal of adjacent duplicates.
\<close>

section \<open>Calendar time\<close>

text \<open>The proleptic Gregorian date of a day number counted from 1 January of year 1, where Go's zero time is.\<close>

definition civil :: "int \<Rightarrow> int \<times> int \<times> int" where
  "civil days =
     (let z = days + 306; era = z div 146097; doe = z mod 146097;
          yoe = (doe - doe div 1460 + doe div 36524 - doe div 146096) div 365;
          doy = doe - (365 * yoe + yoe div 4 - yoe div 100);
          mp = (5 * doy + 2) div 153;
          d = doy - (153 * mp + 2) div 5 + 1;
          m = (if mp < 10 then mp + 3 else mp - 9);
          y = yoe + era * 400 + (if m \<le> 2 then 1 else 0)
      in (y, m, d))"

definition pad_left :: "nat \<Rightarrow> string \<Rightarrow> string" where
  "pad_left n s = replicate (n - length s) CHR ''0'' @ s"

definition two_digits :: "int \<Rightarrow> string" where "two_digits z = pad_left 2 (format_int z)"

text \<open>The fraction of a second, without trailing zeros.\<close>

definition format_fraction :: "int \<Rightarrow> string" where
  "format_fraction nanos =
     (if nanos = 0 then []
      else CHR ''.'' # rev (dropWhile (\<lambda>c. c = CHR ''0'') (rev (pad_left 9 (format_int nanos)))))"

text \<open>\<open>t.UTC().Format(time.RFC3339Nano)\<close>.\<close>

definition format_rfc3339nano :: "time \<Rightarrow> string" where
  "format_rfc3339nano t =
     (let secs = t div 1000000000; nanos = t mod 1000000000; days = secs div 86400; sod = secs mod 86400
      in case civil days of (y, m, d) \<Rightarrow>
           pad_left 4 (format_int y) @ ''-'' @ two_digits m @ ''-'' @ two_digits d @ ''T''
           @ two_digits (sod div 3600) @ '':'' @ two_digits (sod div 60 mod 60) @ '':'' @ two_digits (sod mod 60)
           @ format_fraction nanos @ ''Z'')"

section \<open>Sorting strings\<close>

text \<open>\<open>slices.Sort\<close> is the library's \<open>sort\<close>; \<open>slices.Compact\<close> drops adjacent duplicates.\<close>

definition slices_Compact :: "string list \<Rightarrow> string list" where "slices_Compact = remdups_adj"

end
