(* ===== verification/Scheduler_Recovery.thy ===== *)
theory Scheduler_Recovery
  imports Go_Time Durable_Store "HOL-Library.Multiset"
begin

text \<open>
  The scheduler recovery controller of \<open>src/internal/schedulerrecovery\<close>: the decision to restart a stuck
  dispatcher (\<open>evaluate.go\<close>), the proof of progress it demands (\<open>progress_contract.go\<close>), the attempt file
  (\<open>store.go\<close>), and the controller tick that ties them together (\<open>recover.go\<close>, \<open>controller.go\<close>). The
  executor, the observer and the event sink are the environment of a tick; error texts are recorded by
  their cause, and event times are left out.
\<close>

section \<open>Data\<close>

record recovery_policy =
  MinimumStuckAge :: duration
  MinimumUptime :: duration
  Cooldown :: duration
  HeartbeatStale :: duration

record PendingCreate =
  pc_ID :: string
  pc_Age :: duration
  pc_CreateAttempt :: int

record ProviderRetry =
  pr_ID :: string
  pr_OverdueAge :: duration

record AssignedIntent =
  ai_ID :: string
  ai_Age :: duration

record Observation =
  ob_ObservedAt :: time
  ob_ActiveIntents :: int
  ob_PendingCreates :: "PendingCreate list"
  ob_OverdueRetries :: "ProviderRetry list"
  ob_StaleAssigned :: "AssignedIntent list"
  ob_CapacityBackpressure :: bool
  ob_RecoveryBlockers :: "string list"
  ob_ManagerUptime :: duration
  ob_LastRecoveryAt :: time
  ob_HeartbeatAt :: time
  ob_RecoveryRunning :: bool

record recovery_decision =
  dec_Recover :: bool
  dec_Reason :: string
  dec_Stuck :: "string list"

record Attempt =
  at_ID :: string
  at_StartedAt :: time
  at_Stuck :: "string list"

datatype progress_error =
    ExpectedEmpty | IdentityInvalid | ExpectedDuplicate | UnexpectedOrRepeated | IdentityOmitted | AwaitFailed

datatype recovery_failure =
    CheckpointFailed | RestartFailed | ProgressUnverified progress_error | RecoveryIncomplete nat
  | ResumedUnverified progress_error | ResumedIncomplete nat

record recovery_result =
  rr_AttemptID :: string
  rr_Suppressed :: bool
  rr_Checkpoint :: string
  rr_Progressed :: "string list"
  rr_Remaining :: "string list"
  rr_Recovered :: bool
  rr_FinishedAt :: time
  rr_Error :: "recovery_failure option" \<comment> \<open>the recorded error text, by its cause\<close>

record Heartbeat =
  hb_At :: time
  hb_Progress :: string

section \<open>The decision (\<open>evaluate.go\<close>)\<close>

definition stuck_pending :: "recovery_policy \<Rightarrow> Observation \<Rightarrow> string list" where
  "stuck_pending p ob = map pc_ID (filter (\<lambda>x. pc_CreateAttempt x = 0 \<and> pc_Age x \<ge> MinimumStuckAge p) (ob_PendingCreates ob))"

definition stuck_retries :: "recovery_policy \<Rightarrow> Observation \<Rightarrow> string list" where
  "stuck_retries p ob = map pr_ID (filter (\<lambda>x. pr_OverdueAge x \<ge> MinimumStuckAge p) (ob_OverdueRetries ob))"

definition stuck_assigned :: "recovery_policy \<Rightarrow> Observation \<Rightarrow> string list" where
  "stuck_assigned p ob = map ai_ID (filter (\<lambda>x. ai_Age x \<ge> MinimumStuckAge p) (ob_StaleAssigned ob))"

definition refuse :: "string \<Rightarrow> string list \<Rightarrow> recovery_decision" where
  "refuse why stuck = \<lparr>dec_Recover = False, dec_Reason = why, dec_Stuck = stuck\<rparr>"

definition recovery_Evaluate :: "recovery_policy \<Rightarrow> Observation \<Rightarrow> recovery_decision" where
  "recovery_Evaluate p ob =
     (if ob_RecoveryRunning ob then refuse ''recovery-already-running'' []
      else if ob_ActiveIntents ob = 0 then refuse ''no-admitted-demand'' []
      else (let stuck = stuck_pending p ob @ stuck_retries p ob @ stuck_assigned p ob;
                overdueRetry = (stuck_retries p ob \<noteq> []);
                staleAssigned = (stuck_assigned p ob \<noteq> [])
            in if stuck = [] then refuse ''no-stale-undispatched-instance'' []
               else if ob_RecoveryBlockers ob \<noteq> []
               then refuse (''recovery-blocked:'' @ join_with CHR '','' (slices_Compact (sort (ob_RecoveryBlockers ob)))) stuck
               else if \<not> overdueRetry \<and> \<not> staleAssigned \<and> \<not> is_zero (ob_HeartbeatAt ob)
                       \<and> time_sub (ob_ObservedAt ob) (ob_HeartbeatAt ob) < HeartbeatStale p
               then refuse ''dispatcher-heartbeat-current'' stuck
               else if ob_ManagerUptime ob < MinimumUptime p then refuse ''manager-startup-grace'' stuck
               else if \<not> is_zero (ob_LastRecoveryAt ob)
                       \<and> time_sub (ob_ObservedAt ob) (ob_LastRecoveryAt ob) < Cooldown p
               then refuse ''recovery-cooldown'' stuck
               else if staleAssigned \<and> ob_CapacityBackpressure ob \<and> \<not> overdueRetry
               then refuse ''capacity-deferred-assigned'' stuck
               else \<lparr>dec_Recover = True,
                     dec_Reason = (if staleAssigned then ''stale-assigned-intent-without-instance''
                                   else if overdueRetry then ''stale-provider-retry-past-next-allowed''
                                   else ''stale-pending-create-attempt-zero''),
                     dec_Stuck = stuck\<rparr>))"

section \<open>Proof of progress (\<open>progress_contract.go\<close>)\<close>

definition identity_bad :: "string \<Rightarrow> bool" where
  "identity_bad x \<longleftrightarrow> trim_space x = [] \<or> contains_any x [CHR '','', CHR 0x00, CHR 0x0D, CHR 0x0A]"

text \<open>The loop over the expected identities, with the map of those seen so far.\<close>

fun collect_expected :: "string list \<Rightarrow> bool gomap \<Rightarrow> progress_error + bool gomap" where
  "collect_expected [] want = Inr want"
| "collect_expected (x # xs) want =
     (if identity_bad x then Inl IdentityInvalid
      else if has want x then Inl ExpectedDuplicate
      else collect_expected xs (put x False want))"

fun tick_off :: "string list \<Rightarrow> bool gomap \<Rightarrow> progress_error + bool gomap" where
  "tick_off [] want = Inr want"
| "tick_off (x # xs) want =
     (case get want x of
        Some False \<Rightarrow> tick_off xs (put x True want)
      | _ \<Rightarrow> Inl UnexpectedOrRepeated)"

definition validateProgress :: "string list \<Rightarrow> string list \<Rightarrow> string list \<Rightarrow> progress_error option" where
  "validateProgress expected progressed remaining =
     (if expected = [] then Some ExpectedEmpty
      else (case collect_expected expected [] of
              Inl e \<Rightarrow> Some e
            | Inr want \<Rightarrow>
              (case tick_off (progressed @ remaining) want of
                 Inl e \<Rightarrow> Some e
               | Inr want' \<Rightarrow> if list_ex (\<lambda>(x, seen). \<not> seen) want' then Some IdentityOmitted else None)))"

section \<open>Attempts (\<open>recover.go\<close>)\<close>

definition maxIncidentRecoveryAttempts :: nat where "maxIncidentRecoveryAttempts = 1 + 2"

definition incidentSubjects :: "recovery_result \<Rightarrow> string list" where
  "incidentSubjects r = rr_Progressed r @ rr_Remaining r"

definition subjectSetsOverlap :: "string list \<Rightarrow> string list \<Rightarrow> bool" where
  "subjectSetsOverlap left right \<longleftrightarrow> list_ex (\<lambda>x. x \<in> set right) left"

fun count_attempts :: "recovery_result list \<Rightarrow> string list \<Rightarrow> nat \<Rightarrow> nat" where
  "count_attempts [] stuck n = n"
| "count_attempts (r # rs) stuck n =
     (if rr_Suppressed r \<or> \<not> subjectSetsOverlap (incidentSubjects r) stuck then count_attempts rs stuck n
      else if rr_Recovered r then count_attempts rs stuck 0
      else count_attempts rs stuck (Suc n))"

definition incidentRecoveryAttempts :: "recovery_result list \<Rightarrow> string list \<Rightarrow> nat" where
  "incidentRecoveryAttempts history stuck = (if stuck = [] then 0 else count_attempts history stuck 0)"

definition NewAttempt :: "time \<Rightarrow> string list \<Rightarrow> Attempt" where
  "NewAttempt observedAt stuck =
     (let ordered = sort stuck;
          payload = format_rfc3339nano observedAt @ CHR 0x00 # join_with CHR 0x00 ordered
      in \<lparr>at_ID = hex_encode (sha256 (map of_char payload)), at_StartedAt = observedAt, at_Stuck = ordered\<rparr>)"

section \<open>The attempt file (\<open>store.go\<close>)\<close>

definition historyLimit :: nat where "historyLimit = 64"

record fileState =
  fs_SchemaVersion :: int
  fs_Heartbeat :: Heartbeat
  fs_Active :: "Attempt gomap option" \<comment> \<open>a decoded map may be null\<close>
  fs_Finished :: "recovery_result list"

datatype state_file = NoState | BadState | StateFile fileState

datatype recovery_store_error =
    StateLockFailed | StateUnreadable | StateUnsupported | StateWriteFailed
  | HeartbeatIncomplete | HeartbeatBackwards | AttemptNotActive string

text \<open>An in-memory state: its active map is never null.\<close>

record recovery_state =
  st_Heartbeat :: Heartbeat
  st_Active :: "Attempt gomap"
  st_Finished :: "recovery_result list"

definition zero_heartbeat :: Heartbeat where "zero_heartbeat = \<lparr>hb_At = 0, hb_Progress = []\<rparr>"

definition readFileState :: "state_file \<Rightarrow> recovery_store_error + recovery_state" where
  "readFileState f =
     (case f of
        NoState \<Rightarrow> Inr \<lparr>st_Heartbeat = zero_heartbeat, st_Active = [], st_Finished = []\<rparr>
      | BadState \<Rightarrow> Inl StateUnreadable
      | StateFile s \<Rightarrow>
          (if fs_SchemaVersion s \<noteq> 1 then Inl StateUnsupported
           else (case fs_Active s of
                   None \<Rightarrow> Inl StateUnsupported
                 | Some active \<Rightarrow> Inr \<lparr>st_Heartbeat = fs_Heartbeat s, st_Active = active, st_Finished = fs_Finished s\<rparr>)))"

definition file_of :: "recovery_state \<Rightarrow> state_file" where
  "file_of s = StateFile \<lparr>fs_SchemaVersion = 1, fs_Heartbeat = st_Heartbeat s, fs_Active = Some (st_Active s),
     fs_Finished = st_Finished s\<rparr>"

definition store_locked ::
    "store_env \<Rightarrow> (recovery_state \<Rightarrow> recovery_store_error + recovery_state \<times> 'r) \<Rightarrow> state_file
      \<Rightarrow> (recovery_store_error + 'r) \<times> state_file" where
  "store_locked env update f =
     (if \<not> env_locked env then (Inl StateLockFailed, f)
      else (case readFileState f of
              Inl e \<Rightarrow> (Inl e, f)
            | Inr s \<Rightarrow>
              (case update s of
                 Inl e \<Rightarrow> (Inl e, f)
               | Inr (s', r) \<Rightarrow> publish (env_write env) StateWriteFailed r f (file_of s'))))"

definition heartbeat_update :: "Heartbeat \<Rightarrow> recovery_state \<Rightarrow> recovery_store_error + recovery_state \<times> unit" where
  "heartbeat_update h s =
     (if hb_Progress h = hb_Progress (st_Heartbeat s) then Inr (s, ())
      else if \<not> is_zero (hb_At (st_Heartbeat s)) \<and> hb_At h < hb_At (st_Heartbeat s) then Inl HeartbeatBackwards
      else Inr (s\<lparr>st_Heartbeat := h\<rparr>, ()))"

definition RecordHeartbeat :: "store_env \<Rightarrow> Heartbeat \<Rightarrow> state_file \<Rightarrow> (recovery_store_error + unit) \<times> state_file" where
  "RecordHeartbeat env h f =
     (if is_zero (hb_At h) \<or> hb_Progress h = [] then (Inl HeartbeatIncomplete, f)
      else store_locked env (heartbeat_update h) f)"

definition ReadHeartbeat :: "store_env \<Rightarrow> state_file \<Rightarrow> (recovery_store_error + Heartbeat) \<times> state_file" where
  "ReadHeartbeat env = store_locked env (\<lambda>s. Inr (s, st_Heartbeat s))"

definition begin_update :: "Attempt \<Rightarrow> recovery_state \<Rightarrow> recovery_store_error + recovery_state \<times> bool" where
  "begin_update a s =
     (if st_Active s \<noteq> [] then Inr (s, False)
      else if list_ex (\<lambda>r. rr_AttemptID r = at_ID a) (st_Finished s) then Inr (s, False)
      else Inr (s\<lparr>st_Active := put (at_ID a) a (st_Active s)\<rparr>, True))"

definition store_Begin :: "store_env \<Rightarrow> Attempt \<Rightarrow> state_file \<Rightarrow> (recovery_store_error + bool) \<times> state_file" where
  "store_Begin env a = store_locked env (begin_update a)"

definition store_Active :: "store_env \<Rightarrow> state_file \<Rightarrow> (recovery_store_error + Attempt list) \<times> state_file" where
  "store_Active env = store_locked env (\<lambda>s. Inr (s, sort_slice (\<lambda>x y. at_StartedAt x < at_StartedAt y) (map snd (st_Active s))))"

definition finish_update :: "recovery_result \<Rightarrow> recovery_state \<Rightarrow> recovery_store_error + recovery_state \<times> unit" where
  "finish_update r s =
     (if \<not> has (st_Active s) (rr_AttemptID r) then Inl (AttemptNotActive (rr_AttemptID r))
      else (let finished = st_Finished s @ [r]
            in Inr (s\<lparr>st_Active := del (rr_AttemptID r) (st_Active s),
                      st_Finished := (if length finished > historyLimit
                                      then drop (length finished - historyLimit) finished else finished)\<rparr>, ())))"

definition store_Finish :: "store_env \<Rightarrow> recovery_result \<Rightarrow> state_file \<Rightarrow> (recovery_store_error + unit) \<times> state_file" where
  "store_Finish env r = store_locked env (finish_update r)"

definition store_History :: "store_env \<Rightarrow> state_file \<Rightarrow> (recovery_store_error + recovery_result list) \<times> state_file" where
  "store_History env = store_locked env (\<lambda>s. Inr (s, st_Finished s))"

section \<open>Running a recovery (\<open>recover.go\<close>, \<open>controller.go\<close>)\<close>

text \<open>The executor and the effects it is asked for, with the events the controller emits.\<close>

record Executor =
  ex_Checkpoint :: "string option"
  ex_Restart :: bool
  ex_Await :: "(string list \<times> string list) option"

datatype event_state = EvHealthy | EvUnhealthy | EvRecovering | EvRecovered | EvFailed

record recovery_event =
  ev_State :: event_state
  ev_Reason :: string
  ev_AttemptID :: string
  ev_Stuck :: "string list"

datatype recovery_effect = DoCheckpoint | DoRestart | DoAwait | Emit recovery_event

datatype tick_error =
    ControllerIncomplete | ActiveFailed recovery_store_error | MultipleActive | EmitFailed | ObserveFailed
  | HeartbeatFailed | HistoryFailed recovery_store_error | InvalidIdentities progress_error
  | BeginFailed recovery_store_error | FinishFailed recovery_store_error | RecoveryFailed recovery_failure
  | RecoveryRefused string

definition zero_recovery_result :: recovery_result where
  "zero_recovery_result = \<lparr>rr_AttemptID = [], rr_Suppressed = False, rr_Checkpoint = [], rr_Progressed = [],
     rr_Remaining = [], rr_Recovered = False, rr_FinishedAt = 0, rr_Error = None\<rparr>"

type_synonym recovery_outcome = "recovery_result \<times> tick_error option \<times> state_file \<times> recovery_effect list"

definition await_progress :: "Executor \<Rightarrow> Attempt \<Rightarrow> progress_error + string list \<times> string list" where
  "await_progress ex a =
     (case ex_Await ex of
        None \<Rightarrow> Inl AwaitFailed
      | Some (progressed, remaining) \<Rightarrow>
        (case validateProgress (at_Stuck a) progressed remaining of
           Some e \<Rightarrow> Inl e | None \<Rightarrow> Inr (progressed, remaining)))"

text \<open>Finishing an attempt: the recorded failure is reported unless the store itself fails.\<close>

definition finish ::
    "store_env \<Rightarrow> time \<Rightarrow> recovery_result \<Rightarrow> recovery_failure option \<Rightarrow> recovery_effect list \<Rightarrow> state_file \<Rightarrow> recovery_outcome" where
  "finish env now r failure effs f =
     (let r = r\<lparr>rr_FinishedAt := now, rr_Error := failure\<rparr>
      in case store_Finish env r f of
           (Inl e, f') \<Rightarrow> (r, Some (FinishFailed e), f', effs)
         | (Inr u, f') \<Rightarrow> (r, map_option RecoveryFailed failure, f', effs))"

definition recoverAcquired :: "store_env \<Rightarrow> Executor \<Rightarrow> time \<Rightarrow> Attempt \<Rightarrow> state_file \<Rightarrow> recovery_outcome" where
  "recoverAcquired env ex now a f =
     (let r = zero_recovery_result\<lparr>rr_AttemptID := at_ID a, rr_Remaining := at_Stuck a\<rparr>
      in case ex_Checkpoint ex of
           None \<Rightarrow> finish env now r (Some CheckpointFailed) [DoCheckpoint] f
         | Some checkpoint \<Rightarrow>
           (let r = r\<lparr>rr_Checkpoint := checkpoint\<rparr>
            in if \<not> ex_Restart ex then finish env now r (Some RestartFailed) [DoCheckpoint, DoRestart] f
               else (case await_progress ex a of
                       Inl e \<Rightarrow> finish env now r (Some (ProgressUnverified e)) [DoCheckpoint, DoRestart, DoAwait] f
                     | Inr (progressed, remaining) \<Rightarrow>
                       (let r = r\<lparr>rr_Progressed := progressed, rr_Remaining := remaining, rr_Recovered := (remaining = [])\<rparr>
                        in finish env now r (if remaining = [] then None else Some (RecoveryIncomplete (length remaining)))
                             [DoCheckpoint, DoRestart, DoAwait] f))))"

definition resumeAcquired :: "store_env \<Rightarrow> Executor \<Rightarrow> time \<Rightarrow> Attempt \<Rightarrow> state_file \<Rightarrow> recovery_outcome" where
  "resumeAcquired env ex now a f =
     (let r = zero_recovery_result\<lparr>rr_AttemptID := at_ID a\<rparr>
      in case await_progress ex a of
           Inl e \<Rightarrow> finish env now (r\<lparr>rr_Remaining := at_Stuck a\<rparr>) (Some (ResumedUnverified e)) [DoAwait] f
         | Inr (progressed, remaining) \<Rightarrow>
           if remaining = [] then finish env now (r\<lparr>rr_Progressed := progressed, rr_Recovered := True\<rparr>) None [DoAwait] f
           else finish env now (r\<lparr>rr_Progressed := progressed, rr_Remaining := remaining\<rparr>)
                  (Some (ResumedIncomplete (length remaining))) [DoAwait] f)"

text \<open>The standalone entry point.\<close>

definition Recover ::
    "store_env \<Rightarrow> store_env \<Rightarrow> store_env \<Rightarrow> Executor \<Rightarrow> time \<Rightarrow> time \<Rightarrow> recovery_decision \<Rightarrow> state_file \<Rightarrow> recovery_outcome" where
  "Recover env_history env_begin env_finish ex observedAt now d f =
     (if \<not> dec_Recover d then (zero_recovery_result, Some (RecoveryRefused (dec_Reason d)), f, [])
      else (case validateProgress (dec_Stuck d) [] (dec_Stuck d) of
              Some e \<Rightarrow> (zero_recovery_result, Some (InvalidIdentities e), f, [])
            | None \<Rightarrow>
              (case store_History env_history f of
                 (Inl e, f1) \<Rightarrow> (zero_recovery_result, Some (HistoryFailed e), f1, [])
               | (Inr history, f1) \<Rightarrow>
                 if incidentRecoveryAttempts history (dec_Stuck d) \<ge> maxIncidentRecoveryAttempts
                 then (zero_recovery_result, Some (RecoveryRefused ''recovery-retry-budget-exhausted''), f1, [])
                 else (let a = NewAttempt observedAt (dec_Stuck d)
                       in case store_Begin env_begin a f1 of
                            (Inl e, f2) \<Rightarrow> (zero_recovery_result, Some (BeginFailed e), f2, [])
                          | (Inr acquired, f2) \<Rightarrow>
                            if \<not> acquired
                            then (zero_recovery_result\<lparr>rr_AttemptID := at_ID a, rr_Suppressed := True\<rparr>, None, f2, [])
                            else recoverAcquired env_finish ex now a f2))))"

record tick_env =
  te_complete :: bool
  te_active :: store_env
  te_history :: store_env
  te_begin :: store_env
  te_finish :: store_env
  te_observe :: "Observation option"
  te_heartbeat :: "Heartbeat option"
  te_emit :: "nat \<Rightarrow> bool" \<comment> \<open>whether the n-th emission succeeds\<close>
  te_executor :: Executor
  te_now :: time

definition mk_event :: "event_state \<Rightarrow> string \<Rightarrow> string \<Rightarrow> string list \<Rightarrow> recovery_event" where
  "mk_event st why aid stuck = \<lparr>ev_State = st, ev_Reason = why, ev_AttemptID = aid, ev_Stuck = stuck\<rparr>"

text \<open>The announcement before an attempt runs, the run, and the event that closes it.\<close>

definition announced ::
    "tick_env \<Rightarrow> nat \<Rightarrow> recovery_decision \<Rightarrow> recovery_decision \<Rightarrow> string \<Rightarrow> Attempt
      \<Rightarrow> (state_file \<Rightarrow> recovery_outcome) \<Rightarrow> recovery_effect list \<Rightarrow> state_file
      \<Rightarrow> recovery_decision \<times> recovery_outcome" where
  "announced env n unannounced d why a run effs f =
     (let e = Emit (mk_event EvRecovering why (at_ID a) (at_Stuck a))
      in if \<not> te_emit env n then (unannounced, zero_recovery_result, Some EmitFailed, f, effs @ [e])
         else (case run f of (r, err, f', executed) \<Rightarrow>
                 (let t = Emit (mk_event (if err = None then EvRecovered else EvFailed) why (at_ID a) (rr_Remaining r))
                  in (if te_emit env (Suc n) then d else unannounced,
                      r, if te_emit env (Suc n) then err else Some EmitFailed, f', effs @ [e] @ executed @ [t]))))"

definition no_decision :: recovery_decision where "no_decision = refuse [] []"

definition decide :: "recovery_policy \<Rightarrow> tick_env \<Rightarrow> Observation \<Rightarrow> Heartbeat \<Rightarrow> state_file
    \<Rightarrow> (recovery_store_error + unit) \<times> recovery_decision \<times> state_file" where
  "decide p env ob h f =
     (let d = recovery_Evaluate p (ob\<lparr>ob_HeartbeatAt := hb_At h\<rparr>)
      in if \<not> dec_Recover d then (Inr (), d, f)
         else (case store_History (te_history env) f of
                 (Inl e, f') \<Rightarrow> (Inl e, d, f')
               | (Inr history, f') \<Rightarrow>
                 (Inr (), if incidentRecoveryAttempts history (dec_Stuck d) \<ge> maxIncidentRecoveryAttempts
                          then d\<lparr>dec_Recover := False, dec_Reason := ''recovery-retry-budget-exhausted''\<rparr> else d, f')))"

definition Tick :: "recovery_policy \<Rightarrow> tick_env \<Rightarrow> state_file \<Rightarrow> recovery_decision \<times> recovery_outcome" where
  "Tick p env f0 =
     (if \<not> te_complete env then (no_decision, zero_recovery_result, Some ControllerIncomplete, f0, [])
      else (case store_Active (te_active env) f0 of
        (Inl e, f) \<Rightarrow> (no_decision, zero_recovery_result, Some (ActiveFailed e), f, [])
      | (Inr active, f) \<Rightarrow>
        (case active of
           a # b # rest \<Rightarrow> (no_decision, zero_recovery_result, Some MultipleActive, f, [])
         | [a] \<Rightarrow>
             announced env 0 no_decision (refuse ''resume-interrupted-recovery'' (at_Stuck a)) ''resume-interrupted-recovery'' a
               (resumeAcquired (te_finish env) (te_executor env) (te_now env) a) [] f
         | [] \<Rightarrow>
           (case te_observe env of
              None \<Rightarrow> (no_decision, zero_recovery_result, Some ObserveFailed, f, [])
            | Some ob \<Rightarrow>
              (case te_heartbeat env of
                 None \<Rightarrow> (no_decision, zero_recovery_result, Some HeartbeatFailed, f, [])
               | Some h \<Rightarrow>
                 (case decide p env ob h f of
                    (Inl e, d, f) \<Rightarrow> (d, zero_recovery_result, Some (HistoryFailed e), f, [])
                  | (Inr u, d, f) \<Rightarrow>
                    (let e = Emit (mk_event (if dec_Recover d \<or> dec_Stuck d \<noteq> [] then EvUnhealthy else EvHealthy)
                                     (dec_Reason d) [] (dec_Stuck d))
                     in if \<not> te_emit env 0 then (d, zero_recovery_result, Some EmitFailed, f, [e])
                        else if \<not> dec_Recover d then (d, zero_recovery_result, None, f, [e])
                        else (case validateProgress (dec_Stuck d) [] (dec_Stuck d) of
                                Some er \<Rightarrow> (d, zero_recovery_result, Some (InvalidIdentities er), f, [e])
                              | None \<Rightarrow>
                                (let a = NewAttempt (ob_ObservedAt ob) (dec_Stuck d)
                                 in case store_Begin (te_begin env) a f of
                                      (Inl er, f) \<Rightarrow> (d, zero_recovery_result, Some (BeginFailed er), f, [e])
                                    | (Inr acquired, f) \<Rightarrow>
                                      if \<not> acquired
                                      then (d, zero_recovery_result\<lparr>rr_AttemptID := at_ID a, rr_Suppressed := True\<rparr>,
                                            if te_emit env 1 then None else Some EmitFailed, f,
                                            [e, Emit (mk_event EvUnhealthy ''duplicate-recovery-suppressed'' (at_ID a) (at_Stuck a))])
                                      else announced env 1 d d (dec_Reason d) a
                                             (recoverAcquired (te_finish env) (te_executor env) (te_now env) a) [e] f)))))))))"

section \<open>Progress is a partition\<close>

lemma collect_expected_iff:
  "collect_expected xs want = Inr want' \<longleftrightarrow>
     (\<forall>x \<in> set xs. \<not> identity_bad x \<and> \<not> has want x) \<and> distinct xs \<and> want' = fold (\<lambda>x. put x False) xs want"
  by (induction xs arbitrary: want) (auto simp: map_simps)

lemma tick_off_iff:
  "tick_off ys want = Inr want' \<longleftrightarrow>
     (\<forall>y \<in> set ys. get want y = Some False) \<and> distinct ys \<and> want' = fold (\<lambda>y. put y True) ys want"
proof (induction ys arbitrary: want)
  case Nil
  then show ?case by auto
next
  case (Cons y ys)
  show ?case
    by (cases "get want y"; cases "the (get want y)") (auto simp: Cons.IH map_simps)
qed

lemma get_fold_put: "get (fold (\<lambda>x. put x v) xs m) k = (if k \<in> set xs then Some v else get m k)"
  by (induction xs arbitrary: m) (auto simp: map_simps)

lemma wf_fold_put: "wf_map m \<Longrightarrow> wf_map (fold (\<lambda>x. put x v) xs m)"
  by (simp add: wf_fold map_simps)

lemma validateProgress_None_iff:
  "validateProgress expected progressed remaining = None \<longleftrightarrow>
     expected \<noteq> [] \<and> (\<forall>x \<in> set expected. \<not> identity_bad x) \<and> distinct expected
     \<and> distinct (progressed @ remaining) \<and> set (progressed @ remaining) = set expected"
proof -
  define want where "want = fold (\<lambda>x. put x False) expected []"
  let ?ys = "progressed @ remaining"
  define want' where "want' = fold (\<lambda>y. put y True) ?ys want"
  have w: "get want k = (if k \<in> set expected then Some False else None)" for k
    unfolding want_def get_fold_put by simp
  have w': "get want' k = (if k \<in> set ?ys then Some True else get want k)" for k
    unfolding want'_def get_fold_put by simp
  have wf: "wf_map want'" unfolding want'_def want_def by (simp add: wf_fold_put wf_empty)
  have seen: "\<not> list_ex (\<lambda>(x, seen). \<not> seen) want' \<longleftrightarrow> (\<forall>k v. get want' k = Some v \<longrightarrow> v)"
    by (auto simp: list_ex_iff get_iff_mem [OF wf])
  show ?thesis
  proof (cases "expected \<noteq> [] \<and> (\<forall>x \<in> set expected. \<not> identity_bad x) \<and> distinct expected")
    case False
    then have "\<nexists>m. collect_expected expected [] = Inr m" if "expected \<noteq> []"
      using that by (auto simp: collect_expected_iff)
    with False show ?thesis
      by (cases "collect_expected expected []") (auto simp: validateProgress_def)
  next
    case True
    then have c: "collect_expected expected [] = Inr want" by (auto simp: collect_expected_iff want_def has_def)
    show ?thesis
    proof (cases "\<exists>m. tick_off ?ys want = Inr m")
      case False
      then have "\<not> ((\<forall>y \<in> set ?ys. get want y = Some False) \<and> distinct ?ys)" using tick_off_iff by blast
      moreover have "validateProgress expected progressed remaining \<noteq> None"
        using False c True by (cases "tick_off ?ys want") (auto simp: validateProgress_def)
      ultimately show ?thesis unfolding w by (metis option.distinct(1))
    next
      case ok: True
      then have t: "tick_off ?ys want = Inr want'" "\<forall>y \<in> set ?ys. get want y = Some False" "distinct ?ys"
        using tick_off_iff want'_def by blast+
      have sub: "set ?ys \<subseteq> set expected" using t(2) w by (metis option.distinct(1) subsetI)
      have "validateProgress expected progressed remaining = None \<longleftrightarrow> \<not> list_ex (\<lambda>(x, seen). \<not> seen) want'"
        using True c t(1) by (simp add: validateProgress_def)
      also have "\<dots> \<longleftrightarrow> set expected \<subseteq> set ?ys"
        unfolding seen w' w by (auto split: if_splits)
      finally show ?thesis using True t(3) sub by blast
    qed
  qed
qed

section \<open>The decision\<close>

lemma recovery_Evaluate_Recover_iff:
  "dec_Recover (recovery_Evaluate p ob) \<longleftrightarrow>
     \<not> ob_RecoveryRunning ob \<and> ob_ActiveIntents ob \<noteq> 0
     \<and> stuck_pending p ob @ stuck_retries p ob @ stuck_assigned p ob \<noteq> []
     \<and> ob_RecoveryBlockers ob = []
     \<and> (stuck_retries p ob \<noteq> [] \<or> stuck_assigned p ob \<noteq> [] \<or> ob_HeartbeatAt ob = 0
        \<or> HeartbeatStale p \<le> time_sub (ob_ObservedAt ob) (ob_HeartbeatAt ob))
     \<and> MinimumUptime p \<le> ob_ManagerUptime ob
     \<and> (ob_LastRecoveryAt ob = 0 \<or> Cooldown p \<le> time_sub (ob_ObservedAt ob) (ob_LastRecoveryAt ob))
     \<and> \<not> (stuck_assigned p ob \<noteq> [] \<and> ob_CapacityBackpressure ob \<and> stuck_retries p ob = [])"
  unfolding recovery_Evaluate_def Let_def refuse_def is_zero_def
  by (simp add: not_less split: if_split)

section \<open>The attempt file keeps the durable-store contract\<close>

definition recovery_ok :: "recovery_state \<Rightarrow> bool" where
  "recovery_ok s \<longleftrightarrow> length (st_Active s) \<le> 1 \<and> length (st_Finished s) \<le> historyLimit
     \<and> (\<forall>(aid, a) \<in> set (st_Active s). at_ID a = aid)"

definition keeps_recovery_ok :: "(recovery_state \<Rightarrow> recovery_store_error + recovery_state \<times> 'r) \<Rightarrow> bool" where
  "keeps_recovery_ok u \<longleftrightarrow> (\<forall>s s' r. recovery_ok s \<longrightarrow> u s = Inr (s', r) \<longrightarrow> recovery_ok s')"

definition good_state_file :: "state_file \<Rightarrow> bool" where
  "good_state_file f \<longleftrightarrow> (\<forall>s. readFileState f = Inr s \<longrightarrow> recovery_ok s)"

definition recovery_durable :: "store_env \<Rightarrow> bool" where
  "recovery_durable env \<longleftrightarrow> env_write env \<noteq> WriteFailsAfterRename"

lemma read_file_of [simp]: "readFileState (file_of s) = Inr s"
  by (simp add: readFileState_def file_of_def)

interpretation sr: durable_store
  "store_locked :: store_env \<Rightarrow> (recovery_state \<Rightarrow> recovery_store_error + recovery_state \<times> 'r) \<Rightarrow> state_file
    \<Rightarrow> (recovery_store_error + 'r) \<times> state_file"
  readFileState recovery_ok keeps_recovery_ok recovery_durable good_state_file
proof
  fix f env and op :: "recovery_state \<Rightarrow> recovery_store_error + recovery_state \<times> 'r"
  assume f: "good_state_file f" and op: "keeps_recovery_ok op"
  have pub: "snd (store_locked env op f) = f \<or>
      (\<exists>s. snd (store_locked env op f) = file_of s \<and> recovery_ok s)"
    using f op
    by (auto simp: store_locked_def publish_def good_state_file_def keeps_recovery_ok_def
        split: sum.splits prod.splits write_outcome.splits)
  then show "good_state_file (snd (store_locked env op f))"
    using f by (auto simp: good_state_file_def)
  show "\<exists>j. readFileState (snd (store_locked env op f)) = Inr j \<and> recovery_ok j"
    if "snd (store_locked env op f) \<noteq> f" using pub that by auto
next
  fix env f e and op :: "recovery_state \<Rightarrow> recovery_store_error + recovery_state \<times> 'r"
  assume "recovery_durable env" "fst (store_locked env op f) = Inl e"
  then show "snd (store_locked env op f) = f"
    by (auto simp: store_locked_def publish_def recovery_durable_def
        split: if_splits sum.splits prod.splits write_outcome.splits)
qed

lemma keeps_read: "keeps_recovery_ok (\<lambda>s. Inr (s, g s))"
  by (simp add: keeps_recovery_ok_def)

lemma keeps_heartbeat: "keeps_recovery_ok (heartbeat_update h)"
  by (auto simp: keeps_recovery_ok_def heartbeat_update_def recovery_ok_def split: if_splits)

lemma keeps_begin: "keeps_recovery_ok (begin_update a)"
  by (auto simp: keeps_recovery_ok_def begin_update_def recovery_ok_def split: if_splits)

lemma keeps_finish: "keeps_recovery_ok (finish_update r)"
proof -
  have "recovery_ok s'" if s: "recovery_ok s" and u: "finish_update r s = Inr (s', x)" for s s' x
  proof -
    have "st_Active s' = del (rr_AttemptID r) (st_Active s)" "length (st_Finished s') \<le> historyLimit"
      using u by (auto simp: finish_update_def Let_def split: if_splits)
    moreover have "length (del (rr_AttemptID r) (st_Active s)) \<le> length (st_Active s)"
        "set (del (rr_AttemptID r) (st_Active s)) \<subseteq> set (st_Active s)"
      by (auto simp: AList.delete_eq)
    ultimately show ?thesis using s unfolding recovery_ok_def by fastforce
  qed
  then show ?thesis by (simp add: keeps_recovery_ok_def)
qed

lemmas keeps_updates = keeps_read keeps_heartbeat keeps_begin keeps_finish

lemma store_locked_Inr:
  assumes "store_locked env u f = (Inr r, f')"
  shows "\<exists>s s'. readFileState f = Inr s \<and> u s = Inr (s', r) \<and> f' = file_of s'"
  using assms
  by (auto simp: store_locked_def publish_def split: if_splits sum.splits prod.splits write_outcome.splits)

section \<open>What a tick may do\<close>

lemma store_locked_good: "good_state_file f \<Longrightarrow> keeps_recovery_ok u \<Longrightarrow> good_state_file (snd (store_locked env u f))"
  by (rule sr.good_step)

lemma finish_effects: "snd (snd (snd (finish env now r e effs f))) = effs"
  by (auto simp: finish_def Let_def split: prod.splits sum.splits)

lemma finish_file: "fst (snd (snd (finish env now r e effs f))) = snd (store_Finish env (r\<lparr>rr_FinishedAt := now, rr_Error := e\<rparr>) f)"
  by (auto simp: finish_def Let_def split: prod.splits sum.splits)

lemma finish_good: "good_state_file f \<Longrightarrow> good_state_file (fst (snd (snd (finish env now r e effs f))))"
  unfolding finish_file store_Finish_def by (rule store_locked_good [OF _ keeps_finish])

lemma recoverAcquired_good: "good_state_file f \<Longrightarrow> good_state_file (fst (snd (snd (recoverAcquired env ex now a f))))"
  by (auto simp: recoverAcquired_def Let_def finish_good split: option.splits sum.splits)

lemma resumeAcquired_good: "good_state_file f \<Longrightarrow> good_state_file (fst (snd (snd (resumeAcquired env ex now a f))))"
  by (auto simp: resumeAcquired_def Let_def finish_good split: sum.splits)

lemma resumeAcquired_effects: "snd (snd (snd (resumeAcquired env ex now a f))) = [DoAwait]"
  by (auto simp: resumeAcquired_def Let_def finish_effects split: sum.splits)

lemma recoverAcquired_effects:
  "snd (snd (snd (recoverAcquired env ex now a f))) =
     (if ex_Checkpoint ex = None then [DoCheckpoint]
      else if \<not> ex_Restart ex then [DoCheckpoint, DoRestart] else [DoCheckpoint, DoRestart, DoAwait])"
  by (auto simp: recoverAcquired_def Let_def finish_effects split: sum.splits option.splits)

lemma announced_effects:
  "set (snd (snd (snd (snd (announced env n u d why a run effs f))))) \<subseteq>
     set effs \<union> range Emit \<union> (if te_emit env n then set (snd (snd (snd (run f)))) else {})"
  by (auto simp: announced_def Let_def split: prod.splits)

lemma announced_good:
  "good_state_file f \<Longrightarrow> (good_state_file f \<Longrightarrow> good_state_file (fst (snd (snd (run f))))) \<Longrightarrow>
     good_state_file (fst (snd (snd (snd (announced env n u d why a run effs f)))))"
  by (auto simp: announced_def Let_def split: prod.splits)

lemma decide_Inr:
  assumes "decide p env ob h f = (Inr u, d, f')" "dec_Recover d"
  shows "\<exists>s. readFileState f = Inr s \<and> f' = file_of s \<and> d = recovery_Evaluate p (ob\<lparr>ob_HeartbeatAt := hb_At h\<rparr>)
    \<and> incidentRecoveryAttempts (st_Finished s) (dec_Stuck d) < maxIncidentRecoveryAttempts"
  using assms
  by (auto simp: decide_def Let_def store_History_def dest!: store_locked_Inr split: if_splits prod.splits sum.splits)

lemma decide_good: "good_state_file f \<Longrightarrow> good_state_file (snd (snd (decide p env ob h f)))"
  using store_locked_good [OF _ keeps_read [of st_Finished], of f "te_history env"]
  by (auto simp: decide_def Let_def store_History_def split: prod.splits sum.splits)

lemma Tick_good: "good_state_file f \<Longrightarrow> good_state_file (fst (snd (snd (snd (Tick p env f)))))"
proof -
  assume f: "good_state_file f"
  let ?sort = "\<lambda>s. sort_slice (\<lambda>x y. at_StartedAt x < at_StartedAt y) (map snd (st_Active s))"
  show ?thesis
  proof (cases "te_complete env")
    case False
    then show ?thesis using f by (simp add: Tick_def)
  next
    case True
    obtain x f1 where a: "store_Active (te_active env) f = (x, f1)" by fastforce
    have f1: "good_state_file f1"
      using store_locked_good [OF f keeps_read [of ?sort], of "te_active env"] a by (simp add: store_Active_def)
    show ?thesis
    proof (cases x)
      case (Inl e)
      then show ?thesis using True a f1 by (simp add: Tick_def)
    next
      case (Inr active)
      show ?thesis
      proof (cases active)
        case (Cons b rest)
        then show ?thesis
          using True a f1 Inr announced_good [OF f1 resumeAcquired_good]
          by (cases rest) (auto simp: Tick_def)
      next
        case Nil
        show ?thesis
        proof (cases "te_observe env = None \<or> te_heartbeat env = None")
          case True
          then show ?thesis using \<open>te_complete env\<close> a f1 Inr Nil by (auto simp: Tick_def split: option.splits)
        next
          case False
          then obtain ob h where oh: "te_observe env = Some ob" "te_heartbeat env = Some h" by auto
          obtain y d f2 where dd: "decide p env ob h f1 = (y, d, f2)" by (metis prod_cases3)
          have f2: "good_state_file f2" using decide_good [OF f1, of p env ob h] dd by simp
          let ?a = "NewAttempt (ob_ObservedAt ob) (dec_Stuck d)"
          obtain z f3 where b: "store_Begin (te_begin env) ?a f2 = (z, f3)" by fastforce
          have f3: "good_state_file f3"
            using store_locked_good [OF f2 keeps_begin, of "te_begin env" ?a] b by (simp add: store_Begin_def)
          show ?thesis
            using True a Inr Nil oh dd b f2 f3 announced_good [OF f3 recoverAcquired_good]
            by (auto simp: Tick_def Let_def split: sum.splits option.splits)
        qed
      qed
    qed
  qed
qed

lemma Tick_restart:
  assumes "DoRestart \<in> set (snd (snd (snd (snd (Tick p env f)))))"
  shows "\<exists>ob h s d a f3. te_observe env = Some ob \<and> te_heartbeat env = Some h \<and> readFileState f = Inr s
    \<and> st_Active s = [] \<and> d = recovery_Evaluate p (ob\<lparr>ob_HeartbeatAt := hb_At h\<rparr>) \<and> dec_Recover d
    \<and> incidentRecoveryAttempts (st_Finished s) (dec_Stuck d) < maxIncidentRecoveryAttempts
    \<and> validateProgress (dec_Stuck d) [] (dec_Stuck d) = None
    \<and> a = NewAttempt (ob_ObservedAt ob) (dec_Stuck d)
    \<and> store_Begin (te_begin env) a (file_of s) = (Inr True, f3) \<and> readFileState f3 = Inr (s\<lparr>st_Active := [(at_ID a, a)]\<rparr>)
    \<and> ex_Checkpoint (te_executor env) \<noteq> None"
proof -
  obtain f1 active where a: "te_complete env" "store_Active (te_active env) f = (Inr active, f1)"
    using assms by (auto simp: Tick_def split: if_splits prod.splits sum.splits)
  then obtain s where s: "readFileState f = Inr s" "f1 = file_of s"
      "active = sort_slice (\<lambda>x y. at_StartedAt x < at_StartedAt y) (map snd (st_Active s))"
    by (auto simp: store_Active_def dest!: store_locked_Inr)
  have nil: "active = []"
  proof (cases active)
    case (Cons b rest)
    show ?thesis
    proof (cases rest)
      case Nil
      then show ?thesis using assms a Cons announced_effects [of env 0 no_decision
            "refuse ''resume-interrupted-recovery'' (at_Stuck b)" "''resume-interrupted-recovery''" b
            "resumeAcquired (te_finish env) (te_executor env) (te_now env) b" "[]" f1]
          resumeAcquired_effects by (auto simp: Tick_def split: if_splits)
    next
      case (Cons b' rest')
      then show ?thesis using assms a \<open>active = b # rest\<close> by (simp add: Tick_def)
    qed
  qed simp
  have "length (st_Active s) = 0" using nil s(3) by (metis length_map length_sort_slice list.size(3))
  then have none: "st_Active s = []" by simp
  obtain ob h where oh: "te_observe env = Some ob" "te_heartbeat env = Some h"
    using assms a nil by (auto simp: Tick_def split: option.splits)
  obtain u d f2 where dd: "decide p env ob h f1 = (Inr u, d, f2)" "dec_Recover d"
    using assms a nil oh by (auto simp: Tick_def Let_def split: sum.splits prod.splits if_splits)
  note dI = decide_Inr [OF dd]
  have f2: "f2 = file_of s" using dI s(2) by auto
  let ?a = "NewAttempt (ob_ObservedAt ob) (dec_Stuck d)"
  have v: "validateProgress (dec_Stuck d) [] (dec_Stuck d) = None"
    using assms a nil oh dd by (auto simp: Tick_def Let_def split: option.splits if_splits)
  obtain f3 where b: "store_Begin (te_begin env) ?a f2 = (Inr True, f3)"
    using assms a nil oh dd v
    by (auto simp: Tick_def Let_def split: prod.splits sum.splits if_splits)
  have "ex_Checkpoint (te_executor env) \<noteq> None"
    using assms a nil oh dd v b announced_effects [of env 1 d d "dec_Reason d" ?a
        "recoverAcquired (te_finish env) (te_executor env) (te_now env) ?a"] recoverAcquired_effects [of "te_finish env" "te_executor env"]
    by (fastforce simp: Tick_def Let_def split: if_splits)
  moreover have "readFileState f3 = Inr (s\<lparr>st_Active := [(at_ID ?a, ?a)]\<rparr>)"
    using b f2 none by (auto simp: store_Begin_def begin_update_def dest!: store_locked_Inr split: if_splits)
  ultimately show ?thesis using oh s none dI v b f2 dd(2) by auto
qed

section \<open>Runs\<close>

inductive reachable_state :: "recovery_policy \<Rightarrow> state_file \<Rightarrow> bool" for p where
  start: "reachable_state p NoState"
| tick: "reachable_state p f \<Longrightarrow> reachable_state p (fst (snd (snd (snd (Tick p env f)))))"
| heartbeat: "reachable_state p f \<Longrightarrow> reachable_state p (snd (RecordHeartbeat env h f))"
| begin_other: "reachable_state p f \<Longrightarrow> reachable_state p (snd (store_Begin env a f))"
| finish_other: "reachable_state p f \<Longrightarrow> reachable_state p (snd (store_Finish env r f))"

lemma reachable_state_good: "reachable_state p f \<Longrightarrow> good_state_file f"
proof (induction rule: reachable_state.induct)
  case start
  then show ?case by (simp add: good_state_file_def readFileState_def recovery_ok_def)
next
  case (tick f env)
  then show ?case by (simp add: Tick_good)
next
  case (heartbeat f env h)
  then show ?case by (simp add: RecordHeartbeat_def store_locked_good keeps_updates)
next
  case (begin_other f env a)
  then show ?case by (simp add: store_Begin_def store_locked_good keeps_updates)
next
  case (finish_other f env r)
  then show ?case by (simp add: store_Finish_def store_locked_good keeps_updates)
qed

lemma await_progress_partition:
  "await_progress ex a = Inr (progressed, remaining) \<Longrightarrow> mset (progressed @ remaining) = mset (at_Stuck a)"
proof -
  assume "await_progress ex a = Inr (progressed, remaining)"
  then have "validateProgress (at_Stuck a) progressed remaining = None"
    by (auto simp: await_progress_def split: option.splits prod.splits)
  then show ?thesis
    unfolding validateProgress_None_iff by (metis set_eq_iff_mset_eq_distinct)
qed

lemma finish_result: "fst (finish env now r e effs f) = r\<lparr>rr_FinishedAt := now, rr_Error := e\<rparr>"
  by (auto simp: finish_def Let_def split: prod.splits sum.splits)

section \<open>Properties\<close>

definition sample_recovery_policy :: recovery_policy where
  "sample_recovery_policy = \<lparr>MinimumStuckAge = minute, MinimumUptime = minute, Cooldown = 5 * minute, HeartbeatStale = 2 * minute\<rparr>"

definition sample_observation :: Observation where
  "sample_observation = \<lparr>ob_ObservedAt = hour, ob_ActiveIntents = 1,
     ob_PendingCreates = [\<lparr>pc_ID = ''i1'', pc_Age = 3 * minute, pc_CreateAttempt = 0\<rparr>], ob_OverdueRetries = [],
     ob_StaleAssigned = [], ob_CapacityBackpressure = False, ob_RecoveryBlockers = [], ob_ManagerUptime = hour,
     ob_LastRecoveryAt = 0, ob_HeartbeatAt = 0, ob_RecoveryRunning = False\<rparr>"

definition writable_env :: store_env where "writable_env = \<lparr>env_locked = True, env_write = WriteOk, env_now = hour\<rparr>"

definition sample_tick :: tick_env where
  "sample_tick = \<lparr>te_complete = True, te_active = writable_env, te_history = writable_env, te_begin = writable_env,
     te_finish = writable_env, te_observe = Some sample_observation, te_heartbeat = Some zero_heartbeat,
     te_emit = (\<lambda>_. True),
     te_executor = \<lparr>ex_Checkpoint = Some ''cp'', ex_Restart = True, ex_Await = Some ([''i1''], [])\<rparr>, te_now = hour\<rparr>"

lemma sample_evaluation:
  "recovery_Evaluate sample_recovery_policy (sample_observation\<lparr>ob_HeartbeatAt := hb_At zero_heartbeat\<rparr>) =
     \<lparr>dec_Recover = True, dec_Reason = ''stale-pending-create-attempt-zero'', dec_Stuck = [''i1'']\<rparr>"
  by code_simp

lemma sample_progress: "validateProgress [''i1''] [] [''i1''] = None"
  by code_simp

lemma sample_tick_restarts: "DoRestart \<in> set (snd (snd (snd (snd (Tick sample_recovery_policy sample_tick NoState)))))"
proof -
  have active: "store_Active writable_env NoState = (Inr [], file_of \<lparr>st_Heartbeat = zero_heartbeat, st_Active = [], st_Finished = []\<rparr>)"
    by (simp add: store_Active_def store_locked_def writable_env_def readFileState_def publish_def)
  have dec: "decide sample_recovery_policy sample_tick sample_observation zero_heartbeat (file_of s) =
      (Inr (), \<lparr>dec_Recover = True, dec_Reason = ''stale-pending-create-attempt-zero'', dec_Stuck = [''i1'']\<rparr>, file_of s)"
    if "st_Finished s = []" for s
    using that
    by (simp add: decide_def sample_evaluation store_History_def store_locked_def sample_tick_def writable_env_def publish_def
        incidentRecoveryAttempts_def maxIncidentRecoveryAttempts_def)
  have beg: "store_Begin writable_env a (file_of s) = (Inr True, file_of (s\<lparr>st_Active := [(at_ID a, a)]\<rparr>))"
    if "st_Finished s = []" "st_Active s = []" for s a
    using that by (simp add: store_Begin_def store_locked_def writable_env_def begin_update_def publish_def)
  have env: "te_complete sample_tick" "te_active sample_tick = writable_env" "te_begin sample_tick = writable_env"
      "te_observe sample_tick = Some sample_observation" "te_heartbeat sample_tick = Some zero_heartbeat" "te_emit sample_tick n"
      "ex_Checkpoint (te_executor sample_tick) = Some ''cp''" "ex_Restart (te_executor sample_tick)" for n
    by (simp_all add: sample_tick_def)
  have ra: "DoRestart \<in> set b"
    if "recoverAcquired (te_finish sample_tick) (te_executor sample_tick) (te_now sample_tick) A F = (x, y, z, b)" for A F x y z b
    using recoverAcquired_effects [of "te_finish sample_tick" "te_executor sample_tick" "te_now sample_tick" A F] that env by simp
  show ?thesis
    by (auto simp: Tick_def env active dec beg sample_progress announced_def Let_def intro: ra split: prod.split)
qed

text \<open>C16: the dispatcher is restarted only with fresh authority. If a tick restarts it, no recovery attempt was open,
  the tick's own observation found stuck work that is old enough, there was demand, no blocker, no
  recovery in progress, the manager was past its startup grace and the cooldown was over, fewer than
  three unsuccessful attempts on the same work were on record, every stuck identity was well formed and
  distinct, and the attempt was recorded on disk as the only open one and a checkpoint taken first.\<close>

theorem restart_needs_authority:
  assumes "DoRestart \<in> set (snd (snd (snd (snd (Tick p env f)))))"
  shows "\<exists>ob h s stuck a f'. te_observe env = Some ob \<and> te_heartbeat env = Some h \<and> readFileState f = Inr s
    \<and> st_Active s = [] \<and> stuck = stuck_pending p ob @ stuck_retries p ob @ stuck_assigned p ob
    \<and> stuck \<noteq> [] \<and> distinct stuck \<and> (\<forall>x \<in> set stuck. \<not> identity_bad x)
    \<and> ob_ActiveIntents ob \<noteq> 0 \<and> ob_RecoveryBlockers ob = [] \<and> \<not> ob_RecoveryRunning ob
    \<and> MinimumUptime p \<le> ob_ManagerUptime ob
    \<and> (ob_LastRecoveryAt ob = 0 \<or> Cooldown p \<le> time_sub (ob_ObservedAt ob) (ob_LastRecoveryAt ob))
    \<and> incidentRecoveryAttempts (st_Finished s) stuck < 3
    \<and> a = NewAttempt (ob_ObservedAt ob) stuck
    \<and> store_Begin (te_begin env) a (file_of s) = (Inr True, f')
    \<and> readFileState f' = Inr (s\<lparr>st_Active := [(at_ID a, a)]\<rparr>)
    \<and> ex_Checkpoint (te_executor env) \<noteq> None"
proof -
  obtain ob h s d a f' where t: "te_observe env = Some ob" "te_heartbeat env = Some h" "readFileState f = Inr s"
    "st_Active s = []" "d = recovery_Evaluate p (ob\<lparr>ob_HeartbeatAt := hb_At h\<rparr>)" "dec_Recover d"
    "incidentRecoveryAttempts (st_Finished s) (dec_Stuck d) < maxIncidentRecoveryAttempts"
    "validateProgress (dec_Stuck d) [] (dec_Stuck d) = None" "a = NewAttempt (ob_ObservedAt ob) (dec_Stuck d)"
    "store_Begin (te_begin env) a (file_of s) = (Inr True, f')" "readFileState f' = Inr (s\<lparr>st_Active := [(at_ID a, a)]\<rparr>)"
    "ex_Checkpoint (te_executor env) \<noteq> None"
    using Tick_restart [OF assms] by blast
  let ?stuck = "stuck_pending p ob @ stuck_retries p ob @ stuck_assigned p ob"
  have lists: "stuck_pending p (ob\<lparr>ob_HeartbeatAt := x\<rparr>) = stuck_pending p ob"
      "stuck_retries p (ob\<lparr>ob_HeartbeatAt := x\<rparr>) = stuck_retries p ob"
      "stuck_assigned p (ob\<lparr>ob_HeartbeatAt := x\<rparr>) = stuck_assigned p ob" for x
    by (simp_all add: stuck_pending_def stuck_retries_def stuck_assigned_def)
  have "dec_Stuck d = ?stuck"
    using t(5,6) by (auto simp: recovery_Evaluate_def lists Let_def refuse_def split: if_splits)
  then show ?thesis
    using t recovery_Evaluate_Recover_iff [of p "ob\<lparr>ob_HeartbeatAt := hb_At h\<rparr>"]
    unfolding validateProgress_None_iff lists by (auto simp: maxIncidentRecoveryAttempts_def)
qed

theorem restart_needs_authority_witness:
  "DoRestart \<in> set (snd (snd (snd (snd (Tick sample_recovery_policy sample_tick NoState)))))
   \<and> (\<exists>ob. te_observe sample_tick = Some ob \<and> ob_RecoveryBlockers ob = [])"
  using restart_needs_authority [OF sample_tick_restarts] sample_tick_restarts by blast

text \<open>Proof of progress is exact. The progress contract accepts a report precisely when the expected
  identities are well formed and distinct and the report splits them: progressed and remaining together
  name each of them exactly once and nothing else.\<close>

theorem validateProgress_partition:
  "validateProgress expected progressed remaining = None \<longleftrightarrow>
     expected \<noteq> [] \<and> (\<forall>x \<in> set expected. \<not> identity_bad x) \<and> distinct expected
     \<and> mset progressed + mset remaining = mset expected"
proof -
  have "distinct expected \<Longrightarrow> (distinct (progressed @ remaining) \<and> set (progressed @ remaining) = set expected) \<longleftrightarrow>
      mset (progressed @ remaining) = mset expected"
    by (metis mset_eq_imp_distinct_iff mset_eq_setD set_eq_iff_mset_eq_distinct)
  then show ?thesis unfolding validateProgress_None_iff by auto
qed

theorem validateProgress_partition_witness:
  "validateProgress [''a'', ''b''] [''b''] [''a''] = None \<and> mset [''b''] + mset [''a''] = mset [''a'', ''b'']"
proof -
  have "validateProgress [''a'', ''b''] [''b''] [''a''] = None" by code_simp
  then show ?thesis using validateProgress_partition [of "[''a'', ''b'']" "[''b'']" "[''a'']"] by blast
qed

text \<open>the attempt file never holds two open attempts. Whatever ticks, heartbeats and foreign begins or
  finishes run, with the lock or the write failing anywhere, a readable file has at most one open attempt
  and at most 64 results, so a tick never reports that several attempts need repair.\<close>

theorem single_open_attempt:
  assumes "reachable_state p f"
  shows "(\<forall>s. readFileState f = Inr s \<longrightarrow> length (st_Active s) \<le> 1 \<and> length (st_Finished s) \<le> 64)
    \<and> fst (snd (snd (Tick p env f))) \<noteq> Some MultipleActive"
proof -
  have g: "\<forall>s. readFileState f = Inr s \<longrightarrow> length (st_Active s) \<le> 1 \<and> length (st_Finished s) \<le> 64"
    using reachable_state_good [OF assms] by (simp add: good_state_file_def recovery_ok_def historyLimit_def)
  have act: "length active \<le> 1" if "store_Active (te_active env) f = (Inr active, f')" for active f'
    using that g by (auto simp: store_Active_def dest!: store_locked_Inr)
  have ann: "fst (snd (snd (announced env n u d why a run effs f'))) \<noteq> Some MultipleActive"
    if "fst (snd (run f')) \<noteq> Some MultipleActive" for n u d why a run effs f'
    using that by (auto simp: announced_def Let_def split: prod.splits)
  have fin: "fst (snd (finish e now r x effs f')) \<noteq> Some MultipleActive" for e now r x effs f'
    by (auto simp: finish_def Let_def split: prod.splits sum.splits)
  have "fst (snd (resumeAcquired e ex now a f')) \<noteq> Some MultipleActive" "fst (snd (recoverAcquired e ex now a f')) \<noteq> Some MultipleActive"
    for e ex now a f'
    using fin by (auto simp: resumeAcquired_def recoverAcquired_def Let_def split: sum.splits option.splits)
  note runs = this [THEN ann]
  obtain x f1 where a: "store_Active (te_active env) f = (x, f1)" by fastforce
  have "fst (snd (snd (Tick p env f))) \<noteq> Some MultipleActive"
  proof (cases "te_complete env \<and> (\<exists>active. x = Inr active \<and> active = []) \<and> te_observe env \<noteq> None \<and> te_heartbeat env \<noteq> None")
    case False
    then show ?thesis using a act runs(1)
      by (cases x; cases "projr x"; cases "tl (projr x)") (auto simp: Tick_def split: option.split)
  next
    case True
    then obtain ob h where oh: "te_observe env = Some ob" "te_heartbeat env = Some h" "x = Inr []" "te_complete env" by auto
    obtain y d f2 where dd: "decide p env ob h f1 = (y, d, f2)" by (metis prod_cases3)
    let ?a = "NewAttempt (ob_ObservedAt ob) (dec_Stuck d)"
    obtain z f3 where b: "store_Begin (te_begin env) ?a f2 = (z, f3)" by fastforce
    show ?thesis using oh a dd b runs(2) by (auto simp: Tick_def Let_def split: sum.split option.split)
  qed
  then show ?thesis using g by blast
qed

theorem single_open_attempt_witness:
  "\<exists>s. readFileState (snd (store_Begin writable_env \<lparr>at_ID = ''x'', at_StartedAt = 1, at_Stuck = [''i'']\<rparr> NoState)) = Inr s
     \<and> length (st_Active s) = 1 \<and> length (st_Finished s) \<le> 64"
proof -
  let ?f = "snd (store_Begin writable_env \<lparr>at_ID = ''x'', at_StartedAt = 1, at_Stuck = [''i'']\<rparr> NoState)"
  have r: "reachable_state sample_recovery_policy ?f" by (intro reachable_state.begin_other reachable_state.start)
  have "case readFileState ?f of Inr s \<Rightarrow> length (st_Active s) = 1 | Inl e \<Rightarrow> False" by code_simp
  with single_open_attempt [OF r] show ?thesis by (auto split: sum.splits)
qed

text \<open>A recovery result accounts for every stuck identity exactly once, whatever the executor does: the
  progressed and the remaining ones split the attempt's identities; only a verified report without
  remaining ones, after a checkpoint and a restart that succeeded, counts as recovered. Resuming an interrupted attempt never restarts the dispatcher.\<close>

theorem recovery_result_accounts:
  shows "(case recoverAcquired env ex now a f of (r, err, f', effs) \<Rightarrow>
       mset (rr_Progressed r) + mset (rr_Remaining r) = mset (at_Stuck a) \<and> rr_AttemptID r = at_ID a
       \<and> (rr_Recovered r \<longleftrightarrow> rr_Error r = None) \<and> (rr_Recovered r \<longleftrightarrow> (\<exists>q. await_progress ex a = Inr (q, [])
            \<and> ex_Restart ex \<and> ex_Checkpoint ex \<noteq> None)))
    \<and> (case resumeAcquired env ex now a f of (r, err, f', effs) \<Rightarrow>
       mset (rr_Progressed r) + mset (rr_Remaining r) = mset (at_Stuck a) \<and> DoRestart \<notin> set effs
       \<and> (rr_Recovered r \<longleftrightarrow> (\<exists>q. await_progress ex a = Inr (q, []))))"
proof
  note part = await_progress_partition [where ex = ex and a = a]
  show "case recoverAcquired env ex now a f of (r, err, f', effs) \<Rightarrow>
       mset (rr_Progressed r) + mset (rr_Remaining r) = mset (at_Stuck a) \<and> rr_AttemptID r = at_ID a
       \<and> (rr_Recovered r \<longleftrightarrow> rr_Error r = None) \<and> (rr_Recovered r \<longleftrightarrow> (\<exists>q. await_progress ex a = Inr (q, [])
            \<and> ex_Restart ex \<and> ex_Checkpoint ex \<noteq> None))"
    using part finish_result
    by (auto simp: recoverAcquired_def Let_def zero_recovery_result_def finish_def split: option.splits sum.splits prod.splits)
  show "case resumeAcquired env ex now a f of (r, err, f', effs) \<Rightarrow>
       mset (rr_Progressed r) + mset (rr_Remaining r) = mset (at_Stuck a) \<and> DoRestart \<notin> set effs
       \<and> (rr_Recovered r \<longleftrightarrow> (\<exists>q. await_progress ex a = Inr (q, [])))"
    using part
    by (auto simp: resumeAcquired_def Let_def zero_recovery_result_def finish_def split: option.splits sum.splits prod.splits)
qed

end
