(* ===== verification/Vanished_Job.thy ===== *)
theory Vanished_Job
  imports Durable_Store
begin

text \<open>
  Recovery of jobs whose runner vanished (\<open>src/internal/vanishedjob\<close>): the policy and the decision of
  \<open>policy.go\<close> and \<open>state.go\<close>, the record file of \<open>store.go\<close> and the controller of \<open>controller.go\<close>. The run
  client and the event sink are outcomes of the environment; what the controller asks of them is the
  list of effects. The record file is an instance of the durable-store contract. The theorems say
  when a run may be cancelled or rerun, that a recorded rerun is the last request for its run, and
  that a rerun decided in the detected stage is never recorded and so is repeated.
\<close>

section \<open>Data\<close>

datatype Stage = StageDetected | StageCancelRequested | StageRerunRequested | StageOther string

datatype Action =
    ActionUnset | ActionNone | ActionIncident | ActionForceCancel | ActionAwaitCancel | ActionFullRerun | ActionAwaitRerun
  | ActionComplete

datatype Mode = ModeObserve | ModeFullRerun | ModeOther string

record vanished_policy =
  vp_SchemaVersion :: int
  vp_MissingRunnerGraceSeconds :: int
  vp_ScaleSets :: "Mode gomap"

record vanished_job =
  vj_Repository :: string
  vj_ScaleSet :: string
  vj_RunID :: int
  vj_JobID :: int
  vj_RunnerID :: int
  vj_RunnerName :: string
  vj_JobStatus :: string
  vj_StartedAt :: time
  vj_RunnerPresent :: bool
  vj_RunStatus :: string
  vj_RunConclusion :: string
  vj_RunAttempt :: int

record vanished_record =
  vr_Repository :: string
  vr_RunID :: int
  vr_JobID :: int
  vr_RunnerID :: int
  vr_RunnerName :: string
  vr_ScaleSet :: string
  vr_OriginalAttempt :: int
  vr_Stage :: Stage
  vr_UpdatedAt :: time

record vanished_decision =
  vd_Action :: Action
  vd_Reason :: string
  vd_Record :: "vanished_record option"

record vanished_result =
  vres_Key :: string
  vres_OriginalAttempt :: int
  vres_ReplacementAttempt :: int
  vres_Conclusion :: string
  vres_FinishedAt :: time

datatype vanished_error =
    PolicyInvalid | ScaleSetPolicyInvalid | JobIdentityIncomplete | RecoveryIdentityChanged | StageInvalid
  | RecordInvalid | TransitionInvalid | StageChanged | ResultInvalid | FinishIdentityChanged
  | MultipleRecoveries | VPathsUnsafe | VStoreLock | VStoreInvalid | VStoreWrite
  | VControllerIncomplete | CancelFailed | RerunFailed | VEmitFailed

section \<open>Policy and decision (\<open>policy.go\<close>, \<open>state.go\<close>)\<close>

definition vanished_policy_Validate :: "vanished_policy \<Rightarrow> vanished_error option" where
  "vanished_policy_Validate p = checks [
     (vp_SchemaVersion p \<noteq> 1 \<or> vp_MissingRunnerGraceSeconds p < 60 \<or> vp_MissingRunnerGraceSeconds p > 3600
        \<or> vp_ScaleSets p = [], PolicyInvalid),
     (list_ex (\<lambda>(name, mode). name = [] \<or> mode \<noteq> ModeObserve \<and> mode \<noteq> ModeFullRerun) (vp_ScaleSets p), ScaleSetPolicyInvalid)]"

definition Grace :: "vanished_policy \<Rightarrow> duration" where
  "Grace p = vp_MissingRunnerGraceSeconds p * second"

definition vdecide :: "Action \<Rightarrow> string \<Rightarrow> vanished_record option \<Rightarrow> vanished_decision" where
  "vdecide a why r = \<lparr>vd_Action = a, vd_Reason = why, vd_Record = r\<rparr>"

definition no_vdecision :: vanished_decision where "no_vdecision = vdecide ActionUnset [] None"

definition evaluate_new :: "vanished_policy \<Rightarrow> Mode \<Rightarrow> vanished_job \<Rightarrow> time \<Rightarrow> vanished_error + vanished_decision" where
  "evaluate_new p mode job now =
     (if vj_Repository job = [] \<or> vj_RunID job \<le> 0 \<or> vj_JobID job \<le> 0 \<or> vj_RunnerID job \<le> 0 \<or> vj_RunnerName job = []
         \<or> vj_RunAttempt job \<le> 0 \<or> is_zero (vj_StartedAt job)
      then Inl JobIdentityIncomplete
      else if vj_JobStatus job \<noteq> ''in_progress'' \<or> vj_RunnerPresent job \<or> time_sub now (vj_StartedAt job) < Grace p
      then Inr (vdecide ActionNone ''no-aged-vanished-runner'' None)
      else (let r = \<lparr>vr_Repository = vj_Repository job, vr_RunID = vj_RunID job, vr_JobID = vj_JobID job,
                     vr_RunnerID = vj_RunnerID job, vr_RunnerName = vj_RunnerName job, vr_ScaleSet = vj_ScaleSet job,
                     vr_OriginalAttempt = vj_RunAttempt job, vr_Stage = StageDetected, vr_UpdatedAt = now\<rparr>
            in if mode = ModeObserve
               then Inr (vdecide ActionIncident ''side-effecting-workflow-requires-policy'' (Some r))
               else Inr (vdecide ActionForceCancel ''aged-job-runner-absent'' (Some r))))"

definition same_subject :: "vanished_record \<Rightarrow> vanished_job \<Rightarrow> bool" where
  "same_subject r job \<longleftrightarrow>
     vr_Repository r = vj_Repository job \<and> vr_RunID r = vj_RunID job \<and> vr_JobID r = vj_JobID job
     \<and> vr_RunnerID r = vj_RunnerID job \<and> vr_RunnerName r = vj_RunnerName job \<and> vr_ScaleSet r = vj_ScaleSet job
     \<and> \<not> vr_OriginalAttempt r < 1"

definition evaluate_existing :: "vanished_job \<Rightarrow> vanished_record \<Rightarrow> vanished_error + vanished_decision" where
  "evaluate_existing job r =
     (if \<not> same_subject r job then Inl RecoveryIdentityChanged
      else if vj_RunAttempt job > vr_OriginalAttempt r
      then (if vj_RunStatus job = ''completed'' then Inr (vdecide ActionComplete ''replacement-attempt-terminal'' (Some r))
            else Inr (vdecide ActionAwaitRerun ''replacement-attempt-active'' (Some r)))
      else (case vr_Stage r of
              StageDetected \<Rightarrow>
                if vj_RunStatus job = ''completed'' then Inr (vdecide ActionFullRerun ''force-cancel-became-terminal'' (Some r))
                else Inr (vdecide ActionForceCancel ''resume-force-cancel'' (Some r))
            | StageCancelRequested \<Rightarrow>
                if vj_RunStatus job = ''completed'' then Inr (vdecide ActionFullRerun ''cancel-terminal'' (Some r))
                else Inr (vdecide ActionAwaitCancel ''cancel-in-progress'' (Some r))
            | StageRerunRequested \<Rightarrow> Inr (vdecide ActionAwaitRerun ''rerun-attempt-not-visible'' (Some r))
            | StageOther s \<Rightarrow> Inl StageInvalid))"

definition vanished_Evaluate ::
    "vanished_policy \<Rightarrow> vanished_job \<Rightarrow> vanished_record option \<Rightarrow> time \<Rightarrow> vanished_error + vanished_decision" where
  "vanished_Evaluate p job existing now =
     (case vanished_policy_Validate p of
        Some e \<Rightarrow> Inl e
      | None \<Rightarrow>
        (case get (vp_ScaleSets p) (vj_ScaleSet job) of
           None \<Rightarrow> Inr (vdecide ActionNone ''scale-set-unconfigured'' None)
         | Some mode \<Rightarrow>
           (case existing of None \<Rightarrow> evaluate_new p mode job now | Some r \<Rightarrow> evaluate_existing job r)))"

section \<open>The record file (\<open>store.go\<close>)\<close>

definition recoveryHistoryLimit :: nat where "recoveryHistoryLimit = 128"

definition RecordKey :: "string \<Rightarrow> int \<Rightarrow> int \<Rightarrow> string" where
  "RecordKey repository runID attempt =
     repository @ ''/runs/'' @ format_int runID @ ''/attempts/'' @ format_int attempt"

definition record_key :: "vanished_record \<Rightarrow> string" where
  "record_key r = RecordKey (vr_Repository r) (vr_RunID r) (vr_OriginalAttempt r)"

definition record_Validate :: "vanished_record \<Rightarrow> vanished_error option" where
  "record_Validate r =
     (let parts = split_on CHR ''/'' (vr_Repository r)
      in if length parts \<noteq> 2 \<or> parts ! 0 = [] \<or> parts ! 1 = [] \<or> vr_RunID r \<le> 0 \<or> vr_JobID r \<le> 0 \<or> vr_RunnerID r \<le> 0
            \<or> trim_space (vr_RunnerName r) = [] \<or> trim_space (vr_ScaleSet r) = [] \<or> vr_OriginalAttempt r \<le> 0
            \<or> is_zero (vr_UpdatedAt r)
            \<or> vr_Stage r \<noteq> StageDetected \<and> vr_Stage r \<noteq> StageCancelRequested \<and> vr_Stage r \<noteq> StageRerunRequested
         then Some RecordInvalid else None)"

record vanished_state =
  vs_Generation :: uint64
  vs_Records :: "vanished_record gomap"
  vs_Finished :: "vanished_result list"

datatype vanished_file = NoRecords | BadRecords | RecordsFile vanished_state

text \<open>A file that is too large, does not decode, has another schema or a null record map is a bad file.\<close>

definition readState :: "vanished_file \<Rightarrow> vanished_error + vanished_state" where
  "readState f =
     (case f of
        NoRecords \<Rightarrow> Inr \<lparr>vs_Generation = 0, vs_Records = [], vs_Finished = []\<rparr>
      | BadRecords \<Rightarrow> Inl VStoreInvalid
      | RecordsFile s \<Rightarrow>
          if list_ex (\<lambda>(key, r). record_Validate r \<noteq> None \<or> key \<noteq> record_key r) (vs_Records s)
          then Inl VStoreInvalid else Inr s)"

definition vlocked ::
    "store_env \<Rightarrow> (vanished_state \<Rightarrow> vanished_error + vanished_state option \<times> 'r) \<Rightarrow> vanished_file
      \<Rightarrow> (vanished_error + 'r) \<times> vanished_file" where
  "vlocked env update f =
     (if \<not> env_locked env then (Inl VStoreLock, f)
      else (case readState f of
              Inl e \<Rightarrow> (Inl e, f)
            | Inr s \<Rightarrow>
              (case update s of
                 Inl e \<Rightarrow> (Inl e, f)
               | Inr (None, r) \<Rightarrow> (Inr r, f)
               | Inr (Some s', r) \<Rightarrow>
                   publish (env_write env) VStoreWrite r f (RecordsFile (s'\<lparr>vs_Generation := vs_Generation s' + 1\<rparr>)))))"

text \<open>Reading needs safe paths; an absent file reads as empty without taking the lock.\<close>

definition vread :: "bool \<Rightarrow> store_env \<Rightarrow> vanished_file \<Rightarrow> vanished_error + vanished_state" where
  "vread safe env f =
     (if \<not> safe then Inl VPathsUnsafe
      else (case f of
              NoRecords \<Rightarrow> Inr \<lparr>vs_Generation = 0, vs_Records = [], vs_Finished = []\<rparr>
            | _ \<Rightarrow> if \<not> env_locked env then Inl VStoreLock else readState f))"

definition store_Get :: "bool \<Rightarrow> store_env \<Rightarrow> string \<Rightarrow> vanished_file \<Rightarrow> vanished_error + vanished_record option" where
  "store_Get safe env key f = (case vread safe env f of Inl e \<Rightarrow> Inl e | Inr s \<Rightarrow> Inr (get (vs_Records s) key))"

definition ForRun :: "bool \<Rightarrow> store_env \<Rightarrow> string \<Rightarrow> int \<Rightarrow> vanished_file \<Rightarrow> vanished_error + (vanished_record \<times> string) option" where
  "ForRun safe env repository runID f =
     (case vread safe env f of
        Inl e \<Rightarrow> Inl e
      | Inr s \<Rightarrow>
        (case filter (\<lambda>(key, r). vr_Repository r = repository \<and> vr_RunID r = runID) (vs_Records s) of
           [] \<Rightarrow> Inr None
         | [(key, r)] \<Rightarrow> Inr (Some (r, key))
         | _ \<Rightarrow> Inl MultipleRecoveries))"

definition vbegin_update :: "vanished_record \<Rightarrow> vanished_state \<Rightarrow> vanished_error + vanished_state option \<times> bool" where
  "vbegin_update r s =
     (let key = record_key r
      in if has (vs_Records s) key then Inr (None, False)
         else if list_ex (\<lambda>x. vres_Key x = key) (vs_Finished s) then Inr (None, False)
         else Inr (Some (s\<lparr>vs_Records := put key r (vs_Records s)\<rparr>), True))"

definition vstore_Begin :: "store_env \<Rightarrow> vanished_record \<Rightarrow> vanished_file \<Rightarrow> (vanished_error + bool) \<times> vanished_file" where
  "vstore_Begin env r f =
     (case record_Validate r of Some e \<Rightarrow> (Inl e, f) | None \<Rightarrow> vlocked env (vbegin_update r) f)"

definition transition_bad :: "Stage \<Rightarrow> Stage \<Rightarrow> time \<Rightarrow> bool" where
  "transition_bad expected next_stage when_at \<longleftrightarrow>
     is_zero when_at \<or> expected = StageDetected \<and> next_stage \<noteq> StageCancelRequested
     \<or> expected = StageCancelRequested \<and> next_stage \<noteq> StageRerunRequested \<or> expected = StageRerunRequested"

definition advance_update ::
    "string \<Rightarrow> Stage \<Rightarrow> Stage \<Rightarrow> time \<Rightarrow> vanished_state \<Rightarrow> vanished_error + vanished_state option \<times> unit" where
  "advance_update key expected next_stage when_at s =
     (case get (vs_Records s) key of
        None \<Rightarrow> Inl StageChanged
      | Some r \<Rightarrow>
        if vr_Stage r \<noteq> expected then Inl StageChanged
        else Inr (Some (s\<lparr>vs_Records := put key (r\<lparr>vr_Stage := next_stage, vr_UpdatedAt := when_at\<rparr>) (vs_Records s)\<rparr>), ()))"

definition vstore_Advance ::
    "store_env \<Rightarrow> string \<Rightarrow> Stage \<Rightarrow> Stage \<Rightarrow> time \<Rightarrow> vanished_file \<Rightarrow> (vanished_error + unit) \<times> vanished_file" where
  "vstore_Advance env key expected next_stage when_at f =
     (if transition_bad expected next_stage when_at then (Inl TransitionInvalid, f)
      else vlocked env (advance_update key expected next_stage when_at) f)"

definition vfinish_update :: "string \<Rightarrow> Stage \<Rightarrow> vanished_result \<Rightarrow> vanished_state \<Rightarrow> vanished_error + vanished_state option \<times> unit" where
  "vfinish_update key expected res s =
     (case get (vs_Records s) key of
        None \<Rightarrow> Inl FinishIdentityChanged
      | Some r \<Rightarrow>
        if vr_Stage r \<noteq> expected \<or> vres_Key res \<noteq> key \<or> vres_OriginalAttempt res \<noteq> vr_OriginalAttempt r
           \<or> is_zero (vres_FinishedAt res)
        then Inl FinishIdentityChanged
        else (let finished = vs_Finished s @ [res]
              in Inr (Some (s\<lparr>vs_Records := del key (vs_Records s),
                              vs_Finished := (if length finished > recoveryHistoryLimit
                                              then drop (length finished - recoveryHistoryLimit) finished else finished)\<rparr>), ())))"

definition vstore_Finish ::
    "store_env \<Rightarrow> string \<Rightarrow> Stage \<Rightarrow> vanished_result \<Rightarrow> vanished_file \<Rightarrow> (vanished_error + unit) \<times> vanished_file" where
  "vstore_Finish env key expected res f =
     (if vres_ReplacementAttempt res \<le> vres_OriginalAttempt res \<or> vres_Conclusion res = [] then (Inl ResultInvalid, f)
      else vlocked env (vfinish_update key expected res) f)"

section \<open>The controller (\<open>controller.go\<close>)\<close>

datatype run_effect = ForceCancel string int | FullRerun string int | VEmit Action "vanished_error option"

record vanished_env =
  ve_complete :: bool
  ve_paths :: bool
  ve_read :: store_env
  ve_begin :: store_env
  ve_write :: store_env
  ve_cancel :: bool
  ve_rerun :: bool
  ve_emit :: bool
  ve_now :: time
  ve_after :: time

type_synonym vanished_outcome = "vanished_decision \<times> vanished_error option \<times> vanished_file \<times> run_effect list"

text \<open>Emitting the event that ends a reconciliation, with the error it carries.\<close>

definition vemit ::
    "vanished_env \<Rightarrow> vanished_decision \<Rightarrow> vanished_error option \<Rightarrow> vanished_file \<Rightarrow> run_effect list \<Rightarrow> vanished_outcome" where
  "vemit env d err f effs =
     (d, if ve_emit env then err else Some VEmitFailed, f, effs @ [VEmit (vd_Action d) err])"

definition store_step ::
    "vanished_env \<Rightarrow> vanished_decision \<Rightarrow> run_effect list \<Rightarrow> (vanished_error + unit) \<times> vanished_file \<Rightarrow> vanished_outcome" where
  "store_step env d effs = (\<lambda>(res, f). case res of Inl e \<Rightarrow> vemit env d (Some e) f effs | Inr u \<Rightarrow> vemit env d None f effs)"

definition act ::
    "vanished_env \<Rightarrow> vanished_job \<Rightarrow> vanished_decision \<Rightarrow> vanished_record option \<Rightarrow> string \<Rightarrow> vanished_file \<Rightarrow> vanished_outcome" where
  "act env job d existing key f =
     (case (vd_Action d, existing) of
        (ActionForceCancel, Some r) \<Rightarrow>
          (let effs = [ForceCancel (vj_Repository job) (vj_RunID job)]
           in if \<not> ve_cancel env then vemit env d (Some CancelFailed) f effs
              else if vr_Stage r = StageDetected
              then store_step env d effs (vstore_Advance (ve_write env) key StageDetected StageCancelRequested (ve_after env) f)
              else vemit env d None f effs)
      | (ActionFullRerun, Some r) \<Rightarrow>
          (let effs = [FullRerun (vj_Repository job) (vj_RunID job)]
           in if \<not> ve_rerun env then vemit env d (Some RerunFailed) f effs
              else store_step env d effs (vstore_Advance (ve_write env) key (vr_Stage r) StageRerunRequested (ve_after env) f))
      | (ActionComplete, Some r) \<Rightarrow>
          store_step env d [] (vstore_Finish (ve_write env) key (vr_Stage r)
            \<lparr>vres_Key = key, vres_OriginalAttempt = vr_OriginalAttempt r, vres_ReplacementAttempt = vj_RunAttempt job,
             vres_Conclusion = vj_RunConclusion job, vres_FinishedAt = ve_after env\<rparr> f)
      | _ \<Rightarrow> vemit env d None f [])"

definition find_existing :: "vanished_env \<Rightarrow> vanished_job \<Rightarrow> vanished_file \<Rightarrow> vanished_error + (vanished_record \<times> string) option" where
  "find_existing env job f =
     (let key = RecordKey (vj_Repository job) (vj_RunID job) (vj_RunAttempt job)
      in case store_Get (ve_paths env) (ve_read env) key f of
           Inl e \<Rightarrow> Inl e
         | Inr (Some r) \<Rightarrow> Inr (Some (r, key))
         | Inr None \<Rightarrow> ForRun (ve_paths env) (ve_read env) (vj_Repository job) (vj_RunID job) f)"

definition vanished_Reconcile :: "vanished_policy \<Rightarrow> vanished_env \<Rightarrow> vanished_job \<Rightarrow> vanished_file \<Rightarrow> vanished_outcome" where
  "vanished_Reconcile p env job f =
     (if \<not> ve_complete env then (no_vdecision, Some VControllerIncomplete, f, [])
      else (case find_existing env job f of
        Inl e \<Rightarrow> (no_vdecision, Some e, f, [])
      | Inr found \<Rightarrow>
        (case vanished_Evaluate p job (map_option fst found) (ve_now env) of
           Inl e \<Rightarrow> vemit env no_vdecision (Some e) f []
         | Inr d \<Rightarrow>
           (case found of
              Some (r, key) \<Rightarrow> act env job d (Some r) key f
            | None \<Rightarrow>
              (case (vd_Action d, vd_Record d) of
                 (ActionForceCancel, Some r) \<Rightarrow>
                   (case vstore_Begin (ve_begin env) r f of
                      (Inl e, f') \<Rightarrow> vemit env d (Some e) f' []
                    | (Inr created, f') \<Rightarrow>
                        if \<not> created then (d, None, f', [])
                        else act env job d (Some r) (record_key r) f')
               | _ \<Rightarrow> act env job d None [] f)))))"

section \<open>Runs of the controller\<close>

fun vanished_run ::
    "vanished_policy \<Rightarrow> (vanished_env \<times> vanished_job) list \<Rightarrow> vanished_file \<Rightarrow> vanished_file \<times> run_effect list" where
  "vanished_run p [] f = (f, [])"
| "vanished_run p ((env, job) # rest) f =
     (case vanished_Reconcile p env job f of
        (d, err, f1, effs) \<Rightarrow> (case vanished_run p rest f1 of (f2, later) \<Rightarrow> (f2, effs @ later)))"

definition touches_run :: "string \<Rightarrow> int \<Rightarrow> run_effect \<Rightarrow> bool" where
  "touches_run repo run e \<longleftrightarrow> e = ForceCancel repo run \<or> e = FullRerun repo run"

section \<open>The record file keeps the durable-store contract\<close>

definition records_ok :: "vanished_state \<Rightarrow> bool" where
  "records_ok s \<longleftrightarrow> wf_map (vs_Records s) \<and> length (vs_Finished s) \<le> recoveryHistoryLimit
     \<and> (\<forall>key r. get (vs_Records s) key = Some r \<longrightarrow> record_Validate r = None \<and> key = record_key r)"

definition keeps_records_ok :: "(vanished_state \<Rightarrow> vanished_error + vanished_state option \<times> 'r) \<Rightarrow> bool" where
  "keeps_records_ok u \<longleftrightarrow> (\<forall>s s' r. records_ok s \<longrightarrow> u s = Inr (Some s', r) \<longrightarrow> records_ok s')"

definition good_records :: "vanished_file \<Rightarrow> bool" where
  "good_records f \<longleftrightarrow> (\<forall>s. readState f = Inr s \<longrightarrow> records_ok s)"

definition write_durable :: "store_env \<Rightarrow> bool" where
  "write_durable env \<longleftrightarrow> env_write env \<noteq> WriteFailsAfterRename"

lemma readState_ok: "records_ok s \<Longrightarrow> readState (RecordsFile s) = Inr s"
  by (auto simp: readState_def records_ok_def list_ex_iff get_iff_mem)

lemma records_ok_generation [simp]: "records_ok (s\<lparr>vs_Generation := g\<rparr>) \<longleftrightarrow> records_ok s"
  by (simp add: records_ok_def)

lemma vlocked_cases:
  assumes "vlocked env u f = (res, f')"
  obtains "f' = f"
  | s s' r where "readState f = Inr s" "u s = Inr (Some s', r)" "f' = RecordsFile (s'\<lparr>vs_Generation := vs_Generation s' + 1\<rparr>)"
  using assms unfolding vlocked_def publish_def
  by (auto split: if_splits sum.splits option.splits prod.splits write_outcome.splits)

interpretation vs: durable_store
  "vlocked :: store_env \<Rightarrow> (vanished_state \<Rightarrow> vanished_error + vanished_state option \<times> 'r) \<Rightarrow> vanished_file
    \<Rightarrow> (vanished_error + 'r) \<times> vanished_file"
  readState records_ok keeps_records_ok write_durable good_records
proof
  fix f env and op :: "vanished_state \<Rightarrow> vanished_error + vanished_state option \<times> 'r"
  assume f: "good_records f" and op: "keeps_records_ok op"
  obtain res f' where e: "vlocked env op f = (res, f')" by fastforce
  have pub: "f' = f \<or> (\<exists>s. f' = RecordsFile s \<and> records_ok s)"
    using e by (rule vlocked_cases) (use f op in \<open>auto simp: good_records_def keeps_records_ok_def\<close>)
  then show "good_records (snd (vlocked env op f))"
    using f e by (auto simp: good_records_def readState_ok)
  show "\<exists>j. readState (snd (vlocked env op f)) = Inr j \<and> records_ok j"
    if "snd (vlocked env op f) \<noteq> f" using pub that e by (auto simp: readState_ok)
next
  fix env f e and op :: "vanished_state \<Rightarrow> vanished_error + vanished_state option \<times> 'r"
  assume "write_durable env" "fst (vlocked env op f) = Inl e"
  then show "snd (vlocked env op f) = f"
    by (auto simp: vlocked_def publish_def write_durable_def
        split: if_splits sum.splits option.splits prod.splits write_outcome.splits)
qed

lemma record_key_update [simp]: "record_key (r\<lparr>vr_Stage := st, vr_UpdatedAt := t\<rparr>) = record_key r"
  by (simp add: record_key_def)

lemma keeps_vbegin: "record_Validate r = None \<Longrightarrow> keeps_records_ok (vbegin_update r)"
  by (auto simp: keeps_records_ok_def vbegin_update_def records_ok_def Let_def map_simps split: if_splits)

lemma record_Validate_advance:
  "record_Validate r = None \<Longrightarrow> \<not> transition_bad (vr_Stage r) nx t \<Longrightarrow>
    record_Validate (r\<lparr>vr_Stage := nx, vr_UpdatedAt := t\<rparr>) = None"
  by (auto simp: record_Validate_def transition_bad_def Let_def split: if_splits)

lemma keeps_advance: "\<not> transition_bad ex nx t \<Longrightarrow> keeps_records_ok (advance_update key ex nx t)"
  by (auto simp: keeps_records_ok_def advance_update_def records_ok_def record_Validate_advance map_simps
      split: if_splits option.splits)

lemma keeps_vfinish: "keeps_records_ok (vfinish_update key ex res)"
  by (auto simp: keeps_records_ok_def vfinish_update_def records_ok_def Let_def map_simps split: if_splits option.splits)

section \<open>What one reconciliation leaves alone\<close>

definition of_run :: "vanished_job \<Rightarrow> vanished_record \<Rightarrow> bool" where
  "of_run job r \<longleftrightarrow> vr_Repository r = vj_Repository job \<and> vr_RunID r = vj_RunID job"

definition frame :: "vanished_job \<Rightarrow> vanished_file \<Rightarrow> vanished_file \<Rightarrow> bool" where
  "frame job f f' \<longleftrightarrow> (\<forall>s. readState f = Inr s \<longrightarrow> records_ok s \<longrightarrow>
     (\<exists>s'. readState f' = Inr s' \<and> records_ok s' \<and>
        (\<forall>k r. \<not> of_run job r \<longrightarrow> get (vs_Records s') k = Some r \<longleftrightarrow> get (vs_Records s) k = Some r)))"

lemma frame_refl [simp]: "frame job f f"
  by (auto simp: frame_def)

lemma frame_trans: "frame job f g \<Longrightarrow> frame job g h \<Longrightarrow> frame job f h"
  unfolding frame_def by (metis (lifting))

lemma vlocked_frame:
  assumes "vlocked env u f = (res, f')" "keeps_records_ok u"
    and "\<And>s s' x k r. readState f = Inr s \<Longrightarrow> records_ok s \<Longrightarrow> u s = Inr (Some s', x) \<Longrightarrow> \<not> of_run job r \<Longrightarrow>
      get (vs_Records s') k = Some r \<longleftrightarrow> get (vs_Records s) k = Some r"
  shows "frame job f f'"
  using assms(1)
proof (rule vlocked_cases)
  fix s s' r
  assume *: "readState f = Inr s" "u s = Inr (Some s', r)" "f' = RecordsFile (s'\<lparr>vs_Generation := vs_Generation s' + 1\<rparr>)"
  show ?thesis
    unfolding frame_def
  proof (intro allI impI)
    fix t assume t: "readState f = Inr t" "records_ok t"
    then have ok: "records_ok s'" using * assms(2) by (auto simp: keeps_records_ok_def)
    show "\<exists>t'. readState f' = Inr t' \<and> records_ok t' \<and>
        (\<forall>k r. \<not> of_run job r \<longrightarrow> get (vs_Records t') k = Some r \<longleftrightarrow> get (vs_Records t) k = Some r)"
      using ok * t assms(3)
      by (intro exI [of _ "s'\<lparr>vs_Generation := vs_Generation s' + 1\<rparr>"]) (auto simp: readState_ok)
  qed
qed simp

lemma Begin_frame:
  assumes "vstore_Begin env r f = (res, f')" "of_run job r"
  shows "frame job f f'"
proof (cases "record_Validate r")
  case None
  have 1: "vlocked env (vbegin_update r) f = (res, f')" using assms None by (simp add: vstore_Begin_def)
  show ?thesis
    by (rule vlocked_frame [OF 1 keeps_vbegin [OF None]])
      (use assms(2) in \<open>auto simp: vbegin_update_def Let_def has_def map_simps split: if_splits\<close>)
qed (use assms in \<open>simp add: vstore_Begin_def\<close>)

definition holds_run :: "vanished_job \<Rightarrow> string \<Rightarrow> vanished_file \<Rightarrow> bool" where
  "holds_run job key f \<longleftrightarrow> (\<forall>s. readState f = Inr s \<longrightarrow> (\<exists>r. get (vs_Records s) key = Some r \<and> of_run job r))"

lemma of_run_update [simp]: "of_run job (r\<lparr>vr_Stage := st, vr_UpdatedAt := t\<rparr>) = of_run job r"
  by (simp add: of_run_def)

lemma Advance_frame:
  assumes "vstore_Advance env key ex nx t f = (res, f')" "holds_run job key f"
  shows "frame job f f'"
proof (cases "transition_bad ex nx t")
  case False
  have 1: "vlocked env (advance_update key ex nx t) f = (res, f')" using assms False by (simp add: vstore_Advance_def)
  show ?thesis
    by (rule vlocked_frame [OF 1 keeps_advance [OF False]])
      (use assms(2) in \<open>auto simp: advance_update_def holds_run_def map_simps split: if_splits option.splits\<close>)
qed (use assms in \<open>simp add: vstore_Advance_def\<close>)

lemma Finish_frame:
  assumes "vstore_Finish env key ex x f = (res, f')" "holds_run job key f"
  shows "frame job f f'"
proof (cases "vres_ReplacementAttempt x \<le> vres_OriginalAttempt x \<or> vres_Conclusion x = []")
  case False
  have 1: "vlocked env (vfinish_update key ex x) f = (res, f')" using assms False by (simp add: vstore_Finish_def)
  show ?thesis
    by (rule vlocked_frame [OF 1 keeps_vfinish])
      (use assms(2) in \<open>auto simp: vfinish_update_def holds_run_def Let_def map_simps split: if_splits option.splits\<close>)
qed (use assms in \<open>simp add: vstore_Finish_def\<close>)

lemma vemit_parts:
  "vemit env d err f effs = (d', err', f', effs') \<Longrightarrow> f' = f \<and> effs' = effs @ [VEmit (vd_Action d) err]"
  by (auto simp: vemit_def)

lemma store_step_parts:
  "store_step env d effs (res, g) = (d', err', f', effs') \<Longrightarrow> f' = g \<and> (\<exists>e. effs' = effs @ [VEmit (vd_Action d) e])"
  by (auto simp: store_step_def vemit_def split: sum.splits)

lemma act_frame:
  assumes "act env job d existing key f = (d', err, f', effs)" "existing \<noteq> None \<Longrightarrow> holds_run job key f"
  shows "frame job f f'"
proof (cases existing)
  case None
  then show ?thesis using assms by (auto simp: act_def vemit_def split: Action.splits)
next
  case (Some r)
  obtain ra fa where a: "vstore_Advance (ve_write env) key StageDetected StageCancelRequested (ve_after env) f = (ra, fa)" by fastforce
  obtain rb fb where b: "vstore_Advance (ve_write env) key (vr_Stage r) StageRerunRequested (ve_after env) f = (rb, fb)" by fastforce
  obtain rc fc where c: "vstore_Finish (ve_write env) key (vr_Stage r)
      \<lparr>vres_Key = key, vres_OriginalAttempt = vr_OriginalAttempt r, vres_ReplacementAttempt = vj_RunAttempt job,
       vres_Conclusion = vj_RunConclusion job, vres_FinishedAt = ve_after env\<rparr> f = (rc, fc)" by fastforce
  have h: "holds_run job key f" using assms(2) Some by simp
  have "f' = f \<or> f' = fa \<or> f' = fb \<or> f' = fc"
    using assms(1) Some a b c
    by (auto simp: act_def Let_def split: Action.splits if_splits dest!: vemit_parts store_step_parts)
  then show ?thesis using Advance_frame [OF a h] Advance_frame [OF b h] Finish_frame [OF c h] by auto
qed

section \<open>Finding the record and deciding\<close>

lemma vread_readState: "vread safe env f = Inr s \<Longrightarrow> readState f = Inr s"
  by (auto simp: vread_def readState_def split: if_splits vanished_file.splits)

lemma find_existing_get:
  assumes "find_existing env job f = Inr (Some (r, key))" "good_records f"
  shows "\<exists>s. readState f = Inr s \<and> get (vs_Records s) key = Some r"
proof -
  have mem: "get (vs_Records s) key = Some r"
    if "readState f = Inr s" "filter P (vs_Records s) = [(key, r)]" for s P
  proof -
    have "(key, r) \<in> set (filter P (vs_Records s))" by (simp add: that(2))
    then show ?thesis
      using that(1) assms(2) by (auto simp: good_records_def records_ok_def simp flip: get_iff_mem)
  qed
  show ?thesis
    using assms(1) mem
    by (fastforce simp: find_existing_def store_Get_def ForRun_def Let_def split: sum.splits option.splits list.splits
        dest: vread_readState)
qed

lemma find_existing_None:
  assumes "find_existing env job f = Inr None" "good_records f"
  shows "\<exists>s. readState f = Inr s \<and> (\<forall>k r. get (vs_Records s) k = Some r \<longrightarrow> \<not> of_run job r)"
proof -
  obtain s where s: "vread (ve_paths env) (ve_read env) f = Inr s"
    "filter (\<lambda>(key, r). vr_Repository r = vj_Repository job \<and> vr_RunID r = vj_RunID job) (vs_Records s) = []"
    using assms(1) by (auto simp: find_existing_def store_Get_def ForRun_def Let_def split: sum.splits option.splits list.splits)
  have "\<not> of_run job r" if "get (vs_Records s) k = Some r" for k r
    using map_of_SomeD [OF that] s(2) by (auto simp: filter_empty_conv of_run_def)
  then show ?thesis using vread_readState [OF s(1)] by blast
qed

lemma Evaluate_existing_subject:
  "vanished_Evaluate p job (Some r) now = Inr d \<Longrightarrow> vd_Action d \<noteq> ActionNone \<Longrightarrow>
    same_subject r job \<and> vanished_policy_Validate p = None \<and> has (vp_ScaleSets p) (vj_ScaleSet job)"
  by (auto simp: vanished_Evaluate_def evaluate_existing_def vdecide_def has_def
      split: option.splits if_splits Stage.splits)

lemma Evaluate_existing_cancel:
  "vanished_Evaluate p job (Some r) now = Inr d \<Longrightarrow> vd_Action d = ActionForceCancel \<Longrightarrow>
    vr_Stage r = StageDetected \<and> vj_RunAttempt job \<le> vr_OriginalAttempt r \<and> vj_RunStatus job \<noteq> ''completed''"
  by (auto simp: vanished_Evaluate_def evaluate_existing_def vdecide_def split: option.splits if_splits Stage.splits)

lemma Evaluate_existing_rerun:
  "vanished_Evaluate p job (Some r) now = Inr d \<Longrightarrow> vd_Action d = ActionFullRerun \<Longrightarrow>
    vr_Stage r \<in> {StageDetected, StageCancelRequested} \<and> vj_RunAttempt job \<le> vr_OriginalAttempt r
    \<and> vj_RunStatus job = ''completed''"
  by (auto simp: vanished_Evaluate_def evaluate_existing_def vdecide_def split: option.splits if_splits Stage.splits)

definition aged_vanished :: "vanished_policy \<Rightarrow> vanished_job \<Rightarrow> time \<Rightarrow> bool" where
  "aged_vanished p job now \<longleftrightarrow>
     vj_JobStatus job = ''in_progress'' \<and> \<not> vj_RunnerPresent job \<and> Grace p \<le> time_sub now (vj_StartedAt job)"

lemma Evaluate_new_cancel:
  assumes "vanished_Evaluate p job None now = Inr d" "vd_Action d = ActionForceCancel"
  shows "\<exists>r. vd_Record d = Some r \<and> of_run job r \<and> same_subject r job \<and> vr_Stage r = StageDetected
    \<and> aged_vanished p job now \<and> get (vp_ScaleSets p) (vj_ScaleSet job) = Some ModeFullRerun
    \<and> vanished_policy_Validate p = None"
proof -
  have mode: "m = ModeObserve \<or> m = ModeFullRerun"
    if "vanished_policy_Validate p = None" "get (vp_ScaleSets p) (vj_ScaleSet job) = Some m" for m
    using that map_of_SomeD [OF that(2)] by (auto simp: vanished_policy_Validate_def list_ex_iff split: if_splits)
  show ?thesis
    using assms mode
    by (auto simp: vanished_Evaluate_def evaluate_new_def vdecide_def aged_vanished_def of_run_def same_subject_def Let_def
        split: option.splits if_splits)
qed

lemma Evaluate_new_rerun: "vanished_Evaluate p job None now = Inr d \<Longrightarrow> vd_Action d \<notin> {ActionFullRerun, ActionComplete}"
  by (auto simp: vanished_Evaluate_def evaluate_new_def vdecide_def Let_def split: option.splits if_splits)

lemma act_effects:
  assumes "act env job d existing key f = (d', err, f', effs)"
  shows "d' = d \<and> (\<exists>e. effs =
     (if existing = None then [] else case vd_Action d of
        ActionForceCancel \<Rightarrow> [ForceCancel (vj_Repository job) (vj_RunID job)]
      | ActionFullRerun \<Rightarrow> [FullRerun (vj_Repository job) (vj_RunID job)]
      | _ \<Rightarrow> []) @ [VEmit (vd_Action d) e])"
  using assms
  by (cases "vd_Action d"; cases existing)
    (auto simp: act_def vemit_def store_step_def Let_def split: if_splits prod.splits sum.splits)

lemma act_no_record: "act env job d None key f = (d', err, f', effs) \<Longrightarrow> f' = f"
  by (auto simp: act_def vemit_def split: Action.splits)

section \<open>One reconciliation, case by case\<close>

definition quiet :: "run_effect list \<Rightarrow> bool" where
  "quiet effs \<longleftrightarrow> (\<forall>e \<in> set effs. \<forall>repo run. \<not> touches_run repo run e)"

lemma quiet_simps [simp]:
  "quiet []" "quiet (VEmit a e # es) \<longleftrightarrow> quiet es" "\<not> quiet (ForceCancel r n # es)" "\<not> quiet (FullRerun r n # es)"
  by (auto simp: quiet_def touches_run_def)

lemma Reconcile_cases:
  assumes "vanished_Reconcile p env job f = (d, err, f', effs)"
  obtains (idle) "f' = f" "quiet effs"
  | (known) r key where "find_existing env job f = Inr (Some (r, key))"
      "vanished_Evaluate p job (Some r) (ve_now env) = Inr d" "act env job d (Some r) key f = (d, err, f', effs)"
  | (refused) r res where "find_existing env job f = Inr None" "vd_Record d = Some r" "vd_Action d = ActionForceCancel"
      "vanished_Evaluate p job None (ve_now env) = Inr d" "vstore_Begin (ve_begin env) r f = (res, f')" "quiet effs"
  | (fresh) r g where "find_existing env job f = Inr None" "vd_Record d = Some r" "vd_Action d = ActionForceCancel"
      "vanished_Evaluate p job None (ve_now env) = Inr d" "vstore_Begin (ve_begin env) r f = (Inr True, g)"
      "act env job d (Some r) (record_key r) g = (d, err, f', effs)"
proof (cases "ve_complete env")
  case complete: True
  show ?thesis
  proof (cases "find_existing env job f")
    case (Inl e)
    then show ?thesis using assms complete by (intro idle) (auto simp: vanished_Reconcile_def)
  next
    case (Inr found)
    show ?thesis
    proof (cases "vanished_Evaluate p job (map_option fst found) (ve_now env)")
      case (Inl e)
      then show ?thesis
        using assms complete Inr by (intro idle) (auto simp: vanished_Reconcile_def vemit_def)
    next
      case ev: (Inr d1)
      show ?thesis
      proof (cases found)
        case (Some rk)
        obtain r key where rk: "rk = (r, key)" by (cases rk)
        have a: "act env job d1 (Some r) key f = (d, err, f', effs)"
          using assms complete Inr ev Some rk by (simp add: vanished_Reconcile_def)
        then have "d = d1" using act_effects by blast
        then show ?thesis using known [of r key] a Inr ev Some rk by simp
      next
        case None
        show ?thesis
        proof (cases "vd_Action d1 = ActionForceCancel \<and> vd_Record d1 \<noteq> None")
          case True
          then obtain r where r: "vd_Record d1 = Some r" by auto
          obtain res g where b: "vstore_Begin (ve_begin env) r f = (res, g)" by fastforce
          have e: "(case res of Inl e \<Rightarrow> vemit env d1 (Some e) g []
              | Inr created \<Rightarrow> if \<not> created then (d1, None, g, []) else act env job d1 (Some r) (record_key r) g)
              = (d, err, f', effs)"
            using assms complete Inr ev None True r b by (simp add: vanished_Reconcile_def split: sum.splits)
          show ?thesis
          proof (cases "res = Inr True")
            case created: True
            then have a: "act env job d1 (Some r) (record_key r) g = (d, err, f', effs)" using e by simp
            then have "d = d1" using act_effects by blast
            then show ?thesis using fresh [of r g] a b created Inr ev None True r by simp
          next
            case False
            then have "d = d1 \<and> f' = g \<and> quiet effs" using e by (auto simp: vemit_def split: sum.splits)
            then show ?thesis using refused [of r res] b Inr ev None True r by simp
          qed
        next
          case False
          then have a: "act env job d1 None [] f = (d, err, f', effs)"
            using assms complete Inr ev None by (auto simp: vanished_Reconcile_def split: Action.splits option.splits)
          then show ?thesis
            using act_effects [OF a] act_no_record [OF a] by (intro idle) auto
        qed
      qed
    qed
  qed
qed (use assms in \<open>intro idle; auto simp: vanished_Reconcile_def\<close>)

lemma same_subject_of_run: "same_subject r job \<Longrightarrow> of_run job r"
  by (simp add: same_subject_def of_run_def)

lemma Begin_created:
  assumes "vstore_Begin env r f = (Inr True, g)" "good_records f"
  shows "\<exists>s. readState g = Inr s \<and> records_ok s \<and> get (vs_Records s) (record_key r) = Some r"
proof -
  have v: "record_Validate r = None"
    and l: "vlocked env (vbegin_update r) f = (Inr True, g)"
    using assms(1) by (auto simp: vstore_Begin_def split: option.splits)
  obtain s s' where s: "readState f = Inr s" "vbegin_update r s = Inr (Some s', True)"
    "g = RecordsFile (s'\<lparr>vs_Generation := vs_Generation s' + 1\<rparr>)"
    using l by (auto simp: vlocked_def vbegin_update_def publish_def Let_def split: if_splits sum.splits write_outcome.splits)
  have ok: "records_ok s'"
    using keeps_vbegin [OF v] s assms(2) by (auto simp: keeps_records_ok_def good_records_def)
  have "get (vs_Records s') (record_key r) = Some r"
    using s(2) by (auto simp: vbegin_update_def Let_def map_simps split: if_splits)
  then show ?thesis using ok s(3) by (intro exI [of _ "s'\<lparr>vs_Generation := vs_Generation s' + 1\<rparr>"]) (simp add: readState_ok)
qed

lemma Reconcile_frame:
  assumes "vanished_Reconcile p env job f = (d, err, f', effs)" "good_records f"
  shows "frame job f f'"
  using assms(1)
proof (cases rule: Reconcile_cases)
  case idle
  then show ?thesis by simp
next
  case (known r key)
  obtain s where s: "readState f = Inr s" "get (vs_Records s) key = Some r"
    using find_existing_get [OF known(1) assms(2)] by blast
  show ?thesis
  proof (cases "vd_Action d = ActionNone")
    case True
    then have "f' = f" using known(3) by (auto simp: act_def vemit_def)
    then show ?thesis by simp
  next
    case False
    then have "holds_run job key f"
      using Evaluate_existing_subject [OF known(2)] s same_subject_of_run by (auto simp: holds_run_def)
    then show ?thesis using act_frame [OF known(3)] by simp
  qed
next
  case (refused r res)
  then show ?thesis using Begin_frame [OF refused(5)] Evaluate_new_cancel [OF refused(4,3)] by auto
next
  case (fresh r g)
  have r: "of_run job r" using Evaluate_new_cancel [OF fresh(4,3)] fresh(2) by auto
  have "holds_run job (record_key r) g" using Begin_created [OF fresh(5) assms(2)] r by (auto simp: holds_run_def)
  then show ?thesis using frame_trans [OF Begin_frame [OF fresh(5) r] act_frame [OF fresh(6)]] by simp
qed

lemma Reconcile_touches:
  assumes "vanished_Reconcile p env job f = (d, err, f', effs)" "e \<in> set effs" "touches_run repo run e"
  shows "repo = vj_Repository job \<and> run = vj_RunID job"
  using assms(1)
proof (cases rule: Reconcile_cases)
  case idle
  then show ?thesis using assms by (auto simp: quiet_def)
next
  case (known r key)
  then show ?thesis using act_effects [OF known(3)] assms(2,3) by (auto simp: touches_run_def split: Action.splits)
next
  case (refused r res)
  then show ?thesis using assms by (auto simp: quiet_def)
next
  case (fresh r g)
  then show ?thesis using act_effects [OF fresh(6)] assms(2,3) by (auto simp: touches_run_def split: Action.splits)
qed

definition recorded :: "vanished_job \<Rightarrow> string \<Rightarrow> vanished_file \<Rightarrow> bool" where
  "recorded job key f \<longleftrightarrow> (\<exists>s r. readState f = Inr s \<and> records_ok s \<and> get (vs_Records s) key = Some r \<and> of_run job r)"

lemma Advance_recorded:
  assumes "vstore_Advance env key ex nx t f = (res, f')" "recorded job key f"
  shows "recorded job key f'"
proof (cases "transition_bad ex nx t")
  case True
  then show ?thesis using assms by (simp add: vstore_Advance_def)
next
  case False
  have "vlocked env (advance_update key ex nx t) f = (res, f')" using assms False by (simp add: vstore_Advance_def)
  then show ?thesis
  proof (rule vlocked_cases)
    fix s s' x
    assume *: "readState f = Inr s" "advance_update key ex nx t s = Inr (Some s', x)"
      "f' = RecordsFile (s'\<lparr>vs_Generation := vs_Generation s' + 1\<rparr>)"
    obtain r where r: "records_ok s" "get (vs_Records s) key = Some r" "of_run job r"
      using assms(2) *(1) by (auto simp: recorded_def)
    have "records_ok s'" using keeps_advance [OF False, of key] * r by (auto simp: keeps_records_ok_def)
    moreover have "\<exists>r'. get (vs_Records s') key = Some r' \<and> of_run job r'"
      using *(2) r by (auto simp: advance_update_def map_simps split: if_splits)
    ultimately show ?thesis using *(3)
      by (auto simp: recorded_def readState_ok intro!: exI [of _ "s'\<lparr>vs_Generation := vs_Generation s' + 1\<rparr>"])
  qed (use assms in simp)
qed

lemma act_recorded:
  assumes "act env job d (Some r) key f = (d', err, f', effs)" "recorded job key f" "vd_Action d \<noteq> ActionComplete"
  shows "recorded job key f'"
proof -
  obtain ra fa where a: "vstore_Advance (ve_write env) key StageDetected StageCancelRequested (ve_after env) f = (ra, fa)" by fastforce
  obtain rb fb where b: "vstore_Advance (ve_write env) key (vr_Stage r) StageRerunRequested (ve_after env) f = (rb, fb)" by fastforce
  have "f' = f \<or> f' = fa \<or> f' = fb"
    using assms(1,3) a b by (auto simp: act_def Let_def split: Action.splits if_splits dest!: vemit_parts store_step_parts)
  then show ?thesis using Advance_recorded [OF a assms(2)] Advance_recorded [OF b assms(2)] assms(2) by auto
qed

section \<open>Properties\<close>

text \<open>Why a cancel or a rerun of a run was allowed: a record of this very job, in a stage that asks for
  it, or a job whose runner has been gone for the whole grace period of a scale set under recovery.\<close>

definition cancel_or_rerun_authorized :: "vanished_policy \<Rightarrow> vanished_env \<Rightarrow> vanished_job \<Rightarrow> vanished_file \<Rightarrow> run_effect \<Rightarrow> bool" where
  "cancel_or_rerun_authorized p env job f e \<longleftrightarrow>
     (\<exists>s. readState f = Inr s \<and>
        ((\<exists>key r. get (vs_Records s) key = Some r \<and> same_subject r job \<and> vj_RunAttempt job \<le> vr_OriginalAttempt r
            \<and> (case e of
                 ForceCancel repo run \<Rightarrow> vr_Stage r = StageDetected \<and> vj_RunStatus job \<noteq> ''completed''
               | FullRerun repo run \<Rightarrow>
                   vr_Stage r \<in> {StageDetected, StageCancelRequested} \<and> vj_RunStatus job = ''completed''
               | VEmit a err \<Rightarrow> False))
         \<or> (e = ForceCancel (vj_Repository job) (vj_RunID job)
            \<and> (\<forall>key r. get (vs_Records s) key = Some r \<longrightarrow> \<not> of_run job r)
            \<and> get (vp_ScaleSets p) (vj_ScaleSet job) = Some ModeFullRerun \<and> aged_vanished p job (ve_now env))))"


subsection \<open>The rerun request is the last one\<close>

definition rerun_pending :: "string \<Rightarrow> int \<Rightarrow> int \<Rightarrow> vanished_file \<Rightarrow> bool" where
  "rerun_pending repo run attempt f \<longleftrightarrow>
     (\<exists>s r key. readState f = Inr s \<and> records_ok s \<and> get (vs_Records s) key = Some r
        \<and> vr_Repository r = repo \<and> vr_RunID r = run \<and> vr_OriginalAttempt r = attempt \<and> vr_Stage r = StageRerunRequested
        \<and> (\<forall>k r'. get (vs_Records s) k = Some r' \<and> vr_Repository r' = repo \<and> vr_RunID r' = run \<longrightarrow> k = key))"

lemma pending_same_run:
  assumes "vanished_Reconcile p env job f = (d, err, f', effs)" "rerun_pending repo run attempt f"
    and "vj_Repository job = repo" "vj_RunID job = run" "vj_RunAttempt job \<le> attempt"
  shows "f' = f \<and> quiet effs"
proof -
  obtain s r key where s: "readState f = Inr s" "records_ok s" "get (vs_Records s) key = Some r"
    "vr_Repository r = repo" "vr_RunID r = run" "vr_OriginalAttempt r = attempt" "vr_Stage r = StageRerunRequested"
    and only: "\<And>k r'. get (vs_Records s) k = Some r' \<Longrightarrow> vr_Repository r' = repo \<Longrightarrow> vr_RunID r' = run \<Longrightarrow> k = key"
    using assms(2) unfolding rerun_pending_def by blast
  have good: "good_records f" using s by (simp add: good_records_def)
  have of: "of_run job r" using s assms by (simp add: of_run_def)
  show ?thesis
    using assms(1)
  proof (cases rule: Reconcile_cases)
    case idle
    then show ?thesis by simp
  next
    case (refused x res)
    then show ?thesis using find_existing_None [OF refused(1) good] s of by auto
  next
    case (fresh x g)
    then show ?thesis using find_existing_None [OF fresh(1) good] s of by auto
  next
    case (known x k)
    have x: "get (vs_Records s) k = Some x" using find_existing_get [OF known(1) good] s by auto
    have "vd_Action d = ActionNone \<or> vd_Action d = ActionAwaitRerun"
    proof (rule ccontr)
      assume *: "\<not> ?thesis"
      then have "same_subject x job" using Evaluate_existing_subject [OF known(2)] by auto
      then have "k = key" using only [OF x] assms by (auto simp: same_subject_def)
      then have "x = r" using x s by simp
      then show False using * known(2) s assms(5)
        by (auto simp: vanished_Evaluate_def evaluate_existing_def vdecide_def split: option.splits if_splits)
    qed
    then show ?thesis using known(3) by (auto simp: act_def vemit_def)
  qed
qed

lemma pending_other_run:
  assumes "vanished_Reconcile p env job f = (d, err, f', effs)" "rerun_pending repo run attempt f"
    and "vj_Repository job \<noteq> repo \<or> vj_RunID job \<noteq> run"
  shows "rerun_pending repo run attempt f'"
proof -
  obtain s r key where s: "readState f = Inr s" "records_ok s" "get (vs_Records s) key = Some r"
    "vr_Repository r = repo" "vr_RunID r = run" "vr_OriginalAttempt r = attempt" "vr_Stage r = StageRerunRequested"
    and only: "\<And>k r'. get (vs_Records s) k = Some r' \<Longrightarrow> vr_Repository r' = repo \<Longrightarrow> vr_RunID r' = run \<Longrightarrow> k = key"
    using assms(2) unfolding rerun_pending_def by blast
  have good: "good_records f" using s by (simp add: good_records_def)
  obtain s' where s': "readState f' = Inr s'" "records_ok s'"
    "\<And>k r. \<not> of_run job r \<Longrightarrow> get (vs_Records s') k = Some r \<longleftrightarrow> get (vs_Records s) k = Some r"
    using Reconcile_frame [OF assms(1) good] s by (auto simp: frame_def)
  have other: "\<not> of_run job x" if "vr_Repository x = repo" "vr_RunID x = run" for x
    using that assms(3) by (auto simp: of_run_def)
  have "get (vs_Records s') key = Some r" using s'(3) [OF other] s by simp
  moreover have "k = key" if "get (vs_Records s') k = Some x" "vr_Repository x = repo" "vr_RunID x = run" for k x
    using s'(3) [OF other [OF that(2,3)]] that only by blast
  ultimately show ?thesis unfolding rerun_pending_def using s' s by blast
qed

text \<open>Once the rerun of a run has been recorded, the controller never cancels or reruns that run again while its
  replacement attempt is not visible: over any sequence of reconciliations, of this run and of others, under any store
  and client failures, no further request names the run and its record stays in place.\<close>

theorem rerun_requested_is_final:
  assumes "rerun_pending repo run attempt f"
    and "\<forall>(env, job) \<in> set steps. vj_Repository job = repo \<and> vj_RunID job = run \<longrightarrow> vj_RunAttempt job \<le> attempt"
    and "vanished_run p steps f = (f', effs)"
  shows "rerun_pending repo run attempt f' \<and> (\<forall>e \<in> set effs. \<not> touches_run repo run e)"
  using assms
proof (induction steps arbitrary: f f' effs)
  case Nil
  then show ?case by simp
next
  case (Cons x steps)
  obtain env job where x: "x = (env, job)" by (cases x)
  obtain d err g es where r: "vanished_Reconcile p env job f = (d, err, g, es)" by (cases "vanished_Reconcile p env job f") auto
  obtain later where rest: "vanished_run p steps g = (f', later)" "effs = es @ later"
    using Cons.prems(3) x r by (auto split: prod.splits)
  have step: "rerun_pending repo run attempt g \<and> (\<forall>e \<in> set es. \<not> touches_run repo run e)"
  proof (cases "vj_Repository job = repo \<and> vj_RunID job = run")
    case True
    then show ?thesis using pending_same_run [OF r Cons.prems(1)] Cons.prems(1,2) x by (auto simp: quiet_def)
  next
    case False
    then show ?thesis using pending_other_run [OF r Cons.prems(1)] Reconcile_touches [OF r] by blast
  qed
  then show ?case using Cons.IH [OF _ _ rest(1)] Cons.prems(2) rest(2) by auto
qed

subsection \<open>A rerun from the detected stage is never recorded\<close>

fun n_reruns :: "run_effect list \<Rightarrow> nat" where
  "n_reruns [] = 0"
| "n_reruns (e # es) = (case e of FullRerun repo run \<Rightarrow> 1 | _ \<Rightarrow> 0) + n_reruns es"

lemma n_reruns_append [simp]: "n_reruns (xs @ ys) = n_reruns xs + n_reruns ys"
  by (induction xs) auto

text \<open>C26: A record still in the detected stage whose run has become terminal leads to a full rerun that is never
  recorded: the store refuses the transition from detected to rerun-requested, so every reconciliation of the same
  observation requests one more rerun, reports an error and leaves the file as it was.\<close>

theorem detected_rerun_repeats:
  assumes "readState f = Inr s" "f \<noteq> NoRecords"
    and "get (vs_Records s) (RecordKey (vj_Repository job) (vj_RunID job) (vj_RunAttempt job)) = Some r"
    and "same_subject r job" "vr_Stage r = StageDetected" "vj_RunAttempt job = vr_OriginalAttempt r"
    and "vj_RunStatus job = ''completed''"
    and "vanished_policy_Validate p = None" "has (vp_ScaleSets p) (vj_ScaleSet job)"
    and "ve_complete env" "ve_paths env" "env_locked (ve_read env)" "ve_rerun env"
  shows "(let (f', effs) = vanished_run p (replicate n (env, job)) f in f' = f \<and> n_reruns effs = n)
    \<and> (\<exists>e. fst (snd (vanished_Reconcile p env job f)) = Some e)"
proof -
  have find: "find_existing env job f = Inr (Some (r, RecordKey (vj_Repository job) (vj_RunID job) (vj_RunAttempt job)))"
    using assms by (cases f) (auto simp: find_existing_def store_Get_def vread_def Let_def)
  have ev: "vanished_Evaluate p job (Some r) (ve_now env) = Inr (vdecide ActionFullRerun ''force-cancel-became-terminal'' (Some r))"
    using assms by (auto simp: vanished_Evaluate_def evaluate_existing_def has_def)
  have step: "\<exists>d err x. vanished_Reconcile p env job f =
      (d, Some err, f, [FullRerun (vj_Repository job) (vj_RunID job), VEmit ActionFullRerun x])"
    using assms find ev
    by (auto simp: vanished_Reconcile_def act_def vdecide_def Let_def vstore_Advance_def transition_bad_def store_step_def vemit_def)
  have "vanished_run p (replicate n (env, job)) f = (f', effs) \<Longrightarrow> f' = f \<and> n_reruns effs = n" for f' effs
    using step by (induction n arbitrary: f' effs) (auto split: prod.splits)
  then show ?thesis using step by fastforce
qed

section \<open>Witnesses\<close>

definition demo_vpolicy :: vanished_policy where
  "demo_vpolicy = \<lparr>vp_SchemaVersion = 1, vp_MissingRunnerGraceSeconds = 300, vp_ScaleSets = [(''linux-x64'', ModeFullRerun)]\<rparr>"

definition demo_vjob :: vanished_job where
  "demo_vjob = \<lparr>vj_Repository = ''org/app'', vj_ScaleSet = ''linux-x64'', vj_RunID = 77, vj_JobID = 5, vj_RunnerID = 9,
     vj_RunnerName = ''runner-9'', vj_JobStatus = ''in_progress'', vj_StartedAt = 1000 * second, vj_RunnerPresent = False,
     vj_RunStatus = ''in_progress'', vj_RunConclusion = [], vj_RunAttempt = 1\<rparr>"

definition demo_venv :: vanished_env where
  "demo_venv = \<lparr>ve_complete = True, ve_paths = True,
     ve_read = \<lparr>env_locked = True, env_write = WriteOk, env_now = 2000 * second\<rparr>,
     ve_begin = \<lparr>env_locked = True, env_write = WriteOk, env_now = 2000 * second\<rparr>,
     ve_write = \<lparr>env_locked = True, env_write = WriteOk, env_now = 2000 * second\<rparr>,
     ve_cancel = True, ve_rerun = True, ve_emit = True, ve_now = 2000 * second, ve_after = 2001 * second\<rparr>"

definition demo_done :: vanished_job where "demo_done = demo_vjob\<lparr>vj_RunStatus := ''completed'', vj_RunConclusion := ''cancelled''\<rparr>"

definition demo_vrecord :: "Stage \<Rightarrow> vanished_record" where
  "demo_vrecord st = \<lparr>vr_Repository = ''org/app'', vr_RunID = 77, vr_JobID = 5, vr_RunnerID = 9, vr_RunnerName = ''runner-9'',
     vr_ScaleSet = ''linux-x64'', vr_OriginalAttempt = 1, vr_Stage = st, vr_UpdatedAt = 2000 * second\<rparr>"

definition demo_vstate :: "Stage \<Rightarrow> vanished_state" where
  "demo_vstate st = \<lparr>vs_Generation = 1, vs_Records = [(''org/app/runs/77/attempts/1'', demo_vrecord st)], vs_Finished = []\<rparr>"

lemmas demo_vdefs = demo_vpolicy_def demo_vjob_def demo_venv_def demo_done_def demo_vrecord_def demo_vstate_def

lemma demo_vstate_read:
  assumes "st \<in> {StageDetected, StageCancelRequested, StageRerunRequested}"
  shows "readState (RecordsFile (demo_vstate st)) = Inr (demo_vstate st)" "records_ok (demo_vstate st)"
proof -
  have "record_Validate (demo_vrecord st) = None" "record_key (demo_vrecord st) = ''org/app/runs/77/attempts/1''"
    using assms by (elim insertE emptyE; simp; code_simp)+
  then show "readState (RecordsFile (demo_vstate st)) = Inr (demo_vstate st)" "records_ok (demo_vstate st)"
    by (simp_all add: readState_def records_ok_def demo_vstate_def wf_map_def keys_def)
qed

lemma good_NoRecords: "good_records NoRecords"
  by (simp add: good_records_def readState_def records_ok_def wf_map_def keys_def)


theorem rerun_requested_is_final_witness:
  "rerun_pending ''org/app'' 77 1
     (fst (vanished_run demo_vpolicy (replicate 3 (demo_venv, demo_done)) (RecordsFile (demo_vstate StageRerunRequested))))"
proof -
  let ?f = "RecordsFile (demo_vstate StageRerunRequested)"
  have "rerun_pending ''org/app'' 77 1 ?f"
    using demo_vstate_read [of StageRerunRequested]
    by (auto simp: rerun_pending_def demo_vstate_def demo_vrecord_def split: if_splits)
  moreover have "\<forall>(env, job) \<in> set (replicate 3 (demo_venv, demo_done)).
      vj_Repository job = ''org/app'' \<and> vj_RunID job = 77 \<longrightarrow> vj_RunAttempt job \<le> 1"
    by (simp add: demo_done_def demo_vjob_def)
  ultimately show ?thesis using rerun_requested_is_final surjective_pairing by blast
qed

theorem detected_rerun_repeats_witness:
  "let f = fst (vanished_run demo_vpolicy [(demo_venv\<lparr>ve_cancel := False\<rparr>, demo_vjob)] NoRecords);
       (f', effs) = vanished_run demo_vpolicy (replicate 2 (demo_venv, demo_done)) f
   in f' = f \<and> n_reruns effs = 2"
proof -
  let ?f = "RecordsFile (demo_vstate StageDetected)"
  have f: "fst (vanished_run demo_vpolicy [(demo_venv\<lparr>ve_cancel := False\<rparr>, demo_vjob)] NoRecords) = ?f" by code_simp
  have "let (f', effs) = vanished_run demo_vpolicy (replicate 2 (demo_venv, demo_done)) ?f in f' = ?f \<and> n_reruns effs = 2"
  proof (rule detected_rerun_repeats [THEN conjunct1])
    show "readState ?f = Inr (demo_vstate StageDetected)" using demo_vstate_read by simp
    show "get (vs_Records (demo_vstate StageDetected))
        (RecordKey (vj_Repository demo_done) (vj_RunID demo_done) (vj_RunAttempt demo_done)) = Some (demo_vrecord StageDetected)"
      by code_simp
    show "same_subject (demo_vrecord StageDetected) demo_done" by code_simp
    show "vanished_policy_Validate demo_vpolicy = None" by code_simp
    show "has (vp_ScaleSets demo_vpolicy) (vj_ScaleSet demo_done)" by code_simp
  qed (simp_all add: demo_vdefs)
  then show ?thesis using f by simp
qed

end
