(* ===== verification/Tenant_Registry.thy ===== *)
theory Tenant_Registry
  imports Go_Prelude
begin

text \<open>
  The tenants of the fleet (\<open>src/internal/tenant\<close>): the built-in table and its accessors of \<open>tenant.go\<close>, the registry
  document and its validation of \<open>registry.go\<close>. Decoding the YAML text is not modelled: a registry is its decoded
  value. The theorem states what a registry that validates guarantees to the components that trust it.
\<close>

section \<open>Tenants (\<open>tenant.go\<close>)\<close>

record Tenant =
  t_ID :: string
  t_Owner :: string
  t_Repository :: string
  t_ManagedRepositories :: "string list"
  t_AppSlug :: string
  t_CredentialName :: string
  t_HomepageURL :: string
  t_ServesWholeAccount :: bool
  t_ScaleSetRepositories :: "string gomap"

datatype tenant_error =
    UnknownTenant string | NotManaged string | TenantFieldMissing string | RepositoryOutsideOwner string
  | HomepageMismatch string | ManagedUnsorted string | ManagedOutsideOwner string | ManagedDuplicate string
  | ScaleSetUnmanaged string | PrimaryUnmanaged string
  | RegistryIncomplete | RowsUnsorted | OwnerShared string | ScaleSetBoundTwice string | DefaultAbsent

definition DefaultID :: string where "DefaultID = ''example''"

definition github_url :: "string \<Rightarrow> string" where
  "github_url path = ''https://github.com/'' @ path"

definition tenants :: "Tenant gomap" where
  "tenants = [
     (DefaultID, \<lparr>t_ID = DefaultID, t_Owner = ''example-org'', t_Repository = ''example-org/example-actions'',
        t_ManagedRepositories = [''example-org/example-actions'', ''example-org/example-library''],
        t_AppSlug = ''example-actions-fleet'', t_CredentialName = ''example-actions-fleet'',
        t_HomepageURL = ''https://github.com/example-org/example-actions'', t_ServesWholeAccount = True,
        t_ScaleSetRepositories = [
          (''nddev-priority-integration'', ''example-org/example-library''),
          (''nddev-priority-standard'', ''example-org/example-library''),
          (''nddev-priority-untrusted'', ''example-org/example-library'')]\<rparr>),
     (''example-guild'', \<lparr>t_ID = ''example-guild'', t_Owner = ''example-guild'', t_Repository = ''example-guild/example-project'',
        t_ManagedRepositories = [''example-guild/example-project''],
        t_AppSlug = ''example-guild-fleet'', t_CredentialName = ''example-guild-fleet'',
        t_HomepageURL = ''https://github.com/example-guild/example-project'', t_ServesWholeAccount = True,
        t_ScaleSetRepositories = []\<rparr>),
     (''example-media'', \<lparr>t_ID = ''example-media'', t_Owner = ''example-media'', t_Repository = ''example-media/example-service'',
        t_ManagedRepositories = [''example-media/example-service''],
        t_AppSlug = ''example-media-fleet'', t_CredentialName = ''example-media-fleet'',
        t_HomepageURL = ''https://github.com/example-media/example-service'', t_ServesWholeAccount = True,
        t_ScaleSetRepositories = []\<rparr>)]"

definition tenant_ByID :: "string \<Rightarrow> tenant_error + Tenant" where
  "tenant_ByID i =
     (let name = (if i = [] then DefaultID else i)
      in case get tenants name of None \<Rightarrow> Inl (UnknownTenant name) | Some t \<Rightarrow> Inr t)"

definition WithRepository :: "Tenant \<Rightarrow> string \<Rightarrow> tenant_error + Tenant" where
  "WithRepository t repository =
     (if repository = [] \<or> repository = t_Repository t then Inr t
      else if repository \<notin> set (t_ManagedRepositories t) then Inl (NotManaged repository)
      else Inr (t\<lparr>t_Repository := repository\<rparr>))"

definition tenant_IDs :: "string list" where
  "tenant_IDs = sort (keys tenants)"

definition RepositoryURLs :: "string set" where
  "RepositoryURLs = set (concat (map (\<lambda>(i, t). map github_url (t_ManagedRepositories t)) tenants))"

definition AccountURLPrefixes :: "string set" where
  "AccountURLPrefixes = set (map (\<lambda>(i, t). github_url (t_Owner t @ ''/'')) (filter (\<lambda>(i, t). t_ServesWholeAccount t) tenants))"

text \<open>The part after the last slash, found from the end.\<close>

definition repositoryName :: "string \<Rightarrow> string" where
  "repositoryName repository = rev (takeWhile (\<lambda>c. c \<noteq> CHR ''/'') (rev repository))"

definition within_owner :: "Tenant \<Rightarrow> string \<Rightarrow> bool" where
  "within_owner t repository \<longleftrightarrow> repository = t_Owner t @ ''/'' @ repositoryName repository"

fun managed_error :: "Tenant \<Rightarrow> string option \<Rightarrow> string list \<Rightarrow> tenant_error option" where
  "managed_error t previous [] = None"
| "managed_error t previous (r # rs) =
     (if \<not> within_owner t r then Some (ManagedOutsideOwner r)
      else if previous = Some r then Some (ManagedDuplicate r)
      else managed_error t (Some r) rs)"

definition tenant_Validate :: "Tenant \<Rightarrow> tenant_error option" where
  "tenant_Validate t =
     then_check (checks [
       (t_ID t = [] \<or> t_Owner t = [] \<or> t_AppSlug t = [] \<or> t_CredentialName t = [], TenantFieldMissing (t_ID t)),
       (\<not> within_owner t (t_Repository t), RepositoryOutsideOwner (t_ID t)),
       (t_HomepageURL t \<noteq> github_url (t_Repository t), HomepageMismatch (t_ID t)),
       (t_ManagedRepositories t = [] \<or> \<not> sorted (t_ManagedRepositories t), ManagedUnsorted (t_ID t))])
     (then_check (managed_error t None (t_ManagedRepositories t))
     (then_check (first_error (\<lambda>(scaleSet, repository). checks [
         (scaleSet = [] \<or> repository = [] \<or> repository \<notin> set (t_ManagedRepositories t), ScaleSetUnmanaged scaleSet)])
         (t_ScaleSetRepositories t))
       (checks [(t_Repository t \<notin> set (t_ManagedRepositories t), PrimaryUnmanaged (t_ID t))])))"

definition tenant_RepositoryForScaleSet :: "Tenant \<Rightarrow> string \<Rightarrow> string option" where
  "tenant_RepositoryForScaleSet t name = get (t_ScaleSetRepositories t) name"

section \<open>The registry (\<open>registry.go\<close>)\<close>

record Registry =
  reg_SchemaVersion :: int
  reg_DefaultID :: string
  reg_Tenants :: "Tenant list"

text \<open>What validation has seen so far: the previous identifier, the owners, the scale set bindings and
  whether the default tenant has appeared.\<close>

record registry_scan =
  seen_previous :: "string option"
  seen_owners :: "string gomap"
  seen_bindings :: "string gomap"
  seen_default :: bool

definition bind_one :: "string \<times> string \<Rightarrow> string gomap \<Rightarrow> tenant_error + string gomap" where
  "bind_one = (\<lambda>(scaleSet, repository) bindings.
     if has bindings scaleSet then Inl (ScaleSetBoundTwice scaleSet) else Inr (put scaleSet repository bindings))"

definition scan_tenant :: "Registry \<Rightarrow> Tenant \<Rightarrow> registry_scan \<Rightarrow> tenant_error + registry_scan" where
  "scan_tenant r t scan =
     (case tenant_Validate t of
        Some e \<Rightarrow> Inl e
      | None \<Rightarrow>
        if (case seen_previous scan of None \<Rightarrow> False | Some p \<Rightarrow> t_ID t \<le> p) then Inl RowsUnsorted
        else if has (seen_owners scan) (t_Owner t) then Inl (OwnerShared (t_Owner t))
        else (case fold_err bind_one (t_ScaleSetRepositories t) (seen_bindings scan) of
                Inl e \<Rightarrow> Inl e
              | Inr bindings \<Rightarrow>
                Inr \<lparr>seen_previous = Some (t_ID t), seen_owners = put (t_Owner t) (t_ID t) (seen_owners scan),
                     seen_bindings = bindings, seen_default = (seen_default scan \<or> t_ID t = reg_DefaultID r)\<rparr>))"

definition registry_Validate :: "Registry \<Rightarrow> tenant_error option" where
  "registry_Validate r =
     (if reg_SchemaVersion r \<noteq> 1 \<or> reg_DefaultID r = [] \<or> reg_Tenants r = [] then Some RegistryIncomplete
      else (case fold_err (scan_tenant r) (reg_Tenants r)
                   \<lparr>seen_previous = None, seen_owners = [], seen_bindings = [], seen_default = False\<rparr> of
              Inl e \<Rightarrow> Some e
            | Inr scan \<Rightarrow>
                if \<not> seen_default scan \<or> \<not> sorted (map t_ID (reg_Tenants r)) then Some DefaultAbsent else None))"

definition registry_ByID :: "Registry \<Rightarrow> string \<Rightarrow> tenant_error + Tenant" where
  "registry_ByID r i =
     (let name = (if i = [] then reg_DefaultID r else i)
      in case List.find (\<lambda>t. t_ID t = name) (reg_Tenants r) of None \<Rightarrow> Inl (UnknownTenant name) | Some t \<Rightarrow> Inr t)"

definition registry_IDs :: "Registry \<Rightarrow> string list" where
  "registry_IDs r = sort (map t_ID (reg_Tenants r))"

definition ExampleRegistry :: Registry where
  "ExampleRegistry = \<lparr>reg_SchemaVersion = 1, reg_DefaultID = DefaultID,
     reg_Tenants = map (\<lambda>i. the (get tenants i)) tenant_IDs\<rparr>"

definition registry_Resolve :: "Registry \<Rightarrow> string \<Rightarrow> tenant_error + Tenant \<times> Registry" where
  "registry_Resolve registry i =
     (let r = (if reg_SchemaVersion registry = 0 then ExampleRegistry else registry)
      in case registry_Validate r of
           Some e \<Rightarrow> Inl e
         | None \<Rightarrow> (case registry_ByID r i of Inl e \<Rightarrow> Inl e | Inr t \<Rightarrow> Inr (t, r)))"

section \<open>What a valid registry guarantees\<close>

definition managed_ok :: "Tenant \<Rightarrow> bool" where
  "managed_ok t \<longleftrightarrow>
     (\<forall>r \<in> set (t_ManagedRepositories t). within_owner t r) \<and> t_Repository t \<in> set (t_ManagedRepositories t)
     \<and> distinct (t_ManagedRepositories t)
     \<and> (\<forall>(s, r) \<in> set (t_ScaleSetRepositories t). r \<in> set (t_ManagedRepositories t))"

lemma managed_error_None:
  "managed_error t p rs = None \<Longrightarrow> sorted rs \<Longrightarrow> (\<forall>q. p = Some q \<longrightarrow> (\<forall>r \<in> set rs. q \<le> r)) \<Longrightarrow>
    (\<forall>r \<in> set rs. within_owner t r) \<and> distinct rs \<and> (\<forall>q. p = Some q \<longrightarrow> q \<notin> set rs)"
proof (induction rs arbitrary: p)
  case Nil
  then show ?case by simp
next
  case (Cons r rs)
  have r: "within_owner t r" "p \<noteq> Some r" "managed_error t (Some r) rs = None"
    using Cons.prems(1) by (auto split: if_splits)
  have *: "(\<forall>x \<in> set rs. within_owner t x) \<and> distinct rs \<and> (\<forall>q. Some r = Some q \<longrightarrow> q \<notin> set rs)"
    using Cons.IH [OF r(3)] Cons.prems(2) by auto
  moreover have "q \<notin> set rs" if "p = Some q" for q
    using that Cons.prems(2,3) r(2) by (metis antisym list.set_intros(1) sorted_simps(2))
  ultimately show ?case using r by auto
qed

lemma tenant_Validate_ok:
  assumes "tenant_Validate t = None"
  shows "managed_ok t"
proof -
  have "sorted (t_ManagedRepositories t)" "managed_error t None (t_ManagedRepositories t) = None"
    "t_Repository t \<in> set (t_ManagedRepositories t)"
    "\<forall>(s, r) \<in> set (t_ScaleSetRepositories t). r \<in> set (t_ManagedRepositories t)"
    using assms by (auto simp: tenant_Validate_def split: if_splits)
  then show ?thesis using managed_error_None [of t None] by (auto simp: managed_ok_def)
qed

lemma bind_all:
  assumes "fold_err bind_one xs m = Inr m'"
  shows "distinct (map fst xs) \<and> (\<forall>k \<in> set (map fst xs). \<not> has m k) \<and> (\<forall>k. has m' k \<longleftrightarrow> has m k \<or> k \<in> set (map fst xs))"
  using assms
proof (induction xs arbitrary: m)
  case Nil
  then show ?case by simp
next
  case (Cons x xs)
  obtain k v where x: "x = (k, v)" by (cases x)
  have fresh: "\<not> has m k" and rest: "fold_err bind_one xs (put k v m) = Inr m'"
    using Cons.prems x by (auto simp: bind_one_def split: if_splits)
  show ?case using Cons.IH [OF rest] fresh x by (auto simp: map_simps)
qed

text \<open>The rows of a scanned prefix: distinct identifiers and owners, disjoint scale sets.\<close>

definition rows_apart :: "Tenant list \<Rightarrow> bool" where
  "rows_apart ts \<longleftrightarrow> sorted_wrt (<) (map t_ID ts) \<and> distinct (map t_Owner ts)
     \<and> distinct (concat (map (\<lambda>t. map fst (t_ScaleSetRepositories t)) ts)) \<and> (\<forall>t \<in> set ts. managed_ok t)"

definition scan_covers :: "Registry \<Rightarrow> Tenant list \<Rightarrow> registry_scan \<Rightarrow> bool" where
  "scan_covers r ts scan \<longleftrightarrow>
     seen_previous scan = (if ts = [] then None else Some (t_ID (last ts)))
     \<and> (\<forall>owner. has (seen_owners scan) owner \<longleftrightarrow> owner \<in> t_Owner ` set ts)
     \<and> (\<forall>k. has (seen_bindings scan) k \<longleftrightarrow> (\<exists>t \<in> set ts. k \<in> fst ` set (t_ScaleSetRepositories t)))
     \<and> (seen_default scan \<longleftrightarrow> (\<exists>t \<in> set ts. t_ID t = reg_DefaultID r))"

lemma sorted_wrt_snoc_last:
  "sorted_wrt (<) (xs @ [y :: 'a :: linorder]) \<longleftrightarrow> sorted_wrt (<) xs \<and> (xs = [] \<or> last xs < y)"
  by (induction xs) (auto simp: sorted_wrt_append dest: order.strict_trans)

lemma scan_tenant_step:
  assumes "scan_tenant r t scan = Inr scan'" "rows_apart ts" "scan_covers r ts scan"
  shows "rows_apart (ts @ [t]) \<and> scan_covers r (ts @ [t]) scan'"
proof -
  obtain bindings where t: "tenant_Validate t = None" "\<not> has (seen_owners scan) (t_Owner t)"
    "\<not> (case seen_previous scan of None \<Rightarrow> False | Some p \<Rightarrow> t_ID t \<le> p)"
    "fold_err bind_one (t_ScaleSetRepositories t) (seen_bindings scan) = Inr bindings"
    "scan' = \<lparr>seen_previous = Some (t_ID t), seen_owners = put (t_Owner t) (t_ID t) (seen_owners scan),
       seen_bindings = bindings, seen_default = (seen_default scan \<or> t_ID t = reg_DefaultID r)\<rparr>"
    using assms(1) by (auto simp: scan_tenant_def split: option.splits if_splits sum.splits)
  note b = bind_all [OF t(4)]
  have ids: "ts = [] \<or> t_ID (last ts) < t_ID t"
    using t(3) assms(3) by (auto simp: scan_covers_def split: if_splits)
  have apart: "set (map fst (t_ScaleSetRepositories t)) \<inter> set (concat (map (\<lambda>t. map fst (t_ScaleSetRepositories t)) ts)) = {}"
    using b assms(3) by (fastforce simp: scan_covers_def)
  have "t_Owner t \<notin> t_Owner ` set ts" using t(2) assms(3) by (auto simp: scan_covers_def)
  then have "rows_apart (ts @ [t])"
    using assms(2) apart b ids tenant_Validate_ok [OF t(1)]
    by (auto simp: rows_apart_def sorted_wrt_snoc_last last_map)
  moreover have "scan_covers r (ts @ [t]) scan'"
    using assms(3) b unfolding scan_covers_def t(5) by (auto simp: map_simps)
  ultimately show ?thesis ..
qed

lemma scan_all:
  assumes "fold_err (scan_tenant r) ts scan = Inr scan'" "rows_apart done_ts" "scan_covers r done_ts scan"
  shows "rows_apart (done_ts @ ts) \<and> scan_covers r (done_ts @ ts) scan'"
  using assms
proof (induction ts arbitrary: scan done_ts)
  case Nil
  then show ?case by simp
next
  case (Cons t ts)
  obtain s1 where s1: "scan_tenant r t scan = Inr s1" "fold_err (scan_tenant r) ts s1 = Inr scan'"
    using Cons.prems(1) by (auto split: sum.splits)
  show ?case using Cons.IH [OF s1(2)] scan_tenant_step [OF s1(1) Cons.prems(2,3)] by fastforce
qed

lemma registry_rows:
  assumes "registry_Validate r = None"
  shows "rows_apart (reg_Tenants r) \<and> (\<exists>t \<in> set (reg_Tenants r). t_ID t = reg_DefaultID r)"
proof -
  obtain scan where s: "fold_err (scan_tenant r) (reg_Tenants r)
      \<lparr>seen_previous = None, seen_owners = [], seen_bindings = [], seen_default = False\<rparr> = Inr scan" "seen_default scan"
    using assms by (auto simp: registry_Validate_def split: if_splits sum.splits)
  have "rows_apart (reg_Tenants r) \<and> scan_covers r (reg_Tenants r) scan"
    using scan_all [OF s(1), of "[]"] by (simp add: rows_apart_def scan_covers_def has_def)
  then show ?thesis using s(2) by (simp add: scan_covers_def)
qed

lemma distinct_concat_unique:
  assumes "distinct (concat (map f ts))" "x \<in> set ts" "y \<in> set ts" "k \<in> set (f x)" "k \<in> set (f y)"
  shows "x = y"
  using assms by (induction ts) auto

lemma rows_apart_unique:
  assumes rows: "rows_apart ts" and tu: "t \<in> set ts" "u \<in> set ts"
    and "t_ID t = t_ID u \<or> t_Owner t = t_Owner u
       \<or> (\<exists>s. tenant_RepositoryForScaleSet t s \<noteq> None \<and> tenant_RepositoryForScaleSet u s \<noteq> None)"
  shows "t = u"
  using assms(4)
proof (elim disjE)
  assume "t_ID t = t_ID u"
  moreover have "distinct (map t_ID ts)" using rows by (auto simp: rows_apart_def strict_sorted_iff)
  ultimately show ?thesis using tu by (auto simp: distinct_map inj_on_def)
next
  assume "t_Owner t = t_Owner u"
  then show ?thesis using rows tu by (auto simp: rows_apart_def distinct_map inj_on_def)
next
  assume "\<exists>s. tenant_RepositoryForScaleSet t s \<noteq> None \<and> tenant_RepositoryForScaleSet u s \<noteq> None"
  then obtain s where "s \<in> set (map fst (t_ScaleSetRepositories t))" "s \<in> set (map fst (t_ScaleSetRepositories u))"
    by (auto simp: tenant_RepositoryForScaleSet_def map_of_eq_None_iff)
  then show ?thesis
    using distinct_concat_unique [of "\<lambda>t. map fst (t_ScaleSetRepositories t)" ts t u s] rows tu
    by (auto simp: rows_apart_def)
qed

lemma rows_apart_bound:
  assumes "rows_apart ts" "t \<in> set ts" "tenant_RepositoryForScaleSet t s = Some repo"
  shows "repo \<in> set (t_ManagedRepositories t) \<and> has_prefix repo (t_Owner t @ ''/'')"
proof -
  have "managed_ok t" using assms(1,2) by (simp add: rows_apart_def)
  moreover have "(s, repo) \<in> set (t_ScaleSetRepositories t)"
    using assms(3) by (auto simp: tenant_RepositoryForScaleSet_def dest: map_of_SomeD)
  ultimately have "repo \<in> set (t_ManagedRepositories t)" "within_owner t repo" by (auto simp: managed_ok_def)
  then show ?thesis by (auto simp: within_owner_def has_prefix_iff)
qed

lemma find_row:
  assumes "rows_apart ts" "t \<in> set ts"
  shows "List.find (\<lambda>u. t_ID u = t_ID t) ts = Some t"
proof (cases "List.find (\<lambda>u. t_ID u = t_ID t) ts")
  case None
  then show ?thesis using assms(2) by (auto simp: find_None_iff)
next
  case (Some u)
  then have "u \<in> set ts" "t_ID u = t_ID t" by (auto simp: find_Some_iff)
  then show ?thesis using Some rows_apart_unique [OF assms(1) _ assms(2)] by auto
qed

text \<open>C27: A registry that passes validation keeps tenants apart: the account of an owner and the lane of a scale set each
  belong to exactly one tenant, every bound repository is a managed repository of that tenant and lies in its own
  account, and looking a tenant up, by name or as the default, always returns one of its rows.\<close>

theorem registry_keeps_tenants_apart:
  assumes "registry_Validate r = None"
  shows "(\<forall>t \<in> set (reg_Tenants r). \<forall>u \<in> set (reg_Tenants r).
           (t_ID t = t_ID u \<or> t_Owner t = t_Owner u
              \<or> (\<exists>s. tenant_RepositoryForScaleSet t s \<noteq> None \<and> tenant_RepositoryForScaleSet u s \<noteq> None)) \<longrightarrow> t = u)
    \<and> (\<forall>t \<in> set (reg_Tenants r). \<forall>s repo. tenant_RepositoryForScaleSet t s = Some repo \<longrightarrow>
           repo \<in> set (t_ManagedRepositories t) \<and> has_prefix repo (t_Owner t @ ''/''))
    \<and> (\<exists>t \<in> set (reg_Tenants r). registry_ByID r [] = Inr t \<and> t_ID t = reg_DefaultID r)
    \<and> (\<forall>t \<in> set (reg_Tenants r). t_ID t \<noteq> [] \<longrightarrow> registry_ByID r (t_ID t) = Inr t)"
proof -
  have rows: "rows_apart (reg_Tenants r)" and d: "\<exists>t \<in> set (reg_Tenants r). t_ID t = reg_DefaultID r"
    using registry_rows [OF assms] by auto
  have byid: "registry_ByID r (t_ID t) = Inr t" if "t \<in> set (reg_Tenants r)" "t_ID t \<noteq> []" for t
    using that find_row [OF rows] by (simp add: registry_ByID_def)
  have "\<exists>t \<in> set (reg_Tenants r). registry_ByID r [] = Inr t \<and> t_ID t = reg_DefaultID r"
    using d find_row [OF rows] by (fastforce simp: registry_ByID_def)
  then show ?thesis using rows_apart_unique [OF rows] rows_apart_bound [OF rows] byid by blast
qed

theorem registry_keeps_tenants_apart_witness:
  "registry_Validate ExampleRegistry = None
   \<and> (\<exists>t \<in> set (reg_Tenants ExampleRegistry). registry_ByID ExampleRegistry [] = Inr t \<and> t_ID t = DefaultID)"
proof -
  have v: "registry_Validate ExampleRegistry = None" by code_simp
  have "reg_DefaultID ExampleRegistry = DefaultID" by (simp add: ExampleRegistry_def)
  then show ?thesis using registry_keeps_tenants_apart [OF v] v by metis
qed

end
