(* ===== verification/Queue_Intent.thy ===== *)
theory Queue_Intent
  imports Durable_Store Tenant_Registry
begin

text \<open>
  The queue intents GARM keeps for jobs it has been assigned (\<open>src/internal/queueintent\<close>): the journal with its
  schema upgrade and validation and the readers of \<open>queueintent.go\<close>, the binding of started runners and the
  release of finished ones of \<open>correlation_linux.go\<close>, the exact recovery of orphans of \<open>recovery_linux.go\<close>.
  JSON text is abstracted to the decoded document; path checks, the lock, the clock and the write are the environment.
  The locked updates are an instance of the durable-store contract.
\<close>

section \<open>Data (\<open>queueintent.go\<close>)\<close>

abbreviation q_LegacySchemaVersion :: int where "q_LegacySchemaVersion \<equiv> 1"
abbreviation q_PreviousSchemaVersion :: int where "q_PreviousSchemaVersion \<equiv> 5"
abbreviation q_SchemaVersion :: int where "q_SchemaVersion \<equiv> 6"

datatype intent_state =
    StateQueued | StateAcquiring | StateAcquired | StateAssigned | StateRunning | IntentStateOther string

record Intent =
  i_Key :: string
  i_ScaleSetID :: int
  i_JobID :: string
  i_RunnerRequestID :: int
  i_WorkflowRunID :: int
  i_JobDisplayName :: string
  i_GitHubRunnerID :: int
  i_ScaleSetName :: string
  i_RunnerName :: string
  i_Owner :: string
  i_Repository :: string
  i_WorkflowRef :: string
  i_EventName :: string
  i_QueueTime :: time
  i_FirstQueuedAt :: time
  i_State :: intent_state
  i_Priority :: int
  i_StateEnteredAt :: time
  i_UpdatedAt :: time
  i_ExpiresAt :: time

record RepositoryState =
  rs_Repository :: string
  rs_Weight :: uint64
  rs_Pass :: uint64

record queue_journal =
  q_Generation :: uint64
  q_UpdatedAt :: time
  q_Intents :: "Intent gomap"
  q_Repositories :: "RepositoryState gomap"
  q_TerminalJobs :: "time gomap"

text \<open>A decoded document: the schema version it carries, and maps that may be null.\<close>

record queue_doc =
  qd_SchemaVersion :: int
  qd_Generation :: uint64
  qd_UpdatedAt :: time
  qd_Intents :: "Intent gomap option"
  qd_Repositories :: "RepositoryState gomap option"
  qd_TerminalJobs :: "time gomap option"

datatype queue_file = NoQueue | BadQueue | QueueFile queue_doc

datatype queue_error =
    QueuePathInvalid | QueueUnreadable | QueueSchema | QueueNullMaps | IntentKeyMismatch string
  | IntentIdentityIncomplete string | IntentTimestamps string | IntentPriority string | IntentStateInvalid string
  | RepositoryStateInvalid string | TerminalJobInvalid string
  | ScaleSetInexact | OwnerInexact | MultipleRepositories | NoRepository
  | CorrelationIncomplete | CorrelationNotReady | ContextDone | QueueLock | MultipleRunning | MultipleActive
  | ConflictingRun | QueueWrite | GraceNotPositive
  | RecoveryKeyRequired | IntentAbsent | NotUnbound | UpdatedAtChanged | InsideGrace | JournalChanged

section \<open>Validation\<close>

definition validText :: "string \<Rightarrow> bool" where
  "validText s \<longleftrightarrow> s \<noteq> [] \<and> length s \<le> 1024 \<and> trim_space s = s \<and> \<not> contains_any s [CHR 0x0D, CHR 0x0A, CHR 0x00]"

definition validRepository :: "string \<Rightarrow> bool" where
  "validRepository s \<longleftrightarrow>
     (let parts = split_on CHR ''/'' s in length parts = 2 \<and> validText (parts ! 0) \<and> validText (parts ! 1))"

definition validAccountOrRepository :: "string \<Rightarrow> bool" where
  "validAccountOrRepository s \<longleftrightarrow> validRepository s \<or> \<not> contains s ''/'' \<and> validText s"

definition intentKey :: "int \<Rightarrow> string \<Rightarrow> string" where
  "intentKey scaleSetID jobID = ''github-scale-set-job:v2:'' @ format_int scaleSetID @ '':'' @ jobID"

definition validate_intent :: "string \<Rightarrow> Intent \<Rightarrow> queue_error option" where
  "validate_intent key i = checks [
     (key = [] \<or> i_Key i \<noteq> key \<or> i_Key i \<noteq> intentKey (i_ScaleSetID i) (i_JobID i), IntentKeyMismatch key),
     (i_ScaleSetID i \<le> 0 \<or> \<not> validText (i_JobID i) \<or> i_RunnerRequestID i < 0 \<or> i_WorkflowRunID i < 0
        \<or> i_GitHubRunnerID i < 0 \<or> \<not> validText (i_ScaleSetName i)
        \<or> (i_JobDisplayName i \<noteq> [] \<and> \<not> validText (i_JobDisplayName i))
        \<or> (i_RunnerName i \<noteq> [] \<and> \<not> validText (i_RunnerName i))
        \<or> \<not> validAccountOrRepository (i_Repository i) \<or> \<not> validText (i_WorkflowRef i) \<or> \<not> validText (i_EventName i),
        IntentIdentityIncomplete key),
     (is_zero (i_QueueTime i) \<or> is_zero (i_StateEnteredAt i) \<or> is_zero (i_UpdatedAt i) \<or> is_zero (i_ExpiresAt i)
        \<or> i_StateEnteredAt i > i_UpdatedAt i \<or> i_ExpiresAt i < i_UpdatedAt i, IntentTimestamps key),
     (i_Priority i < 0 \<or> i_Priority i > 3, IntentPriority key),
     (i_State i \<notin> {StateQueued, StateAcquiring, StateAcquired, StateAssigned, StateRunning}, IntentStateInvalid key)]"

definition validate_repository_state :: "string \<Rightarrow> RepositoryState \<Rightarrow> queue_error option" where
  "validate_repository_state key r = checks [
     (\<not> validAccountOrRepository key \<or> rs_Repository r \<noteq> key \<or> rs_Weight r = 0 \<or> rs_Weight r > 100,
      RepositoryStateInvalid key)]"

definition validate_terminal :: "string \<Rightarrow> time \<Rightarrow> queue_error option" where
  "validate_terminal jobID expiry = checks [(\<not> validText jobID \<or> is_zero expiry, TerminalJobInvalid jobID)]"

definition queue_validate :: "queue_journal \<Rightarrow> queue_error option" where
  "queue_validate j =
     then_check (first_error (\<lambda>(k, i). validate_intent k i) (q_Intents j))
       (then_check (first_error (\<lambda>(k, r). validate_repository_state k r) (q_Repositories j))
          (first_error (\<lambda>(k, t). validate_terminal k t) (q_TerminalJobs j)))"

section \<open>Reading\<close>

definition entered_at_updated :: "Intent gomap \<Rightarrow> Intent gomap" where
  "entered_at_updated = map (\<lambda>(k, i). (k, i\<lparr>i_StateEnteredAt := i_UpdatedAt i\<rparr>))"

definition upgrade :: "queue_doc \<Rightarrow> queue_error + queue_doc" where
  "upgrade d =
     (if qd_SchemaVersion d = q_LegacySchemaVersion \<or> qd_SchemaVersion d = 2
      then Inr (d\<lparr>qd_TerminalJobs := Some [], qd_SchemaVersion := q_SchemaVersion,
                  qd_Intents := map_option entered_at_updated (qd_Intents d)\<rparr>)
      else if qd_SchemaVersion d = 3 \<or> qd_SchemaVersion d = 4
      then Inr (d\<lparr>qd_TerminalJobs := Some [], qd_SchemaVersion := q_SchemaVersion\<rparr>)
      else if qd_SchemaVersion d = q_PreviousSchemaVersion then Inr (d\<lparr>qd_SchemaVersion := q_SchemaVersion\<rparr>)
      else if qd_SchemaVersion d = q_SchemaVersion then Inr d
      else Inl QueueSchema)"

definition validate_doc :: "queue_doc \<Rightarrow> queue_error + queue_journal" where
  "validate_doc d =
     (if qd_SchemaVersion d \<noteq> q_SchemaVersion then Inl QueueSchema
      else (case (qd_Intents d, qd_Repositories d, qd_TerminalJobs d) of
              (Some intents, Some repositories, Some terminal) \<Rightarrow>
                (let j = \<lparr>q_Generation = qd_Generation d, q_UpdatedAt = qd_UpdatedAt d, q_Intents = intents,
                          q_Repositories = repositories, q_TerminalJobs = terminal\<rparr>
                 in case queue_validate j of Some e \<Rightarrow> Inl e | None \<Rightarrow> Inr j)
            | _ \<Rightarrow> Inl QueueNullMaps))"

definition empty_queue :: queue_journal where
  "empty_queue = \<lparr>q_Generation = 0, q_UpdatedAt = 0, q_Intents = [], q_Repositories = [], q_TerminalJobs = []\<rparr>"

definition readJournal :: "queue_file \<Rightarrow> queue_error + queue_journal" where
  "readJournal f =
     (case f of
        NoQueue \<Rightarrow> Inr empty_queue
      | BadQueue \<Rightarrow> Inl QueueUnreadable
      | QueueFile d \<Rightarrow> (case upgrade d of Inl e \<Rightarrow> Inl e | Inr d' \<Rightarrow> validate_doc d'))"

definition queue_doc_of :: "queue_journal \<Rightarrow> queue_doc" where
  "queue_doc_of j = \<lparr>qd_SchemaVersion = q_SchemaVersion, qd_Generation = q_Generation j, qd_UpdatedAt = q_UpdatedAt j,
     qd_Intents = Some (q_Intents j), qd_Repositories = Some (q_Repositories j), qd_TerminalJobs = Some (q_TerminalJobs j)\<rparr>"

record Snapshot =
  sn_Generation :: uint64
  sn_Stored :: nat
  sn_Expired :: nat
  sn_TerminalJobs :: nat
  sn_TerminalNextExpirySeconds :: int
  sn_Active :: "Intent list"

text \<open>The seconds left until a terminal marker expires, truncated as \<open>int64\<close> of \<open>Seconds()\<close> truncates, never negative.\<close>

definition remaining_seconds :: "time \<Rightarrow> time \<Rightarrow> int" where
  "remaining_seconds now expiry = (let r = div64 (time_sub expiry now) second in if r < 0 then 0 else r)"

definition next_expiry_step :: "time \<Rightarrow> string \<times> time \<Rightarrow> int \<Rightarrow> int" where
  "next_expiry_step now = (\<lambda>(job, expiry) acc.
     let r = remaining_seconds now expiry in if acc = 0 \<or> r < acc then r else acc)"

definition terminal_next_expiry :: "time \<Rightarrow> time gomap \<Rightarrow> int" where
  "terminal_next_expiry now terminal = fold (next_expiry_step now) terminal 0"

definition intent_expired :: "time \<Rightarrow> Intent \<Rightarrow> bool" where
  "intent_expired now i \<longleftrightarrow> \<not> i_ExpiresAt i > now"

definition terminal_waiting :: "time \<Rightarrow> time gomap \<Rightarrow> Intent \<Rightarrow> bool" where
  "terminal_waiting now terminal i \<longleftrightarrow>
     (case get terminal (i_JobID i) of None \<Rightarrow> False | Some expiry \<Rightarrow> expiry > now) \<and> i_State i \<noteq> StateRunning"

definition intent_less :: "Intent \<Rightarrow> Intent \<Rightarrow> bool" where
  "intent_less x y =
     (if i_Priority x \<noteq> i_Priority y then i_Priority x < i_Priority y
      else if i_QueueTime x \<noteq> i_QueueTime y then i_QueueTime x < i_QueueTime y
      else i_Key x < i_Key y)"

definition snapshot_of :: "time \<Rightarrow> queue_journal \<Rightarrow> Snapshot" where
  "snapshot_of now j =
     (let intents = map snd (q_Intents j);
          live = filter (\<lambda>i. \<not> intent_expired now i) intents
      in \<lparr>sn_Generation = q_Generation j, sn_Stored = length intents,
          sn_Expired = length (filter (intent_expired now) intents),
          sn_TerminalJobs = length (q_TerminalJobs j),
          sn_TerminalNextExpirySeconds = terminal_next_expiry now (q_TerminalJobs j),
          sn_Active = sort_slice intent_less (filter (\<lambda>i. \<not> terminal_waiting now (q_TerminalJobs j) i) live)\<rparr>)"

text \<open>The reader's environment: the context, the path checks and the clock.\<close>

record read_env =
  re_context :: bool
  re_path :: bool
  re_now :: time

definition read_queue :: "read_env \<Rightarrow> queue_file \<Rightarrow> queue_error + queue_journal" where
  "read_queue env f = (if \<not> re_path env then Inl QueuePathInvalid else readJournal f)"

definition ReadActive :: "read_env \<Rightarrow> queue_file \<Rightarrow> queue_error + Snapshot" where
  "ReadActive env f =
     (if \<not> re_context env then Inl ContextDone
      else (case read_queue env f of Inl e \<Rightarrow> Inl e | Inr j \<Rightarrow> Inr (snapshot_of (re_now env) j)))"

definition HasActive :: "read_env \<Rightarrow> queue_file \<Rightarrow> queue_error + bool" where
  "HasActive env f = (case ReadActive env f of Inl e \<Rightarrow> Inl e | Inr s \<Rightarrow> Inr (length (sn_Active s) > 0))"

definition defaultOwner :: string where
  "defaultOwner = (case tenant_ByID DefaultID of Inl e \<Rightarrow> [] | Inr fleet \<Rightarrow> t_Owner fleet)"

text \<open>The account of an intent; an empty owner means the fleet's own account.\<close>

definition OwnerAccount :: "Intent \<Rightarrow> string" where
  "OwnerAccount i = (if i_Owner i = [] then defaultOwner else i_Owner i)"

definition ActiveForScaleSet :: "read_env \<Rightarrow> string \<Rightarrow> string \<Rightarrow> queue_file \<Rightarrow> queue_error + bool" where
  "ActiveForScaleSet env owner scaleSet f =
     (if \<not> validText scaleSet then Inl ScaleSetInexact
      else if \<not> validText owner then Inl OwnerInexact
      else (case ReadActive env f of
              Inl e \<Rightarrow> Inl e
            | Inr s \<Rightarrow> Inr (list_ex (\<lambda>i. i_ScaleSetName i = scaleSet \<and> OwnerAccount i = owner
                                      \<and> i_State i \<noteq> StateQueued) (sn_Active s))))"

definition repository_step :: "string \<Rightarrow> string \<Rightarrow> Intent \<Rightarrow> string \<Rightarrow> queue_error + string" where
  "repository_step owner scaleSet i repository =
     (if OwnerAccount i \<noteq> owner \<or> i_ScaleSetName i \<noteq> scaleSet \<or> i_State i = StateQueued then Inr repository
      else if \<not> has_prefix (i_Repository i) (owner @ ''/'') then Inr repository
      else if repository \<noteq> [] \<and> repository \<noteq> i_Repository i then Inl MultipleRepositories
      else Inr (i_Repository i))"

definition RepositoryForScaleSet :: "read_env \<Rightarrow> string \<Rightarrow> string \<Rightarrow> queue_file \<Rightarrow> queue_error + string" where
  "RepositoryForScaleSet env owner scaleSet f =
     (if \<not> validText owner \<or> \<not> validText scaleSet then Inl OwnerInexact
      else (case ReadActive env f of
              Inl e \<Rightarrow> Inl e
            | Inr s \<Rightarrow>
              (case fold_err (repository_step owner scaleSet) (sn_Active s) [] of
                 Inl e \<Rightarrow> Inl e
               | Inr repository \<Rightarrow> if repository = [] then Inl NoRepository else Inr repository)))"

definition WaitSince :: "Intent \<Rightarrow> time" where
  "WaitSince i = (if \<not> is_zero (i_FirstQueuedAt i) then i_FirstQueuedAt i else i_QueueTime i)"

section \<open>Correlation of running jobs (\<open>correlation_linux.go\<close>)\<close>

record RunningCorrelation =
  rc_RunnerName :: string
  rc_PoolName :: string
  rc_Repository :: string
  rc_WorkflowRunID :: int
  rc_JobDisplayName :: string
  rc_WorkflowRef :: string

record CorrelationResult =
  cr_Key :: string
  cr_Generation :: uint64
  cr_Changed :: bool

text \<open>One attempt's environment: the context, the path and parent checks, the lock, the way the write goes and the clock.\<close>

record queue_env =
  qe_context :: bool
  qe_paths :: bool
  qe_locked :: bool
  qe_write :: write_outcome
  qe_now :: time

definition unavailable :: string where "unavailable = ''unavailable-before-job-available''"

definition validateRunningCorrelation :: "RunningCorrelation \<Rightarrow> queue_error option" where
  "validateRunningCorrelation c = checks [
     (\<not> validText (rc_RunnerName c) \<or> \<not> validText (rc_PoolName c) \<or> \<not> validRepository (rc_Repository c)
        \<or> rc_WorkflowRunID c \<le> 0 \<or> \<not> validText (rc_JobDisplayName c) \<or> \<not> validText (rc_WorkflowRef c),
      CorrelationIncomplete)]"

definition correlation_owner :: "RunningCorrelation \<Rightarrow> string" where
  "correlation_owner c = hd (split_on CHR ''/'' (rc_Repository c))"

definition owner_matches :: "RunningCorrelation \<Rightarrow> Intent \<Rightarrow> bool" where
  "owner_matches c i \<longleftrightarrow> OwnerAccount i = correlation_owner c
     \<and> (i_Repository i = correlation_owner c \<or> i_Repository i = rc_Repository c)"

definition run_matches :: "RunningCorrelation \<Rightarrow> Intent \<Rightarrow> bool" where
  "run_matches c i \<longleftrightarrow> \<not> (i_WorkflowRunID i \<noteq> 0 \<and> i_WorkflowRunID i \<noteq> rc_WorkflowRunID c)"

definition authorizes :: "time \<Rightarrow> RunningCorrelation \<Rightarrow> Intent \<Rightarrow> bool" where
  "authorizes now c i \<longleftrightarrow> i_ExpiresAt i > now \<and> i_ScaleSetName i = rc_PoolName c
     \<and> i_State i \<in> {StateAssigned, StateAcquiring, StateAcquired, StateRunning} \<and> owner_matches c i \<and> run_matches c i"

definition authorizeOnce :: "queue_env \<Rightarrow> RunningCorrelation \<Rightarrow> queue_file \<Rightarrow> queue_error + unit" where
  "authorizeOnce env c f =
     (if \<not> qe_context env then Inl ContextDone
      else if \<not> qe_paths env then Inl QueuePathInvalid
      else (case readJournal f of
              Inl e \<Rightarrow> Inl e
            | Inr j \<Rightarrow> if list_ex (\<lambda>(k, i). authorizes (qe_now env) c i) (q_Intents j) then Inr () else Inl CorrelationNotReady))"

definition default_attempts :: "int \<Rightarrow> nat" where
  "default_attempts attempts = (if attempts \<le> 0 then 20 else nat attempts)"

text \<open>The retry loop: it stops at the first outcome that is not \<open>CorrelationNotReady\<close>, when the context ends during
  the pause, or with the last attempt. Attempt \<open>n\<close> sees environment \<open>envs n\<close> and, if the journal changed meanwhile, the
  file \<open>files n\<close>.\<close>

fun authorize_loop ::
    "(nat \<Rightarrow> queue_env) \<Rightarrow> (nat \<Rightarrow> queue_file) \<Rightarrow> (nat \<Rightarrow> bool) \<Rightarrow> RunningCorrelation \<Rightarrow> nat \<Rightarrow> nat \<Rightarrow> (queue_error + unit) \<times> nat" where
  "authorize_loop envs files pause c n 0 = (Inr (), n)"
| "authorize_loop envs files pause c n (Suc left) =
     (case authorizeOnce (envs n) c (files n) of
        Inl CorrelationNotReady \<Rightarrow>
          if left = 0 then (Inl CorrelationNotReady, Suc n)
          else if \<not> pause n then (Inl ContextDone, Suc n)
          else authorize_loop envs files pause c (Suc n) left
      | r \<Rightarrow> (r, Suc n))"

definition AuthorizeRunning ::
    "int \<Rightarrow> (nat \<Rightarrow> queue_env) \<Rightarrow> (nat \<Rightarrow> queue_file) \<Rightarrow> (nat \<Rightarrow> bool) \<Rightarrow> RunningCorrelation \<Rightarrow> (queue_error + unit) \<times> nat" where
  "AuthorizeRunning attempts envs files pause c =
     (case validateRunningCorrelation c of
        Some e \<Rightarrow> (Inl e, 0)
      | None \<Rightarrow> authorize_loop envs files pause c 0 (default_attempts attempts))"

text \<open>Taking the lock, reading, and publishing an updated journal: what \<open>bindOnce\<close> and \<open>ReleaseUncoveredRunning\<close> share.\<close>

definition queue_update ::
    "queue_env \<Rightarrow> (time \<Rightarrow> queue_journal \<Rightarrow> queue_error + (queue_journal \<times> 'r + 'r)) \<Rightarrow> queue_file \<Rightarrow> (queue_error + 'r) \<times> queue_file" where
  "queue_update env mutate f =
     (if \<not> qe_context env then (Inl ContextDone, f)
      else if \<not> qe_paths env then (Inl QueuePathInvalid, f)
      else if \<not> qe_locked env then (Inl QueueLock, f)
      else (case readJournal f of
              Inl e \<Rightarrow> (Inl e, f)
            | Inr j \<Rightarrow>
              (case mutate (qe_now env) j of
                 Inl e \<Rightarrow> (Inl e, f)
               | Inr (Inr r) \<Rightarrow> (Inr r, f)
               | Inr (Inl (j', r)) \<Rightarrow>
                 (case queue_validate j' of
                    Some e \<Rightarrow> (Inl e, f)
                  | None \<Rightarrow> publish (qe_write env) QueueWrite r f (QueueFile (queue_doc_of j'))))))"

definition is_running_of :: "time \<Rightarrow> RunningCorrelation \<Rightarrow> Intent \<Rightarrow> bool" where
  "is_running_of now c i \<longleftrightarrow>
     i_State i = StateRunning \<and> i_RunnerName i = rc_RunnerName c \<and> i_ExpiresAt i > now \<and> owner_matches c i"

definition jobDisplayMatchesHook :: "string \<Rightarrow> string \<Rightarrow> bool" where
  "jobDisplayMatchesHook displayName jobKey \<longleftrightarrow> displayName = jobKey \<or> has_prefix displayName (jobKey @ '' / '')"

definition is_active_for :: "time \<Rightarrow> RunningCorrelation \<Rightarrow> Intent \<Rightarrow> bool" where
  "is_active_for now c i \<longleftrightarrow>
     i_ScaleSetName i = rc_PoolName c \<and> i_ExpiresAt i > now \<and> i_State i \<in> {StateAssigned, StateAcquiring, StateAcquired}
     \<and> owner_matches c i \<and> jobDisplayMatchesHook (i_JobDisplayName i) (rc_JobDisplayName c) \<and> run_matches c i"

definition sole_key :: "queue_error \<Rightarrow> (Intent \<Rightarrow> bool) \<Rightarrow> Intent gomap \<Rightarrow> queue_error + string option" where
  "sole_key e P intents =
     (case filter (\<lambda>(k, i). P i) intents of [] \<Rightarrow> Inr None | [(k, i)] \<Rightarrow> Inr (Some k) | _ \<Rightarrow> Inl e)"

definition select_intent :: "time \<Rightarrow> RunningCorrelation \<Rightarrow> Intent gomap \<Rightarrow> queue_error + string \<times> bool" where
  "select_intent now c intents =
     (case sole_key MultipleRunning (is_running_of now c) intents of
        Inl e \<Rightarrow> Inl e
      | Inr (Some k) \<Rightarrow> Inr (k, True)
      | Inr None \<Rightarrow>
        (case sole_key MultipleActive (is_active_for now c) intents of
           Inl e \<Rightarrow> Inl e
         | Inr (Some k) \<Rightarrow> Inr (k, False)
         | Inr None \<Rightarrow> Inl CorrelationNotReady))"

definition bind_changes :: "RunningCorrelation \<Rightarrow> bool \<Rightarrow> Intent \<Rightarrow> bool" where
  "bind_changes c exactRunning i \<longleftrightarrow>
     \<not> exactRunning \<or> i_WorkflowRunID i = 0 \<or> i_Repository i \<noteq> rc_Repository c
     \<or> (i_JobDisplayName i = [] \<and> rc_JobDisplayName c \<noteq> [])
     \<or> ((i_WorkflowRef i = [] \<or> i_WorkflowRef i = unavailable) \<and> rc_WorkflowRef c \<noteq> [])"

definition bound_intent :: "time \<Rightarrow> RunningCorrelation \<Rightarrow> bool \<Rightarrow> Intent \<Rightarrow> Intent" where
  "bound_intent now c exactRunning i =
     (let i1 = i\<lparr>i_Repository := rc_Repository c, i_WorkflowRunID := rc_WorkflowRunID c\<rparr>;
          i2 = (if exactRunning then i1
                else i1\<lparr>i_State := StateRunning, i_StateEnteredAt := now, i_RunnerName := rc_RunnerName c\<rparr>);
          i3 = (if i_JobDisplayName i2 = [] then i2\<lparr>i_JobDisplayName := rc_JobDisplayName c\<rparr> else i2);
          i4 = (if i_WorkflowRef i3 = [] \<or> i_WorkflowRef i3 = unavailable then i3\<lparr>i_WorkflowRef := rc_WorkflowRef c\<rparr> else i3)
      in i4\<lparr>i_UpdatedAt := now\<rparr>)"

definition bind_mutation ::
    "RunningCorrelation \<Rightarrow> time \<Rightarrow> queue_journal \<Rightarrow> queue_error + (queue_journal \<times> CorrelationResult + CorrelationResult)" where
  "bind_mutation c now j =
     (case select_intent now c (q_Intents j) of
        Inl e \<Rightarrow> Inl e
      | Inr (key, exactRunning) \<Rightarrow>
        (case get (q_Intents j) key of
           None \<Rightarrow> Inl CorrelationNotReady
         | Some i \<Rightarrow>
           if \<not> run_matches c i then Inl ConflictingRun
           else if \<not> bind_changes c exactRunning i
           then Inr (Inr \<lparr>cr_Key = key, cr_Generation = q_Generation j, cr_Changed = False\<rparr>)
           else (let j' = j\<lparr>q_Intents := put key (bound_intent now c exactRunning i) (q_Intents j),
                            q_Generation := q_Generation j + 1, q_UpdatedAt := now\<rparr>
                 in Inr (Inl (j', \<lparr>cr_Key = key, cr_Generation = q_Generation j', cr_Changed = True\<rparr>)))))"

definition bindOnce :: "queue_env \<Rightarrow> RunningCorrelation \<Rightarrow> queue_file \<Rightarrow> (queue_error + CorrelationResult) \<times> queue_file" where
  "bindOnce env c f = queue_update env (bind_mutation c) f"

fun bind_loop ::
    "(nat \<Rightarrow> queue_env) \<Rightarrow> (nat \<Rightarrow> bool) \<Rightarrow> RunningCorrelation \<Rightarrow> nat \<Rightarrow> nat \<Rightarrow> queue_file \<Rightarrow> (queue_error + CorrelationResult) \<times> queue_file" where
  "bind_loop envs pause c n 0 f = (Inl CorrelationNotReady, f)"
| "bind_loop envs pause c n (Suc left) f =
     (case bindOnce (envs n) c f of
        (Inl CorrelationNotReady, f') \<Rightarrow>
          if left = 0 then (Inl CorrelationNotReady, f')
          else if \<not> pause n then (Inl ContextDone, f')
          else bind_loop envs pause c (Suc n) left f'
      | r \<Rightarrow> r)"

definition BindRunning ::
    "int \<Rightarrow> (nat \<Rightarrow> queue_env) \<Rightarrow> (nat \<Rightarrow> bool) \<Rightarrow> RunningCorrelation \<Rightarrow> queue_file \<Rightarrow> (queue_error + CorrelationResult) \<times> queue_file" where
  "BindRunning attempts envs pause c f =
     (case validateRunningCorrelation c of
        Some e \<Rightarrow> (Inl e, f)
      | None \<Rightarrow> bind_loop envs pause c 0 (default_attempts attempts) f)"

definition uncovered :: "string set \<Rightarrow> duration \<Rightarrow> time \<Rightarrow> Intent \<Rightarrow> bool" where
  "uncovered covered grace now i \<longleftrightarrow>
     i_State i = StateRunning \<and> i_RunnerName i \<noteq> [] \<and> i_RunnerName i \<notin> covered
     \<and> \<not> time_sub now (i_StateEnteredAt i) < grace"

definition release_uncovered ::
    "string set \<Rightarrow> duration \<Rightarrow> time \<Rightarrow> queue_journal \<Rightarrow> queue_error + (queue_journal \<times> string list + string list)" where
  "release_uncovered covered grace now j =
     (let gone = filter (\<lambda>(k, i). uncovered covered grace now i) (q_Intents j);
          released = sort (map (\<lambda>(k, i). i_RunnerName i) gone)
      in if gone = [] then Inr (Inr [])
         else Inr (Inl (j\<lparr>q_Intents := filter (\<lambda>(k, i). \<not> uncovered covered grace now i) (q_Intents j),
                          q_Generation := q_Generation j + 1, q_UpdatedAt := now\<rparr>, released)))"

definition ReleaseUncoveredRunning ::
    "queue_env \<Rightarrow> string set \<Rightarrow> duration \<Rightarrow> queue_file \<Rightarrow> (queue_error + string list) \<times> queue_file" where
  "ReleaseUncoveredRunning env covered grace f =
     (if grace \<le> 0 then (Inl GraceNotPositive, f) else queue_update env (release_uncovered covered grace) f)"

section \<open>Recovery of orphaned intents (\<open>recovery_linux.go\<close>)\<close>

definition minimumUnboundRunningRecoveryAge :: duration where "minimumUnboundRunningRecoveryAge = minute"

datatype recovery_kind = RecoverRunning | RecoverCanceled

record RecoveryResult =
  rr_Applied :: bool
  rr_Key :: string
  rr_ExpectedUpdatedAt :: time
  rr_PreviousGeneration :: uint64
  rr_Generation :: uint64
  rr_RecoveredAt :: time

definition is_unbound :: "Intent \<Rightarrow> bool" where
  "is_unbound i \<longleftrightarrow> i_RunnerRequestID i = 0 \<and> i_Repository i = i_Owner i
     \<and> i_WorkflowRef i = unavailable \<and> i_EventName i = unavailable"

definition recoverable_state :: "recovery_kind \<Rightarrow> Intent \<Rightarrow> bool" where
  "recoverable_state kind i \<longleftrightarrow>
     (case kind of RecoverRunning \<Rightarrow> i_State i = StateRunning
      | RecoverCanceled \<Rightarrow> i_State i = StateQueued \<or> i_State i = StateAssigned)"

definition recovery_check :: "recovery_kind \<Rightarrow> time \<Rightarrow> time \<Rightarrow> Intent \<Rightarrow> queue_error option" where
  "recovery_check kind expectedUpdatedAt now i = checks [
     (\<not> is_unbound i \<or> \<not> recoverable_state kind i, NotUnbound),
     (i_UpdatedAt i \<noteq> expectedUpdatedAt, UpdatedAtChanged),
     (time_sub now (i_UpdatedAt i) < minimumUnboundRunningRecoveryAge, InsideGrace)]"

text \<open>\<open>untouched\<close> says that the journal file is the one that was read when the new one is about to be renamed over it. The
  recovery needs the file to exist: it is examined before it is read.\<close>

definition recoverExactUnbound ::
    "queue_env \<Rightarrow> bool \<Rightarrow> recovery_kind \<Rightarrow> string \<Rightarrow> time \<Rightarrow> bool \<Rightarrow> queue_file \<Rightarrow> (queue_error + RecoveryResult) \<times> queue_file" where
  "recoverExactUnbound env untouched kind key expectedUpdatedAt apply_it f =
     (if \<not> qe_context env then (Inl ContextDone, f)
      else if \<not> qe_paths env then (Inl QueuePathInvalid, f)
      else if \<not> validText key \<or> is_zero expectedUpdatedAt then (Inl RecoveryKeyRequired, f)
      else if \<not> qe_locked env then (Inl QueueLock, f)
      else if f = NoQueue then (Inl QueueUnreadable, f)
      else (case readJournal f of
              Inl e \<Rightarrow> (Inl e, f)
            | Inr j \<Rightarrow>
              (case get (q_Intents j) key of
                 None \<Rightarrow> (Inl IntentAbsent, f)
               | Some i \<Rightarrow>
                 (case recovery_check kind expectedUpdatedAt (qe_now env) i of
                    Some e \<Rightarrow> (Inl e, f)
                  | None \<Rightarrow>
                    (let result = \<lparr>rr_Applied = False, rr_Key = key, rr_ExpectedUpdatedAt = i_UpdatedAt i,
                                   rr_PreviousGeneration = q_Generation j, rr_Generation = q_Generation j,
                                   rr_RecoveredAt = qe_now env\<rparr>;
                         j' = j\<lparr>q_Intents := del key (q_Intents j), q_Generation := q_Generation j + 1,
                                q_UpdatedAt := qe_now env\<rparr>
                     in if \<not> apply_it then (Inr result, f)
                        else (case queue_validate j' of
                                Some e \<Rightarrow> (Inl e, f)
                              | None \<Rightarrow>
                                if \<not> untouched then (Inl JournalChanged, f)
                                else publish (qe_write env) QueueWrite
                                       (result\<lparr>rr_Applied := True, rr_Generation := q_Generation j'\<rparr>)
                                       f (QueueFile (queue_doc_of j'))))))))"

definition RecoverUnboundRunning ::
    "queue_env \<Rightarrow> bool \<Rightarrow> string \<Rightarrow> time \<Rightarrow> bool \<Rightarrow> queue_file \<Rightarrow> (queue_error + RecoveryResult) \<times> queue_file" where
  "RecoverUnboundRunning env untouched key expectedUpdatedAt apply_it f =
     recoverExactUnbound env untouched RecoverRunning key expectedUpdatedAt apply_it f"

definition RecoverCanceledUnbound ::
    "queue_env \<Rightarrow> bool \<Rightarrow> string \<Rightarrow> time \<Rightarrow> bool \<Rightarrow> queue_file \<Rightarrow> (queue_error + RecoveryResult) \<times> queue_file" where
  "RecoverCanceledUnbound env untouched key expectedUpdatedAt apply_it f =
     recoverExactUnbound env untouched RecoverCanceled key expectedUpdatedAt apply_it f"

section \<open>Journals on disk\<close>

definition wf_queue :: "queue_journal \<Rightarrow> bool" where
  "wf_queue j \<longleftrightarrow> wf_map (q_Intents j) \<and> wf_map (q_Repositories j) \<and> wf_map (q_TerminalJobs j)"

definition queue_ok :: "queue_journal \<Rightarrow> bool" where
  "queue_ok j \<longleftrightarrow> wf_queue j \<and> queue_validate j = None"

definition wf_queue_file :: "queue_file \<Rightarrow> bool" where
  "wf_queue_file f \<longleftrightarrow> (\<forall>j. readJournal f = Inr j \<longrightarrow> wf_queue j)"

definition keeps_wf_queue :: "(time \<Rightarrow> queue_journal \<Rightarrow> queue_error + (queue_journal \<times> 'r + 'r)) \<Rightarrow> bool" where
  "keeps_wf_queue m \<longleftrightarrow> (\<forall>now j j' r. wf_queue j \<longrightarrow> m now j = Inr (Inl (j', r)) \<longrightarrow> wf_queue j')"

definition queue_durable :: "queue_env \<Rightarrow> bool" where
  "queue_durable env \<longleftrightarrow> qe_write env \<noteq> WriteFailsAfterRename"

lemma queue_journal_eta [simp]:
  "\<lparr>q_Generation = q_Generation j, q_UpdatedAt = q_UpdatedAt j, q_Intents = q_Intents j,
    q_Repositories = q_Repositories j, q_TerminalJobs = q_TerminalJobs j\<rparr> = (j :: queue_journal)"
  by (cases j) simp

lemma readJournal_doc_of [simp]:
  "readJournal (QueueFile (queue_doc_of j)) = (case queue_validate j of Some e \<Rightarrow> Inl e | None \<Rightarrow> Inr j)"
  by (simp add: readJournal_def queue_doc_of_def upgrade_def validate_doc_def Let_def)

lemma readJournal_valid:
  assumes "readJournal f = Inr j"
  shows "queue_validate j = None"
proof (cases f)
  case NoQueue
  then show ?thesis using assms by (auto simp: readJournal_def empty_queue_def queue_validate_def)
qed (use assms in \<open>auto simp: readJournal_def validate_doc_def Let_def split: sum.splits if_splits option.splits\<close>)

lemma queue_update_cases:
  assumes "queue_update env m f = (res, f')"
  obtains (kept) "f' = f"
  | (published) j j' r where "readJournal f = Inr j" "m (qe_now env) j = Inr (Inl (j', r))" "queue_validate j' = None"
      "f' = QueueFile (queue_doc_of j')"
  using assms unfolding queue_update_def publish_def
  by (auto split: if_splits sum.splits option.splits prod.splits write_outcome.splits)

lemma queue_update_Inr:
  assumes "queue_update env m f = (Inr r, f')"
  obtains (same) j where "readJournal f = Inr j" "m (qe_now env) j = Inr (Inr r)" "f' = f"
  | (written) j j' where "readJournal f = Inr j" "m (qe_now env) j = Inr (Inl (j', r))" "queue_validate j' = None"
      "f' = QueueFile (queue_doc_of j')"
  using assms unfolding queue_update_def publish_def
  by (auto split: if_splits sum.splits option.splits prod.splits write_outcome.splits)

interpretation qj: durable_store
  "queue_update :: queue_env \<Rightarrow> (time \<Rightarrow> queue_journal \<Rightarrow> queue_error + (queue_journal \<times> 'r + 'r)) \<Rightarrow> queue_file
    \<Rightarrow> (queue_error + 'r) \<times> queue_file"
  readJournal queue_ok keeps_wf_queue queue_durable wf_queue_file
proof
  fix f env and op :: "time \<Rightarrow> queue_journal \<Rightarrow> queue_error + (queue_journal \<times> 'r + 'r)"
  assume f: "wf_queue_file f" and op: "keeps_wf_queue op"
  obtain res f' where e: "queue_update env op f = (res, f')" by fastforce
  have pub: "f' = f \<or> (\<exists>j. f' = QueueFile (queue_doc_of j) \<and> queue_ok j)"
    using e by (rule queue_update_cases) (use f op in \<open>auto simp: wf_queue_file_def keeps_wf_queue_def queue_ok_def\<close>)
  then show "wf_queue_file (snd (queue_update env op f))"
    using f e by (auto simp: wf_queue_file_def queue_ok_def)
  show "\<exists>j. readJournal (snd (queue_update env op f)) = Inr j \<and> queue_ok j"
    if "snd (queue_update env op f) \<noteq> f" using pub that e by (auto simp: queue_ok_def)
next
  fix env f e and op :: "time \<Rightarrow> queue_journal \<Rightarrow> queue_error + (queue_journal \<times> 'r + 'r)"
  assume "queue_durable env" "fst (queue_update env op f) = Inl e"
  then show "snd (queue_update env op f) = f"
    by (auto simp: queue_update_def publish_def queue_durable_def
        split: if_splits sum.splits option.splits prod.splits write_outcome.splits)
qed

lemma bind_mutation_wf: "keeps_wf_queue (bind_mutation c)"
  by (auto simp: keeps_wf_queue_def bind_mutation_def wf_queue_def Let_def map_simps
      split: sum.splits prod.splits option.splits if_splits)

lemma release_uncovered_wf: "keeps_wf_queue (release_uncovered covered grace)"
  by (auto simp: keeps_wf_queue_def release_uncovered_def wf_queue_def Let_def map_simps split: if_splits)

section \<open>Choosing the intent to bind\<close>

lemma distinct_singleton: "distinct xs \<Longrightarrow> set xs = {a} \<Longrightarrow> xs = [a]"
proof -
  assume d: "distinct xs" and s: "set xs = {a}"
  have "length xs = Suc 0" using distinct_card [OF d] s by simp
  then obtain y where "xs = [y]" by (auto simp: length_Suc_conv)
  then show ?thesis using s by simp
qed

lemma filter_singleton_iff:
  assumes "wf_map m"
  shows "filter (\<lambda>(k, v). P v) m = [(k, v)] \<longleftrightarrow>
    get m k = Some v \<and> P v \<and> (\<forall>k' v'. get m k' = Some v' \<and> P v' \<longrightarrow> k' = k)"
proof
  assume f: "filter (\<lambda>(k, v). P v) m = [(k, v)]"
  have eq: "{x \<in> set m. P (snd x)} = {(k, v)}"
    using arg_cong [OF f, of set] by (simp add: case_prod_beta)
  have "(k, v) \<in> {x \<in> set m. P (snd x)}" by (simp add: eq)
  moreover have "k' = k" if "(k', v') \<in> set m" "P v'" for k' v'
  proof -
    have "(k', v') \<in> {x \<in> set m. P (snd x)}" using that by simp
    then show ?thesis by (simp add: eq)
  qed
  ultimately show "get m k = Some v \<and> P v \<and> (\<forall>k' v'. get m k' = Some v' \<and> P v' \<longrightarrow> k' = k)"
    unfolding get_iff_mem [OF assms] by (simp, blast)
next
  assume *: "get m k = Some v \<and> P v \<and> (\<forall>k' v'. get m k' = Some v' \<and> P v' \<longrightarrow> k' = k)"
  then have "x = (k, v)" if "x \<in> set m" "P (snd x)" for x
    using that get_iff_mem [OF assms, of "fst x" "snd x"] by (metis option.inject prod.collapse)
  then have set: "set (filter (\<lambda>(k, v). P v) m) = {(k, v)}"
    using * by (auto simp: get_iff_mem [OF assms])
  have "distinct (filter (\<lambda>(k, v). P v) m)"
    using assms by (auto simp: wf_map_def keys_def distinct_map)
  then show "filter (\<lambda>(k, v). P v) m = [(k, v)]"
    using set by (rule distinct_singleton)
qed

lemma sole_key_Some_iff:
  assumes "wf_map intents"
  shows "sole_key e P intents = Inr (Some k) \<longleftrightarrow>
    (\<exists>i. get intents k = Some i \<and> P i) \<and> (\<forall>k' i'. get intents k' = Some i' \<and> P i' \<longrightarrow> k' = k)"
proof -
  have "sole_key e P intents = Inr (Some k) \<longleftrightarrow> (\<exists>i. filter (\<lambda>(k, i). P i) intents = [(k, i)])"
    by (auto simp: sole_key_def split: list.splits)
  then show ?thesis by (auto simp: filter_singleton_iff [OF assms])
qed

lemma sole_key_None:
  assumes "sole_key e P intents = Inr None" "get intents k = Some i"
  shows "\<not> P i"
  using assms(1) map_of_SomeD [OF assms(2)]
  by (auto simp: sole_key_def filter_empty_conv split: list.splits)

lemma select_intent_Inr:
  assumes "select_intent now c intents = Inr (k, exact)" "wf_map intents"
  shows "\<exists>i. get intents k = Some i \<and> owner_matches c i \<and> i_ExpiresAt i > now
    \<and> (if exact then is_running_of now c i else is_active_for now c i)
    \<and> (\<forall>k' i'. get intents k' = Some i' \<and> is_running_of now c i' \<longrightarrow> exact \<and> k' = k)"
proof (cases "sole_key MultipleRunning (is_running_of now c) intents")
  case (Inl e)
  then show ?thesis using assms by (simp add: select_intent_def)
next
  case (Inr found)
  show ?thesis
  proof (cases found)
    case (Some k')
    then have e: "k' = k" "exact" using assms(1) Inr by (auto simp: select_intent_def)
    obtain i where "get intents k = Some i" "is_running_of now c i"
      "\<forall>k' i'. get intents k' = Some i' \<and> is_running_of now c i' \<longrightarrow> k' = k"
      using Inr Some e by (auto simp: sole_key_Some_iff [OF assms(2)])
    then show ?thesis using e by (intro exI [of _ i]) (simp add: is_running_of_def)
  next
    case None
    have e: "\<not> exact" "sole_key MultipleActive (is_active_for now c) intents = Inr (Some k)"
      using assms(1) Inr None by (auto simp: select_intent_def split: sum.splits option.splits)
    obtain i where i: "get intents k = Some i" "is_active_for now c i"
      using e(2) by (auto simp: sole_key_Some_iff [OF assms(2)])
    have "\<not> is_running_of now c i'" if "get intents k' = Some i'" for k' i'
      using sole_key_None [OF Inr [unfolded None] that] .
    then show ?thesis using e i by (intro exI [of _ i]) (auto simp: is_active_for_def)
  qed
qed

lemma bound_intent_simps [simp]:
  "i_State (bound_intent now c exact i) = (if exact then i_State i else StateRunning)"
  "i_RunnerName (bound_intent now c exact i) = (if exact then i_RunnerName i else rc_RunnerName c)"
  "i_Repository (bound_intent now c exact i) = rc_Repository c"
  "i_WorkflowRunID (bound_intent now c exact i) = rc_WorkflowRunID c"
  "i_ExpiresAt (bound_intent now c exact i) = i_ExpiresAt i"
  "i_Owner (bound_intent now c exact i) = i_Owner i"
  "i_Key (bound_intent now c exact i) = i_Key i"
  "i_JobDisplayName (bound_intent now c exact i) =
     (if i_JobDisplayName i = [] then rc_JobDisplayName c else i_JobDisplayName i)"
  "i_WorkflowRef (bound_intent now c exact i) =
     (if i_WorkflowRef i = [] \<or> i_WorkflowRef i = unavailable then rc_WorkflowRef c else i_WorkflowRef i)"
  by (simp_all add: bound_intent_def Let_def)

lemma owner_matches_bound [simp]:
  "owner_matches c (bound_intent now c exact i) \<longleftrightarrow> OwnerAccount i = correlation_owner c"
  by (simp add: owner_matches_def OwnerAccount_def)

text \<open>The state a successful binding leaves behind: one intent of the runner, running, fully identified, and alone.\<close>

definition bound_to :: "time \<Rightarrow> RunningCorrelation \<Rightarrow> string \<Rightarrow> queue_journal \<Rightarrow> bool" where
  "bound_to now c key j \<longleftrightarrow>
     (\<exists>i. get (q_Intents j) key = Some i \<and> is_running_of now c i \<and> i_Repository i = rc_Repository c
        \<and> i_WorkflowRunID i = rc_WorkflowRunID c
        \<and> (i_JobDisplayName i = [] \<longrightarrow> rc_JobDisplayName c = [])
        \<and> (i_WorkflowRef i = [] \<or> i_WorkflowRef i = unavailable \<longrightarrow> rc_WorkflowRef c \<in> {[], unavailable}))
     \<and> (\<forall>k i. get (q_Intents j) k = Some i \<and> is_running_of now c i \<longrightarrow> k = key)"

lemma bind_mutation_cases:
  assumes "bind_mutation c now j = Inr x" "wf_queue j"
  obtains (unchanged) r where "x = Inr r" "\<not> cr_Changed r" "bound_to now c (cr_Key r) j" "cr_Generation r = q_Generation j"
  | (changed) j' r i where "x = Inl (j', r)" "cr_Changed r" "bound_to now c (cr_Key r) j'"
      "get (q_Intents j) (cr_Key r) = Some i" "owner_matches c i" "run_matches c i" "i_ExpiresAt i > now"
      "i_State i \<in> {StateAssigned, StateAcquiring, StateAcquired, StateRunning}"
      "\<forall>k. k \<noteq> cr_Key r \<longrightarrow> get (q_Intents j') k = get (q_Intents j) k"
      "q_Repositories j' = q_Repositories j" "q_TerminalJobs j' = q_TerminalJobs j"
      "q_Generation j' = q_Generation j + 1" "cr_Generation r = q_Generation j'"
proof -
  obtain key exact where sel: "select_intent now c (q_Intents j) = Inr (key, exact)"
    using assms(1) by (auto simp: bind_mutation_def split: sum.splits)
  obtain i where i: "get (q_Intents j) key = Some i" "owner_matches c i" "i_ExpiresAt i > now"
      "if exact then is_running_of now c i else is_active_for now c i"
      "\<forall>k' i'. get (q_Intents j) k' = Some i' \<and> is_running_of now c i' \<longrightarrow> exact \<and> k' = key"
    using select_intent_Inr [OF sel] assms(2) by (auto simp: wf_queue_def)
  have m: "run_matches c i" using assms(1) sel i(1) by (auto simp: bind_mutation_def split: if_splits)
  show thesis
  proof (cases "bind_changes c exact i")
    case False
    let ?r = "\<lparr>cr_Key = key, cr_Generation = q_Generation j, cr_Changed = False\<rparr>"
    have "x = Inr ?r" using assms(1) sel i(1) m False by (simp add: bind_mutation_def)
    moreover have "bound_to now c key j"
      using False i m by (auto simp: bound_to_def bind_changes_def run_matches_def)
    ultimately show thesis using unchanged [of ?r] by simp
  next
    case True
    define j' where "j' = j\<lparr>q_Intents := put key (bound_intent now c exact i) (q_Intents j),
      q_Generation := q_Generation j + 1, q_UpdatedAt := now\<rparr>"
    let ?r = "\<lparr>cr_Key = key, cr_Generation = q_Generation j', cr_Changed = True\<rparr>"
    have x: "x = Inl (j', ?r)" using assms(1) sel i(1) m True by (simp add: bind_mutation_def j'_def)
    have run: "is_running_of now c (bound_intent now c exact i)"
      using i(2,3,4) by (auto simp: is_running_of_def owner_matches_def OwnerAccount_def split: if_splits)
    have st: "i_State i \<in> {StateAssigned, StateAcquiring, StateAcquired, StateRunning}"
      using i(4) by (auto simp: is_running_of_def is_active_for_def split: if_splits)
    have "bound_to now c key j'"
      using run i(5) by (auto simp: bound_to_def j'_def map_simps)
    then show thesis using changed [of j' ?r i] x i m st by (simp add: j'_def map_simps)
  qed
qed

lemma bindOnce_cases:
  assumes "bindOnce env c f = (Inr r, f')" "wf_queue_file f"
  obtains (unchanged) j where "readJournal f = Inr j" "f' = f" "\<not> cr_Changed r" "bound_to (qe_now env) c (cr_Key r) j"
  | (changed) j j' i where "readJournal f = Inr j" "readJournal f' = Inr j'" "queue_ok j'" "cr_Changed r"
      "bound_to (qe_now env) c (cr_Key r) j'" "get (q_Intents j) (cr_Key r) = Some i" "owner_matches c i" "run_matches c i"
      "i_ExpiresAt i > qe_now env" "i_State i \<in> {StateAssigned, StateAcquiring, StateAcquired, StateRunning}"
      "\<forall>k. k \<noteq> cr_Key r \<longrightarrow> get (q_Intents j') k = get (q_Intents j) k"
      "q_Repositories j' = q_Repositories j" "q_TerminalJobs j' = q_TerminalJobs j" "q_Generation j' = q_Generation j + 1"
  using assms(1) unfolding bindOnce_def
proof (cases rule: queue_update_Inr)
  case (same j)
  have wf: "wf_queue j" using same(1) assms(2) by (simp add: wf_queue_file_def)
  show thesis
    using same(2) wf by (rule bind_mutation_cases) (use unchanged [OF same(1,3)] in auto)
next
  case (written j j')
  have wf: "wf_queue j" using written(1) assms(2) by (simp add: wf_queue_file_def)
  have rd: "readJournal f' = Inr j'" using written by simp
  have ok: "queue_ok j'"
    using bind_mutation_wf [of c] written(2,3) wf by (auto simp: keeps_wf_queue_def queue_ok_def)
  show thesis
    using written(2) wf
  proof (cases rule: bind_mutation_cases)
    case (changed j1 r1 i)
    then show thesis using that(2) [OF written(1) rd ok] by simp
  qed simp
qed

lemma bindOnce_not_ready: "bindOnce env c f = (Inl CorrelationNotReady, f') \<Longrightarrow> f' = f"
  unfolding bindOnce_def queue_update_def publish_def
  by (auto split: if_splits sum.splits option.splits prod.splits write_outcome.splits)

lemma bind_loop_Inr:
  assumes "bind_loop envs pause c n left f = (Inr r, f')"
  shows "\<exists>m. n \<le> m \<and> m < n + left \<and> bindOnce (envs m) c f = (Inr r, f')"
  using assms
proof (induction left arbitrary: n)
  case 0
  then show ?case by simp
next
  case (Suc left)
  obtain res g where b: "bindOnce (envs n) c f = (res, g)" by fastforce
  show ?case
  proof (cases "res = Inl CorrelationNotReady")
    case True
    then have "g = f" using bindOnce_not_ready b by blast
    then have "bind_loop envs pause c (Suc n) left f = (Inr r, f')"
      using Suc.prems b True by (auto split: if_splits)
    from Suc.IH [OF this] show ?thesis using Suc_leD by fastforce
  next
    case False
    then have "res = Inr r \<and> g = f'"
      using Suc.prems b by (auto split: sum.splits queue_error.splits)
    then show ?thesis using b by (intro exI [of _ n]) simp
  qed
qed

section \<open>Properties\<close>


lemma select_bound:
  assumes "bound_to now c key j" "wf_queue j" "\<forall>i. get (q_Intents j) key = Some i \<longrightarrow> i_ExpiresAt i > now'" "now \<le> now'"
  shows "select_intent now' c (q_Intents j) = Inr (key, True)"
proof -
  have "is_running_of now c i" if "is_running_of now' c i" for i
    using that assms(4) by (auto simp: is_running_of_def)
  then have "sole_key MultipleRunning (is_running_of now' c) (q_Intents j) = Inr (Some key)"
    using assms(1,2,3) by (auto simp: sole_key_Some_iff wf_queue_def bound_to_def is_running_of_def)
  then show ?thesis by (simp add: select_intent_def)
qed

text \<open>Binding is idempotent. Reporting the same start again, at any later time before the intent expires, changes
  nothing: it returns the same intent as unchanged, and the journal keeps its generation, provided the runner reports a
  real workflow reference and not the placeholder GARM writes before the job is available.\<close>

theorem BindRunning_idempotent:
  assumes "bindOnce env c f = (Inr r, f')" "wf_queue_file f" "readJournal f' = Inr j'"
    and "rc_WorkflowRunID c > 0" "rc_WorkflowRef c \<noteq> unavailable"
    and "qe_context env'" "qe_paths env'" "qe_locked env'" "qe_now env \<le> qe_now env'"
    and "\<forall>i. get (q_Intents j') (cr_Key r) = Some i \<longrightarrow> i_ExpiresAt i > qe_now env'"
  shows "bindOnce env' c f' = (Inr \<lparr>cr_Key = cr_Key r, cr_Generation = q_Generation j', cr_Changed = False\<rparr>, f')"
proof -
  have b: "bound_to (qe_now env) c (cr_Key r) j'" and wf: "wf_queue j'"
    using assms(1,2) by (cases rule: bindOnce_cases; use assms(2,3) in \<open>auto simp: queue_ok_def wf_queue_file_def\<close>)+
  obtain i where i: "get (q_Intents j') (cr_Key r) = Some i" "i_Repository i = rc_Repository c"
    "i_WorkflowRunID i = rc_WorkflowRunID c" "i_JobDisplayName i = [] \<longrightarrow> rc_JobDisplayName c = []"
    "i_WorkflowRef i = [] \<or> i_WorkflowRef i = unavailable \<longrightarrow> rc_WorkflowRef c \<in> {[], unavailable}"
    using b by (auto simp: bound_to_def)
  have "\<not> bind_changes c True i" using i assms(4,5) by (auto simp: bind_changes_def)
  moreover have "run_matches c i" using i by (simp add: run_matches_def)
  ultimately have "bind_mutation c (qe_now env') j' =
      Inr (Inr \<lparr>cr_Key = cr_Key r, cr_Generation = q_Generation j', cr_Changed = False\<rparr>)"
    using select_bound [OF b wf assms(10,9)] i by (simp add: bind_mutation_def)
  then show ?thesis using assms(3,6,7,8) by (simp add: bindOnce_def queue_update_def)
qed

text \<open>Reclaiming finished work is exact. A successful release removes precisely the running intents with a runner name
  that holds no execution lease and that entered their state at least the grace period ago, reports their runners in
  order, and keeps every other intent, the repository states and the terminal markers; with a failure before the rename
  the file is untouched.\<close>

theorem ReleaseUncovered_exact:
  assumes "ReleaseUncoveredRunning env covered grace f = (Inr released, f')" "wf_queue_file f"
  shows "0 < grace \<and> (\<exists>j j'. readJournal f = Inr j \<and> readJournal f' = Inr j' \<and> queue_ok j'
    \<and> (\<forall>k i. get (q_Intents j') k = Some i \<longleftrightarrow>
         get (q_Intents j) k = Some i \<and> \<not> (i_State i = StateRunning \<and> i_RunnerName i \<noteq> [] \<and> i_RunnerName i \<notin> covered
           \<and> grace \<le> time_sub (qe_now env) (i_StateEnteredAt i)))
    \<and> sorted released
    \<and> set released = {i_RunnerName i | k i. get (q_Intents j) k = Some i \<and> get (q_Intents j') k = None}
    \<and> q_Repositories j' = q_Repositories j \<and> q_TerminalJobs j' = q_TerminalJobs j)"
proof -
  have g: "0 < grace" and u: "queue_update env (release_uncovered covered grace) f = (Inr released, f')"
    using assms(1) by (auto simp: ReleaseUncoveredRunning_def split: if_splits)
  obtain j where j: "readJournal f = Inr j" using u by (cases rule: queue_update_Inr) auto
  have wf: "wf_queue j" using j assms(2) by (simp add: wf_queue_file_def)
  then have wfi: "wf_map (q_Intents j)" by (simp add: wf_queue_def)
  let ?u = "uncovered covered grace (qe_now env)"
  have u_iff: "?u i \<longleftrightarrow> i_State i = StateRunning \<and> i_RunnerName i \<noteq> [] \<and> i_RunnerName i \<notin> covered
      \<and> grace \<le> time_sub (qe_now env) (i_StateEnteredAt i)" for i by (auto simp: uncovered_def)
  have gone: "set (map (\<lambda>(k, i). i_RunnerName i) (filter (\<lambda>(k, i). ?u i) (q_Intents j)))
      = {i_RunnerName i | k i. get (q_Intents j) k = Some i \<and> ?u i}"
    by (auto simp: get_iff_mem [OF wfi])
  show ?thesis
    using u
  proof (cases rule: queue_update_Inr)
    case (same j1)
    then have e: "filter (\<lambda>(k, i). ?u i) (q_Intents j) = []" "released = []"
      using j by (auto simp: release_uncovered_def Let_def split: if_splits)
    have none: "\<not> ?u i" if "get (q_Intents j) k = Some i" for k i
      using e(1) map_of_SomeD [OF that] by (auto simp: filter_empty_conv)
    have "queue_ok j" using wf readJournal_valid [OF j] by (simp add: queue_ok_def)
    then show ?thesis using g j same none e(2) by (intro conjI exI [of _ j]) (auto simp: u_iff [symmetric])
  next
    case (written j1 j')
    have e: "released = sort (map (\<lambda>(k, i). i_RunnerName i) (filter (\<lambda>(k, i). ?u i) (q_Intents j)))"
      "j' = j\<lparr>q_Intents := filter (\<lambda>(k, i). \<not> ?u i) (q_Intents j), q_Generation := q_Generation j + 1, q_UpdatedAt := qe_now env\<rparr>"
      using written j by (auto simp: release_uncovered_def Let_def split: if_splits)
    have get': "get (q_Intents j') k = Some i \<longleftrightarrow> get (q_Intents j) k = Some i \<and> \<not> ?u i" for k i
      using get_filter [OF wfi, of "\<lambda>k i. \<not> ?u i" k] e(2) by (auto split: option.splits)
    have get_None: "get (q_Intents j') k = None \<longleftrightarrow> (\<forall>i. get (q_Intents j) k = Some i \<longrightarrow> ?u i)" for k
      using get' [of k] by (cases "get (q_Intents j') k") auto
    have ok: "queue_ok j'"
      using release_uncovered_wf [of covered grace] written j wf by (auto simp: keeps_wf_queue_def queue_ok_def)
    have rel: "set released = {i_RunnerName i | k i. get (q_Intents j) k = Some i \<and> get (q_Intents j') k = None}"
    proof -
      have "{i_RunnerName i | k i. get (q_Intents j) k = Some i \<and> get (q_Intents j') k = None}
          = {i_RunnerName i | k i. get (q_Intents j) k = Some i \<and> ?u i}"
        unfolding get_None by (metis (lifting) option.inject)
      then show ?thesis using gone e(1) by simp
    qed
    show ?thesis
      using g j written ok get' rel e(1) e(2) unfolding u_iff by (intro conjI exI [of _ j] exI [of _ j']) auto
  qed
qed

text \<open>Recovery touches one orphan only. When it is applied, the named intent was in the journal, had never passed the
  job-available boundary, was in the state the recovery is for, had exactly the update time the operator saw and was at
  least a minute old; it is the only intent that is gone, and a dry run or an error before the rename leaves the file
  alone.\<close>

theorem recovery_removes_exact_orphan:
  assumes "recoverExactUnbound env untouched kind key expectedUpdatedAt apply_it f = (res, f')" "wf_queue_file f"
  shows "(f' \<noteq> f \<longrightarrow> apply_it \<and> untouched \<and> (\<exists>j j' i. readJournal f = Inr j \<and> readJournal f' = Inr j' \<and> queue_ok j'
      \<and> get (q_Intents j) key = Some i \<and> is_unbound i \<and> recoverable_state kind i \<and> i_UpdatedAt i = expectedUpdatedAt
      \<and> minute \<le> time_sub (qe_now env) (i_UpdatedAt i)
      \<and> (\<forall>k. get (q_Intents j') k = (if k = key then None else get (q_Intents j) k))
      \<and> q_Repositories j' = q_Repositories j \<and> q_TerminalJobs j' = q_TerminalJobs j))
    \<and> (\<forall>e. res = Inl e \<longrightarrow> qe_write env \<noteq> WriteFailsAfterRename \<longrightarrow> f' = f)
    \<and> (\<forall>r. res = Inr r \<longrightarrow> rr_Key r = key \<and> (rr_Applied r \<longleftrightarrow> apply_it))"
proof (cases "f' = f \<and> (\<forall>r. res = Inr r \<longrightarrow> rr_Key r = key \<and> (rr_Applied r \<longleftrightarrow> apply_it))")
  case True
  then show ?thesis by simp
next
  case False
  obtain j i where j: "readJournal f = Inr j" "get (q_Intents j) key = Some i"
    "recovery_check kind expectedUpdatedAt (qe_now env) i = None" "apply_it" "untouched"
    using assms(1) False
    by (auto simp: recoverExactUnbound_def Let_def split: if_splits sum.splits option.splits)
  define j' where "j' = j\<lparr>q_Intents := del key (q_Intents j), q_Generation := q_Generation j + 1, q_UpdatedAt := qe_now env\<rparr>"
  have v: "queue_validate j' = None"
    and p: "publish (qe_write env) QueueWrite \<lparr>rr_Applied = True, rr_Key = key, rr_ExpectedUpdatedAt = i_UpdatedAt i,
       rr_PreviousGeneration = q_Generation j, rr_Generation = q_Generation j', rr_RecoveredAt = qe_now env\<rparr>
       f (QueueFile (queue_doc_of j')) = (res, f')"
    using assms(1) False j by (auto simp: recoverExactUnbound_def Let_def j'_def split: if_splits option.splits)
  have ok: "queue_ok j'"
    using v j(1) assms(2) by (auto simp: queue_ok_def wf_queue_file_def wf_queue_def j'_def map_simps)
  have check: "is_unbound i \<and> recoverable_state kind i \<and> i_UpdatedAt i = expectedUpdatedAt
      \<and> minute \<le> time_sub (qe_now env) (i_UpdatedAt i)"
    using j(3) by (auto simp: recovery_check_def minimumUnboundRunningRecoveryAge_def split: if_splits)
  have "f' \<noteq> f \<Longrightarrow> readJournal f' = Inr j'" using p v by (auto simp: publish_def split: write_outcome.splits)
  moreover have "\<forall>k. get (q_Intents j') k = (if k = key then None else get (q_Intents j) k)"
    by (simp add: j'_def map_simps)
  moreover have "q_Repositories j' = q_Repositories j" "q_TerminalJobs j' = q_TerminalJobs j" by (simp_all add: j'_def)
  moreover have "\<forall>e. res = Inl e \<longrightarrow> qe_write env \<noteq> WriteFailsAfterRename \<longrightarrow> f' = f"
    "\<forall>r. res = Inr r \<longrightarrow> rr_Key r = key \<and> rr_Applied r"
    using p by (auto simp: publish_def split: write_outcome.splits)
  ultimately show ?thesis using j ok check by blast
qed

section \<open>What readers see\<close>

lemma intent_less_asym: "intent_less x y \<Longrightarrow> \<not> intent_less y x"
  by (auto simp: intent_less_def split: if_splits)

lemma intent_not_less_trans: "\<not> intent_less y x \<Longrightarrow> \<not> intent_less z y \<Longrightarrow> \<not> intent_less z x"
  by (auto simp: intent_less_def not_less split: if_splits)

lemma sorted_wrt_distinct:
  "sorted_wrt P xs \<Longrightarrow> distinct xs \<Longrightarrow> (\<And>x y. x \<in> set xs \<Longrightarrow> y \<in> set xs \<Longrightarrow> x \<noteq> y \<Longrightarrow> P x y \<Longrightarrow> Q x y) \<Longrightarrow> sorted_wrt Q xs"
  by (induction xs) auto

lemma intent_less_total: "i_Key x \<noteq> i_Key y \<Longrightarrow> intent_less x y \<or> intent_less y x"
  by (auto simp: intent_less_def)

lemma validate_intent_key: "validate_intent k i = None \<Longrightarrow> i_Key i = k"
  by (auto simp: validate_intent_def split: if_splits)

text \<open>A reader sees exactly the live queue, in order. The active intents of a snapshot are those that have not expired
  and whose job is not marked terminal (a running one counts in any case), strictly ordered by priority, then queue
  time, then key; every stored intent is expired, waiting for its terminal marker or active.\<close>

theorem ReadActive_exact:
  assumes "ReadActive env f = Inr s" "wf_queue_file f"
  shows "\<exists>j. readJournal f = Inr j \<and> sn_Stored s = length (q_Intents j)
    \<and> set (sn_Active s) = {i. \<exists>k. get (q_Intents j) k = Some i \<and> i_ExpiresAt i > re_now env
        \<and> \<not> ((\<exists>expiry. get (q_TerminalJobs j) (i_JobID i) = Some expiry \<and> expiry > re_now env) \<and> i_State i \<noteq> StateRunning)}
    \<and> distinct (sn_Active s) \<and> sorted_wrt intent_less (sn_Active s)
    \<and> sn_Expired s + length (sn_Active s) \<le> sn_Stored s"
proof -
  obtain j where j: "readJournal f = Inr j" "s = snapshot_of (re_now env) j"
    using assms(1) by (auto simp: ReadActive_def read_queue_def split: if_splits sum.splits)
  have wf: "wf_map (q_Intents j)" using assms(2) j by (simp add: wf_queue_file_def wf_queue_def)
  have keyed: "i_Key i = k" if "(k, i) \<in> set (q_Intents j)" for k i
    using readJournal_valid [OF j(1)] that by (auto simp: queue_validate_def intro: validate_intent_key)
  have inj: "inj_on i_Key (set (map snd (q_Intents j)))" and dist: "distinct (map snd (q_Intents j))"
  proof -
    have "map i_Key (map snd (q_Intents j)) = keys (q_Intents j)" using keyed by (auto simp: keys_def)
    then have "distinct (map i_Key (map snd (q_Intents j)))" using wf by (simp add: wf_map_def)
    then show "inj_on i_Key (set (map snd (q_Intents j)))" "distinct (map snd (q_Intents j))"
      unfolding distinct_map [of i_Key] by blast+
  qed
  let ?live = "filter (\<lambda>i. \<not> terminal_waiting (re_now env) (q_TerminalJobs j) i)
      (filter (\<lambda>i. \<not> intent_expired (re_now env) i) (map snd (q_Intents j)))"
  have act: "sn_Active s = sort_slice intent_less ?live" using j by (simp add: snapshot_of_def Let_def)
  have d: "distinct ?live" using dist by auto
  have "sorted_wrt intent_less (sn_Active s)"
    unfolding act
  proof (rule sorted_wrt_distinct)
    show "sorted_wrt (\<lambda>x y. \<not> intent_less y x) (sort_slice intent_less ?live)"
      by (rule sorted_sort_slice) (use intent_less_asym intent_not_less_trans in blast)+
    show "distinct (sort_slice intent_less ?live)" using d by simp
    fix x y
    assume "x \<in> set (sort_slice intent_less ?live)" "y \<in> set (sort_slice intent_less ?live)" "x \<noteq> y" "\<not> intent_less y x"
    moreover have "i_Key x \<noteq> i_Key y" using calculation inj by (auto dest: inj_onD)
    ultimately show "intent_less x y" using intent_less_total by blast
  qed
  moreover have "set (sn_Active s) = {i. \<exists>k. get (q_Intents j) k = Some i \<and> i_ExpiresAt i > re_now env
        \<and> \<not> ((\<exists>expiry. get (q_TerminalJobs j) (i_JobID i) = Some expiry \<and> expiry > re_now env) \<and> i_State i \<noteq> StateRunning)}"
    unfolding act get_iff_mem [OF wf]
    by (force simp: intent_expired_def terminal_waiting_def split: option.splits)
  moreover have "sn_Expired s + length (sn_Active s) \<le> sn_Stored s"
  proof -
    have "length ?live \<le> length (filter (\<lambda>i. \<not> intent_expired (re_now env) i) (map snd (q_Intents j)))"
      by (rule length_filter_le)
    then show ?thesis
      using sum_length_filter_compl [of "intent_expired (re_now env)" "map snd (q_Intents j)"]
      unfolding act length_sort_slice by (simp add: j(2) snapshot_of_def Let_def)
  qed
  ultimately show ?thesis using j d by (intro exI [of _ j]) (simp add: act snapshot_of_def Let_def)
qed

definition admitted_for :: "string \<Rightarrow> string \<Rightarrow> Intent \<Rightarrow> bool" where
  "admitted_for owner scaleSet i \<longleftrightarrow>
     OwnerAccount i = owner \<and> i_ScaleSetName i = scaleSet \<and> i_State i \<noteq> StateQueued"

lemma repository_fold:
  assumes "fold_err (repository_step owner scaleSet) xs acc = Inr repo"
  shows "(repo = acc \<or> (\<exists>i \<in> set xs. admitted_for owner scaleSet i \<and> i_Repository i = repo \<and> has_prefix repo (owner @ ''/'')))
    \<and> (acc \<noteq> [] \<longrightarrow> repo = acc)
    \<and> (\<forall>i \<in> set xs. admitted_for owner scaleSet i \<and> has_prefix (i_Repository i) (owner @ ''/'') \<longrightarrow> i_Repository i = repo)"
  using assms
proof (induction xs arbitrary: acc)
  case Nil
  then show ?case by simp
next
  case (Cons i xs)
  obtain a where a: "repository_step owner scaleSet i acc = Inr a" "fold_err (repository_step owner scaleSet) xs a = Inr repo"
    using Cons.prems by (auto split: sum.splits)
  have rel: "a = (if admitted_for owner scaleSet i \<and> has_prefix (i_Repository i) (owner @ ''/'') then i_Repository i else acc)"
    "admitted_for owner scaleSet i \<and> has_prefix (i_Repository i) (owner @ ''/'') \<longrightarrow> acc = [] \<or> acc = i_Repository i"
    using a(1) by (auto simp: repository_step_def admitted_for_def split: if_splits)
  have ne: "i_Repository i \<noteq> []" if "has_prefix (i_Repository i) (owner @ ''/'')"
    using that by (auto simp: has_prefix_iff)
  show ?case
    using Cons.IH [OF a(2)] rel ne by (auto split: if_splits)
qed

lemma ReadActive_member:
  assumes "ReadActive env f = Inr s" "i \<in> set (sn_Active s)"
  shows "\<exists>j k. readJournal f = Inr j \<and> (k, i) \<in> set (q_Intents j) \<and> i_ExpiresAt i > re_now env"
  using assms
  by (fastforce simp: ReadActive_def read_queue_def snapshot_of_def Let_def intent_expired_def split: if_splits sum.splits)

lemma ActiveForScaleSet_intent:
  assumes "ActiveForScaleSet env owner scaleSet f = Inr True"
  shows "\<exists>j k i. readJournal f = Inr j \<and> (k, i) \<in> set (q_Intents j) \<and> admitted_for owner scaleSet i \<and> i_ExpiresAt i > re_now env"
proof -
  obtain s i where "ReadActive env f = Inr s" "i \<in> set (sn_Active s)" "admitted_for owner scaleSet i"
    using assms by (auto simp: ActiveForScaleSet_def admitted_for_def list_ex_iff split: if_splits sum.splits)
  then show ?thesis using ReadActive_member by blast
qed

lemma authorize_loop_Inr:
  assumes "authorize_loop envs files pause c n left = (Inr (), m)" "0 < left"
  shows "\<exists>k. n \<le> k \<and> k < n + left \<and> authorizeOnce (envs k) c (files k) = Inr ()"
  using assms
proof (induction left arbitrary: n)
  case 0
  then show ?case by simp
next
  case (Suc left)
  show ?case
  proof (cases "authorizeOnce (envs n) c (files n) = Inl CorrelationNotReady")
    case True
    then have "left \<noteq> 0" "authorize_loop envs files pause c (Suc n) left = (Inr (), m)"
      using Suc.prems(1) by (auto split: if_splits)
    from Suc.IH [OF this(2)] this(1) show ?thesis by (metis Suc_leD add_Suc_shift neq0_conv)
  next
    case False
    then have "authorizeOnce (envs n) c (files n) = Inr ()"
      using Suc.prems(1) by (auto split: sum.splits queue_error.splits)
    then show ?thesis by (intro exI [of _ n]) simp
  qed
qed

text \<open>One account's queue never speaks for another. A scale set counts as active for an account only through an admitted,
  unexpired intent of that very account; the repository reported for it lies in the account and is the only one its
  admitted intents name; and a warm runner is authorised only by an admitted, unexpired intent of its own scale set,
  account and repository, seen within the configured attempts.\<close>

theorem queue_account_isolation:
  shows "(ActiveForScaleSet env owner scaleSet f = Inr True \<longrightarrow>
           (\<exists>j k i. readJournal f = Inr j \<and> (k, i) \<in> set (q_Intents j) \<and> admitted_for owner scaleSet i \<and> i_ExpiresAt i > re_now env))
    \<and> (RepositoryForScaleSet env owner scaleSet f = Inr repo \<longrightarrow> has_prefix repo (owner @ ''/'')
         \<and> (\<exists>s. ReadActive env f = Inr s \<and> (\<exists>i \<in> set (sn_Active s). admitted_for owner scaleSet i \<and> i_Repository i = repo)
              \<and> (\<forall>i \<in> set (sn_Active s). admitted_for owner scaleSet i \<and> has_prefix (i_Repository i) (owner @ ''/'')
                    \<longrightarrow> i_Repository i = repo)))
    \<and> (fst (AuthorizeRunning attempts envs files pause c) = Inr () \<longrightarrow>
         (\<exists>n j k i. n < default_attempts attempts \<and> readJournal (files n) = Inr j \<and> (k, i) \<in> set (q_Intents j)
            \<and> admitted_for (correlation_owner c) (rc_PoolName c) i \<and> i_ExpiresAt i > qe_now (envs n)
            \<and> i_Repository i \<in> {correlation_owner c, rc_Repository c} \<and> run_matches c i))"
proof (intro conjI impI)
  assume "ActiveForScaleSet env owner scaleSet f = Inr True"
  then show "\<exists>j k i. readJournal f = Inr j \<and> (k, i) \<in> set (q_Intents j) \<and> admitted_for owner scaleSet i \<and> i_ExpiresAt i > re_now env"
    by (rule ActiveForScaleSet_intent)
next
  assume "RepositoryForScaleSet env owner scaleSet f = Inr repo"
  then obtain s where s: "ReadActive env f = Inr s" "fold_err (repository_step owner scaleSet) (sn_Active s) [] = Inr repo" "repo \<noteq> []"
    by (auto simp: RepositoryForScaleSet_def split: if_splits sum.splits)
  show "has_prefix repo (owner @ ''/'')"
    "\<exists>s. ReadActive env f = Inr s \<and> (\<exists>i \<in> set (sn_Active s). admitted_for owner scaleSet i \<and> i_Repository i = repo)
       \<and> (\<forall>i \<in> set (sn_Active s). admitted_for owner scaleSet i \<and> has_prefix (i_Repository i) (owner @ ''/'') \<longrightarrow> i_Repository i = repo)"
    using repository_fold [OF s(2)] s(1,3) by auto
next
  assume a: "fst (AuthorizeRunning attempts envs files pause c) = Inr ()"
  obtain m where "authorize_loop envs files pause c 0 (default_attempts attempts) = (Inr (), m)"
    using a by (cases "authorize_loop envs files pause c 0 (default_attempts attempts)")
      (auto simp: AuthorizeRunning_def split: option.splits)
  then obtain n where n: "n < default_attempts attempts" "authorizeOnce (envs n) c (files n) = Inr ()"
    using authorize_loop_Inr [of envs files pause c 0 "default_attempts attempts" m] by (auto simp: default_attempts_def split: if_splits)
  then obtain j k i where "readJournal (files n) = Inr j" "(k, i) \<in> set (q_Intents j)" "authorizes (qe_now (envs n)) c i"
    by (auto simp: authorizeOnce_def list_ex_iff split: if_splits sum.splits)
  then show "\<exists>n j k i. n < default_attempts attempts \<and> readJournal (files n) = Inr j \<and> (k, i) \<in> set (q_Intents j)
      \<and> admitted_for (correlation_owner c) (rc_PoolName c) i \<and> i_ExpiresAt i > qe_now (envs n)
      \<and> i_Repository i \<in> {correlation_owner c, rc_Repository c} \<and> run_matches c i"
    using n(1) by (intro exI [of _ n] exI [of _ j] exI [of _ k] exI [of _ i])
      (auto simp: authorizes_def admitted_for_def owner_matches_def)
qed

text \<open>The published time to the next terminal expiry depends on the order in which the map is walked. With one expired
  marker and one still ahead, one order reports zero and the other the seconds of the live marker, because zero is also
  the value that means nothing has been seen yet.\<close>

theorem terminal_expiry_order_dependent:
  assumes "remaining_seconds now expired = 0" "0 < remaining_seconds now ahead" "a \<noteq> b"
  shows "terminal_next_expiry now [(a, expired), (b, ahead)] = remaining_seconds now ahead
    \<and> terminal_next_expiry now [(b, ahead), (a, expired)] = 0
    \<and> (\<forall>k. get [(a, expired), (b, ahead)] k = get [(b, ahead), (a, expired)] k)"
  using assms by (auto simp: terminal_next_expiry_def next_expiry_step_def Let_def)

section \<open>Witnesses\<close>

definition demo_intent :: "string \<Rightarrow> intent_state \<Rightarrow> string \<Rightarrow> Intent" where
  "demo_intent job st runner = \<lparr>i_Key = ''github-scale-set-job:v2:4:'' @ job, i_ScaleSetID = 4, i_JobID = job, i_RunnerRequestID = 0,
     i_WorkflowRunID = 0, i_JobDisplayName = ''build'', i_GitHubRunnerID = 0, i_ScaleSetName = ''linux'', i_RunnerName = runner,
     i_Owner = ''example-org'', i_Repository = ''example-org'', i_WorkflowRef = unavailable, i_EventName = unavailable,
     i_QueueTime = 100, i_FirstQueuedAt = 100, i_State = st, i_Priority = 1, i_StateEnteredAt = 100, i_UpdatedAt = 100,
     i_ExpiresAt = 90000 * second\<rparr>"

definition demo_queue :: queue_journal where
  "demo_queue = \<lparr>q_Generation = 7, q_UpdatedAt = 100,
     q_Intents = [(''github-scale-set-job:v2:4:a'', demo_intent ''a'' StateAssigned []),
                  (''github-scale-set-job:v2:4:b'', demo_intent ''b'' StateRunning ''runner-b'')],
     q_Repositories = [], q_TerminalJobs = [(''done'', 200)]\<rparr>"

definition demo_queue_file :: queue_file where "demo_queue_file = QueueFile (queue_doc_of demo_queue)"

definition demo_correlation :: RunningCorrelation where
  "demo_correlation = \<lparr>rc_RunnerName = ''runner-a'', rc_PoolName = ''linux'', rc_Repository = ''example-org/app'',
     rc_WorkflowRunID = 55, rc_JobDisplayName = ''build'', rc_WorkflowRef = ''example-org/app/.github/workflows/ci.yml''\<rparr>"

definition demo_qenv :: queue_env where
  "demo_qenv = \<lparr>qe_context = True, qe_paths = True, qe_locked = True, qe_write = WriteOk, qe_now = 1000 * second\<rparr>"

lemma demo_queue_valid: "queue_validate demo_queue = None"
  by code_simp

lemma demo_queue_read: "readJournal demo_queue_file = Inr demo_queue"
  by (simp add: demo_queue_file_def demo_queue_valid)

lemma demo_queue_wf: "wf_queue_file demo_queue_file"
proof -
  have "wf_queue demo_queue" by (simp add: wf_queue_def demo_queue_def wf_map_def keys_def)
  then show ?thesis by (simp add: wf_queue_file_def demo_queue_read)
qed

lemma demo_bind:
  "\<exists>f'. bindOnce demo_qenv demo_correlation demo_queue_file =
     (Inr \<lparr>cr_Key = ''github-scale-set-job:v2:4:a'', cr_Generation = 8, cr_Changed = True\<rparr>, f')"
proof -
  have "fst (bindOnce demo_qenv demo_correlation demo_queue_file) =
     Inr \<lparr>cr_Key = ''github-scale-set-job:v2:4:a'', cr_Generation = 8, cr_Changed = True\<rparr>" by code_simp
  then show ?thesis by (metis prod.collapse)
qed


theorem BindRunning_idempotent_witness:
  "\<exists>f' j'. snd (bindOnce demo_qenv demo_correlation demo_queue_file) = f' \<and> readJournal f' = Inr j'
     \<and> bindOnce demo_qenv demo_correlation f' =
        (Inr \<lparr>cr_Key = ''github-scale-set-job:v2:4:a'', cr_Generation = q_Generation j', cr_Changed = False\<rparr>, f')"
proof -
  obtain f' where b: "bindOnce demo_qenv demo_correlation demo_queue_file =
      (Inr \<lparr>cr_Key = ''github-scale-set-job:v2:4:a'', cr_Generation = 8, cr_Changed = True\<rparr>, f')" using demo_bind by blast
  have "case readJournal (snd (bindOnce demo_qenv demo_correlation demo_queue_file)) of Inl e \<Rightarrow> False
      | Inr j \<Rightarrow> (case get (q_Intents j) ''github-scale-set-job:v2:4:a'' of None \<Rightarrow> True | Some i \<Rightarrow> i_ExpiresAt i > qe_now demo_qenv)"
    by code_simp
  then obtain j' where j': "readJournal f' = Inr j'"
    "\<forall>i. get (q_Intents j') ''github-scale-set-job:v2:4:a'' = Some i \<longrightarrow> i_ExpiresAt i > qe_now demo_qenv"
    using b by (auto split: sum.splits option.splits)
  have "bindOnce demo_qenv demo_correlation f' =
      (Inr \<lparr>cr_Key = ''github-scale-set-job:v2:4:a'', cr_Generation = q_Generation j', cr_Changed = False\<rparr>, f')"
    using BindRunning_idempotent [OF b demo_queue_wf j'(1), of demo_qenv] j'(2)
    by (simp add: demo_correlation_def demo_qenv_def unavailable_def)
  then show ?thesis using b j' by auto
qed

theorem ReleaseUncovered_exact_witness:
  "\<exists>f' j'. ReleaseUncoveredRunning demo_qenv {} (60 * second) demo_queue_file = (Inr [''runner-b''], f')
     \<and> readJournal f' = Inr j' \<and> queue_ok j'"
proof -
  have "fst (ReleaseUncoveredRunning demo_qenv {} (60 * second) demo_queue_file) = Inr [''runner-b'']" by code_simp
  then obtain f' where e: "ReleaseUncoveredRunning demo_qenv {} (60 * second) demo_queue_file = (Inr [''runner-b''], f')"
    by (metis prod.collapse)
  show ?thesis using ReleaseUncovered_exact [OF e demo_queue_wf] e by blast
qed

theorem recovery_removes_exact_orphan_witness:
  "\<exists>r f' j'. RecoverUnboundRunning demo_qenv True ''github-scale-set-job:v2:4:b'' 100 True demo_queue_file = (Inr r, f')
     \<and> readJournal f' = Inr j' \<and> get (q_Intents j') ''github-scale-set-job:v2:4:b'' = None"
proof -
  let ?x = "recoverExactUnbound demo_qenv True RecoverRunning ''github-scale-set-job:v2:4:b'' 100 True demo_queue_file"
  have "(case fst ?x of Inl e \<Rightarrow> False | Inr r \<Rightarrow> True) \<and> snd ?x \<noteq> demo_queue_file" by code_simp
  then obtain r f' where e: "?x = (Inr r, f')" "f' \<noteq> demo_queue_file" by (cases ?x) (auto split: sum.splits)
  show ?thesis
    using recovery_removes_exact_orphan [OF e(1) demo_queue_wf] e by (auto simp: RecoverUnboundRunning_def)
qed

theorem ReadActive_exact_witness:
  "\<exists>s. ReadActive \<lparr>re_context = True, re_path = True, re_now = 1000 * second\<rparr> demo_queue_file = Inr s
     \<and> sorted_wrt intent_less (sn_Active s) \<and> length (sn_Active s) = 2"
proof -
  let ?x = "ReadActive \<lparr>re_context = True, re_path = True, re_now = 1000 * second\<rparr> demo_queue_file"
  have "case ?x of Inl e \<Rightarrow> False | Inr s \<Rightarrow> length (sn_Active s) = 2" by code_simp
  then obtain s where s: "?x = Inr s" "length (sn_Active s) = 2" by (cases ?x) auto
  show ?thesis using ReadActive_exact [OF s(1) demo_queue_wf] s by blast
qed

theorem queue_account_isolation_witness:
  "\<exists>j k i. readJournal demo_queue_file = Inr j \<and> (k, i) \<in> set (q_Intents j) \<and> admitted_for ''example-org'' ''linux'' i"
proof -
  have "ActiveForScaleSet \<lparr>re_context = True, re_path = True, re_now = 1000 * second\<rparr> ''example-org'' ''linux'' demo_queue_file = Inr True"
    by code_simp
  then show ?thesis using queue_account_isolation by blast
qed

theorem terminal_expiry_order_dependent_witness:
  "terminal_next_expiry (10 * second) [(''a'', 10 * second), (''b'', 40 * second)] = 30
   \<and> terminal_next_expiry (10 * second) [(''b'', 40 * second), (''a'', 10 * second)] = 0"
proof -
  have r: "remaining_seconds (10 * second) (10 * second) = 0" "remaining_seconds (10 * second) (40 * second) = 30" by code_simp+
  show ?thesis using terminal_expiry_order_dependent [of "10 * second" "10 * second" "40 * second" "''a''" "''b''"] r by simp
qed

end
