(* ===== verification/Job_Lifecycle.thy ===== *)
theory Job_Lifecycle
  imports Queue_Intent
begin

text \<open>
  The lifecycle stream (\<open>src/internal/joblifecycle\<close>): the tolerant view of the queue journal, the watermarks and the
  difference that turns two samples into records. Delivery over HTTP (\<open>export.go\<close>) is not modelled; the files are
  their decoded values. The theorems say that a transition is said once, and that the closing state of a completed job
  is looked up under the wrong key.
\<close>

section \<open>Data\<close>

definition jl_SchemaVersion :: int where "jl_SchemaVersion = 1"

record intentView =
  v_Key :: string
  v_JobID :: string
  v_WorkflowRunID :: int
  v_JobDisplayName :: string
  v_GitHubRunnerID :: int
  v_ScaleSetName :: string
  v_RunnerName :: string
  v_Owner :: string
  v_Repository :: string
  v_WorkflowRef :: string
  v_EventName :: string
  v_QueueTime :: time
  v_FirstQueuedAt :: time
  v_State :: string
  v_Priority :: int
  v_StateEnteredAt :: time

record journalView =
  jv_SchemaVersion :: int
  jv_Generation :: uint64
  jv_Intents :: "intentView gomap"
  jv_TerminalJobs :: "time gomap"

text \<open>One emitted transition. The waited time is kept as the duration that \<open>Seconds()\<close> converts.\<close>

record lifecycle_record =
  lr_Timestamp :: time
  lr_Key :: string
  lr_State :: string
  lr_Repository :: string
  lr_WorkflowRunID :: int
  lr_JobID :: string
  lr_JobDisplayName :: string
  lr_ScaleSet :: string
  lr_Owner :: string
  lr_RunnerName :: string
  lr_GitHubRunnerID :: int
  lr_EventName :: string
  lr_WorkflowRef :: string
  lr_Priority :: int
  lr_Waited :: duration

record Watermarks =
  wm_SchemaVersion :: int
  wm_States :: "string gomap"
  wm_Closed :: "time gomap"

datatype lifecycle_error =
    JournalUnreadable | JournalSchemaInvalid | WatermarksUnreadable | WatermarkSchema | WatermarksUnwritten | ExportFailed

definition emptyWatermarks :: Watermarks where
  "emptyWatermarks = \<lparr>wm_SchemaVersion = jl_SchemaVersion, wm_States = [], wm_Closed = []\<rparr>"

text \<open>Files: absent, not decodable (wrong size, wrong JSON), or a decoded value. A null map of a watermark document is
  already read as an empty one.\<close>

datatype 'a json_file = FileAbsent | FileBroken | FileValue 'a

definition jl_ReadJournal :: "journalView json_file \<Rightarrow> lifecycle_error + journalView" where
  "jl_ReadJournal f =
     (case f of
        FileValue j \<Rightarrow> if jv_SchemaVersion j < 1 then Inl JournalSchemaInvalid else Inr j
      | _ \<Rightarrow> Inl JournalUnreadable)"

definition ReadWatermarks :: "Watermarks json_file \<Rightarrow> lifecycle_error + Watermarks" where
  "ReadWatermarks f =
     (case f of
        FileAbsent \<Rightarrow> Inr emptyWatermarks
      | FileBroken \<Rightarrow> Inl WatermarksUnreadable
      | FileValue m \<Rightarrow> if wm_SchemaVersion m \<noteq> jl_SchemaVersion then Inl WatermarkSchema else Inr m)"

definition WriteWatermarks :: "bool \<Rightarrow> Watermarks \<Rightarrow> Watermarks json_file \<Rightarrow> lifecycle_error option \<times> Watermarks json_file" where
  "WriteWatermarks written m f =
     (if written then (None, FileValue (m\<lparr>wm_SchemaVersion := jl_SchemaVersion\<rparr>)) else (Some WatermarksUnwritten, f))"

section \<open>The difference between two samples\<close>

definition record_of :: "intentView \<Rightarrow> string \<Rightarrow> time \<Rightarrow> lifecycle_record" where
  "record_of i st when_at =
     (let since = (if is_zero (v_FirstQueuedAt i) then v_QueueTime i else v_FirstQueuedAt i);
          waited = (if \<not> is_zero since \<and> when_at > since then time_sub when_at since else 0)
      in \<lparr>lr_Timestamp = when_at, lr_Key = v_Key i, lr_State = st, lr_Repository = v_Repository i,
          lr_WorkflowRunID = v_WorkflowRunID i, lr_JobID = v_JobID i, lr_JobDisplayName = v_JobDisplayName i,
          lr_ScaleSet = v_ScaleSetName i, lr_Owner = v_Owner i, lr_RunnerName = v_RunnerName i,
          lr_GitHubRunnerID = v_GitHubRunnerID i, lr_EventName = v_EventName i, lr_WorkflowRef = v_WorkflowRef i,
          lr_Priority = v_Priority i, lr_Waited = waited\<rparr>)"

definition closing_record :: "time \<Rightarrow> string \<Rightarrow> string \<Rightarrow> lifecycle_record" where
  "closing_record now key st =
     \<lparr>lr_Timestamp = now, lr_Key = key, lr_State = st, lr_Repository = [], lr_WorkflowRunID = 0, lr_JobID = [],
      lr_JobDisplayName = [], lr_ScaleSet = [], lr_Owner = [], lr_RunnerName = [], lr_GitHubRunnerID = 0,
      lr_EventName = [], lr_WorkflowRef = [], lr_Priority = 0, lr_Waited = 0\<rparr>"

text \<open>A missing key reads as the empty state.\<close>

definition last_said :: "Watermarks \<Rightarrow> string \<Rightarrow> string" where
  "last_said m key = (case get (wm_States m) key of None \<Rightarrow> [] | Some st \<Rightarrow> st)"

definition live_records :: "Watermarks \<Rightarrow> journalView \<Rightarrow> time \<Rightarrow> lifecycle_record list" where
  "live_records m j now = concat (map (\<lambda>(key, i).
     let i = (if v_Key i = [] then i\<lparr>v_Key := key\<rparr> else i)
     in if last_said m key = v_State i then []
        else [record_of i (v_State i) (if is_zero (v_StateEnteredAt i) then now else v_StateEnteredAt i)]) (jv_Intents j))"

definition kept_closed :: "Watermarks \<Rightarrow> journalView \<Rightarrow> time gomap" where
  "kept_closed m j = filter (\<lambda>(key, closedAt). has (jv_Intents j) key \<or> has (jv_TerminalJobs j) key) (wm_Closed m)"

definition departed :: "Watermarks \<Rightarrow> journalView \<Rightarrow> string gomap" where
  "departed m j = filter (\<lambda>(key, lastState). \<not> has (jv_Intents j) key \<and> \<not> has (kept_closed m j) key) (wm_States m)"

definition closing_state :: "journalView \<Rightarrow> string \<Rightarrow> string \<Rightarrow> string" where
  "closing_state j key lastState =
     (if has (jv_TerminalJobs j) key then ''completed'' else if lastState = ''running'' then ''released'' else ''vanished'')"

definition record_less :: "lifecycle_record \<Rightarrow> lifecycle_record \<Rightarrow> bool" where
  "record_less x y = (if lr_Timestamp x = lr_Timestamp y then lr_Key x < lr_Key y else lr_Timestamp x < lr_Timestamp y)"

definition Diff :: "Watermarks \<Rightarrow> journalView \<Rightarrow> time \<Rightarrow> lifecycle_record list \<times> Watermarks" where
  "Diff m j now =
     (let closing = map (\<lambda>(key, lastState). closing_record now key (closing_state j key lastState)) (departed m j)
      in (sort_slice record_less (live_records m j now @ closing),
          \<lparr>wm_SchemaVersion = jl_SchemaVersion,
           wm_States = map (\<lambda>(key, i). (key, v_State i)) (jv_Intents j),
           wm_Closed = fold (\<lambda>(key, lastState). put key now) (departed m j) (kept_closed m j)\<rparr>))"

section \<open>Properties\<close>

lemma has_filter_key: "has (filter (\<lambda>(k, v). P k) m) k \<longleftrightarrow> has m k \<and> P k"
  by (induction m) (auto simp: has_def)

lemma get_map_state: "get (map (\<lambda>(key, i). (key, v_State i)) m) k = map_option v_State (get m k)"
  by (induction m) auto

lemma live_records_said:
  assumes "wf_map (jv_Intents j)" "\<And>key i. get (jv_Intents j) key = Some i \<Longrightarrow> last_said m key = v_State i"
  shows "live_records m j now = []"
proof -
  have "last_said m key = v_State i" if "(key, i) \<in> set (jv_Intents j)" for key i
    using that assms by (simp add: get_iff_mem)
  then show ?thesis by (auto simp: live_records_def Let_def)
qed

text \<open>A transition is said once. Sampling an unchanged journal a second time, with the watermarks the first sample
  returned, emits nothing and keeps the states, whatever the watermarks were before; and whatever the journal, a
  departed intent is forgotten as it is closed, so it is closed at most once.\<close>

theorem Diff_says_once:
  assumes "wf_map (jv_Intents j)" "Diff m j now = (records, m')"
  shows "fst (Diff m' j now') = [] \<and> wm_States (snd (Diff m' j now')) = wm_States m'
    \<and> (\<forall>key. has (departed m j) key \<longrightarrow> \<not> has (wm_States m') key \<and> has (wm_Closed m') key)
    \<and> (\<forall>key. has (wm_States m') key \<longleftrightarrow> has (jv_Intents j) key)"
proof -
  have st: "wm_States m' = map (\<lambda>(key, i). (key, v_State i)) (jv_Intents j)"
    and cl: "wm_Closed m' = fold (\<lambda>(key, lastState). put key now) (departed m j) (kept_closed m j)"
    using assms(2) by (auto simp: Diff_def Let_def)
  have has_st: "has (wm_States m') key \<longleftrightarrow> has (jv_Intents j) key" for key
    by (simp add: st has_def get_map_state)
  have live: "live_records m' j now' = []"
    by (rule live_records_said) (use assms(1) in \<open>auto simp: last_said_def st get_map_state\<close>)
  have "departed m' j = []"
  proof -
    have "has (jv_Intents j) key" if "(key, x) \<in> set (wm_States m')" for key x
      using mem_has [OF that] has_st by simp
    then show ?thesis by (auto simp: departed_def filter_empty_conv)
  qed
  then have none: "fst (Diff m' j now') = []" "wm_States (snd (Diff m' j now')) = wm_States m'"
    using live by (simp_all add: Diff_def Let_def st)
  have closed: "has (fold (\<lambda>(key, lastState). put key now) xs c) key \<longleftrightarrow> has c key \<or> has xs key" for xs c key
    by (induction xs arbitrary: c) (auto simp: map_simps has_def)
  have dep: "\<not> has (jv_Intents j) key" if "has (departed m j) key" for key
    using that by (simp add: departed_def has_filter_key)
  show ?thesis using none has_st dep by (auto simp: cl closed)
qed

lemma live_records_state:
  assumes "r \<in> set (live_records m j now)"
  shows "\<exists>x \<in> set (jv_Intents j). lr_State r = v_State (snd x)"
proof -
  obtain key i where x: "(key, i) \<in> set (jv_Intents j)"
    and r: "r \<in> set (let i = (if v_Key i = [] then i\<lparr>v_Key := key\<rparr> else i)
        in if last_said m key = v_State i then []
           else [record_of i (v_State i) (if is_zero (v_StateEnteredAt i) then now else v_StateEnteredAt i)])"
    using assms by (auto simp only: live_records_def set_concat set_map image_iff split: prod.splits)
  have "lr_State r = v_State i" using r by (auto simp: record_of_def Let_def split: if_splits)
  then show ?thesis using x by force
qed

text \<open>C29: A completed job is never reported as completed. The terminal markers of the queue journal are keyed by job
  identifier while the lifecycle is keyed by intent key, so when the intent of a job leaves the journal and the marker
  of that very job is present, its closing record still says released or vanished: the closing state is looked up
  under the intent key, which no job identifier equals.\<close>

theorem completed_never_reported:
  assumes "get (wm_States m) (intentKey scaleSet job) = Some lastState" "wf_map (wm_States m)"
    and "\<not> has (jv_Intents j) (intentKey scaleSet job)" "has (jv_TerminalJobs j) job"
    and "\<forall>t \<in> set (keys (jv_TerminalJobs j)). \<not> has_prefix t ''github-scale-set-job:''"
  shows "closing_record now (intentKey scaleSet job) (if lastState = ''running'' then ''released'' else ''vanished'')
      \<in> set (fst (Diff m j now))
    \<and> (\<forall>r \<in> set (fst (Diff m j now)). lr_Key r = intentKey scaleSet job \<longrightarrow>
         lr_State r = ''completed'' \<longrightarrow> (\<exists>(k, i) \<in> set (jv_Intents j). v_State i = ''completed''))"
proof -
  let ?k = "intentKey scaleSet job"
  have pre: "has_prefix ?k ''github-scale-set-job:''" by (simp add: intentKey_def has_prefix_iff)
  have nt: "\<not> has (jv_TerminalJobs j) ?k" using assms(5) pre by (auto simp: has_iff_keys)
  have nc: "\<not> has (kept_closed m j) ?k"
    using assms(3) nt by (simp add: kept_closed_def has_filter_key)
  have dep: "(?k, lastState) \<in> set (departed m j)"
    using assms(1,2,3) nc by (simp add: departed_def get_iff_mem)
  have 1: "closing_record now ?k (if lastState = ''running'' then ''released'' else ''vanished'') \<in> set (fst (Diff m j now))"
  proof -
    have "closing_state j ?k lastState = (if lastState = ''running'' then ''released'' else ''vanished'')"
      using nt by (simp add: closing_state_def)
    then show ?thesis
      using imageI [OF dep, of "\<lambda>(key, st). closing_record now key (closing_state j key st)"]
      by (simp add: Diff_def Let_def del: if_split)
  qed
  have 2: "\<exists>(k, i) \<in> set (jv_Intents j). v_State i = ''completed''"
    if r: "r \<in> set (fst (Diff m j now))" "lr_Key r = ?k" "lr_State r = ''completed''" for r
  proof -
    have "r \<in> set (live_records m j now) \<or> (\<exists>(k, st) \<in> set (departed m j). r = closing_record now k (closing_state j k st))"
      using r(1) by (auto simp: Diff_def Let_def)
    then show ?thesis
    proof
      assume "r \<in> set (live_records m j now)"
      then obtain x where "x \<in> set (jv_Intents j)" "lr_State r = v_State (snd x)" using live_records_state by blast
      then show ?thesis using r(3) by (intro bexI [of _ x]) (auto split: prod.splits)
    next
      assume "\<exists>(k, st) \<in> set (departed m j). r = closing_record now k (closing_state j k st)"
      then show ?thesis using r(2,3) nt by (auto simp: closing_record_def closing_state_def split: if_splits)
    qed
  qed
  show ?thesis using 1 2 by blast
qed

section \<open>Witnesses\<close>

definition demo_view :: "string \<Rightarrow> string \<Rightarrow> intentView" where
  "demo_view job st = \<lparr>v_Key = [], v_JobID = job, v_WorkflowRunID = 0, v_JobDisplayName = [], v_GitHubRunnerID = 0,
     v_ScaleSetName = ''linux'', v_RunnerName = [], v_Owner = [], v_Repository = ''org/app'', v_WorkflowRef = [], v_EventName = [],
     v_QueueTime = 5, v_FirstQueuedAt = 5, v_State = st, v_Priority = 0, v_StateEnteredAt = 9\<rparr>"

definition demo_journal :: journalView where
  "demo_journal = \<lparr>jv_SchemaVersion = 6, jv_Generation = 3,
     jv_Intents = [(''github-scale-set-job:v2:4:a'', demo_view ''a'' ''running'')], jv_TerminalJobs = []\<rparr>"

definition demo_after :: journalView where
  "demo_after = \<lparr>jv_SchemaVersion = 6, jv_Generation = 4, jv_Intents = [], jv_TerminalJobs = [(''a'', 900)]\<rparr>"

theorem Diff_says_once_witness:
  "length (fst (Diff emptyWatermarks demo_journal 10)) = 1
   \<and> fst (Diff (snd (Diff emptyWatermarks demo_journal 10)) demo_journal 20) = []"
proof -
  have "length (fst (Diff emptyWatermarks demo_journal 10)) = 1" by code_simp
  moreover have "wf_map (jv_Intents demo_journal)" by (simp add: demo_journal_def wf_map_def keys_def)
  ultimately show ?thesis using Diff_says_once [of demo_journal emptyWatermarks 10] by (metis prod.collapse)
qed

theorem completed_never_reported_witness:
  "closing_record 20 ''github-scale-set-job:v2:4:a'' ''released''
     \<in> set (fst (Diff (snd (Diff emptyWatermarks demo_journal 10)) demo_after 20))
   \<and> has (jv_TerminalJobs demo_after) ''a''"
proof -
  let ?m = "snd (Diff emptyWatermarks demo_journal 10)"
  have k: "intentKey 4 ''a'' = ''github-scale-set-job:v2:4:a''" by code_simp
  have "get (wm_States ?m) (intentKey 4 ''a'') = Some ''running''" by code_simp
  moreover have "wf_map (wm_States ?m)" by (simp add: Diff_def Let_def demo_journal_def wf_map_def keys_def)
  moreover have "\<not> has (jv_Intents demo_after) (intentKey 4 ''a'')" "has (jv_TerminalJobs demo_after) ''a''"
    "\<forall>t \<in> set (keys (jv_TerminalJobs demo_after)). \<not> has_prefix t ''github-scale-set-job:''"
    by (simp_all add: demo_after_def has_def keys_def has_prefix_def)
  ultimately show ?thesis using completed_never_reported [of ?m 4 "''a''" "''running''" demo_after 20] k by simp
qed

end
