(* ===== verification/Cache_Namespace.thy ===== *)
theory Cache_Namespace
  imports Go_Prelude
begin

text \<open>
  Cache object keys (\<open>src/internal/cachenamespace/namespace.go\<close>): trust classes, credential roots, registry and
  actions-cache prefixes and the full object key. Go's \<open>strings.ToLower\<close> is modelled on the ASCII letters, which is
  what account and repository names consist of. The theorems say that roots round trip, that classes and repositories
  are isolated, and where the actions-cache prefix is not beside the trust roots.
\<close>

section \<open>Trust classes and roots\<close>

datatype TrustClass = Trusted | Untrusted | Promoted | TrustOther string

datatype namespace_error =
    UnknownClass | RepositoryShape string | PrefixShape string | ComponentEmpty string | ComponentSegment string | ObjectName string

definition class_string :: "TrustClass \<Rightarrow> string" where
  "class_string c = (case c of Trusted \<Rightarrow> ''trusted'' | Untrusted \<Rightarrow> ''untrusted'' | Promoted \<Rightarrow> ''promoted'' | TrustOther s \<Rightarrow> s)"

text \<open>The conversion \<open>TrustClass(s)\<close> of a string.\<close>

definition class_of :: "string \<Rightarrow> TrustClass" where
  "class_of s = (if s = ''trusted'' then Trusted else if s = ''untrusted'' then Untrusted
     else if s = ''promoted'' then Promoted else TrustOther s)"

definition class_Valid :: "TrustClass \<Rightarrow> bool" where
  "class_Valid c \<longleftrightarrow> c = Trusted \<or> c = Untrusted \<or> c = Promoted"

definition TrustClasses :: "TrustClass list" where "TrustClasses = [Trusted, Untrusted, Promoted]"

definition trustSegment :: string where "trustSegment = ''trust''"
definition actionsCacheSegment :: string where "actionsCacheSegment = ''cache''"

definition validSegment :: "string \<Rightarrow> bool" where
  "validSegment s \<longleftrightarrow> s \<noteq> [] \<and> s \<noteq> ''.'' \<and> s \<noteq> ''..'' \<and> \<not> contains_any s [CHR ''/'', CHR 0x5C]"

definition join_slash :: "string list \<Rightarrow> string" where
  "join_slash parts = join_with CHR ''/'' parts"

definition repository_parts :: "string \<Rightarrow> (string \<times> string) option" where
  "repository_parts repository =
     (case split_on CHR ''/'' repository of
        [a, b] \<Rightarrow> if validSegment a \<and> validSegment b then Some (a, b) else None
      | _ \<Rightarrow> None)"

definition PrefixRootFor :: "string \<Rightarrow> TrustClass \<Rightarrow> namespace_error + string" where
  "PrefixRootFor repository c =
     (if \<not> class_Valid c then Inl UnknownClass
      else (case repository_parts repository of
              None \<Rightarrow> Inl (RepositoryShape repository)
            | Some (a, b) \<Rightarrow> Inr (join_slash [a, b, trustSegment, class_string c])))"

definition to_lower :: "string \<Rightarrow> string" where
  "to_lower s = map (\<lambda>c. if CHR ''A'' \<le> c \<and> c \<le> CHR ''Z'' then char_of (of_char c + 32 :: nat) else c) s"

definition BuildcacheRepositoryFor :: "string \<Rightarrow> TrustClass \<Rightarrow> namespace_error + string" where
  "BuildcacheRepositoryFor repository c =
     (if \<not> class_Valid c then Inl UnknownClass
      else (case repository_parts repository of
              None \<Rightarrow> Inl (RepositoryShape repository)
            | Some (a, b) \<Rightarrow> Inr (join_slash [''buildcache'', to_lower a, to_lower b, class_string c])))"

definition ActionsCachePrefixFor :: "string \<Rightarrow> namespace_error + string" where
  "ActionsCachePrefixFor repository =
     (case repository_parts repository of
        None \<Rightarrow> Inl (RepositoryShape repository)
      | Some (a, b) \<Rightarrow> Inr (join_slash [actionsCacheSegment, a, b]))"

definition ParsePrefixRoot :: "string \<Rightarrow> namespace_error + string \<times> TrustClass" where
  "ParsePrefixRoot rootp =
     (case split_on CHR ''/'' rootp of
        [a, b, t, c] \<Rightarrow>
          if \<not> validSegment a \<or> \<not> validSegment b \<or> t \<noteq> trustSegment then Inl (PrefixShape rootp)
          else if \<not> class_Valid (class_of c) then Inl UnknownClass
          else Inr (a @ ''/'' @ b, class_of c)
      | _ \<Rightarrow> Inl (PrefixShape rootp))"

definition Organization :: string where "Organization = ''example-org''"
definition Repository_name :: string where "Repository_name = ''example-actions''"

definition PrefixRoot :: "TrustClass \<Rightarrow> namespace_error + string" where
  "PrefixRoot c = PrefixRootFor (Organization @ ''/'' @ Repository_name) c"

section \<open>Object keys\<close>

record cache_object =
  o_Class :: TrustClass
  o_Platform :: string
  o_Arch :: string
  o_Toolchain :: string
  o_LockDigest :: string
  o_RefClass :: string
  o_Name :: string

definition check_component :: "string \<times> string \<Rightarrow> namespace_error option" where
  "check_component = (\<lambda>(name, s). checks [
     (s = [], ComponentEmpty name),
     (contains_any s [CHR ''/'', CHR 0x5C] \<or> s = ''.'' \<or> s = ''..'', ComponentSegment name)])"

definition object_segments :: "cache_object \<Rightarrow> (string \<times> string) list" where
  "object_segments obj =
     [(''platform'', o_Platform obj), (''architecture'', o_Arch obj), (''toolchain'', o_Toolchain obj),
      (''lock_digest'', o_LockDigest obj), (''ref_class'', o_RefClass obj)]"

definition object_Key :: "cache_object \<Rightarrow> namespace_error + string" where
  "object_Key obj =
     (case PrefixRoot (o_Class obj) of
        Inl e \<Rightarrow> Inl e
      | Inr rootp \<Rightarrow>
        (case first_error check_component (object_segments obj) of
           Some e \<Rightarrow> Inl e
         | None \<Rightarrow>
           if o_Name obj = [] \<or> has_prefix (o_Name obj) ''/'' \<or> contains (o_Name obj) ''..'' then Inl (ObjectName (o_Name obj))
           else Inr (join_slash (rootp # map snd (object_segments obj)) @ ''/'' @ o_Name obj)))"

definition namespace_Template :: string where
  "namespace_Template = join_slash [''{organization}'', ''{repository}'', trustSegment, ''{trust}'', ''{platform}'',
     ''{architecture}'', ''{toolchain}'', ''{lock_digest}'', ''{ref_class}'']"

definition namespace_Identifier :: "string \<Rightarrow> namespace_error + string" where
  "namespace_Identifier rootp = (case ParsePrefixRoot rootp of Inl e \<Rightarrow> Inl e | Inr (repository, c) \<Rightarrow> Inr (class_string c))"

definition Counterpart :: "TrustClass \<Rightarrow> namespace_error + TrustClass" where
  "Counterpart c = (case c of Untrusted \<Rightarrow> Inr Trusted | Trusted \<Rightarrow> Inr Untrusted | Promoted \<Rightarrow> Inr Untrusted | TrustOther s \<Rightarrow> Inl UnknownClass)"

section \<open>Paths\<close>

text \<open>A prefix grants an object exactly when it is the object's key up to a separator.\<close>

definition under :: "string \<Rightarrow> string \<Rightarrow> bool" where
  "under rootp key \<longleftrightarrow> has_prefix key (rootp @ ''/'')"

lemma validSegment_no_slash: "validSegment s \<Longrightarrow> CHR ''/'' \<notin> set s"
  by (auto simp: validSegment_def contains_any_def list_ex_iff)

lemma class_string_inject: "class_Valid c \<Longrightarrow> class_Valid d \<Longrightarrow> class_string c = class_string d \<longleftrightarrow> c = d"
  by (auto simp: class_Valid_def class_string_def)

lemma class_of_string [simp]: "class_Valid c \<Longrightarrow> class_of (class_string c) = c"
  by (auto simp: class_Valid_def class_of_def class_string_def)

lemma class_string_of [simp]: "class_string (class_of s) = s"
  by (auto simp: class_of_def class_string_def)

lemma class_string_no_slash: "class_Valid c \<Longrightarrow> CHR ''/'' \<notin> set (class_string c)"
  by (auto simp: class_Valid_def class_string_def)

lemma split_join_slash: "parts \<noteq> [] \<Longrightarrow> \<forall>p \<in> set parts. CHR ''/'' \<notin> set p \<Longrightarrow> split_on CHR ''/'' (join_slash parts) = parts"
  unfolding join_slash_def by (rule split_on_join) auto

lemma repository_parts_iff:
  "repository_parts r = Some (a, b) \<longleftrightarrow> r = a @ ''/'' @ b \<and> validSegment a \<and> validSegment b"
proof
  assume *: "repository_parts r = Some (a, b)"
  then have s: "split_on CHR ''/'' r = [a, b]" "validSegment a" "validSegment b"
    by (auto simp: repository_parts_def split: list.splits if_splits)
  then show "r = a @ ''/'' @ b \<and> validSegment a \<and> validSegment b"
    using join_split [of "CHR ''/''" r] by simp
next
  assume "r = a @ ''/'' @ b \<and> validSegment a \<and> validSegment b"
  then show "repository_parts r = Some (a, b)"
    using split_on_Cons_sep [of "CHR ''/''" a b] validSegment_no_slash by (simp add: repository_parts_def)
qed

lemma trust_no_slash: "CHR ''/'' \<notin> set trustSegment"
  by (simp add: trustSegment_def)

lemma PrefixRootFor_iff:
  "PrefixRootFor r c = Inr rootp \<longleftrightarrow> class_Valid c \<and>
     (\<exists>a b. r = a @ ''/'' @ b \<and> validSegment a \<and> validSegment b \<and> rootp = join_slash [a, b, trustSegment, class_string c])"
proof (cases "repository_parts r")
  case None
  then have "\<not> (\<exists>a b. r = a @ ''/'' @ b \<and> validSegment a \<and> validSegment b)"
    using repository_parts_iff [of r] by (metis option.distinct(1))
  then show ?thesis using None by (auto simp: PrefixRootFor_def)
next
  case (Some ab)
  obtain a b where ab: "ab = (a, b)" by (cases ab)
  have u: "r = x @ ''/'' @ y \<and> validSegment x \<and> validSegment y \<longleftrightarrow> x = a \<and> y = b" for x y
    using repository_parts_iff [of r x y] Some ab by auto
  have "(\<exists>x y. r = x @ ''/'' @ y \<and> validSegment x \<and> validSegment y \<and> rootp = join_slash [x, y, trustSegment, class_string c])
      \<longleftrightarrow> rootp = join_slash [a, b, trustSegment, class_string c]"
    using u by metis
  then show ?thesis using Some ab by (auto simp: PrefixRootFor_def)
qed

lemma split_root:
  "validSegment a \<Longrightarrow> validSegment b \<Longrightarrow> class_Valid c \<Longrightarrow>
    split_on CHR ''/'' (join_slash [a, b, trustSegment, class_string c]) = [a, b, trustSegment, class_string c]"
  using validSegment_no_slash class_string_no_slash trust_no_slash by (intro split_join_slash) auto

lemma ParsePrefixRoot_of_root:
  assumes "PrefixRootFor repository c = Inr rootp"
  shows "ParsePrefixRoot rootp = Inr (repository, c)"
proof -
  obtain a b where "class_Valid c" "repository = a @ ''/'' @ b" "validSegment a" "validSegment b"
    "rootp = join_slash [a, b, trustSegment, class_string c]" using assms by (auto simp: PrefixRootFor_iff)
  then show ?thesis by (simp add: ParsePrefixRoot_def split_root)
qed

text \<open>Cache roots round trip. The root built for a repository and a trust class parses back to exactly that repository
  and class, and whatever parses was built from what it parses to; so two roots are equal only for the same repository
  and class.\<close>

theorem prefix_root_roundtrip:
  "(PrefixRootFor repository c = Inr rootp) \<longleftrightarrow> (ParsePrefixRoot rootp = Inr (repository, c))"
proof
  assume "PrefixRootFor repository c = Inr rootp"
  then show "ParsePrefixRoot rootp = Inr (repository, c)" by (rule ParsePrefixRoot_of_root)
next
  assume p: "ParsePrefixRoot rootp = Inr (repository, c)"
  then obtain a b t s where s: "split_on CHR ''/'' rootp = [a, b, t, s]" by (auto simp: ParsePrefixRoot_def split: list.splits)
  then have "validSegment a" "validSegment b" "t = trustSegment" "class_Valid (class_of s)" "repository = a @ ''/'' @ b" "c = class_of s"
    using p by (auto simp: ParsePrefixRoot_def split: if_splits)
  moreover have "rootp = join_slash [a, b, t, s]" using join_split [of "CHR ''/''" rootp] s by (simp add: join_slash_def)
  ultimately show "PrefixRootFor repository c = Inr rootp" by (auto simp: PrefixRootFor_iff)
qed

lemma split_join_append:
  "parts \<noteq> [] \<Longrightarrow> \<forall>p \<in> set parts. CHR ''/'' \<notin> set p \<Longrightarrow>
    split_on CHR ''/'' (join_slash parts @ CHR ''/'' # s) = parts @ split_on CHR ''/'' s"
proof (induction parts rule: induct_list012)
  case (3 x y zs)
  then show ?case by (simp add: join_slash_def split_on_Cons_sep)
qed (simp_all add: join_slash_def split_on_Cons_sep)

lemma root_segments:
  assumes "PrefixRootFor r c = Inr rootp" "under rootp key"
  shows "\<exists>a b rest. r = a @ ''/'' @ b \<and> class_Valid c \<and> split_on CHR ''/'' key = a # b # trustSegment # class_string c # rest"
proof -
  obtain a b where ab: "class_Valid c" "r = a @ ''/'' @ b" "validSegment a" "validSegment b"
    "rootp = join_slash [a, b, trustSegment, class_string c]" using assms(1) by (auto simp: PrefixRootFor_iff)
  obtain s where k: "key = rootp @ CHR ''/'' # s" using assms(2) by (auto simp: under_def has_prefix_iff)
  have "split_on CHR ''/'' key = [a, b, trustSegment, class_string c] @ split_on CHR ''/'' s"
    unfolding k ab(5) using ab validSegment_no_slash class_string_no_slash trust_no_slash by (intro split_join_append) auto
  then show ?thesis using ab by auto
qed

lemma check_component_no_slash: "check_component (n, s) = None \<Longrightarrow> CHR ''/'' \<notin> set s"
  by (auto simp: check_component_def contains_any_def list_ex_iff split: if_splits)

lemma object_Key_split:
  assumes "object_Key obj = Inr k"
  shows "class_Valid (o_Class obj) \<and> split_on CHR ''/'' k =
    [Organization, Repository_name, trustSegment, class_string (o_Class obj), o_Platform obj, o_Arch obj, o_Toolchain obj,
     o_LockDigest obj, o_RefClass obj] @ split_on CHR ''/'' (o_Name obj)
    \<and> (\<exists>rootp. PrefixRoot (o_Class obj) = Inr rootp \<and> under rootp k)"
proof -
  obtain rootp where r: "PrefixRoot (o_Class obj) = Inr rootp" "first_error check_component (object_segments obj) = None"
    "k = join_slash (rootp # map snd (object_segments obj)) @ ''/'' @ o_Name obj"
    using assms by (auto simp: object_Key_def split: sum.splits option.splits if_splits)
  have v: "class_Valid (o_Class obj)" using r(1) by (auto simp: PrefixRoot_def PrefixRootFor_iff)
  have ab: "repository_parts (Organization @ ''/'' @ Repository_name) = Some (Organization, Repository_name)" by code_simp
  have root: "rootp = join_slash [Organization, Repository_name, trustSegment, class_string (o_Class obj)]"
    using r(1) v ab by (auto simp: PrefixRoot_def PrefixRootFor_def)
  let ?segs = "[Organization, Repository_name, trustSegment, class_string (o_Class obj), o_Platform obj, o_Arch obj,
    o_Toolchain obj, o_LockDigest obj, o_RefClass obj]"
  have k: "k = join_slash ?segs @ CHR ''/'' # o_Name obj"
    unfolding r(3) root by (simp add: join_slash_def object_segments_def)
  have "\<forall>x \<in> set (object_segments obj). check_component x = None" using r(2) by (simp only: first_error_None_iff)
  then have "\<forall>p \<in> set ?segs. CHR ''/'' \<notin> set p"
    using class_string_no_slash [OF v] trust_no_slash
    by (auto simp: object_segments_def Organization_def Repository_name_def dest: check_component_no_slash)
  then have sp: "split_on CHR ''/'' k = ?segs @ split_on CHR ''/'' (o_Name obj)"
    unfolding k by (intro split_join_append) auto
  have u: "under rootp k"
    unfolding under_def has_prefix_iff r(3) by (intro exI) (simp add: join_slash_def object_segments_def)
  show ?thesis by (intro conjI exI) (fact v, fact sp, fact r(1), fact u)
qed

text \<open>C30: Trust classes are isolated. No key lies under the roots of two different repositories or classes; every object key
  lies under the root of its own class; and the key determines the object, its class, its platform, its toolchain, its
  lock digest, its ref class and its name.\<close>

theorem cache_keys_isolated:
  "(PrefixRootFor r c = Inr x \<and> PrefixRootFor r' c' = Inr y \<and> under x key \<and> under y key \<longrightarrow> r = r' \<and> c = c')
   \<and> (object_Key obj = Inr k \<longrightarrow> (\<exists>rootp. PrefixRoot (o_Class obj) = Inr rootp \<and> under rootp k))
   \<and> (object_Key obj = Inr k \<and> object_Key obj' = Inr k \<longrightarrow> obj = obj')"
proof (intro conjI impI)
  assume *: "PrefixRootFor r c = Inr x \<and> PrefixRootFor r' c' = Inr y \<and> under x key \<and> under y key"
  obtain a b rest where 1: "r = a @ ''/'' @ b" "class_Valid c" "split_on CHR ''/'' key = a # b # trustSegment # class_string c # rest"
    using root_segments [of r c x key] * by auto
  obtain a' b' rest' where 2: "r' = a' @ ''/'' @ b'" "class_Valid c'" "split_on CHR ''/'' key = a' # b' # trustSegment # class_string c' # rest'"
    using root_segments [of r' c' y key] * by auto
  show "r = r'" "c = c'" using 1 2 class_string_inject by auto
next
  assume "object_Key obj = Inr k"
  then show "\<exists>rootp. PrefixRoot (o_Class obj) = Inr rootp \<and> under rootp k" using object_Key_split by blast
next
  assume *: "object_Key obj = Inr k \<and> object_Key obj' = Inr k"
  have 1: "class_Valid (o_Class obj)" "class_Valid (o_Class obj')"
    and e: "class_string (o_Class obj) = class_string (o_Class obj')" "o_Platform obj = o_Platform obj'" "o_Arch obj = o_Arch obj'"
    "o_Toolchain obj = o_Toolchain obj'" "o_LockDigest obj = o_LockDigest obj'" "o_RefClass obj = o_RefClass obj'"
    "split_on CHR ''/'' (o_Name obj) = split_on CHR ''/'' (o_Name obj')"
    using object_Key_split [of obj k] object_Key_split [of obj' k] * by auto
  have "o_Name obj = o_Name obj'" using e(7) join_split by metis
  then show "obj = obj'" using e 1 class_string_inject by (intro cache_object.equality) auto
qed

text \<open>The actions cache does not live beside the trust roots for every repository. The prefix granted for the actions
  cache of a repository named trust contains all trust roots of a repository of the organization cache.\<close>

theorem actions_cache_covers_foreign_roots:
  assumes "validSegment owner" "class_Valid c"
  shows "\<exists>granted rootp. ActionsCachePrefixFor (owner @ ''/trust'') = Inr granted
    \<and> PrefixRootFor (''cache/'' @ owner) c = Inr rootp \<and> under granted rootp"
proof -
  have v: "validSegment ''trust''" "validSegment ''cache''" by code_simp+
  have p: "repository_parts (owner @ ''/trust'') = Some (owner, ''trust'')"
    "repository_parts (''cache/'' @ owner) = Some (''cache'', owner)"
    using repository_parts_iff [of "owner @ ''/trust''" owner "''trust''"] repository_parts_iff [of "''cache/'' @ owner" "''cache''" owner]
      v assms(1) by simp_all
  show ?thesis
    using p assms(2)
    by (simp add: ActionsCachePrefixFor_def PrefixRootFor_def under_def has_prefix_iff join_slash_def
        actionsCacheSegment_def trustSegment_def)
qed

section \<open>Witnesses\<close>

definition demo_object :: cache_object where
  "demo_object = \<lparr>o_Class = Untrusted, o_Platform = ''linux'', o_Arch = ''amd64'', o_Toolchain = ''go1.24'', o_LockDigest = ''abc'',
     o_RefClass = ''canary'', o_Name = ''dir/object.txt''\<rparr>"

theorem cache_keys_isolated_witness:
  "\<exists>k rootp. object_Key demo_object = Inr k \<and> PrefixRoot Untrusted = Inr rootp \<and> under rootp k"
proof -
  have "case object_Key demo_object of Inl e \<Rightarrow> False | Inr k \<Rightarrow> True" by code_simp
  then obtain k where k: "object_Key demo_object = Inr k" by (cases "object_Key demo_object") auto
  have "o_Class demo_object = Untrusted" by (simp add: demo_object_def)
  then show ?thesis using cache_keys_isolated [of _ _ _ _ _ _ _ demo_object k] k by metis
qed

theorem actions_cache_covers_foreign_roots_witness:
  "\<exists>granted rootp. ActionsCachePrefixFor ''acme/trust'' = Inr granted \<and> PrefixRootFor ''cache/acme'' Promoted = Inr rootp \<and> under granted rootp"
proof -
  have "validSegment ''acme''" "class_Valid Promoted" by code_simp+
  from actions_cache_covers_foreign_roots [OF this] show ?thesis by simp
qed

end
