(* ===== verification/Cache_Claims.thy ===== *)
theory Cache_Claims
  imports Durable_Store Cache_Namespace Go_Crypto
begin

text \<open>
  The claim journal of the cache broker (\<open>src/internal/cachebroker/journal.go\<close>): one-job claims with a hashed token, their
  validation, and the operations that add, verify, consume and remove them under the lock, purging what has expired. The
  lock, the clock and the way a write goes are the environment of \<open>Durable_Store\<close>, whose contract the store is shown to
  keep. The theorem says that a claim serves one repository.
\<close>

section \<open>Claims (\<open>journal.go\<close>)\<close>

definition JournalSchemaVersion :: int where "JournalSchemaVersion = 1"
definition ClaimTokenBytes :: nat where "ClaimTokenBytes = 32"
definition ClaimTTL :: duration where "ClaimTTL = 15 * minute"
definition CorrelationTTL :: duration where "CorrelationTTL = 24 * hour"

record cache_claim =
  k_InstanceName :: string
  k_PoolName :: string
  k_Role :: string
  k_TokenSHA256 :: string
  k_CreatedAt :: time
  k_ExpiresAt :: time
  k_ClaimedRepository :: string
  k_ClaimedAt :: time

record claim_journal =
  cj_SchemaVersion :: int
  cj_Generation :: uint64
  cj_UpdatedAt :: time
  cj_Claims :: "cache_claim gomap"

text \<open>Files: absent, not a private file with one decodable journal whose claim map is present, or a decoded one.\<close>

datatype claim_file = NoClaims | BadClaims | ClaimsFile claim_journal

datatype broker_error =
    TokenInvalid | OwnershipInvalid | RoleInvalid | AlreadyBound | ClaimAbsent | ClaimExpired | HashInvalid
  | TokenMismatch | BoundElsewhere | BoundAbsent | CorrelationExpired | CJournalInvalid string | CJournalUnreadable | ClaimSchema
  | CLock | CWrite

definition lower_or_digit :: "char \<Rightarrow> bool" where
  "lower_or_digit c \<longleftrightarrow> (CHR ''a'' \<le> c \<and> c \<le> CHR ''z'') \<or> (CHR ''0'' \<le> c \<and> c \<le> CHR ''9'')"

text \<open>The expressions \<open>^[a-z][a-z0-9-]{5,63}$\<close> and \<open>^[0-9a-f]{64}$\<close>.\<close>

definition instancePattern :: "string \<Rightarrow> bool" where
  "instancePattern s \<longleftrightarrow>
     (case s of [] \<Rightarrow> False
      | c # cs \<Rightarrow> CHR ''a'' \<le> c \<and> c \<le> CHR ''z'' \<and> 5 \<le> length cs \<and> length cs \<le> 63
                   \<and> list_all (\<lambda>x. lower_or_digit x \<or> x = CHR ''-'') cs)"

definition hashPattern :: "string \<Rightarrow> bool" where
  "hashPattern s \<longleftrightarrow> length s = 64 \<and> list_all (\<lambda>c. c \<in> set ''0123456789abcdef'') s"

definition roleContract :: "string \<Rightarrow> (TrustClass \<times> string) option" where
  "roleContract role =
     (if role = ''trusted-writer'' then Some (Trusted, ''read-write'')
      else if role = ''untrusted-writer'' then Some (Untrusted, ''read-write'')
      else if role = ''release-reader'' then Some (Promoted, ''read-only'')
      else None)"

definition validClaimRole :: "string \<Rightarrow> bool" where
  "validClaimRole role \<longleftrightarrow> role = ''correlation-only'' \<or> roleContract role \<noteq> None"

definition splitRepository :: "string \<Rightarrow> (string \<times> string) option" where
  "splitRepository s =
     (case split_on CHR ''/'' s of
        [a, b] \<Rightarrow> if a = [] \<or> b = [] \<or> contains_any s [CHR 0x5C, CHR '' ''] then None else Some (a, b)
      | _ \<Rightarrow> None)"

definition HashToken :: "nat list \<Rightarrow> string" where
  "HashToken token = hex_encode (sha256 token)"

definition claim_error :: "string \<Rightarrow> cache_claim \<Rightarrow> broker_error option" where
  "claim_error key c = checks [
     (key \<noteq> k_InstanceName c \<or> \<not> instancePattern key \<or> k_PoolName c = [] \<or> \<not> hashPattern (k_TokenSHA256 c), CJournalInvalid key),
     (\<not> validClaimRole (k_Role c) \<or> is_zero (k_CreatedAt c) \<or> \<not> k_ExpiresAt c > k_CreatedAt c
        \<or> time_sub (k_ExpiresAt c) (k_CreatedAt c) > ClaimTTL, CJournalInvalid key),
     ((k_ClaimedRepository c = []) \<noteq> is_zero (k_ClaimedAt c), CJournalInvalid key),
     (k_ClaimedRepository c \<noteq> [] \<and> (splitRepository (k_ClaimedRepository c) = None \<or> k_ClaimedAt c < k_CreatedAt c
        \<or> k_ClaimedAt c > k_ExpiresAt c), CJournalInvalid key)]"

definition claims_Validate :: "claim_journal \<Rightarrow> broker_error option" where
  "claims_Validate j =
     (if cj_SchemaVersion j \<noteq> JournalSchemaVersion then Some ClaimSchema
      else first_error (\<lambda>k. case get (cj_Claims j) k of None \<Rightarrow> None | Some c \<Rightarrow> claim_error k c) (sort (keys (cj_Claims j))))"

definition read_claims :: "claim_file \<Rightarrow> broker_error + claim_journal" where
  "read_claims f =
     (case f of
        NoClaims \<Rightarrow> Inr \<lparr>cj_SchemaVersion = JournalSchemaVersion, cj_Generation = 0, cj_UpdatedAt = 0, cj_Claims = []\<rparr>
      | BadClaims \<Rightarrow> Inl CJournalUnreadable
      | ClaimsFile j \<Rightarrow> (case claims_Validate j of Some e \<Rightarrow> Inl e | None \<Rightarrow> Inr j))"

definition claimRetained :: "time \<Rightarrow> cache_claim \<Rightarrow> bool" where
  "claimRetained now c \<longleftrightarrow>
     (if k_ClaimedRepository c = [] then k_ExpiresAt c > now else k_ClaimedAt c + CorrelationTTL > now)"

definition purge :: "time \<Rightarrow> claim_journal \<Rightarrow> claim_journal" where
  "purge now j = j\<lparr>cj_Claims := filter (\<lambda>(k, c). claimRetained now c) (cj_Claims j)\<rparr>"

text \<open>The comparison of the two encodings: maps are encoded in key order.\<close>

definition same_claims :: "cache_claim gomap \<Rightarrow> cache_claim gomap \<Rightarrow> bool" where
  "same_claims m n \<longleftrightarrow> length m = length n \<and> list_all (\<lambda>(k, c). get n k = Some c) m"

definition cb_update ::
    "store_env \<Rightarrow> (time \<Rightarrow> claim_journal \<Rightarrow> broker_error + claim_journal \<times> 'r) \<Rightarrow> claim_file \<Rightarrow> (broker_error + 'r) \<times> claim_file" where
  "cb_update env mutate f =
     (if \<not> env_locked env then (Inl CLock, f)
      else (case read_claims f of
              Inl e \<Rightarrow> (Inl e, f)
            | Inr j \<Rightarrow>
              (let before = purge (env_now env) j
               in case mutate (env_now env) before of
                    Inl e \<Rightarrow> (Inl e, f)
                  | Inr (j', r) \<Rightarrow>
                    (case claims_Validate j' of
                       Some e \<Rightarrow> (Inl e, f)
                     | None \<Rightarrow>
                       if same_claims (cj_Claims before) (cj_Claims j') then (Inr r, f)
                       else publish (env_write env) CWrite r f
                              (ClaimsFile (j'\<lparr>cj_Generation := cj_Generation j' + 1, cj_UpdatedAt := env_now env\<rparr>))))))"

definition cb_Read :: "store_env \<Rightarrow> claim_file \<Rightarrow> broker_error + claim_journal" where
  "cb_Read env f = (if \<not> env_locked env then Inl CLock else read_claims f)"

definition add_mutation ::
    "string \<Rightarrow> string \<Rightarrow> string \<Rightarrow> nat list \<Rightarrow> time \<Rightarrow> claim_journal \<Rightarrow> broker_error + claim_journal \<times> unit" where
  "add_mutation inst pool role token now j =
     (if (case get (cj_Claims j) inst of None \<Rightarrow> False | Some c \<Rightarrow> k_ClaimedRepository c \<noteq> []) then Inl AlreadyBound
      else Inr (j\<lparr>cj_Claims := put inst
                    \<lparr>k_InstanceName = inst, k_PoolName = pool, k_Role = role, k_TokenSHA256 = HashToken token, k_CreatedAt = now,
                     k_ExpiresAt = now + ClaimTTL, k_ClaimedRepository = [], k_ClaimedAt = 0\<rparr> (cj_Claims j)\<rparr>, ()))"

definition cb_Add ::
    "store_env \<Rightarrow> string \<Rightarrow> string \<Rightarrow> string \<Rightarrow> nat list \<Rightarrow> claim_file \<Rightarrow> (broker_error + unit) \<times> claim_file" where
  "cb_Add env inst pool role token f =
     (if length token \<noteq> ClaimTokenBytes then (Inl TokenInvalid, f)
      else if \<not> instancePattern inst \<or> pool = [] then (Inl OwnershipInvalid, f)
      else if \<not> validClaimRole role then (Inl RoleInvalid, f)
      else cb_update env (add_mutation inst pool role token) f)"

definition check_token :: "time \<Rightarrow> nat list \<Rightarrow> cache_claim \<Rightarrow> broker_error option" where
  "check_token now token c =
     (if \<not> k_ExpiresAt c > now then Some ClaimExpired
      else (case hex_decode (k_TokenSHA256 c) of
              None \<Rightarrow> Some HashInvalid
            | Some actual \<Rightarrow> if actual \<noteq> sha256 token then Some TokenMismatch else None))"

definition consume_mutation ::
    "string \<Rightarrow> nat list \<Rightarrow> string \<Rightarrow> time \<Rightarrow> claim_journal \<Rightarrow> broker_error + claim_journal \<times> cache_claim" where
  "consume_mutation inst token repository now j =
     (case get (cj_Claims j) inst of
        None \<Rightarrow> Inl ClaimAbsent
      | Some c \<Rightarrow>
        (case check_token now token c of
           Some e \<Rightarrow> Inl e
         | None \<Rightarrow>
           if k_ClaimedRepository c \<noteq> [] \<and> k_ClaimedRepository c \<noteq> repository then Inl BoundElsewhere
           else if k_ClaimedRepository c = []
           then (let c' = c\<lparr>k_ClaimedRepository := repository, k_ClaimedAt := now\<rparr>
                 in Inr (j\<lparr>cj_Claims := put inst c' (cj_Claims j)\<rparr>, c'))
           else Inr (j, c)))"

definition cb_Consume ::
    "store_env \<Rightarrow> string \<Rightarrow> nat list \<Rightarrow> string \<Rightarrow> claim_file \<Rightarrow> (broker_error + cache_claim) \<times> claim_file" where
  "cb_Consume env inst token repository f =
     (if length token \<noteq> ClaimTokenBytes then (Inl TokenInvalid, f)
      else cb_update env (consume_mutation inst token repository) f)"

definition cb_Verify :: "store_env \<Rightarrow> string \<Rightarrow> nat list \<Rightarrow> claim_file \<Rightarrow> broker_error + cache_claim" where
  "cb_Verify env inst token f =
     (if length token \<noteq> ClaimTokenBytes then Inl TokenInvalid
      else (case cb_Read env f of
              Inl e \<Rightarrow> Inl e
            | Inr j \<Rightarrow>
              (case get (cj_Claims j) inst of
                 None \<Rightarrow> Inl ClaimAbsent
               | Some c \<Rightarrow> (case check_token (env_now env) token c of Some e \<Rightarrow> Inl e | None \<Rightarrow> Inr c))))"

definition cb_ClaimedRepository :: "store_env \<Rightarrow> string \<Rightarrow> claim_file \<Rightarrow> broker_error + string" where
  "cb_ClaimedRepository env inst f =
     (case cb_Read env f of
        Inl e \<Rightarrow> Inl e
      | Inr j \<Rightarrow>
        (case get (cj_Claims j) inst of
           None \<Rightarrow> Inl BoundAbsent
         | Some c \<Rightarrow>
           if k_ClaimedRepository c = [] then Inl BoundAbsent
           else if \<not> k_ClaimedAt c + CorrelationTTL > env_now env then Inl CorrelationExpired
           else Inr (k_ClaimedRepository c)))"

definition cb_Remove :: "store_env \<Rightarrow> string \<Rightarrow> claim_file \<Rightarrow> (broker_error + unit) \<times> claim_file" where
  "cb_Remove env inst f = cb_update env (\<lambda>now j. Inr (j\<lparr>cj_Claims := del inst (cj_Claims j)\<rparr>, ())) f"

section \<open>The claim store keeps its contract\<close>

definition wf_claims :: "claim_journal \<Rightarrow> bool" where "wf_claims j \<longleftrightarrow> wf_map (cj_Claims j)"

definition claims_ok :: "claim_journal \<Rightarrow> bool" where "claims_ok j \<longleftrightarrow> claims_Validate j = None \<and> wf_claims j"

definition wf_claim_file :: "claim_file \<Rightarrow> bool" where
  "wf_claim_file f \<longleftrightarrow> (case f of ClaimsFile j \<Rightarrow> wf_claims j | _ \<Rightarrow> True)"

definition keeps_wf_claims :: "(time \<Rightarrow> claim_journal \<Rightarrow> broker_error + claim_journal \<times> 'r) \<Rightarrow> bool" where
  "keeps_wf_claims m \<longleftrightarrow> (\<forall>now j j' r. wf_claims j \<longrightarrow> m now j = Inr (j', r) \<longrightarrow> wf_claims j')"

definition claims_durable :: "store_env \<Rightarrow> bool" where
  "claims_durable env \<longleftrightarrow> env_write env \<noteq> WriteFailsAfterRename"

lemma claims_Validate_stamp [simp]:
  "claims_Validate (j\<lparr>cj_Generation := g, cj_UpdatedAt := t\<rparr>) = claims_Validate j"
  by (simp add: claims_Validate_def)

lemma wf_claims_simps [simp]:
  "wf_claims (j\<lparr>cj_Generation := g, cj_UpdatedAt := t\<rparr>) = wf_claims j"
  by (simp add: wf_claims_def)

lemma read_claims_ok: "read_claims f = Inr j \<Longrightarrow> wf_claim_file f \<Longrightarrow> claims_ok j"
proof (cases f)
  case NoClaims
  then show "read_claims f = Inr j \<Longrightarrow> wf_claim_file f \<Longrightarrow> claims_ok j"
    by (auto simp: read_claims_def claims_ok_def wf_claims_def wf_empty claims_Validate_def keys_def)
qed (auto simp: read_claims_def claims_ok_def wf_claim_file_def split: option.splits)

lemma cb_update_cases:
  assumes "cb_update env mutate f = (res, f')"
  obtains (unchanged) "f' = f" "\<And>r. res = Inr r \<Longrightarrow> \<exists>j j'. read_claims f = Inr j \<and> claims_Validate j' = None
        \<and> mutate (env_now env) (purge (env_now env) j) = Inr (j', r) \<and> same_claims (cj_Claims (purge (env_now env) j)) (cj_Claims j')"
  | (published) j j' r where "read_claims f = Inr j" "mutate (env_now env) (purge (env_now env) j) = Inr (j', r)"
      "claims_Validate j' = None" "env_locked env" "res = Inr r \<or> env_write env = WriteFailsAfterRename \<and> res = Inl CWrite"
      "f' = ClaimsFile (j'\<lparr>cj_Generation := cj_Generation j' + 1, cj_UpdatedAt := env_now env\<rparr>)"
  using assms unfolding cb_update_def publish_def
  by (auto simp: Let_def split: if_splits sum.splits option.splits prod.splits write_outcome.splits)

interpretation cs: durable_store
  "cb_update :: store_env \<Rightarrow> (time \<Rightarrow> claim_journal \<Rightarrow> broker_error + claim_journal \<times> 'r) \<Rightarrow> claim_file
    \<Rightarrow> (broker_error + 'r) \<times> claim_file"
  read_claims claims_ok keeps_wf_claims claims_durable wf_claim_file
proof
  fix f env and op :: "time \<Rightarrow> claim_journal \<Rightarrow> broker_error + claim_journal \<times> 'r"
  assume f: "wf_claim_file f" and op: "keeps_wf_claims op"
  obtain res f' where e: "cb_update env op f = (res, f')" by fastforce
  have pub: "f' = f \<or> (\<exists>j. f' = ClaimsFile j \<and> claims_ok j)"
    using e
  proof (cases rule: cb_update_cases)
    case unchanged
    then show ?thesis by simp
  next
    case (published j j' r)
    have "wf_claims (purge (env_now env) j)"
      using read_claims_ok [OF published(1) f] by (simp add: claims_ok_def wf_claims_def purge_def wf_filter)
    then have "wf_claims j'" using op published(2) unfolding keeps_wf_claims_def by blast
    then show ?thesis using published(3,6) by (simp add: claims_ok_def)
  qed
  then show "wf_claim_file (snd (cb_update env op f))"
    using f e by (auto simp: wf_claim_file_def claims_ok_def)
  show "\<exists>j. read_claims (snd (cb_update env op f)) = Inr j \<and> claims_ok j"
    if "snd (cb_update env op f) \<noteq> f" using pub that e by (auto simp: read_claims_def claims_ok_def)
next
  fix env f e and op :: "time \<Rightarrow> claim_journal \<Rightarrow> broker_error + claim_journal \<times> 'r"
  assume d: "claims_durable env" and r: "fst (cb_update env op f) = Inl e"
  obtain res f' where e: "cb_update env op f = (res, f')" by fastforce
  show "snd (cb_update env op f) = f"
    using e by (cases rule: cb_update_cases) (use d r e in \<open>auto simp: claims_durable_def\<close>)
qed

text \<open>The operations of the store as one step, so that a history is a list of operations with their environments.\<close>

datatype broker_op =
    OpAdd string string string "nat list"
  | OpConsume string "nat list" string
  | OpRemove string

definition broker_step :: "store_env \<Rightarrow> broker_op \<Rightarrow> claim_file \<Rightarrow> (broker_error + cache_claim option) \<times> claim_file" where
  "broker_step env op f =
     (case op of
        OpAdd inst pool role token \<Rightarrow> (case cb_Add env inst pool role token f of (r, f') \<Rightarrow> (map_sum id (\<lambda>_. None) r, f'))
      | OpConsume inst token repository \<Rightarrow> (case cb_Consume env inst token repository f of (r, f') \<Rightarrow> (map_sum id Some r, f'))
      | OpRemove inst \<Rightarrow> (case cb_Remove env inst f of (r, f') \<Rightarrow> (map_sum id (\<lambda>_. None) r, f')))"

text \<open>What an operation does with the claim of another instance, or with a bound claim, before the journal is published.\<close>

definition keeps_bound :: "string \<Rightarrow> cache_claim \<Rightarrow> (time \<Rightarrow> claim_journal \<Rightarrow> broker_error + claim_journal \<times> 'r) \<Rightarrow> bool" where
  "keeps_bound inst c m \<longleftrightarrow>
     (\<forall>now j j' r. get (cj_Claims j) inst = Some c \<longrightarrow> m now j = Inr (j', r) \<longrightarrow> get (cj_Claims j') inst = Some c)"

lemma keeps_wf_ops:
  "keeps_wf_claims (add_mutation inst pool role token)"
  "keeps_wf_claims (consume_mutation inst token repository)"
  "keeps_wf_claims (\<lambda>now j. Inr (j\<lparr>cj_Claims := del inst (cj_Claims j)\<rparr>, ()))"
  by (auto simp: keeps_wf_claims_def add_mutation_def consume_mutation_def wf_claims_def Let_def wf_put wf_del
      split: if_splits option.splits)

lemma keeps_bound_ops:
  assumes "k_ClaimedRepository c \<noteq> []"
  shows "keeps_bound inst c (add_mutation other pool role token)"
    "keeps_bound inst c (consume_mutation other token repository)"
    "other \<noteq> inst \<Longrightarrow> keeps_bound inst c (\<lambda>now j. Inr (j\<lparr>cj_Claims := del other (cj_Claims j)\<rparr>, ()))"
  using assms
  by (auto simp: keeps_bound_def add_mutation_def consume_mutation_def Let_def get_put get_del split: if_splits option.splits)

lemma get_purge:
  assumes "wf_claims j" "get (cj_Claims j) inst = Some c" "claimRetained now c"
  shows "get (cj_Claims (purge now j)) inst = Some c"
  using assms by (simp add: purge_def wf_claims_def get_iff_mem wf_filter)

text \<open>A bound claim that is still inside its correlation window is on disk with the journal that holds it.\<close>

definition bound_on_disk :: "string \<Rightarrow> cache_claim \<Rightarrow> claim_file \<Rightarrow> bool" where
  "bound_on_disk inst c f \<longleftrightarrow> (\<exists>j. read_claims f = Inr j \<and> get (cj_Claims j) inst = Some c)"

lemma update_keeps_bound:
  assumes "wf_claim_file f" "bound_on_disk inst c f" "claimRetained (env_now env) c" "keeps_bound inst c m"
  shows "bound_on_disk inst c (snd (cb_update env m f))"
proof -
  obtain j where j: "read_claims f = Inr j" "get (cj_Claims j) inst = Some c" using assms(2) by (auto simp: bound_on_disk_def)
  have g: "get (cj_Claims (purge (env_now env) j)) inst = Some c"
    using get_purge read_claims_ok [OF j(1) assms(1)] j(2) assms(3) by (simp add: claims_ok_def)
  obtain res f' where e: "cb_update env m f = (res, f')" by fastforce
  show ?thesis
    using e
  proof (cases rule: cb_update_cases)
    case unchanged
    then show ?thesis using assms(2) e by simp
  next
    case (published j0 j' r)
    then have "get (cj_Claims j') inst = Some c" using assms(4) g j(1) by (auto simp: keeps_bound_def)
    then show ?thesis using published(3,6) e by (simp add: bound_on_disk_def read_claims_def)
  qed
qed

lemma broker_step_keeps:
  assumes "wf_claim_file f" "bound_on_disk inst c f" "k_ClaimedRepository c \<noteq> []" "claimRetained (env_now env) c" "op \<noteq> OpRemove inst"
  shows "wf_claim_file (snd (broker_step env op f)) \<and> bound_on_disk inst c (snd (broker_step env op f))"
proof (cases op)
  case (OpAdd other pool role token)
  then show ?thesis
    using assms update_keeps_bound [OF assms(1,2,4) keeps_bound_ops(1) [OF assms(3)]] cs.good_step [OF assms(1) keeps_wf_ops(1)]
    by (simp add: broker_step_def cb_Add_def split_beta)
next
  case (OpConsume other token repository)
  then show ?thesis
    using assms update_keeps_bound [OF assms(1,2,4) keeps_bound_ops(2) [OF assms(3)]] cs.good_step [OF assms(1) keeps_wf_ops(2)]
    by (simp add: broker_step_def cb_Consume_def split_beta)
next
  case (OpRemove other)
  then have "other \<noteq> inst" using assms(5) by auto
  then show ?thesis
    using OpRemove update_keeps_bound [OF assms(1,2,4) keeps_bound_ops(3) [OF assms(3)]] cs.good_step [OF assms(1) keeps_wf_ops(3)]
    by (simp add: broker_step_def cb_Remove_def split_beta)
qed

lemma run_keeps_bound:
  assumes "wf_claim_file f" "bound_on_disk inst c f" "k_ClaimedRepository c \<noteq> []"
    "\<forall>(env, op) \<in> set ops. claimRetained (env_now env) c \<and> op \<noteq> OpRemove inst"
  shows "wf_claim_file (run_ops broker_step ops f) \<and> bound_on_disk inst c (run_ops broker_step ops f)"
  using assms
proof (induction ops arbitrary: f)
  case Nil
  then show ?case by simp
next
  case (Cons x ops)
  obtain env op where x: "x = (env, op)" by (cases x)
  have "wf_claim_file (snd (broker_step env op f)) \<and> bound_on_disk inst c (snd (broker_step env op f))"
    using broker_step_keeps [OF Cons.prems(1,2,3)] Cons.prems(4) by (simp add: x)
  then show ?case using Cons.IH Cons.prems(3,4) by (simp add: x)
qed

lemma consume_mutation_Inr:
  assumes "consume_mutation inst token repository now j = Inr (j', c)" "repository \<noteq> []"
  obtains c0 where "get (cj_Claims j) inst = Some c0" "check_token now token c0 = None" "get (cj_Claims j') inst = Some c"
    "k_ClaimedRepository c = repository" "k_TokenSHA256 c = k_TokenSHA256 c0" "k_ExpiresAt c = k_ExpiresAt c0"
    "k_Role c = k_Role c0" "k_ClaimedRepository c0 = [] \<and> k_ClaimedAt c = now \<or> c0 = c"
proof -
  obtain c0 where c0: "get (cj_Claims j) inst = Some c0" "check_token now token c0 = None"
      "k_ClaimedRepository c0 = [] \<or> k_ClaimedRepository c0 = repository"
    using assms(1) by (auto simp: consume_mutation_def split: option.splits if_splits)
  show thesis
  proof (cases "k_ClaimedRepository c0 = []")
    case True
    let ?c = "c0\<lparr>k_ClaimedRepository := repository, k_ClaimedAt := now\<rparr>"
    have "consume_mutation inst token repository now j = Inr (j\<lparr>cj_Claims := put inst ?c (cj_Claims j)\<rparr>, ?c)"
      using True c0 by (simp add: consume_mutation_def Let_def)
    then have r: "j' = j\<lparr>cj_Claims := put inst ?c (cj_Claims j)\<rparr>" "c = ?c" using assms(1) by simp_all
    show thesis by (rule that [OF c0(1,2)]) (simp_all add: r get_put True)
  next
    case False
    then have "consume_mutation inst token repository now j = Inr (j, c0)" using c0 by (simp add: consume_mutation_def)
    then have r: "j' = j" "c = c0" using assms(1) by simp_all
    show thesis by (rule that [OF c0(1,2)]) (use c0 False in \<open>simp_all add: r\<close>)
  qed
qed

lemma get_of_purge: "wf_claims j \<Longrightarrow> get (cj_Claims (purge now j)) inst = Some c \<Longrightarrow> get (cj_Claims j) inst = Some c \<and> claimRetained now c"
  by (auto simp: purge_def wf_claims_def get_iff_mem wf_filter)

lemma Consume_bound:
  assumes "wf_claim_file f" "cb_Consume env inst token repository f = (Inr c, f1)" "repository \<noteq> []"
  shows "wf_claim_file f1 \<and> bound_on_disk inst c f1 \<and> k_ClaimedRepository c = repository"
proof -
  let ?m = "consume_mutation inst token repository"
  have e: "cb_update env ?m f = (Inr c, f1)" using assms(2) by (auto simp: cb_Consume_def split: if_splits)
  have w: "wf_claim_file f1" using cs.good_step [OF assms(1) keeps_wf_ops(2), of env inst token repository] e by simp
  show ?thesis
    using e
  proof (cases rule: cb_update_cases)
    case unchanged
    then obtain j j' where j: "read_claims f = Inr j" "?m (env_now env) (purge (env_now env) j) = Inr (j', c)"
        "same_claims (cj_Claims (purge (env_now env) j)) (cj_Claims j')" by blast
    obtain c0 where c0: "get (cj_Claims (purge (env_now env) j)) inst = Some c0" "get (cj_Claims j') inst = Some c"
        "k_ClaimedRepository c = repository"
      using j(2) assms(3) by (rule consume_mutation_Inr) blast
    have wf: "wf_claims j" using read_claims_ok [OF j(1) assms(1)] by (simp add: claims_ok_def)
    then have "(inst, c0) \<in> set (cj_Claims (purge (env_now env) j))"
      using c0(1) by (simp add: get_iff_mem purge_def wf_claims_def wf_filter)
    then have "c0 = c" using j(3) c0(2) by (auto simp: same_claims_def list_all_iff)
    then have "get (cj_Claims j) inst = Some c" using get_of_purge [OF wf c0(1)] by simp
    then show ?thesis using w c0(3) j(1) unchanged(1) by (auto simp: bound_on_disk_def)
  next
    case (published j j' r)
    then have "?m (env_now env) (purge (env_now env) j) = Inr (j', c)" by auto
    then have "get (cj_Claims j') inst = Some c \<and> k_ClaimedRepository c = repository"
      using assms(3) by (rule consume_mutation_Inr) blast
    then show ?thesis using w published(3,6) by (simp add: bound_on_disk_def read_claims_def)
  qed
qed

lemma update_refused:
  assumes "\<And>j. read_claims f = Inr j \<Longrightarrow> \<exists>e. mutate (env_now env) (purge (env_now env) j) = Inl e"
  shows "\<exists>e. cb_update env mutate f = (Inl e, f)"
  using assms by (auto simp: cb_update_def Let_def split: sum.splits prod.splits)

text \<open>C19: A claim token serves one repository. Once a claim has been consumed for a repository, then whatever operations
  follow within the correlation window, in whatever order and with whatever failing locks and writes, short of removing
  the claim: consuming it for another repository fails with every token, adding a new claim for the same instance fails,
  both leave the journal as it is, and the recorded repository is the one of the first consumption.\<close>

theorem claim_binds_one_repository:
  assumes "wf_claim_file f" "cb_Consume env inst token repository f = (Inr c, f1)" "repository \<noteq> []"
    and "\<forall>(e, op) \<in> set ops. env_now e < k_ClaimedAt c + CorrelationTTL \<and> op \<noteq> OpRemove inst"
    and "f2 = run_ops broker_step ops f1" "env_now env' < k_ClaimedAt c + CorrelationTTL"
  shows "k_ClaimedRepository c = repository
    \<and> (repository' \<noteq> repository \<longrightarrow> (\<exists>e. cb_Consume env' inst token' repository' f2 = (Inl e, f2)))
    \<and> (\<exists>e. cb_Add env' inst pool role token' f2 = (Inl e, f2))
    \<and> (env_locked env' \<longrightarrow> cb_ClaimedRepository env' inst f2 = Inr repository)"
proof -
  have 1: "wf_claim_file f1" "bound_on_disk inst c f1" and repo: "k_ClaimedRepository c = repository"
    using Consume_bound [OF assms(1,2,3)] by auto
  have ne: "k_ClaimedRepository c \<noteq> []" using repo assms(3) by simp
  have "\<forall>(e, op) \<in> set ops. claimRetained (env_now e) c \<and> op \<noteq> OpRemove inst"
    using assms(4) ne by (auto simp: claimRetained_def)
  then have 2: "wf_claim_file f2" "bound_on_disk inst c f2" using run_keeps_bound [OF 1 ne] assms(5) by auto
  then obtain j where j: "read_claims f2 = Inr j" "get (cj_Claims j) inst = Some c" by (auto simp: bound_on_disk_def)
  have g: "get (cj_Claims (purge (env_now env') j)) inst = Some c"
    using get_purge [OF _ j(2)] read_claims_ok [OF j(1) 2(1)] assms(6) ne by (simp add: claims_ok_def claimRetained_def)
  have "\<exists>e. cb_Consume env' inst token' repository' f2 = (Inl e, f2)" if "repository' \<noteq> repository"
    using that g j(1) ne repo
      update_refused [of f2 "consume_mutation inst token' repository'" env']
    by (auto simp: cb_Consume_def consume_mutation_def split: option.splits)
  moreover have "\<exists>e. cb_Add env' inst pool role token' f2 = (Inl e, f2)"
    using g j(1) ne update_refused [of f2 "add_mutation inst pool role token'" env']
    by (auto simp: cb_Add_def add_mutation_def)
  moreover have "cb_ClaimedRepository env' inst f2 = Inr repository" if "env_locked env'"
    using that j ne repo assms(6) by (simp add: cb_ClaimedRepository_def cb_Read_def)
  ultimately show ?thesis using repo by blast
qed

section \<open>Witnesses\<close>

lemma HashToken_ok [simp]: "hashPattern (HashToken token)" "hex_decode (HashToken token) = Some (sha256 token)"
proof -
  have b: "\<forall>b \<in> set (sha256 token). b < 256" using sha256_bytes by blast
  show "hex_decode (HashToken token) = Some (sha256 token)" using hex_decode_encode [OF b] by (simp add: HashToken_def)
  show "hashPattern (HashToken token)"
    using hex_encode_lower [OF b] by (auto simp: hashPattern_def HashToken_def list_all_iff simp del: set_simps)
qed

definition demo_token :: "nat list" where "demo_token = replicate 32 0"

definition demo_cache_claim :: cache_claim where
  "demo_cache_claim =
     \<lparr>k_InstanceName = ''runner-01'', k_PoolName = ''linux'', k_Role = ''trusted-writer'', k_TokenSHA256 = HashToken demo_token,
      k_CreatedAt = 10, k_ExpiresAt = 1000, k_ClaimedRepository = [], k_ClaimedAt = 0\<rparr>"

definition demo_claims :: claim_file where
  "demo_claims = ClaimsFile \<lparr>cj_SchemaVersion = 1, cj_Generation = 4, cj_UpdatedAt = 10, cj_Claims = [(''runner-01'', demo_cache_claim)]\<rparr>"

definition demo_store_env :: "time \<Rightarrow> store_env" where
  "demo_store_env t = \<lparr>env_locked = True, env_write = WriteOk, env_now = t\<rparr>"

definition demo_bound :: cache_claim where
  "demo_bound = demo_cache_claim\<lparr>k_ClaimedRepository := ''org/app'', k_ClaimedAt := 20\<rparr>"

definition demo_bound_file :: claim_file where
  "demo_bound_file = ClaimsFile \<lparr>cj_SchemaVersion = 1, cj_Generation = 5, cj_UpdatedAt = 20, cj_Claims = [(''runner-01'', demo_bound)]\<rparr>"

lemma demo_patterns: "instancePattern ''runner-01''" "validClaimRole ''trusted-writer''" "splitRepository ''org/app'' = Some (''org'', ''app'')"
  by code_simp+

lemma demo_claim_valid: "claim_error ''runner-01'' demo_cache_claim = None" "claim_error ''runner-01'' demo_bound = None"
  by (simp_all add: claim_error_def demo_cache_claim_def demo_bound_def demo_patterns is_zero_def time_sub_def ClaimTTL_def minute_def second_def
      max_duration_def min_duration_def)

lemma demo_read: "read_claims demo_claims = Inr \<lparr>cj_SchemaVersion = 1, cj_Generation = 4, cj_UpdatedAt = 10,
    cj_Claims = [(''runner-01'', demo_cache_claim)]\<rparr>"
  by (simp add: read_claims_def demo_claims_def claims_Validate_def JournalSchemaVersion_def keys_def demo_claim_valid)

lemma demo_consume: "cb_Consume (demo_store_env 20) ''runner-01'' demo_token ''org/app'' demo_claims = (Inr demo_bound, demo_bound_file)"
proof -
  have t: "check_token 20 demo_token demo_cache_claim = None" by (simp add: check_token_def demo_cache_claim_def)
  have r: "claimRetained 20 demo_cache_claim" by (simp add: claimRetained_def demo_cache_claim_def)
  have m: "consume_mutation ''runner-01'' demo_token ''org/app'' 20
      \<lparr>cj_SchemaVersion = 1, cj_Generation = 4, cj_UpdatedAt = 10, cj_Claims = [(''runner-01'', demo_cache_claim)]\<rparr>
    = Inr (\<lparr>cj_SchemaVersion = 1, cj_Generation = 4, cj_UpdatedAt = 10, cj_Claims = [(''runner-01'', demo_bound)]\<rparr>, demo_bound)"
    using t by (simp add: consume_mutation_def Let_def demo_bound_def demo_cache_claim_def)
  have v: "claims_Validate \<lparr>cj_SchemaVersion = 1, cj_Generation = 4, cj_UpdatedAt = 10, cj_Claims = [(''runner-01'', demo_bound)]\<rparr> = None"
    by (simp add: claims_Validate_def JournalSchemaVersion_def keys_def demo_claim_valid)
  have n: "demo_bound \<noteq> demo_cache_claim" by (simp add: demo_bound_def demo_cache_claim_def)
  have l: "length demo_token = ClaimTokenBytes" by (simp add: demo_token_def ClaimTokenBytes_def)
  show ?thesis
    by (simp add: cb_Consume_def cb_update_def l demo_store_env_def demo_read purge_def r m v n same_claims_def publish_def demo_bound_file_def)
qed

lemma demo_claims_wf: "wf_claim_file demo_claims"
  by (simp add: wf_claim_file_def demo_claims_def wf_claims_def wf_map_def keys_def)

text \<open>Another repository asks with the right token after a failed attempt to replace the claim.\<close>

theorem claim_binds_one_repository_witness:
  "\<exists>e. cb_Consume (demo_store_env 40) ''runner-01'' demo_token ''org/other''
         (run_ops broker_step [(demo_store_env 30, OpAdd ''runner-01'' ''linux'' ''trusted-writer'' (replicate 32 1))] demo_bound_file)
     = (Inl e, run_ops broker_step [(demo_store_env 30, OpAdd ''runner-01'' ''linux'' ''trusted-writer'' (replicate 32 1))] demo_bound_file)"
proof -
  let ?ops = "[(demo_store_env 30, OpAdd ''runner-01'' ''linux'' ''trusted-writer'' (replicate 32 1))]"
  have "\<forall>(e, op) \<in> set ?ops. env_now e < k_ClaimedAt demo_bound + CorrelationTTL \<and> op \<noteq> OpRemove ''runner-01''"
    by (simp add: demo_store_env_def demo_bound_def CorrelationTTL_def hour_def minute_def second_def)
  moreover have "env_now (demo_store_env 40) < k_ClaimedAt demo_bound + CorrelationTTL"
    by (simp add: demo_store_env_def demo_bound_def CorrelationTTL_def hour_def minute_def second_def)
  ultimately show ?thesis
    using claim_binds_one_repository [OF demo_claims_wf demo_consume _ _ refl, of ?ops "demo_store_env 40" "''org/other''" demo_token] by simp
qed

end
