(* ===== verification/Cache_Broker.thy ===== *)
theory Cache_Broker
  imports Cache_Claims Queue_Intent
begin

text \<open>
  The cache broker (\<open>src/internal/cachebroker/config.go\<close>, \<open>handler.go\<close>): its configuration with the complete validation and
  the two lookups by binary search, the preparation of a delivery from credential files, and the HTTP handler from the
  request to the response, composed of the claim store, the queue correlator and the configuration. The checks of network
  addresses are parameters, credential files are an environment; telemetry and the wiping of buffers are left out. The
  theorems say when a credential is delivered, what a refusal leaves untouched, what the lookups return, and that a
  repository name without a namespace passes validation with an empty root.
\<close>

section \<open>The configuration of the broker (\<open>config.go\<close>)\<close>

record Identity =
  id_Role :: string
  id_Mode :: string
  id_Prefix :: string
  id_AccessKeyFile :: string
  id_SecretKeyFile :: string
  id_BuildcacheUsernameFile :: string
  id_BuildcachePasswordFile :: string

record Repository =
  r_Name :: string
  r_Bucket :: string
  r_Roles :: "Identity list"

record broker_config =
  cf_SchemaVersion :: int
  cf_ListenAddress :: string
  cf_Endpoint :: string
  cf_Region :: string
  cf_Bucket :: string
  cf_CAFile :: string
  cf_JournalFile :: string
  cf_JournalLock :: string
  cf_QueueJournalFile :: string
  cf_QueueJournalLock :: string
  cf_ProviderJournalFile :: string
  cf_BuildcacheRegistry :: string
  cf_Repositories :: "Repository list"

datatype config_error =
    ConfigSchema | ListenAddress | EndpointInvalid | RegionBucket | PathInvalid | QueuePair | QueueSiblings | ProviderPath
  | ProviderNeedsQueue | ProviderDistinct | RegistryInvalid | NoRepositories | RepositoryName string | RepositoryOrder string
  | RepositoryDuplicated string | BucketName string | RoleCount string | RoleDuplicated string string | RoleMode string string | RolePrefix string string
  | CredentialPath string string | BuildcachePair string string | BuildcacheNoRegistry string string
  | BuildcachePath string string | RoleMissing string string

text \<open>What the check of the network addresses decides: \<open>net.SplitHostPort\<close> with \<open>net.ParseIP\<close> for the listener,
  \<open>rustfscache.ValidateEndpoint\<close> and \<open>url.Parse\<close> for the two origins.\<close>

record address_checks =
  listen_ok :: "string \<Rightarrow> bool"
  endpoint_ok :: "string \<Rightarrow> bool"
  origin_ok :: "string \<Rightarrow> bool"

text \<open>An absolute path that \<open>filepath.Clean\<close> leaves as it is and that is not the root: a slash before every segment, and no
  segment empty, dot or dot dot.\<close>

definition clean_path :: "string \<Rightarrow> bool" where
  "clean_path p \<longleftrightarrow>
     (case split_on CHR ''/'' p of
        [] # seg # segs \<Rightarrow> list_all (\<lambda>s. s \<noteq> [] \<and> s \<noteq> ''.'' \<and> s \<noteq> ''..'') (seg # segs)
      | _ \<Rightarrow> False)"

text \<open>\<open>filepath.Dir\<close> of such a path: everything before the last slash.\<close>

definition dir_segments :: "string \<Rightarrow> string list" where
  "dir_segments p = butlast (split_on CHR ''/'' p)"

text \<open>\<open>^[a-z0-9][a-z0-9.-]{1,61}[a-z0-9]$\<close>\<close>

definition brokerBucketPattern :: "string \<Rightarrow> bool" where
  "brokerBucketPattern s \<longleftrightarrow>
     3 \<le> length s \<and> length s \<le> 63 \<and> lower_or_digit (hd s) \<and> lower_or_digit (last s)
     \<and> list_all (\<lambda>c. lower_or_digit c \<or> c = CHR ''.'' \<or> c = CHR ''-'') s"

definition wanted_prefix :: "string \<Rightarrow> TrustClass \<Rightarrow> string" where
  "wanted_prefix name cls = (case PrefixRootFor name cls of Inl e \<Rightarrow> [] | Inr p \<Rightarrow> p)"

definition identity_error :: "broker_config \<Rightarrow> string \<Rightarrow> Identity \<Rightarrow> config_error option" where
  "identity_error c name i =
     (case roleContract (id_Role i) of
        None \<Rightarrow> Some (RoleMode name (id_Role i))
      | Some (cls, mode) \<Rightarrow> checks [
          (id_Mode i \<noteq> mode, RoleMode name (id_Role i)),
          (id_Prefix i \<noteq> wanted_prefix name cls, RolePrefix name (id_Role i)),
          (\<not> clean_path (id_AccessKeyFile i) \<or> \<not> clean_path (id_SecretKeyFile i), CredentialPath name (id_Role i)),
          ((id_BuildcacheUsernameFile i = []) \<noteq> (id_BuildcachePasswordFile i = []), BuildcachePair name (id_Role i)),
          (id_BuildcacheUsernameFile i \<noteq> [] \<and> cf_BuildcacheRegistry c = [], BuildcacheNoRegistry name (id_Role i)),
          (id_BuildcacheUsernameFile i \<noteq> [] \<and> (\<not> clean_path (id_BuildcacheUsernameFile i) \<or> \<not> clean_path (id_BuildcachePasswordFile i)),
             BuildcachePath name (id_Role i))])"

definition check_role :: "broker_config \<Rightarrow> string \<Rightarrow> Identity \<Rightarrow> string list \<Rightarrow> config_error + string list" where
  "check_role c name i seen =
     (if id_Role i \<in> set seen then Inl (RoleDuplicated name (id_Role i))
      else (case identity_error c name i of Some e \<Rightarrow> Inl e | None \<Rightarrow> Inr (id_Role i # seen)))"

definition check_repository :: "broker_config \<Rightarrow> Repository \<Rightarrow> string \<times> string list \<Rightarrow> config_error + string \<times> string list" where
  "check_repository c r s =
     (case s of (previous, seen) \<Rightarrow>
        if splitRepository (r_Name r) = None then Inl (RepositoryName (r_Name r))
        else if r_Name r \<le> previous then Inl (RepositoryOrder (r_Name r))
        else if r_Bucket r \<noteq> [] \<and> (\<not> brokerBucketPattern (r_Bucket r) \<or> \<not> has_suffix (r_Bucket r) ''-cache'') then Inl (BucketName (r_Name r))
        else if r_Name r \<in> set seen then Inl (RepositoryDuplicated (r_Name r))
        else if length (r_Roles r) \<noteq> 3 then Inl (RoleCount (r_Name r))
        else (case fold_err (check_role c (r_Name r)) (r_Roles r) [] of
                Inl e \<Rightarrow> Inl e
              | Inr seenRoles \<Rightarrow>
                (case first_error (\<lambda>role. if role \<in> set seenRoles then None else Some (RoleMissing (r_Name r) role))
                        [''release-reader'', ''trusted-writer'', ''untrusted-writer''] of
                   Some e \<Rightarrow> Inl e
                 | None \<Rightarrow> Inr (r_Name r, r_Name r # seen))))"

definition config_Validate :: "address_checks \<Rightarrow> broker_config \<Rightarrow> config_error option" where
  "config_Validate a c =
     then_check (checks [
       (cf_SchemaVersion c \<noteq> 1, ConfigSchema),
       (\<not> listen_ok a (cf_ListenAddress c), ListenAddress),
       (\<not> endpoint_ok a (cf_Endpoint c), EndpointInvalid),
       (cf_Region c \<noteq> ''us-east-1'' \<or> cf_Bucket c \<noteq> ''github-actions-cache'', RegionBucket),
       (\<not> clean_path (cf_CAFile c) \<or> \<not> clean_path (cf_JournalFile c) \<or> \<not> clean_path (cf_JournalLock c), PathInvalid),
       ((cf_QueueJournalFile c = []) \<noteq> (cf_QueueJournalLock c = []), QueuePair),
       (cf_QueueJournalFile c \<noteq> [] \<and> (\<not> clean_path (cf_QueueJournalFile c) \<or> \<not> clean_path (cf_QueueJournalLock c)), PathInvalid),
       (cf_QueueJournalFile c \<noteq> [] \<and> (dir_segments (cf_QueueJournalFile c) \<noteq> dir_segments (cf_QueueJournalLock c)
          \<or> cf_QueueJournalFile c = cf_QueueJournalLock c), QueueSiblings),
       (cf_ProviderJournalFile c \<noteq> [] \<and> \<not> clean_path (cf_ProviderJournalFile c), ProviderPath),
       (cf_ProviderJournalFile c \<noteq> [] \<and> cf_QueueJournalFile c = [], ProviderNeedsQueue),
       (cf_ProviderJournalFile c \<noteq> [] \<and> (cf_ProviderJournalFile c = cf_QueueJournalFile c \<or> cf_ProviderJournalFile c = cf_QueueJournalLock c
          \<or> cf_ProviderJournalFile c = cf_JournalFile c \<or> cf_ProviderJournalFile c = cf_JournalLock c), ProviderDistinct),
       (cf_BuildcacheRegistry c \<noteq> [] \<and> \<not> origin_ok a (cf_BuildcacheRegistry c), RegistryInvalid),
       (cf_Repositories c = [], NoRepositories)])
     (case fold_err (check_repository c) (cf_Repositories c) ([], []) of Inl e \<Rightarrow> Some e | Inr _ \<Rightarrow> None)"

text \<open>The binary search of \<open>sort.Search\<close>.\<close>

function search_between :: "(nat \<Rightarrow> bool) \<Rightarrow> nat \<Rightarrow> nat \<Rightarrow> nat" where
  "search_between f i j =
     (if i < j
      then let h = (i + j) div 2 in if \<not> f h then search_between f (h + 1) j else search_between f i h
      else i)"
  by pat_completeness auto
termination by (relation "measure (\<lambda>(f, i, j). j - i)") auto

declare search_between.simps [simp del]

definition sort_Search :: "nat \<Rightarrow> (nat \<Rightarrow> bool) \<Rightarrow> nat" where
  "sort_Search n f = search_between f 0 n"

definition repository_index :: "broker_config \<Rightarrow> string \<Rightarrow> Repository option" where
  "repository_index c repository =
     (let index = sort_Search (length (cf_Repositories c)) (\<lambda>i. r_Name (cf_Repositories c ! i) \<ge> repository)
      in if index = length (cf_Repositories c) \<or> r_Name (cf_Repositories c ! index) \<noteq> repository then None
         else Some (cf_Repositories c ! index))"

definition config_Identity :: "broker_config \<Rightarrow> string \<Rightarrow> string \<Rightarrow> Identity option" where
  "config_Identity c repository role =
     (case repository_index c repository of
        None \<Rightarrow> None
      | Some r \<Rightarrow> find (\<lambda>i. id_Role i = role) (r_Roles r))"

definition with_bucket :: "broker_config \<Rightarrow> Repository \<Rightarrow> Repository" where
  "with_bucket c r = (if r_Bucket r = [] then r\<lparr>r_Bucket := cf_Bucket c\<rparr> else r)"

definition config_Delivery :: "broker_config \<Rightarrow> string \<Rightarrow> string \<Rightarrow> (Repository \<times> Identity) option" where
  "config_Delivery c repository role =
     (case repository_index c repository of
        None \<Rightarrow> None
      | Some r \<Rightarrow>
        (let selected = with_bucket c r
         in map_option (Pair selected) (find (\<lambda>i. id_Role i = role) (r_Roles selected))))"

subsection \<open>The binary search finds what a scan finds\<close>

lemma search_between_correct:
  assumes "i \<le> j" "\<And>k l. k \<le> l \<Longrightarrow> l < n \<Longrightarrow> f k \<Longrightarrow> f l" "j \<le> n"
    "\<forall>k < i. \<not> f k" "\<forall>k. j \<le> k \<longrightarrow> k < n \<longrightarrow> f k"
  shows "search_between f i j \<le> n \<and> (\<forall>k < search_between f i j. \<not> f k)
    \<and> (\<forall>k. search_between f i j \<le> k \<longrightarrow> k < n \<longrightarrow> f k)"
  using assms
proof (induction f i j rule: search_between.induct)
  case (1 f i j)
  show ?case
  proof (cases "i < j")
    case False
    then have "search_between f i j = i" by (subst search_between.simps) simp
    then show ?thesis using "1.prems" False by simp
  next
    case True
    let ?h = "(i + j) div 2"
    have h: "i \<le> ?h" "?h < j" using True by auto
    show ?thesis
    proof (cases "f ?h")
      case False
      have below: "\<forall>k < ?h + 1. \<not> f k"
      proof (intro allI impI notI)
        fix k assume "k < ?h + 1" "f k"
        then have "k \<le> ?h" "?h < n" using h "1.prems"(3) by auto
        then show False using "1.prems"(2) [of k ?h] \<open>f k\<close> False by simp
      qed
      have eq: "search_between f i j = search_between f (?h + 1) j"
        using True False by (subst search_between.simps) (simp add: Let_def)
      have "?h + 1 \<le> j" using h by simp
      then show ?thesis unfolding eq by (rule "1.IH"(1) [OF True refl False _ "1.prems"(2,3) below "1.prems"(5)])
    next
      case fh: True
      have above: "\<forall>k. ?h \<le> k \<longrightarrow> k < n \<longrightarrow> f k" using fh "1.prems"(2) by blast
      have "?h \<le> n" "\<not> \<not> f ?h" using h "1.prems"(3) fh by simp_all
      moreover have eq: "search_between f i j = search_between f i ?h"
        using True fh by (subst search_between.simps) (simp add: Let_def)
      ultimately show ?thesis unfolding eq by (intro "1.IH"(2) [OF True refl _ h(1) "1.prems"(2) _ "1.prems"(4) above]) blast+
    qed
  qed
qed

lemma sorted_names:
  assumes "sorted_wrt (<) (map r_Name rs)" "k \<le> l" "l < length rs"
  shows "r_Name (rs ! k) \<le> r_Name (rs ! l)"
proof (cases "k = l")
  case False
  then show ?thesis using assms sorted_wrt_nth_less [OF assms(1), of k l] by simp
qed simp

lemma repository_index_iff:
  assumes "sorted_wrt (<) (map r_Name (cf_Repositories c))"
  shows "repository_index c repository = Some r \<longleftrightarrow> r \<in> set (cf_Repositories c) \<and> r_Name r = repository"
proof -
  let ?rs = "cf_Repositories c"
  let ?f = "\<lambda>i. r_Name (?rs ! i) \<ge> repository"
  define x where "x = sort_Search (length ?rs) ?f"
  have mono: "\<And>k l. k \<le> l \<Longrightarrow> l < length ?rs \<Longrightarrow> ?f k \<Longrightarrow> ?f l"
    using sorted_names [OF assms] order_trans by blast
  have "x \<le> length ?rs \<and> (\<forall>k < x. \<not> ?f k) \<and> (\<forall>k. x \<le> k \<longrightarrow> k < length ?rs \<longrightarrow> ?f k)"
    unfolding x_def sort_Search_def by (rule search_between_correct) (use mono in auto)
  then have x: "x \<le> length ?rs" "\<forall>k < x. \<not> ?f k" "\<forall>k. x \<le> k \<longrightarrow> k < length ?rs \<longrightarrow> ?f k" by blast+
  have "r = ?rs ! x \<and> x < length ?rs" if r: "r \<in> set ?rs" "r_Name r = repository"
  proof -
    obtain k where k: "k < length ?rs" "?rs ! k = r" using r(1) by (auto simp: in_set_conv_nth)
    have "x \<le> k" using x(2) k r(2) not_less by auto
    have "\<not> x < k"
    proof
      assume "x < k"
      then have "r_Name (?rs ! x) < repository" using sorted_wrt_nth_less [OF assms, of x k] k r(2) by simp
      moreover have "repository \<le> r_Name (?rs ! x)" using x(3) \<open>x < k\<close> k(1) by simp
      ultimately show False by simp
    qed
    then show ?thesis using \<open>x \<le> k\<close> k by auto
  qed
  moreover have "repository_index c repository = (if x = length ?rs \<or> r_Name (?rs ! x) \<noteq> repository then None else Some (?rs ! x))"
    by (simp add: repository_index_def x_def)
  ultimately show ?thesis using x(1) by (auto simp: order_less_le)
qed

subsection \<open>What a validated configuration guarantees\<close>

definition repository_ok :: "broker_config \<Rightarrow> Repository \<Rightarrow> bool" where
  "repository_ok c r \<longleftrightarrow> splitRepository (r_Name r) \<noteq> None \<and> distinct (map id_Role (r_Roles r))
     \<and> (\<forall>i \<in> set (r_Roles r). identity_error c (r_Name r) i = None)"

lemma check_roles_Inr:
  "fold_err (check_role c name) ids seen = Inr seen' \<Longrightarrow>
     distinct (map id_Role ids) \<and> (\<forall>i \<in> set ids. id_Role i \<notin> set seen \<and> identity_error c name i = None)"
proof (induction ids arbitrary: seen)
  case Nil
  then show ?case by simp
next
  case (Cons i ids)
  have i: "id_Role i \<notin> set seen" "identity_error c name i = None"
    and rest: "fold_err (check_role c name) ids (id_Role i # seen) = Inr seen'"
    using Cons.prems by (auto simp: check_role_def [of c name i] split: if_splits option.splits)
  show ?case using Cons.IH [OF rest] i by auto
qed

lemma check_repository_Inr:
  assumes "check_repository c r (previous, seen) = Inr s"
  shows "repository_ok c r \<and> previous < r_Name r \<and> s = (r_Name r, r_Name r # seen)"
proof -
  obtain seenRoles where f: "fold_err (check_role c (r_Name r)) (r_Roles r) [] = Inr seenRoles"
      "splitRepository (r_Name r) \<noteq> None" "\<not> r_Name r \<le> previous" "s = (r_Name r, r_Name r # seen)"
    using assms by (auto simp: check_repository_def split: if_splits sum.splits option.splits)
  then show ?thesis using check_roles_Inr [OF f(1)] by (auto simp: repository_ok_def)
qed

lemma check_repositories_Inr:
  "fold_err (check_repository c) rs (previous, seen) = Inr s \<Longrightarrow>
     sorted_wrt (<) (map r_Name rs) \<and> (\<forall>r \<in> set rs. repository_ok c r \<and> previous < r_Name r)"
proof (induction rs arbitrary: previous seen)
  case Nil
  then show ?case by simp
next
  case (Cons r rs)
  obtain t where t: "check_repository c r (previous, seen) = Inr t" "fold_err (check_repository c) rs t = Inr s"
    using Cons.prems by (auto split: sum.splits)
  then have r: "repository_ok c r" "previous < r_Name r" "t = (r_Name r, r_Name r # seen)"
    using check_repository_Inr by blast+
  then show ?case using Cons.IH [of "r_Name r" "r_Name r # seen"] t(2) by (auto dest: order.strict_trans)
qed

lemma config_valid:
  assumes "config_Validate a c = None"
  shows "sorted_wrt (<) (map r_Name (cf_Repositories c))" "r \<in> set (cf_Repositories c) \<Longrightarrow> repository_ok c r"
proof -
  obtain s where "fold_err (check_repository c) (cf_Repositories c) ([], []) = Inr s"
    using assms by (cases "fold_err (check_repository c) (cf_Repositories c) ([], [])")
      (simp_all add: config_Validate_def then_check_None_iff)
  from check_repositories_Inr [OF this]
  show "sorted_wrt (<) (map r_Name (cf_Repositories c))" "r \<in> set (cf_Repositories c) \<Longrightarrow> repository_ok c r" by blast+
qed

lemma find_role_iff:
  assumes "distinct (map id_Role ids)"
  shows "find (\<lambda>i. id_Role i = role) ids = Some i \<longleftrightarrow> i \<in> set ids \<and> id_Role i = role"
  using assms by (induction ids) (auto split: if_splits)

lemma with_bucket_simps [simp]: "r_Roles (with_bucket c r) = r_Roles r" "r_Name (with_bucket c r) = r_Name r"
  by (simp_all add: with_bucket_def)

lemma identity_error_scope:
  assumes "identity_error c name i = None"
  obtains cls mode where "roleContract (id_Role i) = Some (cls, mode)" "id_Mode i = mode" "id_Prefix i = wanted_prefix name cls"
  using assms by (auto simp: identity_error_def split: option.splits if_splits)

lemma roleContract_valid: "roleContract role = Some (cls, mode) \<Longrightarrow> class_Valid cls"
  by (auto simp: roleContract_def class_Valid_def split: if_splits)

lemma Delivery_iff:
  assumes "config_Validate a c = None"
  shows "config_Delivery c repository role = Some (r, i) \<longleftrightarrow>
      (\<exists>r0 \<in> set (cf_Repositories c). r_Name r0 = repository \<and> r = with_bucket c r0 \<and> i \<in> set (r_Roles r0) \<and> id_Role i = role)"
proof (cases "repository_index c repository")
  case None
  then have "\<not> (r0 \<in> set (cf_Repositories c) \<and> r_Name r0 = repository)" for r0
    using repository_index_iff [OF config_valid(1) [OF assms], of repository r0] by simp
  then show ?thesis using None by (auto simp: config_Delivery_def)
next
  case (Some r1)
  note ix = repository_index_iff [OF config_valid(1) [OF assms], of repository]
  have r1: "r1 \<in> set (cf_Repositories c)" "r_Name r1 = repository" using Some ix by blast+
  have u: "r0 = r1" if "r0 \<in> set (cf_Repositories c)" "r_Name r0 = repository" for r0 using ix [of r0] that Some by simp
  have "distinct (map id_Role (r_Roles r1))" using config_valid(2) [OF assms r1(1)] by (simp add: repository_ok_def)
  from find_role_iff [OF this, of role i] have "config_Delivery c repository role = Some (r, i)
      \<longleftrightarrow> r = with_bucket c r1 \<and> i \<in> set (r_Roles r1) \<and> id_Role i = role"
    by (auto simp: config_Delivery_def Let_def Some)
  then show ?thesis using r1 u by metis
qed

lemma Identity_Delivery: "config_Identity c repository role = map_option snd (config_Delivery c repository role)"
  by (cases "repository_index c repository")
    (simp_all add: config_Identity_def config_Delivery_def Let_def option.map_comp comp_def option.map_ident)

lemma Delivery_wanted:
  assumes "config_Validate a c = None" "config_Delivery c repository role = Some (r, i)"
  obtains cls mode where "roleContract role = Some (cls, mode)" "id_Mode i = mode" "id_Prefix i = wanted_prefix repository cls"
proof -
  obtain r0 where r0: "r0 \<in> set (cf_Repositories c)" "r_Name r0 = repository" "i \<in> set (r_Roles r0)" "id_Role i = role"
    using assms(2) Delivery_iff [OF assms(1)] by blast
  then have "identity_error c repository i = None" using config_valid(2) [OF assms(1) r0(1)] by (auto simp: repository_ok_def)
  then show thesis using that r0(4) by (auto elim: identity_error_scope)
qed

lemma Delivery_scope:
  assumes "config_Validate a c = None" "config_Delivery c repository role = Some (r, i)" "repository_parts repository \<noteq> None"
  shows "\<exists>cls mode. roleContract role = Some (cls, mode) \<and> id_Mode i = mode
     \<and> PrefixRootFor repository cls = Inr (id_Prefix i) \<and> ParsePrefixRoot (id_Prefix i) = Inr (repository, cls)"
proof -
  obtain cls mode where cm: "roleContract role = Some (cls, mode)" "id_Mode i = mode" "id_Prefix i = wanted_prefix repository cls"
    using assms(1,2) by (rule Delivery_wanted)
  have "PrefixRootFor repository cls = Inr (id_Prefix i)"
    using cm(3) assms(3) roleContract_valid [OF cm(1)] by (auto simp: wanted_prefix_def PrefixRootFor_def)
  then show ?thesis using cm ParsePrefixRoot_of_root by blast
qed

text \<open>The broker finds the credential of exactly the repository and the role it is asked for. In a configuration that
  passes validation the binary search over the sorted repositories returns an identity precisely when some configured
  repository has this name and this role, with the fleet's bucket where the repository has none of its own; the two
  lookups agree; and for every repository name that has a cache namespace, the prefix of the identity is the root of that
  repository in the trust cls of the role, so it parses back to both.\<close>

theorem Delivery_exact:
  assumes "config_Validate a c = None"
  shows "(config_Delivery c repository role = Some (r, i) \<longleftrightarrow>
      (\<exists>r0 \<in> set (cf_Repositories c). r_Name r0 = repository \<and> r = with_bucket c r0 \<and> i \<in> set (r_Roles r0) \<and> id_Role i = role))
    \<and> config_Identity c repository role = map_option snd (config_Delivery c repository role)
    \<and> (config_Delivery c repository role = Some (r, i) \<longrightarrow> repository_parts repository \<noteq> None \<longrightarrow>
      (\<exists>cls mode. roleContract role = Some (cls, mode) \<and> id_Mode i = mode
         \<and> PrefixRootFor repository cls = Inr (id_Prefix i) \<and> ParsePrefixRoot (id_Prefix i) = Inr (repository, cls)))"
  using Delivery_iff [OF assms, of repository role r i] Identity_Delivery [of c repository role]
    Delivery_scope [OF assms, of repository role r i] by simp

text \<open>The validation of the configuration lets an empty prefix through. The error of the namespace is dropped where the
  wanted prefix is computed, so a repository whose name the broker accepts but that has no cache namespace (a segment that
  is a dot or two dots) validates only with an empty prefix, and what is delivered for it is a credential whose root is the
  whole bucket.\<close>

theorem unnamed_root_validates:
  assumes "config_Validate a c = None" "config_Delivery c repository role = Some (r, i)" "repository_parts repository = None"
  shows "id_Prefix i = [] \<and> (\<exists>cls. roleContract role = Some (cls, id_Mode i) \<and> PrefixRootFor repository cls = Inl (RepositoryShape repository))"
proof -
  obtain cls mode where cm: "roleContract role = Some (cls, mode)" "id_Mode i = mode" "id_Prefix i = wanted_prefix repository cls"
    using assms(1,2) by (rule Delivery_wanted)
  have "PrefixRootFor repository cls = Inl (RepositoryShape repository)"
    using assms(3) roleContract_valid [OF cm(1)] by (simp add: PrefixRootFor_def)
  then show ?thesis using cm by (simp add: wanted_prefix_def)
qed

section \<open>The claim endpoint (\<open>handler.go\<close>)\<close>

subsection \<open>Base 64\<close>

definition url_alphabet :: string where
  "url_alphabet = ''ABCDEFGHIJKLMNOPQRSTUVWXYZabcdefghijklmnopqrstuvwxyz0123456789-_''"

definition std_alphabet :: string where
  "std_alphabet = ''ABCDEFGHIJKLMNOPQRSTUVWXYZabcdefghijklmnopqrstuvwxyz0123456789+/''"

fun index_of :: "char \<Rightarrow> string \<Rightarrow> nat option" where
  "index_of c [] = None"
| "index_of c (x # xs) = (if c = x then Some 0 else map_option Suc (index_of c xs))"

text \<open>\<open>base64.RawURLEncoding.DecodeString\<close>: line breaks are skipped, a group of one character is an error, and the spare bits
  of a short group are ignored.\<close>

fun sextets_to_bytes :: "nat list \<Rightarrow> nat list option" where
  "sextets_to_bytes [] = Some []"
| "sextets_to_bytes [a] = None"
| "sextets_to_bytes [a, b] = Some [4 * a + b div 16]"
| "sextets_to_bytes [a, b, c] = Some [4 * a + b div 16, (b mod 16) * 16 + c div 4]"
| "sextets_to_bytes (a # b # c # d # rest) =
     map_option (\<lambda>bytes. [4 * a + b div 16, (b mod 16) * 16 + c div 4, (c mod 4) * 64 + d] @ bytes) (sextets_to_bytes rest)"

definition raw_url_decode :: "string \<Rightarrow> nat list option" where
  "raw_url_decode s =
     (let vs = map (\<lambda>c. index_of c url_alphabet) (filter (\<lambda>c. c \<noteq> CHR 0x0D \<and> c \<noteq> CHR 0x0A) s)
      in if None \<in> set vs then None else sextets_to_bytes (map the vs))"

text \<open>\<open>base64.StdEncoding.EncodeToString\<close>.\<close>

fun std_encode :: "nat list \<Rightarrow> string" where
  "std_encode [] = []"
| "std_encode [a] = [std_alphabet ! (a div 4), std_alphabet ! ((a mod 4) * 16), CHR ''='', CHR ''='']"
| "std_encode [a, b] =
     [std_alphabet ! (a div 4), std_alphabet ! ((a mod 4) * 16 + b div 16), std_alphabet ! ((b mod 16) * 4), CHR ''='']"
| "std_encode (a # b # c # rest) =
     [std_alphabet ! (a div 4), std_alphabet ! ((a mod 4) * 16 + b div 16), std_alphabet ! ((b mod 16) * 4 + c div 64),
      std_alphabet ! (c mod 64)] @ std_encode rest"

definition bytes_of :: "string \<Rightarrow> nat list" where "bytes_of = map of_char"

subsection \<open>Requests and deliveries\<close>

record ClaimRequest =
  cq_InstanceName :: string
  cq_RunnerName :: string
  cq_Repository :: string
  cq_RepositoryID :: int
  cq_WorkflowRunID :: int
  cq_RunAttempt :: int
  cq_JobName :: string
  cq_WorkflowRef :: string
  cq_CommitSHA :: string
  cq_Token :: string

record BuildcacheDelivery =
  bd_Registry :: string
  bd_Repository :: string
  bd_Username :: string
  bd_PasswordB64 :: string

record cache_delivery =
  cd_SchemaVersion :: int
  cd_DeliveryID :: string
  cd_Role :: string
  cd_Mode :: string
  cd_Endpoint :: string
  cd_Region :: string
  cd_Bucket :: string
  cd_PrefixRoot :: string
  cd_AccessKey :: string
  cd_SecretKeyB64 :: string
  cd_CAPEMB64 :: string
  cd_Buildcache :: "BuildcacheDelivery option"

definition boundedText :: "string \<Rightarrow> bool" where
  "boundedText s \<longleftrightarrow> s \<noteq> [] \<and> length s \<le> 1024 \<and> trim_space s = s \<and> \<not> contains_any s [CHR 0x0D, CHR 0x0A, CHR 0x00]"

definition job_correlation_present :: "ClaimRequest \<Rightarrow> bool" where
  "job_correlation_present q \<longleftrightarrow> cq_RepositoryID q \<noteq> 0 \<or> cq_WorkflowRunID q \<noteq> 0 \<or> cq_RunAttempt q \<noteq> 0
     \<or> cq_JobName q \<noteq> [] \<or> cq_WorkflowRef q \<noteq> [] \<or> cq_CommitSHA q \<noteq> []"

text \<open>All of the job's identity or none of it.\<close>

definition validateJobCorrelation :: "ClaimRequest \<Rightarrow> bool" where
  "validateJobCorrelation q \<longleftrightarrow>
     (if \<not> job_correlation_present q then True
      else cq_RepositoryID q > 0 \<and> cq_WorkflowRunID q > 0 \<and> cq_RunAttempt q > 0 \<and> boundedText (cq_JobName q)
        \<and> boundedText (cq_WorkflowRef q) \<and> length (cq_CommitSHA q) = 40
        \<and> list_all (\<lambda>c. c \<in> set ''0123456789abcdef'') (cq_CommitSHA q))"

text \<open>A file as the handler finds it: absent, or its kind, its permission bits and what reading it gives.\<close>

datatype cred_file = NoCredFile | CredFile bool nat "string option"

datatype delivery_error =
    AccessKeyUnreadable | SecretUnreadable | CAUnreadable | CredentialShape | BuildcacheNamespace namespace_error
  | BuildcacheUnreadable | BuildcacheShape

definition readPrivateRegular :: "(string \<Rightarrow> cred_file) \<Rightarrow> string \<Rightarrow> string option" where
  "readPrivateRegular fs path =
     (case fs path of
        NoCredFile \<Rightarrow> None
      | CredFile regular perm content \<Rightarrow>
          if \<not> regular \<or> and perm 23 \<noteq> 0 then None
          else (case content of
                  None \<Rightarrow> None
                | Some raw \<Rightarrow> if raw = [] \<or> length raw > 512 then None else Some raw))"

definition read_plain :: "(string \<Rightarrow> cred_file) \<Rightarrow> string \<Rightarrow> string option" where
  "read_plain fs path = (case fs path of CredFile regular perm content \<Rightarrow> content | NoCredFile \<Rightarrow> None)"

definition loadBuildcacheDelivery ::
    "(string \<Rightarrow> cred_file) \<Rightarrow> broker_config \<Rightarrow> Identity \<Rightarrow> delivery_error + BuildcacheDelivery" where
  "loadBuildcacheDelivery fs c i =
     (case ParsePrefixRoot (id_Prefix i) of
        Inl e \<Rightarrow> Inl (BuildcacheNamespace e)
      | Inr (repository, cls) \<Rightarrow>
        (case BuildcacheRepositoryFor repository cls of
           Inl e \<Rightarrow> Inl (BuildcacheNamespace e)
         | Inr namespace \<Rightarrow>
           (case readPrivateRegular fs (id_BuildcacheUsernameFile i) of
              None \<Rightarrow> Inl BuildcacheUnreadable
            | Some username \<Rightarrow>
              (case readPrivateRegular fs (id_BuildcachePasswordFile i) of
                 None \<Rightarrow> Inl BuildcacheUnreadable
               | Some password \<Rightarrow>
                 if trim_space username = [] \<or> trim_space password = [] then Inl BuildcacheShape
                 else Inr \<lparr>bd_Registry = cf_BuildcacheRegistry c, bd_Repository = namespace, bd_Username = trim_space username,
                           bd_PasswordB64 = std_encode (bytes_of (trim_space password))\<rparr>))))"

definition delivery_id :: "string \<Rightarrow> string \<Rightarrow> string" where
  "delivery_id inst rootp =
     hex_encode (sha256 (bytes_of (''nddev-job-cache-delivery-v1'' @ [CHR 0x00] @ inst @ [CHR 0x00] @ rootp)))"

definition base_delivery :: "broker_config \<Rightarrow> string \<Rightarrow> Identity \<Rightarrow> string \<Rightarrow> string \<Rightarrow> string \<Rightarrow> string \<Rightarrow> cache_delivery" where
  "base_delivery c bucket i inst access secret ca =
     \<lparr>cd_SchemaVersion = 1, cd_DeliveryID = delivery_id inst (id_Prefix i), cd_Role = id_Role i, cd_Mode = id_Mode i,
      cd_Endpoint = cf_Endpoint c, cd_Region = cf_Region c, cd_Bucket = bucket, cd_PrefixRoot = id_Prefix i,
      cd_AccessKey = trim_space access, cd_SecretKeyB64 = std_encode (bytes_of (trim_space secret)),
      cd_CAPEMB64 = std_encode (bytes_of ca), cd_Buildcache = None\<rparr>"

definition loadDelivery ::
    "(string \<Rightarrow> cred_file) \<Rightarrow> broker_config \<Rightarrow> string \<Rightarrow> Identity \<Rightarrow> string \<Rightarrow> delivery_error + cache_delivery" where
  "loadDelivery fs c bucket i inst =
     (case readPrivateRegular fs (id_AccessKeyFile i) of
        None \<Rightarrow> Inl AccessKeyUnreadable
      | Some access \<Rightarrow>
        (case readPrivateRegular fs (id_SecretKeyFile i) of
           None \<Rightarrow> Inl SecretUnreadable
         | Some secret \<Rightarrow>
           (case read_plain fs (cf_CAFile c) of
              None \<Rightarrow> Inl CAUnreadable
            | Some ca \<Rightarrow>
              if length (trim_space access) \<noteq> 20 \<or> \<not> has_prefix (trim_space access) ''AKIA'' \<or> length (trim_space secret) \<noteq> 64
              then Inl CredentialShape
              else let d = base_delivery c bucket i inst access secret ca
                   in if id_BuildcacheUsernameFile i \<noteq> [] \<and> cf_BuildcacheRegistry c \<noteq> []
                      then (case loadBuildcacheDelivery fs c i of Inl e \<Rightarrow> Inl e | Inr b \<Rightarrow> Inr (d\<lparr>cd_Buildcache := Some b\<rparr>))
                      else Inr d)))"

subsection \<open>Serving a request\<close>

text \<open>What a request meets: how the store, the correlator and the credential files behave. Other processes may change the
  claim journal between verification and consumption (\<open>se_between\<close>), and the queue manager may change the queue journal
  between two attempts of the correlator (\<open>se_auth_files\<close>).\<close>

record serve_env =
  se_addresses :: address_checks
  se_verify :: store_env
  se_between :: "claim_file \<Rightarrow> claim_file"
  se_consume :: store_env
  se_correlator :: bool
  se_ready :: read_env
  se_attempts :: int
  se_auth_envs :: "nat \<Rightarrow> queue_env"
  se_auth_files :: "nat \<Rightarrow> queue_file"
  se_bind_envs :: "nat \<Rightarrow> queue_env"
  se_pause :: "nat \<Rightarrow> bool"
  se_files :: "string \<Rightarrow> cred_file"

datatype response = Status nat | Healthy | Delivered cache_delivery

record served =
  sv_response :: response
  sv_claims :: claim_file
  sv_queue :: queue_file
  sv_retry :: bool

definition correlation_of :: "ClaimRequest \<Rightarrow> cache_claim \<Rightarrow> RunningCorrelation" where
  "correlation_of q claim =
     \<lparr>rc_RunnerName = cq_RunnerName q, rc_PoolName = k_PoolName claim, rc_Repository = cq_Repository q,
      rc_WorkflowRunID = cq_WorkflowRunID q, rc_JobDisplayName = cq_JobName q, rc_WorkflowRef = cq_WorkflowRef q\<rparr>"

text \<open>The check of a warm container, whose provider name is not the name of the runner it hosts.\<close>

definition warm_refused :: "serve_env \<Rightarrow> ClaimRequest \<Rightarrow> cache_claim \<Rightarrow> bool" where
  "warm_refused env q claim \<longleftrightarrow>
     cq_InstanceName q \<noteq> cq_RunnerName q
     \<and> (cq_WorkflowRunID q \<le> 0 \<or> \<not> se_correlator env
        \<or> fst (AuthorizeRunning (se_attempts env) (se_auth_envs env) (se_auth_files env) (se_pause env) (correlation_of q claim)) \<noteq> Inr ())"

text \<open>Binding the queue intent never refuses the claim; a correlation that is not ready is retried in the background.\<close>

definition bind_queue :: "serve_env \<Rightarrow> ClaimRequest \<Rightarrow> cache_claim \<Rightarrow> queue_file \<Rightarrow> bool \<times> queue_file" where
  "bind_queue env q claim qf =
     (if cq_WorkflowRunID q > 0 \<and> se_correlator env
      then (case BindRunning (se_attempts env) (se_bind_envs env) (se_pause env) (correlation_of q claim) qf of
              (Inl CorrelationNotReady, qf') \<Rightarrow> (True, qf')
            | (_, qf') \<Rightarrow> (False, qf'))
      else (False, qf))"

text \<open>The rest of a verified claim: the delivery is prepared before the claim is consumed.\<close>

definition deliver :: "broker_config \<Rightarrow> serve_env \<Rightarrow> ClaimRequest \<Rightarrow> nat list \<Rightarrow> cache_claim \<Rightarrow> claim_file \<Rightarrow> response \<times> claim_file" where
  "deliver c env q token claim f =
     (let consume = cb_Consume (se_consume env) (cq_InstanceName q) token (cq_Repository q) f
      in case config_Delivery c (cq_Repository q) (k_Role claim) of
           None \<Rightarrow> (case consume of (Inl e, f') \<Rightarrow> (Status 409, f') | (Inr b, f') \<Rightarrow> (Status 204, f'))
         | Some (r, i) \<Rightarrow>
           (case loadDelivery (se_files env) c (r_Bucket r) i (cq_InstanceName q) of
              Inl e \<Rightarrow> (Status 503, f)
            | Inr d \<Rightarrow> (case consume of (Inl e, f') \<Rightarrow> (Status 409, f') | (Inr b, f') \<Rightarrow> (Delivered d, f'))))"

definition refuse :: "nat \<Rightarrow> claim_file \<Rightarrow> queue_file \<Rightarrow> served" where
  "refuse st f qf = \<lparr>sv_response = Status st, sv_claims = f, sv_queue = qf, sv_retry = False\<rparr>"

definition serve_claim :: "broker_config \<Rightarrow> serve_env \<Rightarrow> ClaimRequest \<Rightarrow> claim_file \<Rightarrow> queue_file \<Rightarrow> served" where
  "serve_claim c env q f qf =
     (if \<not> instancePattern (cq_InstanceName q) \<or> \<not> instancePattern (cq_RunnerName q) then refuse 403 f qf
      else if splitRepository (cq_Repository q) = None then refuse 400 f qf
      else if \<not> validateJobCorrelation q then refuse 400 f qf
      else (case raw_url_decode (cq_Token q) of
              None \<Rightarrow> refuse 403 f qf
            | Some token \<Rightarrow>
              if length token \<noteq> ClaimTokenBytes then refuse 403 f qf
              else (case cb_Verify (se_verify env) (cq_InstanceName q) token f of
                      Inl e \<Rightarrow> refuse 403 f qf
                    | Inr claim \<Rightarrow>
                      if warm_refused env q claim then refuse 403 f qf
                      else (let (retry, qf') = bind_queue env q claim qf;
                                (resp, f') = deliver c env q token claim (se_between env f)
                            in \<lparr>sv_response = resp, sv_claims = f', sv_queue = qf', sv_retry = retry\<rparr>))))"

text \<open>A request as it arrives: its path, its method and, for a body of at most 4096 bytes that holds exactly one JSON value with
  known fields, the claim.\<close>

record http_request =
  hr_path :: string
  hr_method :: string
  hr_body :: "ClaimRequest option"

definition ClaimPath :: string where "ClaimPath = ''/api/v1/cache/claim''"
definition HealthPath :: string where "HealthPath = ''/healthz''"

definition healthy :: "broker_config \<Rightarrow> serve_env \<Rightarrow> claim_file \<Rightarrow> queue_file \<Rightarrow> bool" where
  "healthy c env f qf \<longleftrightarrow>
     config_Validate (se_addresses env) c = None
     \<and> (case cb_Read (se_verify env) f of Inl e \<Rightarrow> False | Inr j \<Rightarrow> True)
     \<and> (se_correlator env \<longrightarrow> (case ReadActive (se_ready env) qf of Inl e \<Rightarrow> False | Inr s \<Rightarrow> True))"

definition ServeHTTP :: "broker_config \<Rightarrow> serve_env \<Rightarrow> http_request \<Rightarrow> claim_file \<Rightarrow> queue_file \<Rightarrow> served" where
  "ServeHTTP c env h f qf =
     (if hr_path h = HealthPath then
        (if hr_method h \<noteq> ''GET'' then refuse 405 f qf
         else if \<not> healthy c env f qf then refuse 503 f qf
         else (refuse 0 f qf)\<lparr>sv_response := Healthy\<rparr>)
      else if hr_path h \<noteq> ClaimPath then refuse 404 f qf
      else if hr_method h \<noteq> ''POST'' then refuse 405 f qf
      else (case hr_body h of
              None \<Rightarrow> refuse 400 f qf
            | Some q \<Rightarrow> serve_claim c env q f qf))"

text \<open>The background retry: one attempt per tick until the window elapses. Between two ticks the queue manager may change
  the journal.\<close>

fun retryQueueCorrelation ::
    "(queue_env \<times> (queue_file \<Rightarrow> queue_file)) list \<Rightarrow> RunningCorrelation \<Rightarrow> queue_file \<Rightarrow> (queue_error + CorrelationResult) option \<times> queue_file" where
  "retryQueueCorrelation [] c f = (None, f)"
| "retryQueueCorrelation ((env, manager) # ticks) c f =
     (case BindRunning 1 (\<lambda>_. env) (\<lambda>_. False) c (manager f) of
        (Inl CorrelationNotReady, f') \<Rightarrow> retryQueueCorrelation ticks c f'
      | (r, f') \<Rightarrow> (Some r, f'))"

section \<open>Properties of the endpoint\<close>

lemma deliver_Delivered:
  assumes "deliver c env q token claim f = (Delivered d, f')"
  obtains r i b where "config_Delivery c (cq_Repository q) (k_Role claim) = Some (r, i)"
    "loadDelivery (se_files env) c (r_Bucket r) i (cq_InstanceName q) = Inr d"
    "cb_Consume (se_consume env) (cq_InstanceName q) token (cq_Repository q) f = (Inr b, f')"
  using assms unfolding deliver_def
  by (auto simp: Let_def split: option.splits prod.splits sum.splits)

lemma loadDelivery_Inr:
  assumes "loadDelivery fs c bucket i inst = Inr d"
  shows "cd_Role d = id_Role i \<and> cd_Mode d = id_Mode i \<and> cd_PrefixRoot d = id_Prefix i \<and> cd_Bucket d = bucket
    \<and> (\<forall>b. cd_Buildcache d = Some b \<longrightarrow> loadBuildcacheDelivery fs c i = Inr b)
    \<and> (\<exists>access. readPrivateRegular fs (id_AccessKeyFile i) = Some access \<and> cd_AccessKey d = trim_space access)"
  using assms by (auto simp: loadDelivery_def base_delivery_def Let_def split: option.splits if_splits sum.splits)

lemma loadBuildcache_namespace:
  assumes "loadBuildcacheDelivery fs c i = Inr b" "ParsePrefixRoot (id_Prefix i) = Inr (repository, cls)"
  shows "BuildcacheRepositoryFor repository cls = Inr (bd_Repository b)"
  using assms by (auto simp: loadBuildcacheDelivery_def split: sum.splits option.splits if_splits)

lemma cb_Verify_Inr:
  assumes "cb_Verify env inst token f = Inr claim"
  shows "\<exists>j. read_claims f = Inr j \<and> get (cj_Claims j) inst = Some claim \<and> env_now env < k_ExpiresAt claim
    \<and> hex_decode (k_TokenSHA256 claim) = Some (sha256 token)"
  using assms by (auto simp: cb_Verify_def cb_Read_def check_token_def split: if_splits sum.splits option.splits)

lemma warm_authorized:
  assumes "\<not> warm_refused env q claim" "cq_InstanceName q \<noteq> cq_RunnerName q"
  shows "\<exists>n j k i. readJournal (se_auth_files env n) = Inr j \<and> (k, i) \<in> set (q_Intents j)
    \<and> authorizes (qe_now (se_auth_envs env n)) (correlation_of q claim) i"
proof -
  let ?c = "correlation_of q claim"
  have "fst (AuthorizeRunning (se_attempts env) (se_auth_envs env) (se_auth_files env) (se_pause env) ?c) = Inr ()"
    using assms by (simp add: warm_refused_def)
  then obtain m where "authorize_loop (se_auth_envs env) (se_auth_files env) (se_pause env) ?c 0 (default_attempts (se_attempts env)) = (Inr (), m)"
    by (cases "authorize_loop (se_auth_envs env) (se_auth_files env) (se_pause env) ?c 0 (default_attempts (se_attempts env))")
      (auto simp: AuthorizeRunning_def split: option.splits)
  moreover have "0 < default_attempts (se_attempts env)" by (simp add: default_attempts_def)
  ultimately obtain n where "authorizeOnce (se_auth_envs env n) ?c (se_auth_files env n) = Inr ()"
    using authorize_loop_Inr by blast
  then show ?thesis by (auto simp: authorizeOnce_def list_ex_iff split: if_splits sum.splits)
qed

lemma serve_claim_verified:
  assumes "sv_response (serve_claim c env q f qf) = resp" "\<forall>st. resp = Status st \<longrightarrow> st \<noteq> 400 \<and> st \<noteq> 403"
  shows "\<exists>token claim. raw_url_decode (cq_Token q) = Some token \<and> splitRepository (cq_Repository q) \<noteq> None
    \<and> cb_Verify (se_verify env) (cq_InstanceName q) token f = Inr claim \<and> \<not> warm_refused env q claim
    \<and> deliver c env q token claim (se_between env f) = (resp, sv_claims (serve_claim c env q f qf))"
  using assms unfolding serve_claim_def refuse_def
  by (auto simp: Let_def split: if_splits option.splits sum.splits prod.splits)

text \<open>C18: A cache credential leaves the broker only with authority. When a request is answered with a delivery: the claim
  journal held, at verification, an unexpired claim of that instance whose stored hash is the SHA-256 of the presented
  token; if the runner's name is not the instance's, some queue journal read during the request held a live intent of the
  claim's pool for this owner, repository and workflow run; the delivered role is the claim's, with its mode, and the
  delivered root is the root of the requested repository in the trust class of that role; a build cache namespace that
  comes with it is the one of the same repository and class; and the journal on disk then records the claim as bound to
  the requested repository. This holds whatever other processes did to the claim journal between verification and
  consumption.\<close>

theorem cache_delivery_authorized:
  assumes "config_Validate a c = None" "repository_parts (cq_Repository q) \<noteq> None" "wf_claim_file (se_between env f)"
    and "s = serve_claim c env q f qf" "sv_response s = Delivered d"
  shows "\<exists>token claim j cls mode bound.
      raw_url_decode (cq_Token q) = Some token \<and> read_claims f = Inr j \<and> get (cj_Claims j) (cq_InstanceName q) = Some claim
    \<and> env_now (se_verify env) < k_ExpiresAt claim \<and> hex_decode (k_TokenSHA256 claim) = Some (sha256 token)
    \<and> (cq_InstanceName q \<noteq> cq_RunnerName q \<longrightarrow>
        (\<exists>n jq k i. readJournal (se_auth_files env n) = Inr jq \<and> (k, i) \<in> set (q_Intents jq)
           \<and> authorizes (qe_now (se_auth_envs env n)) (correlation_of q claim) i))
    \<and> roleContract (k_Role claim) = Some (cls, mode) \<and> cd_Role d = k_Role claim \<and> cd_Mode d = mode
    \<and> PrefixRootFor (cq_Repository q) cls = Inr (cd_PrefixRoot d)
    \<and> (\<forall>b. cd_Buildcache d = Some b \<longrightarrow> BuildcacheRepositoryFor (cq_Repository q) cls = Inr (bd_Repository b))
    \<and> bound_on_disk (cq_InstanceName q) bound (sv_claims s) \<and> k_ClaimedRepository bound = cq_Repository q"
proof -
  obtain token claim where v: "raw_url_decode (cq_Token q) = Some token" "splitRepository (cq_Repository q) \<noteq> None"
      "cb_Verify (se_verify env) (cq_InstanceName q) token f = Inr claim" "\<not> warm_refused env q claim"
      "deliver c env q token claim (se_between env f) = (Delivered d, sv_claims s)"
    using serve_claim_verified [of c env q f qf "Delivered d"] assms(4,5) by blast
  obtain j where j: "read_claims f = Inr j" "get (cj_Claims j) (cq_InstanceName q) = Some claim"
      "env_now (se_verify env) < k_ExpiresAt claim" "hex_decode (k_TokenSHA256 claim) = Some (sha256 token)"
    using cb_Verify_Inr [OF v(3)] by blast
  obtain r i b where d: "config_Delivery c (cq_Repository q) (k_Role claim) = Some (r, i)"
      "loadDelivery (se_files env) c (r_Bucket r) i (cq_InstanceName q) = Inr d"
      "cb_Consume (se_consume env) (cq_InstanceName q) token (cq_Repository q) (se_between env f) = (Inr b, sv_claims s)"
    using v(5) by (rule deliver_Delivered)
  obtain cls mode where cm: "roleContract (k_Role claim) = Some (cls, mode)" "id_Mode i = mode"
      "PrefixRootFor (cq_Repository q) cls = Inr (id_Prefix i)" "ParsePrefixRoot (id_Prefix i) = Inr (cq_Repository q, cls)"
    using Delivery_scope [OF assms(1) d(1) assms(2)] by blast
  have role: "id_Role i = k_Role claim" using d(1) Delivery_iff [OF assms(1)] by blast
  note ld = loadDelivery_Inr [OF d(2)]
  have "cq_Repository q \<noteq> []" using v(2) by (auto simp: splitRepository_def)
  then have "bound_on_disk (cq_InstanceName q) b (sv_claims s) \<and> k_ClaimedRepository b = cq_Repository q"
    using Consume_bound [OF assms(3) d(3)] by blast
  moreover have "BuildcacheRepositoryFor (cq_Repository q) cls = Inr (bd_Repository bc)" if "cd_Buildcache d = Some bc" for bc
    using that ld loadBuildcache_namespace [OF _ cm(4)] by blast
  ultimately show ?thesis
    using v(1) j warm_authorized [OF v(4)] cm ld role
    by (intro exI [of _ token] exI [of _ claim] exI [of _ j] exI [of _ cls] exI [of _ mode] exI [of _ b]) simp
qed

text \<open>A refused request spends nothing. An answer that the request is malformed or not allowed (400, 403) leaves the claim
  journal and the queue journal as they were and schedules nothing; an answer that the credential files are not available
  (503) leaves the claim unconsumed; and of the requests that reach the claim endpoint no other status is ever answered
  than these, a conflict (409) and a claim bound without a delivery (204).\<close>

theorem refusal_spends_nothing:
  assumes "s = serve_claim c env q f qf" "sv_response s = Status st"
  shows "st \<in> {204, 400, 403, 409, 503}
    \<and> (st \<in> {400, 403} \<longrightarrow> sv_claims s = f \<and> sv_queue s = qf \<and> \<not> sv_retry s)
    \<and> (st = 503 \<longrightarrow> sv_claims s = se_between env f)
    \<and> (st = 204 \<longrightarrow> wf_claim_file (se_between env f) \<longrightarrow>
         (\<exists>bound. bound_on_disk (cq_InstanceName q) bound (sv_claims s) \<and> k_ClaimedRepository bound = cq_Repository q))"
proof (cases "st \<in> {400, 403}")
  case True
  show ?thesis
  proof (cases "s = refuse st f qf")
    case True
    then show ?thesis using \<open>st \<in> {400, 403}\<close> by (auto simp: refuse_def)
  next
    case False
    then obtain token claim f' where "deliver c env q token claim (se_between env f) = (Status st, f')"
      using assms \<open>st \<in> {400, 403}\<close> unfolding serve_claim_def
      by (auto simp: refuse_def Let_def split: if_splits option.splits sum.splits prod.splits)
    then show ?thesis using \<open>st \<in> {400, 403}\<close>
      by (auto simp: deliver_def Let_def split: option.splits sum.splits prod.splits)
  qed
next
  case False
  then obtain token claim where v: "splitRepository (cq_Repository q) \<noteq> None"
      "deliver c env q token claim (se_between env f) = (Status st, sv_claims s)"
    using serve_claim_verified [of c env q f qf "Status st"] assms by blast
  have ne: "cq_Repository q \<noteq> []" using v(1) by (auto simp: splitRepository_def)
  let ?consume = "cb_Consume (se_consume env) (cq_InstanceName q) token (cq_Repository q) (se_between env f)"
  consider "st = 503" "sv_claims s = se_between env f" | "st = 409" | b where "st = 204" "?consume = (Inr b, sv_claims s)"
    using v(2) by (auto simp: deliver_def Let_def split: option.splits sum.splits prod.splits)
  then show ?thesis using Consume_bound [OF _ _ ne] by cases (simp, simp, simp, blast)
qed

section \<open>Witnesses\<close>

definition demo_identity :: "string \<Rightarrow> string \<Rightarrow> string \<Rightarrow> Identity" where
  "demo_identity role mode rootp =
     \<lparr>id_Role = role, id_Mode = mode, id_Prefix = rootp, id_AccessKeyFile = ''/etc/keys/access'', id_SecretKeyFile = ''/etc/keys/secret'',
      id_BuildcacheUsernameFile = [], id_BuildcachePasswordFile = []\<rparr>"

definition demo_repository :: "string \<Rightarrow> (string \<Rightarrow> string) \<Rightarrow> Repository" where
  "demo_repository name rootp =
     \<lparr>r_Name = name, r_Bucket = [],
      r_Roles = [demo_identity ''release-reader'' ''read-only'' (rootp ''promoted''),
                 demo_identity ''trusted-writer'' ''read-write'' (rootp ''trusted''),
                 demo_identity ''untrusted-writer'' ''read-write'' (rootp ''untrusted'')]\<rparr>"

definition demo_config :: "Repository list \<Rightarrow> broker_config" where
  "demo_config rs =
     \<lparr>cf_SchemaVersion = 1, cf_ListenAddress = ''10.0.0.1:8443'', cf_Endpoint = ''https://10.0.0.1:9002'', cf_Region = ''us-east-1'',
      cf_Bucket = ''github-actions-cache'', cf_CAFile = ''/etc/ca.pem'', cf_JournalFile = ''/var/lib/b/claims.json'',
      cf_JournalLock = ''/var/lib/b/claims.lock'', cf_QueueJournalFile = [], cf_QueueJournalLock = [], cf_ProviderJournalFile = [],
      cf_BuildcacheRegistry = [], cf_Repositories = rs\<rparr>"

definition app_config :: broker_config where
  "app_config = demo_config [demo_repository ''org/app'' (\<lambda>cls. ''org/app/trust/'' @ cls), demo_repository ''org/lib'' (\<lambda>cls. ''org/lib/trust/'' @ cls)]"

definition dots_config :: broker_config where
  "dots_config = demo_config [demo_repository ''org/..'' (\<lambda>cls. [])]"

definition demo_addresses :: address_checks where
  "demo_addresses = \<lparr>listen_ok = \<lambda>_. True, endpoint_ok = \<lambda>_. True, origin_ok = \<lambda>_. True\<rparr>"

lemma app_config_valid: "config_Validate demo_addresses app_config = None"
  by code_simp

lemma app_delivery: "config_Delivery app_config ''org/app'' ''trusted-writer''
    = Some (demo_repository ''org/app'' (\<lambda>cls. ''org/app/trust/'' @ cls)\<lparr>r_Bucket := ''github-actions-cache''\<rparr>,
            demo_identity ''trusted-writer'' ''read-write'' ''org/app/trust/trusted'')"
  by code_simp

theorem Delivery_exact_witness:
  "\<exists>cls. roleContract ''trusted-writer'' = Some (cls, ''read-write'') \<and> ParsePrefixRoot ''org/app/trust/trusted'' = Inr (''org/app'', cls)"
proof -
  let ?r = "demo_repository ''org/app'' (\<lambda>cls. ''org/app/trust/'' @ cls)\<lparr>r_Bucket := ''github-actions-cache''\<rparr>"
  let ?i = "demo_identity ''trusted-writer'' ''read-write'' ''org/app/trust/trusted''"
  have "repository_parts ''org/app'' \<noteq> None" by code_simp
  with Delivery_exact [OF app_config_valid, of "''org/app''" "''trusted-writer''" ?r ?i] app_delivery
  have "\<exists>cls mode. roleContract ''trusted-writer'' = Some (cls, mode) \<and> id_Mode ?i = mode
      \<and> ParsePrefixRoot (id_Prefix ?i) = Inr (''org/app'', cls)" by blast
  then show ?thesis by (simp add: demo_identity_def)
qed

theorem unnamed_root_validates_witness:
  "config_Validate demo_addresses dots_config = None
   \<and> (\<exists>r i. config_Delivery dots_config ''org/..'' ''trusted-writer'' = Some (r, i) \<and> id_Prefix i = [] \<and> id_Mode i = ''read-write'')"
proof -
  have v: "config_Validate demo_addresses dots_config = None" by code_simp
  have d: "config_Delivery dots_config ''org/..'' ''trusted-writer''
    = Some (demo_repository ''org/..'' (\<lambda>cls. [])\<lparr>r_Bucket := ''github-actions-cache''\<rparr>, demo_identity ''trusted-writer'' ''read-write'' [])"
    by code_simp
  have "repository_parts ''org/..'' = None" by code_simp
  from unnamed_root_validates [OF v d this] show ?thesis using v d by (auto simp: demo_identity_def roleContract_def)
qed

definition demo_request :: ClaimRequest where
  "demo_request =
     \<lparr>cq_InstanceName = ''runner-01'', cq_RunnerName = ''runner-01'', cq_Repository = ''org/app'', cq_RepositoryID = 0, cq_WorkflowRunID = 0,
      cq_RunAttempt = 0, cq_JobName = [], cq_WorkflowRef = [], cq_CommitSHA = [], cq_Token = replicate 43 CHR ''A''\<rparr>"

definition demo_cred_files :: "string \<Rightarrow> cred_file" where
  "demo_cred_files path =
     (if path = ''/etc/keys/access'' then CredFile True 256 (Some (''AKIA'' @ replicate 16 CHR ''Q''))
      else if path = ''/etc/keys/secret'' then CredFile True 256 (Some (replicate 64 CHR ''s''))
      else if path = ''/etc/ca.pem'' then CredFile True 420 (Some ''pem'') else NoCredFile)"

definition broker_queue_env :: queue_env where
  "broker_queue_env = \<lparr>qe_context = True, qe_paths = True, qe_locked = True, qe_write = WriteOk, qe_now = 20\<rparr>"

definition demo_serve_env :: "(string \<Rightarrow> cred_file) \<Rightarrow> serve_env" where
  "demo_serve_env fs =
     \<lparr>se_addresses = demo_addresses, se_verify = demo_store_env 15, se_between = id, se_consume = demo_store_env 20, se_correlator = False,
      se_ready = \<lparr>re_context = True, re_path = True, re_now = 15\<rparr>, se_attempts = 0, se_auth_envs = \<lambda>_. broker_queue_env,
      se_auth_files = \<lambda>_. NoQueue, se_bind_envs = \<lambda>_. broker_queue_env, se_pause = \<lambda>_. False, se_files = fs\<rparr>"

lemma demo_verify: "cb_Verify (demo_store_env 15) ''runner-01'' demo_token demo_claims = Inr demo_cache_claim"
  by (simp add: cb_Verify_def cb_Read_def demo_store_env_def demo_read check_token_def demo_token_def ClaimTokenBytes_def demo_cache_claim_def)

lemma demo_served: "serve_claim app_config (demo_serve_env fs) demo_request demo_claims qf =
    (case deliver app_config (demo_serve_env fs) demo_request demo_token demo_cache_claim demo_claims of (resp, f') \<Rightarrow>
       \<lparr>sv_response = resp, sv_claims = f', sv_queue = qf, sv_retry = False\<rparr>)"
proof -
  have 1: "raw_url_decode (replicate 43 CHR ''A'') = Some demo_token" by code_simp
  have 2: "validateJobCorrelation demo_request" by code_simp
  have 3: "\<not> warm_refused (demo_serve_env fs) demo_request demo_cache_claim" by (simp add: warm_refused_def demo_request_def)
  have 4: "bind_queue (demo_serve_env fs) demo_request demo_cache_claim qf = (False, qf)"
    by (simp add: bind_queue_def demo_request_def)
  have 5: "cq_InstanceName demo_request = ''runner-01''" "cq_RunnerName demo_request = ''runner-01''" "cq_Repository demo_request = ''org/app''"
      "cq_Token demo_request = replicate 43 CHR ''A''" by (simp_all add: demo_request_def)
  have 6: "se_verify (demo_serve_env fs) = demo_store_env 15" "se_between (demo_serve_env fs) demo_claims = demo_claims"
    by (simp_all add: demo_serve_env_def)
  have 7: "length demo_token = ClaimTokenBytes" by (simp add: demo_token_def ClaimTokenBytes_def)
  show ?thesis
    unfolding serve_claim_def by (simp add: 1 2 3 4 5 6 7 demo_patterns demo_verify Let_def)
qed

lemma demo_role: "k_Role demo_cache_claim = ''trusted-writer''" "cq_Repository demo_request = ''org/app''"
    "cq_InstanceName demo_request = ''runner-01''"
  by (simp_all add: demo_cache_claim_def demo_request_def)

lemma demo_load: "\<exists>d. loadDelivery demo_cred_files app_config bucket (demo_identity ''trusted-writer'' ''read-write'' rootp) inst = Inr d"
proof -
  have "readPrivateRegular demo_cred_files ''/etc/keys/access'' = Some (''AKIA'' @ replicate 16 CHR ''Q'')" by code_simp
  moreover have "readPrivateRegular demo_cred_files ''/etc/keys/secret'' = Some (replicate 64 CHR ''s'')" by code_simp
  moreover have "read_plain demo_cred_files (cf_CAFile app_config) = Some ''pem''" by code_simp
  moreover have "length (trim_space (''AKIA'' @ replicate 16 CHR ''Q'')) = 20" "has_prefix (trim_space (''AKIA'' @ replicate 16 CHR ''Q'')) ''AKIA''"
    "length (trim_space (replicate 64 CHR ''s'')) = 64" by code_simp+
  ultimately show ?thesis by (simp add: loadDelivery_def demo_identity_def Let_def)
qed

theorem cache_delivery_authorized_witness:
  "\<exists>d (claim :: cache_claim). sv_response (serve_claim app_config (demo_serve_env demo_cred_files) demo_request demo_claims NoQueue) = Delivered d
     \<and> hex_decode (k_TokenSHA256 claim) = Some (sha256 demo_token) \<and> cd_Role d = k_Role claim"
proof -
  let ?env = "demo_serve_env demo_cred_files"
  obtain d where d: "loadDelivery demo_cred_files app_config ''github-actions-cache'' (demo_identity ''trusted-writer'' ''read-write'' ''org/app/trust/trusted'') ''runner-01'' = Inr d"
    using demo_load by blast
  have "deliver app_config ?env demo_request demo_token demo_cache_claim demo_claims = (Delivered d, demo_bound_file)"
    by (simp add: deliver_def Let_def demo_role app_delivery demo_serve_env_def d demo_consume)
  then have s: "sv_response (serve_claim app_config ?env demo_request demo_claims NoQueue) = Delivered d"
    by (simp add: demo_served)
  have p: "repository_parts (cq_Repository demo_request) \<noteq> None" by code_simp
  have w: "wf_claim_file (se_between ?env demo_claims)" by (simp add: demo_serve_env_def demo_claims_wf)
  have t: "raw_url_decode (cq_Token demo_request) = Some demo_token" by code_simp
  obtain token and claim :: cache_claim where "raw_url_decode (cq_Token demo_request) = Some token"
      "hex_decode (k_TokenSHA256 claim) = Some (sha256 token)" "cd_Role d = k_Role claim"
    using cache_delivery_authorized [OF app_config_valid p w refl s] by blast
  then show ?thesis using s t by auto
qed

theorem refusal_spends_nothing_witness:
  "sv_response (serve_claim app_config (demo_serve_env (\<lambda>_. NoCredFile)) demo_request demo_claims NoQueue) = Status 503
   \<and> sv_claims (serve_claim app_config (demo_serve_env (\<lambda>_. NoCredFile)) demo_request demo_claims NoQueue) = demo_claims"
proof -
  let ?env = "demo_serve_env (\<lambda>_. NoCredFile)"
  have "deliver app_config ?env demo_request demo_token demo_cache_claim demo_claims = (Status 503, demo_claims)"
    by (simp add: deliver_def Let_def demo_role app_delivery demo_serve_env_def loadDelivery_def readPrivateRegular_def)
  then have s: "sv_response (serve_claim app_config ?env demo_request demo_claims NoQueue) = Status 503" by (simp add: demo_served)
  have "se_between ?env demo_claims = demo_claims" by (simp add: demo_serve_env_def)
  then show ?thesis using refusal_spends_nothing [OF refl s] s by simp
qed

end
