(* ===== verification/Queue_Reclaim.thy ===== *)
theory Queue_Reclaim
  imports Queue_Intent Provider_Journal
begin

text \<open>
  The reclaimer of the cache broker (\<open>src/internal/cachebroker/reclaim.go\<close>), which joins the provider journal, read without
  its lock (\<open>Store.ReadOnly\<close> in \<open>src/internal/providerjournal/store.go\<close>), with the queue journal: running intents whose
  runner holds neither a lease nor a claim are released after a grace period.
\<close>

section \<open>The reclaimer\<close>

datatype reclaim_error = ReadContextDone | ReadPathInvalid | ReadStore store_error | ReclaimQueue queue_error

text \<open>Reading the provider journal without its lock (\<open>Store.ReadOnly\<close>).\<close>

definition store_ReadOnly :: "read_env \<Rightarrow> journal_file \<Rightarrow> reclaim_error + journal" where
  "store_ReadOnly env f =
     (if \<not> re_context env then Inl ReadContextDone
      else if \<not> re_path env then Inl ReadPathInvalid
      else (case readUnlocked f of Inl e \<Rightarrow> Inl (ReadStore e) | Inr j \<Rightarrow> Inr j))"

definition DefaultReclaimGrace :: duration where "DefaultReclaimGrace = 5 * minute"
definition DefaultReclaimInterval :: duration where "DefaultReclaimInterval = minute"

record Reclaimer =
  rl_Correlator :: bool
  rl_ProviderPath :: string
  rl_Grace :: duration
  rl_Interval :: duration

definition reclaim_grace :: "Reclaimer \<Rightarrow> duration" where
  "reclaim_grace r = (if rl_Grace r > 0 then rl_Grace r else DefaultReclaimGrace)"

definition reclaim_interval :: "Reclaimer \<Rightarrow> duration" where
  "reclaim_interval r = (if rl_Interval r > 0 then rl_Interval r else DefaultReclaimInterval)"

definition covered_runners :: "journal \<Rightarrow> string set" where
  "covered_runners j =
     set (keys (j_Leases j)
        @ filter (\<lambda>name. name \<noteq> []) (concat (map (\<lambda>(k, c). [c_JobName c, c_InstanceName c]) (j_Claims j))))"

definition Once :: "Reclaimer \<Rightarrow> read_env \<Rightarrow> queue_env \<Rightarrow> journal_file \<Rightarrow> queue_file \<Rightarrow> (reclaim_error + string list) \<times> queue_file" where
  "Once r renv qenv pf qf =
     (if \<not> rl_Correlator r \<or> rl_ProviderPath r = [] then (Inr [], qf)
      else (case store_ReadOnly renv pf of
              Inl e \<Rightarrow> (Inl e, qf)
            | Inr j \<Rightarrow> (case ReleaseUncoveredRunning qenv (covered_runners j) (reclaim_grace r) qf of
                        (Inl e, qf') \<Rightarrow> (Inl (ReclaimQueue e), qf')
                      | (Inr released, qf') \<Rightarrow> (Inr released, qf'))))"

text \<open>The reclaimer on its ticker: at every tick it sees the provider journal of that moment, and between two ticks the queue
  manager may change the queue journal.\<close>

record reclaim_tick =
  tk_read :: read_env
  tk_queue :: queue_env
  tk_provider :: journal_file
  tk_manager :: "queue_file \<Rightarrow> queue_file"

fun Run :: "Reclaimer \<Rightarrow> reclaim_tick list \<Rightarrow> queue_file \<Rightarrow> queue_file" where
  "Run r [] qf = qf"
| "Run r (t # ts) qf = Run r ts (snd (Once r (tk_read t) (tk_queue t) (tk_provider t) (tk_manager t qf)))"

section \<open>Properties\<close>

lemma reclaim_grace_pos: "0 < reclaim_grace r"
  by (simp add: reclaim_grace_def DefaultReclaimGrace_def minute_def second_def)

lemma covered_runners_iff:
  "wf_journal j \<Longrightarrow> name \<in> covered_runners j \<longleftrightarrow>
     has (j_Leases j) name \<or> name \<noteq> [] \<and> (\<exists>k c. get (j_Claims j) k = Some c \<and> (c_JobName c = name \<or> c_InstanceName c = name))"
  by (auto simp: covered_runners_def has_iff_keys wf_journal_def get_iff_mem)

lemma Once_Inr:
  assumes "Once r renv qenv pf qf = (Inr released, qf')" "rl_Correlator r" "rl_ProviderPath r \<noteq> []"
  obtains j where "readUnlocked pf = Inr j" "ReleaseUncoveredRunning qenv (covered_runners j) (reclaim_grace r) qf = (Inr released, qf')"
  using assms by (auto simp: Once_def store_ReadOnly_def split: if_splits sum.splits prod.splits)

text \<open>The reclaimer removes exactly the finished work. When a reconciliation succeeds, the intents it removes are those
  that are running, name a runner that neither a lease nor a claim of the provider journal names, and entered that state at
  least the grace period ago; it reports their runners in order and keeps everything else of a journal that still
  validates.\<close>

theorem reclaim_exact:
  assumes "Once r renv qenv pf qf = (Inr released, qf')" "rl_Correlator r" "rl_ProviderPath r \<noteq> []" "wf_queue_file qf" "wf_file pf"
  shows "\<exists>p j j'. readUnlocked pf = Inr p \<and> readJournal qf = Inr j \<and> readJournal qf' = Inr j' \<and> queue_ok j'
    \<and> (\<forall>k i. get (q_Intents j') k = Some i \<longleftrightarrow> get (q_Intents j) k = Some i
         \<and> \<not> (i_State i = StateRunning \<and> i_RunnerName i \<noteq> [] \<and> \<not> has (j_Leases p) (i_RunnerName i)
              \<and> (\<forall>n c. get (j_Claims p) n = Some c \<longrightarrow> c_JobName c \<noteq> i_RunnerName i \<and> c_InstanceName c \<noteq> i_RunnerName i)
              \<and> reclaim_grace r \<le> time_sub (qe_now qenv) (i_StateEnteredAt i)))
    \<and> sorted released \<and> set released = {i_RunnerName i | k i. get (q_Intents j) k = Some i \<and> get (q_Intents j') k = None}"
proof -
  obtain p where p: "readUnlocked pf = Inr p"
    and rel: "ReleaseUncoveredRunning qenv (covered_runners p) (reclaim_grace r) qf = (Inr released, qf')"
    using assms(1,2,3) by (rule Once_Inr)
  have cov: "i_RunnerName i \<noteq> [] \<and> i_RunnerName i \<notin> covered_runners p \<longleftrightarrow> i_RunnerName i \<noteq> [] \<and> \<not> has (j_Leases p) (i_RunnerName i)
      \<and> (\<forall>n c. get (j_Claims p) n = Some c \<longrightarrow> c_JobName c \<noteq> i_RunnerName i \<and> c_InstanceName c \<noteq> i_RunnerName i)" for i :: Intent
    using covered_runners_iff [OF readUnlocked_wf [OF assms(5) p]] by auto
  obtain j j' where j: "readJournal qf = Inr j" "readJournal qf' = Inr j'" "queue_ok j'" "sorted released"
      "set released = {i_RunnerName i | k i. get (q_Intents j) k = Some i \<and> get (q_Intents j') k = None}"
      "\<forall>k i. get (q_Intents j') k = Some i \<longleftrightarrow>
         get (q_Intents j) k = Some i \<and> \<not> (i_State i = StateRunning \<and> i_RunnerName i \<noteq> [] \<and> i_RunnerName i \<notin> covered_runners p
           \<and> reclaim_grace r \<le> time_sub (qe_now qenv) (i_StateEnteredAt i))"
    using ReleaseUncovered_exact [OF rel assms(4)] by blast
  have "get (q_Intents j') k = Some i \<longleftrightarrow> get (q_Intents j) k = Some i
         \<and> \<not> (i_State i = StateRunning \<and> i_RunnerName i \<noteq> [] \<and> \<not> has (j_Leases p) (i_RunnerName i)
              \<and> (\<forall>n c. get (j_Claims p) n = Some c \<longrightarrow> c_JobName c \<noteq> i_RunnerName i \<and> c_InstanceName c \<noteq> i_RunnerName i)
              \<and> reclaim_grace r \<le> time_sub (qe_now qenv) (i_StateEnteredAt i))" for k i
    using j(6) cov [of i] by blast
  then show ?thesis using p j by blast
qed

definition holds_intent :: "string \<Rightarrow> Intent \<Rightarrow> queue_file \<Rightarrow> bool" where
  "holds_intent k i qf \<longleftrightarrow> wf_queue_file qf \<and> (\<exists>j. readJournal qf = Inr j \<and> get (q_Intents j) k = Some i)"

lemma release_keeps:
  assumes "holds_intent k i qf" "i_RunnerName i \<in> covered"
  shows "holds_intent k i (snd (ReleaseUncoveredRunning env covered grace qf))"
proof -
  let ?m = "release_uncovered covered grace"
  obtain res qf' where e: "queue_update env ?m qf = (res, qf')" by fastforce
  have wf: "wf_queue_file qf'"
    using qj.good_step [OF _ release_uncovered_wf, of qf env covered grace] assms(1) e by (simp add: holds_intent_def)
  have "holds_intent k i qf'"
    using e
  proof (cases rule: queue_update_cases)
    case kept
    then show ?thesis using assms(1) by simp
  next
    case (published j j' r)
    then have g: "get (q_Intents j) k = Some i" and wfj: "wf_map (q_Intents j)"
      using assms(1) by (auto simp: holds_intent_def wf_queue_file_def wf_queue_def)
    have "q_Intents j' = filter (\<lambda>(k, i). \<not> uncovered covered grace (qe_now env) i) (q_Intents j)"
      using published(2) by (auto simp: release_uncovered_def Let_def split: if_splits)
    moreover have "\<not> uncovered covered grace (qe_now env) i" using assms(2) by (simp add: uncovered_def)
    ultimately have "get (q_Intents j') k = Some i" using g wfj by (simp add: get_iff_mem wf_filter)
    then show ?thesis using wf published(3,4) by (simp add: holds_intent_def)
  qed
  then show ?thesis using e assms(1) by (simp add: ReleaseUncoveredRunning_def)
qed

lemma Once_keeps:
  assumes "holds_intent k i qf" "\<And>p. readUnlocked pf = Inr p \<Longrightarrow> i_RunnerName i \<in> covered_runners p"
  shows "holds_intent k i (snd (Once r renv qenv pf qf))"
proof (cases "store_ReadOnly renv pf")
  case (Inl e)
  then show ?thesis using assms(1) by (simp add: Once_def)
next
  case (Inr p)
  then have "readUnlocked pf = Inr p" by (auto simp: store_ReadOnly_def split: if_splits sum.splits)
  then have "holds_intent k i (snd (ReleaseUncoveredRunning qenv (covered_runners p) (reclaim_grace r) qf))"
    using release_keeps [OF assms(1)] assms(2) by blast
  then show ?thesis using Inr assms(1) by (auto simp: Once_def split: prod.splits sum.splits)
qed

text \<open>C31: A worker that still holds its lease or its claim keeps its slot. Over any run of the reclaimer, with any failing
  reads, locks and writes and whatever else the queue manager does between the ticks as long as it leaves this intent
  alone, a running intent whose runner is named by a lease or a claim in every provider journal that was read is still in
  the queue journal at the end, unchanged.\<close>

theorem covered_runner_survives:
  assumes "holds_intent k i qf"
    and "\<forall>t \<in> set ts. \<forall>p. readUnlocked (tk_provider t) = Inr p \<longrightarrow> i_RunnerName i \<in> covered_runners p"
    and "\<forall>t \<in> set ts. \<forall>g. holds_intent k i g \<longrightarrow> holds_intent k i (tk_manager t g)"
  shows "holds_intent k i (Run r ts qf)"
  using assms
proof (induction ts arbitrary: qf)
  case Nil
  then show ?case by simp
next
  case (Cons t ts)
  have "holds_intent k i (tk_manager t qf)" using Cons.prems(1,3) by simp
  then have "holds_intent k i (snd (Once r (tk_read t) (tk_queue t) (tk_provider t) (tk_manager t qf)))"
    using Cons.prems(2) by (intro Once_keeps) auto
  then show ?case using Cons.IH Cons.prems(2,3) by simp
qed

section \<open>Witnesses\<close>

text \<open>Two running intents: the runner \<open>job\<close> holds a lease, the runner \<open>runner-b\<close> holds none.\<close>

definition reclaim_queue :: queue_journal where
  "reclaim_queue = demo_queue\<lparr>q_Intents :=
     [(''github-scale-set-job:v2:4:a'', demo_intent ''a'' StateRunning ''job''),
      (''github-scale-set-job:v2:4:b'', demo_intent ''b'' StateRunning ''runner-b'')]\<rparr>"

definition reclaim_queue_file :: queue_file where "reclaim_queue_file = QueueFile (queue_doc_of reclaim_queue)"

definition demo_reclaimer :: Reclaimer where
  "demo_reclaimer = \<lparr>rl_Correlator = True, rl_ProviderPath = ''/var/lib/provider.json'', rl_Grace = 0, rl_Interval = 0\<rparr>"

definition demo_renv :: read_env where "demo_renv = \<lparr>re_context = True, re_path = True, re_now = 1000 * second\<rparr>"

lemma reclaim_queue_read: "readJournal reclaim_queue_file = Inr reclaim_queue"
proof -
  have "queue_validate reclaim_queue = None" by code_simp
  then show ?thesis by (simp add: reclaim_queue_file_def)
qed

lemma reclaim_queue_wf: "wf_queue_file reclaim_queue_file"
  using reclaim_queue_read by (simp add: wf_queue_file_def wf_queue_def reclaim_queue_def demo_queue_def wf_map_def keys_def)

theorem reclaim_exact_witness:
  "\<exists>qf' j'. Once demo_reclaimer demo_renv demo_qenv builder_file reclaim_queue_file = (Inr [''runner-b''], qf')
     \<and> readJournal qf' = Inr j' \<and> queue_ok j'"
proof -
  have "fst (Once demo_reclaimer demo_renv demo_qenv builder_file reclaim_queue_file) = Inr [''runner-b'']" by code_simp
  then obtain qf' where e: "Once demo_reclaimer demo_renv demo_qenv builder_file reclaim_queue_file = (Inr [''runner-b''], qf')"
    by (metis prod.collapse)
  have "rl_Correlator demo_reclaimer" "rl_ProviderPath demo_reclaimer \<noteq> []" by (simp_all add: demo_reclaimer_def)
  from reclaim_exact [OF e this reclaim_queue_wf builder_file_wf] show ?thesis using e by blast
qed

theorem covered_runner_survives_witness:
  "holds_intent ''github-scale-set-job:v2:4:a'' (demo_intent ''a'' StateRunning ''job'')
     (Run demo_reclaimer
        [\<lparr>tk_read = demo_renv, tk_queue = demo_qenv, tk_provider = builder_file, tk_manager = id\<rparr>,
         \<lparr>tk_read = demo_renv, tk_queue = demo_qenv\<lparr>qe_write := WriteFailsAfterRename\<rparr>, tk_provider = builder_file, tk_manager = id\<rparr>]
        reclaim_queue_file)"
proof -
  have "holds_intent ''github-scale-set-job:v2:4:a'' (demo_intent ''a'' StateRunning ''job'') reclaim_queue_file"
    using reclaim_queue_read reclaim_queue_wf by (simp add: holds_intent_def reclaim_queue_def)
  moreover have "i_RunnerName (demo_intent ''a'' StateRunning ''job'') \<in> covered_runners builder_journal"
    by (simp add: covered_runners_def keys_def builder_journal_def demo_intent_def)
  ultimately show ?thesis by (intro covered_runner_survives) (auto simp: builder_file_reads)
qed

end
