(* ===== verification/Platform_Config.thy ===== *)
theory Platform_Config
  imports Pressure_Gate Cache_Namespace Tenant_Registry
begin

text \<open>
  The host configuration (\<open>src/internal/config/types.go\<close>, \<open>validate.go\<close>): its data, the accessors and fleet quotas, and the
  validation that every program of the fleet runs before it acts. The validation is a list of issues, in the order of the
  checks and then sorted; an empty list accepts. IPv4 texts, prefixes and endpoints are parsed here the way \<open>net/netip\<close> does;
  what a text that is not IPv4 means as IPv6 is an argument (\<open>text_env\<close>). Decoding the YAML document is not modelled.
\<close>

section \<open>The configuration (\<open>types.go\<close>)\<close>

record Platform =
  pf_Name :: string
  pf_Host :: string

record ControlPlane =
  cp_Manager :: string
  cp_ManagerVersion :: string
  cp_SchedulingMode :: string
  cp_Provider :: string
  cp_ProviderVersion :: string
  cp_ProviderInterface :: string
  cp_WorkerKind :: string
  cp_Runner :: string
  cp_RunnerVersion :: string
  cp_RunnerUpdatePolicy :: string

record Cluster =
  cl_Enabled :: bool
  cl_MemberName :: string
  cl_APIAddress :: string
  cl_Members :: int

record Incus =
  in_Version :: string
  in_APIAddress :: string
  in_Project :: string
  in_StoragePool :: string
  in_StorageDriver :: string
  in_StorageSizeGiB :: int
  in_ProjectDiskLimitGiB :: int
  in_ProjectHardDiskLimitGiB :: int
  in_Network :: string
  in_NetworkCIDR :: string
  in_EgressACL :: string
  in_PublicHostAddress :: string
  in_EstatePublicHostAddresses :: "string list"
  in_ServicesHostAddress :: string
  in_ProjectMaxInstances :: int
  in_ProjectMaxCPUUnits :: int
  in_ProjectMaxMemoryMiB :: int
  in_ProjectHardMemoryLimitMiB :: int
  in_Cluster :: Cluster
  in_RegistryPort :: int
  in_RustFSPort :: int
  in_CacheGatewayPort :: int
  in_GARMGatewayPort :: int

record Guardrails =
  gr_RequireEphemeral :: bool
  gr_JobsPerWorker :: int
  gr_WarmInstancesUnregistered :: bool
  gr_DenyHostDockerSocket :: bool
  gr_DenyNestedVirtualization :: bool
  gr_DenyPrivateNetworkByDefault :: bool
  gr_CPUSchedulingMode :: string
  gr_HardMemoryExcludesEmergencySwap :: bool
  gr_EmergencySwapSchedulable :: bool
  gr_AllowMemoryBallooning :: bool

record HostReserve =
  hr_Mode :: string
  hr_MinimumCPUUnits :: int
  hr_MinimumMemoryMiB :: int
  hr_MinimumPercent :: int
  hr_MaximumFleetCPUPercent :: int
  hr_CPUAllowanceOvercommit :: int
  hr_MinimumFreeDiskPercent :: int

record ObjectStore =
  os_Implementation :: string
  os_EndpointEnv :: string
  os_AccessKeyEnv :: string
  os_SecretKeyEnv :: string
  os_Bucket :: string

record CacheConfig =
  cc_ObjectStore :: ObjectStore
  cc_NamespaceTemplate :: string
  cc_UntrustedWriteScope :: string
  cc_ReleaseWriteScope :: string

record Backend =
  be_Name :: string
  be_Platform :: string
  be_Architecture :: string
  be_Implementation :: string
  be_FailureDomain :: string
  be_Docker :: bool
  be_Warm :: bool

record Resources =
  rs_VCPU :: int
  rs_MemoryMiB :: int
  rs_DiskGiB :: int

record Reservation =
  rv_CPUUnits :: int
  rv_MemoryMiB :: int

record WarmPool =
  wp_TargetReady :: int
  wp_MaxReady :: int

record EgressDestination =
  ed_Destination :: string
  ed_Protocol :: string
  ed_Ports :: string
  ed_Purpose :: string

record Capabilities =
  ca_Docker :: bool
  ca_Browser :: bool
  ca_Credentials :: string
  ca_NetworkPolicy :: string
  ca_CacheWriteScope :: string
  ca_EgressAllowlist :: "EgressDestination list"

record Pool =
  pl_Name :: string
  pl_Backend :: string
  pl_Tenant :: string
  pl_ScaleSetName :: string
  pl_Trust :: string
  pl_Resources :: Resources
  pl_Reservation :: Reservation
  pl_MaxRunning :: int
  pl_Warm :: WarmPool
  pl_Capabilities :: Capabilities

record fleet_config =
  fc_SchemaVersion :: int
  fc_Platform :: Platform
  fc_ControlPlane :: ControlPlane
  fc_Incus :: Incus
  fc_Guardrails :: Guardrails
  fc_HostReserve :: HostReserve
  fc_Pressure :: Policy
  fc_Cache :: CacheConfig
  fc_Backends :: "Backend list"
  fc_Pools :: "Pool list"

definition TenantID :: "Pool \<Rightarrow> string" where
  "TenantID p = (if pl_Tenant p = [] then DefaultID else pl_Tenant p)"

definition EffectiveReservation :: "Pool \<Rightarrow> Reservation" where
  "EffectiveReservation p =
     (if rv_CPUUnits (pl_Reservation p) > 0 \<and> rv_MemoryMiB (pl_Reservation p) > 0 then pl_Reservation p
      else \<lparr>rv_CPUUnits = rs_VCPU (pl_Resources p), rv_MemoryMiB = rs_MemoryMiB (pl_Resources p)\<rparr>)"

definition config_Pool :: "fleet_config \<Rightarrow> string \<Rightarrow> Pool option" where
  "config_Pool c name = find (\<lambda>p. pl_Name p = name) (fc_Pools c)"

definition PoolByScaleSet :: "fleet_config \<Rightarrow> string \<Rightarrow> Pool option" where
  "PoolByScaleSet c name = find (\<lambda>p. pl_ScaleSetName p = name) (fc_Pools c)"

definition config_Backend :: "fleet_config \<Rightarrow> string \<Rightarrow> Backend option" where
  "config_Backend c name = find (\<lambda>b. be_Name b = name) (fc_Backends c)"

definition EffectiveAPIAddress :: "Incus \<Rightarrow> string" where
  "EffectiveAPIAddress i =
     (if cl_Enabled (in_Cluster i) \<and> cl_APIAddress (in_Cluster i) \<noteq> [] then cl_APIAddress (in_Cluster i) else in_APIAddress i)"

definition ClusterMembers :: "Incus \<Rightarrow> int" where
  "ClusterMembers i = (if cl_Enabled (in_Cluster i) \<and> cl_Members (in_Cluster i) > 0 then cl_Members (in_Cluster i) else 1)"

definition FleetMaxInstances :: "Incus \<Rightarrow> int" where
  "FleetMaxInstances i = mul64 (in_ProjectMaxInstances i) (ClusterMembers i)"

definition FleetMaxCPUUnits :: "Incus \<Rightarrow> int" where
  "FleetMaxCPUUnits i = mul64 (in_ProjectMaxCPUUnits i) (ClusterMembers i)"

definition FleetMaxMemoryMiB :: "Incus \<Rightarrow> int" where
  "FleetMaxMemoryMiB i = mul64 (in_ProjectMaxMemoryMiB i) (ClusterMembers i)"

definition FleetDiskLimitGiB :: "Incus \<Rightarrow> int" where
  "FleetDiskLimitGiB i = mul64 (in_ProjectDiskLimitGiB i) (ClusterMembers i)"

definition FleetHardMemoryLimitMiB :: "Incus \<Rightarrow> int" where
  "FleetHardMemoryLimitMiB i =
     mul64 (if in_ProjectHardMemoryLimitMiB i = 0 then in_ProjectMaxMemoryMiB i else in_ProjectHardMemoryLimitMiB i) (ClusterMembers i)"

definition FleetHardDiskLimitGiB :: "Incus \<Rightarrow> int" where
  "FleetHardDiskLimitGiB i =
     mul64 (if in_ProjectHardDiskLimitGiB i = 0 then in_ProjectDiskLimitGiB i else in_ProjectHardDiskLimitGiB i) (ClusterMembers i)"

definition ReservedEgressDestinations :: "string list" where
  "ReservedEgressDestinations =
     [''0.0.0.0/8'', ''10.0.0.0/8'', ''100.64.0.0/10'', ''127.0.0.0/8'', ''169.254.0.0/16'', ''172.16.0.0/12'', ''192.168.0.0/16'',
      ''198.18.0.0/15'', ''224.0.0.0/4'', ''240.0.0.0/4'']"

section \<open>Texts\<close>

definition is_digit :: "char \<Rightarrow> bool" where "is_digit c \<longleftrightarrow> CHR ''0'' \<le> c \<and> c \<le> CHR ''9''"
definition is_lower :: "char \<Rightarrow> bool" where "is_lower c \<longleftrightarrow> CHR ''a'' \<le> c \<and> c \<le> CHR ''z''"
definition is_upper :: "char \<Rightarrow> bool" where "is_upper c \<longleftrightarrow> CHR ''A'' \<le> c \<and> c \<le> CHR ''Z''"

text \<open>\<open>^[a-z][a-z0-9-]{2,62}$\<close>\<close>

definition namePattern :: "string \<Rightarrow> bool" where
  "namePattern s \<longleftrightarrow>
     (case s of [] \<Rightarrow> False
      | c # cs \<Rightarrow> is_lower c \<and> 2 \<le> length cs \<and> length cs \<le> 62 \<and> list_all (\<lambda>x. is_lower x \<or> is_digit x \<or> x = CHR ''-'') cs)"

text \<open>\<open>^[A-Z][A-Z0-9_]*$\<close>\<close>

definition envPattern :: "string \<Rightarrow> bool" where
  "envPattern s \<longleftrightarrow>
     (case s of [] \<Rightarrow> False | c # cs \<Rightarrow> is_upper c \<and> list_all (\<lambda>x. is_upper x \<or> is_digit x \<or> x = CHR ''_'') cs)"

text \<open>\<open>^[a-z0-9][a-z0-9.-]{1,61}[a-z0-9]$\<close>\<close>

definition bucketPattern :: "string \<Rightarrow> bool" where
  "bucketPattern s \<longleftrightarrow>
     3 \<le> length s \<and> length s \<le> 63 \<and> (is_lower (hd s) \<or> is_digit (hd s)) \<and> (is_lower (last s) \<or> is_digit (last s))
     \<and> list_all (\<lambda>c. is_lower c \<or> is_digit c \<or> c = CHR ''.'' \<or> c = CHR ''-'') s"

text \<open>\<open>^v[0-9]+\.[0-9]+\.[0-9]+(?:[-+][0-9A-Za-z.-]+)?$\<close>\<close>

definition eat_char :: "char \<Rightarrow> string \<Rightarrow> string option" where
  "eat_char c s = (case s of [] \<Rightarrow> None | x # xs \<Rightarrow> if x = c then Some xs else None)"

definition eat_digits :: "string \<Rightarrow> string option" where
  "eat_digits s = (if takeWhile is_digit s = [] then None else Some (dropWhile is_digit s))"

definition version_suffix :: "string \<Rightarrow> bool" where
  "version_suffix s \<longleftrightarrow>
     (case s of [] \<Rightarrow> True
      | c # cs \<Rightarrow> (c = CHR ''-'' \<or> c = CHR ''+'') \<and> cs \<noteq> []
          \<and> list_all (\<lambda>x. is_digit x \<or> is_upper x \<or> is_lower x \<or> x = CHR ''.'' \<or> x = CHR ''-'') cs)"

definition versionPattern :: "string \<Rightarrow> bool" where
  "versionPattern s \<longleftrightarrow>
     (case Option.bind (Option.bind (Option.bind (Option.bind (Option.bind (eat_char CHR ''v'' s) eat_digits) (eat_char CHR ''.'')) eat_digits)
             (eat_char CHR ''.'')) eat_digits of
        None \<Rightarrow> False
      | Some rest \<Rightarrow> version_suffix rest)"

section \<open>Addresses\<close>

text \<open>What \<open>net/netip\<close> reads from an IPv4 text: decimal fields without leading zeros. An address is its 32-bit value.\<close>

definition digits_value :: "string \<Rightarrow> int" where
  "digits_value s = foldl (\<lambda>n c. 10 * n + (of_char c - 48)) 0 s"

definition small_decimal :: "int \<Rightarrow> string \<Rightarrow> int option" where
  "small_decimal bound s =
     (if s \<noteq> [] \<and> list_all is_digit s \<and> (length s = 1 \<or> hd s \<noteq> CHR ''0'') \<and> digits_value s \<le> bound then Some (digits_value s) else None)"

definition parse_ipv4 :: "string \<Rightarrow> int option" where
  "parse_ipv4 s =
     (case map (small_decimal 255) (split_on CHR ''.'' s) of
        [Some a, Some b, Some c, Some d] \<Rightarrow> Some (((a * 256 + b) * 256 + c) * 256 + d)
      | _ \<Rightarrow> None)"

definition parse_prefix :: "string \<Rightarrow> (int \<times> nat) option" where
  "parse_prefix s =
     (case split_on CHR ''/'' s of
        [a, n] \<Rightarrow> (case (parse_ipv4 a, small_decimal 32 n) of (Some v, Some bits) \<Rightarrow> Some (v, nat bits) | _ \<Rightarrow> None)
      | _ \<Rightarrow> None)"

text \<open>\<open>netip.ParseAddrPort\<close> of an IPv4 address and a port; the port may have leading zeros.\<close>

definition parse_addr_port :: "string \<Rightarrow> (int \<times> int) option" where
  "parse_addr_port s =
     (case split_on CHR '':'' s of
        [a, p] \<Rightarrow> (case parse_ipv4 a of
                    None \<Rightarrow> None
                  | Some v \<Rightarrow> if p \<noteq> [] \<and> list_all is_digit p \<and> digits_value p \<le> 65535 then Some (v, digits_value p) else None)
      | _ \<Rightarrow> None)"

text \<open>The first \<open>bits\<close> bits of an address, and whether two prefixes share an address.\<close>

definition network :: "int \<Rightarrow> nat \<Rightarrow> int" where "network v bits = v div 2 ^ (32 - bits)"

definition overlaps :: "int \<times> nat \<Rightarrow> int \<times> nat \<Rightarrow> bool" where
  "overlaps p q \<longleftrightarrow> (let bits = min (snd p) (snd q) in network (fst p) bits = network (fst q) bits)"

definition masked :: "int \<times> nat \<Rightarrow> int \<times> nat" where
  "masked p = (network (fst p) (snd p) * 2 ^ (32 - snd p), snd p)"

definition IsLoopback :: "int \<Rightarrow> bool" where "IsLoopback v \<longleftrightarrow> network v 8 = 127"

definition IsPrivate :: "int \<Rightarrow> bool" where
  "IsPrivate v \<longleftrightarrow> network v 8 = 10 \<or> network v 12 = 172 * 16 + 1 \<or> network v 16 = 192 * 256 + 168"

definition IsGlobalUnicast :: "int \<Rightarrow> bool" where
  "IsGlobalUnicast v \<longleftrightarrow> v \<noteq> 0 \<and> v \<noteq> 4294967295 \<and> \<not> IsLoopback v \<and> network v 4 \<noteq> 14 \<and> network v 16 \<noteq> 169 * 256 + 254"

text \<open>What the model takes from outside: whether a text that is not IPv4 reads as an IPv6 prefix, or as an IPv6 address with
  a port (and then whether it is loopback), and the text of a pressure policy error.\<close>

record text_env =
  v6_prefix :: "string \<Rightarrow> bool"
  v6_addr_port :: "string \<Rightarrow> (bool \<times> int) option"
  pressure_text :: "pressure_error \<Rightarrow> string"

section \<open>Validation (\<open>validate.go\<close>)\<close>

record Issue =
  is_Path :: string
  is_Message :: string

definition issue :: "bool \<Rightarrow> string \<Rightarrow> string \<Rightarrow> Issue list" where
  "issue bad path message = (if bad then [\<lparr>is_Path = path, is_Message = message\<rparr>] else [])"

definition requireEqual :: "string \<Rightarrow> string \<Rightarrow> string \<Rightarrow> Issue list" where
  "requireEqual path actual expected = issue (actual \<noteq> expected) path (''must be '' @ expected)"

definition validateVersion :: "string \<Rightarrow> string \<Rightarrow> Issue list" where
  "validateVersion path v = issue (\<not> versionPattern v) path ''must be an exact vMAJOR.MINOR.PATCH version''"

definition validateEnv :: "string \<Rightarrow> string \<Rightarrow> Issue list" where
  "validateEnv path v = issue (\<not> envPattern v) path ''must name an environment variable, not contain a secret''"

definition validateName :: "string \<Rightarrow> string \<Rightarrow> Issue list" where
  "validateName path v = issue (\<not> namePattern v) path ''must be a lowercase DNS-style name''"

definition validateServicePort :: "string \<Rightarrow> int \<Rightarrow> Issue list" where
  "validateServicePort path port = issue (port < 1024 \<or> port > 65535) path ''must be an unprivileged TCP port''"

definition cluster_address_issues :: "text_env \<Rightarrow> string \<Rightarrow> Issue list" where
  "cluster_address_issues e s =
     (let path = ''incus.cluster.api_address'';
          no_endpoint = issue True path ''must be an address:8443 endpoint'';
          loopback = issue True path ''must not be loopback; a cluster member's peers have to reach it'';
          not_private = ''must be a private IPv4 address on port 8443''
      in case parse_addr_port s of
           Some (v, port) \<Rightarrow> if port \<noteq> 8443 then no_endpoint else if IsLoopback v then loopback else issue (\<not> IsPrivate v) path not_private
         | None \<Rightarrow>
           (case v6_addr_port e s of
              None \<Rightarrow> no_endpoint
            | Some (lb, port) \<Rightarrow> if port \<noteq> 8443 then no_endpoint else if lb then loopback else issue True path not_private))"

definition validateCluster :: "text_env \<Rightarrow> Cluster \<Rightarrow> Issue list" where
  "validateCluster e cl =
     (if \<not> cl_Enabled cl then
        issue (cl_MemberName cl \<noteq> [] \<or> cl_APIAddress cl \<noteq> [] \<or> cl_Members cl \<noteq> 0) ''incus.cluster'' ''must be empty unless clustering is enabled''
      else
        issue (cl_MemberName cl = [] \<or> contains_any (cl_MemberName cl) '' /'') ''incus.cluster.member_name'' ''must name this Incus cluster member''
        @ cluster_address_issues e (cl_APIAddress cl)
        @ issue (cl_Members cl < 1 \<or> cl_Members cl > 8) ''incus.cluster.members'' ''must be between 1 and 8'')"

definition public_ipv4 :: "string \<Rightarrow> bool" where
  "public_ipv4 s \<longleftrightarrow> (case parse_ipv4 s of None \<Rightarrow> False | Some v \<Rightarrow> IsGlobalUnicast v \<and> \<not> IsPrivate v)"

text \<open>The estate's public addresses: one issue per bad entry and one per repetition, then the sweep over the set.\<close>

fun estate_issues :: "nat \<Rightarrow> string list \<Rightarrow> string list \<Rightarrow> Issue list" where
  "estate_issues n seen [] = []"
| "estate_issues n seen (v # vs) =
     issue (\<not> public_ipv4 v) (''incus.estate_public_host_addresses['' @ dec_nat n @ '']'') ''must be a public IPv4 address''
     @ issue (v \<in> set seen) ''incus.estate_public_host_addresses'' ''must be unique''
     @ estate_issues (Suc n) (v # seen) vs"

definition validateEstate :: "Incus \<Rightarrow> Issue list" where
  "validateEstate i =
     (let vs = in_EstatePublicHostAddresses i; path = ''incus.estate_public_host_addresses''
      in issue (int (length vs) \<noteq> add64 (cl_Members (in_Cluster i)) 1) path ''must contain every cluster member plus the queue host''
         @ issue (\<not> sorted vs) path ''must be strictly sorted''
         @ estate_issues 0 [] vs
         @ issue (in_PublicHostAddress i \<notin> set vs) path ''must include this host public address'')"

fun port_issues :: "(string \<times> int) list \<Rightarrow> (int \<times> string) list \<Rightarrow> Issue list" where
  "port_issues [] seen = []"
| "port_issues ((path, port) # ps) seen =
     (case map_of seen port of None \<Rightarrow> [] | Some previous \<Rightarrow> issue True path (''must differ from '' @ previous))
     @ port_issues ps ((port, path) # seen)"

definition service_ports :: "Incus \<Rightarrow> (string \<times> int) list" where
  "service_ports i =
     [(''incus.registry_port'', in_RegistryPort i), (''incus.rustfs_port'', in_RustFSPort i),
      (''incus.cache_gateway_port'', in_CacheGatewayPort i), (''incus.garm_gateway_port'', in_GARMGatewayPort i)]"

definition loopback_endpoint :: "text_env \<Rightarrow> string \<Rightarrow> bool" where
  "loopback_endpoint e s \<longleftrightarrow>
     (case parse_addr_port s of
        Some (v, port) \<Rightarrow> IsLoopback v \<and> port = 8443
      | None \<Rightarrow> v6_addr_port e s = Some (True, 8443))"

definition validateIncus :: "text_env \<Rightarrow> Incus \<Rightarrow> Issue list" where
  "validateIncus e i =
     validateVersion ''incus.version'' (in_Version i)
     @ issue (in_Version i \<noteq> ''v6.0.6'') ''incus.version'' ''must remain pinned to the fleet Incus 6.0.6 LTS baseline''
     @ issue (\<not> loopback_endpoint e (in_APIAddress i)) ''incus.api_address'' ''must be the loopback TLS endpoint 127.0.0.1:8443''
     @ validateCluster e (in_Cluster i)
     @ validateName ''incus.project'' (in_Project i)
     @ validateName ''incus.storage_pool'' (in_StoragePool i)
     @ validateName ''incus.network'' (in_Network i)
     @ validateName ''incus.egress_acl'' (in_EgressACL i)
     @ issue (in_StorageDriver i \<noteq> ''lvm'') ''incus.storage_driver'' ''must be lvm for the bounded loop-backed pilot pool''
     @ issue (in_StorageSizeGiB i < 80 \<or> in_StorageSizeGiB i > 200) ''incus.storage_size_gib'' ''must be between 80 and 200 GiB''
     @ issue (in_ProjectDiskLimitGiB i < 40 \<or> in_ProjectDiskLimitGiB i \<ge> in_StorageSizeGiB i) ''incus.project_disk_limit_gib''
         ''must be at least 40 GiB and smaller than the storage pool''
     @ issue (case parse_prefix (in_NetworkCIDR i) of None \<Rightarrow> True | Some (v, bits) \<Rightarrow> bits \<noteq> 24 \<or> v mod 256 \<noteq> 1) ''incus.network_cidr''
         ''must be an isolated IPv4 /24 whose declared gateway is .1''
     @ issue (\<not> public_ipv4 (in_PublicHostAddress i)) ''incus.public_host_address'' ''must be the host public IPv4 address''
     @ issue (case parse_ipv4 (in_ServicesHostAddress i) of None \<Rightarrow> True | Some v \<Rightarrow> \<not> IsGlobalUnicast v \<or> \<not> IsPrivate v)
         ''incus.services_host_address'' ''must be the private unicast IPv4 address of the queue/services host''
     @ (if cl_Enabled (in_Cluster i) then validateEstate i else [])
     @ issue (in_ProjectMaxInstances i < 1 \<or> in_ProjectMaxInstances i > 8) ''incus.project_max_instances'' ''must be between one and eight''
     @ issue (in_ProjectMaxCPUUnits i < 1 \<or> in_ProjectMaxCPUUnits i > 10) ''incus.project_max_cpu_units''
         ''must be between one and ten logical scheduling units''
     @ issue (in_ProjectMaxMemoryMiB i < 4096 \<or> in_ProjectMaxMemoryMiB i > 15 * 1024) ''incus.project_max_memory_mib''
         ''must be between 4096 and 15360 MiB''
     @ concat (map (\<lambda>(path, port). validateServicePort path port) (service_ports i))
     @ port_issues (service_ports i) []"

definition validateBackend :: "string \<Rightarrow> Backend \<Rightarrow> string \<Rightarrow> Issue list" where
  "validateBackend at_path b host =
     validateName (at_path @ ''.name'') (be_Name b)
     @ issue (be_Platform b \<noteq> ''linux'') (at_path @ ''.platform'') ''must be linux until another platform backend is approved''
     @ issue (be_Architecture b \<noteq> ''amd64'') (at_path @ ''.architecture'') ''must be amd64 until another architecture backend is approved''
     @ issue (be_Implementation b \<noteq> ''incus-vm'' \<and> be_Implementation b \<noteq> ''incus-container'') (at_path @ ''.implementation'')
         ''must be incus-vm or incus-container for an approved Linux backend''
     @ (if \<not> namePattern (be_FailureDomain b)
        then issue True (at_path @ ''.failure_domain'') ''must be a lowercase DNS-style name''
        else issue (be_FailureDomain b \<noteq> host) (at_path @ ''.failure_domain'') ''must match platform.host for a single-host backend'')"

definition exact_port :: "string \<Rightarrow> bool" where
  "exact_port p \<longleftrightarrow> p \<noteq> [] \<and> list_all is_digit p \<and> 1 \<le> digits_value p \<and> digits_value p \<le> 65535 \<and> format_int (digits_value p) = p"

definition validateEgressPorts :: "string \<Rightarrow> string \<Rightarrow> Issue list" where
  "validateEgressPorts entry ports =
     (if ports = [] then issue True (entry @ ''.ports'') ''must name at least one port''
      else issue (\<not> list_all exact_port (split_on CHR '','' ports)) (entry @ ''.ports'') ''must be comma-separated exact ports in 1..65535'')"

text \<open>One destination; the second result is the network it adds to those already declared.\<close>

definition validateEgressDestination :: "text_env \<Rightarrow> string \<Rightarrow> EgressDestination \<Rightarrow> (int \<times> nat) list \<Rightarrow> Issue list \<times> (int \<times> nat) list" where
  "validateEgressDestination e entry d seen =
     (let head = issue (trim_space (ed_Purpose d) = []) (entry @ ''.purpose'') ''must state why this destination is reachable''
                 @ issue (ed_Protocol d \<noteq> ''tcp'') (entry @ ''.protocol'') ''must be tcp'';
          fail = (\<lambda>message. (head @ issue True (entry @ ''.destination'') message, seen))
      in case parse_prefix (ed_Destination d) of
           None \<Rightarrow> fail (if v6_prefix e (ed_Destination d) then ''must be a single IPv4 /32'' else ''must be one exact IPv4 address in CIDR form'')
         | Some net \<Rightarrow>
           if snd net \<noteq> 32 then fail ''must be a single IPv4 /32''
           else if masked net \<noteq> net then fail ''must be the network address of its prefix''
           else (case find (\<lambda>t. overlaps (case parse_prefix t of Some p \<Rightarrow> p | None \<Rightarrow> (0, 0)) net) ReservedEgressDestinations of
                   Some blocked \<Rightarrow> fail (''falls inside a range every pool is denied: '' @ blocked)
                 | None \<Rightarrow>
                   if net \<in> set seen then fail ''is declared more than once''
                   else (head @ validateEgressPorts entry (ed_Ports d), net # seen)))"

fun egress_issues :: "text_env \<Rightarrow> string \<Rightarrow> nat \<Rightarrow> EgressDestination list \<Rightarrow> (int \<times> nat) list \<Rightarrow> Issue list" where
  "egress_issues e field n [] seen = []"
| "egress_issues e field n (d # ds) seen =
     (case validateEgressDestination e (field @ ''['' @ dec_nat n @ '']'') d seen of
        (found, seen') \<Rightarrow> found @ egress_issues e field (Suc n) ds seen')"

definition validateEgressAllowlist :: "text_env \<Rightarrow> string \<Rightarrow> Pool \<Rightarrow> Issue list" where
  "validateEgressAllowlist e at_path p =
     (let field = at_path @ ''.capabilities.egress_allowlist''; allow = ca_EgressAllowlist (pl_Capabilities p)
      in if ca_NetworkPolicy (pl_Capabilities p) \<noteq> ''release-allowlist''
         then issue (allow \<noteq> []) field ''only a release-allowlist pool may declare egress destinations''
         else if allow \<noteq> [] \<and> list_ex (\<lambda>t. parse_prefix t = None) ReservedEgressDestinations
         then issue True field ''reserved destination table is unparseable''
         else egress_issues e field 0 allow [])"

definition oneOf :: "string \<Rightarrow> string list \<Rightarrow> bool" where "oneOf v allowed \<longleftrightarrow> v \<in> set allowed"

definition resource_issues :: "string \<Rightarrow> Pool \<Rightarrow> Issue list" where
  "resource_issues at_path p =
     (let r = pl_Resources p; v = EffectiveReservation p
      in issue (rs_VCPU r < 1) (at_path @ ''.resources.vcpu'') ''must be positive''
         @ issue (rs_MemoryMiB r < 1024 \<or> rs_MemoryMiB r mod 256 \<noteq> 0) (at_path @ ''.resources.memory_mib'') ''must be at least 1024 and divisible by 256''
         @ issue (rs_DiskGiB r < 10 \<or> rs_DiskGiB r > 100) (at_path @ ''.resources.disk_gib'') ''must be between 10 and 100 GiB''
         @ issue (rv_CPUUnits v < 1 \<or> rv_CPUUnits v > rs_VCPU r) (at_path @ ''.reservation.cpu_units'')
             ''must be positive and no greater than the hard vCPU limit''
         @ issue (rv_MemoryMiB v < 256 \<or> rv_MemoryMiB v mod 256 \<noteq> 0 \<or> rv_MemoryMiB v > rs_MemoryMiB r) (at_path @ ''.reservation.memory_mib'')
             ''must be at least 256 MiB, divisible by 256 and no greater than the hard memory limit''
         @ issue (pl_MaxRunning p < 1) (at_path @ ''.max_running'') ''must be positive''
         @ issue (wp_TargetReady (pl_Warm p) < 0 \<or> wp_MaxReady (pl_Warm p) < 0) (at_path @ ''.warm'') ''values cannot be negative''
         @ issue (wp_TargetReady (pl_Warm p) > wp_MaxReady (pl_Warm p)) (at_path @ ''.warm.target_ready'') ''cannot exceed max_ready''
         @ issue (wp_MaxReady (pl_Warm p) > pl_MaxRunning p) (at_path @ ''.warm.max_ready'') ''cannot exceed max_running'')"

definition trust_issues :: "string \<Rightarrow> Pool \<Rightarrow> Issue list" where
  "trust_issues at_path p =
     (let c = pl_Capabilities p; caps = at_path @ ''.capabilities.''
      in issue (\<not> oneOf (pl_Trust p) [''trusted'', ''untrusted'', ''release'']) (at_path @ ''.trust'') ''must be trusted, untrusted, or release''
         @ issue (\<not> oneOf (ca_Credentials c) [''none'', ''repository'', ''oidc-only'']) (caps @ ''credentials'') ''must be none, repository, or oidc-only''
         @ issue (\<not> oneOf (ca_NetworkPolicy c) [''github-cache-only'', ''public-internet'', ''release-allowlist'']) (caps @ ''network_policy'')
             ''uses an unsupported network policy''
         @ issue (\<not> oneOf (ca_CacheWriteScope c) [''none'', ''isolated'', ''trusted'']) (caps @ ''cache_write_scope'') ''must be none, isolated, or trusted''
         @ (if pl_Trust p = ''untrusted'' then
              issue (ca_Credentials c \<noteq> ''none'') (caps @ ''credentials'') ''untrusted pools cannot receive credentials''
              @ issue (ca_CacheWriteScope c \<noteq> ''isolated'' \<and> ca_CacheWriteScope c \<noteq> ''none'') (caps @ ''cache_write_scope'')
                  ''untrusted pools need isolated or disabled writes''
              @ issue (ca_NetworkPolicy c \<noteq> ''public-internet'') (caps @ ''network_policy'') ''untrusted pools require public-internet isolation''
            else [])
         @ (if pl_Trust p = ''release'' then
              issue (ca_Credentials c \<noteq> ''oidc-only'') (caps @ ''credentials'') ''release pools require oidc-only credentials''
              @ issue (ca_CacheWriteScope c \<noteq> ''none'') (caps @ ''cache_write_scope'') ''release pools cannot write shared caches''
              @ issue (ca_NetworkPolicy c \<noteq> ''release-allowlist'') (caps @ ''network_policy'') ''release pools require an explicit allowlist''
              @ issue (wp_TargetReady (pl_Warm p) \<noteq> 0 \<or> wp_MaxReady (pl_Warm p) \<noteq> 0) (at_path @ ''.warm'') ''release pools must stay cold''
            else []))"

definition validatePool :: "text_env \<Rightarrow> string \<Rightarrow> Pool \<Rightarrow> Issue list" where
  "validatePool e at_path p =
     validateName (at_path @ ''.name'') (pl_Name p)
     @ issue (\<not> namePattern (pl_Backend p)) (at_path @ ''.backend'') ''must be a lowercase DNS-style backend name''
     @ issue (\<not> namePattern (pl_ScaleSetName p) \<or> \<not> has_prefix (pl_ScaleSetName p) ''nddev-'') (at_path @ ''.scale_set_name'')
         ''must be a unique nddev-* scale set name''
     @ issue (pl_Tenant p \<noteq> [] \<and> (case tenant_ByID (pl_Tenant p) of Inl err \<Rightarrow> True | Inr t \<Rightarrow> False)) (at_path @ ''.tenant'') ''must be a known tenant''
     @ resource_issues at_path p
     @ trust_issues at_path p
     @ validateEgressAllowlist e at_path p"

text \<open>The scan over the backends, with the names and the identities seen so far, and the backend that a name selects: the last
  one that declares it.\<close>

definition backend_identity :: "Backend \<Rightarrow> string" where
  "backend_identity b = be_Platform b @ [CHR 0x00] @ be_Architecture b @ [CHR 0x00] @ be_Implementation b @ [CHR 0x00] @ be_FailureDomain b"

fun backend_issues :: "string \<Rightarrow> nat \<Rightarrow> Backend list \<Rightarrow> string list \<Rightarrow> string list \<Rightarrow> Issue list" where
  "backend_issues host n [] names identities = []"
| "backend_issues host n (b # bs) names identities =
     (let at_path = ''backends['' @ dec_nat n @ '']''
      in validateBackend at_path b host
         @ issue (be_Name b \<in> set names) (at_path @ ''.name'') ''must be unique''
         @ issue (backend_identity b \<in> set identities) at_path
             ''must not duplicate another platform, architecture, implementation and failure domain''
         @ backend_issues host (Suc n) bs (be_Name b # names) (backend_identity b # identities))"

definition backendByName :: "Backend list \<Rightarrow> string \<Rightarrow> Backend option" where
  "backendByName bs name = find (\<lambda>b. be_Name b = name) (rev bs)"

definition scaleSetKey :: "Pool \<Rightarrow> string" where "scaleSetKey p = TenantID p @ [CHR 0x00] @ pl_ScaleSetName p"

definition pool_backend_issues :: "Backend list \<Rightarrow> string \<Rightarrow> Pool \<Rightarrow> Issue list" where
  "pool_backend_issues bs at_path p =
     (case backendByName bs (pl_Backend p) of
        None \<Rightarrow> issue True (at_path @ ''.backend'') ''must reference a declared execution backend''
      | Some b \<Rightarrow>
          issue (ca_Docker (pl_Capabilities p) \<and> \<not> be_Docker b) (at_path @ ''.capabilities.docker'')
            ''requires Docker support from the selected execution backend''
          @ issue (wp_MaxReady (pl_Warm p) \<noteq> 0 \<and> \<not> be_Warm b) (at_path @ ''.warm.max_ready'') ''warm capacity requires a backend that declares it'')"

fun pool_issues :: "text_env \<Rightarrow> Backend list \<Rightarrow> nat \<Rightarrow> Pool list \<Rightarrow> string list \<Rightarrow> string list \<Rightarrow> Issue list" where
  "pool_issues e bs n [] names sets = []"
| "pool_issues e bs n (p # ps) names sets =
     (let at_path = ''pools['' @ dec_nat n @ '']''
      in validatePool e at_path p
         @ pool_backend_issues bs at_path p
         @ issue (pl_Name p \<in> set names) (at_path @ ''.name'') ''must be unique''
         @ issue (scaleSetKey p \<in> set sets) (at_path @ ''.scale_set_name'') ''must be unique for its tenant''
         @ pool_issues e bs (Suc n) ps (pl_Name p # names) (scaleSetKey p # sets))"

definition max_over :: "(Pool \<Rightarrow> int) \<Rightarrow> Pool list \<Rightarrow> int" where
  "max_over f ps = fold (\<lambda>p m. max m (f p)) ps 0"

definition limit_issues :: "fleet_config \<Rightarrow> Issue list" where
  "limit_issues c =
     (let i = fc_Incus c;
          cpu = max_over (\<lambda>p. rs_VCPU (pl_Resources p)) (fc_Pools c);
          memory = max_over (\<lambda>p. rs_MemoryMiB (pl_Resources p)) (fc_Pools c);
          disk = max_over (\<lambda>p. rs_DiskGiB (pl_Resources p)) (fc_Pools c)
      in issue (in_ProjectMaxCPUUnits i < cpu) ''incus.project_max_cpu_units'' ''must fit the largest pool CPU request''
         @ issue (in_ProjectMaxMemoryMiB i < memory) ''incus.project_max_memory_mib'' ''must fit the largest pool memory request''
         @ issue (in_ProjectDiskLimitGiB i < disk) ''incus.project_disk_limit_gib'' ''must fit the largest pool disk request''
         @ issue (in_ProjectHardMemoryLimitMiB i \<noteq> 0 \<and> (in_ProjectHardMemoryLimitMiB i < in_ProjectMaxMemoryMiB i
               \<or> in_ProjectHardMemoryLimitMiB i > mul64 (in_ProjectMaxInstances i) memory)) ''incus.project_hard_memory_limit_mib''
             ''must be between scheduling capacity and the absolute per-member instance envelope''
         @ issue (in_ProjectHardDiskLimitGiB i \<noteq> 0 \<and> (in_ProjectHardDiskLimitGiB i < in_ProjectDiskLimitGiB i
               \<or> in_ProjectHardDiskLimitGiB i > mul64 (in_ProjectMaxInstances i) disk)) ''incus.project_hard_disk_limit_gib''
             ''must be between scheduling capacity and the absolute per-member instance envelope'')"

definition control_plane_issues :: "ControlPlane \<Rightarrow> Issue list" where
  "control_plane_issues c =
     requireEqual ''control_plane.manager'' (cp_Manager c) ''garm''
     @ validateVersion ''control_plane.manager_version'' (cp_ManagerVersion c)
     @ requireEqual ''control_plane.scheduling_mode'' (cp_SchedulingMode c) ''scale-set''
     @ requireEqual ''control_plane.provider'' (cp_Provider c) ''incus''
     @ validateVersion ''control_plane.provider_version'' (cp_ProviderVersion c)
     @ requireEqual ''control_plane.provider_interface'' (cp_ProviderInterface c) ''v0.1.0''
     @ requireEqual ''control_plane.worker_kind'' (cp_WorkerKind c) ''incus-container''
     @ requireEqual ''control_plane.runner'' (cp_Runner c) ''actions/runner''
     @ validateVersion ''control_plane.runner_version'' (cp_RunnerVersion c)
     @ requireEqual ''control_plane.runner_update_policy'' (cp_RunnerUpdatePolicy c) ''image-canary''"

definition guardrail_issues :: "Guardrails \<Rightarrow> Issue list" where
  "guardrail_issues g =
     issue (\<not> gr_RequireEphemeral g) ''guardrails.require_ephemeral'' ''must be true''
     @ issue (gr_JobsPerWorker g \<noteq> 1) ''guardrails.jobs_per_worker'' ''must be exactly 1''
     @ issue (\<not> gr_WarmInstancesUnregistered g) ''guardrails.warm_instances_unregistered'' ''must be true''
     @ issue (\<not> gr_DenyHostDockerSocket g) ''guardrails.deny_host_docker_socket'' ''must be true''
     @ issue (\<not> gr_DenyNestedVirtualization g) ''guardrails.deny_nested_virtualization'' ''must be true''
     @ issue (\<not> gr_DenyPrivateNetworkByDefault g) ''guardrails.deny_private_network_by_default'' ''must be true''
     @ issue (gr_CPUSchedulingMode g \<noteq> ''weighted-overcommit'') ''guardrails.cpu_scheduling_mode''
         ''must be weighted-overcommit because limits.cpu.allowance is a work-conserving share''
     @ issue (\<not> gr_HardMemoryExcludesEmergencySwap g) ''guardrails.hard_memory_excludes_emergency_swap'' ''must be true''
     @ issue (gr_EmergencySwapSchedulable g) ''guardrails.emergency_swap_schedulable'' ''must be false''
     @ issue (gr_AllowMemoryBallooning g) ''guardrails.allow_memory_ballooning'' ''must remain false until benchmark approval''"

definition reserve_floor :: "string \<Rightarrow> int \<times> int" where
  "reserve_floor mode = (if mode = ''dedicated'' then (2, 768) else (4, 16 * 1024))"

definition reserve_issues :: "HostReserve \<Rightarrow> Issue list" where
  "reserve_issues h =
     (let (cpuFloor, memoryFloor) = reserve_floor (hr_Mode h)
      in issue (hr_Mode h \<noteq> ''retained-workloads'' \<and> hr_Mode h \<noteq> ''dedicated'') ''host_reserve.mode'' ''must be retained-workloads or dedicated''
         @ issue (hr_MinimumCPUUnits h < cpuFloor) ''host_reserve.minimum_cpu_units''
             (''must be at least '' @ format_int cpuFloor @ '' for a '' @ hr_Mode h @ '' host'')
         @ issue (hr_MinimumMemoryMiB h < memoryFloor) ''host_reserve.minimum_memory_mib''
             (''must be at least '' @ format_int memoryFloor @ '' for a '' @ hr_Mode h @ '' host'')
         @ issue (hr_MinimumPercent h < 5 \<or> hr_MinimumPercent h > 50) ''host_reserve.minimum_percent'' ''must be between 5 and 50''
         @ issue (hr_MaximumFleetCPUPercent h < 80 \<or> hr_MaximumFleetCPUPercent h > 98) ''host_reserve.maximum_fleet_cpu_percent''
             ''must be between 80 and 98 so the hard host-wide CPU ceiling leaves operating-system headroom''
         @ issue (hr_CPUAllowanceOvercommit h < 0 \<or> hr_CPUAllowanceOvercommit h > 4) ''host_reserve.cpu_allowance_overcommit''
             ''must be between 1 and 4, or absent for no overcommit, because the allowance is a work-conserving share and not a reservation''
         @ issue (hr_MinimumFreeDiskPercent h < 20 \<or> hr_MinimumFreeDiskPercent h > 80) ''host_reserve.minimum_free_disk_percent''
             ''must be between 20 and 80'')"

definition cache_issues :: "CacheConfig \<Rightarrow> Issue list" where
  "cache_issues c =
     (let store = cc_ObjectStore c
      in requireEqual ''cache.object_store.implementation'' (os_Implementation store) ''rustfs''
         @ validateEnv ''cache.object_store.endpoint_env'' (os_EndpointEnv store)
         @ validateEnv ''cache.object_store.access_key_env'' (os_AccessKeyEnv store)
         @ validateEnv ''cache.object_store.secret_key_env'' (os_SecretKeyEnv store)
         @ issue (\<not> bucketPattern (os_Bucket store)) ''cache.object_store.bucket'' ''must be a valid S3 bucket name''
         @ issue (cc_NamespaceTemplate c \<noteq> namespace_Template) ''cache.namespace_template'' (''must be '' @ namespace_Template)
         @ issue (cc_UntrustedWriteScope c \<noteq> ''isolated'') ''cache.untrusted_write_scope'' ''must be isolated''
         @ issue (cc_ReleaseWriteScope c \<noteq> ''none'') ''cache.release_write_scope'' ''must be none'')"

definition issue_less :: "Issue \<Rightarrow> Issue \<Rightarrow> bool" where
  "issue_less x y = (if is_Path x = is_Path y then is_Message x < is_Message y else is_Path x < is_Path y)"

definition all_issues :: "text_env \<Rightarrow> fleet_config \<Rightarrow> Issue list" where
  "all_issues e c =
     issue (fc_SchemaVersion c \<noteq> 2) ''schema_version'' ''must be 2''
     @ validateName ''platform.name'' (pf_Name (fc_Platform c))
     @ validateName ''platform.host'' (pf_Host (fc_Platform c))
     @ control_plane_issues (fc_ControlPlane c)
     @ validateIncus e (fc_Incus c)
     @ guardrail_issues (fc_Guardrails c)
     @ reserve_issues (fc_HostReserve c)
     @ (case policy_Validate (fc_Pressure c) of None \<Rightarrow> [] | Some err \<Rightarrow> issue True ''pressure_admission'' (pressure_text e err))
     @ cache_issues (fc_Cache c)
     @ issue (fc_Backends c = []) ''backends'' ''must contain at least one execution backend''
     @ backend_issues (pf_Host (fc_Platform c)) 0 (fc_Backends c) [] []
     @ issue (fc_Pools c = []) ''pools'' ''must contain at least one pool''
     @ pool_issues e (fc_Backends c) 0 (fc_Pools c) [] []
     @ limit_issues c"

text \<open>The validation as a whole: the issues in the order of their paths and messages; none means the configuration is accepted.\<close>

definition fleet_Validate :: "text_env \<Rightarrow> fleet_config \<Rightarrow> Issue list" where
  "fleet_Validate e c = sort_slice issue_less (all_issues e c)"

section \<open>What an accepted configuration guarantees\<close>

lemma issue_Nil_iff [simp]: "issue bad path message = [] \<longleftrightarrow> \<not> bad"
  by (simp add: issue_def)

lemma fleet_Validate_Nil_iff: "fleet_Validate e c = [] \<longleftrightarrow> all_issues e c = []"
  using length_sort_slice [of issue_less "all_issues e c"] by (metis fleet_Validate_def length_0_conv)

lemma pool_issues_Nil:
  "pool_issues e bs n ps names sets = [] \<Longrightarrow> p \<in> set ps \<Longrightarrow>
     \<exists>at_path. validatePool e at_path p = [] \<and> pool_backend_issues bs at_path p = []"
proof (induction ps arbitrary: n names sets)
  case (Cons q ps)
  then show ?case by (auto simp: Let_def)
qed simp

lemma pool_issues_distinct:
  "pool_issues e bs n ps names sets = [] \<Longrightarrow> distinct (map pl_Name ps) \<and> distinct (map scaleSetKey ps)
     \<and> set (map pl_Name ps) \<inter> set names = {} \<and> set (map scaleSetKey ps) \<inter> set sets = {}"
proof (induction ps arbitrary: n names sets)
  case (Cons q ps)
  then have "pool_issues e bs (Suc n) ps (pl_Name q # names) (scaleSetKey q # sets) = []" "pl_Name q \<notin> set names" "scaleSetKey q \<notin> set sets"
    by (simp_all add: Let_def)
  then show ?case using Cons.IH by fastforce
qed simp

lemma max_over_ge: "p \<in> set ps \<Longrightarrow> f p \<le> fold (\<lambda>p m. max m (f p)) ps m" and max_over_ge0: "m \<le> fold (\<lambda>p m. max m (f p)) ps (m :: int)"
proof (induction ps arbitrary: m)
  case (Cons q ps)
  { case 1
    then show ?case using Cons(1) [of "max m (f q)"] Cons(2) [of "max m (f q)"] by auto
  next
    case 2
    then show ?case using Cons(2) [of "max m (f q)"] by auto }
qed simp_all

lemma valid_pool:
  assumes "fleet_Validate e c = []" "p \<in> set (fc_Pools c)"
  obtains at_path where "validatePool e at_path p = []" "pool_backend_issues (fc_Backends c) at_path p = []"
  using assms pool_issues_Nil [of e "fc_Backends c" 0 "fc_Pools c" "[]" "[]" p]
  by (auto simp: fleet_Validate_Nil_iff all_issues_def)

lemma valid_limits:
  assumes "fleet_Validate e c = []"
  shows "validateIncus e (fc_Incus c) = []" "limit_issues c = []" "guardrail_issues (fc_Guardrails c) = []"
    "pool_issues e (fc_Backends c) 0 (fc_Pools c) [] [] = []"
  using assms by (auto simp: fleet_Validate_Nil_iff all_issues_def)

lemma backendByName_Some: "backendByName bs name = Some b \<Longrightarrow> b \<in> set bs \<and> be_Name b = name"
  unfolding backendByName_def find_Some_iff by (metis nth_mem set_rev)


subsection \<open>Pools and their names\<close>

lemma namePattern_no_nul: "namePattern s \<Longrightarrow> CHR 0x00 \<notin> set s"
proof (cases s)
  case (Cons a cs)
  assume "namePattern s"
  moreover have "\<not> is_lower (CHR 0x00)" "\<not> is_digit (CHR 0x00)" by code_simp+
  ultimately show ?thesis unfolding namePattern_def Cons by (auto simp: list_all_iff)
qed simp

lemma split_last_sep: "x @ [a] @ y = x' @ [a] @ y' \<Longrightarrow> a \<notin> set y \<Longrightarrow> a \<notin> set y' \<Longrightarrow> x = x' \<and> y = y'"
  by (auto simp: append_eq_append_conv2 append_eq_Cons_conv Cons_eq_append_conv)

lemma find_distinct:
  assumes "distinct (map f xs)" "x \<in> set xs"
  shows "find (\<lambda>y. f y = f x) xs = Some x"
  using assms by (induction xs) auto

text \<open>Pools are found by what identifies them. In an accepted configuration a pool is found under its own name; no two pools
  share a tenant and a scale set name; and the lookup by scale set name alone, which knows no tenant, returns another
  pool only if that pool belongs to another tenant.\<close>

theorem pools_identified:
  assumes "fleet_Validate e c = []" "p \<in> set (fc_Pools c)"
  shows "config_Pool c (pl_Name p) = Some p
    \<and> (\<forall>q \<in> set (fc_Pools c). TenantID q = TenantID p \<and> pl_ScaleSetName q = pl_ScaleSetName p \<longrightarrow> q = p)
    \<and> (\<exists>q \<in> set (fc_Pools c). PoolByScaleSet c (pl_ScaleSetName p) = Some q \<and> pl_ScaleSetName q = pl_ScaleSetName p
         \<and> (q = p \<or> TenantID q \<noteq> TenantID p))"
proof -
  have d: "distinct (map pl_Name (fc_Pools c))" "distinct (map scaleSetKey (fc_Pools c))"
    using pool_issues_distinct [OF valid_limits(4) [OF assms(1)]] by blast+
  have u: "q = p" if q: "q \<in> set (fc_Pools c)" "TenantID q = TenantID p" "pl_ScaleSetName q = pl_ScaleSetName p" for q
    using d(2) q assms(2) by (auto simp: distinct_map inj_on_def scaleSetKey_def)
  obtain q where q: "PoolByScaleSet c (pl_ScaleSetName p) = Some q" "q \<in> set (fc_Pools c)" "pl_ScaleSetName q = pl_ScaleSetName p"
  proof (cases "PoolByScaleSet c (pl_ScaleSetName p)")
    case None
    then show thesis using assms(2) by (auto simp: PoolByScaleSet_def find_None_iff)
  next
    case (Some q)
    then have "q \<in> set (fc_Pools c) \<and> pl_ScaleSetName q = pl_ScaleSetName p"
      by (auto simp: PoolByScaleSet_def find_Some_iff)
    then show thesis using that Some by blast
  qed
  show ?thesis using find_distinct [OF d(1) assms(2)] u q unfolding config_Pool_def by blast
qed

subsection \<open>Egress\<close>

definition in_range :: "int \<Rightarrow> string \<Rightarrow> bool" where
  "in_range v t \<longleftrightarrow> (\<exists>w bits. parse_prefix t = Some (w, bits) \<and> network v bits = network w bits)"

lemma parse_prefix_bits: "parse_prefix s = Some (v, bits) \<Longrightarrow> bits \<le> 32"
proof -
  assume a: "parse_prefix s = Some (v, bits)"
  then obtain x n where n: "split_on CHR ''/'' s = [x, n]" unfolding parse_prefix_def by (simp split: list.splits)
  then obtain k where "small_decimal 32 n = Some k" "bits = nat k" using a unfolding parse_prefix_def by (auto split: option.splits)
  then show "bits \<le> 32" by (auto simp: small_decimal_def split: if_splits)
qed

lemma reserved_parse: "t \<in> set ReservedEgressDestinations \<Longrightarrow> parse_prefix t \<noteq> None"
proof -
  assume "t \<in> set ReservedEgressDestinations"
  moreover have "list_all (\<lambda>t. parse_prefix t \<noteq> None) ReservedEgressDestinations" by code_simp
  ultimately show ?thesis by (simp add: list_all_iff)
qed

lemma egress_destination_ok:
  assumes "validateEgressDestination e entry d seen = ([], seen')"
  obtains v where "parse_prefix (ed_Destination d) = Some (v, 32)" "\<forall>t \<in> set ReservedEgressDestinations. \<not> in_range v t"
    "(v, 32) \<notin> set seen" "seen' = (v, 32) # seen" "ed_Protocol d = ''tcp''" "trim_space (ed_Purpose d) \<noteq> []"
    "ed_Ports d \<noteq> []" "\<forall>port \<in> set (split_on CHR '','' (ed_Ports d)). exact_port port"
proof -
  obtain v bits where n: "parse_prefix (ed_Destination d) = Some (v, bits)"
    using assms by (cases "parse_prefix (ed_Destination d)") (auto simp: validateEgressDestination_def Let_def)
  have b: "bits = 32" using assms n by (auto simp: validateEgressDestination_def Let_def split: if_splits)
  let ?hit = "find (\<lambda>t. overlaps (case parse_prefix t of Some p \<Rightarrow> p | None \<Rightarrow> (0, 0)) (v, 32)) ReservedEgressDestinations"
  have f: "?hit = None"
    using assms n b unfolding validateEgressDestination_def Let_def by (cases ?hit) (simp_all split: if_splits)
  have out: "\<forall>t \<in> set ReservedEgressDestinations. \<not> in_range v t"
  proof
    fix t assume t: "t \<in> set ReservedEgressDestinations"
    obtain w k where p: "parse_prefix t = Some (w, k)" using reserved_parse [OF t] by auto
    have "\<not> overlaps (case parse_prefix t of Some p \<Rightarrow> p | None \<Rightarrow> (0, 0)) (v, 32)" using f t unfolding find_None_iff by blast
    then have "\<not> overlaps (w, k) (v, 32)" unfolding p by simp
    then show "\<not> in_range v t" using parse_prefix_bits [OF p] p by (auto simp: in_range_def overlaps_def Let_def min_def)
  qed
  have rest: "(v, 32) \<notin> set seen" "seen' = (v, 32) # seen" "ed_Protocol d = ''tcp''" "trim_space (ed_Purpose d) \<noteq> []"
      "validateEgressPorts entry (ed_Ports d) = []"
    using assms n b f unfolding validateEgressDestination_def Let_def by (simp_all split: if_splits)
  then have "ed_Ports d \<noteq> []" "\<forall>port \<in> set (split_on CHR '','' (ed_Ports d)). exact_port port"
    by (auto simp: validateEgressPorts_def list_all_iff split: if_splits)
  then show thesis using that n b out rest by blast
qed

lemma egress_issues_ok:
  "egress_issues e field n ds seen = [] \<Longrightarrow>
     (\<forall>d \<in> set ds. \<exists>v. parse_prefix (ed_Destination d) = Some (v, 32) \<and> (v, 32) \<notin> set seen
        \<and> (\<forall>t \<in> set ReservedEgressDestinations. \<not> in_range v t) \<and> ed_Protocol d = ''tcp''
        \<and> (\<forall>port \<in> set (split_on CHR '','' (ed_Ports d)). exact_port port))
     \<and> distinct (map (parse_prefix \<circ> ed_Destination) ds)"
proof (induction ds arbitrary: n seen)
  case (Cons d ds)
  obtain found seen' where f: "validateEgressDestination e (field @ ''['' @ dec_nat n @ '']'') d seen = (found, seen')" by fastforce
  then have "validateEgressDestination e (field @ ''['' @ dec_nat n @ '']'') d seen = ([], seen')"
    and rest: "egress_issues e field (Suc n) ds seen' = []" using Cons.prems by simp_all
  from this(1) obtain v where v: "parse_prefix (ed_Destination d) = Some (v, 32)" "\<forall>t \<in> set ReservedEgressDestinations. \<not> in_range v t"
    "(v, 32) \<notin> set seen" "seen' = (v, 32) # seen" "ed_Protocol d = ''tcp''" "\<forall>port \<in> set (split_on CHR '','' (ed_Ports d)). exact_port port"
    by (rule egress_destination_ok)
  have later: "\<exists>w. parse_prefix (ed_Destination x) = Some (w, 32) \<and> (w, 32) \<notin> set seen'
        \<and> (\<forall>t \<in> set ReservedEgressDestinations. \<not> in_range w t) \<and> ed_Protocol x = ''tcp''
        \<and> (\<forall>port \<in> set (split_on CHR '','' (ed_Ports x)). exact_port port)" if "x \<in> set ds" for x
    using Cons.IH [OF rest] that by blast
  have "parse_prefix (ed_Destination d) \<notin> (parse_prefix \<circ> ed_Destination) ` set ds"
  proof
    assume "parse_prefix (ed_Destination d) \<in> (parse_prefix \<circ> ed_Destination) ` set ds"
    then obtain x where "x \<in> set ds" "parse_prefix (ed_Destination x) = Some (v, 32)" using v(1) by auto
    then show False using later [of x] v(4) by auto
  qed
  moreover have "distinct (map (parse_prefix \<circ> ed_Destination) ds)" using Cons.IH [OF rest] by blast
  ultimately have "distinct (map (parse_prefix \<circ> ed_Destination) (d # ds))" by simp
  moreover have "\<forall>x \<in> set (d # ds). \<exists>w. parse_prefix (ed_Destination x) = Some (w, 32) \<and> (w, 32) \<notin> set seen
        \<and> (\<forall>t \<in> set ReservedEgressDestinations. \<not> in_range w t) \<and> ed_Protocol x = ''tcp''
        \<and> (\<forall>port \<in> set (split_on CHR '','' (ed_Ports x)). exact_port port)"
  proof
    fix x assume "x \<in> set (d # ds)"
    then consider "x = d" | "x \<in> set ds" by auto
    then show "\<exists>w. parse_prefix (ed_Destination x) = Some (w, 32) \<and> (w, 32) \<notin> set seen
        \<and> (\<forall>t \<in> set ReservedEgressDestinations. \<not> in_range w t) \<and> ed_Protocol x = ''tcp''
        \<and> (\<forall>port \<in> set (split_on CHR '','' (ed_Ports x)). exact_port port)"
    proof cases
      case 1
      then show ?thesis using v by blast
    next
      case 2
      then show ?thesis using later [OF 2] unfolding v(4) by (meson list.set_intros(2))
    qed
  qed
  ultimately show ?case by blast
qed simp

text \<open>Declared egress never meets the denied ranges. In an accepted configuration every destination of a pool's allowlist is one
  exact IPv4 address, that address lies in none of the reserved ranges, its protocol is TCP and its ports are exact
  ports, and no address is declared twice; so it cannot matter which of the two rules is evaluated first.\<close>

theorem egress_never_reserved:
  assumes "fleet_Validate e c = []" "p \<in> set (fc_Pools c)" "d \<in> set (ca_EgressAllowlist (pl_Capabilities p))"
  shows "pl_Trust p \<noteq> ''untrusted'' \<and> ed_Protocol d = ''tcp'' \<and> (\<forall>port \<in> set (split_on CHR '','' (ed_Ports d)). exact_port port)
    \<and> (\<exists>v. parse_prefix (ed_Destination d) = Some (v, 32) \<and> (\<forall>t \<in> set ReservedEgressDestinations. \<not> in_range v t))
    \<and> distinct (map (parse_prefix \<circ> ed_Destination) (ca_EgressAllowlist (pl_Capabilities p)))"
proof -
  obtain at_path where v: "validatePool e at_path p = []" using assms(1,2) by (rule valid_pool)
  have a: "validateEgressAllowlist e at_path p = []" "trust_issues at_path p = []" using v by (simp_all add: validatePool_def)
  have policy: "ca_NetworkPolicy (pl_Capabilities p) = ''release-allowlist''"
    using a(1) assms(3) by (auto simp: validateEgressAllowlist_def Let_def split: if_splits)
  then have i: "egress_issues e (at_path @ ''.capabilities.egress_allowlist'') 0 (ca_EgressAllowlist (pl_Capabilities p)) [] = []"
    using a(1) by (auto simp: validateEgressAllowlist_def Let_def split: if_splits)
  have "pl_Trust p \<noteq> ''untrusted''" using a(2) policy by (auto simp: trust_issues_def Let_def)
  then show ?thesis using egress_issues_ok [OF i] assms(3) by blast
qed

subsection \<open>Quotas\<close>

lemma ClusterMembers_bounds: "validateCluster e (in_Cluster i) = [] \<Longrightarrow> 1 \<le> ClusterMembers i \<and> ClusterMembers i \<le> 8"
  by (auto simp: ClusterMembers_def validateCluster_def split: if_splits)

lemma product_bound: "0 \<le> a \<Longrightarrow> a \<le> A \<Longrightarrow> 0 \<le> n \<Longrightarrow> n \<le> N \<Longrightarrow> a * n \<le> A * (N :: int)"
  by (rule mult_mono) auto

lemma mul64_bounded:
  assumes "lo \<le> a" "a \<le> hi" "0 \<le> lo" "hi \<le> 2 ^ 32" "1 \<le> n" "n \<le> 8"
  shows "mul64 a n = a * n"
proof -
  have "a * n \<le> 2 ^ 32 * 8" using assms by (intro product_bound; linarith)
  moreover have "0 \<le> a * n" using assms by simp
  ultimately show ?thesis by (intro mul64_exact) (auto simp: in_int64_def)
qed

lemma max_over_le: "p \<in> set ps \<Longrightarrow> max_over f ps \<le> bound \<Longrightarrow> f p \<le> bound"
  unfolding max_over_def using max_over_ge [of p ps f 0] by linarith

lemma max_over_bound: "\<forall>p \<in> set ps. f p \<le> b \<Longrightarrow> m \<le> b \<Longrightarrow> fold (\<lambda>p m. max m (f p)) ps m \<le> (b :: int)"
  by (induction ps arbitrary: m) auto

lemma valid_pool_resources:
  assumes "fleet_Validate e c = []" "p \<in> set (fc_Pools c)"
  shows "1 \<le> rs_VCPU (pl_Resources p) \<and> 1024 \<le> rs_MemoryMiB (pl_Resources p) \<and> 10 \<le> rs_DiskGiB (pl_Resources p)
    \<and> rs_VCPU (pl_Resources p) \<le> in_ProjectMaxCPUUnits (fc_Incus c) \<and> rs_MemoryMiB (pl_Resources p) \<le> in_ProjectMaxMemoryMiB (fc_Incus c)
    \<and> rs_DiskGiB (pl_Resources p) \<le> in_ProjectDiskLimitGiB (fc_Incus c)
    \<and> 1 \<le> rv_CPUUnits (EffectiveReservation p) \<and> rv_CPUUnits (EffectiveReservation p) \<le> rs_VCPU (pl_Resources p)
    \<and> 256 \<le> rv_MemoryMiB (EffectiveReservation p) \<and> rv_MemoryMiB (EffectiveReservation p) \<le> rs_MemoryMiB (pl_Resources p)
    \<and> rv_MemoryMiB (EffectiveReservation p) mod 256 = 0"
proof -
  obtain at_path where "validatePool e at_path p = []" using assms by (rule valid_pool)
  then have r: "resource_issues at_path p = []" by (simp add: validatePool_def)
  have l: "max_over (\<lambda>p. rs_VCPU (pl_Resources p)) (fc_Pools c) \<le> in_ProjectMaxCPUUnits (fc_Incus c)"
    "max_over (\<lambda>p. rs_MemoryMiB (pl_Resources p)) (fc_Pools c) \<le> in_ProjectMaxMemoryMiB (fc_Incus c)"
    "max_over (\<lambda>p. rs_DiskGiB (pl_Resources p)) (fc_Pools c) \<le> in_ProjectDiskLimitGiB (fc_Incus c)"
    using valid_limits(2) [OF assms(1)] by (simp_all add: limit_issues_def Let_def)
  show ?thesis using r max_over_le [OF assms(2) l(1)] max_over_le [OF assms(2) l(2)] max_over_le [OF assms(2) l(3)]
    by (simp add: resource_issues_def Let_def not_less)
qed

lemma valid_project_bounds:
  assumes "fleet_Validate e c = []"
  shows "1 \<le> in_ProjectMaxInstances (fc_Incus c)" "in_ProjectMaxInstances (fc_Incus c) \<le> 8"
    "1 \<le> in_ProjectMaxCPUUnits (fc_Incus c)" "in_ProjectMaxCPUUnits (fc_Incus c) \<le> 10"
    "4096 \<le> in_ProjectMaxMemoryMiB (fc_Incus c)" "in_ProjectMaxMemoryMiB (fc_Incus c) \<le> 15360"
    "40 \<le> in_ProjectDiskLimitGiB (fc_Incus c)" "in_ProjectDiskLimitGiB (fc_Incus c) < 200"
    "1 \<le> ClusterMembers (fc_Incus c)" "ClusterMembers (fc_Incus c) \<le> 8"
  using valid_limits(1) [OF assms] ClusterMembers_bounds [of e "fc_Incus c"] by (simp_all add: validateIncus_def not_less)

lemma valid_hard_limits:
  assumes v: "fleet_Validate e c = []"
  defines "memory \<equiv> (if in_ProjectHardMemoryLimitMiB (fc_Incus c) = 0 then in_ProjectMaxMemoryMiB (fc_Incus c) else in_ProjectHardMemoryLimitMiB (fc_Incus c))"
    and "disk \<equiv> (if in_ProjectHardDiskLimitGiB (fc_Incus c) = 0 then in_ProjectDiskLimitGiB (fc_Incus c) else in_ProjectHardDiskLimitGiB (fc_Incus c))"
  shows "in_ProjectMaxMemoryMiB (fc_Incus c) \<le> memory \<and> memory \<le> 8 * 15360 \<and> in_ProjectDiskLimitGiB (fc_Incus c) \<le> disk \<and> disk \<le> 8 * 200"
proof -
  note b = valid_project_bounds [OF v]
  let ?m = "max_over (\<lambda>p. rs_MemoryMiB (pl_Resources p)) (fc_Pools c)" and ?d = "max_over (\<lambda>p. rs_DiskGiB (pl_Resources p)) (fc_Pools c)"
  have m: "0 \<le> ?m" "?m \<le> 15360" "0 \<le> ?d" "?d \<le> 200"
    using max_over_ge0 [of 0] b valid_limits(2) [OF v] by (simp_all add: limit_issues_def Let_def max_over_def not_less)
  have e: "mul64 (in_ProjectMaxInstances (fc_Incus c)) ?m = ?m * in_ProjectMaxInstances (fc_Incus c)"
    "mul64 (in_ProjectMaxInstances (fc_Incus c)) ?d = ?d * in_ProjectMaxInstances (fc_Incus c)"
    using mul64_bounded [of 0 ?m 15360] mul64_bounded [of 0 ?d 200] m b by (simp_all add: mul64_def mult.commute)
  have p: "?m * in_ProjectMaxInstances (fc_Incus c) \<le> 15360 * 8" "?d * in_ProjectMaxInstances (fc_Incus c) \<le> 200 * 8"
    using m b by (intro product_bound; linarith)+
  show ?thesis using valid_limits(2) [OF v] p b unfolding memory_def disk_def limit_issues_def Let_def e
    by (auto simp: not_less)
qed

text \<open>Fleet quotas are exact and ordered. In an accepted configuration the fleet totals handed to the hypervisor are the true
  products of the per-member ceilings and the member count, the product never wraps around, the disaster ceilings are
  never below the scheduling capacity, and every pool's hard limits and reservation fit on one member.\<close>

theorem fleet_quotas_exact:
  assumes "fleet_Validate e c = []"
  shows "(let i = fc_Incus c; n = ClusterMembers i
     in 1 \<le> n \<and> n \<le> 8
        \<and> FleetMaxInstances i = in_ProjectMaxInstances i * n \<and> FleetMaxInstances i \<le> 64
        \<and> FleetMaxCPUUnits i = in_ProjectMaxCPUUnits i * n \<and> FleetMaxMemoryMiB i = in_ProjectMaxMemoryMiB i * n
        \<and> FleetDiskLimitGiB i = in_ProjectDiskLimitGiB i * n
        \<and> FleetMaxMemoryMiB i \<le> FleetHardMemoryLimitMiB i \<and> FleetHardMemoryLimitMiB i \<le> 983040
        \<and> FleetDiskLimitGiB i \<le> FleetHardDiskLimitGiB i \<and> FleetHardDiskLimitGiB i \<le> 12800
        \<and> (\<forall>p \<in> set (fc_Pools c). rv_CPUUnits (EffectiveReservation p) \<le> rs_VCPU (pl_Resources p)
             \<and> rs_VCPU (pl_Resources p) \<le> in_ProjectMaxCPUUnits i \<and> rv_MemoryMiB (EffectiveReservation p) \<le> rs_MemoryMiB (pl_Resources p)
             \<and> rs_MemoryMiB (pl_Resources p) \<le> in_ProjectMaxMemoryMiB i \<and> rs_DiskGiB (pl_Resources p) \<le> in_ProjectDiskLimitGiB i))"
proof -
  note b = valid_project_bounds [OF assms] and h = valid_hard_limits [OF assms]
  define n where "n = ClusterMembers (fc_Incus c)"
  define hm where "hm = (if in_ProjectHardMemoryLimitMiB (fc_Incus c) = 0 then in_ProjectMaxMemoryMiB (fc_Incus c) else in_ProjectHardMemoryLimitMiB (fc_Incus c))"
  define hd where "hd = (if in_ProjectHardDiskLimitGiB (fc_Incus c) = 0 then in_ProjectDiskLimitGiB (fc_Incus c) else in_ProjectHardDiskLimitGiB (fc_Incus c))"
  have n: "1 \<le> n" "n \<le> 8" using b(9,10) by (simp_all add: n_def)
  have l: "in_ProjectMaxMemoryMiB (fc_Incus c) \<le> hm" "hm \<le> 122880" "in_ProjectDiskLimitGiB (fc_Incus c) \<le> hd" "hd \<le> 1600"
    using h by (simp_all add: hm_def hd_def)
  have q: "FleetMaxInstances (fc_Incus c) = in_ProjectMaxInstances (fc_Incus c) * n" "FleetMaxCPUUnits (fc_Incus c) = in_ProjectMaxCPUUnits (fc_Incus c) * n"
    "FleetMaxMemoryMiB (fc_Incus c) = in_ProjectMaxMemoryMiB (fc_Incus c) * n" "FleetDiskLimitGiB (fc_Incus c) = in_ProjectDiskLimitGiB (fc_Incus c) * n"
    unfolding FleetMaxInstances_def FleetMaxCPUUnits_def FleetMaxMemoryMiB_def FleetDiskLimitGiB_def n_def [symmetric]
    using b n by (simp_all add: mul64_bounded [of 0 _ "2 ^ 32"])
  have hq: "FleetHardMemoryLimitMiB (fc_Incus c) = hm * n" "FleetHardDiskLimitGiB (fc_Incus c) = hd * n"
    unfolding FleetHardMemoryLimitMiB_def FleetHardDiskLimitGiB_def n_def [symmetric] hm_def [symmetric] hd_def [symmetric]
    using b l n by (simp_all add: mul64_bounded [of 0 _ "2 ^ 32"])
  have o: "in_ProjectMaxInstances (fc_Incus c) * n \<le> 8 * 8" "in_ProjectMaxMemoryMiB (fc_Incus c) * n \<le> hm * n" "hm * n \<le> 122880 * 8"
    "in_ProjectDiskLimitGiB (fc_Incus c) * n \<le> hd * n" "hd * n \<le> 1600 * 8"
    using b l n by (intro product_bound; linarith)+
  show ?thesis unfolding Let_def n_def [symmetric] q hq using n o valid_pool_resources [OF assms] by (simp add: n_def)
qed

section \<open>A configuration that is accepted\<close>

text \<open>A cluster member with the values of the repository's example host and three of its pools.\<close>

definition demo_text_env :: text_env where
  "demo_text_env = \<lparr>v6_prefix = (\<lambda>s. False), v6_addr_port = (\<lambda>s. None), pressure_text = (\<lambda>e. [])\<rparr>"

definition demo_incus :: Incus where
  "demo_incus = \<lparr>in_Version = ''v6.0.6'', in_APIAddress = ''127.0.0.1:8443'', in_Project = ''gha-fleet'', in_StoragePool = ''gha-lvm'',
     in_StorageDriver = ''lvm'', in_StorageSizeGiB = 200, in_ProjectDiskLimitGiB = 120, in_ProjectHardDiskLimitGiB = 240, in_Network = ''gha0'',
     in_NetworkCIDR = ''198.51.100.1/24'', in_EgressACL = ''gha-public-egress'', in_PublicHostAddress = ''203.0.113.13'',
     in_EstatePublicHostAddresses = [''203.0.113.10'', ''203.0.113.11'', ''203.0.113.12'', ''203.0.113.13'', ''203.0.113.14''],
     in_ServicesHostAddress = ''10.200.0.7'', in_ProjectMaxInstances = 8, in_ProjectMaxCPUUnits = 10, in_ProjectMaxMemoryMiB = 14336,
     in_ProjectHardMemoryLimitMiB = 49152, in_Cluster = \<lparr>cl_Enabled = True, cl_MemberName = ''example-runner-1'', cl_APIAddress = ''10.200.0.5:8443'', cl_Members = 4\<rparr>,
     in_RegistryPort = 5001, in_RustFSPort = 9002, in_CacheGatewayPort = 9003, in_GARMGatewayPort = 9443\<rparr>"

definition demo_pool :: "string \<Rightarrow> string \<Rightarrow> int \<Rightarrow> int \<Rightarrow> int \<Rightarrow> Capabilities \<Rightarrow> Pool" where
  "demo_pool name trust vcpu memory disk capabilities =
     \<lparr>pl_Name = name, pl_Backend = ''linux-amd64-incus-container'', pl_Tenant = [], pl_ScaleSetName = name, pl_Trust = trust,
      pl_Resources = \<lparr>rs_VCPU = vcpu, rs_MemoryMiB = memory, rs_DiskGiB = disk\<rparr>, pl_Reservation = \<lparr>rv_CPUUnits = 0, rv_MemoryMiB = 0\<rparr>,
      pl_MaxRunning = 3, pl_Warm = \<lparr>wp_TargetReady = 0, wp_MaxReady = 0\<rparr>, pl_Capabilities = capabilities\<rparr>"

definition demo_egress :: EgressDestination where
  "demo_egress = \<lparr>ed_Destination = ''203.0.113.21/32'', ed_Protocol = ''tcp'', ed_Ports = ''22'', ed_Purpose = ''SSH ProxyJump''\<rparr>"

definition demo_standard :: Pool where
  "demo_standard = demo_pool ''nddev-linux-standard'' ''trusted'' 2 4096 30
     \<lparr>ca_Docker = False, ca_Browser = False, ca_Credentials = ''repository'', ca_NetworkPolicy = ''public-internet'', ca_CacheWriteScope = ''trusted'', ca_EgressAllowlist = []\<rparr>"

definition demo_untrusted :: Pool where
  "demo_untrusted = demo_pool ''nddev-linux-untrusted'' ''untrusted'' 4 6144 50
     \<lparr>ca_Docker = True, ca_Browser = False, ca_Credentials = ''none'', ca_NetworkPolicy = ''public-internet'', ca_CacheWriteScope = ''none'', ca_EgressAllowlist = []\<rparr>"

definition demo_release :: Pool where
  "demo_release = demo_pool ''nddev-linux-release'' ''release'' 4 8192 40
     \<lparr>ca_Docker = False, ca_Browser = False, ca_Credentials = ''oidc-only'', ca_NetworkPolicy = ''release-allowlist'', ca_CacheWriteScope = ''none'', ca_EgressAllowlist = [demo_egress]\<rparr>"

definition demo_fleet :: fleet_config where
  "demo_fleet = \<lparr>fc_SchemaVersion = 2, fc_Platform = \<lparr>pf_Name = ''nddev-github-actions'', pf_Host = ''example-runner-1''\<rparr>,
     fc_ControlPlane = \<lparr>cp_Manager = ''garm'', cp_ManagerVersion = ''v0.2.1-nddev.95'', cp_SchedulingMode = ''scale-set'', cp_Provider = ''incus'',
       cp_ProviderVersion = ''v0.1.5-nddev.133'', cp_ProviderInterface = ''v0.1.0'', cp_WorkerKind = ''incus-container'', cp_Runner = ''actions/runner'',
       cp_RunnerVersion = ''v2.336.0'', cp_RunnerUpdatePolicy = ''image-canary''\<rparr>,
     fc_Incus = demo_incus,
     fc_Guardrails = \<lparr>gr_RequireEphemeral = True, gr_JobsPerWorker = 1, gr_WarmInstancesUnregistered = True, gr_DenyHostDockerSocket = True,
       gr_DenyNestedVirtualization = True, gr_DenyPrivateNetworkByDefault = True, gr_CPUSchedulingMode = ''weighted-overcommit'',
       gr_HardMemoryExcludesEmergencySwap = True, gr_EmergencySwapSchedulable = False, gr_AllowMemoryBallooning = False\<rparr>,
     fc_HostReserve = \<lparr>hr_Mode = ''dedicated'', hr_MinimumCPUUnits = 2, hr_MinimumMemoryMiB = 1024, hr_MinimumPercent = 10,
       hr_MaximumFleetCPUPercent = 98, hr_CPUAllowanceOvercommit = 0, hr_MinimumFreeDiskPercent = 20\<rparr>,
     fc_Pressure = \<lparr>Required = True, StaleAfterSeconds = 90, HeartbeatSeconds = 30, MinimumClosedSeconds = 30, CPUSomeClose = F_Fin 60,
       CPUSomeReopen = F_Fin 40, MemoryFullClose = F_Fin 1, MemoryFullReopen = F_Fin 0, IOFullClose = F_Fin 10, IOFullReopen = F_Fin 5,
       MaximumRecentOOMKills = 0\<rparr>,
     fc_Cache = \<lparr>cc_ObjectStore = \<lparr>os_Implementation = ''rustfs'', os_EndpointEnv = ''GHA_FLEET_RUSTFS_ENDPOINT'',
         os_AccessKeyEnv = ''GHA_FLEET_RUSTFS_ACCESS_KEY'', os_SecretKeyEnv = ''GHA_FLEET_RUSTFS_SECRET_KEY'', os_Bucket = ''github-actions-cache''\<rparr>,
       cc_NamespaceTemplate = namespace_Template, cc_UntrustedWriteScope = ''isolated'', cc_ReleaseWriteScope = ''none''\<rparr>,
     fc_Backends = [\<lparr>be_Name = ''linux-amd64-incus-container'', be_Platform = ''linux'', be_Architecture = ''amd64'',
       be_Implementation = ''incus-container'', be_FailureDomain = ''example-runner-1'', be_Docker = True, be_Warm = False\<rparr>],
     fc_Pools = [demo_standard, demo_untrusted, demo_release]\<rparr>"

lemma demo_fleet_valid: "fleet_Validate demo_text_env demo_fleet = []"
proof -
  have "all_issues demo_text_env demo_fleet = []" by code_simp
  then show ?thesis by (simp add: fleet_Validate_Nil_iff)
qed

lemma demo_fleet_pools: "set (fc_Pools demo_fleet) = {demo_standard, demo_untrusted, demo_release}"
  by (simp add: demo_fleet_def)

lemma demo_release_simps [simp]:
  "pl_Trust demo_release = ''release''" "ca_EgressAllowlist (pl_Capabilities demo_release) = [demo_egress]" "pl_Warm demo_release = \<lparr>wp_TargetReady = 0, wp_MaxReady = 0\<rparr>"
  by (simp_all add: demo_release_def demo_pool_def)


theorem pools_identified_witness: "config_Pool demo_fleet (pl_Name demo_untrusted) = Some demo_untrusted"
  using pools_identified [OF demo_fleet_valid, of demo_untrusted] by (simp add: demo_fleet_pools)

theorem egress_never_reserved_witness:
  "\<exists>v. parse_prefix (ed_Destination demo_egress) = Some (v, 32) \<and> (\<forall>t \<in> set ReservedEgressDestinations. \<not> in_range v t)"
  using egress_never_reserved [OF demo_fleet_valid, of demo_release demo_egress] by (simp add: demo_fleet_pools)

theorem fleet_quotas_exact_witness:
  "FleetMaxInstances (fc_Incus demo_fleet) \<le> 64 \<and> FleetMaxMemoryMiB (fc_Incus demo_fleet) = in_ProjectMaxMemoryMiB (fc_Incus demo_fleet) * ClusterMembers (fc_Incus demo_fleet)"
  using fleet_quotas_exact [OF demo_fleet_valid] by (simp add: Let_def)

end
