(* ===== verification/Host_Capacity.thy ===== *)
theory Host_Capacity
  imports Platform_Config
begin

text \<open>
  Two users of the host configuration: the derivation of how many workers of a pool fit on a host
  (\<open>src/internal/hostcapacity/capacity.go\<close>) and the configuration of queue admission with its validation against the
  platform (\<open>src/internal/queueadmission/config.go\<close>).
\<close>

section \<open>Host capacity (\<open>hostcapacity/capacity.go\<close>)\<close>

record Limit =
  li_Pool :: string
  li_Workers :: int
  li_Binding :: string

definition BindingInstances :: string where "BindingInstances = ''incus.project_max_instances''"
definition BindingCPU :: string where "BindingCPU = ''incus.project_max_cpu_units''"
definition BindingMemory :: string where "BindingMemory = ''incus.project_max_memory_mib''"

datatype capacity_error = HostDeclaresNoPool string | PoolDeclaresNoResources string

definition ForPool :: "fleet_config \<Rightarrow> string \<Rightarrow> capacity_error + Limit" where
  "ForPool cfg pool =
     (case config_Pool cfg pool of
        None \<Rightarrow> Inl (HostDeclaresNoPool pool)
      | Some declared \<Rightarrow>
        if rs_VCPU (pl_Resources declared) \<le> 0 \<or> rs_MemoryMiB (pl_Resources declared) \<le> 0 then Inl (PoolDeclaresNoResources pool)
        else
          (let limit = \<lparr>li_Pool = pool, li_Workers = in_ProjectMaxInstances (fc_Incus cfg), li_Binding = BindingInstances\<rparr>;
               byCPU = div64 (in_ProjectMaxCPUUnits (fc_Incus cfg)) (rs_VCPU (pl_Resources declared));
               limit = (if byCPU < li_Workers limit then limit\<lparr>li_Workers := byCPU, li_Binding := BindingCPU\<rparr> else limit);
               byMemory = div64 (in_ProjectMaxMemoryMiB (fc_Incus cfg)) (rs_MemoryMiB (pl_Resources declared));
               limit = (if byMemory < li_Workers limit then limit\<lparr>li_Workers := byMemory, li_Binding := BindingMemory\<rparr> else limit);
               limit = (if li_Workers limit < 0 then limit\<lparr>li_Workers := 0\<rparr> else limit)
           in Inr limit))"

fun for_pools :: "fleet_config \<Rightarrow> Pool list \<Rightarrow> capacity_error + Limit list" where
  "for_pools cfg [] = Inr []"
| "for_pools cfg (p # ps) =
     (case ForPool cfg (pl_Name p) of
        Inl err \<Rightarrow> Inl err
      | Inr limit \<Rightarrow> (case for_pools cfg ps of Inl err \<Rightarrow> Inl err | Inr limits \<Rightarrow> Inr (limit # limits)))"

definition ForHost :: "fleet_config \<Rightarrow> capacity_error + Limit list" where
  "ForHost cfg = for_pools cfg (fc_Pools cfg)"

section \<open>Queue admission configuration (\<open>queueadmission/config.go\<close>)\<close>

definition queue_SchemaVersion :: int where "queue_SchemaVersion = 5"

record ResourceBudget =
  rb_CPUUnits :: int
  rb_MemoryMiB :: int

record ScaleSetResources =
  ss_CPUUnits :: int
  ss_MemoryMiB :: int
  ss_ReservationCPUUnits :: int
  ss_ReservationMemoryMiB :: int
  ss_Priority :: int

record RepositoryPolicy =
  rp_Weight :: int
  rp_MaxInFlight :: int

text \<open>The two maps are association lists in the order in which the runtime walks them; a repository map that the document does
  not declare is \<^term>\<open>None\<close>.\<close>

record queue_config =
  qc_SchemaVersion :: int
  qc_MaxInFlight :: int
  qc_MaxBackgroundInFlight :: int
  qc_DefaultRepositoryLimit :: int
  qc_DefaultWeight :: int
  qc_QueuedTTLSeconds :: int
  qc_AcquiringTTLSeconds :: int
  qc_AcquiredTTLSeconds :: int
  qc_ExecutionTTLSeconds :: int
  qc_PriorityAgingSeconds :: int
  qc_MaxRepositorySharePercent :: int
  qc_Capacity :: ResourceBudget
  qc_ScaleSets :: "(string \<times> ScaleSetResources) list"
  qc_Repositories :: "(string \<times> RepositoryPolicy) list option"

datatype queue_config_error =
    QueueLimitsInvalid | QueueTTLInvalid | QueueContractIncomplete | ScaleSetInvalid string | RepositoryPolicyInvalid string
  | QueueCapacityDiffers | QueueOmitsScaleSet string | QueueResourcesDiffer string | PlatformDuplicatesScaleSet string | UnknownScaleSet string

definition scale_set_bad :: "queue_config \<Rightarrow> string \<times> ScaleSetResources \<Rightarrow> bool" where
  "scale_set_bad c entry =
     (let (name, r) = entry
      in name = [] \<or> ss_CPUUnits r < 1 \<or> ss_CPUUnits r > rb_CPUUnits (qc_Capacity c)
         \<or> ss_MemoryMiB r < 1 \<or> ss_MemoryMiB r > rb_MemoryMiB (qc_Capacity c)
         \<or> ss_ReservationCPUUnits r < 1 \<or> ss_ReservationCPUUnits r > ss_CPUUnits r
         \<or> ss_ReservationMemoryMiB r < 256 \<or> ss_ReservationMemoryMiB r mod 256 \<noteq> 0 \<or> ss_ReservationMemoryMiB r > ss_MemoryMiB r
         \<or> ss_Priority r < 0 \<or> ss_Priority r > 2)"

definition repository_bad :: "queue_config \<Rightarrow> string \<times> RepositoryPolicy \<Rightarrow> bool" where
  "repository_bad c entry =
     (let (repository, p) = entry
      in repository = [] \<or> rp_Weight p < 1 \<or> rp_Weight p > 100 \<or> rp_MaxInFlight p < 1 \<or> rp_MaxInFlight p > qc_MaxInFlight c)"

definition queue_Validate :: "queue_config \<Rightarrow> queue_config_error option" where
  "queue_Validate c =
     (if qc_SchemaVersion c \<noteq> queue_SchemaVersion \<or> qc_MaxInFlight c < 1 \<or> qc_MaxInFlight c > 64
         \<or> qc_MaxBackgroundInFlight c < 1 \<or> qc_MaxBackgroundInFlight c > qc_MaxInFlight c
         \<or> qc_DefaultRepositoryLimit c < 1 \<or> qc_DefaultRepositoryLimit c > qc_MaxInFlight c
         \<or> qc_DefaultWeight c < 1 \<or> qc_DefaultWeight c > 100 then Some QueueLimitsInvalid
      else if qc_QueuedTTLSeconds c \<noteq> 600 \<or> qc_AcquiringTTLSeconds c \<noteq> 120 \<or> qc_AcquiredTTLSeconds c \<noteq> 600
         \<or> qc_ExecutionTTLSeconds c \<noteq> 86400 \<or> qc_PriorityAgingSeconds c \<noteq> 300 \<or> qc_MaxRepositorySharePercent c \<noteq> 75
      then Some QueueTTLInvalid
      else case qc_Repositories c of
        None \<Rightarrow> Some QueueContractIncomplete
      | Some repositories \<Rightarrow>
        if rb_CPUUnits (qc_Capacity c) < 1 \<or> rb_MemoryMiB (qc_Capacity c) < 1024 \<or> qc_ScaleSets c = [] then Some QueueContractIncomplete
        else case find (scale_set_bad c) (qc_ScaleSets c) of
          Some (name, r) \<Rightarrow> Some (ScaleSetInvalid name)
        | None \<Rightarrow> (case find (repository_bad c) repositories of
              Some (repository, p) \<Rightarrow> Some (RepositoryPolicyInvalid repository)
            | None \<Rightarrow> None))"

definition wanted :: "Pool \<Rightarrow> ScaleSetResources \<Rightarrow> ScaleSetResources" where
  "wanted pool declared =
     \<lparr>ss_CPUUnits = rs_VCPU (pl_Resources pool), ss_MemoryMiB = rs_MemoryMiB (pl_Resources pool),
      ss_ReservationCPUUnits = rv_CPUUnits (EffectiveReservation pool), ss_ReservationMemoryMiB = rv_MemoryMiB (EffectiveReservation pool),
      ss_Priority = ss_Priority declared\<rparr>"

fun match_pools :: "(string \<times> ScaleSetResources) list \<Rightarrow> Pool list \<Rightarrow> (string \<times> ScaleSetResources) list
    \<Rightarrow> queue_config_error + (string \<times> ScaleSetResources) list" where
  "match_pools sets [] seen = Inr seen"
| "match_pools sets (pool # pools) seen =
     (case map_of sets (pl_ScaleSetName pool) of
        None \<Rightarrow> Inl (QueueOmitsScaleSet (pl_ScaleSetName pool))
      | Some declared \<Rightarrow>
        if declared \<noteq> wanted pool declared then Inl (QueueResourcesDiffer (pl_ScaleSetName pool))
        else if (case map_of seen (pl_ScaleSetName pool) of None \<Rightarrow> False | Some previous \<Rightarrow> previous \<noteq> wanted pool declared)
        then Inl (PlatformDuplicatesScaleSet (pl_ScaleSetName pool))
        else match_pools sets pools ((pl_ScaleSetName pool, wanted pool declared) # seen))"

definition ValidateAgainstPlatform :: "queue_config \<Rightarrow> fleet_config \<Rightarrow> queue_config_error option" where
  "ValidateAgainstPlatform c platform =
     (if rb_CPUUnits (qc_Capacity c) \<noteq> FleetMaxCPUUnits (fc_Incus platform) \<or> rb_MemoryMiB (qc_Capacity c) \<noteq> FleetMaxMemoryMiB (fc_Incus platform)
      then Some QueueCapacityDiffers
      else case match_pools (qc_ScaleSets c) (fc_Pools platform) [] of
        Inl err \<Rightarrow> Some err
      | Inr seen \<Rightarrow>
          (case find (\<lambda>entry. map_of seen (fst entry) = None) (qc_ScaleSets c) of
             Some (name, r) \<Rightarrow> Some (UnknownScaleSet name)
           | None \<Rightarrow> None))"

section \<open>What the capacity numbers mean\<close>

lemma le_div_iff_mult_le: "0 < v \<Longrightarrow> n \<le> c div v \<longleftrightarrow> n * v \<le> (c :: int)"
proof
  assume v: "0 < v" and "n \<le> c div v"
  then have "n * v \<le> (c div v) * v" by (simp add: mult_right_mono)
  also have "\<dots> \<le> c" using v pos_mod_sign [of v c] div_mult_mod_eq [of c v] by linarith
  finally show "n * v \<le> c" .
next
  assume v: "0 < v" and "n * v \<le> c"
  then show "n \<le> c div v" using zdiv_mono1 [of "n * v" c v] by simp
qed

text \<open>How many workers of a pool fit under the three project caps at once.\<close>

definition workers_fit :: "fleet_config \<Rightarrow> Pool \<Rightarrow> int \<Rightarrow> bool" where
  "workers_fit c p n \<longleftrightarrow> n \<le> in_ProjectMaxInstances (fc_Incus c) \<and> n * rs_VCPU (pl_Resources p) \<le> in_ProjectMaxCPUUnits (fc_Incus c)
     \<and> n * rs_MemoryMiB (pl_Resources p) \<le> in_ProjectMaxMemoryMiB (fc_Incus c)"

lemma valid_pool_lookup: "fleet_Validate e c = [] \<Longrightarrow> p \<in> set (fc_Pools c) \<Longrightarrow> config_Pool c (pl_Name p) = Some p"
  using find_distinct [of pl_Name "fc_Pools c" p] pool_issues_distinct [OF valid_limits(4), of e c] by (simp add: config_Pool_def)

definition exceeds :: "fleet_config \<Rightarrow> Pool \<Rightarrow> string \<Rightarrow> int \<Rightarrow> bool" where
  "exceeds c p binding n \<longleftrightarrow>
     (binding = BindingInstances \<and> n > in_ProjectMaxInstances (fc_Incus c))
     \<or> (binding = BindingCPU \<and> n * rs_VCPU (pl_Resources p) > in_ProjectMaxCPUUnits (fc_Incus c))
     \<or> (binding = BindingMemory \<and> n * rs_MemoryMiB (pl_Resources p) > in_ProjectMaxMemoryMiB (fc_Incus c))"

lemma ForPool_largest:
  assumes "config_Pool c name = Some p" "0 < rs_VCPU (pl_Resources p)" "0 < rs_MemoryMiB (pl_Resources p)"
    "0 \<le> in_ProjectMaxInstances (fc_Incus c)" "0 \<le> in_ProjectMaxCPUUnits (fc_Incus c)" "0 \<le> in_ProjectMaxMemoryMiB (fc_Incus c)"
  shows "\<exists>l. ForPool c name = Inr l \<and> li_Pool l = name \<and> 0 \<le> li_Workers l \<and> (\<forall>n. n \<le> li_Workers l \<longleftrightarrow> workers_fit c p n)
    \<and> exceeds c p (li_Binding l) (li_Workers l + 1)"
proof -
  let ?i = "in_ProjectMaxInstances (fc_Incus c)" and ?cpu = "in_ProjectMaxCPUUnits (fc_Incus c) div rs_VCPU (pl_Resources p)"
    and ?mem = "in_ProjectMaxMemoryMiB (fc_Incus c) div rs_MemoryMiB (pl_Resources p)"
  define w where "w = min ?i (min ?cpu ?mem)"
  define b where "b = (if ?mem < min ?i ?cpu then BindingMemory else if ?cpu < ?i then BindingCPU else BindingInstances)"
  have pos: "0 \<le> ?cpu" "0 \<le> ?mem" using assms by (simp_all add: pos_imp_zdiv_nonneg_iff)
  then have r: "ForPool c name = Inr \<lparr>li_Pool = name, li_Workers = w, li_Binding = b\<rparr>"
    using assms by (auto simp: ForPool_def Let_def w_def b_def div64_nonneg min_def)
  have f: "n \<le> w \<longleftrightarrow> workers_fit c p n" for n
    by (auto simp: w_def workers_fit_def le_div_iff_mult_le [OF assms(2)] le_div_iff_mult_le [OF assms(3)])
  have "exceeds c p b (w + 1)"
    using le_div_iff_mult_le [OF assms(2), of "w + 1" "in_ProjectMaxCPUUnits (fc_Incus c)"]
      le_div_iff_mult_le [OF assms(3), of "w + 1" "in_ProjectMaxMemoryMiB (fc_Incus c)"]
    by (auto simp: exceeds_def b_def w_def min_def not_le)
  then show ?thesis using r f pos assms(4) by (auto simp: w_def)
qed

text \<open>The derived concurrency is the true maximum. For a pool of an accepted configuration the derivation returns a limit of at
  least one worker, a number of workers fits under the instance, CPU and memory caps exactly when it does not exceed the
  limit, and the cap that the limit names is one that a further worker would break.\<close>

theorem capacity_is_largest:
  assumes "fleet_Validate e c = []" "p \<in> set (fc_Pools c)"
  shows "\<exists>l. ForPool c (pl_Name p) = Inr l \<and> li_Pool l = pl_Name p \<and> 1 \<le> li_Workers l \<and> (\<forall>n. n \<le> li_Workers l \<longleftrightarrow> workers_fit c p n)
    \<and> exceeds c p (li_Binding l) (li_Workers l + 1)"
proof -
  note r = valid_pool_resources [OF assms] and b = valid_project_bounds [OF assms(1)]
  obtain l where l: "ForPool c (pl_Name p) = Inr l" "li_Pool l = pl_Name p" "\<forall>n. n \<le> li_Workers l \<longleftrightarrow> workers_fit c p n"
      "exceeds c p (li_Binding l) (li_Workers l + 1)"
    using ForPool_largest [OF valid_pool_lookup [OF assms]] r b by fastforce
  have "workers_fit c p 1" using r b by (simp add: workers_fit_def)
  then show ?thesis using l by blast
qed

lemma for_pools_total:
  "(\<And>p. p \<in> set ps \<Longrightarrow> \<exists>l. ForPool c (pl_Name p) = Inr l \<and> li_Pool l = pl_Name p) \<Longrightarrow>
     \<exists>ls. for_pools c ps = Inr ls \<and> map li_Pool ls = map pl_Name ps"
proof (induction ps)
  case (Cons p ps)
  obtain ls where "for_pools c ps = Inr ls" "map li_Pool ls = map pl_Name ps" using Cons by auto
  moreover obtain l where "ForPool c (pl_Name p) = Inr l" "li_Pool l = pl_Name p" using Cons.prems by auto
  ultimately show ?case by simp
qed simp

section \<open>What an accepted queue configuration guarantees\<close>

definition agrees :: "(string \<times> ScaleSetResources) list \<Rightarrow> Pool \<Rightarrow> bool" where
  "agrees sets p \<longleftrightarrow> (\<exists>r. map_of sets (pl_ScaleSetName p) = Some r \<and> ss_CPUUnits r = rs_VCPU (pl_Resources p)
     \<and> ss_MemoryMiB r = rs_MemoryMiB (pl_Resources p) \<and> ss_ReservationCPUUnits r = rv_CPUUnits (EffectiveReservation p)
     \<and> ss_ReservationMemoryMiB r = rv_MemoryMiB (EffectiveReservation p))"

lemma wanted_eq_iff: "r = wanted p r \<longleftrightarrow> ss_CPUUnits r = rs_VCPU (pl_Resources p)
     \<and> ss_MemoryMiB r = rs_MemoryMiB (pl_Resources p) \<and> ss_ReservationCPUUnits r = rv_CPUUnits (EffectiveReservation p)
     \<and> ss_ReservationMemoryMiB r = rv_MemoryMiB (EffectiveReservation p)"
  unfolding wanted_def by (cases r) auto

lemma match_pools_agree:
  "\<forall>p \<in> set ps. agrees sets p \<Longrightarrow> \<forall>n r. map_of seen n = Some r \<longrightarrow> map_of sets n = Some r \<Longrightarrow>
     \<exists>seen'. match_pools sets ps seen = Inr seen' \<and> dom (map_of seen') = dom (map_of seen) \<union> pl_ScaleSetName ` set ps"
proof (induction ps arbitrary: seen)
  case (Cons p ps)
  obtain r where r: "map_of sets (pl_ScaleSetName p) = Some r" "r = wanted p r"
    using Cons.prems(1) unfolding wanted_eq_iff agrees_def by auto
  have "\<not> (case map_of seen (pl_ScaleSetName p) of None \<Rightarrow> False | Some previous \<Rightarrow> previous \<noteq> wanted p r)"
    using Cons.prems(2) r by (auto split: option.splits)
  then have step: "match_pools sets (p # ps) seen = match_pools sets ps ((pl_ScaleSetName p, r) # seen)" using r by simp
  have "\<forall>n d. map_of ((pl_ScaleSetName p, r) # seen) n = Some d \<longrightarrow> map_of sets n = Some d" using Cons.prems(2) r(1) by auto
  with Cons.IH [of "(pl_ScaleSetName p, r) # seen"] Cons.prems(1) show ?case unfolding step by auto
qed simp

lemma match_pools_disagree:
  "\<not> (\<forall>p \<in> set ps. agrees sets p) \<Longrightarrow> \<forall>n r. map_of seen n = Some r \<longrightarrow> map_of sets n = Some r \<Longrightarrow>
     \<exists>p \<in> set ps. \<not> agrees sets p \<and> (match_pools sets ps seen = Inl (QueueOmitsScaleSet (pl_ScaleSetName p))
        \<or> match_pools sets ps seen = Inl (QueueResourcesDiffer (pl_ScaleSetName p)))"
proof (induction ps arbitrary: seen)
  case (Cons p ps)
  show ?case
  proof (cases "agrees sets p")
    case False
    then show ?thesis by (auto simp: agrees_def wanted_eq_iff split: option.splits)
  next
    case True
    then obtain r where r: "map_of sets (pl_ScaleSetName p) = Some r" "r = wanted p r" unfolding wanted_eq_iff agrees_def by auto
    have "\<not> (case map_of seen (pl_ScaleSetName p) of None \<Rightarrow> False | Some previous \<Rightarrow> previous \<noteq> wanted p r)"
      using Cons.prems(2) r by (auto split: option.splits)
    then have step: "match_pools sets (p # ps) seen = match_pools sets ps ((pl_ScaleSetName p, r) # seen)" using r by simp
    have "\<forall>n d. map_of ((pl_ScaleSetName p, r) # seen) n = Some d \<longrightarrow> map_of sets n = Some d" using Cons.prems(2) r(1) by auto
    with Cons.IH [of "(pl_ScaleSetName p, r) # seen"] Cons.prems(1) True show ?thesis unfolding step by auto
  qed
qed simp

lemma ValidateAgainstPlatform_exact:
  "(ValidateAgainstPlatform q c = None \<longleftrightarrow>
      rb_CPUUnits (qc_Capacity q) = FleetMaxCPUUnits (fc_Incus c) \<and> rb_MemoryMiB (qc_Capacity q) = FleetMaxMemoryMiB (fc_Incus c)
      \<and> (\<forall>p \<in> set (fc_Pools c). agrees (qc_ScaleSets q) p) \<and> fst ` set (qc_ScaleSets q) = pl_ScaleSetName ` set (fc_Pools c))
   \<and> ValidateAgainstPlatform q c \<noteq> Some (PlatformDuplicatesScaleSet name)"
proof (cases "\<forall>p \<in> set (fc_Pools c). agrees (qc_ScaleSets q) p")
  case True
  then obtain seen where s: "match_pools (qc_ScaleSets q) (fc_Pools c) [] = Inr seen" "dom (map_of seen) = pl_ScaleSetName ` set (fc_Pools c)"
    using match_pools_agree [of "fc_Pools c" "qc_ScaleSets q" "[]"] by auto
  have declared: "pl_ScaleSetName ` set (fc_Pools c) \<subseteq> fst ` set (qc_ScaleSets q)"
  proof
    fix x assume "x \<in> pl_ScaleSetName ` set (fc_Pools c)"
    then obtain r where "map_of (qc_ScaleSets q) x = Some r" using True by (auto simp: agrees_def)
    then show "x \<in> fst ` set (qc_ScaleSets q)" by (metis map_of_eq_None_iff option.distinct(1))
  qed
  have "find (\<lambda>entry. map_of seen (fst entry) = None) (qc_ScaleSets q) = None
      \<longleftrightarrow> fst ` set (qc_ScaleSets q) \<subseteq> pl_ScaleSetName ` set (fc_Pools c)"
    unfolding find_None_iff s(2) [symmetric] by auto
  then show ?thesis using True s(1) declared
    by (auto simp: ValidateAgainstPlatform_def split: option.splits)
next
  case False
  then show ?thesis using match_pools_disagree [OF False, of "[]"] by (auto simp: ValidateAgainstPlatform_def)
qed

lemma ValidateAgainstPlatform_None_iff:
  "ValidateAgainstPlatform q c = None \<longleftrightarrow>
      rb_CPUUnits (qc_Capacity q) = FleetMaxCPUUnits (fc_Incus c) \<and> rb_MemoryMiB (qc_Capacity q) = FleetMaxMemoryMiB (fc_Incus c)
      \<and> (\<forall>p \<in> set (fc_Pools c). agrees (qc_ScaleSets q) p) \<and> fst ` set (qc_ScaleSets q) = pl_ScaleSetName ` set (fc_Pools c)"
  using ValidateAgainstPlatform_exact by blast

text \<open>A queue configuration is accepted against a platform exactly when it repeats it: the capacity is the fleet's, every pool's
  scale set is declared with the pool's resources and reservation, and no other scale set is declared. Two pools that
  share a scale set name with different resources are always caught as a difference, so the separate check for them
  never fires.\<close>

theorem queue_matches_platform:
  "(ValidateAgainstPlatform q c = None \<longleftrightarrow>
      rb_CPUUnits (qc_Capacity q) = FleetMaxCPUUnits (fc_Incus c) \<and> rb_MemoryMiB (qc_Capacity q) = FleetMaxMemoryMiB (fc_Incus c)
      \<and> (\<forall>p \<in> set (fc_Pools c). agrees (qc_ScaleSets q) p) \<and> fst ` set (qc_ScaleSets q) = pl_ScaleSetName ` set (fc_Pools c))
   \<and> ValidateAgainstPlatform q c \<noteq> Some (PlatformDuplicatesScaleSet name)"
  by (rule ValidateAgainstPlatform_exact)

text \<open>Only the priority of a scale set is the queue's own. When a queue configuration repeats an accepted platform and declares
  each scale set once, its validation can refuse a scale set for no other reason than a priority outside zero to two.\<close>

theorem queue_refuses_priority_only:
  assumes "fleet_Validate e c = []" "ValidateAgainstPlatform q c = None" "distinct (map fst (qc_ScaleSets q))"
    "queue_Validate q = Some (ScaleSetInvalid name)"
  shows "\<exists>r. (name, r) \<in> set (qc_ScaleSets q) \<and> \<not> (0 \<le> ss_Priority r \<and> ss_Priority r \<le> 2)"
proof -
  have m: "rb_CPUUnits (qc_Capacity q) = FleetMaxCPUUnits (fc_Incus c)" "rb_MemoryMiB (qc_Capacity q) = FleetMaxMemoryMiB (fc_Incus c)"
      "\<forall>p \<in> set (fc_Pools c). agrees (qc_ScaleSets q) p" "fst ` set (qc_ScaleSets q) = pl_ScaleSetName ` set (fc_Pools c)"
    using assms(2) ValidateAgainstPlatform_None_iff by blast+
  obtain r where r: "find (scale_set_bad q) (qc_ScaleSets q) = Some (name, r)"
    using assms(4) by (auto simp: queue_Validate_def split: option.splits if_splits)
  then have bad: "scale_set_bad q (name, r)" and i: "(name, r) \<in> set (qc_ScaleSets q)" by (auto simp: find_Some_iff in_set_conv_nth)
  obtain p where p: "p \<in> set (fc_Pools c)" "pl_ScaleSetName p = name" using i m(4) by (metis (no_types, lifting) fst_conv imageE imageI)
  have "map_of (qc_ScaleSets q) name = Some r" using assms(3) i by simp
  then have a: "ss_CPUUnits r = rs_VCPU (pl_Resources p)" "ss_MemoryMiB r = rs_MemoryMiB (pl_Resources p)"
      "ss_ReservationCPUUnits r = rv_CPUUnits (EffectiveReservation p)" "ss_ReservationMemoryMiB r = rv_MemoryMiB (EffectiveReservation p)"
    using m(3) p by (auto simp: agrees_def)
  note b = valid_project_bounds [OF assms(1)]
  have big: "in_ProjectMaxCPUUnits (fc_Incus c) \<le> FleetMaxCPUUnits (fc_Incus c)" "in_ProjectMaxMemoryMiB (fc_Incus c) \<le> FleetMaxMemoryMiB (fc_Incus c)"
    using b mul64_bounded [of 0 _ "2 ^ 32" "ClusterMembers (fc_Incus c)"]
    by (simp_all add: FleetMaxCPUUnits_def FleetMaxMemoryMiB_def mult_le_cancel_left1)
  obtain at_path where "validatePool e at_path p = []" using assms(1) p(1) by (rule valid_pool)
  then have "name \<noteq> []" using p(2) by (auto simp: validatePool_def namePattern_def)
  then show ?thesis using bad i a m(1,2) big valid_pool_resources [OF assms(1) p(1)] by (auto simp: scale_set_bad_def)
qed

section \<open>A queue configuration for the example platform\<close>

definition demo_scale_set :: "int \<Rightarrow> int \<Rightarrow> int \<Rightarrow> ScaleSetResources" where
  "demo_scale_set cpu memory priority =
     \<lparr>ss_CPUUnits = cpu, ss_MemoryMiB = memory, ss_ReservationCPUUnits = cpu, ss_ReservationMemoryMiB = memory, ss_Priority = priority\<rparr>"

definition demo_queue_config :: "int \<Rightarrow> queue_config" where
  "demo_queue_config priority =
     \<lparr>qc_SchemaVersion = 5, qc_MaxInFlight = 32, qc_MaxBackgroundInFlight = 2, qc_DefaultRepositoryLimit = 32, qc_DefaultWeight = 1,
      qc_QueuedTTLSeconds = 600, qc_AcquiringTTLSeconds = 120, qc_AcquiredTTLSeconds = 600, qc_ExecutionTTLSeconds = 86400,
      qc_PriorityAgingSeconds = 300, qc_MaxRepositorySharePercent = 75, qc_Capacity = \<lparr>rb_CPUUnits = 40, rb_MemoryMiB = 57344\<rparr>,
      qc_ScaleSets = [(''nddev-linux-release'', demo_scale_set 4 8192 1), (''nddev-linux-standard'', demo_scale_set 2 4096 priority),
        (''nddev-linux-untrusted'', demo_scale_set 4 6144 1)],
      qc_Repositories = Some [(''example-org/example-actions'', \<lparr>rp_Weight = 1, rp_MaxInFlight = 6\<rparr>)]\<rparr>"

lemma demo_queue_matches: "ValidateAgainstPlatform (demo_queue_config 1) demo_fleet = None" "ValidateAgainstPlatform (demo_queue_config 7) demo_fleet = None"
  by code_simp+

theorem capacity_is_largest_witness: "\<exists>l. ForPool demo_fleet (pl_Name demo_standard) = Inr l \<and> 1 \<le> li_Workers l \<and> (3 \<le> li_Workers l \<longleftrightarrow> workers_fit demo_fleet demo_standard 3)"
proof -
  have "demo_standard \<in> set (fc_Pools demo_fleet)" by (simp add: demo_fleet_pools)
  from capacity_is_largest [OF demo_fleet_valid this] show ?thesis by blast
qed

theorem queue_matches_platform_witness:
  "queue_Validate (demo_queue_config 1) = None \<and> fst ` set (qc_ScaleSets (demo_queue_config 1)) = pl_ScaleSetName ` set (fc_Pools demo_fleet)"
proof -
  have "queue_Validate (demo_queue_config 1) = None" by code_simp
  then show ?thesis using queue_matches_platform [of "demo_queue_config 1" demo_fleet] demo_queue_matches(1) by blast
qed

theorem queue_refuses_priority_only_witness:
  "\<exists>r. (''nddev-linux-standard'', r) \<in> set (qc_ScaleSets (demo_queue_config 7)) \<and> \<not> (0 \<le> ss_Priority r \<and> ss_Priority r \<le> 2)"
proof -
  have "queue_Validate (demo_queue_config 7) = Some (ScaleSetInvalid ''nddev-linux-standard'')" "distinct (map fst (qc_ScaleSets (demo_queue_config 7)))"
    by code_simp+
  then show ?thesis using queue_refuses_priority_only [OF demo_fleet_valid demo_queue_matches(2)] by blast
qed

end
