(* ===== verification/Host_Probe.thy ===== *)
theory Host_Probe
  imports Platform_Config
begin

text \<open>
  The probe of a host (\<open>src/internal/hostprobe/types.go\<close>, \<open>evaluate.go\<close>): the snapshot, the decision whether a build or a cold
  worker may start on it, and which of its findings runtime admission delegates; and the usable free space of the root
  file system (\<open>src/internal/hostdisk/hostdisk.go\<close>) with its 128 bit division on words. Collecting the snapshot reads the
  kernel's interfaces and is not modelled.
\<close>

section \<open>Snapshots (\<open>hostprobe/types.go\<close>)\<close>

record OperatingSystem =
  os_ID :: string
  os_VersionID :: string
  os_PrettyName :: string
  os_Kernel :: string
  os_Architecture :: string

record host_cpu =
  hc_Logical :: int
  hc_PhysicalCores :: int
  hc_Sockets :: int
  hc_ThreadsPerCore :: int
  hc_NUMANodes :: int
  hc_Load1 :: float64
  hc_Load5 :: float64
  hc_Load15 :: float64

record host_memory =
  hm_TotalMiB :: int
  hm_AvailableMiB :: int
  hm_SwapTotalMiB :: int
  hm_SwapFreeMiB :: int
  hm_OOMKillsTotal :: uint64

record PressureWindow =
  pw_Avg10 :: float64
  pw_Avg60 :: float64
  pw_Avg300 :: float64
  pw_TotalMicros :: uint64

record PressureResource =
  pr_Some :: PressureWindow
  pr_Full :: PressureWindow

record host_pressure =
  hp_Available :: bool
  hp_CPU :: PressureResource
  hp_Memory :: PressureResource
  hp_IO :: PressureResource

record Filesystem =
  fs_Source :: string
  fs_Type :: string
  fs_TotalMiB :: uint64
  fs_AvailableMiB :: uint64
  fs_FreePercent :: int
  fs_FreeInodesPercent :: int
  fs_Rotational :: bool
  fs_RotationalKnown :: bool

record KVM =
  kvm_Present :: bool
  kvm_Accessible :: bool
  kvm_Nested :: bool

record Maintenance =
  mt_RebootRequired :: bool
  mt_SystemState :: string
  mt_FailedUnits :: "string list"

record SoftwareVersion =
  sv_Present :: bool
  sv_Version :: string

record Software =
  sw_Incus :: SoftwareVersion
  sw_Docker :: SoftwareVersion

record LegacyRunners =
  lr_Listeners :: int
  lr_Workers :: int

record host_probe =
  hs_SchemaVersion :: int
  hs_CapturedAt :: string
  hs_Hostname :: string
  hs_OperatingSystem :: OperatingSystem
  hs_Virtualization :: string
  hs_CPU :: host_cpu
  hs_Memory :: host_memory
  hs_Pressure :: host_pressure
  hs_RootFilesystem :: Filesystem
  hs_KVM :: KVM
  hs_Maintenance :: Maintenance
  hs_Software :: Software
  hs_LegacyRunners :: LegacyRunners

section \<open>The decision on a build host (\<open>hostprobe/evaluate.go\<close>)\<close>

datatype Severity = SeverityInfo | SeverityWarning | SeverityBlocker

text \<open>The message of a finding is text for its reader; no code reads it back, and it is not modelled.\<close>

record Finding =
  fi_Code :: string
  fi_Severity :: Severity

record host_decision =
  hd_PilotReady :: bool
  hd_Pool :: string
  hd_HostReserveMode :: string
  hd_RequiredCPUUnits :: int
  hd_RequiredMemoryMiB :: int
  hd_RequiredFreeDiskPercent :: int
  hd_Findings :: "Finding list"

definition ceilingPercent :: "int \<Rightarrow> int \<Rightarrow> int" where
  "ceilingPercent tot v = div64 (add64 (mul64 tot v) 99) 100"

text \<open>\<open>float64(n)\<close> of an integer below \<open>2 ^ 64\<close>: the nearest value with a significand of 53 bits, ties to even.\<close>

definition round53 :: "int \<Rightarrow> int" where
  "round53 z =
     (if \<bar>z\<bar> \<le> 2 ^ 53 then z
      else
        (let k = (case find (\<lambda>k. \<bar>z\<bar> div 2 ^ k < 2 ^ 53) [1..<12] of Some k \<Rightarrow> k | None \<Rightarrow> 0);
             q = \<bar>z\<bar> div 2 ^ k; r = \<bar>z\<bar> mod 2 ^ k; half = 2 ^ (k - 1);
             q = (if r > half \<or> (r = half \<and> odd q) then q + 1 else q)
         in sgn z * q * 2 ^ k))"

definition float_of_int :: "int \<Rightarrow> float64" where
  "float_of_int z = F_Fin (of_int (round53 z))"

text \<open>\<open>strings.EqualFold\<close> for the two spellings asked for, none of whose letters has a case variant outside ASCII.\<close>

definition oneOfFold :: "string \<Rightarrow> string list \<Rightarrow> bool" where
  "oneOfFold v allowed \<longleftrightarrow> list_ex (\<lambda>a. to_lower v = to_lower a) allowed"

definition fleetServicePrefixes :: "string list" where
  "fleetServicePrefixes = [''garm'', ''gha-fleet-gateway'', ''incus'', ''lxcfs'']"

definition fleet_dependency :: "string \<Rightarrow> bool" where
  "fleet_dependency unit_name \<longleftrightarrow>
     (let name = trim_suffix unit_name ''.service''
      in list_ex (\<lambda>p. name = p \<or> has_prefix name (p @ ''-'') \<or> has_prefix name (p @ ''.'')) fleetServicePrefixes)"

definition requiredFailedUnits :: "string list \<Rightarrow> string list" where
  "requiredFailedUnits units = filter fleet_dependency units"

definition finding :: "bool \<Rightarrow> string \<Rightarrow> Severity \<Rightarrow> Finding list" where
  "finding present code severity = (if present then [\<lparr>fi_Code = code, fi_Severity = severity\<rparr>] else [])"

definition host_cpu_reserve :: "host_probe \<Rightarrow> HostReserve \<Rightarrow> int" where
  "host_cpu_reserve s r = max (hr_MinimumCPUUnits r) (ceilingPercent (hc_PhysicalCores (hs_CPU s)) (hr_MinimumPercent r))"

definition host_memory_reserve :: "host_probe \<Rightarrow> HostReserve \<Rightarrow> int" where
  "host_memory_reserve s r = max (hr_MinimumMemoryMiB r) (ceilingPercent (hm_TotalMiB (hs_Memory s)) (hr_MinimumPercent r))"

definition platform_findings :: "host_probe \<Rightarrow> Finding list" where
  "platform_findings s =
     finding (hs_SchemaVersion s \<noteq> 1) ''snapshot-schema'' SeverityBlocker
     @ finding (os_ID (hs_OperatingSystem s) \<noteq> ''ubuntu'' \<or> os_VersionID (hs_OperatingSystem s) \<noteq> ''24.04'') ''unsupported-operating-system'' SeverityBlocker
     @ finding (\<not> oneOfFold (os_Architecture (hs_OperatingSystem s)) [''x86_64'', ''amd64'']) ''unsupported-architecture'' SeverityBlocker"

definition capacity_findings :: "host_probe \<Rightarrow> HostReserve \<Rightarrow> Pool \<Rightarrow> Finding list" where
  "capacity_findings s r p =
     (let cpu = add64 (host_cpu_reserve s r) (rs_VCPU (pl_Resources p)); memory = add64 (host_memory_reserve s r) (rs_MemoryMiB (pl_Resources p));
          disk = hr_MinimumFreeDiskPercent r; root_fs = hs_RootFilesystem s
      in finding (hc_PhysicalCores (hs_CPU s) < cpu) ''insufficient-cpu'' SeverityBlocker
         @ finding (f_greater (hc_Load1 (hs_CPU s)) (float_of_int (host_cpu_reserve s r))) ''host-cpu-pressure'' SeverityBlocker
         @ finding (hm_TotalMiB (hs_Memory s) < memory) ''insufficient-memory'' SeverityBlocker
         @ finding (hm_AvailableMiB (hs_Memory s) < memory) ''insufficient-available-memory'' SeverityBlocker
         @ finding (fs_FreePercent root_fs < disk) ''disk-pressure'' SeverityBlocker
         @ finding (fs_FreeInodesPercent root_fs < disk) ''inode-pressure'' SeverityBlocker
         @ finding (fs_RotationalKnown root_fs \<and> fs_Rotational root_fs) ''rotational-storage'' SeverityWarning)"

definition kvm_findings :: "host_probe \<Rightarrow> Finding list" where
  "kvm_findings s =
     (if \<not> kvm_Present (hs_KVM s) then finding True ''kvm-missing'' SeverityBlocker
      else finding (\<not> kvm_Accessible (hs_KVM s)) ''kvm-inaccessible'' SeverityBlocker)
     @ finding (hs_Virtualization s \<noteq> ''none'' \<and> \<not> kvm_Nested (hs_KVM s)) ''nested-kvm-disabled'' SeverityBlocker"

definition system_findings :: "Maintenance \<Rightarrow> Finding list" where
  "system_findings m =
     (let failed = mt_FailedUnits m; required = requiredFailedUnits failed
      in if mt_SystemState m = ''running'' then []
         else if mt_SystemState m \<noteq> ''degraded'' then finding True ''system-unhealthy'' SeverityBlocker
         else if failed = [] then finding True ''system-unhealthy'' SeverityBlocker
         else if required \<noteq> [] then finding True ''required-service-failed'' SeverityBlocker
         else finding True ''host-degraded-unrelated'' SeverityWarning)"

definition all_findings :: "host_probe \<Rightarrow> HostReserve \<Rightarrow> Pool \<Rightarrow> bool \<Rightarrow> bool \<Rightarrow> Finding list" where
  "all_findings s r p requireKVM rebootBlocks =
     platform_findings s @ capacity_findings s r p
     @ (if requireKVM then kvm_findings s else [])
     @ finding (mt_RebootRequired (hs_Maintenance s)) ''reboot-required'' (if rebootBlocks then SeverityBlocker else SeverityWarning)
     @ system_findings (hs_Maintenance s)
     @ finding (\<not> sv_Present (sw_Incus (hs_Software s))) ''incus-missing'' SeverityBlocker
     @ finding (hs_Virtualization s \<noteq> ''none'') ''nested-virtualization'' SeverityWarning
     @ finding (lr_Listeners (hs_LegacyRunners s) > 0) ''legacy-coexistence'' SeverityInfo"

definition evaluateBuildHost :: "host_probe \<Rightarrow> HostReserve \<Rightarrow> Pool \<Rightarrow> bool \<Rightarrow> bool \<Rightarrow> host_decision" where
  "evaluateBuildHost s r p requireKVM rebootBlocks =
     (let found = all_findings s r p requireKVM rebootBlocks
      in \<lparr>hd_PilotReady = list_all (\<lambda>f. fi_Severity f \<noteq> SeverityBlocker) found, hd_Pool = pl_Name p, hd_HostReserveMode = hr_Mode r,
          hd_RequiredCPUUnits = add64 (host_cpu_reserve s r) (rs_VCPU (pl_Resources p)),
          hd_RequiredMemoryMiB = add64 (host_memory_reserve s r) (rs_MemoryMiB (pl_Resources p)),
          hd_RequiredFreeDiskPercent = hr_MinimumFreeDiskPercent r, hd_Findings = found\<rparr>)"

definition EvaluateColdPilot :: "host_probe \<Rightarrow> HostReserve \<Rightarrow> Pool \<Rightarrow> host_decision" where
  "EvaluateColdPilot s r p = evaluateBuildHost s r p True True"

definition EvaluateContainerImageBuild :: "host_probe \<Rightarrow> HostReserve \<Rightarrow> Pool \<Rightarrow> host_decision" where
  "EvaluateContainerImageBuild s r p = evaluateBuildHost s r p False False"

definition accounted_codes :: "string list" where
  "accounted_codes = [''insufficient-cpu'', ''insufficient-memory'', ''insufficient-available-memory'', ''disk-pressure'', ''inode-pressure'']"

definition HealthyForRuntimeAdmission :: "host_decision \<Rightarrow> bool" where
  "HealthyForRuntimeAdmission d \<longleftrightarrow>
     list_all (\<lambda>f. fi_Severity f \<noteq> SeverityBlocker \<or> fi_Code f \<in> set accounted_codes
                 \<or> (fi_Code f = ''host-cpu-pressure'' \<and> hd_HostReserveMode d = ''dedicated'')) (hd_Findings d)"

section \<open>Usable disk space (\<open>hostdisk/hostdisk.go\<close>)\<close>

text \<open>\<open>bits.Mul64\<close> and \<open>bits.Div64\<close>; the division panics, which is \<^term>\<open>None\<close>, when the quotient does not fit.\<close>

definition bits_Mul64 :: "uint64 \<Rightarrow> uint64 \<Rightarrow> uint64 \<times> uint64" where
  "bits_Mul64 x y = (word_of_nat (unat x * unat y div 2 ^ 64), x * y)"

definition bits_Div64 :: "uint64 \<Rightarrow> uint64 \<Rightarrow> uint64 \<Rightarrow> (uint64 \<times> uint64) option" where
  "bits_Div64 hi lo y =
     (if y = 0 \<or> y \<le> hi then None
      else (let n = unat hi * 2 ^ 64 + unat lo in Some (word_of_nat (n div unat y), word_of_nat (n mod unat y))))"

definition disk_percent :: "uint64 \<Rightarrow> uint64 \<Rightarrow> int option" where
  "disk_percent part tot =
     (if tot = 0 then Some 0
      else
        (let whole = part div tot; remainder = part mod tot; (high, low) = bits_Mul64 remainder 100
         in case bits_Div64 high low tot of
              None \<Rightarrow> None
            | Some (fraction, leftover) \<Rightarrow> Some (sint (whole * 100 + (if leftover > 0 then fraction + 1 else fraction)))))"

definition UsableFreePercent :: "uint64 \<Rightarrow> uint64 \<Rightarrow> uint64 \<Rightarrow> int option" where
  "UsableFreePercent tot available loopAllocated =
     (if loopAllocated = 0 \<or> loopAllocated \<ge> tot then disk_percent available tot
      else (let usableTotal = tot - loopAllocated
            in if available \<ge> usableTotal then Some 100 else disk_percent available usableTotal))"

text \<open>What the file system answers: the device of the root directory, and for every pool image the device and the allocated
  blocks, or that the call failed.\<close>

record disk_env =
  de_root_dev :: "uint64 option"
  de_images :: "(uint64 \<times> uint64) option list option"
  de_statfs :: "(uint64 \<times> uint64 \<times> uint64) option"

fun sum_images :: "uint64 \<Rightarrow> (uint64 \<times> uint64) option list \<Rightarrow> uint64" where
  "sum_images dev [] = 0"
| "sum_images dev (None # ms) = sum_images dev ms"
| "sum_images dev (Some (d, blocks) # ms) = (if d \<noteq> dev then 0 else blocks * 512) + sum_images dev ms"

definition LoopBackingAllocatedOn :: "disk_env \<Rightarrow> uint64" where
  "LoopBackingAllocatedOn e =
     (case de_root_dev e of
        None \<Rightarrow> 0
      | Some dev \<Rightarrow> (case de_images e of None \<Rightarrow> 0 | Some ms \<Rightarrow> sum_images dev ms))"

definition mebibyte :: uint64 where "mebibyte = 1024 * 1024"

definition ApplyUsableRootPercent :: "disk_env \<Rightarrow> host_probe option \<Rightarrow> host_probe option option" where
  "ApplyUsableRootPercent e snapshot =
     (case snapshot of
        None \<Rightarrow> Some None
      | Some s \<Rightarrow>
          (let tot = fs_TotalMiB (hs_RootFilesystem s) * mebibyte; available = fs_AvailableMiB (hs_RootFilesystem s) * mebibyte
           in map_option (\<lambda>pct. Some (s\<lparr>hs_RootFilesystem := (hs_RootFilesystem s)\<lparr>fs_FreePercent := pct\<rparr>\<rparr>))
                (UsableFreePercent tot available (LoopBackingAllocatedOn e))))"

text \<open>\<open>Observe\<close>: a failing \<open>statfs\<close> is the error; the three numbers are blocks, available blocks and the block size.\<close>

definition disk_Observe :: "disk_env \<Rightarrow> (unit + int) option" where
  "disk_Observe e =
     (case de_statfs e of
        None \<Rightarrow> Some (Inl ())
      | Some (blocks, bavail, bsize) \<Rightarrow>
          map_option Inr (UsableFreePercent (blocks * bsize) (bavail * bsize) (LoopBackingAllocatedOn e)))"

section \<open>The percentage is exact\<close>

lemma unat_mod_less: "tot \<noteq> 0 \<Longrightarrow> unat ((part :: uint64) mod tot) < unat tot"
  by (simp add: unat_mod unat_gt_0)

lemma unat_of_nat_small: "n < 2 ^ 64 \<Longrightarrow> unat (word_of_nat n :: uint64) = n"
  by (simp add: unsigned_of_nat take_bit_nat_eq_self)

lemma disk_percent_total: "\<exists>z. disk_percent part tot = Some z"
proof (cases "tot = 0")
  case False
  let ?r = "part mod tot"
  have r: "unat ?r < unat tot" using unat_mod_less [OF False] .
  then have "unat ?r * 100 div 2 ^ 64 < unat tot" by (simp add: div_less_iff_less_mult)
  moreover have "unat ?r * 100 div 2 ^ 64 < 2 ^ 64" using unsigned_less [of ?r, where 'a = nat] by (simp add: div_less_iff_less_mult)
  ultimately have "word_of_nat (unat ?r * unat (100 :: uint64) div 2 ^ 64) < tot" by (simp add: word_less_nat_alt unat_of_nat_small)
  then have "fst (bits_Mul64 ?r 100) < tot" by (simp add: bits_Mul64_def)
  then show ?thesis using False by (auto simp: disk_percent_def Let_def bits_Div64_def split: prod.splits)
qed (simp add: disk_percent_def)

lemma bits_Mul64_value: "bits_Mul64 x y = (hi, lo) \<Longrightarrow> unat hi * 2 ^ 64 + unat lo = unat x * unat y"
proof -
  assume m: "bits_Mul64 x y = (hi, lo)"
  have "unat x * unat y < 2 ^ 64 * 2 ^ 64"
    using unsigned_less [of x, where 'a = nat] unsigned_less [of y, where 'a = nat] by (intro mult_strict_mono) simp_all
  then have "unat x * unat y div 2 ^ 64 < 2 ^ 64" by (simp add: div_less_iff_less_mult)
  then have "unat hi = unat x * unat y div 2 ^ 64" using m by (auto simp: bits_Mul64_def unat_of_nat_small)
  moreover have "unat lo = unat x * unat y mod 2 ^ 64" using m by (auto simp: bits_Mul64_def unat_word_ariths)
  ultimately show ?thesis by simp
qed

lemma sint_small: "n < 2 ^ 63 \<Longrightarrow> sint (word_of_nat n :: uint64) = int n"
  by (simp add: sint_uint uint_nat unat_of_nat_small signed_take_bit_int_eq_self)

lemma ceiling_div: "0 < t \<Longrightarrow> (if 0 < n mod t then n div t + 1 else n div t) = (n + t - 1) div (t :: nat)"
proof -
  assume t: "0 < t"
  have n: "n = n div t * t + n mod t" by simp
  show ?thesis
  proof (cases "n mod t = 0")
    case True
    then have "(n + t - 1) div t = (n div t * t + (t - 1)) div t" using n t by (metis add.right_neutral add_diff_assoc Suc_leI One_nat_def)
    also have "\<dots> = n div t" by (subst div_mult_self3) (use t in auto)
    finally show ?thesis using True by simp
  next
    case False
    then have "1 \<le> n mod t" by simp
    then have "n + t - 1 = (n div t * t + t) + (n mod t - 1)" using n by linarith
    also have "n div t * t + t = (n div t + 1) * t" by simp
    finally have "n + t - 1 = (n div t + 1) * t + (n mod t - 1)" .
    moreover have "n mod t - 1 < t" using t by (metis less_imp_diff_less mod_less_divisor)
    ultimately have "(n + t - 1) div t = n div t + 1" by (metis add.commute div_less div_mult_self3 add.right_neutral t not_less0)
    then show ?thesis using False by simp
  qed
qed

lemma disk_percent_below:
  assumes "part < tot"
  shows "disk_percent part tot = Some (int ((100 * unat part + unat tot - 1) div unat tot))"
proof -
  have t: "tot \<noteq> 0" "0 < unat tot" using assms by (auto simp: word_less_nat_alt)
  have l: "unat part < unat tot" using assms by (simp add: word_less_nat_alt)
  then have w: "part div tot = 0" "part mod tot = part" using assms by (simp_all add: word_unat_eq_iff unat_div unat_mod)
  obtain hi lo where m: "bits_Mul64 part 100 = (hi, lo)" by fastforce
  have n: "unat hi * 2 ^ 64 + unat lo = 100 * unat part" using bits_Mul64_value [OF m] by simp
  obtain z where "disk_percent part tot = Some z" using disk_percent_total by blast
  then have "bits_Div64 hi lo tot \<noteq> None" using t w m by (cases "bits_Div64 hi lo tot") (simp_all add: disk_percent_def Let_def)
  then have d: "bits_Div64 hi lo tot = Some (word_of_nat (100 * unat part div unat tot), word_of_nat (100 * unat part mod unat tot))"
    using n by (auto simp: bits_Div64_def Let_def split: if_splits)
  have q: "100 * unat part div unat tot < 100" using l by (simp add: div_less_iff_less_mult [OF t(2)])
  have "100 * unat part mod unat tot < unat tot" using t(2) by simp
  also have "\<dots> < 2 ^ 64" using unsigned_less [of tot, where 'a = nat] by simp
  finally have g: "(0 :: uint64) < word_of_nat (100 * unat part mod unat tot) \<longleftrightarrow> 0 < 100 * unat part mod unat tot"
    by (simp add: word_less_nat_alt unat_of_nat_small)
  have "disk_percent part tot = Some (int (if 0 < 100 * unat part mod unat tot then 100 * unat part div unat tot + 1 else 100 * unat part div unat tot))"
    using t w m d g q sint_small [of "100 * unat part div unat tot"] sint_small [of "100 * unat part div unat tot + 1"]
    by (auto simp: disk_percent_def Let_def add.commute)
  then show ?thesis using ceiling_div [OF t(2)] by simp
qed

lemma ceiling_bounds: "0 < t \<Longrightarrow> n \<le> (n + t - 1) div t * t \<and> (n + t - 1) div t * t < n + (t :: nat)"
proof -
  assume t: "0 < t"
  have e: "n + t - 1 = (n + t - 1) div t * t + (n + t - 1) mod t" by simp
  have "(n + t - 1) mod t < t" using t by simp
  then show ?thesis using e t by linarith
qed

lemma disk_percent_covers:
  assumes "part \<le> tot" "tot \<noteq> 0"
  shows "\<exists>z. disk_percent part tot = Some (int z) \<and> z \<le> 100 \<and> 100 * unat part \<le> z * unat tot \<and> z * unat tot < 100 * unat part + unat tot"
proof (cases "part = tot")
  case True
  have "disk_percent tot tot = Some 100"
  proof -
    have w: "tot div tot = 1" "tot mod tot = 0" using assms(2) by (simp_all add: word_unat_eq_iff unat_div unat_mod)
    show ?thesis unfolding disk_percent_def Let_def w using assms(2) by (simp add: bits_Mul64_def bits_Div64_def word_less_nat_alt)
  qed
  then show ?thesis using True assms(2) by (intro exI [of _ 100]) (simp add: unat_gt_0)
next
  case False
  then have l: "part < tot" using assms(1) by simp
  then have t: "0 < unat tot" "unat part < unat tot" by (auto simp: word_less_nat_alt)
  let ?z = "(100 * unat part + unat tot - 1) div unat tot"
  have b: "100 * unat part \<le> ?z * unat tot" "?z * unat tot < 100 * unat part + unat tot" using ceiling_bounds [OF t(1)] by blast+
  have "100 * unat part + unat tot \<le> 101 * unat tot" using t(2) by simp
  then have "?z * unat tot < 101 * unat tot" using b(2) by linarith
  then have "?z < 101" by (simp add: t(1))
  then show ?thesis using disk_percent_below [OF l] b by auto
qed

text \<open>The space a loop file on the same device leaves for the host.\<close>

definition usable_total :: "uint64 \<Rightarrow> uint64 \<Rightarrow> uint64" where
  "usable_total tot loopAllocated = (if loopAllocated = 0 \<or> loopAllocated \<ge> tot then tot else tot - loopAllocated)"

text \<open>The usable free percentage is exact and never panics. For any sizes with no more available than there is in total, the
  128 bit division never overflows, the result is a percentage between zero and one hundred, and it is the least integer
  percentage that covers the available share of the space outside the loop file, all of it at most.\<close>

theorem usable_percent_exact:
  assumes "available \<le> tot" "tot \<noteq> 0"
  shows "\<exists>z. UsableFreePercent tot available loopAllocated = Some (int z) \<and> z \<le> 100
    \<and> (let usable = unat (usable_total tot loopAllocated); free = min (unat available) usable
        in 100 * free \<le> z * usable \<and> z * usable < 100 * free + usable)"
proof (cases "loopAllocated = 0 \<or> loopAllocated \<ge> tot")
  case True
  then show ?thesis using disk_percent_covers [OF assms] assms(1)
    by (auto simp: UsableFreePercent_def usable_total_def Let_def min_absorb1 word_le_nat_alt)
next
  case False
  then have s: "unat (tot - loopAllocated) = unat tot - unat loopAllocated" "0 < unat (tot - loopAllocated)"
    by (auto simp: unat_sub word_le_nat_alt not_le)
  show ?thesis
  proof (cases "available \<ge> tot - loopAllocated")
    case True
    then show ?thesis using False s by (intro exI [of _ 100]) (auto simp: UsableFreePercent_def usable_total_def Let_def min_absorb2 word_le_nat_alt)
  next
    case Below: False
    then have "available \<le> tot - loopAllocated" "tot - loopAllocated \<noteq> 0" using s by auto
    from disk_percent_covers [OF this] False Below show ?thesis
      by (auto simp: UsableFreePercent_def usable_total_def Let_def min_absorb1 word_le_nat_alt)
  qed
qed

theorem usable_percent_exact_witness: "\<exists>z. UsableFreePercent 300 60 180 = Some (int z) \<and> z \<le> 100"
  using usable_percent_exact [of 60 300 180] by (auto simp: Let_def)

end
