(* ===== verification/Pressure_Publish.thy ===== *)
theory Pressure_Publish
  imports Host_Probe Member_Drain Durable_Store
begin

text \<open>
  How a member's pressure gate reaches the cluster: the metadata of a gate and its reader
  (\<open>src/internal/pressuregate/pressure.go\<close>), one cycle of the publisher (\<open>src/internal/pressurepublish/publish.go\<close>) with the
  state file and the member's configuration, the publisher command with the drain marker, and the gate that a drain closes
  (\<open>src/cmd/gha-fleet/main.go\<close>). The texts of times and floating point numbers are an argument (\<open>codec\<close>); what Go documents
  of them is the hypothesis \<open>codec_ok\<close>.
\<close>

section \<open>Metadata of a cluster member (\<open>pressuregate/pressure.go\<close>)\<close>

definition MetadataSchema :: string where "MetadataSchema = ''user.gha_pressure.schema''"
definition MetadataState :: string where "MetadataState = ''user.gha_pressure.state''"
definition MetadataReason :: string where "MetadataReason = ''user.gha_pressure.reason''"
definition MetadataObservedAt :: string where "MetadataObservedAt = ''user.gha_pressure.observed_at''"
definition MetadataStateSince :: string where "MetadataStateSince = ''user.gha_pressure.state_since''"
definition MetadataCPUSome :: string where "MetadataCPUSome = ''user.gha_pressure.cpu_some_avg10''"
definition MetadataMemoryFull :: string where "MetadataMemoryFull = ''user.gha_pressure.memory_full_avg10''"
definition MetadataIOFull :: string where "MetadataIOFull = ''user.gha_pressure.io_full_avg10''"
definition MetadataOOMKills :: string where "MetadataOOMKills = ''user.gha_pressure.oom_kills_total''"

lemmas metadata_keys = MetadataSchema_def MetadataState_def MetadataReason_def MetadataObservedAt_def MetadataStateSince_def
  MetadataCPUSome_def MetadataMemoryFull_def MetadataIOFull_def MetadataOOMKills_def

fun gate_text :: "gate \<Rightarrow> string" where
  "gate_text StateOpen = ''open''"
| "gate_text StateClosed = ''closed''"
| "gate_text (GateOther s) = s"

definition gate_of :: "string \<Rightarrow> gate" where
  "gate_of s = (if s = ''open'' then StateOpen else if s = ''closed'' then StateClosed else GateOther s)"

text \<open>The texts of times (\<open>time.RFC3339Nano\<close>) and of floating point numbers (\<open>strconv\<close>, shortest decimal), with their readers.\<close>

record codec =
  co_format_time :: "time \<Rightarrow> string"
  co_parse_time :: "string \<Rightarrow> time option"
  co_format_float :: "float64 \<Rightarrow> string"
  co_parse_float :: "string \<Rightarrow> float64 option"

text \<open>What Go documents of them: reading a formatted time or number gives it back.\<close>

definition codec_ok :: "codec \<Rightarrow> bool" where
  "codec_ok k \<longleftrightarrow> (\<forall>t. co_parse_time k (co_format_time k t) = Some t) \<and> (\<forall>x. co_parse_float k (co_format_float k x) = Some x)"

definition parse_uint :: "string \<Rightarrow> uint64 option" where
  "parse_uint s = (if s \<noteq> [] \<and> list_all is_digit s \<and> digits_value s < 2 ^ 64 then Some (word_of_int (digits_value s)) else None)"

definition Metadata :: "codec \<Rightarrow> GateState \<Rightarrow> Sample \<Rightarrow> string gomap" where
  "Metadata k g s =
     [(MetadataSchema, format_int pressure_schema), (MetadataState, gate_text (g_State g)), (MetadataReason, g_Reason g),
      (MetadataObservedAt, co_format_time k (s_ObservedAt s)), (MetadataStateSince, co_format_time k (g_StateSince g)),
      (MetadataCPUSome, co_format_float k (s_CPUSomeAvg10 s)), (MetadataMemoryFull, co_format_float k (s_MemoryFullAvg10 s)),
      (MetadataIOFull, co_format_float k (s_IOFullAvg10 s)), (MetadataOOMKills, format_int (uint (s_OOMKillsTotal s)))]"

definition config_value :: "string gomap \<Rightarrow> string \<Rightarrow> string" where
  "config_value m key = (case get m key of None \<Rightarrow> [] | Some v \<Rightarrow> v)"

datatype metadata_error = MetadataSchemaMissing | MetadataTime string | MetadataNumber string | MetadataInvalid pressure_error

definition ParseMetadata :: "codec \<Rightarrow> string gomap \<Rightarrow> Policy \<Rightarrow> time \<Rightarrow> metadata_error + GateState \<times> Sample" where
  "ParseMetadata k values p now =
     (if config_value values MetadataSchema \<noteq> format_int pressure_schema then Inl MetadataSchemaMissing
      else case co_parse_time k (config_value values MetadataObservedAt) of None \<Rightarrow> Inl (MetadataTime MetadataObservedAt)
      | Some observedAt \<Rightarrow> (case co_parse_time k (config_value values MetadataStateSince) of None \<Rightarrow> Inl (MetadataTime MetadataStateSince)
      | Some stateSince \<Rightarrow> (case co_parse_float k (config_value values MetadataCPUSome) of None \<Rightarrow> Inl (MetadataNumber MetadataCPUSome)
      | Some cpu \<Rightarrow> (case co_parse_float k (config_value values MetadataMemoryFull) of None \<Rightarrow> Inl (MetadataNumber MetadataMemoryFull)
      | Some memory \<Rightarrow> (case co_parse_float k (config_value values MetadataIOFull) of None \<Rightarrow> Inl (MetadataNumber MetadataIOFull)
      | Some ioFull \<Rightarrow> (case parse_uint (config_value values MetadataOOMKills) of None \<Rightarrow> Inl (MetadataNumber MetadataOOMKills)
      | Some oom \<Rightarrow>
        (let s = \<lparr>s_ObservedAt = observedAt, s_CPUSomeAvg10 = cpu, s_MemoryFullAvg10 = memory, s_IOFullAvg10 = ioFull, s_OOMKillsTotal = oom\<rparr>;
             g = \<lparr>g_SchemaVersion = pressure_schema, g_State = gate_of (config_value values MetadataState), g_Reason = config_value values MetadataReason,
                  g_StateSince = stateSince, g_ObservedAt = observedAt, g_OOMKillsTotal = oom\<rparr>
         in case sample_Validate s now (mul64 (StaleAfterSeconds p) second) of
              Some e \<Rightarrow> Inl (MetadataInvalid e)
            | None \<Rightarrow> (case state_Validate g of Some e \<Rightarrow> Inl (MetadataInvalid e) | None \<Rightarrow> Inr (g, s)))))))))"

section \<open>Publishing (\<open>pressurepublish/publish.go\<close>)\<close>

record publish_options =
  po_MemberName :: string
  po_StatePathAbs :: bool
  po_Policy :: Policy
  po_Sample :: Sample
  po_Apply :: bool
  po_ForceCloseReason :: string
  po_Now :: time

record publish_result =
  pu_MemberName :: string
  pu_State :: GateState
  pu_Metadata :: "string gomap"
  pu_Scheduler :: string
  pu_Changed :: bool
  pu_Applied :: bool

text \<open>The state file: absent, not a readable private document, or a document; the cluster member as the server returns it; and how
  the calls go.\<close>

datatype gate_file = NoGateFile | BadGateFile | GateFile GateState

record publish_env =
  pe_context :: bool
  pe_client :: bool
  pe_clock :: time
  pe_member :: "(string \<times> string gomap) option"
  pe_update :: bool
  pe_write :: write_outcome

datatype publish_error =
    PublishContext | PublisherIncomplete | GateFileUnreadable | GateFileInvalid pressure_error | GateRefused pressure_error
  | MemberReadFailed | MemberMismatch string | ForeignScheduler string | MemberUpdateFailed | GateFileWriteFailed

definition zero_gate :: GateState where
  "zero_gate = \<lparr>g_SchemaVersion = 0, g_State = GateOther [], g_Reason = [], g_StateSince = 0, g_ObservedAt = 0, g_OOMKillsTotal = 0\<rparr>"

definition loadState :: "gate_file \<Rightarrow> publish_error + GateState" where
  "loadState f =
     (case f of
        NoGateFile \<Rightarrow> Inr zero_gate
      | BadGateFile \<Rightarrow> Inl GateFileUnreadable
      | GateFile g \<Rightarrow> (case state_Validate g of Some e \<Rightarrow> Inl (GateFileInvalid e) | None \<Rightarrow> Inr g))"

definition next_gate :: "publish_options \<Rightarrow> time \<Rightarrow> GateState \<Rightarrow> pressure_error + GateState" where
  "next_gate o' now previous =
     (if po_ForceCloseReason o' \<noteq> [] then ForceClosed previous (po_Sample o') (po_Policy o') now (po_ForceCloseReason o')
      else pressure_Evaluate previous (po_Sample o') (po_Policy o') now)"

definition scheduler_for :: "GateState \<Rightarrow> string" where
  "scheduler_for g = (if g_State g = StateOpen then ''all'' else ''manual'')"

definition heartbeat_due :: "codec \<Rightarrow> publish_options \<Rightarrow> time \<Rightarrow> string gomap \<Rightarrow> bool" where
  "heartbeat_due k o' now config =
     (case co_parse_time k (config_value config MetadataObservedAt) of
        None \<Rightarrow> True
      | Some lastPublished \<Rightarrow> time_sub now lastPublished \<ge> mul64 (HeartbeatSeconds (po_Policy o')) second)"

definition state_changed :: "string gomap \<Rightarrow> string \<Rightarrow> string gomap \<Rightarrow> bool" where
  "state_changed config scheduler metadata \<longleftrightarrow>
     config_value config ''scheduler.instance'' \<noteq> scheduler
     \<or> config_value config MetadataSchema \<noteq> config_value metadata MetadataSchema
     \<or> config_value config MetadataState \<noteq> config_value metadata MetadataState
     \<or> config_value config MetadataReason \<noteq> config_value metadata MetadataReason"

definition new_config :: "string gomap \<Rightarrow> string \<Rightarrow> string gomap \<Rightarrow> string gomap" where
  "new_config config scheduler metadata = fold (\<lambda>(key, v) c. put key v c) metadata (put ''scheduler.instance'' scheduler config)"

text \<open>One cycle: the result, the configuration the member then has (\<^term>\<open>None\<close>: not written) and the state file.\<close>

definition publish_Reconcile :: "codec \<Rightarrow> publish_env \<Rightarrow> publish_options \<Rightarrow> gate_file
    \<Rightarrow> (publish_error + publish_result) \<times> string gomap option \<times> gate_file" where
  "publish_Reconcile k e o' f =
     (if \<not> pe_context e then (Inl PublishContext, None, f)
      else if \<not> pe_client e \<or> po_MemberName o' = [] \<or> \<not> po_StatePathAbs o' then (Inl PublisherIncomplete, None, f)
      else (let now = (if is_zero (po_Now o') then pe_clock e else po_Now o')
            in case loadState f of
                 Inl err \<Rightarrow> (Inl err, None, f)
               | Inr previous \<Rightarrow>
                 (case next_gate o' now previous of
                    Inl err \<Rightarrow> (Inl (GateRefused err), None, f)
                  | Inr g \<Rightarrow>
                    (case pe_member e of
                       None \<Rightarrow> (Inl MemberReadFailed, None, f)
                     | Some (name, config) \<Rightarrow>
                       if name \<noteq> po_MemberName o' then (Inl (MemberMismatch name), None, f)
                       else if config_value config ''scheduler.instance'' \<notin> {[], ''all'', ''manual''}
                       then (Inl (ForeignScheduler (config_value config ''scheduler.instance'')), None, f)
                       else (let scheduler = scheduler_for g; metadata = Metadata k g (po_Sample o');
                                 changed = (state_changed config scheduler metadata \<or> heartbeat_due k o' now config);
                                 result = \<lparr>pu_MemberName = po_MemberName o', pu_State = g, pu_Metadata = metadata, pu_Scheduler = scheduler,
                                           pu_Changed = changed, pu_Applied = False\<rparr>
                             in if \<not> po_Apply o' then (Inr result, None, f)
                                else if changed \<and> \<not> pe_update e then (Inl MemberUpdateFailed, None, f)
                                else (let written = (if changed then Some (new_config config scheduler metadata) else None)
                                      in case publish (pe_write e) GateFileWriteFailed (result\<lparr>pu_Applied := True\<rparr>) f (GateFile g) of
                                           (r, f') \<Rightarrow> (r, written, f')))))))"

section \<open>The publisher command and the gate of a drain (\<open>cmd/gha-fleet/main.go\<close>)\<close>

text \<open>What the command finds: the loaded configuration, the host's name, the drain marker, the host probe and the publisher's calls.\<close>

record publisher_env =
  pb_cfg :: "fleet_config option"
  pb_hostname :: "string option"
  pb_now :: time
  pb_marker :: drain_file
  pb_probe :: "host_probe option"
  pb_connect :: bool
  pb_publish :: publish_env
  pb_print :: bool

definition zero_sample :: "time \<Rightarrow> Sample" where
  "zero_sample now = \<lparr>s_ObservedAt = now, s_CPUSomeAvg10 = F_Fin 0, s_MemoryFullAvg10 = F_Fin 0, s_IOFullAvg10 = F_Fin 0, s_OOMKillsTotal = 0\<rparr>"

definition probe_sample :: "time \<Rightarrow> host_probe \<Rightarrow> Sample" where
  "probe_sample now h =
     \<lparr>s_ObservedAt = now, s_CPUSomeAvg10 = pw_Avg10 (pr_Some (hp_CPU (hs_Pressure h))),
      s_MemoryFullAvg10 = pw_Avg10 (pr_Full (hp_Memory (hs_Pressure h))), s_IOFullAvg10 = pw_Avg10 (pr_Full (hp_IO (hs_Pressure h))),
      s_OOMKillsTotal = hm_OOMKillsTotal (hs_Memory h)\<rparr>"

definition publisher_options :: "fleet_config \<Rightarrow> bool \<Rightarrow> time \<Rightarrow> Sample \<Rightarrow> string \<Rightarrow> publish_options" where
  "publisher_options cfg apply_it now s reason =
     \<lparr>po_MemberName = cl_MemberName (in_Cluster (fc_Incus cfg)), po_StatePathAbs = True, po_Policy = fc_Pressure cfg, po_Sample = s,
      po_Apply = apply_it, po_ForceCloseReason = reason, po_Now = now\<rparr>"

definition publish_cycle :: "codec \<Rightarrow> publisher_env \<Rightarrow> fleet_config \<Rightarrow> bool \<Rightarrow> string \<Rightarrow> Sample \<Rightarrow> gate_file
    \<Rightarrow> int \<times> string gomap option \<times> gate_file" where
  "publish_cycle k e cfg apply_it reason s f =
     (if \<not> pb_connect e then (1, None, f)
      else case publish_Reconcile k (pb_publish e) (publisher_options cfg apply_it (pb_now e) s reason) f of
             (Inl err, written, f') \<Rightarrow> (1, written, f')
           | (Inr r, written, f') \<Rightarrow> (if pb_print e then 0 else 1, written, f'))"

definition runPublishPressure :: "codec \<Rightarrow> publisher_env \<Rightarrow> bool \<Rightarrow> string \<Rightarrow> gate_file \<Rightarrow> int \<times> string gomap option \<times> gate_file" where
  "runPublishPressure k e apply_it forceClose f =
     (case pb_cfg e of
        None \<Rightarrow> (1, None, f)
      | Some cfg \<Rightarrow>
        (let member = cl_MemberName (in_Cluster (fc_Incus cfg))
         in if \<not> cl_Enabled (in_Cluster (fc_Incus cfg)) \<or> member = [] then (1, None, f)
            else if \<not> Required (fc_Pressure cfg) then (1, None, f)
            else if pb_hostname e \<noteq> Some (pf_Host (fc_Platform cfg)) \<or> pb_hostname e \<noteq> Some member then (1, None, f)
            else (case (if forceClose \<noteq> [] then Inr forceClose
                        else case ReadDrainMarker (pb_marker e) of
                               Inl err \<Rightarrow> Inl err
                             | Inr None \<Rightarrow> Inr []
                             | Inr (Some (reason, since)) \<Rightarrow> Inr (''drained: '' @ reason)) of
                    Inl err \<Rightarrow> (1, None, f)
                  | Inr reason \<Rightarrow>
                      if reason \<noteq> [] then publish_cycle k e cfg apply_it reason (zero_sample (pb_now e)) f
                      else (case pb_probe e of
                              None \<Rightarrow> (1, None, f)
                            | Some h \<Rightarrow>
                                if \<not> hp_Available (hs_Pressure h) then (1, None, f)
                                else publish_cycle k e cfg apply_it [] (probe_sample (pb_now e) h) f))))"

text \<open>The gate a drain closes: the publisher, with the drain's reason and the clock's time.\<close>

definition gate_ForceClose :: "codec \<Rightarrow> publish_env \<Rightarrow> fleet_config \<Rightarrow> time \<Rightarrow> string \<Rightarrow> gate_file \<Rightarrow> string option" where
  "gate_ForceClose k e cfg now reason f =
     (case publish_Reconcile k e (publisher_options cfg True now (zero_sample now) reason) f of
        (Inl err, rest) \<Rightarrow> None
      | (Inr r, rest) \<Rightarrow> Some (pu_Scheduler r))"

section \<open>What is published\<close>

lemma digits_value_snoc: "digits_value (s @ [c]) = 10 * digits_value s + (of_char c - 48)"
  by (simp add: digits_value_def)

lemma of_char_digit: "n < 10 \<Longrightarrow> (of_char (char_of (48 + n :: nat)) :: int) = 48 + int n"
proof -
  assume "n < 10"
  then have "(of_char (char_of (48 + n)) :: nat) = 48 + n" by simp
  then have "int (of_char (char_of (48 + n)) :: nat) = 48 + int n" by simp
  then show ?thesis by (simp only: of_nat_of_char)
qed

lemma dec_nat_nonempty: "dec_nat n \<noteq> []"
  by (subst dec_nat.simps) simp

lemma digits_value_dec_nat: "digits_value (dec_nat n) = int n"
proof (induction n rule: dec_nat.induct)
  case (1 n)
  show ?case
  proof (cases "n < 10")
    case True
    then show ?thesis by (simp add: dec_nat.simps [of n] digits_value_def of_char_digit)
  next
    case False
    with "1" have "digits_value (dec_nat (n div 10)) = int (n div 10)" by simp
    moreover have "10 * int (n div 10) + int (n mod 10) = int n" by presburger
    ultimately show ?thesis using False by (simp add: dec_nat.simps [of n] digits_value_snoc of_char_digit)
  qed
qed

lemma is_digit_of_char: "is_digit c \<longleftrightarrow> 48 \<le> (of_char c :: nat) \<and> (of_char c :: nat) \<le> 57"
  by (simp add: is_digit_def less_eq_char_def)

lemma parse_uint_format: "parse_uint (format_int (uint w)) = Some w"
proof -
  have f: "format_int (uint w) = dec_nat (nat (uint w))" by (simp add: format_int_pos)
  have "dec_nat (nat (uint w)) \<noteq> []" by (rule dec_nat_nonempty)
  moreover have "list_all is_digit (dec_nat (nat (uint w)))" using dec_nat_digits by (auto simp: list_all_iff is_digit_of_char)
  ultimately show ?thesis using uint_lt2p [of w] by (simp add: parse_uint_def f digits_value_dec_nat)
qed

lemma gate_of_text: "g = StateOpen \<or> g = StateClosed \<Longrightarrow> gate_of (gate_text g) = g"
  by (auto simp: gate_of_def)

lemma config_value_Metadata:
  "config_value (Metadata k g s) MetadataSchema = format_int pressure_schema"
  "config_value (Metadata k g s) MetadataState = gate_text (g_State g)"
  "config_value (Metadata k g s) MetadataReason = g_Reason g"
  "config_value (Metadata k g s) MetadataObservedAt = co_format_time k (s_ObservedAt s)"
  "config_value (Metadata k g s) MetadataStateSince = co_format_time k (g_StateSince g)"
  "config_value (Metadata k g s) MetadataCPUSome = co_format_float k (s_CPUSomeAvg10 s)"
  "config_value (Metadata k g s) MetadataMemoryFull = co_format_float k (s_MemoryFullAvg10 s)"
  "config_value (Metadata k g s) MetadataIOFull = co_format_float k (s_IOFullAvg10 s)"
  "config_value (Metadata k g s) MetadataOOMKills = format_int (uint (s_OOMKillsTotal s))"
  by (simp_all add: config_value_def Metadata_def metadata_keys)

lemma config_value_put: "config_value (put key v m) key' = (if key = key' then v else config_value m key')"
  by (simp add: config_value_def get_put)

lemma get_fold_puts: "get (fold (\<lambda>(key, v) c. put key v c) ms c0) key = (case get (rev ms) key of Some v \<Rightarrow> Some v | None \<Rightarrow> get c0 key)"
proof (induction ms arbitrary: c0)
  case (Cons m ms)
  then show ?case by (cases m) (simp add: get_put map_of_append map_add_def split: option.splits)
qed simp

lemma config_value_new_config:
  "config_value (new_config config scheduler metadata) key =
     (case get (rev metadata) key of Some v \<Rightarrow> v | None \<Rightarrow> if key = ''scheduler.instance'' then scheduler else config_value config key)"
  by (simp add: new_config_def config_value_def get_fold_puts get_put split: option.splits)

lemma get_rev: "wf_map m \<Longrightarrow> get (rev m) key = get m key"
proof -
  assume w: "wf_map m"
  then have "wf_map (rev m)" by (simp add: wf_map_def keys_def rev_map [symmetric])
  then have "get (rev m) key = Some v \<longleftrightarrow> get m key = Some v" for v using w by (simp add: get_iff_mem)
  then show ?thesis by (metis not_Some_eq)
qed

lemma Metadata_wf: "wf_map (Metadata k g s)"
  by (simp add: wf_map_def keys_def Metadata_def metadata_keys)

lemma Metadata_keys: "fst ` set (Metadata k g s) = {MetadataSchema, MetadataState, MetadataReason, MetadataObservedAt, MetadataStateSince,
    MetadataCPUSome, MetadataMemoryFull, MetadataIOFull, MetadataOOMKills}"
  by (simp add: Metadata_def)

lemma Metadata_get: "get (Metadata k g s) key = None \<longleftrightarrow> key \<notin> fst ` set (Metadata k g s)"
  by (rule map_of_eq_None_iff)

lemma new_config_metadata:
  "key \<in> fst ` set (Metadata k g s) \<Longrightarrow> config_value (new_config config scheduler (Metadata k g s)) key = config_value (Metadata k g s) key"
  using Metadata_get [of k g s key] unfolding config_value_new_config get_rev [OF Metadata_wf]
  by (cases "get (Metadata k g s) key") (simp_all add: config_value_def)

lemma new_config_keeps:
  "key \<notin> fst ` set (Metadata k g s) \<Longrightarrow>
     config_value (new_config config scheduler (Metadata k g s)) key = (if key = ''scheduler.instance'' then scheduler else config_value config key)"
  using Metadata_get [of k g s key] unfolding config_value_new_config get_rev [OF Metadata_wf] by simp

lemma new_config_scheduler: "config_value (new_config config scheduler (Metadata k g s)) ''scheduler.instance'' = scheduler"
proof -
  have "''scheduler.instance'' \<notin> fst ` set (Metadata k g s)" unfolding Metadata_keys by (simp add: metadata_keys)
  then show ?thesis by (simp add: new_config_keeps)
qed

lemma ParseMetadata_new_config:
  "ParseMetadata k (new_config config scheduler (Metadata k g s)) p now = ParseMetadata k (Metadata k g s) p now"
proof -
  note v = new_config_metadata [where k = k and g = g and s = s, unfolded Metadata_keys]
  have e: "config_value (new_config config scheduler (Metadata k g s)) MetadataSchema = config_value (Metadata k g s) MetadataSchema"
    "config_value (new_config config scheduler (Metadata k g s)) MetadataState = config_value (Metadata k g s) MetadataState"
    "config_value (new_config config scheduler (Metadata k g s)) MetadataReason = config_value (Metadata k g s) MetadataReason"
    "config_value (new_config config scheduler (Metadata k g s)) MetadataObservedAt = config_value (Metadata k g s) MetadataObservedAt"
    "config_value (new_config config scheduler (Metadata k g s)) MetadataStateSince = config_value (Metadata k g s) MetadataStateSince"
    "config_value (new_config config scheduler (Metadata k g s)) MetadataCPUSome = config_value (Metadata k g s) MetadataCPUSome"
    "config_value (new_config config scheduler (Metadata k g s)) MetadataMemoryFull = config_value (Metadata k g s) MetadataMemoryFull"
    "config_value (new_config config scheduler (Metadata k g s)) MetadataIOFull = config_value (Metadata k g s) MetadataIOFull"
    "config_value (new_config config scheduler (Metadata k g s)) MetadataOOMKills = config_value (Metadata k g s) MetadataOOMKills"
    by (rule v; blast)+
  show ?thesis unfolding ParseMetadata_def e ..
qed

lemma ParseMetadata_Metadata:
  assumes "codec_ok k" "sample_Validate s now (mul64 (StaleAfterSeconds p) second) = None" "state_Validate g = None"
    "g_ObservedAt g = s_ObservedAt s" "g_OOMKillsTotal g = s_OOMKillsTotal s"
  shows "ParseMetadata k (Metadata k g s) p now = Inr (g, s)"
proof -
  have v: "g_SchemaVersion g = pressure_schema" "g_State g = StateOpen \<or> g_State g = StateClosed"
    using assms(3) by (auto simp: state_Validate_def split: if_splits)
  have g: "\<lparr>g_SchemaVersion = pressure_schema, g_State = g_State g, g_Reason = g_Reason g, g_StateSince = g_StateSince g,
      g_ObservedAt = s_ObservedAt s, g_OOMKillsTotal = s_OOMKillsTotal s\<rparr> = g" using v(1) assms(4,5) by (cases g) simp
  have s: "\<lparr>s_ObservedAt = s_ObservedAt s, s_CPUSomeAvg10 = s_CPUSomeAvg10 s, s_MemoryFullAvg10 = s_MemoryFullAvg10 s,
      s_IOFullAvg10 = s_IOFullAvg10 s, s_OOMKillsTotal = s_OOMKillsTotal s\<rparr> = s" by (cases s) simp
  show ?thesis using assms(1,2,3) unfolding ParseMetadata_def config_value_Metadata parse_uint_format gate_of_text [OF v(2)]
    by (simp add: codec_ok_def Let_def g s)
qed

text \<open>The gate state that a cycle may continue from: none yet, or a valid one that does not start in the future.\<close>

definition continues :: "GateState \<Rightarrow> time \<Rightarrow> bool" where
  "continues previous now \<longleftrightarrow> previous = zero_gate \<or> state_Validate previous = None \<and> g_StateSince previous \<le> now + second"

lemma ForceClosed_ok:
  assumes "ForceClosed previous s p now why = Inr g" "s_ObservedAt s = now" "\<not> is_zero now" "continues previous now"
  shows "state_Validate g = None \<and> g_ObservedAt g = now \<and> g_OOMKillsTotal g = s_OOMKillsTotal s
    \<and> sample_Validate s now (StaleAfterSeconds p * second) = None \<and> policy_Validate p = None"
proof -
  have c: "policy_Validate p = None" "sample_Validate s now (StaleAfterSeconds p * second) = None" "why \<noteq> []" "g = close_gate previous s now why"
    using assms(1) by (auto simp: ForceClosed_def then_check_None_iff split: option.splits if_splits)
  have "state_Validate g = None"
    using assms(2,3,4) c(3) unfolding c(4) continues_def
    by (auto simp: state_Validate_def close_gate_def observed_def zero_gate_def second_def split: if_splits)
  then show ?thesis using c assms(2) by (auto simp: close_gate_def observed_def)
qed

lemma pressure_Evaluate_ok:
  assumes "pressure_Evaluate previous s p now = Inr g" "s_ObservedAt s = now" "\<not> is_zero now" "continues previous now"
  shows "state_Validate g = None \<and> g_ObservedAt g = now \<and> g_OOMKillsTotal g = s_OOMKillsTotal s
    \<and> sample_Validate s now (StaleAfterSeconds p * second) = None \<and> policy_Validate p = None"
proof -
  have c: "policy_Validate p = None" "sample_Validate s now (StaleAfterSeconds p * second) = None"
    using assms(1) by (auto simp: pressure_Evaluate_def then_check_None_iff split: option.splits)
  define g0 where "g0 = (if gate_known previous then previous else initial_gate s now)"
  have g0: "g_SchemaVersion g0 = pressure_schema" "g_State g0 = StateOpen \<or> g_State g0 = StateClosed" "g_StateSince g0 \<noteq> 0" "g_StateSince g0 \<le> now + second"
    using assms(3,4) by (auto simp: g0_def continues_def gate_known_def initial_gate_def zero_gate_def state_Validate_def is_zero_def second_def split: if_splits)
  consider why where "why \<noteq> []" "g = close_gate g0 s now why" | why where "why \<noteq> []" "g = observed g0 s why"
    | "g = observed (g0\<lparr>g_State := StateOpen, g_StateSince := now, g_SchemaVersion := pressure_schema\<rparr>) s ''healthy''"
    | "g_State g0 \<noteq> StateClosed" "g = observed (g0\<lparr>g_SchemaVersion := pressure_schema\<rparr>) s ''healthy''"
    using assms(1) c unfolding pressure_Evaluate_def g0_def [symmetric] by (auto simp: then_check_None_iff Let_def split: option.splits if_splits)
  then have "state_Validate g = None \<and> g_ObservedAt g = now \<and> g_OOMKillsTotal g = s_OOMKillsTotal s"
    using g0 assms(2,3) by cases (auto simp: state_Validate_def close_gate_def observed_def is_zero_def second_def)
  then show ?thesis using c by blast
qed

lemma next_gate_ok:
  assumes "next_gate o' now previous = Inr g" "s_ObservedAt (po_Sample o') = now" "\<not> is_zero now" "continues previous now"
  shows "state_Validate g = None \<and> g_ObservedAt g = now \<and> g_OOMKillsTotal g = s_OOMKillsTotal (po_Sample o')
    \<and> sample_Validate (po_Sample o') now (StaleAfterSeconds (po_Policy o') * second) = None \<and> policy_Validate (po_Policy o') = None"
  using assms(1) ForceClosed_ok [OF _ assms(2-4)] pressure_Evaluate_ok [OF _ assms(2-4)] by (simp add: next_gate_def split: if_splits)

lemma publish_Reconcile_applied:
  assumes "publish_Reconcile k e o' f = (Inr r, written, f')" "po_Apply o'" "\<not> is_zero (po_Now o')"
  obtains previous config where "loadState f = Inr previous" "next_gate o' (po_Now o') previous = Inr (pu_State r)" "pe_member e = Some (po_MemberName o', config)"
    "config_value config ''scheduler.instance'' \<in> {[], ''all'', ''manual''}" "pu_Scheduler r = scheduler_for (pu_State r)"
    "written = (if pu_Changed r then Some (new_config config (scheduler_for (pu_State r)) (Metadata k (pu_State r) (po_Sample o'))) else None)"
    "pu_Changed r \<longleftrightarrow> state_changed config (scheduler_for (pu_State r)) (Metadata k (pu_State r) (po_Sample o')) \<or> heartbeat_due k o' (po_Now o') config"
    "f' = GateFile (pu_State r)"
  using assms
  by (auto simp: publish_Reconcile_def Let_def publish_def split: if_splits sum.splits option.splits prod.splits write_outcome.splits)

lemma loadState_continues:
  assumes "loadState f = Inr previous" "\<And>g. f = GateFile g \<Longrightarrow> g_StateSince g \<le> now + second"
  shows "continues previous now"
  using assms by (auto simp: loadState_def continues_def split: gate_file.splits option.splits)

text \<open>What a cycle publishes is what admission reads. After an applied cycle on a clock that did not step back behind the
  last transition, the state file holds the new gate state and is accepted by the next cycle; the member is schedulable
  exactly when that gate is open; and whenever the member's metadata was written, reading it back gives exactly the gate
  state and the sample, so the publisher and the admission never disagree.\<close>

theorem published_state_readable:
  assumes "codec_ok k" "publish_Reconcile k e o' f = (Inr r, written, f')" "po_Apply o'"
    "\<not> is_zero (po_Now o')" "s_ObservedAt (po_Sample o') = po_Now o'" "\<And>g. f = GateFile g \<Longrightarrow> g_StateSince g \<le> po_Now o' + second"
  shows "f' = GateFile (pu_State r) \<and> loadState f' = Inr (pu_State r)
    \<and> (case written of
         None \<Rightarrow> \<not> pu_Changed r
       | Some config \<Rightarrow> ParseMetadata k config (po_Policy o') (po_Now o') = Inr (pu_State r, po_Sample o')
           \<and> (config_value config ''scheduler.instance'' = ''all'' \<longleftrightarrow> g_State (pu_State r) = StateOpen)
           \<and> (config_value config ''scheduler.instance'' = ''manual'' \<longleftrightarrow> g_State (pu_State r) = StateClosed))"
proof -
  obtain previous config where p: "loadState f = Inr previous" "next_gate o' (po_Now o') previous = Inr (pu_State r)"
      "written = (if pu_Changed r then Some (new_config config (scheduler_for (pu_State r)) (Metadata k (pu_State r) (po_Sample o'))) else None)"
      "f' = GateFile (pu_State r)"
    using publish_Reconcile_applied [OF assms(2,3,4)] by metis
  have "continues previous (po_Now o')" using loadState_continues [OF p(1)] assms(6) by blast
  from next_gate_ok [OF p(2) assms(5,4) this]
  have g: "state_Validate (pu_State r) = None" "g_ObservedAt (pu_State r) = s_ObservedAt (po_Sample o')"
      "g_OOMKillsTotal (pu_State r) = s_OOMKillsTotal (po_Sample o')"
      "sample_Validate (po_Sample o') (po_Now o') (StaleAfterSeconds (po_Policy o') * second) = None" "policy_Validate (po_Policy o') = None"
    using assms(5) by auto
  have stale: "mul64 (StaleAfterSeconds (po_Policy o')) second = StaleAfterSeconds (po_Policy o') * second"
    using g(5) by (intro mul64_exact) (auto simp: policy_Validate_def zero_policy_def in_int64_def second_def split: if_splits)
  have parse: "ParseMetadata k (Metadata k (pu_State r) (po_Sample o')) (po_Policy o') (po_Now o') = Inr (pu_State r, po_Sample o')"
    using ParseMetadata_Metadata [OF assms(1) _ g(1,2,3), where p = "po_Policy o'" and now = "po_Now o'", unfolded stale] g(4) by blast
  have known: "g_State (pu_State r) = StateOpen \<or> g_State (pu_State r) = StateClosed"
    using g(1) by (auto simp: state_Validate_def split: if_splits)
  show ?thesis using p(3,4) g(1) parse known
    by (auto simp: loadState_def ParseMetadata_new_config new_config_scheduler scheduler_for_def)
qed

lemma publish_Reconcile_refused:
  assumes "\<And>now previous. \<exists>err. next_gate o' now previous = Inl err"
  shows "\<exists>err. publish_Reconcile k e o' f = (Inl err, None, f)"
proof (cases "loadState f")
  case (Inr previous)
  obtain err where "next_gate o' (if is_zero (po_Now o') then pe_clock e else po_Now o') previous = Inl err" using assms by blast
  then show ?thesis using Inr by (simp add: publish_Reconcile_def Let_def)
qed (simp add: publish_Reconcile_def Let_def)

lemma long_reason_refused: "64 < length (po_ForceCloseReason o') \<Longrightarrow> \<exists>err. publish_Reconcile k e o' f = (Inl err, None, f)"
  by (rule publish_Reconcile_refused) (auto simp: next_gate_def ForceClosed_def split: option.splits)

lemma long_marker_refused:
  assumes "55 < length reason"
  shows "runPublishPressure k (e\<lparr>pb_marker := Marker reason since\<rparr>) apply_it [] f = (1, None, f)"
proof -
  have refused: "\<exists>err. publish_Reconcile k (pb_publish e) (publisher_options cfg apply_it now s (''drained: '' @ reason)) f = (Inl err, None, f)" for cfg now s
    using assms by (intro long_reason_refused) (simp add: publisher_options_def)
  have "publish_cycle k e' cfg apply_it (''drained: '' @ reason) s f = (1, None, f)" if "pb_publish e' = pb_publish e" for cfg s e'
  proof -
    obtain err where "publish_Reconcile k (pb_publish e) (publisher_options cfg apply_it (pb_now e') s (''drained: '' @ reason)) f = (Inl err, None, f)"
      using refused by blast
    then show ?thesis using that by (simp add: publish_cycle_def)
  qed
  then show ?thesis using assms by (auto simp: runPublishPressure_def ReadDrainMarker_def Let_def split: option.splits)
qed

text \<open>A long drain reason stops the publisher. The publisher closes a drained member with the marker's reason behind a prefix of
  nine bytes, and a forced close accepts 64 bytes: once a marker of more than 55 bytes stands, every cycle fails and
  publishes nothing, whatever the host, the cluster and the clock, although the drain itself accepts such a reason.\<close>

theorem long_marker_stops_publisher:
  assumes "55 < length reason"
  shows "runPublishPressure k (e\<lparr>pb_marker := Marker reason since\<rparr>) apply_it [] f = (1, None, f)"
  using long_marker_refused [OF assms] .

section \<open>A cycle on the example host\<close>

definition parse_int :: "string \<Rightarrow> int" where
  "parse_int s = (if s \<noteq> [] \<and> hd s = CHR ''-'' then - digits_value (tl s) else digits_value s)"

lemma parse_int_format: "parse_int (format_int z) = z"
proof -
  have "hd (dec_nat n) \<noteq> CHR ''-''" for n
  proof
    assume "hd (dec_nat n) = CHR ''-''"
    then have "CHR ''-'' \<in> set (dec_nat n)" by (metis dec_nat_nonempty hd_in_set)
    then show False using dec_nat_digits [of "CHR ''-''" n] by simp
  qed
  then show ?thesis by (simp add: parse_int_def format_int_def digits_value_dec_nat dec_nat_nonempty)
qed

definition demo_format_float :: "float64 \<Rightarrow> string" where
  "demo_format_float x = (case x of F_NaN \<Rightarrow> ''NaN'' | F_NegInf \<Rightarrow> ''-Inf'' | F_PosInf \<Rightarrow> ''+Inf''
     | F_Fin q \<Rightarrow> (case quotient_of q of (a, b) \<Rightarrow> format_int a @ ''/'' @ format_int b))"

definition demo_parse_float :: "string \<Rightarrow> float64 option" where
  "demo_parse_float s = (if s = ''NaN'' then Some F_NaN else if s = ''-Inf'' then Some F_NegInf else if s = ''+Inf'' then Some F_PosInf
     else case split_on CHR ''/'' s of [a, b] \<Rightarrow> Some (F_Fin (of_int (parse_int a) / of_int (parse_int b))) | _ \<Rightarrow> None)"

definition demo_codec :: codec where
  "demo_codec = \<lparr>co_format_time = format_int, co_parse_time = (\<lambda>s. Some (parse_int s)), co_format_float = demo_format_float,
     co_parse_float = demo_parse_float\<rparr>"

lemma slash_not_in_format: "CHR ''/'' \<notin> set (format_int z)"
  using dec_nat_digits [of "CHR ''/''"] by (auto simp: format_int_def)

lemma demo_codec_ok: "codec_ok demo_codec"
proof -
  have "demo_parse_float (demo_format_float x) = Some x" for x
  proof (cases x)
    case (F_Fin q)
    obtain a b where ab: "quotient_of q = (a, b)" by fastforce
    then have s: "split_on CHR ''/'' (demo_format_float x) = [format_int a, format_int b]"
      using F_Fin by (simp add: demo_format_float_def split_on_Cons_sep slash_not_in_format)
    then have "demo_format_float x \<notin> {''NaN'', ''-Inf'', ''+Inf''}" by auto
    then show ?thesis using s ab F_Fin quotient_of_div [OF ab] by (simp add: demo_parse_float_def parse_int_format)
  qed (simp_all add: demo_parse_float_def demo_format_float_def)
  then show ?thesis by (simp add: codec_ok_def demo_codec_def parse_int_format)
qed

definition demo_publish_env :: publish_env where
  "demo_publish_env = \<lparr>pe_context = True, pe_client = True, pe_clock = 0, pe_member = Some (''example-runner-1'', [(''scheduler.instance'', ''all'')]),
     pe_update = True, pe_write = WriteOk\<rparr>"

definition demo_publish_options :: publish_options where
  "demo_publish_options = publisher_options demo_fleet True (100) (zero_sample (100)) ''drained: kernel update''"

theorem published_state_readable_witness:
  "\<exists>r config. publish_Reconcile demo_codec demo_publish_env demo_publish_options NoGateFile = (Inr r, Some config, GateFile (pu_State r))
     \<and> ParseMetadata demo_codec config (fc_Pressure demo_fleet) (100) = Inr (pu_State r, zero_sample (100))"
proof -
  have "case publish_Reconcile demo_codec demo_publish_env demo_publish_options NoGateFile of (Inr r, Some config, f) \<Rightarrow> True | _ \<Rightarrow> False" by code_simp
  then obtain r config f where r: "publish_Reconcile demo_codec demo_publish_env demo_publish_options NoGateFile = (Inr r, Some config, f)"
    by (auto split: prod.split_asm sum.split_asm option.split_asm)
  have o: "po_Apply demo_publish_options" "\<not> is_zero (po_Now demo_publish_options)"
      "s_ObservedAt (po_Sample demo_publish_options) = po_Now demo_publish_options" "po_Now demo_publish_options = 100"
      "po_Sample demo_publish_options = zero_sample (100)" "po_Policy demo_publish_options = fc_Pressure demo_fleet"
    by (simp_all add: demo_publish_options_def publisher_options_def zero_sample_def is_zero_def)
  show ?thesis using published_state_readable [OF demo_codec_ok r o(1,2,3)] r o(4,5,6) by auto
qed

definition demo_publisher_env :: publisher_env where
  "demo_publisher_env = \<lparr>pb_cfg = Some demo_fleet, pb_hostname = Some ''example-runner-1'', pb_now = 100, pb_marker = NoMarker, pb_probe = None,
     pb_connect = True, pb_publish = demo_publish_env, pb_print = True\<rparr>"

theorem long_marker_stops_publisher_witness:
  "runPublishPressure demo_codec (demo_publisher_env\<lparr>pb_marker := Marker ''slab-heal: SUnreclaim 4.0 GiB (memcg-attributed) over the 2.0 GiB budget'' 5\<rparr>) True [] NoGateFile
     = (1, None, NoGateFile)"
  using long_marker_stops_publisher [of "''slab-heal: SUnreclaim 4.0 GiB (memcg-attributed) over the 2.0 GiB budget''"] by simp

section \<open>A clock that steps back\<close>

lemma next_gate_same_state:
  assumes "next_gate o' now previous = Inr g" "state_Validate previous = None" "g_State g = g_State previous"
  shows "g_StateSince g = g_StateSince previous \<and> g_ObservedAt g = s_ObservedAt (po_Sample o')"
proof -
  have k: "gate_known previous" using assms(2) by (auto simp: state_Validate_def gate_known_def split: if_splits)
  have "ForceClosed previous s p now why = Inr g \<Longrightarrow> g_StateSince g = g_StateSince previous \<and> g_ObservedAt g = s_ObservedAt s" for s p why
    using assms(3) by (auto simp: ForceClosed_def close_gate_def observed_def split: option.splits)
  moreover have "pressure_Evaluate previous s p now = Inr g \<Longrightarrow> g_StateSince g = g_StateSince previous \<and> g_ObservedAt g = s_ObservedAt s" for s p
    using assms(3) k unfolding pressure_Evaluate_def
    by (auto simp: close_gate_def observed_def Let_def split: option.splits if_splits)
  ultimately show ?thesis using assms(1) by (auto simp: next_gate_def split: if_splits)
qed

text \<open>A clock that steps back wedges the publisher. The publisher saves a gate state without checking it: when the clock reads
  more than a second before the last transition and the gate does not change, the saved state is one that the loader
  refuses, so from then on every cycle of every publisher fails and leaves the file as it is.\<close>

theorem clock_step_wedges_publisher:
  assumes "publish_Reconcile k e o' (GateFile g) = (Inr r, written, f')" "po_Apply o'" "\<not> is_zero (po_Now o')"
    "s_ObservedAt (po_Sample o') = po_Now o'" "po_Now o' + second < g_StateSince g" "g_State (pu_State r) = g_State g"
  shows "(\<exists>err. loadState f' = Inl err) \<and> (\<forall>k2 e2 o2. \<exists>err. publish_Reconcile k2 e2 o2 f' = (Inl err, None, f'))"
proof -
  obtain previous where p: "loadState (GateFile g) = Inr previous" "next_gate o' (po_Now o') previous = Inr (pu_State r)" "f' = GateFile (pu_State r)"
    using publish_Reconcile_applied [OF assms(1,2,3)] by metis
  have v: "previous = g" "state_Validate g = None" using p(1) by (auto simp: loadState_def split: option.splits)
  have "g_StateSince (pu_State r) = g_StateSince g" "g_ObservedAt (pu_State r) = po_Now o'"
    using next_gate_same_state [OF p(2)] v assms(4,6) by auto
  then have "state_Validate (pu_State r) \<noteq> None" using assms(5) by (auto simp: state_Validate_def)
  then obtain err where l: "loadState f' = Inl err" by (auto simp: loadState_def p(3) split: option.splits)
  then have "\<exists>err. publish_Reconcile k2 e2 o2 f' = (Inl err, None, f')" for k2 e2 o2 by (simp add: publish_Reconcile_def Let_def)
  then show ?thesis using l by blast
qed

definition demo_closed_gate :: GateState where
  "demo_closed_gate = \<lparr>g_SchemaVersion = 1, g_State = StateClosed, g_Reason = ''drained: kernel update'', g_StateSince = 5000000000, g_ObservedAt = 5000000000,
     g_OOMKillsTotal = 0\<rparr>"

text \<open>The argument does not depend on the texts; here none is written.\<close>

definition blank_codec :: codec where
  "blank_codec = \<lparr>co_format_time = (\<lambda>t. []), co_parse_time = (\<lambda>s. None), co_format_float = (\<lambda>x. []), co_parse_float = (\<lambda>s. None)\<rparr>"

theorem clock_step_wedges_publisher_witness:
  "\<exists>r written f'. publish_Reconcile blank_codec demo_publish_env demo_publish_options (GateFile demo_closed_gate) = (Inr r, written, f') \<and> (\<exists>err. loadState f' = Inl err)"
proof -
  have "case publish_Reconcile blank_codec demo_publish_env demo_publish_options (GateFile demo_closed_gate) of
      (Inr r, written, f') \<Rightarrow> pe_write demo_publish_env = WriteOk \<and> g_State (pu_State r) = StateClosed | _ \<Rightarrow> False"
    by code_simp
  then obtain r written f' where r: "publish_Reconcile blank_codec demo_publish_env demo_publish_options (GateFile demo_closed_gate) = (Inr r, written, f')"
      "g_State (pu_State r) = StateClosed"
    by (auto split: prod.split_asm sum.split_asm)
  have o: "po_Apply demo_publish_options" "\<not> is_zero (po_Now demo_publish_options)"
      "s_ObservedAt (po_Sample demo_publish_options) = po_Now demo_publish_options" "po_Now demo_publish_options + second < g_StateSince demo_closed_gate"
      "g_State demo_closed_gate = StateClosed"
    by (simp_all add: demo_publish_options_def publisher_options_def zero_sample_def is_zero_def demo_closed_gate_def second_def)
  show ?thesis using clock_step_wedges_publisher [OF r(1) o(1-4)] r o(5) by auto
qed

end
