(* ===== verification/Slab_Heal.thy ===== *)
theory Slab_Heal
  imports Pressure_Publish
begin

text \<open>
  The slab healer: the counters it reads and its decision (\<open>src/internal/slabheal/slabheal.go\<close>) and the command that drains the
  member and asks for a reboot (\<open>runSlabHeal\<close> in \<open>src/cmd/gha-fleet/main.go\<close>), composed of the drain of Member_Drain and of the
  gate of Pressure_Publish. The composition shows that the drain's reason never fits the gate.
\<close>

section \<open>Reading the kernel's counters\<close>

text \<open>\<open>bufio.Scanner\<close> over a text: lines without their terminator, stopping at one of 64 KiB; a reader that fails has delivered
  its text first; and \<open>strings.Fields\<close>.\<close>

definition drop_cr :: "string \<Rightarrow> string" where
  "drop_cr l = (if l \<noteq> [] \<and> last l = CHR 0x0D then butlast l else l)"

definition scan_lines :: "string \<Rightarrow> string list \<times> bool" where
  "scan_lines s =
     (let raw = split_on (CHR 0x0A) s; raw = (if last raw = [] then butlast raw else raw);
          short = takeWhile (\<lambda>l. int (length l) < 65536) raw
      in (map drop_cr short, length short < length raw))"

fun split_word :: "string \<Rightarrow> string \<times> string" where
  "split_word [] = ([], [])"
| "split_word (c # cs) =
     (if list_ex (has_prefix (c # cs)) white_spaces then ([], c # cs)
      else (let (w, rest) = split_word cs in (c # w, rest)))"

fun fields_upto :: "nat \<Rightarrow> string \<Rightarrow> string list" where
  "fields_upto 0 s = []"
| "fields_upto (Suc n) s =
     (let t = trim_left (length s) s
      in if t = [] then [] else (let (w, rest) = split_word t in w # fields_upto n rest))"

definition string_fields :: "string \<Rightarrow> string list" where "string_fields s = fields_upto (Suc (length s)) s"

section \<open>The decision (\<open>slabheal/slabheal.go\<close>)\<close>

datatype slab_error = SlabMalformed string | SlabReadFailed | SlabLineMissing

text \<open>A reader is its text and whether reading failed after it.\<close>

fun attributed_scan :: "string list \<Rightarrow> (slab_error + uint64) option" where
  "attributed_scan [] = None"
| "attributed_scan (l # ls) =
     (case string_fields l of
        [k, v] \<Rightarrow>
          if k = ''slab_unreclaimable''
          then Some (case parse_uint v of None \<Rightarrow> Inl (SlabMalformed v) | Some n \<Rightarrow> Inr n)
          else attributed_scan ls
      | _ \<Rightarrow> attributed_scan ls)"

definition ParseAttributedSlabUnreclaimable :: "string \<times> bool \<Rightarrow> slab_error + uint64" where
  "ParseAttributedSlabUnreclaimable r =
     (case scan_lines (fst r) of (ls, tooLong) \<Rightarrow>
        (case attributed_scan ls of
           Some result \<Rightarrow> result
         | None \<Rightarrow> if snd r \<or> tooLong then Inl SlabReadFailed else Inl SlabLineMissing))"

fun counter_scan :: "string list \<Rightarrow> (slab_error + uint64) option" where
  "counter_scan [] = None"
| "counter_scan (l # ls) =
     (if \<not> has_prefix l ''SUnreclaim:'' then counter_scan ls
      else case string_fields l of
             _ # v # _ \<Rightarrow> Some (case parse_uint v of None \<Rightarrow> Inl (SlabMalformed v) | Some kib \<Rightarrow> Inr (kib * 1024))
           | _ \<Rightarrow> Some (Inl (SlabMalformed l)))"

definition ParseSUnreclaim :: "string \<times> bool \<Rightarrow> slab_error + uint64" where
  "ParseSUnreclaim r =
     (case scan_lines (fst r) of (ls, tooLong) \<Rightarrow>
        (case counter_scan ls of
           Some result \<Rightarrow> result
         | None \<Rightarrow> if snd r \<or> tooLong then Inl SlabReadFailed else Inl SlabLineMissing))"

definition PreferAttributed :: "uint64 \<Rightarrow> bool \<Rightarrow> uint64 \<Rightarrow> uint64 \<times> string" where
  "PreferAttributed attributed attributedOK counter =
     (if attributedOK then (attributed, ''memcg-attributed'') else (counter, ''meminfo-counter''))"

record Facts =
  fa_SUnreclaimBytes :: uint64
  fa_ThresholdBytes :: uint64
  fa_SelfState :: string
  fa_OtherStates :: "string gomap"
  fa_NonWarmOccupants :: int
  fa_LastHealAt :: time
  fa_Cooldown :: duration
  fa_Now :: time

text \<open>The reason of a decision, with the values its text prints.\<close>

datatype heal_reason =
    ThresholdZero | WithinBudget uint64 uint64 | OwnGateClosed string | MemberGateClosed string string | Occupied int
  | InsideCooldown duration duration | ExceedsBudget uint64 uint64

record heal_decision =
  he_Heal :: bool
  he_Reason :: heal_reason

definition Decide :: "Facts \<Rightarrow> heal_decision" where
  "Decide f =
     (let no = (\<lambda>why. \<lparr>he_Heal = False, he_Reason = why\<rparr>)
      in if fa_ThresholdBytes f = 0 then no ThresholdZero
         else if fa_SUnreclaimBytes f \<le> fa_ThresholdBytes f then no (WithinBudget (fa_SUnreclaimBytes f) (fa_ThresholdBytes f))
         else if fa_SelfState f \<noteq> ''open'' then no (OwnGateClosed (fa_SelfState f))
         else case find (\<lambda>m. snd m \<noteq> ''open'') (fa_OtherStates f) of
           Some (member, state) \<Rightarrow> no (MemberGateClosed member state)
         | None \<Rightarrow>
             if fa_NonWarmOccupants f > 0 then no (Occupied (fa_NonWarmOccupants f))
             else if \<not> is_zero (fa_LastHealAt f) \<and> time_sub (fa_Now f) (fa_LastHealAt f) < fa_Cooldown f
             then no (InsideCooldown (time_sub (fa_Now f) (fa_LastHealAt f)) (fa_Cooldown f))
             else \<lparr>he_Heal = True, he_Reason = ExceedsBudget (fa_SUnreclaimBytes f) (fa_ThresholdBytes f)\<rparr>)"

definition HealReasonPrefix :: string where "HealReasonPrefix = ''slab-heal: ''"

section \<open>The command (\<open>runSlabHeal\<close>)\<close>

text \<open>The gibibytes of a byte count with one decimal, as \<open>%.1f\<close> prints them.\<close>

definition gib_text :: "uint64 \<Rightarrow> string" where
  "gib_text w =
     (let n = 10 * round53 (uint w); q = n div 2 ^ 30; r = n mod 2 ^ 30;
          q = (if r > 2 ^ 29 \<or> (r = 2 ^ 29 \<and> odd q) then q + 1 else q)
      in format_int (q div 10) @ ''.'' @ format_int (q mod 10))"

record slab_options =
  so_TimerUnit :: string
  so_ThresholdBytes :: uint64
  so_Cooldown :: duration
  so_Timeout :: duration
  so_Poll :: duration
  so_RestoreAfterBoot :: bool
  so_Apply :: bool

text \<open>What the command finds: the loaded configuration, the host's name, the connection, the drain's dependencies other than the gate,
  the publisher and the state file behind the gate with the time it reads, the drain marker, the two kernel texts, the cluster members with their configuration, the project's instances, the recorded time
  of the last heal (\<^term>\<open>None\<close>: no readable record), the clock, and whether recording the heal, printing and the reboot
  request succeed.\<close>

record slab_env =
  se_cfg :: "fleet_config option"
  se_hostname :: "string option"
  se_connect :: bool
  se_deps :: Deps
  se_codec :: codec
  se_publish :: publish_env
  se_gate_now :: time
  se_gate_file :: gate_file
  se_marker :: drain_file
  se_meminfo :: "(string \<times> bool) option"
  se_memstat :: "(string \<times> bool) option"
  se_members :: "(string \<times> string gomap) list option"
  se_instances :: "incus_instance list option"
  se_lastHeal :: "time option"
  se_now :: time
  se_record :: bool
  se_print :: bool
  se_reboot :: bool

datatype heal_effect = DrainStep effect | HealRecorded time | RebootRequested

definition report :: "slab_env \<Rightarrow> heal_effect list \<Rightarrow> (int \<times> heal_effect list) option" where
  "report e effs = Some (if se_print e then 0 else 1, effs)"

definition restore_after_boot :: "slab_options \<Rightarrow> slab_env \<Rightarrow> string \<Rightarrow> (int \<times> heal_effect list) option" where
  "restore_after_boot o' e member =
     (case ReadDrainMarker (se_marker e) of
        Inl err \<Rightarrow> Some (1, [])
      | Inr None \<Rightarrow> report e []
      | Inr (Some (reason, since)) \<Rightarrow>
          if \<not> has_prefix reason HealReasonPrefix then report e []
          else (case Restore (se_deps e) \<lparr>opt_MemberName = member, opt_Reason = [], opt_TimerUnit = so_TimerUnit o', opt_Timeout = so_Timeout o',
                       opt_Poll = so_Poll o', opt_Apply = so_Apply o', opt_FenceOnly = False\<rparr> of
                  (Inl err, effs) \<Rightarrow> Some (1, map DrainStep effs)
                | (Inr r, effs) \<Rightarrow> report e (map DrainStep effs)))"

definition measured :: "slab_env \<Rightarrow> uint64 \<Rightarrow> uint64 \<times> string" where
  "measured e counter =
     (case se_memstat e of
        None \<Rightarrow> PreferAttributed 0 False counter
      | Some r \<Rightarrow> (case ParseAttributedSlabUnreclaimable r of Inl err \<Rightarrow> PreferAttributed 0 False counter | Inr v \<Rightarrow> PreferAttributed v True counter))"

definition self_state :: "string \<Rightarrow> (string \<times> string gomap) list \<Rightarrow> string" where
  "self_state member ms = fold (\<lambda>(n, c) s. if n = member then config_value c ''user.gha_pressure.state'' else s) ms []"

definition other_states :: "string \<Rightarrow> (string \<times> string gomap) list \<Rightarrow> string gomap" where
  "other_states member ms = fold (\<lambda>(n, c) s. if n = member then s else put n (config_value c ''user.gha_pressure.state'') s) ms []"

definition non_warm :: "string \<Rightarrow> incus_instance list \<Rightarrow> int" where
  "non_warm member is' = int (length (filter (\<lambda>i. i_Location i = member \<and> \<not> has_prefix (i_Name i) ''warm-'') is'))"

definition heal_facts :: "slab_options \<Rightarrow> slab_env \<Rightarrow> string \<Rightarrow> uint64 \<Rightarrow> (string \<times> string gomap) list \<Rightarrow> incus_instance list \<Rightarrow> Facts" where
  "heal_facts o' e member slab ms is' =
     \<lparr>fa_SUnreclaimBytes = slab, fa_ThresholdBytes = so_ThresholdBytes o', fa_SelfState = self_state member ms,
      fa_OtherStates = other_states member ms, fa_NonWarmOccupants = non_warm member is',
      fa_LastHealAt = (case se_lastHeal e of None \<Rightarrow> 0 | Some t \<Rightarrow> t), fa_Cooldown = so_Cooldown o', fa_Now = se_now e\<rparr>"

definition heal_options :: "slab_options \<Rightarrow> string \<Rightarrow> uint64 \<times> string \<Rightarrow> Options" where
  "heal_options o' member m =
     \<lparr>opt_MemberName = member,
      opt_Reason = HealReasonPrefix @ ''SUnreclaim '' @ gib_text (fst m) @ '' GiB ('' @ snd m @ '') over the '' @ gib_text (so_ThresholdBytes o') @ '' GiB budget'',
      opt_TimerUnit = so_TimerUnit o', opt_Timeout = so_Timeout o', opt_Poll = so_Poll o', opt_Apply = True, opt_FenceOnly = False\<rparr>"

text \<open>Drain, record the heal, reboot; a heal that could not be recorded reboots all the same.\<close>

definition heal_deps :: "slab_env \<Rightarrow> fleet_config \<Rightarrow> string \<Rightarrow> Deps" where
  "heal_deps e cfg reason =
     (se_deps e)\<lparr>d_forceClose := gate_ForceClose (se_codec e) (se_publish e) cfg (se_gate_now e) reason (se_gate_file e)\<rparr>"

definition heal :: "slab_options \<Rightarrow> slab_env \<Rightarrow> fleet_config \<Rightarrow> string \<Rightarrow> uint64 \<times> string \<Rightarrow> (int \<times> heal_effect list) option" where
  "heal o' e cfg member m =
     (case Drain (heal_deps e cfg (opt_Reason (heal_options o' member m))) (heal_options o' member m) of
        None \<Rightarrow> None
      | Some (Inl err, effs) \<Rightarrow> Some (1, map DrainStep effs)
      | Some (Inr r, effs) \<Rightarrow>
          if \<not> res_Drained r then Some (1, map DrainStep effs)
          else (let done = map DrainStep effs @ (if se_record e then [HealRecorded (se_now e)] else [])
                in if \<not> se_print e then Some (1, done)
                   else Some (if se_reboot e then 0 else 1, done @ [RebootRequested])))"

definition decide_and_heal :: "slab_options \<Rightarrow> slab_env \<Rightarrow> fleet_config \<Rightarrow> string \<Rightarrow> (int \<times> heal_effect list) option" where
  "decide_and_heal o' e cfg member =
     (case se_meminfo e of
        None \<Rightarrow> Some (1, [])
      | Some meminfo \<Rightarrow>
        (case ParseSUnreclaim meminfo of
           Inl err \<Rightarrow> Some (1, [])
         | Inr counter \<Rightarrow>
           (case se_members e of
              None \<Rightarrow> Some (1, [])
            | Some ms \<Rightarrow>
              (case se_instances e of
                 None \<Rightarrow> Some (1, [])
               | Some is' \<Rightarrow>
                   if \<not> he_Heal (Decide (heal_facts o' e member (fst (measured e counter)) ms is')) \<or> \<not> so_Apply o' then report e []
                   else heal o' e cfg member (measured e counter)))))"

definition runSlabHeal :: "slab_options \<Rightarrow> slab_env \<Rightarrow> (int \<times> heal_effect list) option" where
  "runSlabHeal o' e =
     (case se_cfg e of
        None \<Rightarrow> Some (1, [])
      | Some cfg \<Rightarrow>
          (let cluster = in_Cluster (fc_Incus cfg); member = cl_MemberName cluster
           in if \<not> cl_Enabled cluster \<or> member = [] \<or> \<not> Required (fc_Pressure cfg) then Some (1, [])
              else if se_hostname e \<noteq> Some (pf_Host (fc_Platform cfg)) \<or> se_hostname e \<noteq> Some member then Some (1, [])
              else if \<not> se_connect e then Some (1, [])
              else if so_RestoreAfterBoot o' then restore_after_boot o' e member
              else decide_and_heal o' e cfg member))"

section \<open>When the healer acts\<close>

lemma Decide_heals_iff:
  "he_Heal (Decide f) \<longleftrightarrow> fa_ThresholdBytes f \<noteq> 0 \<and> fa_ThresholdBytes f < fa_SUnreclaimBytes f \<and> fa_SelfState f = ''open''
     \<and> (\<forall>m \<in> set (fa_OtherStates f). snd m = ''open'') \<and> fa_NonWarmOccupants f \<le> 0
     \<and> (fa_LastHealAt f = 0 \<or> fa_Cooldown f \<le> time_sub (fa_Now f) (fa_LastHealAt f))"
  by (auto simp: Decide_def Let_def not_le not_less is_zero_def find_None_iff split: option.splits) (auto simp: find_Some_iff)

lemma get_other_states:
  "get (fold (\<lambda>(n, c) s. if n = member then s else put n (config_value c k) s) ms acc) n
     = (if n = member then get acc n else case map_of (rev ms) n of Some c \<Rightarrow> Some (config_value c k) | None \<Rightarrow> get acc n)"
proof (induction ms arbitrary: acc)
  case (Cons m ms)
  then show ?case by (cases m) (auto simp: map_of_append map_add_def get_put split: option.splits)
qed simp

lemma other_states_open:
  assumes "distinct (map fst ms)" "\<forall>m \<in> set (other_states member ms). snd m = ''open''" "(n, c) \<in> set ms" "n \<noteq> member"
  shows "config_value c ''user.gha_pressure.state'' = ''open''"
proof -
  have "map_of (rev ms) n = Some c" using assms(1,3) by (intro map_of_is_SomeI) (simp_all add: rev_map [symmetric])
  then have "get (other_states member ms) n = Some (config_value c ''user.gha_pressure.state'')"
    using assms(4) by (simp add: other_states_def get_other_states)
  then show ?thesis using assms(2) by (fastforce dest: map_of_SomeD)
qed

text \<open>The guards in terms of what was read: who may be drained at all.\<close>

lemma heal_guards:
  assumes "he_Heal (Decide (heal_facts o' e member slab ms is'))" "distinct (map fst ms)"
  shows "so_ThresholdBytes o' \<noteq> 0 \<and> so_ThresholdBytes o' < slab \<and> self_state member ms = ''open''
    \<and> (\<forall>(n, c) \<in> set ms. n \<noteq> member \<longrightarrow> config_value c ''user.gha_pressure.state'' = ''open'')
    \<and> (\<forall>i \<in> set is'. i_Location i = member \<longrightarrow> has_prefix (i_Name i) ''warm-'')
    \<and> (case se_lastHeal e of None \<Rightarrow> True | Some t \<Rightarrow> t = 0 \<or> so_Cooldown o' \<le> time_sub (se_now e) t)"
proof -
  have g: "so_ThresholdBytes o' \<noteq> 0" "so_ThresholdBytes o' < slab" "self_state member ms = ''open''"
      "\<forall>m \<in> set (other_states member ms). snd m = ''open''" "non_warm member is' \<le> 0"
      "case se_lastHeal e of None \<Rightarrow> True | Some t \<Rightarrow> t = 0 \<or> so_Cooldown o' \<le> time_sub (se_now e) t"
    using assms(1) unfolding Decide_heals_iff by (auto simp: heal_facts_def split: option.splits)
  have "\<forall>i \<in> set is'. i_Location i = member \<longrightarrow> has_prefix (i_Name i) ''warm-''"
    using g(5) by (auto simp: non_warm_def filter_empty_conv)
  then show ?thesis using g other_states_open [OF assms(2) g(4)] by blast
qed

section \<open>The reason does not fit the gate\<close>

lemma format_int_nonempty: "1 \<le> length (format_int z)"
  using dec_nat_nonempty by (auto simp: format_int_def Suc_le_eq)

lemma gib_text_length: "3 \<le> length (gib_text w)"
proof -
  have "3 \<le> length (format_int a @ ''.'' @ format_int b)" for a b
    using format_int_nonempty [of a] format_int_nonempty [of b] by simp
  then show ?thesis unfolding gib_text_def Let_def by blast
qed

lemma measured_source: "snd (measured e counter) = ''memcg-attributed'' \<or> snd (measured e counter) = ''meminfo-counter''"
  by (auto simp: measured_def PreferAttributed_def split: option.splits sum.splits)

lemma heal_reason_length: "64 < length (opt_Reason (heal_options o' member (measured e counter)))"
proof -
  have "15 \<le> length (snd (measured e counter))" using measured_source [of e counter] by auto
  then show ?thesis using gib_text_length [of "fst (measured e counter)"] gib_text_length [of "so_ThresholdBytes o'"]
    by (simp add: heal_options_def HealReasonPrefix_def)
qed

lemma gate_refuses_long: "64 < length reason \<Longrightarrow> gate_ForceClose k e cfg now reason f = None"
  using long_reason_refused [of "publisher_options cfg True now (zero_sample now) reason" k e f]
  by (auto simp: gate_ForceClose_def publisher_options_def)

lemma Drain_gate_refuses:
  assumes "d_forceClose deps = None" "opt_Apply opt"
  shows "\<exists>err effs. Drain deps opt = Some (Inl err, effs) \<and> set effs \<subseteq> {MarkerSet (opt_Reason opt), GateForceClose (opt_Reason opt)}"
proof (cases "prepare deps opt")
  case (Inr opt')
  then have "opt_Reason opt' = opt_Reason opt" "opt_Apply opt'" using normalised_positive [OF prepare_Inr [OF Inr]] assms(2) by auto
  then show ?thesis using assms(1) Inr by (auto simp: Drain_def Let_def)
qed (simp add: Drain_def)

lemma heal_fails:
  "\<exists>steps. heal o' e cfg member (measured e counter) = Some (1, map DrainStep steps)
     \<and> set steps \<subseteq> {MarkerSet (opt_Reason (heal_options o' member (measured e counter))), GateForceClose (opt_Reason (heal_options o' member (measured e counter)))}"
proof -
  let ?opt = "heal_options o' member (measured e counter)"
  have "d_forceClose (heal_deps e cfg (opt_Reason ?opt)) = None"
    using gate_refuses_long [OF heal_reason_length [of o' member e counter]] by (simp add: heal_deps_def)
  moreover have "opt_Apply ?opt" by (simp add: heal_options_def)
  ultimately obtain err steps where "Drain (heal_deps e cfg (opt_Reason ?opt)) ?opt = Some (Inl err, steps)"
      "set steps \<subseteq> {MarkerSet (opt_Reason ?opt), GateForceClose (opt_Reason ?opt)}"
    using Drain_gate_refuses by blast
  then show ?thesis by (auto simp: heal_def)
qed

lemma Restore_no_marker: "Restore deps opt = (r, effs) \<Longrightarrow> MarkerSet reason \<notin> set effs"
  by (auto simp: Restore_def Let_def split: sum.splits if_splits option.splits)

text \<open>C33: The slab healer can never reboot. The reason it gives to the drain is always longer than the 64 bytes that the gate
  accepts, so the close that follows the marker is refused: whatever the command finds, it returns without asking for a
  reboot. Where it got as far as writing the marker it exits with an error and the marker stays, and under that marker
  every later cycle of the pressure publisher fails and publishes nothing.\<close>

theorem slab_heal_never_reboots:
  "case runSlabHeal o' e of
     None \<Rightarrow> False
   | Some (code, effs) \<Rightarrow> RebootRequested \<notin> set effs
       \<and> (\<forall>reason. DrainStep (MarkerSet reason) \<in> set effs \<longrightarrow> code = 1 \<and> DrainStep MarkerClear \<notin> set effs
            \<and> (\<forall>k pe since f. runPublishPressure k (pe\<lparr>pb_marker := Marker reason since\<rparr>) True [] f = (1, None, f)))"
proof (cases "runSlabHeal o' e = Some (1, []) \<or> runSlabHeal o' e = report e []")
  case True
  then show ?thesis by (auto simp: report_def)
next
  case False
  then obtain cfg where cfg: "se_cfg e = Some cfg" by (auto simp: runSlabHeal_def split: option.splits)
  let ?m = "cl_MemberName (in_Cluster (fc_Incus cfg))"
  consider "runSlabHeal o' e = restore_after_boot o' e ?m" | "runSlabHeal o' e = decide_and_heal o' e cfg ?m"
    using False cfg by (auto simp: runSlabHeal_def Let_def split: if_splits)
  then show ?thesis
  proof cases
    case 1
    have "\<exists>code steps deps opt r. restore_after_boot o' e ?m = Some (code, map DrainStep steps) \<and> Restore deps opt = (r, steps)"
      using False 1 unfolding restore_after_boot_def report_def
      by (auto split: sum.splits option.splits prod.splits if_splits)
    then obtain code steps deps opt r where s: "runSlabHeal o' e = Some (code, map DrainStep steps)" "Restore deps opt = (r, steps)" using 1 by metis
    have "DrainStep (MarkerSet reason) \<notin> set (map DrainStep steps)" for reason using Restore_no_marker [OF s(2)] by auto
    then show ?thesis by (auto simp: s(1))
  next
    case 2
    then obtain counter where "runSlabHeal o' e = heal o' e cfg ?m (measured e counter)"
      using False by (auto simp: decide_and_heal_def split: option.splits sum.splits if_splits)
    then obtain steps where s: "runSlabHeal o' e = Some (1, map DrainStep steps)"
        "set steps \<subseteq> {MarkerSet (opt_Reason (heal_options o' ?m (measured e counter))), GateForceClose (opt_Reason (heal_options o' ?m (measured e counter)))}"
      using heal_fails by metis
    have "55 < length reason" if "DrainStep (MarkerSet reason) \<in> set (map DrainStep steps)" for reason
      using that s(2) heal_reason_length [of o' ?m e counter] by auto
    moreover have "DrainStep MarkerClear \<notin> set (map DrainStep steps)" "RebootRequested \<notin> set (map DrainStep steps)" using s(2) by auto
    ultimately show ?thesis using long_marker_refused by (simp add: s(1))
  qed
qed

section \<open>A member that should heal\<close>

definition demo_slab_options :: slab_options where
  "demo_slab_options = \<lparr>so_TimerUnit = DefaultTimerUnit, so_ThresholdBytes = 2147483648, so_Cooldown = 12 * hour, so_Timeout = DefaultTimeout,
     so_Poll = DefaultPoll, so_RestoreAfterBoot = False, so_Apply = True\<rparr>"

definition demo_slab_env :: slab_env where
  "demo_slab_env = \<lparr>se_cfg = Some demo_fleet, se_hostname = Some ''example-runner-1'', se_connect = True, se_deps = sample_deps, se_codec = blank_codec,
     se_publish = demo_publish_env, se_gate_now = 1000 * hour, se_gate_file = NoGateFile, se_marker = NoMarker,
     se_meminfo = Some (''SUnreclaim:  4194304 kB'' @ [CHR 0x0A], False), se_memstat = None,
     se_members = Some [(''example-runner-1'', [(''user.gha_pressure.state'', ''open'')]), (''example-runner-2'', [(''user.gha_pressure.state'', ''open'')])],
     se_instances = Some [\<lparr>i_Name = ''warm-1'', i_Location = ''example-runner-1'', i_Status = ''Running''\<rparr>],
     se_lastHeal = None, se_now = 1000 * hour, se_record = True, se_print = True, se_reboot = True\<rparr>"

definition demo_heal_reason :: string where
  "demo_heal_reason = ''slab-heal: SUnreclaim 4.0 GiB (meminfo-counter) over the 2.0 GiB budget''"

theorem slab_heal_never_reboots_witness:
  "runSlabHeal demo_slab_options demo_slab_env = Some (1, [DrainStep (MarkerSet demo_heal_reason), DrainStep (GateForceClose demo_heal_reason)])
     \<and> runPublishPressure demo_codec (demo_publisher_env\<lparr>pb_marker := Marker demo_heal_reason 0\<rparr>) True [] NoGateFile = (1, None, NoGateFile)"
proof -
  have "runSlabHeal demo_slab_options demo_slab_env = Some (1, [DrainStep (MarkerSet demo_heal_reason), DrainStep (GateForceClose demo_heal_reason)])"
    by code_simp
  then show ?thesis using slab_heal_never_reboots [of demo_slab_options demo_slab_env] by simp
qed

end
