(* ===== verification/Fleet_Host.thy ===== *)
theory Fleet_Host
  imports Slab_Heal Provider_Capacity
begin

text \<open>
  The state of the fleet as the provider reads it (\<open>src/internal/garmproviderincus/provider/cluster.go\<close>): the sum of the online
  members of a cluster, with the worst free disk and pressure of the members whose gate is open, or the probe of a
  standalone host. An admission on that state answers for every member that could receive the worker.
\<close>

section \<open>The state of the fleet (\<open>garmproviderincus/provider/cluster.go\<close>)\<close>

text \<open>What Incus reports of a member: its state is a separate call that may fail.\<close>

record member_space =
  ms_Total :: uint64
  ms_Used :: uint64

record member_state =
  st_TotalRAM :: uint64
  st_FreeRAM :: uint64
  st_BufferRAM :: uint64
  st_StoragePools :: "member_space gomap"

record cluster_member =
  cm_ServerName :: string
  cm_Status :: string
  cm_Config :: "string gomap"
  cm_State :: "member_state option"

definition memberFreeDiskPercent :: "member_state \<Rightarrow> string \<Rightarrow> int" where
  "memberFreeDiskPercent st pool =
     (case get (st_StoragePools st) pool of
        None \<Rightarrow> 0
      | Some space \<Rightarrow>
          if ms_Total space = 0 then 0
          else (let free = ms_Total space - ms_Used space in sint (free * 100 div ms_Total space)))"

text \<open>The built-in \<open>max\<close> of floating point numbers: NaN if either is.\<close>

definition f_max :: "float64 \<Rightarrow> float64 \<Rightarrow> float64" where
  "f_max a b = (if a = F_NaN \<or> b = F_NaN then F_NaN else if f_less a b then b else a)"

definition zero_host :: host_snapshot where
  "zero_host = \<lparr>Healthy = False, TotalCPUUnits = 0, TotalMemoryMiB = 0, AvailableMemoryMiB = 0, AllocatedCPUUnits = 0, AllocatedCPUAllowanceUnits = 0,
     AllocatedMemoryMiB = 0, FreeDiskPercent = 0, PressureAvailable = False, CPUSomeAvg10 = F_Fin 0, MemoryFullAvg10 = F_Fin 0, IOFullAvg10 = F_Fin 0,
     RecentOOMKills = 0\<rparr>"

record cluster_acc =
  ac_snapshot :: host_snapshot
  ac_fallback :: host_snapshot
  ac_online :: int
  ac_eligible :: int
  ac_invalid :: bool

definition add_capacity :: "int \<Rightarrow> int \<Rightarrow> int \<Rightarrow> host_snapshot \<Rightarrow> host_snapshot" where
  "add_capacity cpu memory available h =
     h\<lparr>TotalCPUUnits := add64 (TotalCPUUnits h) cpu, TotalMemoryMiB := add64 (TotalMemoryMiB h) memory,
       AvailableMemoryMiB := add64 (AvailableMemoryMiB h) available\<rparr>"

definition lower_disk :: "int \<Rightarrow> host_snapshot \<Rightarrow> host_snapshot" where
  "lower_disk disk h = (if disk < FreeDiskPercent h then h\<lparr>FreeDiskPercent := disk\<rparr> else h)"

definition raise_pressure :: "Sample \<Rightarrow> host_snapshot \<Rightarrow> host_snapshot" where
  "raise_pressure s h =
     h\<lparr>CPUSomeAvg10 := f_max (CPUSomeAvg10 h) (s_CPUSomeAvg10 s), MemoryFullAvg10 := f_max (MemoryFullAvg10 h) (s_MemoryFullAvg10 s),
       IOFullAvg10 := f_max (IOFullAvg10 h) (s_IOFullAvg10 s)\<rparr>"

text \<open>The gate a member publishes: open with an empty sample where pressure is not required.\<close>

definition member_gate :: "codec \<Rightarrow> Policy \<Rightarrow> time \<Rightarrow> cluster_member \<Rightarrow> metadata_error + gate \<times> Sample" where
  "member_gate k pressure now m =
     (if \<not> Required pressure then Inr (StateOpen, zero_sample 0)
      else case ParseMetadata k (cm_Config m) pressure now of Inl err \<Rightarrow> Inl err | Inr (g, s) \<Rightarrow> Inr (g_State g, s))"

definition memory_mib :: "uint64 \<Rightarrow> int" where "memory_mib bytes = sint (bytes div (1024 * 1024))"

definition member_step :: "codec \<Rightarrow> fleet_config \<Rightarrow> Policy \<Rightarrow> time \<Rightarrow> cluster_member \<Rightarrow> cluster_acc \<Rightarrow> cluster_acc" where
  "member_step k platform pressure now m acc =
     (if cm_Status m \<noteq> ''Online'' then acc
      else
        (let cpu = in_ProjectMaxCPUUnits (fc_Incus platform); declared = in_ProjectMaxMemoryMiB (fc_Incus platform);
             acc = acc\<lparr>ac_online := ac_online acc + 1\<rparr>
         in case cm_State m of
              None \<Rightarrow> acc\<lparr>ac_snapshot := add_capacity cpu declared declared (ac_snapshot acc),
                          ac_fallback := add_capacity cpu declared declared (ac_fallback acc)\<rparr>
            | Some st \<Rightarrow>
                (let memory = memory_mib (st_TotalRAM st); available = memory_mib (st_FreeRAM st + st_BufferRAM st);
                     disk = memberFreeDiskPercent st (in_StoragePool (fc_Incus platform));
                     acc = acc\<lparr>ac_fallback := lower_disk disk (add_capacity cpu memory available (ac_fallback acc)),
                               ac_snapshot := add_capacity cpu memory memory (ac_snapshot acc)\<rparr>
                 in case member_gate k pressure now m of
                      Inl err \<Rightarrow> acc\<lparr>ac_invalid := True\<rparr>
                    | Inr (g, s) \<Rightarrow>
                        if g \<noteq> StateOpen then acc
                        else acc\<lparr>ac_eligible := ac_eligible acc + 1, ac_snapshot := raise_pressure s (lower_disk disk (ac_snapshot acc))\<rparr>)))"

definition cluster_start :: "Policy \<Rightarrow> cluster_acc" where
  "cluster_start pressure = \<lparr>ac_snapshot = zero_host\<lparr>FreeDiskPercent := 100, PressureAvailable := Required pressure\<rparr>,
     ac_fallback = zero_host\<lparr>FreeDiskPercent := 100\<rparr>, ac_online = 0, ac_eligible = 0, ac_invalid = False\<rparr>"

datatype fleet_error = ServerStateFailed | MembersFailed | NoMemberOnline | ProbeFailed

definition clusterHostState :: "codec \<Rightarrow> cluster_member list option \<Rightarrow> fleet_config \<Rightarrow> Policy \<Rightarrow> time \<Rightarrow> fleet_error + host_snapshot" where
  "clusterHostState k listing platform pressure now =
     (case listing of
        None \<Rightarrow> Inl MembersFailed
      | Some members \<Rightarrow>
          (let acc = fold (member_step k platform pressure now) members (cluster_start pressure)
           in if ac_online acc = 0 then Inl NoMemberOnline
              else if Required pressure \<and> ac_eligible acc = 0
              then Inr ((ac_fallback acc)\<lparr>Healthy := False, PressureAvailable := \<not> ac_invalid acc\<rparr>)
              else Inr ((ac_snapshot acc)\<lparr>Healthy := True\<rparr>)))"

definition standalone_host :: "host_probe \<Rightarrow> HostReserve \<Rightarrow> Pool \<Rightarrow> host_snapshot" where
  "standalone_host s reserve pool =
     zero_host\<lparr>Healthy := HealthyForRuntimeAdmission (EvaluateColdPilot s reserve pool), TotalCPUUnits := hc_PhysicalCores (hs_CPU s),
       TotalMemoryMiB := hm_TotalMiB (hs_Memory s), AvailableMemoryMiB := hm_AvailableMiB (hs_Memory s),
       FreeDiskPercent := min (fs_FreePercent (hs_RootFilesystem s)) (fs_FreeInodesPercent (hs_RootFilesystem s)),
       PressureAvailable := hp_Available (hs_Pressure s), CPUSomeAvg10 := pw_Avg10 (pr_Some (hp_CPU (hs_Pressure s))),
       MemoryFullAvg10 := pw_Avg10 (pr_Full (hp_Memory (hs_Pressure s))), IOFullAvg10 := pw_Avg10 (pr_Full (hp_IO (hs_Pressure s)))\<rparr>"

record fleet_env =
  fe_server :: "bool option"
  fe_members :: "cluster_member list option"
  fe_now :: time
  fe_probe :: "host_probe option"

definition fleetHostState :: "codec \<Rightarrow> fleet_env \<Rightarrow> fleet_config \<Rightarrow> Pool \<Rightarrow> Policy \<Rightarrow> fleet_error + host_snapshot" where
  "fleetHostState k e platform pool pressure =
     (case fe_server e of
        None \<Rightarrow> Inl ServerStateFailed
      | Some clustered \<Rightarrow>
          if clustered then clusterHostState k (fe_members e) platform pressure (fe_now e)
          else (case fe_probe e of None \<Rightarrow> Inl ProbeFailed | Some s \<Rightarrow> Inr (standalone_host s (fc_HostReserve platform) pool)))"

section \<open>Members that count\<close>

definition eligible_member :: "codec \<Rightarrow> Policy \<Rightarrow> time \<Rightarrow> cluster_member \<Rightarrow> bool" where
  "eligible_member k pressure now m \<longleftrightarrow>
     cm_Status m = ''Online'' \<and> cm_State m \<noteq> None \<and> (\<exists>s. member_gate k pressure now m = Inr (StateOpen, s))"

lemma member_step_counts:
  "ac_online (member_step k platform pressure now m acc) = ac_online acc + (if cm_Status m = ''Online'' then 1 else 0)"
  "ac_eligible (member_step k platform pressure now m acc) = ac_eligible acc + (if eligible_member k pressure now m then 1 else 0)"
  by (auto simp: member_step_def eligible_member_def Let_def split: option.splits sum.splits prod.splits)

lemma fold_counts:
  "ac_online (fold (member_step k platform pressure now) ms acc) = ac_online acc + int (length (filter (\<lambda>m. cm_Status m = ''Online'') ms))"
  "ac_eligible (fold (member_step k platform pressure now) ms acc) = ac_eligible acc + int (length (filter (eligible_member k pressure now) ms))"
  by (induction ms arbitrary: acc) (simp_all add: member_step_counts)

section \<open>The worst eligible member decides\<close>

lemma f_max_above: "\<not> f_less (f_max a b) a" "\<not> f_less (f_max a b) b"
  by (cases a; cases b; simp add: f_max_def)+

lemma f_max_keeps: "\<not> f_less a x \<Longrightarrow> \<not> f_less (f_max a b) x"
  by (cases a; cases b; cases x) (auto simp: f_max_def)

text \<open>A snapshot that is at least as bad as a member with this free disk and this sample.\<close>

definition covers_member :: "int \<Rightarrow> Sample \<Rightarrow> host_snapshot \<Rightarrow> bool" where
  "covers_member disk s h \<longleftrightarrow> FreeDiskPercent h \<le> disk \<and> \<not> f_less (CPUSomeAvg10 h) (s_CPUSomeAvg10 s)
     \<and> \<not> f_less (MemoryFullAvg10 h) (s_MemoryFullAvg10 s) \<and> \<not> f_less (IOFullAvg10 h) (s_IOFullAvg10 s)"

lemma covers_member_step:
  assumes "covers_member disk s (ac_snapshot acc)"
  shows "covers_member disk s (ac_snapshot (member_step k platform pressure now m acc))"
  using assms
  by (auto simp: member_step_def covers_member_def Let_def add_capacity_def lower_disk_def raise_pressure_def f_max_keeps
      split: option.splits sum.splits prod.splits)

lemma covers_member_fold:
  "covers_member disk s (ac_snapshot acc) \<Longrightarrow> covers_member disk s (ac_snapshot (fold (member_step k platform pressure now) ms acc))"
  by (induction ms arbitrary: acc) (simp_all add: covers_member_step)

lemma member_step_covers:
  assumes "cm_Status m = ''Online''" "cm_State m = Some st" "member_gate k pressure now m = Inr (StateOpen, s)"
  shows "covers_member (memberFreeDiskPercent st (in_StoragePool (fc_Incus platform))) s (ac_snapshot (member_step k platform pressure now m acc))"
  using assms f_max_above
  by (auto simp: member_step_def covers_member_def Let_def add_capacity_def lower_disk_def raise_pressure_def)

lemma cluster_covers:
  assumes "m \<in> set ms" "cm_Status m = ''Online''" "cm_State m = Some st" "member_gate k pressure now m = Inr (StateOpen, s)"
  shows "covers_member (memberFreeDiskPercent st (in_StoragePool (fc_Incus platform))) s (ac_snapshot (fold (member_step k platform pressure now) ms acc))"
proof -
  obtain before after where "ms = before @ m # after" using assms(1) by (meson split_list)
  then show ?thesis using member_step_covers [OF assms(2,3,4)] by (simp add: covers_member_fold)
qed

lemma cluster_healthy_iff:
  assumes "clusterHostState k (Some ms) platform pressure now = Inr h"
  shows "Healthy h \<longleftrightarrow> \<not> Required pressure \<or> (\<exists>m \<in> set ms. eligible_member k pressure now m)"
    and "\<exists>m \<in> set ms. cm_Status m = ''Online''"
    and "Healthy h \<Longrightarrow> h = (ac_snapshot (fold (member_step k platform pressure now) ms (cluster_start pressure)))\<lparr>Healthy := True\<rparr>"
  using assms
  by (auto simp: clusterHostState_def Let_def fold_counts cluster_start_def filter_empty_conv split: if_splits)

lemma Evaluate_admitted_fields:
  assumes "Evaluate h p r = Inr d" "Admitted d"
  shows "Healthy h" "MinimumFreeDiskPercent p \<le> FreeDiskPercent h"
    "RequirePressure p \<Longrightarrow> \<not> f_greater (MemoryFullAvg10 h) (MaxMemoryFullAvg10 p) \<and> \<not> f_greater (CPUSomeAvg10 h) (MaxCPUSomeAvg10 p)
       \<and> \<not> f_greater (IOFullAvg10 h) (MaxIOFullAvg10 p)"
  using assms by (auto simp: Evaluate_def Let_def evaluate_reason_def split: option.splits if_splits)

lemma f_bound_below: "\<not> f_less h s \<Longrightarrow> \<not> f_greater h m \<Longrightarrow> h \<noteq> F_NaN \<Longrightarrow> \<not> f_greater s m"
  by (cases h; cases s; cases m) auto

text \<open>C11: An admission on a cluster answers for every member that could receive the worker. If the admission decision accepts a
  request on the state read from a cluster (with any ledger added to it), then some member is online, under a required
  pressure policy some member has an open gate, and every member with an open gate has the free disk the policy asks
  for and, unless a member published a pressure that is not a number, no pressure above the policy's limits: an idle
  member cannot hide one that is full.\<close>

theorem cluster_admission_worst_member:
  assumes "clusterHostState k (Some ms) platform pressure now = Inr h"
    and "Evaluate (withAllocatedLeasesExcluding h leases excluded) p r = Inr d" "Admitted d"
  shows "(\<exists>m \<in> set ms. cm_Status m = ''Online'') \<and> (Required pressure \<longrightarrow> (\<exists>m \<in> set ms. eligible_member k pressure now m))
    \<and> (\<forall>m \<in> set ms. \<forall>st s. cm_Status m = ''Online'' \<and> cm_State m = Some st \<and> member_gate k pressure now m = Inr (StateOpen, s) \<longrightarrow>
         MinimumFreeDiskPercent p \<le> memberFreeDiskPercent st (in_StoragePool (fc_Incus platform))
         \<and> (RequirePressure p \<and> F_NaN \<notin> {CPUSomeAvg10 h, MemoryFullAvg10 h, IOFullAvg10 h} \<longrightarrow>
              \<not> f_greater (s_CPUSomeAvg10 s) (MaxCPUSomeAvg10 p) \<and> \<not> f_greater (s_MemoryFullAvg10 s) (MaxMemoryFullAvg10 p)
              \<and> \<not> f_greater (s_IOFullAvg10 s) (MaxIOFullAvg10 p)))"
proof -
  define h' where "h' = withAllocatedLeasesExcluding h leases excluded"
  have same: "Healthy h' = Healthy h" "FreeDiskPercent h' = FreeDiskPercent h" "CPUSomeAvg10 h' = CPUSomeAvg10 h"
    "MemoryFullAvg10 h' = MemoryFullAvg10 h" "IOFullAvg10 h' = IOFullAvg10 h"
    by (simp_all add: h'_def withAllocatedLeasesExcluding_def Let_def)
  note a = Evaluate_admitted_fields [OF assms(2) [folded h'_def] assms(3), unfolded same]
  note c = cluster_healthy_iff [OF assms(1)]
  have members: "MinimumFreeDiskPercent p \<le> memberFreeDiskPercent st (in_StoragePool (fc_Incus platform))
      \<and> (RequirePressure p \<and> F_NaN \<notin> {CPUSomeAvg10 h, MemoryFullAvg10 h, IOFullAvg10 h} \<longrightarrow>
          \<not> f_greater (s_CPUSomeAvg10 s) (MaxCPUSomeAvg10 p) \<and> \<not> f_greater (s_MemoryFullAvg10 s) (MaxMemoryFullAvg10 p)
          \<and> \<not> f_greater (s_IOFullAvg10 s) (MaxIOFullAvg10 p))"
    if "m \<in> set ms" "cm_Status m = ''Online''" "cm_State m = Some st" "member_gate k pressure now m = Inr (StateOpen, s)" for m st s
  proof -
    have "covers_member (memberFreeDiskPercent st (in_StoragePool (fc_Incus platform))) s h"
      using cluster_covers [OF that, of platform "cluster_start pressure"] c(3) [OF a(1)] by (simp add: covers_member_def)
    then show ?thesis unfolding covers_member_def using a(2,3) by (auto dest: f_bound_below)
  qed
  show ?thesis using c(1,2) a(1) members by blast
qed

section \<open>An overfull pool\<close>

lemma uint_underflow:
  fixes t u :: uint64
  assumes "uint t < uint u" "uint u \<le> 2 ^ 56"
  shows "uint ((t - u) * 100) = 2 ^ 64 - 100 * (uint u - uint t)"
proof -
  have "uint ((t - u) * 100) = (uint t - uint u) * 100 mod 2 ^ 64" by (simp add: uint_word_ariths mod_simps)
  also have "(uint t - uint u) * 100 = (2 ^ 64 - 100 * (uint u - uint t)) + (- 1) * 2 ^ 64" by simp
  also have "((2 ^ 64 - 100 * (uint u - uint t)) + (- 1) * 2 ^ 64) mod (2 ^ 64 :: int) = (2 ^ 64 - 100 * (uint u - uint t)) mod 2 ^ 64"
    by (rule mod_mult_self1)
  also have "\<dots> = 2 ^ 64 - 100 * (uint u - uint t)"
  proof (rule mod_pos_pos_trivial)
    have "uint u - uint t \<le> 2 ^ 56" using assms(2) uint_ge_0 [of t] by linarith
    then show "0 \<le> 2 ^ 64 - 100 * (uint u - uint t)" by simp
    show "2 ^ 64 - 100 * (uint u - uint t) < 2 ^ 64" using assms(1) by simp
  qed
  finally show ?thesis .
qed

lemma overfull_percent:
  assumes "get (st_StoragePools st) pool = Some space" "2 \<le> uint (ms_Total space)" "uint (ms_Total space) < uint (ms_Used space)"
    "uint (ms_Used space) \<le> 2 ^ 56"
  shows "memberFreeDiskPercent st pool > 100"
proof -
  let ?t = "uint (ms_Total space)" and ?u = "uint (ms_Used space)"
  let ?q = "(2 ^ 64 - 100 * (?u - ?t)) div ?t"
  have t: "ms_Total space \<noteq> 0" using assms(2) by (metis uint_0_eq not_numeral_le_zero)
  have low: "101 * ?t \<le> 2 ^ 64 - 100 * (?u - ?t)" using assms(3,4) by simp
  then have "101 \<le> ?q" using assms(2) by (simp add: zdiv_mono1 [of "101 * ?t" "2 ^ 64 - 100 * (?u - ?t)" ?t, simplified])
  moreover have "?q < 2 ^ 63"
  proof -
    have "2 ^ 64 - 100 * (?u - ?t) < 2 ^ 63 * ?t" using assms(2,3) by simp
    moreover have "?q * ?t \<le> 2 ^ 64 - 100 * (?u - ?t)" using assms(2) by (simp only: minus_mod_eq_div_mult [symmetric]) simp
    ultimately have "?q * ?t < 2 ^ 63 * ?t" by linarith
    then show ?thesis using assms(2) by (simp only: mult_less_cancel_right)
  qed
  moreover have "uint ((ms_Total space - ms_Used space) * 100 div ms_Total space) = ?q"
    using uint_underflow [OF assms(3,4)] by (simp add: uint_div)
  ultimately have "sint ((ms_Total space - ms_Used space) * 100 div ms_Total space) = ?q"
    by (simp add: sint_uint signed_take_bit_int_eq_self)
  then show ?thesis using \<open>101 \<le> ?q\<close> assms(1) t by (simp add: memberFreeDiskPercent_def Let_def)
qed

section \<open>A cluster of two members\<close>

definition demo_member_state :: member_state where
  "demo_member_state = \<lparr>st_TotalRAM = 68719476736, st_FreeRAM = 34359738368, st_BufferRAM = 1048576,
     st_StoragePools = [(in_StoragePool demo_incus, \<lparr>ms_Total = 1000, ms_Used = 400\<rparr>)]\<rparr>"

definition demo_open_gate :: GateState where
  "demo_open_gate = \<lparr>g_SchemaVersion = pressure_schema, g_State = StateOpen, g_Reason = ''pressure-normal'', g_StateSince = 50, g_ObservedAt = 90, g_OOMKillsTotal = 0\<rparr>"

definition demo_members :: "cluster_member list" where
  "demo_members =
     [\<lparr>cm_ServerName = ''one'', cm_Status = ''Online'', cm_Config = Metadata demo_codec demo_open_gate (zero_sample 90), cm_State = Some demo_member_state\<rparr>,
      \<lparr>cm_ServerName = ''two'', cm_Status = ''Offline'', cm_Config = [], cm_State = None\<rparr>]"

definition demo_admission :: admission_request where
  "demo_admission = \<lparr>req_PoolName = ''linux'', req_VCPU = 2, req_CPUAllowanceUnits = 4, req_MemoryMiB = 4096\<rparr>"

lemma demo_cluster_admits:
  "case clusterHostState demo_codec (Some demo_members) demo_fleet (fc_Pressure demo_fleet) 100 of
     Inl e \<Rightarrow> False
   | Inr h \<Rightarrow> (case Evaluate (withAllocatedLeasesExcluding h [] []) sample_policy demo_admission of Inl e \<Rightarrow> False | Inr d \<Rightarrow> Admitted d)"
  by code_simp

theorem cluster_admission_worst_member_witness:
  "15 \<le> memberFreeDiskPercent demo_member_state (in_StoragePool (fc_Incus demo_fleet))"
proof -
  obtain h d where h: "clusterHostState demo_codec (Some demo_members) demo_fleet (fc_Pressure demo_fleet) 100 = Inr h"
      "Evaluate (withAllocatedLeasesExcluding h [] []) sample_policy demo_admission = Inr d" "Admitted d"
    using demo_cluster_admits by (auto split: sum.split_asm)
  have m: "\<exists>m \<in> set demo_members. cm_Status m = ''Online'' \<and> cm_State m = Some demo_member_state" by (simp add: demo_members_def)
  have g: "list_all (\<lambda>m. cm_Status m \<noteq> ''Online'' \<or> (case member_gate demo_codec (fc_Pressure demo_fleet) 100 m of Inr (g, s) \<Rightarrow> g = StateOpen | _ \<Rightarrow> False)) demo_members"
    by code_simp
  have "\<exists>s. member_gate demo_codec (fc_Pressure demo_fleet) 100 m = Inr (StateOpen, s)" if "m \<in> set demo_members" "cm_Status m = ''Online''" for m
    using bspec [OF g [unfolded list_all_iff] that(1)] that(2)
    by (cases "member_gate demo_codec (fc_Pressure demo_fleet) 100 m") auto
  then show ?thesis using cluster_admission_worst_member [OF h] m by (fastforce simp: sample_policy_def)
qed

end
