(* ===== verification/Incus_Admission.thy ===== *)
theory Incus_Admission
  imports Fleet_Host Queue_Reclaim
begin

text \<open>
  The admission controller of the Incus provider (\<open>src/internal/garmproviderincus/provider/admission.go\<close>): how a provider process
  starts from the platform configuration, how it reads the instances that Incus lists into allocations, and the operations
  that join the queue intents, the state of the fleet and the provider journal. The images and identities it pins come from
  \<open>src/internal/garmproviderincus/config/config.go\<close>. The operations of the journal's controller that the provider forwards
  unchanged (release, marks, resolution, warm drain) are those of Provider_Admission.
\<close>

section \<open>Images, identities and instances\<close>

text \<open>What the provider's configuration pins for a pool (\<open>garmproviderincus/config/config.go\<close>).\<close>

record worker_image =
  wi_Alias :: string
  wi_Fingerprint :: string
  wi_PreviousFingerprint :: string
  wi_Variant :: string
  wi_InstanceType :: string
  wi_RunnerUID :: int
  wi_RunnerGID :: int

record provider_identity =
  pi_Version :: string
  pi_Commit :: string

text \<open>The fields of the provider's configuration that admission and the warm pool read. The paths of the files are the files themselves, as
  arguments of the operations.\<close>

record incus_config =
  ic_IncludeDefaultProfile :: bool
  ic_SecureBoot :: bool
  ic_WorkerImages :: "worker_image gomap"
  ic_AdmissionLeaseSeconds :: int
  ic_PreviousProviderIdentities :: "provider_identity list"
  ic_DiagnosticsMaxTotalBytes :: int

definition AllowsExistingFingerprint :: "worker_image \<Rightarrow> string \<Rightarrow> bool" where
  "AllowsExistingFingerprint w actual \<longleftrightarrow> actual = wi_Fingerprint w \<or> (wi_PreviousFingerprint w \<noteq> [] \<and> actual = wi_PreviousFingerprint w)"

definition AllowsProviderIdentity :: "incus_config \<Rightarrow> string \<Rightarrow> string \<Rightarrow> string \<Rightarrow> string \<Rightarrow> bool" where
  "AllowsProviderIdentity l actualVersion actualCommit currentVersion currentCommit \<longleftrightarrow>
     (actualVersion = currentVersion \<and> actualCommit = currentCommit)
     \<or> list_ex (\<lambda>identity. actualVersion = pi_Version identity \<and> actualCommit = pi_Commit identity) (ic_PreviousProviderIdentities l)"

text \<open>An instance as Incus lists it, and what GARM asks for.\<close>

record listed_instance =
  ii_Name :: string
  ii_Type :: string
  ii_Status :: string
  ii_Location :: string
  ii_Profiles :: "string list"
  ii_ExpandedConfig :: "string gomap"

record bootstrap =
  bs_Name :: string
  bs_PoolID :: string
  bs_Flavor :: string
  bs_RepoURL :: string

text \<open>The keys of an instance's configuration (\<open>incus.go\<close>).\<close>

abbreviation controllerIDKeyName :: string where "controllerIDKeyName \<equiv> ''user.runner-controller-id''"
abbreviation poolIDKey :: string where "poolIDKey \<equiv> ''user.runner-pool-id''"
abbreviation imageAliasKey :: string where "imageAliasKey \<equiv> ''user.nddev.image-alias''"
abbreviation imageFingerprintKey :: string where "imageFingerprintKey \<equiv> ''user.nddev.image-fingerprint''"
abbreviation providerVersionKey :: string where "providerVersionKey \<equiv> ''user.nddev.provider-version''"
abbreviation providerCommitKey :: string where "providerCommitKey \<equiv> ''user.nddev.provider-commit''"
abbreviation flavorKey :: string where "flavorKey \<equiv> ''user.nddev.flavor''"
abbreviation lifecycleKey :: string where "lifecycleKey \<equiv> ''user.nddev.lifecycle''"
abbreviation trustKey :: string where "trustKey \<equiv> ''user.nddev.trust''"
abbreviation instanceScaleSetKey :: string where "instanceScaleSetKey \<equiv> ''user.nddev.scale-set''"
abbreviation repositoryKey :: string where "repositoryKey \<equiv> ''user.nddev.repository''"
abbreviation networkPolicyKey :: string where "networkPolicyKey \<equiv> ''user.nddev.network-policy''"
abbreviation cacheWriteScopeKey :: string where "cacheWriteScopeKey \<equiv> ''user.nddev.cache-write-scope''"
abbreviation garmJobNameKey :: string where "garmJobNameKey \<equiv> ''user.nddev.garm-job-name''"
abbreviation warmReadyKey :: string where "warmReadyKey \<equiv> ''user.nddev.warm-ready''"
abbreviation osTypeKeyName :: string where "osTypeKeyName \<equiv> ''user.os-type''"
abbreviation osArchKeyName :: string where "osArchKeyName \<equiv> ''user.os-arch''"
abbreviation lifecycleEphemeralOneJob :: string where "lifecycleEphemeralOneJob \<equiv> ''ephemeral-one-job''"
abbreviation lifecycleWarmPreparing :: string where "lifecycleWarmPreparing \<equiv> ''warm-preparing''"
abbreviation lifecycleWarmUnregistered :: string where "lifecycleWarmUnregistered \<equiv> ''warm-unregistered''"

definition managedSecurityContract :: "worker_image \<Rightarrow> string \<times> (string \<times> string) list" where
  "managedSecurityContract img =
     (if wi_InstanceType img = ''container''
      then (''container'',
            [(imageAliasKey, wi_Alias img), (''security.nesting'', if wi_Variant img = ''integration'' then ''true'' else ''false''),
             (''security.privileged'', ''false''), (''security.syscalls.intercept.mknod'', ''false''),
             (''security.syscalls.intercept.setxattr'', ''false''), (''raw.lxc'', '''')])
      else (''virtual-machine'',
            [(imageAliasKey, wi_Alias img), (''security.nesting'', ''false''), (''security.secureboot'', ''true''),
             (''raw.qemu'', ''-cpu host,-vmx,-svm'')]))"

section \<open>The controller of a provider process\<close>

record nddev_admission =
  nd_cfg :: incus_config
  nd_platform :: fleet_config
  nd_controllerID :: string
  nd_workerImages :: "worker_image gomap"
  nd_pressurePolicy :: Policy
  nd_controller :: controller
  nd_diagnosticsMaxBytes :: int

datatype setup_error =
    PlatformNotLoaded | HostnameUnknown | HostMismatch | NotARelease | ProviderVersionMismatch
  | ImageForUnknownPool string | ImageVariantMismatch string

text \<open>\<open>IsRelease\<close> of \<open>providerrelease\<close>: the pattern \<open>v\<close>, three numbers, \<open>-nddev.\<close> and a number.\<close>

definition is_number :: "string \<Rightarrow> bool" where "is_number s \<longleftrightarrow> s \<noteq> [] \<and> list_all is_digit s"

definition IsRelease :: "string \<Rightarrow> bool" where
  "IsRelease v =
     (case v of
        [] \<Rightarrow> False
      | c # rest \<Rightarrow> c = CHR ''v'' \<and>
          (case split_on CHR ''.'' rest of
             [major, minor, patch, n] \<Rightarrow> is_number major \<and> is_number minor \<and> has_suffix patch ''-nddev'' \<and> is_number (trim_suffix patch ''-nddev'') \<and> is_number n
           | _ \<Rightarrow> False))"

definition platformHostMatches :: "string \<Rightarrow> string \<Rightarrow> bool" where
  "platformHostMatches declared actual \<longleftrightarrow> declared \<noteq> [] \<and> declared = actual"

definition image_mapping_error :: "fleet_config \<Rightarrow> string \<times> worker_image \<Rightarrow> setup_error option" where
  "image_mapping_error platform m =
     (case config_Pool platform (fst m) of
        None \<Rightarrow> Some (ImageForUnknownPool (fst m))
      | Some pool \<Rightarrow>
          if wi_Variant (snd m) \<noteq> (if ca_Docker (pl_Capabilities pool) then ''integration'' else ''standard'')
          then Some (ImageVariantMismatch (fst m)) else None)"

definition validateWorkerImageMappings :: "fleet_config \<Rightarrow> worker_image gomap \<Rightarrow> setup_error option" where
  "validateWorkerImageMappings platform images = first_error (image_mapping_error platform) images"

definition reserve_policy_of :: "fleet_config \<Rightarrow> reserve_policy" where
  "reserve_policy_of platform =
     (let h = fc_HostReserve platform; p = fc_Pressure platform
      in \<lparr>MinimumCPUUnits = hr_MinimumCPUUnits h, MaximumFleetCPUPercent = hr_MaximumFleetCPUPercent h,
          CPUAllowanceOvercommit = hr_CPUAllowanceOvercommit h, MinimumMemoryMiB = hr_MinimumMemoryMiB h, MinimumPercent = hr_MinimumPercent h,
          MinimumFreeDiskPercent = hr_MinimumFreeDiskPercent h, RequirePressure = Required p, MaxCPUSomeAvg10 = CPUSomeClose p,
          MaxMemoryFullAvg10 = MemoryFullClose p, MaxIOFullAvg10 = IOFullClose p, MaxRecentOOMKills = sint (MaximumRecentOOMKills p)\<rparr>)"

text \<open>The environment at start: the decoded platform file (\<open>None\<close> if it cannot be read or parsed), the host's name, and the
  version stamped into the binary. \<open>Load\<close> accepts a decoded document only if its validation reports nothing.\<close>

record setup_env =
  su_text :: text_env
  su_platform :: "fleet_config option"
  su_hostname :: "string option"
  su_Version :: string

definition newNDDevAdmission :: "setup_env \<Rightarrow> incus_config \<Rightarrow> string \<Rightarrow> setup_error + nddev_admission" where
  "newNDDevAdmission e cfg controllerID =
     (case su_platform e of
        None \<Rightarrow> Inl PlatformNotLoaded
      | Some platform \<Rightarrow>
          if fleet_Validate (su_text e) platform \<noteq> [] then Inl PlatformNotLoaded
          else (case su_hostname e of
             None \<Rightarrow> Inl HostnameUnknown
           | Some hostname \<Rightarrow>
               if trim_space hostname = [] then Inl HostnameUnknown
               else if \<not> platformHostMatches (pf_Host (fc_Platform platform)) hostname then Inl HostMismatch
               else if \<not> IsRelease (su_Version e) then Inl NotARelease
               else if cp_ProviderVersion (fc_ControlPlane platform) \<noteq> su_Version e then Inl ProviderVersionMismatch
               else (case validateWorkerImageMappings platform (ic_WorkerImages cfg) of
                  Some err \<Rightarrow> Inl err
                | None \<Rightarrow>
                    Inr \<lparr>nd_cfg = cfg, nd_platform = platform, nd_controllerID = controllerID, nd_workerImages = ic_WorkerImages cfg,
                         nd_pressurePolicy = fc_Pressure platform,
                         nd_controller = \<lparr>ctl_ControllerID = controllerID, ctl_Policy = reserve_policy_of platform,
                           ctl_LeaseTTL = mul64 (ic_AdmissionLeaseSeconds cfg) second\<rparr>,
                         nd_diagnosticsMaxBytes = ic_DiagnosticsMaxTotalBytes cfg\<rparr>)))"

section \<open>Observing the instances\<close>

datatype inventory_error =
    InventoryContextDone | InstancesFailed | AmbiguousProfiles string | UnknownProfile string | ProfileWithoutImage string
  | LeaseUnreadable string | IncompleteInventory string | UnknownFlavor string | FlavorWithoutImage string | InstanceTypeWrong string
  | LifecycleUnsupported string | FingerprintRefused string | IdentityRefused string | MetadataWrong string string
  | CapabilityUndeclared string string | WarmNotReady string | WarmOwned string | PreparingInvalid string

text \<open>One pass over the inventory: whether the context is still live, what Incus lists, and for an instance without metadata
  the provider journal as it is when that instance is looked up.\<close>

record observation =
  ob_context :: bool
  ob_instances :: "listed_instance list option"
  ob_read :: read_env
  ob_journal :: "string \<Rightarrow> journal_file"

definition meta :: "listed_instance \<Rightarrow> string \<Rightarrow> string" where
  "meta i key = config_value (ii_ExpandedConfig i) key"

definition image_maintenance :: "listed_instance \<Rightarrow> bool" where
  "image_maintenance i \<longleftrightarrow> has_prefix (ii_Name i) ''gha-image-builder-'' \<or> has_prefix (ii_Name i) ''gha-image-smoke-''"

definition observe_maintenance :: "nddev_admission \<Rightarrow> listed_instance \<Rightarrow> inventory_error + allocation" where
  "observe_maintenance n i =
     (case ii_Profiles i of
        [profile] \<Rightarrow>
          (case config_Pool (nd_platform n) profile of
             None \<Rightarrow> Inl (UnknownProfile (ii_Name i))
           | Some pool \<Rightarrow>
               (case get (nd_workerImages n) (pl_Name pool) of
                  None \<Rightarrow> Inl (ProfileWithoutImage (pl_Name pool))
                | Some img \<Rightarrow>
                    Inr \<lparr>a_InstanceName = ii_Name i, a_ControllerID = nd_controllerID n, a_PoolID = ''image-maintenance/'' @ pl_Name pool,
                         a_PoolName = pl_Name pool, a_VCPU = rv_CPUUnits (EffectiveReservation pool), a_CPUAllowanceUnits = rs_VCPU (pl_Resources pool),
                         a_MemoryMiB = rv_MemoryMiB (EffectiveReservation pool), a_ImageFingerprint = wi_Fingerprint img,
                         a_State = Provider_Journal.StateCreated, a_JobName = [], a_Location = ii_Location i\<rparr>))
      | _ \<Rightarrow> Inl (AmbiguousProfiles (ii_Name i)))"

definition observe_incomplete :: "observation \<Rightarrow> listed_instance \<Rightarrow> inventory_error + allocation" where
  "observe_incomplete ob i =
     (case store_ReadOnly (ob_read ob) (ob_journal ob (ii_Name i)) of
        Inl e \<Rightarrow> Inl (LeaseUnreadable (ii_Name i))
      | Inr j \<Rightarrow>
          (case get (j_Leases j) (ii_Name i) of
             None \<Rightarrow> Inl (IncompleteInventory (ii_Name i))
           | Some l \<Rightarrow>
               if l_State l \<notin> {Provider_Journal.StateAdmitted, Provider_Journal.StateCreated, Provider_Journal.StateDeleting}
               then Inl (IncompleteInventory (ii_Name i))
               else Inr \<lparr>a_InstanceName = l_InstanceName l, a_ControllerID = l_ControllerID l, a_PoolID = l_PoolID l, a_PoolName = l_PoolName l,
                         a_VCPU = l_VCPU l, a_CPUAllowanceUnits = l_CPUAllowanceUnits l, a_MemoryMiB = l_MemoryMiB l,
                         a_ImageFingerprint = l_ImageFingerprint l, a_State = l_State l, a_JobName = ii_Name i, a_Location = ii_Location i\<rparr>))"

text \<open>The first entry whose recorded value differs from the expected one.\<close>

definition key_error :: "listed_instance \<Rightarrow> string \<times> string \<Rightarrow> inventory_error option" where
  "key_error i check = (if meta i (fst check) \<noteq> snd check then Some (MetadataWrong (ii_Name i) (fst check)) else None)"

definition capability_error :: "listed_instance \<Rightarrow> string \<times> string list \<Rightarrow> inventory_error option" where
  "capability_error i capability =
     (if meta i (fst capability) \<notin> set (snd capability) then Some (CapabilityUndeclared (ii_Name i) (fst capability)) else None)"

definition observable_capabilities :: "(string \<times> string list) list" where
  "observable_capabilities =
     [(networkPolicyKey, [''github-cache-only'', ''public-internet'', ''release-allowlist'']), (cacheWriteScopeKey, [''none'', ''isolated'', ''trusted''])]"

definition warm_owned :: "listed_instance \<Rightarrow> string \<Rightarrow> bool" where
  "warm_owned i flavor \<longleftrightarrow> meta i poolIDKey \<noteq> warm_prefix @ flavor \<or> meta i repositoryKey \<noteq> [] \<or> meta i garmJobNameKey \<noteq> []"

definition instance_error :: "nddev_admission \<Rightarrow> provider_identity \<Rightarrow> listed_instance \<Rightarrow> Pool \<Rightarrow> worker_image \<Rightarrow> inventory_error option" where
  "instance_error n current i pool img =
     (let (wantedType, securityChecks) = managedSecurityContract img; lifecycle = meta i lifecycleKey; actual = meta i imageFingerprintKey
      in then_check (checks [
           (ii_Type i \<noteq> wantedType, InstanceTypeWrong (ii_Name i)),
           (lifecycle \<notin> {lifecycleEphemeralOneJob, lifecycleWarmPreparing, lifecycleWarmUnregistered}, LifecycleUnsupported (ii_Name i)),
           (\<not> (if lifecycle = lifecycleEphemeralOneJob then AllowsExistingFingerprint img actual else actual = wi_Fingerprint img), FingerprintRefused (ii_Name i)),
           (lifecycle = lifecycleEphemeralOneJob
              \<and> \<not> AllowsProviderIdentity (nd_cfg n) (meta i providerVersionKey) (meta i providerCommitKey) (pi_Version current) (pi_Commit current),
            IdentityRefused (ii_Name i))])
         (then_check (first_error (key_error i)
             ([(controllerIDKeyName, nd_controllerID n), (imageAliasKey, wi_Alias img), (osTypeKeyName, ''linux''), (osArchKeyName, ''amd64'')] @ tl securityChecks))
         (then_check (first_error (key_error i) [(trustKey, pl_Trust pool), (instanceScaleSetKey, pl_ScaleSetName pool)])
         (then_check (first_error (capability_error i) observable_capabilities)
         (checks [
           (lifecycle = lifecycleWarmUnregistered \<and> meta i warmReadyKey \<noteq> ''true'', WarmNotReady (ii_Name i)),
           (lifecycle = lifecycleWarmUnregistered \<and> warm_owned i (meta i flavorKey), WarmOwned (ii_Name i)),
           (lifecycle = lifecycleWarmPreparing \<and> (warm_owned i (meta i flavorKey) \<or> meta i warmReadyKey = ''true''), PreparingInvalid (ii_Name i))])))))"

definition observe_managed :: "nddev_admission \<Rightarrow> provider_identity \<Rightarrow> listed_instance \<Rightarrow> inventory_error + allocation" where
  "observe_managed n current i =
     (let flavor = meta i flavorKey
      in case config_Pool (nd_platform n) flavor of
           None \<Rightarrow> Inl (UnknownFlavor (ii_Name i))
         | Some pool \<Rightarrow>
             (case get (nd_workerImages n) flavor of
                None \<Rightarrow> Inl (FlavorWithoutImage (ii_Name i))
              | Some img \<Rightarrow>
                  (case instance_error n current i pool img of
                     Some e \<Rightarrow> Inl e
                   | None \<Rightarrow>
                       Inr \<lparr>a_InstanceName = ii_Name i, a_ControllerID = meta i controllerIDKeyName, a_PoolID = meta i poolIDKey, a_PoolName = flavor,
                            a_VCPU = rv_CPUUnits (EffectiveReservation pool), a_CPUAllowanceUnits = rs_VCPU (pl_Resources pool),
                            a_MemoryMiB = rv_MemoryMiB (EffectiveReservation pool), a_ImageFingerprint = meta i imageFingerprintKey,
                            a_State = (if meta i lifecycleKey = lifecycleWarmUnregistered then StateWarmReady else Provider_Journal.StateCreated),
                            a_JobName = meta i garmJobNameKey, a_Location = ii_Location i\<rparr>)))"

text \<open>The body of the loop: a stopped instance without metadata is left out, every other instance is an allocation or an error.\<close>

definition observe_instance :: "nddev_admission \<Rightarrow> provider_identity \<Rightarrow> observation \<Rightarrow> listed_instance \<Rightarrow> allocation list \<Rightarrow> inventory_error + allocation list" where
  "observe_instance n current ob i allocations =
     (if meta i flavorKey = [] \<and> \<not> image_maintenance i \<and> ii_Status i = ''Stopped'' then Inr allocations
      else
        (case (if meta i flavorKey = [] then (if image_maintenance i then observe_maintenance n i else observe_incomplete ob i)
               else observe_managed n current i) of
           Inl e \<Rightarrow> Inl e | Inr a \<Rightarrow> Inr (allocations @ [a])))"

definition observeAllocationsOnce :: "nddev_admission \<Rightarrow> provider_identity \<Rightarrow> observation \<Rightarrow> inventory_error + allocation list" where
  "observeAllocationsOnce n current ob =
     (case ob_instances ob of
        None \<Rightarrow> Inl InstancesFailed
      | Some instances \<Rightarrow> fold_err (observe_instance n current ob) instances [])"

fun is_incomplete :: "inventory_error \<Rightarrow> bool" where
  "is_incomplete (IncompleteInventory name) = True"
| "is_incomplete _ = False"

text \<open>At most two passes: a second one only after an incomplete inventory.\<close>

fun observe_loop :: "nddev_admission \<Rightarrow> provider_identity \<Rightarrow> (nat \<Rightarrow> observation) \<Rightarrow> nat \<Rightarrow> nat \<Rightarrow> inventory_error \<Rightarrow> inventory_error + allocation list" where
  "observe_loop n current obs attempt 0 err = Inl err"
| "observe_loop n current obs attempt (Suc left) err =
     (if \<not> ob_context (obs attempt) then Inl InventoryContextDone
      else (case observeAllocationsOnce n current (obs attempt) of
              Inr allocations \<Rightarrow> Inr allocations
            | Inl e \<Rightarrow> if is_incomplete e then observe_loop n current obs (Suc attempt) left e else Inl e))"

definition observedAllocations :: "nddev_admission \<Rightarrow> provider_identity \<Rightarrow> (nat \<Rightarrow> observation) \<Rightarrow> inventory_error + allocation list" where
  "observedAllocations n current obs = observe_loop n current obs 0 2 InventoryContextDone"

section \<open>The operations of the provider\<close>

datatype provider_error =
    DiagnosticsUnreadable | PoolUnknown string | IntentUnreadable queue_error | NoActiveIntent string | PoolResourcesInvalid string
  | InventoryFailed inventory_error | HostStateFailed fleet_error | PoolWithoutImage string | ControllerFailed "controller_error update_error"

text \<open>The environment of an operation: the bytes in the diagnostics spool (\<open>None\<close> if it cannot be inspected), the queue intent
  file with its reader, the passes over the inventory, the state of the fleet, the journal's store and the clock; and the
  release of the running binary.\<close>

record provider_env =
  pv_spool_bytes :: "int option"
  pv_read :: read_env
  pv_queue :: queue_file
  pv_observations :: "nat \<Rightarrow> observation"
  pv_codec :: codec
  pv_fleet :: fleet_env
  pv_store :: store_env
  pv_now :: time
  pv_current :: provider_identity

text \<open>\<open>workerdiagnostics/inspect.go\<close>: the spool closes admission at four fifths of its limit.\<close>

definition AtDurableWALHighWatermark :: "int \<Rightarrow> int \<Rightarrow> bool" where
  "AtDurableWALHighWatermark bytes maximumBytes \<longleftrightarrow> maximumBytes \<le> 0 \<or> bytes \<ge> div64 (mul64 maximumBytes 80) 100"

definition diagnosticsBlocked :: "nddev_admission \<Rightarrow> provider_env \<Rightarrow> provider_error + bool" where
  "diagnosticsBlocked n e =
     (case pv_spool_bytes e of
        None \<Rightarrow> Inl DiagnosticsUnreadable
      | Some bytes \<Rightarrow> Inr (AtDurableWALHighWatermark bytes (nd_diagnosticsMaxBytes n)))"

text \<open>The part of a text before the first slash, as \<open>strings.Cut\<close> gives it.\<close>

definition bootstrapOwner :: "bootstrap \<Rightarrow> string" where
  "bootstrapOwner b = takeWhile (\<lambda>c. c \<noteq> CHR ''/'') (trim_prefix (bs_RepoURL b) ''https://github.com/'')"

definition ResolveRepository :: "nddev_admission \<Rightarrow> provider_env \<Rightarrow> bootstrap \<Rightarrow> provider_error + string" where
  "ResolveRepository n e b =
     (case config_Pool (nd_platform n) (bs_Flavor b) of
        None \<Rightarrow> Inl (PoolUnknown (bs_Flavor b))
      | Some pool \<Rightarrow>
          (case RepositoryForScaleSet (pv_read e) (bootstrapOwner b) (pl_ScaleSetName pool) (pv_queue e) of
             Inl err \<Rightarrow> Inl (IntentUnreadable err) | Inr repository \<Rightarrow> Inr repository))"

definition waiting_state :: "intent_state \<Rightarrow> bool" where
  "waiting_state s \<longleftrightarrow> s \<in> {Queue_Intent.StateQueued, StateAcquiring, StateAcquired, Queue_Intent.StateAssigned}"

definition yields_to :: "nddev_admission \<Rightarrow> string \<Rightarrow> int \<Rightarrow> Intent \<Rightarrow> bool" where
  "yields_to n poolName memoryMiB i \<longleftrightarrow> waiting_state (i_State i) \<and>
     (case PoolByScaleSet (nd_platform n) (i_ScaleSetName i) of
        None \<Rightarrow> False
      | Some other \<Rightarrow> rs_MemoryMiB (pl_Resources other) > memoryMiB \<or> (rs_MemoryMiB (pl_Resources other) = memoryMiB \<and> pl_Name other \<noteq> poolName))"

definition WarmYieldsToJobs :: "nddev_admission \<Rightarrow> provider_env \<Rightarrow> string \<Rightarrow> int \<Rightarrow> provider_error + bool" where
  "WarmYieldsToJobs n e poolName memoryMiB =
     (case config_Pool (nd_platform n) poolName of
        None \<Rightarrow> Inl (PoolUnknown poolName)
      | Some pool \<Rightarrow>
          (case ReadActive (pv_read e) (pv_queue e) of
             Inl err \<Rightarrow> Inl (IntentUnreadable err)
           | Inr snapshot \<Rightarrow> Inr (list_ex (yields_to n poolName memoryMiB) (sn_Active snapshot))))"

definition pool_allocation :: "nddev_admission \<Rightarrow> Pool \<Rightarrow> worker_image \<Rightarrow> string \<Rightarrow> string \<Rightarrow> string \<Rightarrow> allocation" where
  "pool_allocation n pool img name poolID flavor =
     \<lparr>a_InstanceName = name, a_ControllerID = nd_controllerID n, a_PoolID = poolID, a_PoolName = flavor,
      a_VCPU = rv_CPUUnits (EffectiveReservation pool), a_CPUAllowanceUnits = rs_VCPU (pl_Resources pool),
      a_MemoryMiB = rv_MemoryMiB (EffectiveReservation pool), a_ImageFingerprint = wi_Fingerprint img,
      a_State = StateEmpty, a_JobName = [], a_Location = []\<rparr>"

definition coldRequest :: "nddev_admission \<Rightarrow> bootstrap \<Rightarrow> provider_error + request" where
  "coldRequest n b =
     (case config_Pool (nd_platform n) (bs_Flavor b) of
        None \<Rightarrow> Inl (PoolUnknown (bs_Flavor b))
      | Some pool \<Rightarrow>
          (case get (nd_workerImages n) (bs_Flavor b) of
             None \<Rightarrow> Inl (PoolWithoutImage (bs_Flavor b))
           | Some img \<Rightarrow> Inr \<lparr>r_Allocation = pool_allocation n pool img (bs_Name b) (bs_PoolID b) (bs_Flavor b), r_QueueIntentAuthorized = True\<rparr>))"

text \<open>What admission, warm admission and placement share: the observed allocations and the state of the fleet for the pool.\<close>

definition observe_fleet :: "nddev_admission \<Rightarrow> provider_env \<Rightarrow> Pool \<Rightarrow> provider_error + allocation list \<times> host_snapshot" where
  "observe_fleet n e pool =
     (case observedAllocations n (pv_current e) (pv_observations e) of
        Inl err \<Rightarrow> Inl (InventoryFailed err)
      | Inr allocations \<Rightarrow>
          (case fleetHostState (pv_codec e) (pv_fleet e) (nd_platform n) pool (nd_pressurePolicy n) of
             Inl err \<Rightarrow> Inl (HostStateFailed err)
           | Inr host \<Rightarrow> Inr (allocations, host)))"

definition lift_controller :: "'r op_result \<Rightarrow> (provider_error + 'r) \<times> journal_file" where
  "lift_controller r = (case r of (Inl err, f) \<Rightarrow> (Inl (ControllerFailed err), f) | (Inr v, f) \<Rightarrow> (Inr v, f))"

definition wal_refusal :: "string \<Rightarrow> decision" where
  "wal_refusal flavor = zero_decision\<lparr>Admitted := False, Reason := ReasonDiagnosticWAL, Pool := flavor\<rparr>"

definition nddev_Reconcile :: "nddev_admission \<Rightarrow> provider_env \<Rightarrow> journal_file \<Rightarrow> (provider_error + unit) \<times> journal_file" where
  "nddev_Reconcile n e f =
     (case observedAllocations n (pv_current e) (pv_observations e) of
        Inl err \<Rightarrow> (Inl (InventoryFailed err), f)
      | Inr allocations \<Rightarrow> lift_controller (Reconcile (nd_controller n) (pv_store e) (pv_now e) allocations f))"

text \<open>The authorisation that admission and a warm claim ask of the queue: an active intent of the bootstrap's account.\<close>

definition authorize_pool :: "provider_env \<Rightarrow> bootstrap \<Rightarrow> Pool \<Rightarrow> provider_error option" where
  "authorize_pool e b pool =
     (case ActiveForScaleSet (pv_read e) (bootstrapOwner b) (pl_ScaleSetName pool) (pv_queue e) of
        Inl err \<Rightarrow> Some (IntentUnreadable err)
      | Inr authorized \<Rightarrow> if authorized then None else Some (NoActiveIntent (bs_Flavor b)))"

definition nddev_Admit :: "nddev_admission \<Rightarrow> provider_env \<Rightarrow> bootstrap \<Rightarrow> journal_file \<Rightarrow> (provider_error + admission_result) \<times> journal_file" where
  "nddev_Admit n e b f =
     (case diagnosticsBlocked n e of
        Inl err \<Rightarrow> (Inl err, f)
      | Inr True \<Rightarrow> (Inr \<lparr>ar_Decision = wal_refusal (bs_Flavor b), ar_PreemptedWarmWorkers = []\<rparr>, f)
      | Inr False \<Rightarrow>
          (case config_Pool (nd_platform n) (bs_Flavor b) of
             None \<Rightarrow> (Inl (PoolUnknown (bs_Flavor b)), f)
           | Some pool \<Rightarrow>
               (case authorize_pool e b pool of
                  Some err \<Rightarrow> (Inl err, f)
                | None \<Rightarrow>
                    if rs_VCPU (pl_Resources pool) \<le> 0 \<or> rs_MemoryMiB (pl_Resources pool) \<le> 0 \<or> pl_MaxRunning pool \<le> 0
                    then (Inl (PoolResourcesInvalid (bs_Flavor b)), f)
                    else (case observe_fleet n e pool of
                            Inl err \<Rightarrow> (Inl err, f)
                          | Inr (allocations, host) \<Rightarrow>
                              (case coldRequest n b of
                                 Inl err \<Rightarrow> (Inl err, f)
                               | Inr req \<Rightarrow> lift_controller (AdmitPreemptible (nd_controller n) (pv_store e) (pv_now e) host allocations req f))))))"

definition nddev_PreemptForPlacement :: "nddev_admission \<Rightarrow> provider_env \<Rightarrow> bootstrap \<Rightarrow> journal_file \<Rightarrow> (provider_error + admission_result) \<times> journal_file" where
  "nddev_PreemptForPlacement n e b f =
     (case config_Pool (nd_platform n) (bs_Flavor b) of
        None \<Rightarrow> (Inl (PoolUnknown (bs_Flavor b)), f)
      | Some pool \<Rightarrow>
          (case observe_fleet n e pool of
             Inl err \<Rightarrow> (Inl err, f)
           | Inr (allocations, host) \<Rightarrow>
               (case coldRequest n b of
                  Inl err \<Rightarrow> (Inl err, f)
                | Inr req \<Rightarrow> lift_controller (PreemptForPlacement (nd_controller n) (pv_store e) (pv_now e) host allocations req f))))"

definition AdmitWarm :: "nddev_admission \<Rightarrow> provider_env \<Rightarrow> string \<Rightarrow> string \<Rightarrow> journal_file \<Rightarrow> (provider_error + decision) \<times> journal_file" where
  "AdmitWarm n e flavor instanceName f =
     (case diagnosticsBlocked n e of
        Inl err \<Rightarrow> (Inl err, f)
      | Inr True \<Rightarrow> (Inr (wal_refusal flavor), f)
      | Inr False \<Rightarrow>
          (case config_Pool (nd_platform n) flavor of
             None \<Rightarrow> (Inl (PoolUnknown flavor), f)
           | Some pool \<Rightarrow>
               (case get (nd_workerImages n) flavor of
                  None \<Rightarrow> (Inl (PoolWithoutImage flavor), f)
                | Some img \<Rightarrow>
                    (case observe_fleet n e pool of
                       Inl err \<Rightarrow> (Inl err, f)
                     | Inr (allocations, host) \<Rightarrow>
                         lift_controller (Admit (nd_controller n) (pv_store e) (pv_now e) host allocations
                           \<lparr>r_Allocation = pool_allocation n pool img instanceName (warm_prefix @ flavor) flavor, r_QueueIntentAuthorized = False\<rparr> f)))))"

definition nddev_ClaimWarm :: "nddev_admission \<Rightarrow> provider_env \<Rightarrow> bootstrap \<Rightarrow> journal_file \<Rightarrow> (provider_error + warm_claim_result) \<times> journal_file" where
  "nddev_ClaimWarm n e b f =
     (case config_Pool (nd_platform n) (bs_Flavor b) of
        None \<Rightarrow> (Inl (PoolUnknown (bs_Flavor b)), f)
      | Some pool \<Rightarrow>
          (case authorize_pool e b pool of
             Some err \<Rightarrow> (Inl err, f)
           | None \<Rightarrow>
               (case observedAllocations n (pv_current e) (pv_observations e) of
                  Inl err \<Rightarrow> (Inl (InventoryFailed err), f)
                | Inr allocations \<Rightarrow>
                    (case get (nd_workerImages n) (bs_Flavor b) of
                       None \<Rightarrow> (Inl (PoolWithoutImage (bs_Flavor b)), f)
                     | Some img \<Rightarrow>
                         lift_controller (ClaimWarm (nd_controller n) (pv_store e) (pv_now e) allocations
                           \<lparr>w_JobName = bs_Name b, w_ControllerID = nd_controllerID n, w_PoolID = bs_PoolID b, w_PoolName = bs_Flavor b,
                            w_ImageFingerprint = wi_Fingerprint img\<rparr> f)))))"

section \<open>The inventory is complete\<close>

lemma stored_lease_named:
  assumes "readUnlocked f = Inr j" "get (j_Leases j) k = Some l"
  shows "l_InstanceName l = k"
proof -
  have "k \<in> set (keys (j_Leases j))" using assms(2) by (metis get_in_keys)
  moreover have "journal_Validate j = None" using readUnlocked_valid [OF assms(1)] .
  ultimately have "validate_lease k l = None"
    using assms(2) by (force simp: journal_Validate_def validate_maps_def then_check_None_iff first_error_None_iff split: if_splits)
  then show ?thesis by (auto simp: validate_lease_def split: if_splits)
qed

lemma config_Pool_named: "config_Pool c name = Some p \<Longrightarrow> pl_Name p = name \<and> p \<in> set (fc_Pools c)"
  by (auto simp: config_Pool_def find_Some_iff)

text \<open>An instance that admission does not count: stopped, and with no metadata of its own.\<close>

definition idle_instance :: "listed_instance \<Rightarrow> bool" where
  "idle_instance i \<longleftrightarrow> meta i flavorKey = [] \<and> \<not> image_maintenance i \<and> ii_Status i = ''Stopped''"

text \<open>How an instance is charged: under its own name, at its own location; what declares a pool costs that pool's reservation,
  what does not costs its lease; and only an unowned, ready instance of the current image is offered as warm.\<close>

definition charged_as :: "nddev_admission \<Rightarrow> observation \<Rightarrow> listed_instance \<Rightarrow> allocation \<Rightarrow> bool" where
  "charged_as n ob i a \<longleftrightarrow> a_InstanceName a = ii_Name i \<and> a_Location a = ii_Location i
     \<and> ((\<exists>pool. config_Pool (nd_platform n) (a_PoolName a) = Some pool \<and> a_ControllerID a = nd_controllerID n
            \<and> a_VCPU a = rv_CPUUnits (EffectiveReservation pool) \<and> a_MemoryMiB a = rv_MemoryMiB (EffectiveReservation pool)
            \<and> a_CPUAllowanceUnits a = rs_VCPU (pl_Resources pool))
        \<or> (meta i flavorKey = [] \<and> (\<exists>j l. readUnlocked (ob_journal ob (ii_Name i)) = Inr j \<and> get (j_Leases j) (ii_Name i) = Some l
            \<and> a_VCPU a = l_VCPU l \<and> a_MemoryMiB a = l_MemoryMiB l \<and> a_CPUAllowanceUnits a = l_CPUAllowanceUnits l)))
     \<and> (a_State a = StateWarmReady \<longrightarrow> meta i warmReadyKey = ''true'' \<and> meta i repositoryKey = [] \<and> meta i garmJobNameKey = []
          \<and> (\<exists>img. get (nd_workerImages n) (meta i flavorKey) = Some img \<and> a_ImageFingerprint a = wi_Fingerprint img
               \<and> meta i imageFingerprintKey = wi_Fingerprint img))"

lemma maintenance_charged:
  assumes "observe_maintenance n i = Inr a" "meta i flavorKey = []"
  shows "charged_as n ob i a"
proof -
  obtain profile pool where p: "config_Pool (nd_platform n) profile = Some pool" and a: "a_InstanceName a = ii_Name i" "a_Location a = ii_Location i"
      "a_PoolName a = pl_Name pool" "a_ControllerID a = nd_controllerID n" "a_VCPU a = rv_CPUUnits (EffectiveReservation pool)"
      "a_MemoryMiB a = rv_MemoryMiB (EffectiveReservation pool)" "a_CPUAllowanceUnits a = rs_VCPU (pl_Resources pool)" "a_State a \<noteq> StateWarmReady"
    using assms(1) by (auto simp: observe_maintenance_def split: list.splits option.splits)
  then show ?thesis using config_Pool_named [OF p] by (auto simp: charged_as_def)
qed

lemma incomplete_charged:
  assumes "observe_incomplete ob i = Inr a" "meta i flavorKey = []"
  shows "charged_as n ob i a"
proof -
  obtain j l where j: "readUnlocked (ob_journal ob (ii_Name i)) = Inr j" "get (j_Leases j) (ii_Name i) = Some l"
      "a_VCPU a = l_VCPU l \<and> a_MemoryMiB a = l_MemoryMiB l \<and> a_CPUAllowanceUnits a = l_CPUAllowanceUnits l"
      "a_InstanceName a = l_InstanceName l" "a_Location a = ii_Location i" "a_State a \<noteq> StateWarmReady"
    using assms(1) by (auto simp: observe_incomplete_def store_ReadOnly_def split: sum.splits option.splits if_splits)
  then show ?thesis using stored_lease_named [OF j(1,2)] assms(2) by (auto simp: charged_as_def)
qed

lemma managed_charged:
  assumes "observe_managed n current i = Inr a"
  shows "charged_as n ob i a"
proof -
  obtain pool img where p: "config_Pool (nd_platform n) (meta i flavorKey) = Some pool" "get (nd_workerImages n) (meta i flavorKey) = Some img"
      "instance_error n current i pool img = None"
    using assms by (auto simp: observe_managed_def Let_def split: option.splits)
  have c: "meta i controllerIDKeyName = nd_controllerID n"
    using p(3) by (auto simp: instance_error_def Let_def then_check_None_iff key_error_def split: prod.splits if_splits)
  have w: "meta i lifecycleKey = lifecycleWarmUnregistered \<Longrightarrow> meta i warmReadyKey = ''true'' \<and> \<not> warm_owned i (meta i flavorKey)
      \<and> meta i imageFingerprintKey = wi_Fingerprint img"
    using p(3) by (auto simp: instance_error_def Let_def then_check_None_iff checks_None_iff split: prod.splits if_splits)
  show ?thesis using assms p c w
    by (auto simp: observe_managed_def Let_def charged_as_def warm_owned_def split: if_splits)
qed

lemma observe_instance_step:
  assumes "observe_instance n current ob i xs = Inr ys"
  shows "if idle_instance i then ys = xs else (\<exists>a. ys = xs @ [a] \<and> charged_as n ob i a)"
  using assms maintenance_charged incomplete_charged managed_charged
  by (auto simp: observe_instance_def idle_instance_def split: if_splits sum.splits)

lemma observe_fold:
  assumes "fold_err (observe_instance n current ob) instances xs = Inr ys"
  shows "\<exists>zs. ys = xs @ zs \<and> list_all2 (charged_as n ob) (filter (\<lambda>i. \<not> idle_instance i) instances) zs"
  using assms
proof (induction instances arbitrary: xs)
  case (Cons i instances)
  obtain ms where ms: "observe_instance n current ob i xs = Inr ms" "fold_err (observe_instance n current ob) instances ms = Inr ys"
    using Cons.prems by (auto split: sum.splits)
  obtain zs where "ys = ms @ zs" "list_all2 (charged_as n ob) (filter (\<lambda>i. \<not> idle_instance i) instances) zs"
    using Cons.IH [OF ms(2)] by blast
  then show ?case using observe_instance_step [OF ms(1)] by (cases "idle_instance i") auto
qed simp


section \<open>What a started provider relies on\<close>

lemma newNDDevAdmission_Inr:
  assumes "newNDDevAdmission e cfg controllerID = Inr n"
  shows "fleet_Validate (su_text e) (nd_platform n) = []" "nd_controllerID n = controllerID" "nd_workerImages n = ic_WorkerImages cfg"
    "ctl_ControllerID (nd_controller n) = controllerID" "ctl_Policy (nd_controller n) = reserve_policy_of (nd_platform n)"
    "nd_pressurePolicy n = fc_Pressure (nd_platform n)" "IsRelease (cp_ProviderVersion (fc_ControlPlane (nd_platform n)))"
    "validateWorkerImageMappings (nd_platform n) (nd_workerImages n) = None"
  using assms by (auto simp: newNDDevAdmission_def split: option.splits if_splits)

text \<open>A host snapshot in the ranges that the admission decision asks of it.\<close>

definition snapshot_ok :: "host_snapshot \<Rightarrow> bool" where
  "snapshot_ok h \<longleftrightarrow> 0 < TotalCPUUnits h \<and> 0 < AvailableMemoryMiB h \<and> AvailableMemoryMiB h \<le> TotalMemoryMiB h \<and> 0 \<le> AllocatedCPUUnits h
     \<and> 0 \<le> AllocatedMemoryMiB h \<and> 0 \<le> FreeDiskPercent h \<and> FreeDiskPercent h \<le> 100
     \<and> \<not> percent_bad (CPUSomeAvg10 h) \<and> \<not> percent_bad (MemoryFullAvg10 h) \<and> \<not> percent_bad (IOFullAvg10 h) \<and> 0 \<le> RecentOOMKills h"

lemma threshold_close_ok: "\<not> threshold_bad reopen close \<Longrightarrow> reopen \<noteq> F_NaN \<Longrightarrow> \<not> f_less close (F_Fin 0) \<and> \<not> f_greater close (F_Fin 100)"
  by (cases reopen; cases close) (auto simp: threshold_bad_def)

lemma sint_small_word: "(w :: uint64) \<le> 10 \<Longrightarrow> 0 \<le> sint w"
proof -
  assume "w \<le> 10"
  then have "unat w \<le> 10" by (simp add: word_le_nat_alt)
  also have "10 < (2 :: nat) ^ 63" by simp
  finally have "unat w < 2 ^ 63" .
  then have "sint w = int (unat w)" using sint_small [of "unat w"] by (simp only: of_nat_unat ucast_id)
  then show ?thesis by (simp only: of_nat_0_le_iff)
qed

lemma accepted_pressure_policy:
  assumes "policy_Validate p = None" "F_NaN \<notin> {CPUSomeReopen p, MemoryFullReopen p, IOFullReopen p}"
  shows "\<not> f_less (CPUSomeClose p) (F_Fin 0) \<and> \<not> f_greater (CPUSomeClose p) (F_Fin 100) \<and> \<not> f_less (MemoryFullClose p) (F_Fin 0)
    \<and> \<not> f_greater (MemoryFullClose p) (F_Fin 100) \<and> \<not> f_less (IOFullClose p) (F_Fin 0) \<and> \<not> f_greater (IOFullClose p) (F_Fin 100)
    \<and> 0 \<le> sint (MaximumRecentOOMKills p)"
proof (cases "Required p")
  case True
  then have t: "\<not> threshold_bad (CPUSomeReopen p) (CPUSomeClose p)" "\<not> threshold_bad (MemoryFullReopen p) (MemoryFullClose p)"
      "\<not> threshold_bad (IOFullReopen p) (IOFullClose p)" "MaximumRecentOOMKills p \<le> 10"
    using assms(1) by (auto simp: policy_Validate_def checks_None_iff not_less split: if_splits)
  have r: "CPUSomeReopen p \<noteq> F_NaN" "MemoryFullReopen p \<noteq> F_NaN" "IOFullReopen p \<noteq> F_NaN" using assms(2) by auto
  show ?thesis
    using threshold_close_ok [OF t(1) r(1)] threshold_close_ok [OF t(2) r(2)] threshold_close_ok [OF t(3) r(3)] sint_small_word [OF t(4)] by blast
next
  case False
  then have "p = zero_policy" using assms(1) by (simp add: policy_Validate_def split: if_splits)
  then show ?thesis by (simp add: zero_policy_def)
qed

lemma accepted_reserve:
  assumes "fleet_Validate e c = []"
  shows "reserve_issues (fc_HostReserve c) = []" "policy_Validate (fc_Pressure c) = None"
  using assms by (auto simp: fleet_Validate_Nil_iff all_issues_def split: option.splits)

lemma accepted_reserve_bounds:
  assumes "reserve_issues h = []"
  shows "0 \<le> hr_MinimumCPUUnits h \<and> 0 \<le> hr_MinimumMemoryMiB h \<and> 5 \<le> hr_MinimumPercent h \<and> hr_MinimumPercent h \<le> 50
    \<and> 80 \<le> hr_MaximumFleetCPUPercent h \<and> hr_MaximumFleetCPUPercent h \<le> 98 \<and> 0 \<le> hr_CPUAllowanceOvercommit h \<and> hr_CPUAllowanceOvercommit h \<le> 4
    \<and> 20 \<le> hr_MinimumFreeDiskPercent h \<and> hr_MinimumFreeDiskPercent h \<le> 80"
  using assms by (auto simp: reserve_issues_def reserve_floor_def Let_def not_less split: if_splits)

text \<open>C34: A provider that has started never fails to decide. The policy that it builds from an accepted platform configuration
  passes every check of the admission decision, and so does the request that it builds for any of the configuration's pools: on
  a host snapshot with numbers in range, the decision is an admission or a refusal and never an error. (A reopening
  threshold that is not a number would be accepted and is excluded.)\<close>

theorem started_provider_decides:
  assumes "newNDDevAdmission e cfg controllerID = Inr n" "config_Pool (nd_platform n) flavor = Some pool" "snapshot_ok h"
    and "F_NaN \<notin> {CPUSomeReopen (nd_pressurePolicy n), MemoryFullReopen (nd_pressurePolicy n), IOFullReopen (nd_pressurePolicy n)}"
  shows "\<exists>d. Evaluate h (ctl_Policy (nd_controller n)) (evaluation_request (pool_allocation n pool img name poolID flavor)) = Inr d"
proof -
  note s = newNDDevAdmission_Inr [OF assms(1)]
  have p: "pool \<in> set (fc_Pools (nd_platform n))" "pl_Name pool = flavor" using config_Pool_named [OF assms(2)] by auto
  note r = accepted_reserve_bounds [OF accepted_reserve(1) [OF s(1)]]
  note t = accepted_pressure_policy [OF accepted_reserve(2) [OF s(1)] assms(4) [unfolded s(6)]]
  note v = valid_pool_resources [OF s(1) p(1)]
  obtain at_path where "validatePool (su_text e) at_path pool = []" using valid_pool [OF s(1) p(1)] .
  then have "flavor \<noteq> []" using p(2) by (auto simp: validatePool_def validateName_def namePattern_def)
  then have "validate_admission h (ctl_Policy (nd_controller n)) (evaluation_request (pool_allocation n pool img name poolID flavor)) = None"
    unfolding validate_admission_def checks_None_iff
    using assms(3) r t v s(5)
    by (auto simp: snapshot_ok_def percent_bad_def reserve_policy_of_def Let_def evaluation_request_def pool_allocation_def)
  then show ?thesis by (simp add: Evaluate_def Let_def)
qed

section \<open>Every admission has its intent\<close>

text \<open>An admission leaves a lease with the requested resources in the file.\<close>

lemma admitted_lease_recorded:
  assumes "wf_file f" "admit c env now host inventory req b f = (Inr r, f')" "Admitted (ar_Decision r)"
  shows "\<exists>j l. readUnlocked f' = Inr j \<and> get (j_Leases j) (a_InstanceName (r_Allocation req)) = Some l
    \<and> l_VCPU l = a_VCPU (r_Allocation req) \<and> l_MemoryMiB l = a_MemoryMiB (r_Allocation req)"
proof -
  obtain obs j2 where v: "validateAllocation (r_Allocation req) = None"
      "store_Update env (admit_mutation c host obs req b now) f = (Inr (r, j2), f')"
    using admit_Inr [OF assms(2)] by metis
  have name: "a_InstanceName (r_Allocation req) \<noteq> []" using v(1) by (simp add: validateAllocation_def split: if_splits)
  obtain before j j1 where u: "wf_journal before" "admit_mutation c host obs req b now before = Inr (j, r)"
      "readUnlocked f' = Inr j1" "get (j_Leases j1) = get (j_Leases j)"
    using store_Update_result [OF v(2) assms(1) wf_mutation_admit] by metis
  have "\<exists>l. get (j_Leases j) (a_InstanceName (r_Allocation req)) = Some l \<and> l_VCPU l = a_VCPU (r_Allocation req)
      \<and> l_MemoryMiB l = a_MemoryMiB (r_Allocation req)"
    using admit_mutation_step [OF u(2) assms(3) u(1) name] unfolding ledger_step_def by blast
  then show ?thesis using u(3,4) by simp
qed

text \<open>The queue holds an unexpired intent of this account for this scale set that the manager has taken on.\<close>

definition intent_active :: "provider_env \<Rightarrow> string \<Rightarrow> string \<Rightarrow> bool" where
  "intent_active e owner scaleSet \<longleftrightarrow>
     (\<exists>j k i. readJournal (pv_queue e) = Inr j \<and> (k, i) \<in> set (q_Intents j) \<and> admitted_for owner scaleSet i \<and> i_ExpiresAt i > re_now (pv_read e))"

lemma authorize_pool_intent: "authorize_pool e b pool = None \<Longrightarrow> intent_active e (bootstrapOwner b) (pl_ScaleSetName pool)"
  unfolding intent_active_def by (rule ActiveForScaleSet_intent) (simp add: authorize_pool_def split: sum.splits if_splits)

lemma lift_controller_Inr: "lift_controller r = (Inr v, f) \<longleftrightarrow> r = (Inr v, f)"
  by (cases r) (auto simp: lift_controller_def split: sum.splits)

lemma nddev_Admit_steps:
  assumes "nddev_Admit n e b f = (Inr r, f')" "Admitted (ar_Decision r)"
  obtains pool img allocations host where "config_Pool (nd_platform n) (bs_Flavor b) = Some pool" "authorize_pool e b pool = None"
    "observe_fleet n e pool = Inr (allocations, host)" "diagnosticsBlocked n e = Inr False"
    "admit (nd_controller n) (pv_store e) (pv_now e) host allocations
       \<lparr>r_Allocation = pool_allocation n pool img (bs_Name b) (bs_PoolID b) (bs_Flavor b), r_QueueIntentAuthorized = True\<rparr> True f = (Inr r, f')"
  using assms
  by (auto simp: nddev_Admit_def wal_refusal_def coldRequest_def lift_controller_Inr AdmitPreemptible_def
      split: sum.splits option.splits if_splits bool.splits prod.splits)

text \<open>C3: The provider creates nothing without a job. If the provider admits a create, or hands a warm instance to one, then the
  queue holds an unexpired intent, taken on by the manager, of the very account in the requested repository's address and of the
  scale set that the platform declares for the pool; and an admission also found the diagnostics spool below its
  watermark and left in the journal a lease of the requested name that holds exactly the pool's reservation.\<close>

theorem provider_needs_intent:
  assumes "wf_file f"
  shows "(nddev_Admit n e b f = (Inr r, f') \<and> Admitted (ar_Decision r) \<longrightarrow>
           (\<exists>pool. config_Pool (nd_platform n) (bs_Flavor b) = Some pool \<and> intent_active e (bootstrapOwner b) (pl_ScaleSetName pool)
              \<and> (\<exists>bytes. pv_spool_bytes e = Some bytes \<and> \<not> AtDurableWALHighWatermark bytes (nd_diagnosticsMaxBytes n))
              \<and> (\<exists>j l. readUnlocked f' = Inr j \<and> get (j_Leases j) (bs_Name b) = Some l \<and> l_VCPU l = rv_CPUUnits (EffectiveReservation pool)
                   \<and> l_MemoryMiB l = rv_MemoryMiB (EffectiveReservation pool))))
    \<and> (nddev_ClaimWarm n e b f = (Inr w, f') \<and> wr_Found w \<longrightarrow>
           (\<exists>pool. config_Pool (nd_platform n) (bs_Flavor b) = Some pool \<and> intent_active e (bootstrapOwner b) (pl_ScaleSetName pool)))"
proof (intro conjI impI)
  assume "nddev_Admit n e b f = (Inr r, f') \<and> Admitted (ar_Decision r)"
  then have a: "nddev_Admit n e b f = (Inr r, f')" "Admitted (ar_Decision r)" by simp_all
  obtain pool img allocations host where s: "config_Pool (nd_platform n) (bs_Flavor b) = Some pool" "authorize_pool e b pool = None"
      "diagnosticsBlocked n e = Inr False"
      "admit (nd_controller n) (pv_store e) (pv_now e) host allocations
         \<lparr>r_Allocation = pool_allocation n pool img (bs_Name b) (bs_PoolID b) (bs_Flavor b), r_QueueIntentAuthorized = True\<rparr> True f = (Inr r, f')"
    using nddev_Admit_steps [OF a] by metis
  have "\<exists>bytes. pv_spool_bytes e = Some bytes \<and> \<not> AtDurableWALHighWatermark bytes (nd_diagnosticsMaxBytes n)"
    using s(3) by (auto simp: diagnosticsBlocked_def split: option.splits)
  then show "\<exists>pool. config_Pool (nd_platform n) (bs_Flavor b) = Some pool \<and> intent_active e (bootstrapOwner b) (pl_ScaleSetName pool)
      \<and> (\<exists>bytes. pv_spool_bytes e = Some bytes \<and> \<not> AtDurableWALHighWatermark bytes (nd_diagnosticsMaxBytes n))
      \<and> (\<exists>j l. readUnlocked f' = Inr j \<and> get (j_Leases j) (bs_Name b) = Some l \<and> l_VCPU l = rv_CPUUnits (EffectiveReservation pool)
           \<and> l_MemoryMiB l = rv_MemoryMiB (EffectiveReservation pool))"
    using s(1) authorize_pool_intent [OF s(2)] admitted_lease_recorded [OF assms s(4) a(2)] by (simp add: pool_allocation_def)
next
  assume "nddev_ClaimWarm n e b f = (Inr w, f') \<and> wr_Found w"
  then obtain pool where "config_Pool (nd_platform n) (bs_Flavor b) = Some pool" "authorize_pool e b pool = None"
    by (auto simp: nddev_ClaimWarm_def split: option.splits)
  then show "\<exists>pool. config_Pool (nd_platform n) (bs_Flavor b) = Some pool \<and> intent_active e (bootstrapOwner b) (pl_ScaleSetName pool)"
    using authorize_pool_intent by blast
qed

section \<open>A provider at work\<close>

definition demo_image :: worker_image where
  "demo_image = \<lparr>wi_Alias = ''gha-standard'', wi_Fingerprint = ''f1'', wi_PreviousFingerprint = ''f0'', wi_Variant = ''standard'',
     wi_InstanceType = ''container'', wi_RunnerUID = 1001, wi_RunnerGID = 1001\<rparr>"

definition demo_provider_config :: incus_config where
  "demo_provider_config = \<lparr>ic_IncludeDefaultProfile = False, ic_SecureBoot = False, ic_WorkerImages = [(''nddev-linux-standard'', demo_image)], ic_AdmissionLeaseSeconds = 600,
     ic_PreviousProviderIdentities = [\<lparr>pi_Version = ''v0.1.5-nddev.132'', pi_Commit = ''c0''\<rparr>], ic_DiagnosticsMaxTotalBytes = 1000\<rparr>"

definition demo_setup :: setup_env where
  "demo_setup = \<lparr>su_text = demo_text_env, su_platform = Some demo_fleet, su_hostname = Some ''example-runner-1'', su_Version = ''v0.1.5-nddev.133''\<rparr>"

definition demo_nddev :: nddev_admission where
  "demo_nddev = \<lparr>nd_cfg = demo_provider_config, nd_platform = demo_fleet, nd_controllerID = ''c1'', nd_workerImages = ic_WorkerImages demo_provider_config,
     nd_pressurePolicy = fc_Pressure demo_fleet,
     nd_controller = \<lparr>ctl_ControllerID = ''c1'', ctl_Policy = reserve_policy_of demo_fleet, ctl_LeaseTTL = mul64 600 second\<rparr>, nd_diagnosticsMaxBytes = 1000\<rparr>"

lemma demo_nddev_started: "newNDDevAdmission demo_setup demo_provider_config ''c1'' = Inr demo_nddev"
proof -
  have i: "validateWorkerImageMappings demo_fleet (ic_WorkerImages demo_provider_config) = None" by code_simp
  have r: "IsRelease ''v0.1.5-nddev.133''" by code_simp
  have t: "trim_space ''example-runner-1'' \<noteq> []" by code_simp
  have p: "pf_Host (fc_Platform demo_fleet) = ''example-runner-1''" "cp_ProviderVersion (fc_ControlPlane demo_fleet) = ''v0.1.5-nddev.133''"
    by (simp_all add: demo_fleet_def)
  show ?thesis
    by (simp add: newNDDevAdmission_def demo_setup_def demo_fleet_valid p t r i platformHostMatches_def demo_nddev_def)
       (simp add: demo_provider_config_def)
qed

text \<open>One executing worker of the previous release and image, a stopped remnant, and an instance that only its lease knows.\<close>

definition demo_worker :: listed_instance where
  "demo_worker = \<lparr>ii_Name = ''job-1'', ii_Type = ''container'', ii_Status = ''Running'', ii_Location = ''one'', ii_Profiles = [''nddev-linux-standard''],
     ii_ExpandedConfig = [(flavorKey, ''nddev-linux-standard''), (lifecycleKey, lifecycleEphemeralOneJob), (imageFingerprintKey, ''f0''),
       (providerVersionKey, ''v0.1.5-nddev.132''), (providerCommitKey, ''c0''), (controllerIDKeyName, ''c1''), (imageAliasKey, ''gha-standard''),
       (osTypeKeyName, ''linux''), (osArchKeyName, ''amd64''), (''security.nesting'', ''false''), (''security.privileged'', ''false''),
       (''security.syscalls.intercept.mknod'', ''false''), (''security.syscalls.intercept.setxattr'', ''false''), (trustKey, ''trusted''),
       (instanceScaleSetKey, ''nddev-linux-standard''), (networkPolicyKey, ''public-internet''), (cacheWriteScopeKey, ''trusted''),
       (poolIDKey, ''pool-1''), (garmJobNameKey, ''job-1'')]\<rparr>"

definition demo_remnant :: listed_instance where
  "demo_remnant = \<lparr>ii_Name = ''gone'', ii_Type = ''container'', ii_Status = ''Stopped'', ii_Location = ''one'', ii_Profiles = [], ii_ExpandedConfig = []\<rparr>"

definition demo_observation :: observation where
  "demo_observation = \<lparr>ob_context = True, ob_instances = Some [demo_worker, demo_remnant],
     ob_read = \<lparr>re_context = True, re_path = True, re_now = 5\<rparr>, ob_journal = (\<lambda>name. NoFile)\<rparr>"


theorem started_provider_decides_witness:
  "\<exists>d. Evaluate sample_snapshot (ctl_Policy (nd_controller demo_nddev))
     (evaluation_request (pool_allocation demo_nddev demo_standard demo_image ''job-2'' ''pool-1'' ''nddev-linux-standard'')) = Inr d"
proof (rule started_provider_decides [OF demo_nddev_started])
  show "config_Pool (nd_platform demo_nddev) ''nddev-linux-standard'' = Some demo_standard"
    by (simp add: demo_nddev_def config_Pool_def demo_fleet_def demo_standard_def demo_pool_def)
  show "snapshot_ok sample_snapshot" by code_simp
  show "F_NaN \<notin> {CPUSomeReopen (nd_pressurePolicy demo_nddev), MemoryFullReopen (nd_pressurePolicy demo_nddev), IOFullReopen (nd_pressurePolicy demo_nddev)}"
    by (simp add: demo_nddev_def demo_fleet_def)
qed

definition demo_create :: bootstrap where
  "demo_create = \<lparr>bs_Name = ''job-2'', bs_PoolID = ''pool-1'', bs_Flavor = ''nddev-linux-standard'', bs_RepoURL = ''https://github.com/example-org/app''\<rparr>"

definition demo_waiting :: queue_journal where
  "demo_waiting = demo_queue\<lparr>q_Intents := [(''github-scale-set-job:v2:4:a'', (demo_intent ''a'' Queue_Intent.StateAssigned [])\<lparr>i_ScaleSetName := ''nddev-linux-standard''\<rparr>)]\<rparr>"

definition demo_provider_env :: provider_env where
  "demo_provider_env = \<lparr>pv_spool_bytes = Some 799, pv_read = \<lparr>re_context = True, re_path = True, re_now = 1000\<rparr>,
     pv_queue = QueueFile (queue_doc_of demo_waiting), pv_observations = (\<lambda>attempt. demo_observation), pv_codec = demo_codec,
     pv_fleet = \<lparr>fe_server = Some True, fe_members = Some demo_members, fe_now = 100, fe_probe = None\<rparr>, pv_store = writable, pv_now = 5,
     pv_current = \<lparr>pi_Version = ''v0.1.5-nddev.133'', pi_Commit = ''c1''\<rparr>\<rparr>"

theorem provider_needs_intent_witness:
  "\<exists>r f'. nddev_Admit demo_nddev demo_provider_env demo_create NoFile = (Inr r, f') \<and> Admitted (ar_Decision r)
     \<and> intent_active demo_provider_env ''example-org'' ''nddev-linux-standard''"
proof -
  have "case nddev_Admit demo_nddev demo_provider_env demo_create NoFile of (Inr r, f') \<Rightarrow> Admitted (ar_Decision r) | _ \<Rightarrow> False" by code_simp
  then obtain r f' where r: "nddev_Admit demo_nddev demo_provider_env demo_create NoFile = (Inr r, f')" "Admitted (ar_Decision r)"
    by (auto split: prod.split_asm sum.split_asm)
  have o: "bootstrapOwner demo_create = ''example-org''" by code_simp
  have p: "config_Pool (nd_platform demo_nddev) (bs_Flavor demo_create) = Some demo_standard" "pl_ScaleSetName demo_standard = ''nddev-linux-standard''"
    by (simp_all add: demo_nddev_def config_Pool_def demo_fleet_def demo_standard_def demo_pool_def demo_create_def)
  have "wf_file NoFile" by (simp add: wf_file_def)
  from provider_needs_intent [OF this, of demo_nddev demo_provider_env demo_create r f'] r show ?thesis by (auto simp: o p)
qed

end
