(* ===== verification/Warm_Pool.thy ===== *)
theory Warm_Pool
  imports Incus_Admission
begin

text \<open>
  The warm pool of the Incus provider (\<open>src/internal/garmproviderincus/provider/warm.go\<close>): draining one instance, creating and
  promoting unregistered instances and the pass that converges a pool to its target, together with the deletion of an
  instance and the image policy it uses from \<open>incus.go\<close>. Every call of the provider meets the answers that its number
  selects; the journal is threaded through all of them. Capturing diagnostics before a deletion, the waits inside a launch and a
  stop, and tracing have no effect on this state and are left out.
\<close>

section \<open>What Incus answers\<close>

text \<open>An error of the client: whether it is a not-found answer, and its text. Wrapping an error keeps the first and prefixes the
  second.\<close>

record api_error =
  ae_not_found :: bool
  ae_message :: string

definition wrap_error :: "string \<Rightarrow> api_error \<Rightarrow> api_error" where
  "wrap_error label err = err\<lparr>ae_message := label @ '': '' @ ae_message err\<rparr>"

text \<open>An instance with its state (\<open>api.InstanceFull\<close>); \<open>iu_Status\<close> is absent where the state is.\<close>

record instance_full =
  iu_instance :: listed_instance
  iu_Architecture :: string
  iu_Config :: "string gomap"
  iu_Status :: "string option"

text \<open>The readiness file of a guest: its bytes, and the owner, mode and type that the server reports for it.\<close>

record file_answer =
  fa_data :: string
  fa_response :: "(int \<times> int \<times> int \<times> string) option"

datatype stop_answer = StopDone | StopMissing | StopAlready | StopFailed

datatype delete_answer = DeleteDone | DeleteMissing | DeleteFailed

text \<open>The answers that one call of the provider meets: whether a client connects, the world its admission controller sees, the
  instance it fetches (twice, if it retries), how stopping, deleting, updating and launching go, and the clock of a release.\<close>

record call_answers =
  an_client :: bool
  an_env :: provider_env
  an_instance :: "api_error + instance_full"
  an_again :: "api_error + instance_full"
  an_stop :: stop_answer
  an_delete :: delete_answer
  an_file :: "api_error + file_answer"
  an_update :: "api_error option"
  an_suffix :: "string option"
  an_profiles :: "string list option"
  an_image :: "(string \<times> string gomap) option option"
  an_launch :: "api_error option"
  an_address :: "api_error option"
  an_clock :: "string \<Rightarrow> time"

datatype warm_error =
    WarmPoolUnknown string | WarmNoClient | WarmAdmission provider_error | WarmListing | WarmNotManaged string | WarmApi api_error
  | WarmStop string | WarmDelete string | WarmImage string | WarmWrong string string | WarmOutdated string string | WarmNotRunning string
  | WarmNotPreparing string | WarmEvidence string | WarmNoSuffix | WarmArguments | WarmTimeout string | WarmNeverReady | WarmPoll
  | WarmPlacementRefused string | WarmCleanup warm_error warm_error

definition lift_warm :: "(provider_error + 'r) \<Rightarrow> warm_error + 'r" where
  "lift_warm r = (case r of Inl e \<Rightarrow> Inl (WarmAdmission e) | Inr v \<Rightarrow> Inr v)"

section \<open>Deleting an instance (\<open>incus.go\<close>)\<close>

definition getManagedInstance :: "nddev_admission \<Rightarrow> call_answers \<Rightarrow> string \<Rightarrow> warm_error + instance_full" where
  "getManagedInstance n an name =
     (if \<not> an_client an then Inl WarmNoClient
      else (case an_instance an of
              Inl err \<Rightarrow> Inl (WarmApi (wrap_error ''fetching instance'' err))
            | Inr i \<Rightarrow> if meta (iu_instance i) controllerIDKeyName \<noteq> nd_controllerID n then Inl (WarmNotManaged name) else Inr i))"

fun is_not_found :: "warm_error \<Rightarrow> bool" where
  "is_not_found (WarmApi err) = ae_not_found err"
| "is_not_found _ = False"

definition release_lease :: "nddev_admission \<Rightarrow> call_answers \<Rightarrow> string \<Rightarrow> journal_file \<Rightarrow> (warm_error + unit) \<times> journal_file" where
  "release_lease n an name f =
     (case lift_controller (Release (nd_controller n) (pv_store (an_env an)) (an_clock an) name f) of (r, f') \<Rightarrow> (lift_warm r, f'))"

text \<open>The request to Incus is an effect: the names for which a delete was issued are the third component.\<close>

definition finish_delete :: "nddev_admission \<Rightarrow> call_answers \<Rightarrow> string \<Rightarrow> journal_file \<Rightarrow> (warm_error + unit) \<times> journal_file" where
  "finish_delete n an name f =
     (case an_delete an of
        DeleteMissing \<Rightarrow> release_lease n an name f
      | DeleteFailed \<Rightarrow> (Inl (WarmDelete name), f)
      | DeleteDone \<Rightarrow> (case nddev_Reconcile n (an_env an) f of (r, f') \<Rightarrow> (lift_warm r, f')))"

definition DeleteInstance :: "nddev_admission \<Rightarrow> call_answers \<Rightarrow> string \<Rightarrow> journal_file \<Rightarrow> (warm_error + unit) \<times> journal_file \<times> string list" where
  "DeleteInstance n an identifier f =
     (case Resolve (nd_controller n) (pv_store (an_env an)) identifier f of
        Inl err \<Rightarrow> (Inl (WarmAdmission (ControllerFailed err)), f, [])
      | Inr name \<Rightarrow>
          if \<not> an_client an then (Inl WarmNoClient, f, [])
          else (case getManagedInstance n an name of
             Inl err \<Rightarrow> if is_not_found err then (case release_lease n an name f of (r, f') \<Rightarrow> (r, f', [])) else (Inl err, f, [])
           | Inr i \<Rightarrow>
               (case lift_controller (MarkDeleting (nd_controller n) (pv_store (an_env an)) (pv_now (an_env an)) name f) of
                  (Inl err, f') \<Rightarrow> (Inl (WarmAdmission err), f', [])
                | (Inr _, f') \<Rightarrow>
                    (case an_stop an of
                       StopMissing \<Rightarrow> (case release_lease n an name f' of (r, f'') \<Rightarrow> (r, f'', []))
                     | StopFailed \<Rightarrow> (Inl (WarmStop name), f', [])
                     | _ \<Rightarrow> (case finish_delete n an name f' of (r, f'') \<Rightarrow> (r, f'', [name]))))))"

section \<open>Warm metadata\<close>

definition workerImagePolicy :: "nddev_admission \<Rightarrow> string \<Rightarrow> warm_error + worker_image" where
  "workerImagePolicy n flavor =
     (case config_Pool (nd_platform n) flavor of
        None \<Rightarrow> Inl (WarmPoolUnknown flavor)
      | Some pool \<Rightarrow>
          (case get (ic_WorkerImages (nd_cfg n)) flavor of
             None \<Rightarrow> Inl (WarmImage flavor)
           | Some img \<Rightarrow>
               (case config_Backend (nd_platform n) (pl_Backend pool) of
                  None \<Rightarrow> Inl (WarmImage flavor)
                | Some backend \<Rightarrow>
                    if wi_InstanceType img \<noteq> (if be_Implementation backend = ''incus-container'' then ''container'' else ''virtual-machine'')
                    then Inl (WarmImage flavor) else Inr img)))"

definition image_variant :: "string gomap \<Rightarrow> string" where
  "image_variant properties = config_value properties ''user.nddev.image.variant''"

definition validateResolvedWorkerImage :: "(string \<times> string gomap) option \<Rightarrow> worker_image \<Rightarrow> bool" where
  "validateResolvedWorkerImage resolved policy =
     (case resolved of
        None \<Rightarrow> False
      | Some (fingerprint, properties) \<Rightarrow> fingerprint = wi_Fingerprint policy \<and> image_variant properties = wi_Variant policy)"

definition getProfiles :: "nddev_admission \<Rightarrow> call_answers \<Rightarrow> string \<Rightarrow> warm_error + string list" where
  "getProfiles n an flavor =
     (if \<not> an_client an then Inl WarmNoClient
      else (case an_profiles an of
              None \<Rightarrow> Inl WarmArguments
            | Some profiles \<Rightarrow>
                if flavor \<notin> set profiles then Inl WarmArguments
                else Inr ((if ic_IncludeDefaultProfile (nd_cfg n) then [''default''] else []) @ [flavor])))"

text \<open>What a launch asks of Incus.\<close>

record create_args =
  ag_Name :: string
  ag_Type :: string
  ag_Architecture :: string
  ag_Profiles :: "string list"
  ag_Config :: "string gomap"
  ag_Fingerprint :: string

definition warm_config :: "nddev_admission \<Rightarrow> provider_identity \<Rightarrow> Pool \<Rightarrow> worker_image \<Rightarrow> string \<Rightarrow> string gomap" where
  "warm_config n current pool img flavor =
     [(osTypeKeyName, ''linux''), (osArchKeyName, ''amd64''), (controllerIDKeyName, nd_controllerID n), (poolIDKey, warm_prefix @ flavor),
      (imageAliasKey, wi_Alias img), (imageFingerprintKey, wi_Fingerprint img), (providerVersionKey, pi_Version current),
      (providerCommitKey, pi_Commit current), (flavorKey, flavor), (lifecycleKey, lifecycleWarmPreparing), (warmReadyKey, ''false''),
      (trustKey, pl_Trust pool), (instanceScaleSetKey, pl_ScaleSetName pool), (repositoryKey, ''''), (garmJobNameKey, ''''),
      (networkPolicyKey, ca_NetworkPolicy (pl_Capabilities pool)), (cacheWriteScopeKey, ca_CacheWriteScope (pl_Capabilities pool)),
      (''boot.autostart'', ''true'')]
     @ (if wi_InstanceType img = ''virtual-machine''
        then [(''security.secureboot'', if ic_SecureBoot (nd_cfg n) then ''true'' else ''false''), (''raw.qemu'', ''-cpu host,-vmx,-svm'')]
        else [(''security.privileged'', ''false''), (''security.nesting'', if ca_Docker (pl_Capabilities pool) then ''true'' else ''false''),
              (''security.syscalls.intercept.mknod'', ''false''), (''security.syscalls.intercept.setxattr'', ''false'')])"

definition getWarmCreateArgs :: "nddev_admission \<Rightarrow> provider_identity \<Rightarrow> call_answers \<Rightarrow> string \<Rightarrow> string \<Rightarrow> warm_error + create_args" where
  "getWarmCreateArgs n current an flavor name =
     (case config_Pool (nd_platform n) flavor of
        None \<Rightarrow> Inl (WarmPoolUnknown flavor)
      | Some pool \<Rightarrow>
          (case workerImagePolicy n flavor of
             Inl err \<Rightarrow> Inl err
           | Inr img \<Rightarrow>
               (case getProfiles n an flavor of
                  Inl err \<Rightarrow> Inl err
                | Inr profiles \<Rightarrow>
                    (case an_image an of
                       None \<Rightarrow> Inl WarmArguments
                     | Some resolved \<Rightarrow>
                         if \<not> validateResolvedWorkerImage resolved img then Inl (WarmImage flavor)
                         else Inr \<lparr>ag_Name = name, ag_Type = wi_InstanceType img, ag_Architecture = ''x86_64'', ag_Profiles = profiles,
                                   ag_Config = warm_config n current pool img flavor, ag_Fingerprint = fst (the resolved)\<rparr>))))"

definition warm_key_error :: "(string \<Rightarrow> string \<Rightarrow> warm_error) \<Rightarrow> listed_instance \<Rightarrow> string \<times> string \<Rightarrow> warm_error option" where
  "warm_key_error err i check = (if meta i (fst check) \<noteq> snd check then Some (err (ii_Name i) (fst check)) else None)"

definition warm_currency :: "provider_identity \<Rightarrow> Pool \<Rightarrow> worker_image \<Rightarrow> (string \<times> string) list" where
  "warm_currency current pool img =
     [(providerVersionKey, pi_Version current), (providerCommitKey, pi_Commit current), (imageAliasKey, wi_Alias img),
      (imageFingerprintKey, wi_Fingerprint img), (networkPolicyKey, ca_NetworkPolicy (pl_Capabilities pool)),
      (cacheWriteScopeKey, ca_CacheWriteScope (pl_Capabilities pool))]"

definition warm_contract :: "nddev_admission \<Rightarrow> Pool \<Rightarrow> worker_image \<Rightarrow> string \<Rightarrow> (string \<times> string) list" where
  "warm_contract n pool img flavor =
     [(controllerIDKeyName, nd_controllerID n), (poolIDKey, warm_prefix @ flavor), (flavorKey, flavor), (lifecycleKey, lifecycleWarmUnregistered),
      (warmReadyKey, ''true''), (trustKey, pl_Trust pool), (instanceScaleSetKey, pl_ScaleSetName pool), (repositoryKey, ''''), (garmJobNameKey, ''''),
      (osTypeKeyName, ''linux''), (osArchKeyName, ''amd64''), (''boot.autostart'', ''true'')]
     @ filter (\<lambda>check. fst check \<noteq> imageAliasKey) (snd (managedSecurityContract img))"

definition validateWarmReadyMetadata :: "nddev_admission \<Rightarrow> provider_identity \<Rightarrow> instance_full \<Rightarrow> string \<Rightarrow> warm_error option" where
  "validateWarmReadyMetadata n current u flavor =
     (let i = iu_instance u
      in case config_Pool (nd_platform n) flavor of
           None \<Rightarrow> Some (WarmPoolUnknown flavor)
         | Some pool \<Rightarrow>
             (case workerImagePolicy n flavor of
                Inl err \<Rightarrow> Some err
              | Inr img \<Rightarrow>
                  then_check (first_error (warm_key_error WarmOutdated i) (warm_currency current pool img))
                  (then_check (first_error (warm_key_error WarmWrong i) (warm_contract n pool img flavor))
                  (checks [
                     (ii_Type i \<noteq> fst (managedSecurityContract img), WarmWrong (ii_Name i) ''type''),
                     (iu_Architecture u \<noteq> ''x86_64'' \<or> ii_Profiles i \<noteq> [flavor] \<or> iu_Status u \<noteq> Some ''Running'', WarmNotRunning (ii_Name i))]))))"

text \<open>The \<open>errors.Is\<close> test for an outdated instance.\<close>

fun is_outdated :: "warm_error \<Rightarrow> bool" where
  "is_outdated (WarmOutdated name key) = True"
| "is_outdated _ = False"

section \<open>Promotion\<close>

abbreviation warmReadyEvidence :: string where "warmReadyEvidence \<equiv> ''ready-unregistered-v1'' @ [CHR 0x0A]"

definition evidence_ok :: "file_answer \<Rightarrow> bool" where
  "evidence_ok a \<longleftrightarrow> length (fa_data a) \<le> 128 \<and> fa_data a = warmReadyEvidence \<and> fa_response a = Some (0, 0, 420, ''file'')"

text \<open>The configuration that the update writes.\<close>

definition promoted_config :: "string gomap \<Rightarrow> string gomap" where
  "promoted_config config = put warmReadyKey ''true'' (put lifecycleKey lifecycleWarmUnregistered config)"

definition promoteWarmReady :: "nddev_admission \<Rightarrow> provider_identity \<Rightarrow> call_answers \<Rightarrow> string \<Rightarrow> string \<Rightarrow> warm_error + bool" where
  "promoteWarmReady n current an name flavor =
     (let fetched = (case an_instance an of Inl err \<Rightarrow> if ae_not_found err then Inl err else an_again an | Inr u \<Rightarrow> Inr u)
      in case fetched of
           Inl err \<Rightarrow> Inl (WarmApi (wrap_error ''fetching preparing warm instance'' err))
         | Inr u \<Rightarrow>
             if meta (iu_instance u) lifecycleKey = lifecycleWarmUnregistered
             then (case validateWarmReadyMetadata n current u flavor of Some err \<Rightarrow> Inl err | None \<Rightarrow> Inr True)
             else if meta (iu_instance u) lifecycleKey \<noteq> lifecycleWarmPreparing then Inl (WarmNotPreparing name)
             else (case an_file an of
                     Inl err \<Rightarrow> if ae_not_found err then Inr False else Inl (WarmApi (wrap_error ''reading warm readiness evidence'' err))
                   | Inr a \<Rightarrow>
                       if \<not> evidence_ok a then Inl (WarmEvidence name)
                       else (case an_update an of Some err \<Rightarrow> Inl (WarmApi (wrap_error ''promoting warm readiness metadata'' err)) | None \<Rightarrow> Inr True)))"

text \<open>A vanished instance: a not-found answer, or one of the two texts that Incus gives for an instance that is going away.\<close>

fun warmInstanceRetiredDuringCreate :: "warm_error \<Rightarrow> bool" where
  "warmInstanceRetiredDuringCreate (WarmApi err) \<longleftrightarrow>
     ae_not_found err \<or> contains (ae_message err) ''Instance not found'' \<or> contains (ae_message err) ''Instance storage pool not found''"
| "warmInstanceRetiredDuringCreate _ = False"

definition isPlacementRefusal :: "api_error \<Rightarrow> bool" where
  "isPlacementRefusal err \<longleftrightarrow>
     contains (ae_message err) ''Failed instance placement scriptlet'' \<or> contains (ae_message err) ''no fleet member has room''"

section \<open>One pass of the warm pool (\<open>warm.go\<close>)\<close>

text \<open>The world of a pass: the provider journal, the number of calls made so far, which selects the answers of the next one, and the
  requests made to Incus.\<close>

record warm_world =
  ww_file :: journal_file
  ww_call :: nat
  ww_deletes :: "string list"
  ww_launches :: "string list"

definition next_call :: "warm_world \<Rightarrow> warm_world" where "next_call w = w\<lparr>ww_call := ww_call w + 1\<rparr>"

definition delete_in :: "nddev_admission \<Rightarrow> (nat \<Rightarrow> call_answers) \<Rightarrow> string \<Rightarrow> warm_world \<Rightarrow> (warm_error + unit) \<times> warm_world" where
  "delete_in n A name w =
     (case DeleteInstance n (A (ww_call w)) name (ww_file w) of
        (r, f, ds) \<Rightarrow> (r, next_call (w\<lparr>ww_file := f, ww_deletes := ww_deletes w @ ds\<rparr>)))"

definition release_in :: "nddev_admission \<Rightarrow> (nat \<Rightarrow> call_answers) \<Rightarrow> string \<Rightarrow> warm_world \<Rightarrow> (warm_error + unit) \<times> warm_world" where
  "release_in n A name w = (case release_lease n (A (ww_call w)) name (ww_file w) of (r, f) \<Rightarrow> (r, next_call (w\<lparr>ww_file := f\<rparr>)))"

text \<open>What creating one instance comes to.\<close>

datatype create_outcome =
    WarmCreated string | WarmConsumed string | WarmDeferred decision | WarmAbandoned string | WarmFailed warm_error

text \<open>The deferred cleanup of a failed creation: a created instance is deleted, a reservation without one is released; a failing
  cleanup turns a deferral into an error.\<close>

definition clean_up :: "nddev_admission \<Rightarrow> (nat \<Rightarrow> call_answers) \<Rightarrow> bool \<Rightarrow> string \<Rightarrow> create_outcome \<Rightarrow> warm_world \<Rightarrow> create_outcome \<times> warm_world" where
  "clean_up n A created name outcome w =
     (case (if created then delete_in n A name w else release_in n A name w) of
        (Inr _, w') \<Rightarrow> (outcome, w')
      | (Inl cleanup, w') \<Rightarrow>
          (case outcome of
             WarmFailed err \<Rightarrow> (WarmFailed (WarmCleanup err cleanup), w')
           | WarmDeferred d \<Rightarrow> (WarmFailed cleanup, w')
           | _ \<Rightarrow> (outcome, w')))"

fun waitWarmReady :: "nddev_admission \<Rightarrow> provider_identity \<Rightarrow> (nat \<Rightarrow> call_answers) \<Rightarrow> string \<Rightarrow> string \<Rightarrow> nat \<Rightarrow> warm_world \<Rightarrow> (warm_error + unit) \<times> warm_world" where
  "waitWarmReady n current A name flavor left w =
     (case promoteWarmReady n current (A (ww_call w)) name flavor of
        Inl err \<Rightarrow> (Inl err, next_call w)
      | Inr True \<Rightarrow> (Inr (), next_call w)
      | Inr False \<Rightarrow>
          (case left of 0 \<Rightarrow> (Inl (WarmTimeout name), next_call w) | Suc left' \<Rightarrow> waitWarmReady n current A name flavor left' (next_call w)))"

fun is_timeout :: "warm_error \<Rightarrow> bool" where
  "is_timeout (WarmTimeout name) = True"
| "is_timeout _ = False"

definition await_ready :: "nddev_admission \<Rightarrow> provider_identity \<Rightarrow> (nat \<Rightarrow> call_answers) \<Rightarrow> nat \<Rightarrow> string \<Rightarrow> string \<Rightarrow> warm_world \<Rightarrow> create_outcome \<times> warm_world" where
  "await_ready n current A polls name flavor w =
     (case waitWarmReady n current A name flavor polls w of
        (Inr _, w') \<Rightarrow> (WarmCreated name, w')
      | (Inl err, w') \<Rightarrow>
          if is_timeout err
          then (case delete_in n A name w' of
                  (Inl failed, w'') \<Rightarrow> clean_up n A True name (WarmFailed failed) w''
                | (Inr _, w'') \<Rightarrow> clean_up n A True name (WarmAbandoned name) w'')
          else if warmInstanceRetiredDuringCreate err then (WarmConsumed name, w')
          else clean_up n A True name (WarmFailed err) w')"

definition launch_warm :: "nddev_admission \<Rightarrow> provider_identity \<Rightarrow> (nat \<Rightarrow> call_answers) \<Rightarrow> nat \<Rightarrow> string \<Rightarrow> string \<Rightarrow> call_answers \<Rightarrow> warm_world \<Rightarrow> create_outcome \<times> warm_world" where
  "launch_warm n current A polls name flavor an w =
     (let w = w\<lparr>ww_launches := ww_launches w @ [name]\<rparr>
      in case an_launch an of
           Some err \<Rightarrow>
             if isPlacementRefusal err
             then clean_up n A False name (WarmDeferred (zero_decision\<lparr>Admitted := False, Reason := ReasonPlacementRefused, Pool := flavor\<rparr>)) w
             else (WarmFailed (WarmApi (wrap_error ''launching warm instance'' err)), w)
         | None \<Rightarrow>
             (case lift_controller (MarkCreated (nd_controller n) (pv_store (an_env an)) (pv_now (an_env an)) name (ww_file w)) of
                (Inl err, f) \<Rightarrow> clean_up n A True name (WarmFailed (WarmAdmission err)) (w\<lparr>ww_file := f\<rparr>)
              | (Inr _, f) \<Rightarrow>
                  (case an_address an of
                     Some err \<Rightarrow>
                       if warmInstanceRetiredDuringCreate (WarmApi err) then (WarmConsumed name, w\<lparr>ww_file := f\<rparr>)
                       else clean_up n A True name (WarmFailed (WarmApi (wrap_error ''waiting for warm instance network'' err))) (w\<lparr>ww_file := f\<rparr>)
                   | None \<Rightarrow> await_ready n current A polls name flavor (w\<lparr>ww_file := f\<rparr>))))"

definition createWarm :: "nddev_admission \<Rightarrow> provider_identity \<Rightarrow> (nat \<Rightarrow> call_answers) \<Rightarrow> nat \<Rightarrow> string \<Rightarrow> warm_world \<Rightarrow> create_outcome \<times> warm_world" where
  "createWarm n current A polls flavor w0 =
     (let an = A (ww_call w0); w = next_call w0
      in case an_suffix an of
           None \<Rightarrow> (WarmFailed WarmNoSuffix, w)
         | Some ending \<Rightarrow>
             (let name = ''warm-'' @ trim_prefix flavor ''nddev-linux-'' @ ''-'' @ ending
              in case AdmitWarm n (an_env an) flavor name (ww_file w) of
                   (Inl err, f) \<Rightarrow> (WarmFailed (WarmAdmission err), w\<lparr>ww_file := f\<rparr>)
                 | (Inr decision, f) \<Rightarrow>
                     if \<not> Admitted decision then (WarmDeferred decision, w\<lparr>ww_file := f\<rparr>)
                     else (case getWarmCreateArgs n current an flavor name of
                             Inl err \<Rightarrow> clean_up n A False name (WarmFailed err) (w\<lparr>ww_file := f\<rparr>)
                           | Inr args \<Rightarrow> launch_warm n current A polls name flavor an (w\<lparr>ww_file := f\<rparr>))))"

section \<open>Reconciling a pool\<close>

record warm_result =
  wo_Applied :: bool
  wo_Pool :: string
  wo_TargetReady :: int
  wo_ReadyBefore :: nat
  wo_ReadyAfter :: nat
  wo_Preparing :: nat
  wo_Claimed :: nat
  wo_Deferred :: bool
  wo_DeferralReason :: reason
  wo_RecycledStale :: "string list"
  wo_AdmissionDecision :: "decision option"
  wo_Created :: "string list"
  wo_Consumed :: "string list"
  wo_Abandoned :: "string list"
  wo_Promoted :: "string list"
  wo_DeletedExcess :: "string list"
  wo_Yielded :: bool

text \<open>What a pass carries from loop to loop: its world, its report, and the names of preparing and of ready instances.\<close>

record warm_pass =
  wx_world :: warm_world
  wx_result :: warm_result
  wx_preparing :: "string list"
  wx_ready :: "string list"

text \<open>A loop that returns on the first error.\<close>

fun run_all :: "('a \<Rightarrow> 's \<Rightarrow> 'e option \<times> 's) \<Rightarrow> 'a list \<Rightarrow> 's \<Rightarrow> 'e option \<times> 's" where
  "run_all step [] s = (None, s)"
| "run_all step (x # xs) s = (case step x s of (Some e, s') \<Rightarrow> (Some e, s') | (None, s') \<Rightarrow> run_all step xs s')"

definition delete_step :: "nddev_admission \<Rightarrow> (nat \<Rightarrow> call_answers) \<Rightarrow> string \<Rightarrow> warm_pass \<Rightarrow> warm_error option \<times> warm_pass" where
  "delete_step n A name x =
     (case delete_in n A name (wx_world x) of
        (Inl err, w) \<Rightarrow> (Some err, x\<lparr>wx_world := w\<rparr>) | (Inr _, w) \<Rightarrow> (None, x\<lparr>wx_world := w\<rparr>))"

definition recycle :: "string \<Rightarrow> warm_pass \<Rightarrow> warm_pass" where
  "recycle name x = x\<lparr>wx_result := (wx_result x)\<lparr>wo_RecycledStale := wo_RecycledStale (wx_result x) @ [name]\<rparr>\<rparr>"

definition scan_one :: "nddev_admission \<Rightarrow> provider_identity \<Rightarrow> (nat \<Rightarrow> call_answers) \<Rightarrow> string \<Rightarrow> bool \<Rightarrow> instance_full \<Rightarrow> warm_pass \<Rightarrow> warm_error option \<times> warm_pass" where
  "scan_one n current A flavor live u x =
     (let i = iu_instance u; name = ii_Name i; lifecycle = meta i lifecycleKey
      in if meta i controllerIDKeyName \<noteq> nd_controllerID n \<or> meta i flavorKey \<noteq> flavor then (None, x)
         else if lifecycle = lifecycleWarmPreparing then (None, x\<lparr>wx_preparing := wx_preparing x @ [name]\<rparr>)
         else if lifecycle = lifecycleWarmUnregistered
         then (case validateWarmReadyMetadata n current u flavor of
                 None \<Rightarrow> (None, x\<lparr>wx_ready := wx_ready x @ [name]\<rparr>)
               | Some err \<Rightarrow>
                   if is_outdated err then (if live then delete_step n A name (recycle name x) else (None, recycle name x))
                   else (Some err, x))
         else if lifecycle = lifecycleEphemeralOneJob
         then (None, x\<lparr>wx_result := (wx_result x)\<lparr>wo_Claimed := wo_Claimed (wx_result x) + 1\<rparr>\<rparr>)
         else (None, x))"

definition promote_one :: "nddev_admission \<Rightarrow> provider_identity \<Rightarrow> (nat \<Rightarrow> call_answers) \<Rightarrow> string \<Rightarrow> string \<Rightarrow> warm_pass \<Rightarrow> warm_error option \<times> warm_pass" where
  "promote_one n current A flavor name x =
     (let x' = x\<lparr>wx_world := next_call (wx_world x)\<rparr>
      in case promoteWarmReady n current (A (ww_call (wx_world x))) name flavor of
           Inl err \<Rightarrow> if warmInstanceRetiredDuringCreate err then (None, x') else (Some err, x')
         | Inr promoted \<Rightarrow>
             (None, if promoted
                    then x'\<lparr>wx_result := (wx_result x')\<lparr>wo_Promoted := wo_Promoted (wx_result x') @ [name]\<rparr>, wx_ready := wx_ready x' @ [name]\<rparr>
                    else x'))"

definition excess :: "string \<Rightarrow> warm_pass \<Rightarrow> warm_pass" where
  "excess name x = x\<lparr>wx_result := (wx_result x)\<lparr>wo_DeletedExcess := wo_DeletedExcess (wx_result x) @ [name]\<rparr>\<rparr>"

definition yield_one :: "nddev_admission \<Rightarrow> (nat \<Rightarrow> call_answers) \<Rightarrow> string \<Rightarrow> warm_pass \<Rightarrow> warm_error option \<times> warm_pass" where
  "yield_one n A name x = (case delete_step n A name x of (Some err, x') \<Rightarrow> (Some err, x') | (None, x') \<Rightarrow> (None, excess name x'))"

text \<open>The loop over the ready names from the last one on. An accepted configuration has no negative target, so the loop ends before
  the names do.\<close>

fun shrink :: "nddev_admission \<Rightarrow> (nat \<Rightarrow> call_answers) \<Rightarrow> bool \<Rightarrow> int \<Rightarrow> nat \<Rightarrow> warm_pass \<Rightarrow> warm_error option \<times> warm_pass" where
  "shrink n A live target 0 x = (None, x)"
| "shrink n A live target (Suc left) x =
     (if int (length (wx_ready x)) \<le> target \<or> wx_ready x = [] then (None, x)
      else (let name = last (wx_ready x); x' = x\<lparr>wx_ready := butlast (wx_ready x)\<rparr>
            in if live
               then (case delete_step n A name x' of (Some err, y) \<Rightarrow> (Some err, y) | (None, y) \<Rightarrow> shrink n A live target left (excess name y))
               else shrink n A live target left (excess name x')))"

fun create_loop :: "nddev_admission \<Rightarrow> provider_identity \<Rightarrow> (nat \<Rightarrow> call_answers) \<Rightarrow> nat \<Rightarrow> string \<Rightarrow> nat \<Rightarrow> warm_pass \<Rightarrow> warm_error option \<times> warm_pass" where
  "create_loop n current A polls flavor 0 x = (None, x)"
| "create_loop n current A polls flavor (Suc left) x =
     (case createWarm n current A polls flavor (wx_world x) of
        (outcome, w) \<Rightarrow>
          (let x = x\<lparr>wx_world := w\<rparr>; r = wx_result x
           in case outcome of
                WarmFailed err \<Rightarrow> (Some err, x)
              | WarmAbandoned name \<Rightarrow> create_loop n current A polls flavor left (x\<lparr>wx_result := r\<lparr>wo_Abandoned := wo_Abandoned r @ [name]\<rparr>\<rparr>)
              | WarmConsumed name \<Rightarrow> create_loop n current A polls flavor left (x\<lparr>wx_result := r\<lparr>wo_Consumed := wo_Consumed r @ [name]\<rparr>\<rparr>)
              | WarmDeferred d \<Rightarrow> (None, x\<lparr>wx_result := r\<lparr>wo_Deferred := True, wo_DeferralReason := Reason d, wo_AdmissionDecision := Some d\<rparr>\<rparr>)
              | WarmCreated name \<Rightarrow>
                  create_loop n current A polls flavor left (x\<lparr>wx_result := r\<lparr>wo_Created := wo_Created r @ [name]\<rparr>, wx_ready := wx_ready x @ [name]\<rparr>)))"

definition and_then :: "'e option \<times> 's \<Rightarrow> ('s \<Rightarrow> 'e option \<times> 's) \<Rightarrow> 'e option \<times> 's" where
  "and_then r k = (case r of (Some e, s) \<Rightarrow> (Some e, s) | (None, s) \<Rightarrow> k s)"

definition warm_start :: "string \<Rightarrow> bool \<Rightarrow> int \<Rightarrow> warm_world \<Rightarrow> warm_pass" where
  "warm_start flavor live target w =
     \<lparr>wx_world = w,
      wx_result = \<lparr>wo_Applied = live, wo_Pool = flavor, wo_TargetReady = target, wo_ReadyBefore = 0, wo_ReadyAfter = 0, wo_Preparing = 0, wo_Claimed = 0,
        wo_Deferred = False, wo_DeferralReason = ReasonUnset, wo_RecycledStale = [], wo_AdmissionDecision = None, wo_Created = [], wo_Consumed = [],
        wo_Abandoned = [], wo_Promoted = [], wo_DeletedExcess = [], wo_Yielded = False\<rparr>,
      wx_preparing = [], wx_ready = []\<rparr>"

definition reconcile_in :: "nddev_admission \<Rightarrow> (nat \<Rightarrow> call_answers) \<Rightarrow> warm_pass \<Rightarrow> warm_error option \<times> warm_pass" where
  "reconcile_in n A x =
     (let w = wx_world x
      in case nddev_Reconcile n (an_env (A (ww_call w))) (ww_file w) of
           (Inl err, f) \<Rightarrow> (Some (WarmAdmission err), x\<lparr>wx_world := next_call (w\<lparr>ww_file := f\<rparr>)\<rparr>)
         | (Inr _, f) \<Rightarrow> (None, x\<lparr>wx_world := next_call (w\<lparr>ww_file := f\<rparr>)\<rparr>))"

text \<open>The inventory: reconcile the journal, list the instances, sort them into ready and preparing.\<close>

definition count_inventory :: "warm_pass \<Rightarrow> warm_pass" where
  "count_inventory x =
     x\<lparr>wx_preparing := sort (wx_preparing x), wx_ready := sort (wx_ready x),
       wx_result := (wx_result x)\<lparr>wo_ReadyBefore := length (wx_ready x), wo_Preparing := length (wx_preparing x)\<rparr>\<rparr>"

definition take_inventory ::
    "nddev_admission \<Rightarrow> provider_identity \<Rightarrow> (nat \<Rightarrow> call_answers) \<Rightarrow> instance_full list option \<Rightarrow> string \<Rightarrow> bool \<Rightarrow> warm_pass \<Rightarrow> warm_error option \<times> warm_pass" where
  "take_inventory n current A listing flavor live x =
     and_then (reconcile_in n A x) (\<lambda>x.
       case listing of
         None \<Rightarrow> (Some WarmListing, x)
       | Some instances \<Rightarrow> and_then (run_all (scan_one n current A flavor live) instances x) (\<lambda>x. (None, count_inventory x)))"

definition mark_yield :: "warm_pass \<Rightarrow> warm_pass" where
  "mark_yield x = x\<lparr>wx_result := (wx_result x)\<lparr>wo_Yielded := True, wo_Deferred := True, wo_DeferralReason := ReasonLargerClassWaiting\<rparr>\<rparr>"

definition promote_all :: "nddev_admission \<Rightarrow> provider_identity \<Rightarrow> (nat \<Rightarrow> call_answers) \<Rightarrow> string \<Rightarrow> bool \<Rightarrow> warm_pass \<Rightarrow> warm_error option \<times> warm_pass" where
  "promote_all n current A flavor live x =
     (if \<not> live then (None, x)
      else and_then (run_all (promote_one n current A flavor) (wx_preparing x) x) (\<lambda>x. (None, x\<lparr>wx_ready := sort (wx_ready x)\<rparr>)))"

text \<open>A yielding pass deletes what is still preparing and forgets it.\<close>

definition forget_preparing :: "warm_pass \<Rightarrow> warm_pass" where
  "forget_preparing x = x\<lparr>wx_preparing := [], wx_result := (wx_result x)\<lparr>wo_Preparing := 0\<rparr>\<rparr>"

definition yield_preparing :: "nddev_admission \<Rightarrow> (nat \<Rightarrow> call_answers) \<Rightarrow> bool \<Rightarrow> bool \<Rightarrow> warm_pass \<Rightarrow> warm_error option \<times> warm_pass" where
  "yield_preparing n A live yielding x =
     (if \<not> (yielding \<and> live) then (None, x)
      else and_then (run_all (yield_one n A) (filter (\<lambda>name. name \<notin> set (wo_Promoted (wx_result x))) (wx_preparing x)) x)
             (\<lambda>x. (None, forget_preparing x)))"

definition deficit :: "int \<Rightarrow> warm_pass \<Rightarrow> int" where
  "deficit target x = target - int (length (wx_ready x)) - (int (length (wx_preparing x)) - int (length (wo_Promoted (wx_result x))))"

definition refill :: "nddev_admission \<Rightarrow> provider_identity \<Rightarrow> (nat \<Rightarrow> call_answers) \<Rightarrow> nat \<Rightarrow> string \<Rightarrow> bool \<Rightarrow> int \<Rightarrow> warm_pass \<Rightarrow> warm_error option \<times> warm_pass" where
  "refill n current A polls flavor live target x =
     (if deficit target x > 0 \<and> live then create_loop n current A polls flavor (nat (deficit target x)) x else (None, x))"

definition count_ready :: "warm_pass \<Rightarrow> warm_pass" where
  "count_ready x = x\<lparr>wx_result := (wx_result x)\<lparr>wo_ReadyAfter := length (wx_ready x)\<rparr>\<rparr>"

definition converge ::
    "nddev_admission \<Rightarrow> provider_identity \<Rightarrow> (nat \<Rightarrow> call_answers) \<Rightarrow> nat \<Rightarrow> string \<Rightarrow> bool \<Rightarrow> int \<Rightarrow> bool \<Rightarrow> warm_pass \<Rightarrow> warm_error option \<times> warm_pass" where
  "converge n current A polls flavor live target yielding x =
     (let target = (if yielding then 0 else target); x = (if yielding then mark_yield x else x)
      in and_then (promote_all n current A flavor live x) (\<lambda>x.
         and_then (yield_preparing n A live yielding x) (\<lambda>x.
         and_then (shrink n A live target (length (wx_ready x)) x) (\<lambda>x.
         and_then (refill n current A polls flavor live target x) (\<lambda>x.
         and_then (if live then reconcile_in n A x else (None, x)) (\<lambda>x. (None, count_ready x)))))))"

definition ReconcileWarm ::
    "nddev_admission \<Rightarrow> provider_identity \<Rightarrow> (nat \<Rightarrow> call_answers) \<Rightarrow> nat \<Rightarrow> instance_full list option \<Rightarrow> string \<Rightarrow> bool \<Rightarrow> warm_world
      \<Rightarrow> warm_error option \<times> warm_pass" where
  "ReconcileWarm n current A polls listing flavor live w =
     (case config_Pool (nd_platform n) flavor of
        None \<Rightarrow> (Some (WarmPoolUnknown flavor), warm_start [] False 0 w)
      | Some pool \<Rightarrow>
          (let target = wp_TargetReady (pl_Warm pool); x = warm_start flavor live target w
           in if \<not> an_client (A (ww_call w)) then (Some WarmNoClient, x)
              else and_then (take_inventory n current A listing flavor live x) (\<lambda>x.
                case WarmYieldsToJobs n (an_env (A (ww_call (wx_world x)))) flavor (rs_MemoryMiB (pl_Resources pool)) of
                  Inl err \<Rightarrow> (Some (WarmAdmission err), x)
                | Inr yielding \<Rightarrow> converge n current A polls flavor live target yielding x)))"

section \<open>Draining one warm instance\<close>

record drain_result =
  dr_Applied :: bool
  dr_Pool :: string
  dr_Instance :: string
  dr_Deleted :: bool

definition drain_contract :: "Pool \<Rightarrow> worker_image \<Rightarrow> string \<Rightarrow> (string \<times> string) list" where
  "drain_contract pool img flavor =
     [(poolIDKey, warm_prefix @ flavor), (imageAliasKey, wi_Alias img), (imageFingerprintKey, wi_Fingerprint img), (flavorKey, flavor),
      (trustKey, pl_Trust pool), (instanceScaleSetKey, pl_ScaleSetName pool), (repositoryKey, ''''), (garmJobNameKey, ''''),
      (osTypeKeyName, ''linux''), (osArchKeyName, ''amd64'')]
     @ filter (\<lambda>check. fst check \<noteq> imageAliasKey) (snd (managedSecurityContract img))"

definition drain_error :: "Pool \<Rightarrow> worker_image \<Rightarrow> instance_full \<Rightarrow> string \<Rightarrow> warm_error option" where
  "drain_error pool img u flavor =
     (let i = iu_instance u
      in then_check (first_error (warm_key_error WarmWrong i) (drain_contract pool img flavor))
         (checks [
            (meta i lifecycleKey \<notin> {lifecycleWarmPreparing, lifecycleWarmUnregistered}, WarmWrong (ii_Name i) lifecycleKey),
            (ii_Type i \<noteq> fst (managedSecurityContract img) \<or> iu_Architecture u \<noteq> ''x86_64'' \<or> ii_Profiles i \<noteq> [flavor], WarmNotRunning (ii_Name i))]))"

definition DrainWarm :: "nddev_admission \<Rightarrow> (nat \<Rightarrow> call_answers) \<Rightarrow> string \<Rightarrow> string \<Rightarrow> bool \<Rightarrow> warm_world \<Rightarrow> (warm_error option \<times> drain_result) \<times> warm_world" where
  "DrainWarm n A flavor name live w0 =
     (let result = \<lparr>dr_Applied = live, dr_Pool = flavor, dr_Instance = name, dr_Deleted = False\<rparr>; an = A (ww_call w0)
      in case lift_controller (AuthorizeWarmDrain (nd_controller n) (pv_store (an_env an)) name (ww_file w0)) of
           (Inl err, f) \<Rightarrow> ((Some (WarmAdmission err), result), next_call (w0\<lparr>ww_file := f\<rparr>))
         | (Inr _, f) \<Rightarrow>
             (let w = next_call (w0\<lparr>ww_file := f\<rparr>)
              in case config_Pool (nd_platform n) flavor of
                   None \<Rightarrow> ((Some (WarmPoolUnknown flavor), result), w)
                 | Some pool \<Rightarrow>
                     (case workerImagePolicy n flavor of
                        Inl err \<Rightarrow> ((Some err, result), w)
                      | Inr img \<Rightarrow>
                          (case getManagedInstance n an name of
                             Inl err \<Rightarrow> ((Some err, result), w)
                           | Inr u \<Rightarrow>
                               (case drain_error pool img u flavor of
                                  Some err \<Rightarrow> ((Some err, result), w)
                                | None \<Rightarrow>
                                    if \<not> live then ((None, result), w)
                                    else (case delete_in n A name w of
                                            (Inl err, w') \<Rightarrow> ((Some err, result), w')
                                          | (Inr _, w') \<Rightarrow> ((None, result\<lparr>dr_Deleted := True\<rparr>), w')))))))"

section \<open>Loops and what they keep\<close>

lemma run_all_keeps:
  assumes "\<And>x s e s'. x \<in> set xs \<Longrightarrow> P s \<Longrightarrow> step x s = (e, s') \<Longrightarrow> P s'" "P s" "run_all step xs s = (e, s')"
  shows "P s'"
  using assms
proof (induction xs arbitrary: s)
  case (Cons x xs)
  obtain d t where d: "step x s = (d, t)" by fastforce
  then have t: "P t" using Cons.prems(1) [of x s d t] Cons.prems(2) by simp
  show ?case
  proof (cases d)
    case None
    then show ?thesis using Cons.IH [OF _ t] Cons.prems(1,3) d by auto
  next
    case (Some err)
    then show ?thesis using Cons.prems(3) d t by simp
  qed
qed simp

lemma and_then_None: "and_then r k = (None, s) \<longleftrightarrow> (\<exists>t. r = (None, t) \<and> k t = (None, s))"
  by (auto simp: and_then_def split: prod.splits option.splits)

text \<open>What a pass reports of the instances it created, and whether it yielded; only the creation loop changes the former.\<close>

definition creation_report :: "warm_pass \<Rightarrow> string list \<times> string list \<times> string list \<times> decision option" where
  "creation_report x = (let r = wx_result x in (wo_Created r, wo_Consumed r, wo_Abandoned r, wo_AdmissionDecision r))"

lemma delete_step_fields:
  assumes "delete_step n A name x = (e, y)"
  shows "wx_result y = wx_result x" "wx_preparing y = wx_preparing x" "wx_ready y = wx_ready x"
  using assms by (auto simp: delete_step_def split: prod.splits sum.splits)

lemma scan_one_report:
  assumes "scan_one n current A flavor live u x = (e, y)"
  shows "creation_report y = creation_report x \<and> wo_Yielded (wx_result y) = wo_Yielded (wx_result x) \<and> wo_Promoted (wx_result y) = wo_Promoted (wx_result x)
    \<and> wo_TargetReady (wx_result y) = wo_TargetReady (wx_result x)"
  using assms delete_step_fields(1) [of n A "ii_Name (iu_instance u)" "recycle (ii_Name (iu_instance u)) x" e y]
  by (auto simp: scan_one_def Let_def creation_report_def recycle_def split: if_splits option.splits)

lemma promote_one_report:
  assumes "promote_one n current A flavor name x = (e, y)"
  shows "creation_report y = creation_report x \<and> wo_Yielded (wx_result y) = wo_Yielded (wx_result x) \<and> wx_preparing y = wx_preparing x
    \<and> wo_Preparing (wx_result y) = wo_Preparing (wx_result x)"
    and "\<exists>zs. wo_Promoted (wx_result y) = wo_Promoted (wx_result x) @ zs \<and> wx_ready y = wx_ready x @ zs \<and> zs \<in> {[], [name]}"
  using assms by (auto simp: promote_one_def Let_def creation_report_def split: if_splits sum.splits)

lemma yield_one_report:
  assumes "yield_one n A name x = (e, y)"
  shows "creation_report y = creation_report x \<and> wo_Yielded (wx_result y) = wo_Yielded (wx_result x) \<and> wo_Promoted (wx_result y) = wo_Promoted (wx_result x)
    \<and> wx_ready y = wx_ready x"
proof -
  obtain d z where d: "delete_step n A name x = (d, z)" by fastforce
  then show ?thesis using assms delete_step_fields [OF d]
    by (cases d) (auto simp: yield_one_def excess_def creation_report_def Let_def)
qed

section \<open>The phases of a pass\<close>

lemma scan_all_report:
  assumes "run_all (scan_one n current A flavor live) us x = (e, y)"
  shows "creation_report y = creation_report x \<and> wo_Yielded (wx_result y) = wo_Yielded (wx_result x) \<and> wo_Promoted (wx_result y) = wo_Promoted (wx_result x)
    \<and> wo_TargetReady (wx_result y) = wo_TargetReady (wx_result x)"
  by (rule run_all_keeps [where P = "\<lambda>y. creation_report y = creation_report x \<and> wo_Yielded (wx_result y) = wo_Yielded (wx_result x)
        \<and> wo_Promoted (wx_result y) = wo_Promoted (wx_result x) \<and> wo_TargetReady (wx_result y) = wo_TargetReady (wx_result x)", OF _ _ assms])
     (auto dest: scan_one_report)

lemma reconcile_in_fields:
  assumes "reconcile_in n A x = (e, y)"
  shows "wx_result y = wx_result x" "wx_preparing y = wx_preparing x" "wx_ready y = wx_ready x"
  using assms by (auto simp: reconcile_in_def Let_def split: prod.splits sum.splits)

lemma take_inventory_report:
  assumes "take_inventory n current A listing flavor live x = (None, y)"
  shows "creation_report y = creation_report x" "wo_Yielded (wx_result y) = wo_Yielded (wx_result x)" "wo_Promoted (wx_result y) = wo_Promoted (wx_result x)"
    "wo_Preparing (wx_result y) = length (wx_preparing y)"
proof -
  obtain x1 us x2 where x1: "reconcile_in n A x = (None, x1)" "run_all (scan_one n current A flavor live) us x1 = (None, x2)" "y = count_inventory x2"
    using assms by (auto simp: take_inventory_def and_then_None split: option.splits)
  then show "creation_report y = creation_report x" "wo_Yielded (wx_result y) = wo_Yielded (wx_result x)" "wo_Promoted (wx_result y) = wo_Promoted (wx_result x)"
    "wo_Preparing (wx_result y) = length (wx_preparing y)"
    using reconcile_in_fields [OF x1(1)] scan_all_report [OF x1(2)] by (auto simp: count_inventory_def creation_report_def Let_def)
qed

lemma promote_run:
  assumes "run_all (promote_one n current A flavor) names x = (None, y)"
  shows "creation_report y = creation_report x \<and> wo_Yielded (wx_result y) = wo_Yielded (wx_result x) \<and> wx_preparing y = wx_preparing x
    \<and> wo_Preparing (wx_result y) = wo_Preparing (wx_result x)
    \<and> (\<exists>zs. wo_Promoted (wx_result y) = wo_Promoted (wx_result x) @ zs \<and> wx_ready y = wx_ready x @ zs \<and> length zs \<le> length names)"
  using assms
proof (induction names arbitrary: x)
  case (Cons name names)
  obtain x1 where x1: "promote_one n current A flavor name x = (None, x1)" "run_all (promote_one n current A flavor) names x1 = (None, y)"
    using Cons.prems by (auto split: prod.splits option.splits)
  show ?case using promote_one_report [OF x1(1)] Cons.IH [OF x1(2)] by fastforce
qed simp

lemma promote_all_report:
  assumes "promote_all n current A flavor live x = (None, y)" "wo_Promoted (wx_result x) = []"
  shows "creation_report y = creation_report x" "wo_Yielded (wx_result y) = wo_Yielded (wx_result x)" "wx_preparing y = wx_preparing x"
    "length (wo_Promoted (wx_result y)) \<le> length (wx_preparing x)"
    "wo_Preparing (wx_result y) = wo_Preparing (wx_result x)"
proof -
  have "creation_report y = creation_report x \<and> wo_Yielded (wx_result y) = wo_Yielded (wx_result x) \<and> wx_preparing y = wx_preparing x
      \<and> length (wo_Promoted (wx_result y)) \<le> length (wx_preparing x) \<and> wo_Preparing (wx_result y) = wo_Preparing (wx_result x)"
  proof (cases live)
    case True
    then obtain x1 where x1: "run_all (promote_one n current A flavor) (wx_preparing x) x = (None, x1)" "y = x1\<lparr>wx_ready := sort (wx_ready x1)\<rparr>"
      using assms(1) by (auto simp: promote_all_def and_then_None)
    then show ?thesis using promote_run [OF x1(1)] assms(2) by (auto simp: creation_report_def Let_def)
  qed (use assms in \<open>simp add: promote_all_def\<close>)
  then show "creation_report y = creation_report x" "wo_Yielded (wx_result y) = wo_Yielded (wx_result x)" "wx_preparing y = wx_preparing x"
    "length (wo_Promoted (wx_result y)) \<le> length (wx_preparing x)" "wo_Preparing (wx_result y) = wo_Preparing (wx_result x)" by simp_all
qed

lemma yield_preparing_report:
  assumes "yield_preparing n A live yielding x = (None, y)"
  shows "creation_report y = creation_report x" "wo_Yielded (wx_result y) = wo_Yielded (wx_result x)" "wo_Promoted (wx_result y) = wo_Promoted (wx_result x)"
    "wx_ready y = wx_ready x" "live \<Longrightarrow> yielding \<Longrightarrow> wx_preparing y = []" "\<not> yielding \<Longrightarrow> y = x"
proof -
  let ?names = "filter (\<lambda>name. name \<notin> set (wo_Promoted (wx_result x))) (wx_preparing x)"
  have run: "creation_report z = creation_report x \<and> wo_Yielded (wx_result z) = wo_Yielded (wx_result x) \<and> wo_Promoted (wx_result z) = wo_Promoted (wx_result x)
      \<and> wx_ready z = wx_ready x" if "run_all (yield_one n A) ?names x = (None, z)" for z
    by (rule run_all_keeps [where P = "\<lambda>z. creation_report z = creation_report x \<and> wo_Yielded (wx_result z) = wo_Yielded (wx_result x)
          \<and> wo_Promoted (wx_result z) = wo_Promoted (wx_result x) \<and> wx_ready z = wx_ready x", OF _ _ that])
       (auto dest: yield_one_report)
  have "creation_report y = creation_report x \<and> wo_Yielded (wx_result y) = wo_Yielded (wx_result x) \<and> wo_Promoted (wx_result y) = wo_Promoted (wx_result x)
      \<and> wx_ready y = wx_ready x \<and> (live \<longrightarrow> yielding \<longrightarrow> wx_preparing y = []) \<and> (\<not> yielding \<longrightarrow> y = x)"
  proof (cases "yielding \<and> live")
    case True
    then obtain z where z: "run_all (yield_one n A) ?names x = (None, z)" "y = forget_preparing z"
      using assms by (simp add: yield_preparing_def and_then_None) blast
    then show ?thesis using run [OF z(1)] True by (simp add: forget_preparing_def creation_report_def Let_def)
  next
    case False
    then have "y = x" using assms by (simp add: yield_preparing_def)
    then show ?thesis using False by auto
  qed
  then show "creation_report y = creation_report x" "wo_Yielded (wx_result y) = wo_Yielded (wx_result x)" "wo_Promoted (wx_result y) = wo_Promoted (wx_result x)"
    "wx_ready y = wx_ready x" "live \<Longrightarrow> yielding \<Longrightarrow> wx_preparing y = []" "\<not> yielding \<Longrightarrow> y = x" by simp_all
qed

lemma shrink_report:
  assumes "shrink n A live target left x = (None, y)" "0 \<le> target" "length (wx_ready x) \<le> left"
  shows "creation_report y = creation_report x \<and> wo_Yielded (wx_result y) = wo_Yielded (wx_result x) \<and> wo_Promoted (wx_result y) = wo_Promoted (wx_result x)
    \<and> wx_preparing y = wx_preparing x \<and> wo_Preparing (wx_result y) = wo_Preparing (wx_result x)
    \<and> int (length (wx_ready y)) = min (int (length (wx_ready x))) target"
  using assms
proof (induction left arbitrary: x)
  case (Suc left)
  show ?case
  proof (cases "int (length (wx_ready x)) \<le> target \<or> wx_ready x = []")
    case True
    then show ?thesis using Suc.prems by auto
  next
    case False
    let ?name = "last (wx_ready x)" and ?x = "x\<lparr>wx_ready := butlast (wx_ready x)\<rparr>"
    obtain z where z: "wx_result z = wx_result ?x" "wx_preparing z = wx_preparing ?x" "wx_ready z = wx_ready ?x"
        "shrink n A live target left (excess ?name z) = (None, y)"
    proof (cases live)
      case True
      obtain d t where d: "delete_step n A ?name ?x = (d, t)" by fastforce
      then have "d = None" "shrink n A live target left (excess ?name t) = (None, y)"
        using Suc.prems(1) False True by (cases d; simp add: Let_def)+
      then show thesis using that [of t] delete_step_fields [OF d] by blast
    next
      case not_live: False
      then show thesis using that [of ?x] Suc.prems(1) False by (simp add: Let_def)
    qed
    have l: "length (wx_ready (excess ?name z)) \<le> left" using Suc.prems(3) z(3) by (simp add: excess_def)
    show ?thesis using Suc.IH [OF z(4) Suc.prems(2) l] z(1,2,3) False
      by (auto simp: excess_def creation_report_def Let_def min_def)
  qed
qed simp

text \<open>Without a deferral, the creation loop accounts for every instance it was asked for.\<close>

lemma create_loop_counts:
  assumes "create_loop n current A polls flavor left x = (None, y)"
  shows "wx_preparing y = wx_preparing x \<and> wo_Promoted (wx_result y) = wo_Promoted (wx_result x) \<and> wo_Yielded (wx_result y) = wo_Yielded (wx_result x)
    \<and> wo_Preparing (wx_result y) = wo_Preparing (wx_result x)
    \<and> (\<exists>created consumed abandoned. wo_Created (wx_result y) = wo_Created (wx_result x) @ created
         \<and> wo_Consumed (wx_result y) = wo_Consumed (wx_result x) @ consumed \<and> wo_Abandoned (wx_result y) = wo_Abandoned (wx_result x) @ abandoned
         \<and> length (wx_ready y) = length (wx_ready x) + length created \<and> length created + length consumed + length abandoned \<le> left
         \<and> (wo_AdmissionDecision (wx_result y) = None \<longrightarrow> length created + length consumed + length abandoned = left))"
  using assms
proof (induction left arbitrary: x)
  case (Suc left)
  obtain outcome w where c: "createWarm n current A polls flavor (wx_world x) = (outcome, w)" by fastforce
  show ?case using Suc.prems Suc.IH c by (cases outcome) (fastforce simp: Let_def)+
qed simp

section \<open>What a pass comes to\<close>

abbreviation created_count :: "warm_pass \<Rightarrow> nat" where
  "created_count x \<equiv> length (wo_Created (wx_result x)) + length (wo_Consumed (wx_result x)) + length (wo_Abandoned (wx_result x))"

text \<open>The report of a pass that has not created anything yet.\<close>

definition fresh_pass :: "warm_pass \<Rightarrow> bool" where
  "fresh_pass x \<longleftrightarrow> creation_report x = ([], [], [], None) \<and> wo_Promoted (wx_result x) = [] \<and> \<not> wo_Yielded (wx_result x)
     \<and> wo_Preparing (wx_result x) = length (wx_preparing x)"

lemma refill_counts:
  assumes "refill n current A polls flavor True target x = (None, y)" "creation_report x = ([], [], [], None)"
  shows "wx_preparing y = wx_preparing x \<and> wo_Promoted (wx_result y) = wo_Promoted (wx_result x) \<and> wo_Yielded (wx_result y) = wo_Yielded (wx_result x)
    \<and> wo_Preparing (wx_result y) = wo_Preparing (wx_result x)
    \<and> length (wx_ready y) = length (wx_ready x) + length (wo_Created (wx_result y)) \<and> int (created_count y) \<le> max 0 (deficit target x)
    \<and> (wo_AdmissionDecision (wx_result y) = None \<longrightarrow> int (created_count y) = max 0 (deficit target x))"
proof (cases "deficit target x > 0")
  case True
  then have "create_loop n current A polls flavor (nat (deficit target x)) x = (None, y)" using assms(1) by (simp add: refill_def)
  from create_loop_counts [OF this] True assms(2) show ?thesis by (auto simp: creation_report_def Let_def)
next
  case False
  then have "y = x" using assms(1) by (simp add: refill_def)
  then show ?thesis using False assms(2) by (simp add: creation_report_def Let_def)
qed

lemma converge_counts:
  assumes "converge n current A polls flavor True target yielding x = (None, y)" "fresh_pass x" "0 \<le> target"
  shows "wo_Yielded (wx_result y) = yielding
    \<and> (yielding \<longrightarrow> wo_AdmissionDecision (wx_result y) = None \<longrightarrow> created_count y = length (wo_Promoted (wx_result y)))
    \<and> (\<not> yielding \<longrightarrow> int (wo_ReadyAfter (wx_result y)) \<le> target
        \<and> (wo_AdmissionDecision (wx_result y) = None \<longrightarrow>
             target \<le> int (wo_ReadyAfter (wx_result y)) + (int (wo_Preparing (wx_result y)) - int (length (wo_Promoted (wx_result y))))
               + int (length (wo_Consumed (wx_result y))) + int (length (wo_Abandoned (wx_result y)))))"
proof -
  define t where "t = (if yielding then 0 else target)"
  define x0 where "x0 = (if yielding then mark_yield x else x)"
  have t: "0 \<le> t" using assms(3) by (simp add: t_def)
  obtain x1 x2 x3 x4 x5 where
    p1: "promote_all n current A flavor True x0 = (None, x1)" and p2: "yield_preparing n A True yielding x1 = (None, x2)"
    and p3: "shrink n A True t (length (wx_ready x2)) x2 = (None, x3)" and p4: "refill n current A polls flavor True t x3 = (None, x4)"
    and p5: "reconcile_in n A x4 = (None, x5)" and y: "y = count_ready x5"
    using assms(1) by (auto simp: converge_def Let_def and_then_None t_def [symmetric] x0_def [symmetric])
  have f0: "creation_report x0 = ([], [], [], None)" "wo_Promoted (wx_result x0) = []" "wo_Yielded (wx_result x0) = yielding"
      "wo_Preparing (wx_result x0) = length (wx_preparing x0)"
    using assms(2) by (simp_all add: fresh_pass_def x0_def mark_yield_def creation_report_def Let_def)
  note r1 = promote_all_report [OF p1 f0(2)]
  note r2 = yield_preparing_report [OF p2]
  note r3 = shrink_report [OF p3 t order_refl]
  have c3: "creation_report x3 = ([], [], [], None)" using r3 r2(1) r1(1) f0(1) by simp
  note r4 = refill_counts [OF p4 c3]
  note r5 = reconcile_in_fields [OF p5]
  have yx: "wx_result y = (wx_result x4)\<lparr>wo_ReadyAfter := length (wx_ready x4)\<rparr>" using y r5 by (simp add: count_ready_def)
  have yielded: "wo_Yielded (wx_result y) = yielding" using yx r4 r3 r2(2) r1(2) f0(3) by simp
  have promoted: "wo_Promoted (wx_result x4) = wo_Promoted (wx_result x3)" "wo_Promoted (wx_result x3) = wo_Promoted (wx_result x1)"
    using r4 r3 r2(3) by simp_all
  show ?thesis
  proof (cases yielding)
    case True
    then have "wx_preparing x3 = []" "length (wx_ready x3) = 0" using r3 r2(5) by (simp_all add: t_def)
    then have d: "deficit t x3 = int (length (wo_Promoted (wx_result x3)))" using True by (simp add: deficit_def t_def)
    have "int (created_count x4) = int (length (wo_Promoted (wx_result x3)))" if "wo_AdmissionDecision (wx_result x4) = None"
      using r4 that unfolding d by simp
    then have "created_count x4 = length (wo_Promoted (wx_result x4))" if "wo_AdmissionDecision (wx_result x4) = None"
      using that by (simp only: of_nat_eq_iff promoted)
    then show ?thesis using yx yielded True by simp
  next
    case False
    then have x21: "x2 = x1" using r2(6) by blast
    have ready: "int (length (wx_ready x3)) = min (int (length (wx_ready x1))) target" using r3 x21 False by (simp add: t_def)
    have prep: "length (wo_Promoted (wx_result x1)) \<le> length (wx_preparing x1)" "wx_preparing x3 = wx_preparing x1"
        "wo_Preparing (wx_result x4) = length (wx_preparing x1)"
      using r1(3,4,5) r3 r4 x21 f0(4) by simp_all
    have d: "deficit t x3 = target - int (length (wx_ready x3)) - (int (length (wx_preparing x1)) - int (length (wo_Promoted (wx_result x1))))"
      using False prep promoted by (simp add: deficit_def t_def)
    have ra: "int (wo_ReadyAfter (wx_result y)) = int (length (wx_ready x3)) + int (length (wo_Created (wx_result x4)))" using yx r4 by simp
    have c: "int (length (wo_Created (wx_result x4))) + int (length (wo_Consumed (wx_result x4))) + int (length (wo_Abandoned (wx_result x4))) \<le> max 0 (deficit t x3)"
        "wo_AdmissionDecision (wx_result x4) = None \<Longrightarrow>
          int (length (wo_Created (wx_result x4))) + int (length (wo_Consumed (wx_result x4))) + int (length (wo_Abandoned (wx_result x4))) = max 0 (deficit t x3)"
      using r4 by simp_all
    have m: "max 0 (deficit t x3) \<le> target - int (length (wx_ready x3))" using d ready prep(1) by simp
    have "int (wo_ReadyAfter (wx_result y)) \<le> target" unfolding ra using c(1) m by linarith
    moreover have "target \<le> int (wo_ReadyAfter (wx_result y)) + (int (wo_Preparing (wx_result y)) - int (length (wo_Promoted (wx_result y))))
        + int (length (wo_Consumed (wx_result y))) + int (length (wo_Abandoned (wx_result y)))" if "wo_AdmissionDecision (wx_result y) = None"
    proof -
      have "deficit t x3 \<le> int (length (wo_Created (wx_result x4))) + int (length (wo_Consumed (wx_result x4))) + int (length (wo_Abandoned (wx_result x4)))"
        using c(2) that yx by simp
      then show ?thesis unfolding ra using d yx prep(3) promoted by simp
    qed
    ultimately show ?thesis using yielded False by simp
  qed
qed

lemma ReconcileWarm_converge:
  assumes "ReconcileWarm n current A polls listing flavor live w = (None, y)"
  obtains pool x yielding where "config_Pool (nd_platform n) flavor = Some pool" "fresh_pass x"
    "WarmYieldsToJobs n (an_env (A (ww_call (wx_world x)))) flavor (rs_MemoryMiB (pl_Resources pool)) = Inr yielding"
    "take_inventory n current A listing flavor live (warm_start flavor live (wp_TargetReady (pl_Warm pool)) w) = (None, x)"
    "converge n current A polls flavor live (wp_TargetReady (pl_Warm pool)) yielding x = (None, y)"
proof -
  obtain pool where pool: "config_Pool (nd_platform n) flavor = Some pool" using assms by (auto simp: ReconcileWarm_def split: option.splits)
  obtain x where x: "take_inventory n current A listing flavor live (warm_start flavor live (wp_TargetReady (pl_Warm pool)) w) = (None, x)"
      "(case WarmYieldsToJobs n (an_env (A (ww_call (wx_world x)))) flavor (rs_MemoryMiB (pl_Resources pool)) of
          Inl err \<Rightarrow> (Some (WarmAdmission err), x)
        | Inr yielding \<Rightarrow> converge n current A polls flavor live (wp_TargetReady (pl_Warm pool)) yielding x) = (None, y)"
    using assms pool by (auto simp: ReconcileWarm_def Let_def and_then_None split: if_splits)
  obtain yielding where yielding: "WarmYieldsToJobs n (an_env (A (ww_call (wx_world x)))) flavor (rs_MemoryMiB (pl_Resources pool)) = Inr yielding"
    using x(2) by (cases "WarmYieldsToJobs n (an_env (A (ww_call (wx_world x)))) flavor (rs_MemoryMiB (pl_Resources pool))") simp_all
  note p = pool x(1) yielding x(2) [unfolded yielding sum.case]
  have "fresh_pass x" using take_inventory_report [OF p(2)] by (simp add: fresh_pass_def warm_start_def creation_report_def Let_def)
  then show thesis using that p by blast
qed


text \<open>C35: A yielding pass refills what it has just given up. When a pass yields its capacity to a waiting job of another class, it
  deletes the ready and the preparing instances, but then counts the instances that it promoted in the same pass as a deficit:
  unless admission defers it, it attempts exactly as many creations as it had promotions, although its target is zero.\<close>

theorem yielding_pass_refills:
  assumes "ReconcileWarm n current A polls listing flavor True w = (None, y)" "wo_Yielded (wx_result y)" "wo_AdmissionDecision (wx_result y) = None"
    and "config_Pool (nd_platform n) flavor = Some pool" "0 \<le> wp_TargetReady (pl_Warm pool)"
  shows "length (wo_Created (wx_result y)) + length (wo_Consumed (wx_result y)) + length (wo_Abandoned (wx_result y)) = length (wo_Promoted (wx_result y))"
proof -
  obtain x yielding where "fresh_pass x" "converge n current A polls flavor True (wp_TargetReady (pl_Warm pool)) yielding x = (None, y)"
    using ReconcileWarm_converge [OF assms(1)] assms(4) by (metis option.inject)
  from converge_counts [OF this(2,1) assms(5)] show ?thesis using assms(2,3) by blast
qed

section \<open>Only warm instances are given up\<close>

definition warm_listed :: "nddev_admission \<Rightarrow> string \<Rightarrow> instance_full list \<Rightarrow> string set" where
  "warm_listed n flavor us =
     (\<lambda>u. ii_Name (iu_instance u)) ` {u \<in> set us. meta (iu_instance u) controllerIDKeyName = nd_controllerID n \<and> meta (iu_instance u) flavorKey = flavor
        \<and> meta (iu_instance u) lifecycleKey \<in> {lifecycleWarmPreparing, lifecycleWarmUnregistered}}"

definition within_warm :: "string set \<Rightarrow> warm_pass \<Rightarrow> bool" where
  "within_warm S x \<longleftrightarrow> set (wx_preparing x) \<subseteq> S \<and> set (wx_ready x) \<subseteq> S \<and> set (wo_RecycledStale (wx_result x)) \<subseteq> S \<and> set (wo_DeletedExcess (wx_result x)) \<subseteq> S"

lemma within_same_lists:
  "wx_result y = wx_result x \<Longrightarrow> wx_preparing y = wx_preparing x \<Longrightarrow> wx_ready y = wx_ready x \<Longrightarrow> within_warm S y = within_warm S x"
  by (simp add: within_warm_def)

lemma delete_step_within: "delete_step n A name x = (e, y) \<Longrightarrow> within_warm S y = within_warm S x"
  by (rule within_same_lists) (simp_all add: delete_step_fields)

lemma scan_one_within:
  assumes "scan_one n current A flavor live u x = (e, y)" "u \<in> set us" "within_warm (warm_listed n flavor us) x"
  shows "within_warm (warm_listed n flavor us) y"
proof (cases "meta (iu_instance u) controllerIDKeyName = nd_controllerID n \<and> meta (iu_instance u) flavorKey = flavor
      \<and> meta (iu_instance u) lifecycleKey \<in> {lifecycleWarmPreparing, lifecycleWarmUnregistered}")
  case True
  let ?name = "ii_Name (iu_instance u)"
  have "?name \<in> warm_listed n flavor us" unfolding warm_listed_def using True assms(2) by (intro imageI) simp
  then have "within_warm (warm_listed n flavor us) (recycle ?name x)" "within_warm (warm_listed n flavor us) (x\<lparr>wx_ready := wx_ready x @ [?name]\<rparr>)"
      "within_warm (warm_listed n flavor us) (x\<lparr>wx_preparing := wx_preparing x @ [?name]\<rparr>)"
    using assms(3) by (simp_all add: within_warm_def recycle_def)
  then show ?thesis using assms(1,3) True delete_step_within [of n A ?name "recycle ?name x" e y]
    by (auto simp: scan_one_def Let_def split: if_splits option.splits)
next
  case False
  then have "wx_preparing y = wx_preparing x \<and> wx_ready y = wx_ready x \<and> wo_RecycledStale (wx_result y) = wo_RecycledStale (wx_result x)
      \<and> wo_DeletedExcess (wx_result y) = wo_DeletedExcess (wx_result x)"
    using assms(1) by (auto simp: scan_one_def Let_def split: if_splits)
  then show ?thesis using assms(3) by (simp add: within_warm_def)
qed

lemma take_inventory_within:
  assumes "take_inventory n current A (Some us) flavor live x = (None, y)" "within_warm (warm_listed n flavor us) x"
  shows "within_warm (warm_listed n flavor us) y"
proof -
  obtain x1 x2 where x1: "reconcile_in n A x = (None, x1)" "run_all (scan_one n current A flavor live) us x1 = (None, x2)" "y = count_inventory x2"
    using assms(1) by (auto simp: take_inventory_def and_then_None)
  have "within_warm (warm_listed n flavor us) x1" using within_same_lists [OF reconcile_in_fields [OF x1(1)]] assms(2) by simp
  then have "within_warm (warm_listed n flavor us) x2"
    by (rule run_all_keeps [where P = "within_warm (warm_listed n flavor us)", OF _ _ x1(2), rotated]) (rule scan_one_within)
  then show ?thesis using x1(3) by (simp add: count_inventory_def within_warm_def)
qed

lemma promote_all_within:
  assumes "promote_all n current A flavor live x = (None, y)" "within_warm S x"
  shows "within_warm S y"
proof (cases live)
  case True
  then obtain x1 where x1: "run_all (promote_one n current A flavor) (wx_preparing x) x = (None, x1)" "y = x1\<lparr>wx_ready := sort (wx_ready x1)\<rparr>"
    using assms(1) by (auto simp: promote_all_def and_then_None)
  have "within_warm S x1"
  proof (rule run_all_keeps [where P = "within_warm S", OF _ assms(2) x1(1)])
    fix name s e s' assume "name \<in> set (wx_preparing x)" "within_warm S s" "promote_one n current A flavor name s = (e, s')"
    moreover have "name \<in> S" using calculation(1) assms(2) by (auto simp: within_warm_def)
    ultimately show "within_warm S s'" by (auto simp: promote_one_def Let_def within_warm_def split: sum.splits if_splits)
  qed
  then show ?thesis using x1(2) by (simp add: within_warm_def)
qed (use assms in \<open>simp add: promote_all_def\<close>)

lemma excess_within: "name \<in> S \<Longrightarrow> within_warm S x \<Longrightarrow> within_warm S (excess name x)"
  by (simp add: within_warm_def excess_def)

lemma yield_preparing_within:
  assumes "yield_preparing n A live yielding x = (None, y)" "within_warm S x"
  shows "within_warm S y"
proof (cases "yielding \<and> live")
  case True
  let ?names = "filter (\<lambda>name. name \<notin> set (wo_Promoted (wx_result x))) (wx_preparing x)"
  obtain z where z: "run_all (yield_one n A) ?names x = (None, z)" "y = forget_preparing z"
    using assms(1) True by (simp add: yield_preparing_def and_then_None) blast
  have "within_warm S z"
  proof (rule run_all_keeps [where P = "within_warm S", OF _ assms(2) z(1)])
    fix name s e s' assume a: "name \<in> set ?names" "within_warm S s" "yield_one n A name s = (e, s')"
    have "name \<in> S" using a(1) assms(2) by (auto simp: within_warm_def)
    moreover obtain d t where d: "delete_step n A name s = (d, t)" by fastforce
    ultimately show "within_warm S s'" using a(2,3) delete_step_within [OF d] excess_within by (cases d) (auto simp: yield_one_def)
  qed
  then show ?thesis using z(2) by (simp add: forget_preparing_def within_warm_def)
qed (use assms in \<open>auto simp: yield_preparing_def\<close>)

lemma shrink_within:
  assumes "shrink n A live target left x = (None, y)" "within_warm S x"
  shows "within_warm S y"
  using assms
proof (induction left arbitrary: x)
  case (Suc left)
  show ?case
  proof (cases "int (length (wx_ready x)) \<le> target \<or> wx_ready x = []")
    case False
    let ?name = "last (wx_ready x)" and ?x = "x\<lparr>wx_ready := butlast (wx_ready x)\<rparr>"
    have n: "?name \<in> S" "within_warm S ?x" using Suc.prems(2) False by (auto simp: within_warm_def dest: in_set_butlastD)
    obtain d t where d: "delete_step n A ?name ?x = (d, t)" by fastforce
    have "within_warm S (excess ?name t)" "within_warm S (excess ?name ?x)" using n delete_step_within [OF d] excess_within by blast+
    then show ?thesis using Suc.prems(1) Suc.IH False d by (cases live; cases d) (auto simp: Let_def)
  qed (use Suc.prems in auto)
qed simp

lemma create_loop_keeps_lists:
  assumes "create_loop n current A polls flavor left x = (e, y)"
  shows "wo_RecycledStale (wx_result y) = wo_RecycledStale (wx_result x) \<and> wo_DeletedExcess (wx_result y) = wo_DeletedExcess (wx_result x)"
  using assms
proof (induction left arbitrary: x)
  case (Suc left)
  obtain outcome w where c: "createWarm n current A polls flavor (wx_world x) = (outcome, w)" by fastforce
  show ?case using Suc.prems Suc.IH c by (cases outcome) (fastforce simp: Let_def)+
qed simp

text \<open>The requests that a pass has made to Incus.\<close>

definition requests :: "warm_pass \<Rightarrow> string list \<times> string list" where
  "requests x = (ww_deletes (wx_world x), ww_launches (wx_world x))"

lemma reconcile_in_requests: "reconcile_in n A x = (e, y) \<Longrightarrow> requests y = requests x"
  by (auto simp: reconcile_in_def Let_def requests_def next_call_def split: prod.splits sum.splits)

lemma scan_one_dry: "scan_one n current A flavor False u x = (e, y) \<Longrightarrow> wx_world y = wx_world x"
  by (auto simp: scan_one_def Let_def recycle_def split: if_splits option.splits)

lemma scan_all_dry:
  assumes "run_all (scan_one n current A flavor False) us x = (e, y)"
  shows "wx_world y = wx_world x"
  by (rule run_all_keeps [where P = "\<lambda>y. wx_world y = wx_world x", OF _ _ assms]) (auto dest: scan_one_dry)

lemma shrink_dry:
  assumes "shrink n A False target left x = (e, y)"
  shows "wx_world y = wx_world x"
  using assms by (induction left arbitrary: x) (auto simp: Let_def excess_def split: if_splits)

lemma dry_run_requests:
  assumes "ReconcileWarm n current A polls (Some us) flavor False w = (None, y)"
  shows "requests y = (ww_deletes w, ww_launches w)"
proof -
  obtain pool x yielding where "config_Pool (nd_platform n) flavor = Some pool" "fresh_pass x"
      "WarmYieldsToJobs n (an_env (A (ww_call (wx_world x)))) flavor (rs_MemoryMiB (pl_Resources pool)) = Inr yielding" and p:
    "take_inventory n current A (Some us) flavor False (warm_start flavor False (wp_TargetReady (pl_Warm pool)) w) = (None, x)"
    "converge n current A polls flavor False (wp_TargetReady (pl_Warm pool)) yielding x = (None, y)"
    by (rule ReconcileWarm_converge [OF assms])
  obtain x1 x2 where x1: "reconcile_in n A (warm_start flavor False (wp_TargetReady (pl_Warm pool)) w) = (None, x1)"
      "run_all (scan_one n current A flavor False) us x1 = (None, x2)" "x = count_inventory x2"
    using p(1) by (auto simp: take_inventory_def and_then_None)
  have x: "requests x = (ww_deletes w, ww_launches w)"
    using reconcile_in_requests [OF x1(1)] scan_all_dry [OF x1(2)] x1(3) by (simp add: requests_def count_inventory_def warm_start_def)
  let ?x = "if yielding then mark_yield x else x" and ?target = "if yielding then 0 else wp_TargetReady (pl_Warm pool)"
  have "and_then (shrink n A False ?target (length (wx_ready ?x)) ?x) (\<lambda>z. (None, count_ready z)) = (None, y)"
    using p(2) by (simp add: converge_def Let_def promote_all_def yield_preparing_def refill_def and_then_def)
  then obtain z where z: "shrink n A False ?target (length (wx_ready ?x)) ?x = (None, z)" "y = count_ready z"
    unfolding and_then_None by auto
  have "wx_world z = wx_world x" using shrink_dry [OF z(1)] by (simp add: mark_yield_def split: if_splits)
  then show ?thesis using x z(2) by (simp add: requests_def count_ready_def)
qed

lemma converge_within:
  assumes "converge n current A polls flavor live target yielding x = (None, y)" "within_warm S x"
  shows "set (wo_RecycledStale (wx_result y)) \<subseteq> S \<and> set (wo_DeletedExcess (wx_result y)) \<subseteq> S"
proof -
  define t where "t = (if yielding then 0 else target)"
  define x0 where "x0 = (if yielding then mark_yield x else x)"
  obtain x1 x2 x3 x4 x5 where
    p1: "promote_all n current A flavor live x0 = (None, x1)" and p2: "yield_preparing n A live yielding x1 = (None, x2)"
    and p3: "shrink n A live t (length (wx_ready x2)) x2 = (None, x3)" and p4: "refill n current A polls flavor live t x3 = (None, x4)"
    and p5: "(if live then reconcile_in n A x4 else (None, x4)) = (None, x5)" and y: "y = count_ready x5"
    using assms(1) by (auto simp: converge_def Let_def and_then_None t_def [symmetric] x0_def [symmetric])
  have "within_warm S x0" using assms(2) by (simp add: x0_def mark_yield_def within_warm_def)
  then have "within_warm S x3" using promote_all_within [OF p1] yield_preparing_within [OF p2] shrink_within [OF p3] by blast
  moreover have "wo_RecycledStale (wx_result x4) = wo_RecycledStale (wx_result x3) \<and> wo_DeletedExcess (wx_result x4) = wo_DeletedExcess (wx_result x3)"
    using p4 create_loop_keeps_lists by (auto simp: refill_def split: if_splits)
  moreover have "wx_result x5 = wx_result x4" using p5 reconcile_in_fields(1) by (cases live) auto
  ultimately show ?thesis using y by (simp add: count_ready_def within_warm_def)
qed


section \<open>What is created is accepted\<close>

text \<open>An instance as Incus shows it after a launch and a promotion: the profile adds nothing of the keys that are checked.\<close>

definition promoted_instance :: "create_args \<Rightarrow> instance_full" where
  "promoted_instance args =
     \<lparr>iu_instance = \<lparr>ii_Name = ag_Name args, ii_Type = ag_Type args, ii_Status = ''Running'', ii_Location = [], ii_Profiles = ag_Profiles args,
        ii_ExpandedConfig = promoted_config (ag_Config args)\<rparr>,
      iu_Architecture = ag_Architecture args, iu_Config = promoted_config (ag_Config args), iu_Status = Some ''Running''\<rparr>"

text \<open>What the warm pool launches, it later accepts. In a provider that has started, the arguments of a warm launch for a
  container pool, once promoted, pass the validation of ready instances of the same pool and release: the metadata that creation
  writes and the contract that validation reads agree, the isolation keys included, whatever the pool's Docker capability.\<close>

theorem created_warm_validates:
  assumes "newNDDevAdmission e cfg controllerID = Inr n" "getWarmCreateArgs n current an flavor name = Inr args" "ag_Type args = ''container''"
    and "\<not> ic_IncludeDefaultProfile (nd_cfg n)"
  shows "validateWarmReadyMetadata n current (promoted_instance args) flavor = None"
proof -
  note st = newNDDevAdmission_Inr [OF assms(1)]
  have imgs: "ic_WorkerImages (nd_cfg n) = nd_workerImages n" using assms(1) by (auto simp: newNDDevAdmission_def split: option.splits if_splits)
  obtain pool img where p: "config_Pool (nd_platform n) flavor = Some pool" "workerImagePolicy n flavor = Inr img"
      "ag_Config args = warm_config n current pool img flavor" "ag_Type args = wi_InstanceType img" "ag_Architecture args = ''x86_64''" "ag_Profiles args = [flavor]"
    using assms(2,4) by (auto simp: getWarmCreateArgs_def getProfiles_def split: option.splits sum.splits if_splits)
  have "get (nd_workerImages n) flavor = Some img"
    using p(1,2) imgs by (auto simp: workerImagePolicy_def split: option.splits if_splits)
  then have "(flavor, img) \<in> set (nd_workerImages n)" by (rule map_of_SomeD)
  then have "image_mapping_error (nd_platform n) (flavor, img) = None" using st(8) by (auto simp: validateWorkerImageMappings_def first_error_None_iff)
  then have variant: "wi_Variant img = (if ca_Docker (pl_Capabilities pool) then ''integration'' else ''standard'')"
    using p(1) by (simp add: image_mapping_error_def split: if_splits)
  have container: "wi_InstanceType img = ''container''" using p(4) assms(3) by simp
  have currency: "first_error (warm_key_error WarmOutdated (iu_instance (promoted_instance args))) (warm_currency current pool img) = None"
    by (simp add: warm_currency_def warm_key_error_def meta_def promoted_instance_def promoted_config_def config_value_put p(3) warm_config_def config_value_def)
  have contract: "first_error (warm_key_error WarmWrong (iu_instance (promoted_instance args))) (warm_contract n pool img flavor) = None"
    by (simp add: warm_contract_def managedSecurityContract_def variant container warm_key_error_def meta_def promoted_instance_def promoted_config_def
        config_value_put p(3) warm_config_def config_value_def)
  show ?thesis
    by (simp add: validateWarmReadyMetadata_def Let_def p(1,2) currency contract)
       (simp add: promoted_instance_def managedSecurityContract_def p(4,5,6) container)
qed

section \<open>Two passes over one preparing instance\<close>

definition demo_warm_provider :: nddev_admission where
  "demo_warm_provider = demo_nddev\<lparr>nd_platform := demo_fleet\<lparr>fc_Pools := [demo_standard\<lparr>pl_Warm := \<lparr>wp_TargetReady = 1, wp_MaxReady = 1\<rparr>\<rparr>, demo_untrusted]\<rparr>\<rparr>"

definition demo_release_identity :: provider_identity where
  "demo_release_identity = \<lparr>pi_Version = ''v0.1.5-nddev.133'', pi_Commit = ''c1''\<rparr>"

definition demo_preparing :: instance_full where
  "demo_preparing = \<lparr>iu_instance = \<lparr>ii_Name = ''warm-standard-a'', ii_Type = ''container'', ii_Status = ''Running'', ii_Location = ''one'',
       ii_Profiles = [''nddev-linux-standard''], ii_ExpandedConfig = warm_config demo_nddev demo_release_identity demo_standard demo_image ''nddev-linux-standard''\<rparr>,
     iu_Architecture = ''x86_64'', iu_Config = [], iu_Status = Some ''Running''\<rparr>"

definition demo_answers :: "queue_journal \<Rightarrow> call_answers" where
  "demo_answers q = \<lparr>an_client = True, an_env = demo_provider_env\<lparr>pv_queue := QueueFile (queue_doc_of q)\<rparr>, an_instance = Inr demo_preparing, an_again = Inr demo_preparing,
     an_stop = StopDone, an_delete = DeleteDone, an_file = Inr \<lparr>fa_data = warmReadyEvidence, fa_response = Some (0, 0, 420, ''file'')\<rparr>, an_update = None,
     an_suffix = Some ''b'', an_profiles = Some [''nddev-linux-standard''], an_image = Some (Some (''f1'', [(''user.nddev.image.variant'', ''standard'')])),
     an_launch = None, an_address = None, an_clock = (\<lambda>name. 5)\<rparr>"

text \<open>A queue without intents, and one where a job of a larger class waits.\<close>

definition demo_idle :: queue_journal where "demo_idle = demo_queue\<lparr>q_Intents := []\<rparr>"

definition demo_larger :: queue_journal where
  "demo_larger = demo_queue\<lparr>q_Intents := [(''github-scale-set-job:v2:4:a'', (demo_intent ''a'' Queue_Intent.StateQueued [])\<lparr>i_ScaleSetName := ''nddev-linux-untrusted''\<rparr>)]\<rparr>"

definition demo_world :: warm_world where "demo_world = \<lparr>ww_file = NoFile, ww_call = 0, ww_deletes = [], ww_launches = []\<rparr>"

definition demo_pass :: "queue_journal \<Rightarrow> bool \<Rightarrow> warm_error option \<times> warm_pass" where
  "demo_pass q live = ReconcileWarm demo_warm_provider demo_release_identity (\<lambda>k. demo_answers q) 3 (Some [demo_preparing]) ''nddev-linux-standard'' live demo_world"

lemma demo_warm_pool:
  "config_Pool (nd_platform demo_warm_provider) ''nddev-linux-standard'' = Some (demo_standard\<lparr>pl_Warm := \<lparr>wp_TargetReady = 1, wp_MaxReady = 1\<rparr>\<rparr>)"
  by (simp add: demo_warm_provider_def config_Pool_def demo_standard_def demo_pool_def)


theorem yielding_pass_refills_witness:
  "\<exists>y. demo_pass demo_larger True = (None, y) \<and> wo_DeletedExcess (wx_result y) = [''warm-standard-a''] \<and> wo_Created (wx_result y) = [''warm-standard-b'']
     \<and> length (wo_Created (wx_result y)) + length (wo_Consumed (wx_result y)) + length (wo_Abandoned (wx_result y)) = length (wo_Promoted (wx_result y))"
proof -
  have "case demo_pass demo_larger True of
      (None, y) \<Rightarrow> wo_Yielded (wx_result y) \<and> wo_AdmissionDecision (wx_result y) = None \<and> wo_DeletedExcess (wx_result y) = [''warm-standard-a'']
        \<and> wo_Created (wx_result y) = [''warm-standard-b'']
    | _ \<Rightarrow> False" by code_simp
  then obtain y where y: "demo_pass demo_larger True = (None, y)" "wo_Yielded (wx_result y)" "wo_AdmissionDecision (wx_result y) = None"
      "wo_DeletedExcess (wx_result y) = [''warm-standard-a'']" "wo_Created (wx_result y) = [''warm-standard-b'']"
    by (auto split: prod.split_asm option.split_asm)
  from yielding_pass_refills [OF y(1) [unfolded demo_pass_def] y(2,3) demo_warm_pool] y show ?thesis by simp
qed


theorem created_warm_validates_witness:
  "\<exists>args. getWarmCreateArgs demo_nddev demo_release_identity (demo_answers demo_idle) ''nddev-linux-standard'' ''warm-standard-b'' = Inr args
     \<and> validateWarmReadyMetadata demo_nddev demo_release_identity (promoted_instance args) ''nddev-linux-standard'' = None"
proof -
  have "case getWarmCreateArgs demo_nddev demo_release_identity (demo_answers demo_idle) ''nddev-linux-standard'' ''warm-standard-b'' of
      Inr args \<Rightarrow> ag_Type args = ''container'' | Inl e \<Rightarrow> False" by code_simp
  then obtain args where a: "getWarmCreateArgs demo_nddev demo_release_identity (demo_answers demo_idle) ''nddev-linux-standard'' ''warm-standard-b'' = Inr args"
      "ag_Type args = ''container''" by (auto split: sum.split_asm)
  have "\<not> ic_IncludeDefaultProfile (nd_cfg demo_nddev)" by (simp add: demo_nddev_def demo_provider_config_def)
  from created_warm_validates [OF demo_nddev_started a this] a(1) show ?thesis by blast
qed

end
