(* ===== verification/Job_Boundary.thy ===== *)
theory Job_Boundary
  imports Warm_Pool Cache_Broker
begin

text \<open>
The request of GARM for the worker of one job, as the Incus provider reads it (\<open>internal/garmproviderincus/provider/incus.go\<close> and
\<open>specs.go\<close>): the repository boundary that is compiled in and that of the configuration, the validation of the request and of its
extra specs, the metadata and the security configuration that an instance of the job gets, and the check of an instance that is already
there. Proved: the account that the metadata of an accepted request names is the account that was authorised, and the arguments of a create
give an instance that the check of the next attempt accepts. The URL parser of the standard library is modelled as far as the provider's
own checks let its result matter; the JSON decoders are arguments.
\<close>

section \<open>What GARM asks for\<close>

text \<open>The extra specs of a request, as far as the provider reads them.\<close>

record extra_specs =
  es_ExtraPackages :: "string list"
  es_DisableUpdates :: bool
  es_EnableBootDebug :: bool
  es_DirectJIT :: bool
  es_EncodedJITConfig :: string
  es_PreInstallScripts :: "string gomap"
  es_ExtraContext :: "string gomap"
  es_RunnerInstallTemplate :: string

text \<open>The raw extra specs: absent, refused by the schema or the decoder, or decoded.\<close>

datatype specs_document = NoSpecs | BadSpecs | Specs extra_specs

text \<open>The request (\<open>commonParams.BootstrapInstance\<close>); the first fields are those that admission reads.\<close>

record bootstrap_params = bootstrap +
  bp_Image :: string
  bp_CallbackURL :: string
  bp_MetadataURL :: string
  bp_InstanceToken :: string
  bp_GitHubRunnerGroup :: string
  bp_OSType :: string
  bp_OSArch :: string
  bp_JitConfigEnabled :: bool
  bp_CACertBundle :: string
  bp_ExtraSpecs :: specs_document

text \<open>The provider: its admission controller with the platform and the image policy, the release that runs, the boundary of its
  configuration, and whether a cache claim contract is configured.\<close>

record incus_provider =
  l_admission :: nddev_admission
  l_current :: provider_identity
  l_AllowedGitHubAccounts :: "string list"
  l_AllowedGitHubRepositories :: "string list"
  l_WorkerGatewayURL :: string
  l_cacheClaim :: bool

datatype job_error =
    JobBadRequest string | JobUnprocessable string | JobWarm warm_error | JobUnknownPool string | JobTenant tenant_error | JobRepository
  | JobRefused reason | JobCache string | JobClaim broker_error | JobGuest string | JobIdentity string | JobCleanup job_error

section \<open>Repository URLs\<close>

text \<open>\<open>url.ParseRequestURI\<close> followed by the checks that all callers make of its result: the scheme is https and the host
  github.com in any case, there is no user, no query and, since a request URI has none, no fragment. The result is the decoded path.
  An authority with an at sign has a user or is refused; a percent sign in an accepted host never decodes to a letter of the name; so
  the raw authority is compared.\<close>

fun unescape_path :: "string \<Rightarrow> string option" where
  "unescape_path [] = Some []"
| "unescape_path (c # cs) =
     (if c \<noteq> CHR ''%'' then map_option ((#) c) (unescape_path cs)
      else (case cs of
              a # b # rest \<Rightarrow>
                (case (hex_value a, hex_value b) of
                   (Some x, Some y) \<Rightarrow> map_option ((#) (char_of (16 * x + y))) (unescape_path rest)
                 | _ \<Rightarrow> None)
            | _ \<Rightarrow> None))"

definition is_control :: "char \<Rightarrow> bool" where "is_control c \<longleftrightarrow> c < CHR '' '' \<or> c = CHR 0x7F"

definition cut_query :: "string \<Rightarrow> string option" where
  "cut_query rest =
     (if CHR ''?'' \<notin> set rest then Some rest
      else if has_suffix rest ''?'' \<and> CHR ''?'' \<notin> set (butlast rest) then Some (butlast rest)
      else None)"

definition github_path :: "string \<Rightarrow> string option" where
  "github_path s =
     (if list_ex is_control s \<or> to_lower (take 6 s) \<noteq> ''https:'' then None
      else (case cut_query (drop 6 s) of
              None \<Rightarrow> None
            | Some rest \<Rightarrow>
                if \<not> has_prefix rest ''//'' \<or> to_lower (takeWhile (\<lambda>c. c \<noteq> CHR ''/'') (drop 2 rest)) \<noteq> ''github.com'' then None
                else unescape_path (dropWhile (\<lambda>c. c \<noteq> CHR ''/'') (drop 2 rest))))"

text \<open>\<open>strings.Trim\<close> with slashes.\<close>

definition trim_slashes :: "string \<Rightarrow> string" where
  "trim_slashes s = rev (dropWhile (\<lambda>c. c = CHR ''/'') (rev (dropWhile (\<lambda>c. c = CHR ''/'') s)))"

text \<open>\<open>strings.EqualFold\<close> against an ASCII text: besides the two cases of a letter, the long s and the Kelvin sign fold to ASCII
  letters.\<close>

fun fold_key :: "string \<Rightarrow> string" where
  "fold_key [] = []"
| "fold_key (c # cs) =
     (if c = CHR 0xC5 \<and> has_prefix cs [CHR 0xBF] then CHR ''s'' # fold_key (drop 1 cs)
      else if c = CHR 0xE2 \<and> has_prefix cs [CHR 0x84, CHR 0xAA] then CHR ''k'' # fold_key (drop 2 cs)
      else to_lower [c] @ fold_key cs)"

definition equal_fold :: "string \<Rightarrow> string \<Rightarrow> bool" where "equal_fold s t \<longleftrightarrow> fold_key s = fold_key t"

text \<open>The boundary that is compiled in.\<close>

definition expectedRegistered :: "string \<Rightarrow> bool" where
  "expectedRegistered url \<longleftrightarrow> url \<in> RepositoryURLs
     \<or> (\<exists>p \<in> AccountURLPrefixes. url = trim_suffix p ''/''
          \<or> (has_prefix url p \<and> trim_prefix url p \<noteq> [] \<and> CHR ''/'' \<notin> set (trim_prefix url p)))"

definition url_identity :: "string \<Rightarrow> string" where "url_identity path = trim_slashes (trim_suffix path ''.git'')"

text \<open>The boundary of the configuration.\<close>

definition isRegisteredRepositoryURL :: "incus_provider \<Rightarrow> string \<Rightarrow> bool" where
  "isRegisteredRepositoryURL l url =
     (case github_path url of
        None \<Rightarrow> False
      | Some path \<Rightarrow>
          (case split_on CHR ''/'' (url_identity path) of
             [account] \<Rightarrow> account \<noteq> [] \<and> list_ex (equal_fold account) (l_AllowedGitHubAccounts l)
           | [owner, name] \<Rightarrow>
               owner \<noteq> [] \<and> name \<noteq> []
               \<and> (list_ex (equal_fold (url_identity path)) (l_AllowedGitHubRepositories l) \<or> list_ex (equal_fold owner) (l_AllowedGitHubAccounts l))
           | _ \<Rightarrow> False))"

definition repositoryWithinTenant :: "Tenant \<Rightarrow> string \<Rightarrow> bool" where
  "repositoryWithinTenant t url \<longleftrightarrow>
     url = github_url (t_Repository t)
     \<or> (t_ServesWholeAccount t
        \<and> (let p = github_url (t_Owner t @ ''/'')
           in url = trim_suffix p ''/'' \<or> (has_prefix url p \<and> trim_prefix url p \<noteq> [] \<and> CHR ''/'' \<notin> set (trim_prefix url p))))"

text \<open>The tenant that a pool declares; \<open>None\<close> if it declares none.\<close>

definition poolTenant :: "incus_provider \<Rightarrow> string \<Rightarrow> job_error + Tenant option" where
  "poolTenant l flavor =
     (case config_Pool (nd_platform (l_admission l)) flavor of
        None \<Rightarrow> Inl (JobUnknownPool flavor)
      | Some pool \<Rightarrow>
          if pl_Tenant pool = [] then Inr None
          else (case tenant_ByID (pl_Tenant pool) of Inl e \<Rightarrow> Inl (JobTenant e) | Inr t \<Rightarrow> Inr (Some t)))"

definition canonicalRepositoryIdentity :: "string \<Rightarrow> string option" where
  "canonicalRepositoryIdentity url =
     (case github_path url of
        None \<Rightarrow> None
      | Some path \<Rightarrow>
          (case split_on CHR ''/'' (url_identity path) of
             [account] \<Rightarrow> if account \<noteq> [] \<and> expectedRegistered url then Some account else None
           | [owner, name] \<Rightarrow> if owner = [] \<or> name = [] then None else Some (owner @ ''/'' @ name)
           | _ \<Rightarrow> None))"

definition runtimeRepositoryIdentity :: "incus_provider \<Rightarrow> string \<Rightarrow> string option" where
  "runtimeRepositoryIdentity l url =
     (case canonicalRepositoryIdentity url of
        Some identity \<Rightarrow> Some identity
      | None \<Rightarrow>
          if \<not> isRegisteredRepositoryURL l url then None
          else (let account = trim_slashes (the (github_path url))
                in if account = [] \<or> CHR ''/'' \<in> set account then None else Some account))"

section \<open>Validating a request\<close>

definition instanceTokenPattern :: "string \<Rightarrow> bool" where
  "instanceTokenPattern s \<longleftrightarrow> s \<noteq> [] \<and> list_all (\<lambda>c. CHR ''A'' \<le> c \<and> c \<le> CHR ''Z'' \<or> CHR ''a'' \<le> c \<and> c \<le> CHR ''z'' \<or> is_digit c \<or> c \<in> set ''._~-'') s"

abbreviation expectedCallbackURL :: "incus_provider \<Rightarrow> string" where "expectedCallbackURL l \<equiv> l_WorkerGatewayURL l @ ''/api/v1/callbacks''"
abbreviation expectedMetadataURL :: "incus_provider \<Rightarrow> string" where "expectedMetadataURL l \<equiv> l_WorkerGatewayURL l @ ''/api/v1/metadata''"

definition request_error :: "incus_provider \<Rightarrow> bootstrap_params \<Rightarrow> job_error option" where
  "request_error l b = checks [
     (bs_Name b = [], JobBadRequest ''name''), (bs_PoolID b = [], JobBadRequest ''pool ID''), (bs_Flavor b = [], JobBadRequest ''flavor''),
     (\<not> isRegisteredRepositoryURL l (bs_RepoURL b), JobBadRequest ''repository boundary''),
     (bp_CallbackURL b \<noteq> expectedCallbackURL l, JobBadRequest ''callback URL''), (bp_MetadataURL b \<noteq> expectedMetadataURL l, JobBadRequest ''metadata URL''),
     (\<not> instanceTokenPattern (bp_InstanceToken b), JobBadRequest ''instance token''), (bp_GitHubRunnerGroup b \<noteq> ''Default'', JobBadRequest ''runner group''),
     (bp_OSType b \<noteq> ''linux'', JobBadRequest ''OS type''), (bp_OSArch b \<noteq> ''amd64'', JobBadRequest ''OS architecture''),
     (\<not> bp_JitConfigEnabled b, JobBadRequest ''JIT configuration'')]"

definition validateBootstrapParams :: "incus_provider \<Rightarrow> bootstrap_params \<Rightarrow> job_error option" where
  "validateBootstrapParams l b =
     then_check (request_error l b)
     (case poolTenant l (bs_Flavor b) of
        Inl e \<Rightarrow> Some e
      | Inr declared \<Rightarrow>
          if (case declared of None \<Rightarrow> False | Some t \<Rightarrow> \<not> repositoryWithinTenant t (bs_RepoURL b)) then Some (JobBadRequest ''tenant boundary'')
          else (case workerImagePolicy (l_admission l) (bs_Flavor b) of
                  Inl e \<Rightarrow> Some (JobWarm e)
                | Inr img \<Rightarrow> if bp_Image b \<noteq> wi_Alias img then Some (JobBadRequest ''image alias'') else None))"

text \<open>The runner package that GitHub advertises: an official release asset under the release address of its own version.\<close>

definition tool_version :: "string \<Rightarrow> string option" where
  "tool_version filename =
     (let version = trim_suffix (trim_prefix filename ''actions-runner-linux-x64-'') ''.tar.gz''
      in if filename = ''actions-runner-linux-x64-'' @ version @ ''.tar.gz''
            \<and> (case split_on CHR ''.'' version of [a, b, c] \<Rightarrow> is_number a \<and> is_number b \<and> is_number c | _ \<Rightarrow> False)
         then Some version else None)"

definition validateRunnerTool :: "incus_provider \<Rightarrow> string \<times> string \<Rightarrow> bool" where
  "validateRunnerTool l tool \<longleftrightarrow>
     (let pinned = cp_RunnerVersion (fc_ControlPlane (nd_platform (l_admission l)))
      in trim_prefix pinned ''v'' \<noteq> pinned
         \<and> (case tool_version (fst tool) of
              None \<Rightarrow> False
            | Some version \<Rightarrow> snd tool = ''https://github.com/actions/runner/releases/download/v'' @ version @ ''/'' @ fst tool))"

text \<open>A direct JIT configuration: base 64 of a JSON object whose three files are themselves non-empty base 64. The JSON decoder is the
  argument \<open>files_of\<close>.\<close>

definition std_decode :: "string \<Rightarrow> nat list option" where
  "std_decode s =
     (let cs = filter (\<lambda>c. c \<noteq> CHR 0x0D \<and> c \<noteq> CHR 0x0A) s;
          body = (if has_suffix cs ''=='' then take (length cs - 2) cs else if has_suffix cs ''='' then take (length cs - 1) cs else cs);
          vs = map (\<lambda>c. index_of c std_alphabet) body
      in if length cs mod 4 \<noteq> 0 \<or> None \<in> set vs then None else sextets_to_bytes (map the vs))"

definition jit_file_ok :: "string gomap \<Rightarrow> string \<Rightarrow> bool" where
  "jit_file_ok files name \<longleftrightarrow> (case get files name of
      None \<Rightarrow> False | Some v \<Rightarrow> v \<noteq> [] \<and> (case std_decode v of None \<Rightarrow> False | Some d \<Rightarrow> d \<noteq> []))"

definition maximumDirectJITJSONBytes :: nat where "maximumDirectJITJSONBytes = 65536"

definition validateDirectJITConfig :: "(nat list \<Rightarrow> string gomap option) \<Rightarrow> string \<Rightarrow> bool" where
  "validateDirectJITConfig files_of encoded \<longleftrightarrow>
     encoded \<noteq> [] \<and> length encoded \<le> (maximumDirectJITJSONBytes + 2) div 3 * 4
     \<and> (case std_decode encoded of
          None \<Rightarrow> False
        | Some raw \<Rightarrow>
            raw \<noteq> [] \<and> length raw \<le> maximumDirectJITJSONBytes
            \<and> (case files_of raw of
                 None \<Rightarrow> False
               | Some files \<Rightarrow> length files = 3 \<and> list_all (jit_file_ok files) [''.runner'', ''.credentials'', ''.credentials_rsaparams'']))"

text \<open>The wrapper that GARM adds at run time is a template of the other repository text; the rendering is an argument.\<close>

definition validateNDDevExtraSpecs :: "(nat list \<Rightarrow> string gomap option) \<Rightarrow> (string \<Rightarrow> string \<Rightarrow> string) \<Rightarrow> bootstrap_params \<Rightarrow> extra_specs \<Rightarrow> bool" where
  "validateNDDevExtraSpecs files_of wrapper b s \<longleftrightarrow>
     es_DisableUpdates s
     \<and> es_ExtraPackages s = [] \<and> \<not> es_EnableBootDebug s \<and> es_PreInstallScripts s = [] \<and> es_ExtraContext s = []
     \<and> (if es_DirectJIT s then validateDirectJITConfig files_of (es_EncodedJITConfig s) else es_EncodedJITConfig s = [])
     \<and> (es_RunnerInstallTemplate s = [] \<or> es_RunnerInstallTemplate s = wrapper (bp_MetadataURL b) (bp_InstanceToken b))"

definition no_specs :: extra_specs where
  "no_specs = \<lparr>es_ExtraPackages = [], es_DisableUpdates = False, es_EnableBootDebug = False, es_DirectJIT = False, es_EncodedJITConfig = [],
     es_PreInstallScripts = [], es_ExtraContext = [], es_RunnerInstallTemplate = []\<rparr>"

definition parseExtraSpecsFromBootstrapParams :: "bootstrap_params \<Rightarrow> extra_specs option" where
  "parseExtraSpecsFromBootstrapParams b = (case bp_ExtraSpecs b of NoSpecs \<Rightarrow> Some no_specs | BadSpecs \<Rightarrow> None | Specs s \<Rightarrow> Some s)"

section \<open>What an instance of a job carries\<close>

text \<open>Early returns.\<close>

definition or_return :: "'e + 'a \<Rightarrow> ('a \<Rightarrow> 'e + 'b) \<Rightarrow> 'e + 'b" where
  "or_return r k = (case r of Inl e \<Rightarrow> Inl e | Inr v \<Rightarrow> k v)"

definition found :: "'e \<Rightarrow> 'a option \<Rightarrow> 'e + 'a" where
  "found e x = (case x of None \<Rightarrow> Inl e | Some v \<Rightarrow> Inr v)"

definition lift_job :: "warm_error + 'a \<Rightarrow> job_error + 'a" where
  "lift_job r = (case r of Inl e \<Rightarrow> Inl (JobWarm e) | Inr v \<Rightarrow> Inr v)"

lemma or_return_Inr: "or_return r k = Inr v \<longleftrightarrow> (\<exists>x. r = Inr x \<and> k x = Inr v)"
  by (cases r) (simp_all add: or_return_def)

lemma found_Inr: "found e x = Inr v \<longleftrightarrow> x = Some v"
  by (cases x) (simp_all add: found_def)

lemma lift_job_Inr: "lift_job r = Inr v \<longleftrightarrow> r = Inr v"
  by (cases r) (simp_all add: lift_job_def)

lemmas return_simps = or_return_Inr found_Inr lift_job_Inr

definition cacheRoleForPool :: "Pool \<Rightarrow> string option" where
  "cacheRoleForPool pool =
     (let scope = ca_CacheWriteScope (pl_Capabilities pool)
      in if pl_Trust pool = ''trusted'' \<and> scope = ''trusted'' then Some ''trusted-writer''
         else if pl_Trust pool = ''untrusted'' \<and> scope = ''isolated'' then Some ''untrusted-writer''
         else if pl_Trust pool = ''release'' \<and> scope = ''none'' then Some ''release-reader''
         else if scope = ''none'' then Some ''correlation-only''
         else None)"

definition jobMetadata :: "incus_provider \<Rightarrow> bootstrap_params \<Rightarrow> job_error + string gomap" where
  "jobMetadata l b =
     (let n = l_admission l
      in case config_Pool (nd_platform n) (bs_Flavor b) of
           None \<Rightarrow> Inl (JobUnknownPool (bs_Flavor b))
         | Some pool \<Rightarrow>
             (case workerImagePolicy n (bs_Flavor b) of
                Inl e \<Rightarrow> Inl (JobWarm e)
              | Inr img \<Rightarrow>
                  (case runtimeRepositoryIdentity l (bs_RepoURL b) of
                     None \<Rightarrow> Inl JobRepository
                   | Some repository \<Rightarrow> Inr [
                       (osTypeKeyName, bp_OSType b), (osArchKeyName, bp_OSArch b), (controllerIDKeyName, nd_controllerID n), (poolIDKey, bs_PoolID b),
                       (imageAliasKey, wi_Alias img), (imageFingerprintKey, wi_Fingerprint img), (providerVersionKey, pi_Version (l_current l)),
                       (providerCommitKey, pi_Commit (l_current l)), (flavorKey, bs_Flavor b), (lifecycleKey, lifecycleEphemeralOneJob),
                       (trustKey, pl_Trust pool), (instanceScaleSetKey, pl_ScaleSetName pool), (repositoryKey, repository), (garmJobNameKey, bs_Name b),
                       (networkPolicyKey, ca_NetworkPolicy (pl_Capabilities pool)), (cacheWriteScopeKey, ca_CacheWriteScope (pl_Capabilities pool))])))"

definition job_key_error :: "listed_instance \<Rightarrow> string \<times> string \<Rightarrow> job_error option" where
  "job_key_error i check = (if meta i (fst check) \<noteq> snd check then Some (JobUnprocessable (fst check)) else None)"

definition validateManagedSecurity :: "incus_provider \<Rightarrow> listed_instance \<Rightarrow> job_error option" where
  "validateManagedSecurity l i =
     (case workerImagePolicy (l_admission l) (meta i flavorKey) of
        Inl e \<Rightarrow> Some (JobUnprocessable ''image policy'')
      | Inr img \<Rightarrow>
          if ii_Type i \<noteq> fst (managedSecurityContract img) then Some (JobUnprocessable ''type'')
          else if \<not> (if meta i lifecycleKey = lifecycleEphemeralOneJob then AllowsExistingFingerprint img (meta i imageFingerprintKey)
                     else meta i imageFingerprintKey = wi_Fingerprint img) then Some (JobUnprocessable imageFingerprintKey)
          else first_error (job_key_error i) (snd (managedSecurityContract img) @ [(lifecycleKey, lifecycleEphemeralOneJob)]))"

definition existing_contract :: "incus_provider \<Rightarrow> bootstrap_params \<Rightarrow> Pool \<Rightarrow> worker_image \<Rightarrow> string \<Rightarrow> (string \<times> string) list" where
  "existing_contract l b pool img repository =
     [(controllerIDKeyName, nd_controllerID (l_admission l)), (poolIDKey, bs_PoolID b), (imageAliasKey, wi_Alias img), (flavorKey, bs_Flavor b),
      (lifecycleKey, lifecycleEphemeralOneJob), (trustKey, pl_Trust pool), (instanceScaleSetKey, pl_ScaleSetName pool), (repositoryKey, repository),
      (networkPolicyKey, ca_NetworkPolicy (pl_Capabilities pool)), (cacheWriteScopeKey, ca_CacheWriteScope (pl_Capabilities pool)),
      (garmJobNameKey, bs_Name b), (osTypeKeyName, ''linux''), (osArchKeyName, ''amd64'')]"

definition validateExistingInstance :: "incus_provider \<Rightarrow> instance_full \<Rightarrow> bootstrap_params \<Rightarrow> job_error option" where
  "validateExistingInstance l u b =
     (let i = iu_instance u; n = l_admission l
      in then_check (validateManagedSecurity l i)
         (if \<not> AllowsProviderIdentity (nd_cfg n) (meta i providerVersionKey) (meta i providerCommitKey) (pi_Version (l_current l)) (pi_Commit (l_current l))
          then Some (JobUnprocessable providerVersionKey)
          else (case config_Pool (nd_platform n) (bs_Flavor b) of
                  None \<Rightarrow> Some (JobUnknownPool (bs_Flavor b))
                | Some pool \<Rightarrow>
                    (case workerImagePolicy n (bs_Flavor b) of
                       Inl e \<Rightarrow> Some (JobWarm e)
                     | Inr img \<Rightarrow>
                         (case runtimeRepositoryIdentity l (bs_RepoURL b) of
                            None \<Rightarrow> Some JobRepository
                          | Some repository \<Rightarrow>
                              if \<not> AllowsExistingFingerprint img (meta i imageFingerprintKey) then Some (JobUnprocessable imageFingerprintKey)
                              else then_check (first_error (job_key_error i) (existing_contract l b pool img repository))
                                   (if iu_Architecture u \<noteq> ''x86_64'' \<or> ii_Profiles i \<noteq> [bs_Flavor b] then Some (JobUnprocessable ''architecture'') else None))))))"

definition security_config :: "nddev_admission \<Rightarrow> Pool \<Rightarrow> worker_image \<Rightarrow> string gomap" where
  "security_config n pool img =
     (if wi_InstanceType img = ''virtual-machine''
      then [(''security.secureboot'', if ic_SecureBoot (nd_cfg n) then ''true'' else ''false''), (''raw.qemu'', ''-cpu host,-vmx,-svm'')]
      else [(''security.privileged'', ''false''), (''security.nesting'', if ca_Docker (pl_Capabilities pool) then ''true'' else ''false''),
            (''security.syscalls.intercept.mknod'', ''false''), (''security.syscalls.intercept.setxattr'', ''false'')])"

text \<open>The answers that building the arguments meets besides those of a call: the runner package and the cloud configuration, which the
  GARM libraries compute.\<close>

definition getCreateInstanceArgs ::
    "incus_provider \<Rightarrow> call_answers \<Rightarrow> (string \<times> string) option \<Rightarrow> (bool \<Rightarrow> bool \<Rightarrow> string option) \<Rightarrow> bootstrap_params \<Rightarrow> job_error + create_args" where
  "getCreateInstanceArgs l an tool cloud b =
     (let n = l_admission l
      in or_return (case validateBootstrapParams l b of Some e \<Rightarrow> Inl e | None \<Rightarrow> Inr ()) (\<lambda>_.
         or_return (found (JobUnknownPool (bs_Flavor b)) (config_Pool (nd_platform n) (bs_Flavor b))) (\<lambda>pool.
         or_return (lift_job (workerImagePolicy n (bs_Flavor b))) (\<lambda>img.
         or_return (lift_job (getProfiles n an (bs_Flavor b))) (\<lambda>profiles.
         or_return (found (JobWarm WarmArguments) (an_image an)) (\<lambda>resolved.
         if \<not> validateResolvedWorkerImage resolved img then Inl (JobWarm (WarmImage (bs_Flavor b)))
         else or_return (found (JobBadRequest ''tools'') tool) (\<lambda>t.
         if \<not> validateRunnerTool l t then Inl (JobUnprocessable ''runner tool'')
         else or_return (found (JobCache ''role'') (cacheRoleForPool pool)) (\<lambda>role.
         or_return (found (JobBadRequest ''cloud-config'') (cloud (ca_Docker (pl_Capabilities pool)) (l_cacheClaim l))) (\<lambda>cloudCfg.
         or_return (jobMetadata l b) (\<lambda>metadata.
           Inr \<lparr>ag_Name = bs_Name b, ag_Type = wi_InstanceType img, ag_Architecture = ''x86_64'', ag_Profiles = profiles,
                ag_Config = (''user.user-data'', cloudCfg) # metadata @ security_config n pool img,
                ag_Fingerprint = fst (the resolved)\<rparr>))))))))))"

section \<open>The account of a request\<close>

text \<open>A name as GitHub gives it to an account.\<close>

definition github_account :: "string \<Rightarrow> bool" where
  "github_account s \<longleftrightarrow> s \<noteq> [] \<and> list_all (\<lambda>c. CHR ''A'' \<le> c \<and> c \<le> CHR ''Z'' \<or> CHR ''a'' \<le> c \<and> c \<le> CHR ''z'' \<or> is_digit c \<or> c = CHR ''-'') s"

definition labelled_account :: "string \<Rightarrow> string" where "labelled_account repository = takeWhile (\<lambda>c. c \<noteq> CHR ''/'') repository"

text \<open>What may follow an account in a path.\<close>

definition path_tail :: "string \<Rightarrow> bool" where "path_tail t \<longleftrightarrow> (\<forall>c cs. t = c # cs \<longrightarrow> c = CHR ''/'')"

lemma account_chars:
  assumes "github_account x"
  shows "c \<in> {CHR ''/'', CHR ''?'', CHR ''%'', CHR ''.'', CHR '':''} \<Longrightarrow> c \<notin> set x" and "x \<noteq> []"
  using assms by (auto simp: github_account_def list_all_iff is_digit_def)

lemma unescape_append: "CHR ''%'' \<notin> set xs \<Longrightarrow> unescape_path (xs @ ys) = map_option ((@) xs) (unescape_path ys)"
proof (induction xs)
  case Nil
  then show ?case by (cases "unescape_path ys") simp_all
next
  case (Cons c xs)
  then have "c \<noteq> CHR ''%''" by auto
  with Cons show ?case by (cases "unescape_path ys") simp_all
qed

lemma unescape_tail: "path_tail t \<Longrightarrow> unescape_path t = Some u \<Longrightarrow> path_tail u"
  by (cases t) (auto simp: path_tail_def)

lemma path_tail_take: "path_tail t \<Longrightarrow> path_tail (take n t)"
  by (cases t; cases n) (auto simp: path_tail_def)

lemma cut_query_tail:
  assumes "CHR ''?'' \<notin> set p" "p \<noteq> []" "path_tail t" "cut_query (p @ t) = Some r"
  shows "\<exists>t'. r = p @ t' \<and> path_tail t'"
proof -
  have "r = p @ t \<or> (r = butlast (p @ t) \<and> CHR ''?'' \<in> set (p @ t))"
    using assms(4) by (auto simp: cut_query_def split: if_splits)
  then consider "r = p @ t" | "r = butlast (p @ t)" "t \<noteq> []" using assms(1) by force
  then show ?thesis
  proof cases
    case 2
    then show ?thesis using path_tail_take [OF assms(3), of "length t - 1"] by (simp add: butlast_append) (simp add: butlast_conv_take)
  qed (use assms(3) in blast)
qed

lemma github_path_account:
  assumes "github_account x" "path_tail t" "github_path (''https://github.com/'' @ x @ t) = Some path"
  shows "\<exists>u. path = ''/'' @ x @ u \<and> path_tail u"
proof -
  obtain r where r: "cut_query ((''//github.com/'' @ x) @ t) = Some r"
      "unescape_path (dropWhile (\<lambda>c. c \<noteq> CHR ''/'') (drop 2 r)) = Some path"
    using assms(3) by (auto simp: github_path_def split: if_splits option.splits)
  obtain t' where t': "r = (''//github.com/'' @ x) @ t'" "path_tail t'"
    using cut_query_tail [OF _ _ assms(2) r(1)] account_chars [OF assms(1)] by auto
  have "unescape_path ((''/'' @ x) @ t') = Some path" using r(2) t'(1) by simp
  then show ?thesis
    using unescape_append [of "''/'' @ x" t'] unescape_tail [OF t'(2)] account_chars(1) [OF assms(1)]
    by (cases "unescape_path t'") auto
qed

lemma trim_git_account:
  assumes "github_account x" "path_tail u"
  shows "\<exists>v. trim_suffix (''/'' @ x @ u) ''.git'' = ''/'' @ x @ v \<and> path_tail v"
proof (cases "has_suffix (''/'' @ x @ u) ''.git''")
  case True
  have "CHR ''.'' \<notin> set (''/'' @ x)" using account_chars [OF assms(1)] by auto
  have "4 \<le> length u"
  proof (rule ccontr)
    assume short: "\<not> 4 \<le> length u"
    let ?k = "length (''/'' @ x @ u) - 4"
    have "(''/'' @ x @ u) ! ?k = CHR ''.''"
    proof -
      have d: "drop ?k (''/'' @ x @ u) = ''.git''" and k: "?k < length (''/'' @ x @ u)" using True by (simp_all add: has_suffix_def numeral_eq_Suc)
      show ?thesis using hd_drop_conv_nth [OF k] unfolding d by simp
    qed
    moreover have "(''/'' @ x @ u) ! ?k = (''/'' @ x) ! ?k" "?k < length (''/'' @ x)"
    proof -
      show k: "?k < length (''/'' @ x)" using short True by (simp add: has_suffix_def)
      show "(''/'' @ x @ u) ! ?k = (''/'' @ x) ! ?k" using k nth_append_left [OF k, of u] by simp
    qed
    ultimately show False using \<open>CHR ''.'' \<notin> set (''/'' @ x)\<close> nth_mem by metis
  qed
  then have "length (''/'' @ x @ u) - length ''.git'' = length (''/'' @ x) + (length u - 4)" by simp
  then have "trim_suffix (''/'' @ x @ u) ''.git'' = ''/'' @ x @ take (length u - 4) u"
    using True unfolding trim_suffix_def by simp
  then show ?thesis using path_tail_take [OF assms(2)] by blast
qed (use assms(2) in \<open>auto simp: trim_suffix_def\<close>)

lemma trim_slashes_account:
  assumes "github_account x" "path_tail v"
  shows "\<exists>w. trim_slashes (''/'' @ x @ v) = x @ w \<and> path_tail w"
proof -
  obtain c cs where x: "x = c # cs" "c \<noteq> CHR ''/''" using account_chars [OF assms(1)] by (cases x) auto
  obtain ds d where y: "x = ds @ [d]" "d \<noteq> CHR ''/''" using account_chars [OF assms(1)] by (cases x rule: rev_cases) auto
  have "dropWhile (\<lambda>c. c = CHR ''/'') (rev v @ rev x) = dropWhile (\<lambda>c. c = CHR ''/'') (rev v) @ rev x"
    using y by (simp add: dropWhile_append)
  then have "trim_slashes (''/'' @ x @ v) = x @ rev (dropWhile (\<lambda>c. c = CHR ''/'') (rev v))"
    using x by (simp add: trim_slashes_def)
  moreover have "rev (dropWhile (\<lambda>c. c = CHR ''/'') (rev v)) = take (length v - length (takeWhile (\<lambda>c. c = CHR ''/'') (rev v))) v"
    by (simp add: dropWhile_eq_drop drop_rev)
  ultimately show ?thesis using path_tail_take [OF assms(2)] by metis
qed

lemma split_account:
  assumes "github_account x" "path_tail w"
  shows "\<exists>ws. split_on CHR ''/'' (x @ w) = x # ws" and "takeWhile (\<lambda>c. c \<noteq> CHR ''/'') (x @ w) = x"
proof -
  have n: "CHR ''/'' \<notin> set x" using account_chars [OF assms(1)] by simp
  show "\<exists>ws. split_on CHR ''/'' (x @ w) = x # ws"
    using assms(2) n by (cases w) (auto simp: path_tail_def split_on_Cons_sep)
  show "takeWhile (\<lambda>c. c \<noteq> CHR ''/'') (x @ w) = x"
    using assms(2) n by (cases w) (auto simp: path_tail_def takeWhile_append)
qed

text \<open>An identity that is read from a URL of an account names that account.\<close>

lemma identity_account:
  assumes "github_account x" "path_tail t" "runtimeRepositoryIdentity l (''https://github.com/'' @ x @ t) = Some repository"
  shows "labelled_account repository = x"
proof -
  let ?url = "''https://github.com/'' @ x @ t"
  obtain path where path: "github_path ?url = Some path"
    using assms(3) by (auto simp: runtimeRepositoryIdentity_def canonicalRepositoryIdentity_def isRegisteredRepositoryURL_def split: option.splits)
  obtain u where u: "path = ''/'' @ x @ u" "path_tail u" using github_path_account [OF assms(1,2) path] by blast
  obtain v where v: "trim_suffix path ''.git'' = ''/'' @ x @ v" "path_tail v" using trim_git_account [OF assms(1) u(2)] u(1) by blast
  obtain w where w: "url_identity path = x @ w" "path_tail w"
    using trim_slashes_account [OF assms(1) v(2)] v(1) unfolding url_identity_def by auto
  obtain ws where ws: "split_on CHR ''/'' (url_identity path) = x # ws" using split_account(1) [OF assms(1) w(2)] w(1) by auto
  have no: "CHR ''/'' \<notin> set x" using account_chars(1) [OF assms(1)] by simp
  show ?thesis
  proof (cases "canonicalRepositoryIdentity ?url")
    case (Some identity)
    then have "identity = x \<or> (\<exists>name. identity = x @ ''/'' @ name)"
      using path ws by (auto simp: canonicalRepositoryIdentity_def split: list.splits if_splits)
    then have "labelled_account identity = x" using no by (auto simp: labelled_account_def takeWhile_append)
    then show ?thesis using Some assms(3) by (simp add: runtimeRepositoryIdentity_def)
  next
    case None
    then have r: "repository = trim_slashes path" "CHR ''/'' \<notin> set repository"
      using assms(3) path by (auto simp: runtimeRepositoryIdentity_def Let_def split: if_splits)
    obtain w' where "trim_slashes path = x @ w'" "path_tail w'" using trim_slashes_account [OF assms(1) u(2)] u(1) by auto
    then show ?thesis using split_account(2) [OF assms(1)] r(1) by (simp add: labelled_account_def)
  qed
qed

lemma trim_prefix_append: "trim_prefix (p @ r) p = r"
  by (simp add: trim_prefix_def has_prefix_def)

lemma to_lower_colon:
  assumes "CHR '':'' \<in> set (to_lower s)"
  shows "CHR '':'' \<in> set s"
proof -
  obtain c where c: "c \<in> set s" "CHR '':'' = (if CHR ''A'' \<le> c \<and> c \<le> CHR ''Z'' then char_of (of_char c + 32 :: nat) else c)"
    using assms by (auto simp: to_lower_def)
  have "\<not> (CHR ''A'' \<le> c \<and> c \<le> CHR ''Z'')"
  proof
    assume l: "CHR ''A'' \<le> c \<and> c \<le> CHR ''Z''"
    then have "65 \<le> (of_char c :: nat) \<and> (of_char c :: nat) \<le> 90" by (simp add: less_eq_char_def)
    moreover have "(of_char (char_of (of_char c + 32 :: nat)) :: nat) = 58" unfolding c(2) [symmetric, simplified l, simplified] by simp
    ultimately show False by simp
  qed
  then show ?thesis using c by auto
qed

lemma bootstrap_url:
  assumes "github_path (bs_RepoURL b) = Some path" "github_account (bootstrapOwner b)"
  shows "\<exists>t. path_tail t \<and> bs_RepoURL b = ''https://github.com/'' @ bootstrapOwner b @ t"
proof (cases "has_prefix (bs_RepoURL b) ''https://github.com/''")
  case True
  then obtain r where r: "bs_RepoURL b = ''https://github.com/'' @ r" by (auto simp: has_prefix_iff)
  then have o: "bootstrapOwner b = takeWhile (\<lambda>c. c \<noteq> CHR ''/'') r" by (simp only: bootstrapOwner_def r trim_prefix_append)
  have "path_tail (dropWhile (\<lambda>c. c \<noteq> CHR ''/'') r)" by (auto simp: path_tail_def dropWhile_eq_Cons_conv)
  then show ?thesis using r o takeWhile_dropWhile_id [of "\<lambda>c. c \<noteq> CHR ''/''" r] by metis
next
  case False
  then have o: "bootstrapOwner b = takeWhile (\<lambda>c. c \<noteq> CHR ''/'') (bs_RepoURL b)" by (simp add: bootstrapOwner_def trim_prefix_def)
  have low: "to_lower (take 6 (bs_RepoURL b)) = ''https:''" using assms(1) by (auto simp: github_path_def split: if_splits)
  have colon: "CHR '':'' \<in> set (take 6 (bs_RepoURL b))"
    using low to_lower_colon by (metis list.set_intros(1) list.set_intros(2))
  have "CHR ''/'' \<notin> set (take 6 (bs_RepoURL b))"
  proof
    assume "CHR ''/'' \<in> set (take 6 (bs_RepoURL b))"
    then have "CHR ''/'' \<in> set (to_lower (take 6 (bs_RepoURL b)))" by (force simp: to_lower_def)
    then show False unfolding low by simp
  qed
  then have "takeWhile (\<lambda>c. c \<noteq> CHR ''/'') (take 6 (bs_RepoURL b) @ drop 6 (bs_RepoURL b)) = take 6 (bs_RepoURL b) @ takeWhile (\<lambda>c. c \<noteq> CHR ''/'') (drop 6 (bs_RepoURL b))"
    by (subst takeWhile_append2) auto
  then have "CHR '':'' \<in> set (bootstrapOwner b)" using colon o by simp
  then show ?thesis using account_chars(1) [OF assms(2)] by simp
qed

lemma within_tenant_account:
  assumes "github_account x" "path_tail s" "(i, t) \<in> set tenants" "repositoryWithinTenant t (''https://github.com/'' @ x @ s)"
  shows "x = t_Owner t"
proof -
  have t: "CHR ''/'' \<notin> set (t_Owner t)" "labelled_account (t_Repository t) = t_Owner t"
    using assms(3) by (auto simp: tenants_def labelled_account_def DefaultID_def)
  have x: "labelled_account (x @ s) = x" using split_account(2) [OF assms(1,2)] by (simp add: labelled_account_def)
  have strip: "trim_suffix (github_url (t_Owner t @ ''/'')) ''/'' = github_url (t_Owner t)"
    by (simp add: trim_suffix_def github_url_def has_suffix_def)
  consider "x @ s = t_Repository t" | "x @ s = t_Owner t" | r where "x @ s = t_Owner t @ ''/'' @ r"
    using assms(4) unfolding repositoryWithinTenant_def Let_def strip
    by (auto simp: github_url_def has_prefix_iff)
  then show ?thesis
  proof cases
    case 3
    then have "labelled_account (x @ s) = t_Owner t" using t(1) by (simp add: labelled_account_def takeWhile_append)
    then show ?thesis using x by simp
  qed (use t x in \<open>auto simp: labelled_account_def takeWhile_eq_all_conv\<close>)
qed


section \<open>A retried create adopts its own instance\<close>

text \<open>A direct JIT worker is launched without the cloud configuration.\<close>

definition launch_args :: "bool \<Rightarrow> create_args \<Rightarrow> create_args" where
  "launch_args direct args = (if direct then args\<lparr>ag_Config := del ''user.user-data'' (ag_Config args)\<rparr> else args)"

text \<open>An instance as Incus shows it after a launch: the profile adds nothing of the keys that are checked.\<close>

definition launched_instance :: "create_args \<Rightarrow> instance_full" where
  "launched_instance args =
     \<lparr>iu_instance = \<lparr>ii_Name = ag_Name args, ii_Type = ag_Type args, ii_Status = ''Running'', ii_Location = [], ii_Profiles = ag_Profiles args,
        ii_ExpandedConfig = ag_Config args\<rparr>,
      iu_Architecture = ag_Architecture args, iu_Config = ag_Config args, iu_Status = Some ''Running''\<rparr>"

lemma config_value_launch: "k \<noteq> ''user.user-data'' \<Longrightarrow> config_value (ag_Config (launch_args direct args)) k = config_value (ag_Config args) k"
  by (simp add: launch_args_def config_value_def map_simps)

lemma started_variant:
  assumes "newNDDevAdmission e cfg controllerID = Inr n" "config_Pool (nd_platform n) flavor = Some pool" "workerImagePolicy n flavor = Inr img"
  shows "wi_Variant img = (if ca_Docker (pl_Capabilities pool) then ''integration'' else ''standard'')"
proof -
  have imgs: "ic_WorkerImages (nd_cfg n) = nd_workerImages n" using assms(1) by (auto simp: newNDDevAdmission_def split: option.splits if_splits)
  have "get (nd_workerImages n) flavor = Some img" using assms(2,3) imgs by (auto simp: workerImagePolicy_def split: option.splits if_splits)
  then have "(flavor, img) \<in> set (nd_workerImages n)" by (rule map_of_SomeD)
  then have "image_mapping_error (nd_platform n) (flavor, img) = None"
    using newNDDevAdmission_Inr(8) [OF assms(1)] by (auto simp: validateWorkerImageMappings_def first_error_None_iff)
  then show ?thesis using assms(2) by (simp add: image_mapping_error_def split: if_splits)
qed

text \<open>C37: What a create launches, its retry accepts. In a provider that has started, the arguments that a create builds for a
  container pool give an instance that passes the validation of an existing instance for the same request, with or without the cloud
  configuration: security contract, release, image, account, trust and job name all agree, so a create whose answer was lost can be
  repeated.\<close>

theorem created_job_validates:
  assumes "newNDDevAdmission e cfg controllerID = Inr (l_admission l)" "getCreateInstanceArgs l an tool cloud b = Inr args" "ag_Type args = ''container''"
    and "\<not> ic_IncludeDefaultProfile (nd_cfg (l_admission l))"
  shows "validateExistingInstance l (launched_instance (launch_args direct args)) b = None"
proof -
  let ?n = "l_admission l" and ?i = "iu_instance (launched_instance (launch_args direct args))"
  obtain pool img repository cloudCfg where p: "config_Pool (nd_platform ?n) (bs_Flavor b) = Some pool" "workerImagePolicy ?n (bs_Flavor b) = Inr img"
      "runtimeRepositoryIdentity l (bs_RepoURL b) = Some repository" "ag_Type args = wi_InstanceType img" "ag_Architecture args = ''x86_64''"
      "ag_Profiles args = [bs_Flavor b]" "validateBootstrapParams l b = None"
    and c: "ag_Config args = (''user.user-data'', cloudCfg) # [
         (osTypeKeyName, bp_OSType b), (osArchKeyName, bp_OSArch b), (controllerIDKeyName, nd_controllerID ?n), (poolIDKey, bs_PoolID b),
         (imageAliasKey, wi_Alias img), (imageFingerprintKey, wi_Fingerprint img), (providerVersionKey, pi_Version (l_current l)),
         (providerCommitKey, pi_Commit (l_current l)), (flavorKey, bs_Flavor b), (lifecycleKey, lifecycleEphemeralOneJob),
         (trustKey, pl_Trust pool), (instanceScaleSetKey, pl_ScaleSetName pool), (repositoryKey, repository), (garmJobNameKey, bs_Name b),
         (networkPolicyKey, ca_NetworkPolicy (pl_Capabilities pool)), (cacheWriteScopeKey, ca_CacheWriteScope (pl_Capabilities pool))]
         @ security_config ?n pool img"
    using assms(2,4)
    by (auto simp: getCreateInstanceArgs_def return_simps Let_def getProfiles_def jobMetadata_def split: option.splits sum.splits if_splits)
  note variant = started_variant [OF assms(1) p(1,2)]
  have container: "wi_InstanceType img = ''container''" using p(4) assms(3) by simp
  have os: "bp_OSType b = ''linux''" "bp_OSArch b = ''amd64''"
    using p(7) by (simp_all add: validateBootstrapParams_def request_error_def split: if_splits)
  have m: "meta ?i k = config_value (ag_Config args) k" if "k \<noteq> ''user.user-data''" for k
    using config_value_launch [OF that] by (simp add: meta_def launched_instance_def)
  have shape: "ii_Type ?i = ''container''" "ii_Profiles ?i = [bs_Flavor b]"
      "iu_Architecture (launched_instance (launch_args direct args)) = ''x86_64''"
    using p(4-6) container by (simp_all add: launched_instance_def launch_args_def)
  have contract: "first_error (job_key_error ?i) (existing_contract l b pool img repository) = None"
    by (simp add: existing_contract_def job_key_error_def m c config_value_def os)
  have secure: "first_error (job_key_error ?i) (snd (managedSecurityContract img) @ [(lifecycleKey, lifecycleEphemeralOneJob)]) = None"
    by (simp add: managedSecurityContract_def container variant job_key_error_def m c config_value_def security_config_def)
  have keys: "meta ?i flavorKey = bs_Flavor b" "meta ?i imageFingerprintKey = wi_Fingerprint img" "meta ?i lifecycleKey = lifecycleEphemeralOneJob"
      "meta ?i providerVersionKey = pi_Version (l_current l)" "meta ?i providerCommitKey = pi_Commit (l_current l)"
    by (simp_all add: m c config_value_def)
  have "validateManagedSecurity l ?i = None"
    using secure by (simp add: validateManagedSecurity_def keys p(2) shape AllowsExistingFingerprint_def managedSecurityContract_def container)
  then show ?thesis
    by (simp add: validateExistingInstance_def Let_def keys p(1-3) contract shape AllowsExistingFingerprint_def AllowsProviderIdentity_def)
qed

end
