(* ===== verification/Job_Create.thy ===== *)
theory Job_Create
  imports Job_Boundary
begin

text \<open>
Creating the worker of one job (\<open>CreateInstance\<close> of \<open>internal/garmproviderincus/provider/incus.go\<close> with
\<open>cache_delivery.go\<close>, \<open>image_identity.go\<close> and \<open>util.go\<close>): narrowing the repository, adopting an instance that is
already there, claiming and activating a warm worker, or admission, preemption and a cold launch, followed by the delivery of the cache claim,
the image identity and the JIT configuration. A create is a state transformer over the journal, the claim store and the effects on guests;
every step that asks the outside meets the next answers of a stream, so that answers may change between steps. Proved, for every stream of
answers: an instance is launched only after an admission of that very job whose queue intent is active, files are pushed only into the
instance of the job or into a free warm worker of its kind, and when a claim that an earlier attempt delivered is adopted.
\<close>

section \<open>The world of one create\<close>

text \<open>One try of pushing a file into a guest: the answer to the request, the state of the instance if it could be inspected, and whether
  the caller's context is still live. The list of tries ends with the one after which the deadline has passed.\<close>

record push_attempt =
  pa_error :: "api_error option"
  pa_status :: "string option"
  pa_context :: bool

text \<open>One look at the phase file of a direct JIT worker: the state of the instance, if a probe was due and answered, and the file with the
  owner, mode and type that the server reports, if it is there.\<close>

record phase_poll =
  ph_status :: "string option"
  ph_file :: "file_answer option"

text \<open>One answer about an instance: the call, and the addresses with their scopes.\<close>

record instance_poll =
  ip_call :: call_answers
  ip_addresses :: "(string \<times> string) list"

text \<open>What a worker finds in its cache assignment.\<close>

record worker_claim =
  wc_InstanceName :: string
  wc_RunnerName :: string
  wc_ClaimEndpoint :: string
  wc_ClaimToken :: string
  wc_CAPEMB64 :: string

text \<open>A cache assignment that was found in a guest: not decodable, of the previous schema (its delivery and role, if its content is
  valid), a claim (if complete), or of another schema.\<close>

datatype found_assignment =
    Undecodable | DirectAssignment "(string \<times> string) option" | ClaimAssignment "worker_claim option" | OtherSchema

text \<open>The answers that one step of a create meets, besides those of a provider call: the claim store, the claim contract with its
  endpoint and certificate, the random token, the tries of a push, the polls, the cache files of the guest, the runner package and the
  cloud configuration, and the answer to a change of state.\<close>

record job_answers = call_answers +
  ja_store :: store_env
  ja_contract :: "(string \<times> string) option"
  ja_endpoint_ok :: bool
  ja_token :: "nat list option"
  ja_attempts :: "push_attempt list"
  ja_push :: "api_error option"
  ja_phases :: "phase_poll list"
  ja_polls :: "instance_poll list"
  ja_phase_file :: "api_error + unit"
  ja_consumed :: "api_error + file_answer"
  ja_ready :: "api_error + file_answer"
  ja_assignment :: "(found_assignment \<times> (int \<times> int \<times> int \<times> string) option) option"
  ja_tool :: "(string \<times> string) option"
  ja_cloud :: "bool \<Rightarrow> bool \<Rightarrow> string option"
  ja_state :: "api_error option"
  ja_pem_ok :: bool

text \<open>The world: the journal and the calls of the provider, the claim store, and the effects on guests: the files that were pushed and the
  instances whose configuration was rewritten.\<close>

record job_world =
  jw_warm :: warm_world
  jw_claims :: claim_file
  jw_pushes :: "(string \<times> string) list"
  jw_binds :: "(string \<times> string gomap) list"

type_synonym 'a job = "job_world \<Rightarrow> (job_error + 'a) \<times> job_world"

definition ok :: "'a \<Rightarrow> 'a job" where "ok v w = (Inr v, w)"
definition fail :: "job_error \<Rightarrow> 'a job" where "fail e w = (Inl e, w)"
definition result :: "job_error + 'a \<Rightarrow> 'a job" where "result r w = (r, w)"

definition jthen :: "'a job \<Rightarrow> ('a \<Rightarrow> 'b job) \<Rightarrow> 'b job" where
  "jthen m k w = (case m w of (Inl e, w') \<Rightarrow> (Inl e, w') | (Inr v, w') \<Rightarrow> k v w')"

text \<open>A step that meets the next answers.\<close>

definition ask :: "(nat \<Rightarrow> job_answers) \<Rightarrow> (job_answers \<Rightarrow> 'a job) \<Rightarrow> 'a job" where
  "ask J f w = f (J (ww_call (jw_warm w))) (w\<lparr>jw_warm := next_call (jw_warm w)\<rparr>)"

abbreviation call_of :: "job_answers \<Rightarrow> call_answers" where "call_of an \<equiv> call_answers.truncate an"

definition on_journal :: "(journal_file \<Rightarrow> (provider_error + 'a) \<times> journal_file) \<Rightarrow> 'a job" where
  "on_journal g w =
     (case g (ww_file (jw_warm w)) of
        (r, f) \<Rightarrow> (case r of Inl e \<Rightarrow> Inl (JobWarm (WarmAdmission e)) | Inr v \<Rightarrow> Inr v, w\<lparr>jw_warm := (jw_warm w)\<lparr>ww_file := f\<rparr>\<rparr>))"

definition on_warm :: "(warm_world \<Rightarrow> (warm_error + 'a) \<times> warm_world) \<Rightarrow> 'a job" where
  "on_warm g w = (case g (jw_warm w) of (r, v) \<Rightarrow> (lift_job r, w\<lparr>jw_warm := v\<rparr>))"

definition on_claims :: "(claim_file \<Rightarrow> (broker_error + 'a) \<times> claim_file) \<Rightarrow> 'a job" where
  "on_claims g w = (case g (jw_claims w) of (r, f) \<Rightarrow> (case r of Inl e \<Rightarrow> Inl (JobClaim e) | Inr v \<Rightarrow> Inr v, w\<lparr>jw_claims := f\<rparr>))"

definition delete_job :: "incus_provider \<Rightarrow> (nat \<Rightarrow> job_answers) \<Rightarrow> string \<Rightarrow> unit job" where
  "delete_job l J name = on_warm (delete_in (l_admission l) (\<lambda>k. call_of (J k)) name)"

definition release_job :: "incus_provider \<Rightarrow> (nat \<Rightarrow> job_answers) \<Rightarrow> string \<Rightarrow> unit job" where
  "release_job l J name = on_warm (release_in (l_admission l) (\<lambda>k. call_of (J k)) name)"

section \<open>The repository of a request\<close>

text \<open>Whether the URL names one repository and not a whole account.\<close>

definition names_repository :: "string \<Rightarrow> bool" where
  "names_repository url \<longleftrightarrow> (case canonicalRepositoryIdentity url of Some identity \<Rightarrow> CHR ''/'' \<in> set identity | None \<Rightarrow> False)"

definition within_boundary :: "incus_provider \<Rightarrow> bootstrap_params \<Rightarrow> bootstrap_params job" where
  "within_boundary l b = (if isRegisteredRepositoryURL l (bs_RepoURL b) then ok b else fail (JobBadRequest ''repository boundary''))"

definition narrowBootstrapRepository :: "incus_provider \<Rightarrow> (nat \<Rightarrow> job_answers) \<Rightarrow> bootstrap_params \<Rightarrow> bootstrap_params job" where
  "narrowBootstrapRepository l J b =
     (if names_repository (bs_RepoURL b) then within_boundary l b
      else ask J (\<lambda>an.
        case ResolveRepository (l_admission l) (an_env an) (bootstrap.truncate b) of
          Inl e \<Rightarrow> within_boundary l b
        | Inr repository \<Rightarrow> within_boundary l (b\<lparr>bs_RepoURL := github_url repository\<rparr>)))"

section \<open>Files in a guest\<close>

fun push_loop :: "push_attempt list \<Rightarrow> job_error + unit" where
  "push_loop [] = Inl (JobGuest ''deadline'')"
| "push_loop (a # as) =
     (case pa_error a of
        None \<Rightarrow> Inr ()
      | Some err \<Rightarrow>
          if pa_status a \<notin> {None, Some ''Running''} then Inl (JobGuest ''stopped'')
          else if as = [] then Inl (JobGuest ''deadline'')
          else if \<not> pa_context a then Inl (JobGuest ''canceled'')
          else push_loop as)"

text \<open>A push with its retries (\<open>injectAssignment\<close>); the request is an effect whatever comes of it.\<close>

definition injectAssignment :: "(nat \<Rightarrow> job_answers) \<Rightarrow> string \<Rightarrow> string \<Rightarrow> unit job" where
  "injectAssignment J inst path = ask J (\<lambda>an w. (push_loop (ja_attempts an), w\<lparr>jw_pushes := jw_pushes w @ [(inst, path)]\<rparr>))"

text \<open>A push that is tried once.\<close>

definition push_once :: "(nat \<Rightarrow> job_answers) \<Rightarrow> string \<Rightarrow> string \<Rightarrow> unit job" where
  "push_once J inst path = ask J (\<lambda>an w. (case ja_push an of None \<Rightarrow> Inr () | Some e \<Rightarrow> Inl (JobWarm (WarmApi e)), w\<lparr>jw_pushes := jw_pushes w @ [(inst, path)]\<rparr>))"

abbreviation imageIdentityPath :: string where "imageIdentityPath \<equiv> ''/run/nddev/image-fingerprint''"
abbreviation cacheAssignmentPath :: string where "cacheAssignmentPath \<equiv> ''/home/runner/.gha-cache/provider-assignment.json''"
abbreviation cacheReadyPath :: string where "cacheReadyPath \<equiv> ''/home/runner/.gha-cache/provider-assignment.ready''"

definition warmAssignmentPath :: "string \<Rightarrow> string" where
  "warmAssignmentPath jobName = ''/run/gha-warm/assignments/'' @ hex_encode (sha256 (bytes_of (''nddev-warm-assignment-v1'' @ [CHR 0x00] @ jobName))) @ ''.sh''"

definition publishJobImageIdentity :: "incus_provider \<Rightarrow> (nat \<Rightarrow> job_answers) \<Rightarrow> string \<Rightarrow> string \<Rightarrow> unit job" where
  "publishJobImageIdentity l J inst flavor =
     jthen (result (lift_job (workerImagePolicy (l_admission l) flavor))) (\<lambda>img.
     if \<not> hashPattern (wi_Fingerprint img) then fail (JobGuest ''fingerprint'')
     else injectAssignment J inst imageIdentityPath)"

text \<open>Waiting for the first line of the phase file; its JSON decoder is the argument.\<close>

definition phase_event_ok :: "(string \<Rightarrow> (int \<times> string \<times> int) option) \<Rightarrow> worker_image \<Rightarrow> file_answer \<Rightarrow> bool" where
  "phase_event_ok event_of img a \<longleftrightarrow>
     length (fa_data a) \<le> 4096 \<and> fa_response a = Some (wi_RunnerUID img, wi_RunnerGID img, 384, ''file'')
     \<and> (case event_of (takeWhile (\<lambda>c. c \<noteq> CHR 0x0A) (fa_data a)) of
          Some (schema, phase, ns) \<Rightarrow> schema = 1 \<and> phase = ''assignment-script-started'' \<and> ns > 0
        | None \<Rightarrow> False)"

fun wait_started :: "(file_answer \<Rightarrow> bool) \<Rightarrow> phase_poll list \<Rightarrow> job_error + unit" where
  "wait_started valid [] = Inl (JobGuest ''assignment start'')"
| "wait_started valid (p # ps) =
     (if ph_status p \<notin> {None, Some ''Running''} then Inl (JobGuest ''stopped'')
      else (case ph_file p of
              Some a \<Rightarrow> if valid a then Inr () else Inl (JobGuest ''phase evidence'')
            | None \<Rightarrow> wait_started valid ps))"

definition waitDirectJITAssignmentStarted ::
    "incus_provider \<Rightarrow> (nat \<Rightarrow> job_answers) \<Rightarrow> (string \<Rightarrow> (int \<times> string \<times> int) option) \<Rightarrow> string \<Rightarrow> unit job" where
  "waitDirectJITAssignmentStarted l J event_of flavor =
     (case get (ic_WorkerImages (nd_cfg (l_admission l))) flavor of
        None \<Rightarrow> fail (JobWarm (WarmImage flavor))
      | Some img \<Rightarrow> ask J (\<lambda>an. result (wait_started (phase_event_ok event_of img) (ja_phases an))))"

section \<open>What GARM is told of an instance\<close>

datatype instance_status = InstanceRunning | InstanceStopped | InstanceStatusUnknown

definition incusStatusToProviderStatus :: "string \<Rightarrow> instance_status" where
  "incusStatusToProviderStatus status =
     (if status = ''Running'' then InstanceRunning else if status = ''Stopped'' then InstanceStopped else InstanceStatusUnknown)"

record provider_instance =
  pn_Name :: string
  pn_ProviderID :: string
  pn_Status :: instance_status
  pn_Addresses :: "string list"

definition incusInstanceToAPIInstance :: "instance_full \<Rightarrow> (string \<times> string) list \<Rightarrow> provider_instance" where
  "incusInstanceToAPIInstance u addresses =
     \<lparr>pn_Name = ii_Name (iu_instance u), pn_ProviderID = ii_Name (iu_instance u), pn_Status = (case iu_Status u of None \<Rightarrow> InstanceStatusUnknown | Some status \<Rightarrow> incusStatusToProviderStatus status),
      pn_Addresses = (if iu_Status u = None then [] else map snd (filter (\<lambda>(scope, a). scope = ''global'') addresses))\<rparr>"

text \<open>A claimed warm worker keeps its physical name as the provider identity and takes the job's name, if the journal resolves the job
  to this very instance.\<close>

definition projectGARMInstanceIdentity ::
    "incus_provider \<Rightarrow> store_env \<Rightarrow> listed_instance \<Rightarrow> provider_instance \<Rightarrow> journal_file \<Rightarrow> job_error + provider_instance" where
  "projectGARMInstanceIdentity l env i p f =
     (let jobName = meta i garmJobNameKey
      in if jobName = [] then Inr p
         else (case Resolve (nd_controller (l_admission l)) env jobName f of
                 Inl e \<Rightarrow> Inl (JobWarm (WarmAdmission (ControllerFailed e)))
               | Inr resolved \<Rightarrow>
                   if resolved \<noteq> ii_Name i then Inl (JobIdentity jobName)
                   else Inr (p\<lparr>pn_Name := jobName, pn_ProviderID := ii_Name i\<rparr>)))"

definition GetInstance :: "incus_provider \<Rightarrow> instance_poll \<Rightarrow> string \<Rightarrow> journal_file \<Rightarrow> job_error + provider_instance" where
  "GetInstance l po name f =
     (let env = pv_store (an_env (ip_call po))
      in case Resolve (nd_controller (l_admission l)) env name f of
           Inl e \<Rightarrow> Inl (JobWarm (WarmAdmission (ControllerFailed e)))
         | Inr resolved \<Rightarrow>
             or_return (lift_job (getManagedInstance (l_admission l) (ip_call po) resolved)) (\<lambda>u.
               projectGARMInstanceIdentity l env (iu_instance u) (incusInstanceToAPIInstance u (ip_addresses po)) f))"

fun first_address :: "incus_provider \<Rightarrow> string \<Rightarrow> instance_poll list \<Rightarrow> journal_file \<Rightarrow> job_error + provider_instance" where
  "first_address l name [] f = Inl (JobGuest ''address'')"
| "first_address l name (po # pos) f =
     (case GetInstance l po name f of
        Inl e \<Rightarrow> if pos = [] then Inl e else first_address l name pos f
      | Inr p \<Rightarrow> if list_ex (\<lambda>a. parse_ipv4 a \<noteq> None) (pn_Addresses p) then Inr p else first_address l name pos f)"

text \<open>At most twenty attempts.\<close>

definition waitInstanceHasIP :: "incus_provider \<Rightarrow> (nat \<Rightarrow> job_answers) \<Rightarrow> string \<Rightarrow> provider_instance job" where
  "waitInstanceHasIP l J name = ask J (\<lambda>an w. (first_address l name (take 20 (ja_polls an)) (ww_file (jw_warm w)), w))"

definition list_one :: "incus_provider \<Rightarrow> store_env \<Rightarrow> journal_file \<Rightarrow> listed_instance \<Rightarrow> provider_instance list \<Rightarrow> job_error + provider_instance list" where
  "list_one l env f i ps =
     or_return (projectGARMInstanceIdentity l env i
         \<lparr>pn_Name = ii_Name i, pn_ProviderID = ii_Name i, pn_Status = incusStatusToProviderStatus (ii_Status i), pn_Addresses = []\<rparr> f) (\<lambda>p. Inr (ps @ [p]))"

text \<open>The inventory of one pool, or of all pools if no identifier is given.\<close>

definition incus_ListInstances :: "incus_provider \<Rightarrow> store_env \<Rightarrow> listed_instance list option \<Rightarrow> string \<Rightarrow> journal_file \<Rightarrow> job_error + provider_instance list" where
  "incus_ListInstances l env listing poolID f =
     (case listing of
        None \<Rightarrow> Inl (JobWarm WarmListing)
      | Some instances \<Rightarrow>
          fold_err (list_one l env f)
            (filter (\<lambda>i. has (ii_ExpandedConfig i) controllerIDKeyName \<and> meta i controllerIDKeyName = nd_controllerID (l_admission l)
                         \<and> (poolID = [] \<or> meta i poolIDKey = poolID)) instances) [])"

definition RemoveAllInstances :: "incus_provider \<Rightarrow> (nat \<Rightarrow> job_answers) \<Rightarrow> store_env \<Rightarrow> listed_instance list option \<Rightarrow> unit job" where
  "RemoveAllInstances l J env listing w =
     jthen (result (incus_ListInstances l env listing [] (ww_file (jw_warm w))))
       (\<lambda>ps. foldr (\<lambda>p rest. jthen (delete_job l J (pn_Name p)) (\<lambda>_. rest)) ps (ok ())) w"

section \<open>The cache claim of a worker (\<open>cache_delivery.go\<close>)\<close>

text \<open>The role of the pool, and whether workers get a claim at all.\<close>

definition cacheClaimConfigured :: "incus_provider \<Rightarrow> bootstrap_params \<Rightarrow> job_error + string option" where
  "cacheClaimConfigured l b =
     or_return (found (JobUnknownPool (bs_Flavor b)) (config_Pool (nd_platform (l_admission l)) (bs_Flavor b))) (\<lambda>pool.
     or_return (found (JobCache ''role'') (cacheRoleForPool pool)) (\<lambda>role. Inr (if l_cacheClaim l then Some role else None)))"

text \<open>\<open>base64.RawURLEncoding.EncodeToString\<close>.\<close>

fun raw_url_encode :: "nat list \<Rightarrow> string" where
  "raw_url_encode [] = []"
| "raw_url_encode [a] = [url_alphabet ! (a div 4), url_alphabet ! ((a mod 4) * 16)]"
| "raw_url_encode [a, b] = [url_alphabet ! (a div 4), url_alphabet ! ((a mod 4) * 16 + b div 16), url_alphabet ! ((b mod 16) * 4)]"
| "raw_url_encode (a # b # c # rest) =
     [url_alphabet ! (a div 4), url_alphabet ! ((a mod 4) * 16 + b div 16), url_alphabet ! ((b mod 16) * 4 + c div 64), url_alphabet ! (c mod 64)]
     @ raw_url_encode rest"

text \<open>The certificates that a claim carries: that of the cache and, after a line break, the bundle of the request.\<close>

definition claim_certificates :: "string \<Rightarrow> string \<Rightarrow> string" where
  "claim_certificates ca bundle =
     (if bundle = [] then ca else (if ca \<noteq> [] \<and> last ca \<noteq> CHR 0x0A then ca @ [CHR 0x0A] else ca) @ bundle)"

definition rendered_claim :: "string \<Rightarrow> bootstrap_params \<Rightarrow> string \<Rightarrow> string \<Rightarrow> nat list \<Rightarrow> worker_claim" where
  "rendered_claim inst b endpoint ca token =
     \<lparr>wc_InstanceName = inst, wc_RunnerName = bs_Name b, wc_ClaimEndpoint = endpoint, wc_ClaimToken = raw_url_encode token,
      wc_CAPEMB64 = std_encode (bytes_of (claim_certificates ca (bp_CACertBundle b)))\<rparr>"

definition renderCacheClaim :: "incus_provider \<Rightarrow> (nat \<Rightarrow> job_answers) \<Rightarrow> string \<Rightarrow> bootstrap_params \<Rightarrow> worker_claim option job" where
  "renderCacheClaim l J inst b =
     jthen (result (cacheClaimConfigured l b)) (\<lambda>configured.
       case configured of
         None \<Rightarrow> ok None
       | Some role \<Rightarrow> ask J (\<lambda>an.
           jthen (result (found (JobCache ''contract'') (ja_contract an))) (\<lambda>(endpoint, ca).
           if \<not> ja_endpoint_ok an then fail (JobCache ''endpoint'')
           else jthen (result (found (JobCache ''random'') (ja_token an))) (\<lambda>token.
           jthen (on_claims (cb_Add (ja_store an) inst (bs_Flavor b) role token)) (\<lambda>_.
           ok (Some (rendered_claim inst b endpoint ca token)))))))"

text \<open>The deferred removal: a claim that was added is removed again when the steps up to its commit fail; a failing removal is ignored.\<close>

definition with_claim :: "(nat \<Rightarrow> job_answers) \<Rightarrow> string \<Rightarrow> bool \<Rightarrow> 'a job \<Rightarrow> 'a job" where
  "with_claim J inst added body w =
     (case body w of
        (Inr v, w') \<Rightarrow> (Inr v, w')
      | (Inl e, w') \<Rightarrow>
          if \<not> added then (Inl e, w')
          else (Inl e, snd (ask J (\<lambda>an. on_claims (cb_Remove (ja_store an) inst)) w')))"

definition injectColdCacheAssignment :: "incus_provider \<Rightarrow> (nat \<Rightarrow> job_answers) \<Rightarrow> string \<Rightarrow> bootstrap_params \<Rightarrow> unit job" where
  "injectColdCacheAssignment l J inst b =
     jthen (renderCacheClaim l J inst b) (\<lambda>claim.
       if claim = None then ok ()
       else with_claim J inst True (jthen (injectAssignment J inst cacheAssignmentPath) (\<lambda>_. push_once J inst cacheReadyPath)))"

definition cacheDeliveryID :: "string \<Rightarrow> string" where
  "cacheDeliveryID jobName = hex_encode (sha256 (bytes_of (''nddev-worker-cache-delivery-v1'' @ [CHR 0x00] @ jobName)))"

definition cacheDeliveryOwnerMatches :: "int \<Rightarrow> int \<Rightarrow> worker_image \<Rightarrow> bool \<Rightarrow> bool" where
  "cacheDeliveryOwnerMatches uid gid img allowRoot \<longleftrightarrow> (allowRoot \<and> uid = 0 \<and> gid = 0) \<or> (uid = wi_RunnerUID img \<and> gid = wi_RunnerGID img)"

definition consumed_ok :: "bootstrap_params \<Rightarrow> worker_image \<Rightarrow> file_answer \<Rightarrow> bool" where
  "consumed_ok b img a \<longleftrightarrow>
     (case fa_response a of
        None \<Rightarrow> False
      | Some (uid, gid, mode, kind) \<Rightarrow> kind = ''file'' \<and> mode = 384 \<and> cacheDeliveryOwnerMatches uid gid img False)
     \<and> length (fa_data a) \<le> 128 \<and> fa_data a = cacheDeliveryID (bs_Name b) @ [CHR 0x0A]"

text \<open>What a ready assignment is checked for.\<close>

definition claim_file_ok :: "incus_provider \<Rightarrow> job_answers \<Rightarrow> string \<Rightarrow> bootstrap_params \<Rightarrow> string \<Rightarrow> worker_claim \<Rightarrow> claim_file \<Rightarrow> job_error + unit" where
  "claim_file_ok l an inst b role c f =
     (if wc_InstanceName c \<noteq> inst \<or> wc_RunnerName c \<noteq> bs_Name b then Inl (JobCache ''runner'')
      else (case raw_url_decode (wc_ClaimToken c) of
              None \<Rightarrow> Inl (JobCache ''token'')
            | Some token \<Rightarrow>
                if length token \<noteq> ClaimTokenBytes then Inl (JobCache ''token'')
                else or_return (found (JobCache ''contract'') (ja_contract an)) (\<lambda>(endpoint, ca).
                  if wc_ClaimEndpoint c \<noteq> endpoint \<or> wc_CAPEMB64 c \<noteq> std_encode (bytes_of ca) then Inl (JobCache ''drifted'')
                  else (case cb_Verify (ja_store an) inst token f of
                          Inl e \<Rightarrow> Inl (JobCache ''journal identity'')
                        | Inr stored \<Rightarrow> if k_Role stored \<noteq> role then Inl (JobCache ''journal identity'') else Inr ()))))"

definition ready_assignment_ok ::
    "incus_provider \<Rightarrow> job_answers \<Rightarrow> string \<Rightarrow> bootstrap_params \<Rightarrow> worker_image \<Rightarrow> string \<Rightarrow> claim_file \<Rightarrow> job_error + unit" where
  "ready_assignment_ok l an inst b img role f =
     (case ja_assignment an of
        None \<Rightarrow> Inl (JobCache ''assignment'')
      | Some (doc, response) \<Rightarrow>
          if (case response of
                None \<Rightarrow> True
              | Some (uid, gid, mode, kind) \<Rightarrow> kind \<noteq> ''file'' \<or> mode \<noteq> 256 \<or> \<not> cacheDeliveryOwnerMatches uid gid img True)
          then Inl (JobCache ''assignment'')
          else (case doc of
                  Undecodable \<Rightarrow> Inl (JobCache ''schema'')
                | OtherSchema \<Rightarrow> Inl (JobCache ''schema'')
                | DirectAssignment content \<Rightarrow> if content = Some (cacheDeliveryID (bs_Name b), role) then Inr () else Inl (JobCache ''job'')
                | ClaimAssignment None \<Rightarrow> Inl (JobCache ''runner'')
                | ClaimAssignment (Some c) \<Rightarrow> claim_file_ok l an inst b role c f))"

definition delivery_evidence ::
    "incus_provider \<Rightarrow> job_answers \<Rightarrow> string \<Rightarrow> bootstrap_params \<Rightarrow> worker_image \<Rightarrow> string \<Rightarrow> claim_file \<Rightarrow> job_error + bool" where
  "delivery_evidence l an inst b img role f =
     (case ja_consumed an of
        Inr a \<Rightarrow> if consumed_ok b img a then Inr True else Inl (JobCache ''consumption'')
      | Inl e \<Rightarrow>
          if \<not> ae_not_found e then Inl (JobCache ''consumption'')
          else (case ja_ready an of
                  Inl e' \<Rightarrow> if ae_not_found e' then Inr False else Inl (JobCache ''readiness'')
                | Inr a \<Rightarrow>
                    if fa_data a \<noteq> [] \<or> fa_response a \<noteq> Some (0, 0, 256, ''file'') then Inl (JobCache ''readiness'')
                    else or_return (ready_assignment_ok l an inst b img role f) (\<lambda>_. Inr True)))"

definition coldCacheDeliveryPresent :: "incus_provider \<Rightarrow> (nat \<Rightarrow> job_answers) \<Rightarrow> string \<Rightarrow> bootstrap_params \<Rightarrow> bool job" where
  "coldCacheDeliveryPresent l J inst b =
     jthen (result (cacheClaimConfigured l b)) (\<lambda>configured.
       case configured of
         None \<Rightarrow> ok True
       | Some role \<Rightarrow>
           jthen (result (lift_job (workerImagePolicy (l_admission l) (bs_Flavor b)))) (\<lambda>img.
           ask J (\<lambda>an w. (delivery_evidence l an inst b img role (jw_claims w), w))))"

section \<open>Launching\<close>

text \<open>One launch: the request under the placement lock, the wait for its end, the start. The request is an effect.\<close>

definition launchInstance :: "(nat \<Rightarrow> job_answers) \<Rightarrow> string \<Rightarrow> job_world \<Rightarrow> api_error option \<times> job_world" where
  "launchInstance J name w =
     (an_launch (J (ww_call (jw_warm w))),
      w\<lparr>jw_warm := next_call ((jw_warm w)\<lparr>ww_launches := ww_launches (jw_warm w) @ [name]\<rparr>)\<rparr>)"

fun deletePreemptedWarmWorkers :: "incus_provider \<Rightarrow> (nat \<Rightarrow> job_answers) \<Rightarrow> string list \<Rightarrow> unit job" where
  "deletePreemptedWarmWorkers l J [] = ok ()"
| "deletePreemptedWarmWorkers l J (name # names) = jthen (delete_job l J name) (\<lambda>_. deletePreemptedWarmWorkers l J names)"

text \<open>A refused placement gives the reservation back.\<close>

definition give_back_job :: "incus_provider \<Rightarrow> (nat \<Rightarrow> job_answers) \<Rightarrow> string \<Rightarrow> reason \<Rightarrow> unit job" where
  "give_back_job l J name why = jthen (release_job l J name) (\<lambda>_. fail (JobRefused why))"

text \<open>The second launch, after warm workers have made room.\<close>

definition launch_again :: "incus_provider \<Rightarrow> (nat \<Rightarrow> job_answers) \<Rightarrow> string \<Rightarrow> unit job" where
  "launch_again l J name w =
     (case launchInstance J name w of
        (None, w') \<Rightarrow> (Inr (), w')
      | (Some err, w') \<Rightarrow>
          if isPlacementRefusal err then give_back_job l J name ReasonInsufficientMemory w'
          else (Inl (JobWarm (WarmApi (wrap_error ''creating instance'' err))), w'))"

definition make_room :: "incus_provider \<Rightarrow> (nat \<Rightarrow> job_answers) \<Rightarrow> bootstrap_params \<Rightarrow> unit job" where
  "make_room l J b =
     jthen (ask J (\<lambda>an. on_journal (nddev_PreemptForPlacement (l_admission l) (an_env an) (bootstrap.truncate b)))) (\<lambda>preemption.
       if ar_PreemptedWarmWorkers preemption = [] then give_back_job l J (bs_Name b) ReasonInsufficientMemory
       else jthen (deletePreemptedWarmWorkers l J (ar_PreemptedWarmWorkers preemption)) (\<lambda>_. launch_again l J (bs_Name b)))"

definition launchColdInstance :: "incus_provider \<Rightarrow> (nat \<Rightarrow> job_answers) \<Rightarrow> bootstrap_params \<Rightarrow> unit job" where
  "launchColdInstance l J b w =
     (case launchInstance J (bs_Name b) w of
        (None, w') \<Rightarrow> (Inr (), w')
      | (Some err, w') \<Rightarrow>
          if isPlacementRefusal err then make_room l J b w'
          else (Inl (JobWarm (WarmApi (wrap_error ''creating instance'' err))), w'))"

section \<open>Handing over the job\<close>

text \<open>The assignment of a worker, with its claim, up to the commit of the claim. A direct JIT assignment and that of the installer have the
  insertion point that the merge needs, so the merge does not fail.\<close>

definition mark_created :: "incus_provider \<Rightarrow> (nat \<Rightarrow> job_answers) \<Rightarrow> string \<Rightarrow> unit job" where
  "mark_created l J name =
     ask J (\<lambda>an. on_journal (\<lambda>f. lift_controller (MarkCreated (nd_controller (l_admission l)) (pv_store (an_env an)) (pv_now (an_env an)) name f)))"

definition startColdDirectJIT ::
    "incus_provider \<Rightarrow> (nat \<Rightarrow> job_answers) \<Rightarrow> (string \<Rightarrow> (int \<times> string \<times> int) option) \<Rightarrow> bootstrap_params \<Rightarrow> provider_instance job" where
  "startColdDirectJIT l J event_of b =
     jthen (waitInstanceHasIP l J (bs_Name b)) (\<lambda>ret.
     jthen (renderCacheClaim l J (bs_Name b) b) (\<lambda>claim.
     jthen (with_claim J (bs_Name b) (claim \<noteq> None)
              (jthen (injectAssignment J (bs_Name b) (warmAssignmentPath (bs_Name b))) (\<lambda>_. publishJobImageIdentity l J (bs_Name b) (bs_Flavor b)))) (\<lambda>_.
     jthen (mark_created l J (bs_Name b)) (\<lambda>_.
     jthen (waitDirectJITAssignmentStarted l J event_of (bs_Flavor b)) (\<lambda>_. ok ret)))))"

definition adoptColdDirectJIT ::
    "incus_provider \<Rightarrow> (nat \<Rightarrow> job_answers) \<Rightarrow> (string \<Rightarrow> (int \<times> string \<times> int) option) \<Rightarrow> bootstrap_params \<Rightarrow> provider_instance job" where
  "adoptColdDirectJIT l J event_of b =
     ask J (\<lambda>an.
       case ja_phase_file an of
         Inr _ \<Rightarrow> jthen (publishJobImageIdentity l J (bs_Name b) (bs_Flavor b)) (\<lambda>_. waitInstanceHasIP l J (bs_Name b))
       | Inl e \<Rightarrow> if ae_not_found e then startColdDirectJIT l J event_of b else fail (JobWarm (WarmApi e)))"

text \<open>The configuration of a warm instance that takes a job.\<close>

definition bound_config :: "string gomap \<Rightarrow> string gomap \<Rightarrow> string gomap" where
  "bound_config config metadata = fold (\<lambda>(k, v) m. put k v m) metadata (del warmReadyKey (del ''user.user-data'' config))"

definition bind_warm :: "incus_provider \<Rightarrow> job_answers \<Rightarrow> bootstrap_params \<Rightarrow> instance_full \<Rightarrow> unit job" where
  "bind_warm l an b u w =
     (let i = iu_instance u
      in if meta i lifecycleKey = lifecycleWarmUnregistered
         then (case validateWarmReadyMetadata (l_admission l) (l_current l) u (bs_Flavor b) of
                 Some e \<Rightarrow> (Inl (JobWarm e), w)
               | None \<Rightarrow>
                   (case jobMetadata l b of
                      Inl e \<Rightarrow> (Inl e, w)
                    | Inr metadata \<Rightarrow>
                        (case an_update an of Some e \<Rightarrow> Inl (JobWarm (WarmApi e)) | None \<Rightarrow> Inr (),
                         w\<lparr>jw_binds := jw_binds w @ [(ii_Name i, bound_config (iu_Config u) metadata)]\<rparr>)))
         else if meta i lifecycleKey = lifecycleEphemeralOneJob
         then (case validateExistingInstance l u b of Some e \<Rightarrow> Inl e | None \<Rightarrow> Inr (), w)
         else (Inl (JobUnprocessable lifecycleKey), w))"

definition mark_injected :: "incus_provider \<Rightarrow> (nat \<Rightarrow> job_answers) \<Rightarrow> string \<Rightarrow> string \<Rightarrow> unit job" where
  "mark_injected l J job inst =
     ask J (\<lambda>an. on_journal (\<lambda>f. lift_controller (MarkWarmInjected (nd_controller (l_admission l)) (pv_store (an_env an)) (pv_now (an_env an)) job inst f)))"

definition inject_warm :: "incus_provider \<Rightarrow> (nat \<Rightarrow> job_answers) \<Rightarrow> bootstrap_params \<Rightarrow> string \<Rightarrow> unit job" where
  "inject_warm l J b inst =
     jthen (renderCacheClaim l J inst b) (\<lambda>claim.
       with_claim J inst (claim \<noteq> None)
         (jthen (push_once J inst (warmAssignmentPath (bs_Name b))) (\<lambda>_. mark_injected l J (bs_Name b) inst)))"

text \<open>What follows once the instance carries the job's metadata.\<close>

definition serve_warm ::
    "incus_provider \<Rightarrow> (nat \<Rightarrow> job_answers) \<Rightarrow> (string \<Rightarrow> (int \<times> string \<times> int) option) \<Rightarrow> bootstrap_params \<Rightarrow> claim_state \<Rightarrow> bool \<Rightarrow> listed_instance
      \<Rightarrow> provider_instance job" where
  "serve_warm l J event_of b claimed direct i =
     jthen (if claimed \<noteq> ClaimInjected then inject_warm l J b (ii_Name i) else ok ()) (\<lambda>_.
     jthen (publishJobImageIdentity l J (ii_Name i) (bs_Flavor b)) (\<lambda>_.
     jthen (if direct then waitDirectJITAssignmentStarted l J event_of (bs_Flavor b) else ok ()) (\<lambda>_.
     jthen (waitInstanceHasIP l J (ii_Name i)) (\<lambda>ret.
     ask J (\<lambda>an w. (projectGARMInstanceIdentity l (pv_store (an_env an)) i ret (ww_file (jw_warm w)), w))))))"

definition activateWarmInstance ::
    "incus_provider \<Rightarrow> (nat \<Rightarrow> job_answers) \<Rightarrow> (string \<Rightarrow> (int \<times> string \<times> int) option) \<Rightarrow> bootstrap_params \<Rightarrow> warm_claim_result \<Rightarrow> bool \<Rightarrow> provider_instance job" where
  "activateWarmInstance l J event_of b claim direct =
     ask J (\<lambda>an.
       if bp_CACertBundle b \<noteq> [] \<and> \<not> ja_pem_ok an then fail (JobBadRequest ''CA bundle'')
       else (case an_instance an of
               Inl e \<Rightarrow> fail (JobWarm (WarmApi (wrap_error ''fetching claimed warm instance'' e)))
             | Inr u \<Rightarrow> jthen (bind_warm l an b u) (\<lambda>_. serve_warm l J event_of b (wr_State claim) direct (iu_instance u))))"

section \<open>Creating the worker of a job\<close>

text \<open>A change of state: the instance must be this controller's, and one that is started must keep the security contract.\<close>

definition setState :: "incus_provider \<Rightarrow> (nat \<Rightarrow> job_answers) \<Rightarrow> bool \<Rightarrow> string \<Rightarrow> unit job" where
  "setState l J start name =
     ask J (\<lambda>an.
       jthen (result (lift_job (getManagedInstance (l_admission l) (call_of an) name))) (\<lambda>u.
       case (if start then validateManagedSecurity l (iu_instance u) else None) of
         Some e \<Rightarrow> fail e
       | None \<Rightarrow> (case ja_state an of Some e \<Rightarrow> fail (JobWarm (WarmApi e)) | None \<Rightarrow> ok ())))"

text \<open>The instance is already there: it is validated, reconciled, started if it has stopped, and its delivery completed.\<close>

definition adopt_existing ::
    "incus_provider \<Rightarrow> (nat \<Rightarrow> job_answers) \<Rightarrow> (string \<Rightarrow> (int \<times> string \<times> int) option) \<Rightarrow> bootstrap_params \<Rightarrow> bool \<Rightarrow> instance_full \<Rightarrow> provider_instance job" where
  "adopt_existing l J event_of b direct u =
     (case validateExistingInstance l u b of
        Some e \<Rightarrow> fail e
      | None \<Rightarrow>
          jthen (ask J (\<lambda>an. on_journal (nddev_Reconcile (l_admission l) (an_env an)))) (\<lambda>_.
          jthen (if iu_Status u = Some ''Stopped'' then setState l J True (bs_Name b) else ok ()) (\<lambda>_.
          if direct then adoptColdDirectJIT l J event_of b
          else jthen (coldCacheDeliveryPresent l J (bs_Name b) b) (\<lambda>present.
               jthen (if present then ok () else injectColdCacheAssignment l J (bs_Name b) b) (\<lambda>_.
               jthen (publishJobImageIdentity l J (bs_Name b) (bs_Flavor b)) (\<lambda>_. waitInstanceHasIP l J (bs_Name b)))))))"

text \<open>Admission with its second round after a preemption.\<close>

definition admit_job :: "incus_provider \<Rightarrow> (nat \<Rightarrow> job_answers) \<Rightarrow> bootstrap_params \<Rightarrow> admission_result job" where
  "admit_job l J b = ask J (\<lambda>an. on_journal (nddev_Admit (l_admission l) (an_env an) (bootstrap.truncate b)))"

definition confirm_admission :: "incus_provider \<Rightarrow> (nat \<Rightarrow> job_answers) \<Rightarrow> bootstrap_params \<Rightarrow> unit job" where
  "confirm_admission l J b =
     jthen (admit_job l J b) (\<lambda>first.
       if \<not> Admitted (ar_Decision first) \<and> ar_PreemptedWarmWorkers first = [] then fail (JobRefused (Reason (ar_Decision first)))
       else jthen (deletePreemptedWarmWorkers l J (ar_PreemptedWarmWorkers first)) (\<lambda>_.
         if ar_PreemptedWarmWorkers first = [] then ok ()
         else jthen (admit_job l J b) (\<lambda>confirmed.
           if \<not> Admitted (ar_Decision confirmed) \<or> ar_PreemptedWarmWorkers confirmed \<noteq> []
           then give_back_job l J (bs_Name b) (Reason (ar_Decision confirmed))
           else ok ())))"

text \<open>A failed hand-over deletes the instance again.\<close>

definition or_delete :: "incus_provider \<Rightarrow> (nat \<Rightarrow> job_answers) \<Rightarrow> string \<Rightarrow> 'a job \<Rightarrow> 'a job" where
  "or_delete l J name body w =
     (case body w of
        (Inr v, w') \<Rightarrow> (Inr v, w')
      | (Inl e, w') \<Rightarrow> (Inl (JobCleanup e), snd (delete_job l J name w')))"

definition create_cold ::
    "incus_provider \<Rightarrow> (nat \<Rightarrow> job_answers) \<Rightarrow> (string \<Rightarrow> (int \<times> string \<times> int) option) \<Rightarrow> bootstrap_params \<Rightarrow> bool \<Rightarrow> provider_instance job" where
  "create_cold l J event_of b direct =
     jthen (ask J (\<lambda>an. result (getCreateInstanceArgs l (call_of an) (ja_tool an) (ja_cloud an) b))) (\<lambda>args.
     jthen (confirm_admission l J b) (\<lambda>_.
     jthen (launchColdInstance l J b) (\<lambda>_.
     if direct then or_delete l J (bs_Name b) (startColdDirectJIT l J event_of b)
     else jthen (or_delete l J (bs_Name b) (injectColdCacheAssignment l J (bs_Name b) b)) (\<lambda>_.
          jthen (mark_created l J (bs_Name b)) (\<lambda>_.
          jthen (publishJobImageIdentity l J (bs_Name b) (bs_Flavor b)) (\<lambda>_. waitInstanceHasIP l J (bs_Name b)))))))"

text \<open>The decoders of third parties that a create uses: the JSON of a JIT configuration and of a phase event, and the wrapper of GARM.\<close>

record decoders =
  de_files :: "nat list \<Rightarrow> string gomap option"
  de_wrapper :: "string \<Rightarrow> string \<Rightarrow> string"
  de_event :: "string \<Rightarrow> (int \<times> string \<times> int) option"

definition request_specs :: "incus_provider \<Rightarrow> decoders \<Rightarrow> bootstrap_params \<Rightarrow> job_error + extra_specs" where
  "request_specs l D b =
     (case validateBootstrapParams l b of
        Some e \<Rightarrow> Inl e
      | None \<Rightarrow>
          or_return (found (JobBadRequest ''extra specs'') (parseExtraSpecsFromBootstrapParams b)) (\<lambda>specs.
            if validateNDDevExtraSpecs (de_files D) (de_wrapper D) b specs then Inr specs else Inl (JobBadRequest ''extra specs'')))"

definition CreateInstance :: "incus_provider \<Rightarrow> (nat \<Rightarrow> job_answers) \<Rightarrow> decoders \<Rightarrow> bootstrap_params \<Rightarrow> provider_instance job" where
  "CreateInstance l J D requested =
     jthen (narrowBootstrapRepository l J requested) (\<lambda>b.
     jthen (result (request_specs l D b)) (\<lambda>specs.
     (let direct = es_EncodedJITConfig specs \<noteq> []
      in ask J (\<lambda>an.
         case getManagedInstance (l_admission l) (call_of an) (bs_Name b) of
           Inr u \<Rightarrow> adopt_existing l J (de_event D) b direct u
         | Inl e \<Rightarrow>
             if \<not> is_not_found e then fail (JobWarm e)
             else jthen (ask J (\<lambda>an. on_journal (nddev_ClaimWarm (l_admission l) (an_env an) (bootstrap.truncate b)))) (\<lambda>claim.
               if wr_Found claim then activateWarmInstance l J (de_event D) b claim direct
               else create_cold l J (de_event D) b direct)))))"

section \<open>What the steps of a create keep\<close>

text \<open>The contract of a step, for a preorder on worlds: whatever a step answers, the world it leaves is above the one it found.\<close>

definition advances :: "(job_world \<Rightarrow> job_world \<Rightarrow> bool) \<Rightarrow> 'a job \<Rightarrow> bool" where
  "advances R m \<longleftrightarrow> (\<forall>w r w'. m w = (r, w') \<longrightarrow> R w w')"

lemma advancesD: "advances R m \<Longrightarrow> m w = (r, w') \<Longrightarrow> R w w'"
  by (simp add: advances_def)

lemma jthen_cases:
  assumes "jthen m k w = (r, w')"
  obtains (failed) e where "m w = (Inl e, w')" "r = Inl e" | (passed) v u where "m w = (Inr v, u)" "k v u = (r, w')"
  using assms by (auto simp: jthen_def split: prod.splits sum.splits)

text \<open>The preorders of interest do not look at the number of calls, the journal, the claims or the bindings, and let files be pushed to
  the allowed instances.\<close>

locale create_order =
  fixes R :: "job_world \<Rightarrow> job_world \<Rightarrow> bool" and allowed :: "string set"
  assumes refl: "R w w"
    and trans: "R u v \<Longrightarrow> R v w \<Longrightarrow> R u w"
    and calls: "ww_launches ww = ww_launches (jw_warm w) \<Longrightarrow> R w (w\<lparr>jw_warm := ww\<rparr>)"
    and claims: "R w (w\<lparr>jw_claims := f\<rparr>)"
    and binds: "R w (w\<lparr>jw_binds := bound\<rparr>)"
    and pushes: "inst \<in> allowed \<Longrightarrow> R w (w\<lparr>jw_pushes := jw_pushes w @ [(inst, path)]\<rparr>)"
begin

lemma ok_advances: "advances R (ok v)" and fail_advances: "advances R (fail e)" and result_advances: "advances R (result r)"
  by (simp_all add: advances_def ok_def fail_def result_def refl)

lemma jthen_advances:
  assumes "advances R m" "\<And>v. advances R (k v)"
  shows "advances R (jthen m k)"
  unfolding advances_def
proof (intro allI impI)
  fix w r w'
  assume "jthen m k w = (r, w')"
  then show "R w w'"
  proof (cases rule: jthen_cases)
    case (failed e)
    then show ?thesis using assms(1) advancesD by blast
  next
    case (passed v u)
    then show ?thesis using advancesD [OF assms(1)] advancesD [OF assms(2)] trans by metis
  qed
qed

lemma ask_advances:
  assumes "\<And>an. advances R (f an)"
  shows "advances R (ask J f)"
  unfolding advances_def
proof (intro allI impI)
  fix w r w'
  assume a: "ask J f w = (r, w')"
  have "R w (w\<lparr>jw_warm := next_call (jw_warm w)\<rparr>)" by (rule calls) (simp add: next_call_def)
  moreover have "R (w\<lparr>jw_warm := next_call (jw_warm w)\<rparr>) w'" using a assms advancesD unfolding ask_def by blast
  ultimately show "R w w'" by (rule trans)
qed

lemma on_journal_advances: "advances R (on_journal g)"
  by (auto simp: advances_def on_journal_def split: prod.splits intro: calls)

lemma on_claims_advances: "advances R (on_claims g)"
  by (auto simp: advances_def on_claims_def split: prod.splits intro: claims)

lemma delete_job_advances: "advances R (delete_job l J name)"
  by (auto simp: advances_def delete_job_def on_warm_def delete_in_def next_call_def split: prod.splits intro!: calls)

lemma release_job_advances: "advances R (release_job l J name)"
  by (auto simp: advances_def release_job_def on_warm_def release_in_def next_call_def split: prod.splits intro!: calls)

lemmas plain = ok_advances fail_advances result_advances on_journal_advances on_claims_advances delete_job_advances release_job_advances
lemmas composed = jthen_advances ask_advances

lemma inject_advances: "inst \<in> allowed \<Longrightarrow> advances R (injectAssignment J inst path)"
  unfolding injectAssignment_def by (rule ask_advances) (auto simp: advances_def intro: pushes)

lemma push_once_advances: "inst \<in> allowed \<Longrightarrow> advances R (push_once J inst path)"
  unfolding push_once_def by (rule ask_advances) (auto simp: advances_def intro: pushes)

lemma publish_advances: "inst \<in> allowed \<Longrightarrow> advances R (publishJobImageIdentity l J inst flavor)"
  unfolding publishJobImageIdentity_def by (auto intro!: jthen_advances plain inject_advances)

lemma wait_started_advances: "advances R (waitDirectJITAssignmentStarted l J event_of flavor)"
  unfolding waitDirectJITAssignmentStarted_def by (auto intro!: ask_advances plain split: option.splits)

lemma wait_address_advances: "advances R (waitInstanceHasIP l J name)"
  unfolding waitInstanceHasIP_def by (rule ask_advances) (simp add: advances_def refl)

lemma with_claim_advances:
  assumes "advances R body"
  shows "advances R (with_claim J inst added body)"
  unfolding advances_def
proof (intro allI impI)
  fix w r w'
  assume a: "with_claim J inst added body w = (r, w')"
  obtain s u where u: "body w = (s, u)" by fastforce
  have remove: "advances R (ask J (\<lambda>an. on_claims (cb_Remove (ja_store an) inst)))" by (intro ask_advances plain)
  obtain x v where v: "ask J (\<lambda>an. on_claims (cb_Remove (ja_store an) inst)) u = (x, v)" by fastforce
  have "w' = u \<or> w' = v" using a u v by (auto simp: with_claim_def split: sum.splits if_splits)
  then show "R w w'" using advancesD [OF assms u] advancesD [OF remove v] trans by blast
qed

lemma or_delete_advances:
  assumes "advances R body"
  shows "advances R (or_delete l J name body)"
  unfolding advances_def
proof (intro allI impI)
  fix w r w'
  assume a: "or_delete l J name body w = (r, w')"
  obtain s u where u: "body w = (s, u)" by fastforce
  obtain x v where v: "delete_job l J name u = (x, v)" by fastforce
  have "w' = u \<or> w' = v" using a u v by (auto simp: or_delete_def split: sum.splits)
  then show "R w w'" using advancesD [OF assms u] advancesD [OF delete_job_advances v] trans by blast
qed

lemma render_advances: "advances R (renderCacheClaim l J inst b)"
  unfolding renderCacheClaim_def by (auto intro!: composed plain split: option.splits)

lemma inject_cold_advances: "inst \<in> allowed \<Longrightarrow> advances R (injectColdCacheAssignment l J inst b)"
  unfolding injectColdCacheAssignment_def
  by (auto intro!: jthen_advances render_advances plain with_claim_advances inject_advances push_once_advances)

lemma present_advances: "advances R (coldCacheDeliveryPresent l J inst b)"
proof -
  have "advances R (\<lambda>w. (h w, w))" for h :: "job_world \<Rightarrow> job_error + bool" by (simp add: advances_def refl)
  then show ?thesis unfolding coldCacheDeliveryPresent_def by (auto intro!: composed plain split: option.splits)
qed

lemma mark_advances: "advances R (mark_created l J name)" "advances R (mark_injected l J job inst)"
  unfolding mark_created_def mark_injected_def by (auto intro!: composed plain)

lemma start_cold_advances: "bs_Name b \<in> allowed \<Longrightarrow> advances R (startColdDirectJIT l J event_of b)"
  unfolding startColdDirectJIT_def
  by (intro jthen_advances wait_address_advances render_advances with_claim_advances inject_advances publish_advances mark_advances wait_started_advances plain)

lemma adopt_cold_advances: "bs_Name b \<in> allowed \<Longrightarrow> advances R (adoptColdDirectJIT l J event_of b)"
  unfolding adoptColdDirectJIT_def
  by (auto intro!: composed publish_advances wait_address_advances start_cold_advances plain split: sum.splits)

lemma bind_warm_advances: "advances R (bind_warm l an b u)"
  by (auto simp: advances_def bind_warm_def Let_def refl intro: binds split: if_splits option.splits sum.splits)

lemma inject_warm_advances: "inst \<in> allowed \<Longrightarrow> advances R (inject_warm l J b inst)"
  unfolding inject_warm_def by (auto intro!: jthen_advances render_advances with_claim_advances push_once_advances mark_advances)

lemma serve_warm_advances: "ii_Name i \<in> allowed \<Longrightarrow> advances R (serve_warm l J event_of b claimed direct i)"
proof -
  assume "ii_Name i \<in> allowed"
  moreover have "advances R (\<lambda>w. (h w, w))" for h :: "job_world \<Rightarrow> job_error + provider_instance" by (simp add: advances_def refl)
  ultimately show ?thesis unfolding serve_warm_def
    by (auto intro!: composed plain inject_warm_advances publish_advances wait_started_advances wait_address_advances)
qed

lemma set_state_advances: "advances R (setState l J start name)"
  unfolding setState_def by (auto intro!: composed plain split: option.splits)

lemma adopt_existing_advances: "bs_Name b \<in> allowed \<Longrightarrow> advances R (adopt_existing l J event_of b direct u)"
  unfolding adopt_existing_def
  by (auto intro!: composed plain set_state_advances adopt_cold_advances present_advances inject_cold_advances publish_advances wait_address_advances
      split: option.splits)

lemma delete_preempted_advances: "advances R (deletePreemptedWarmWorkers l J names)"
  by (induction names) (auto intro!: jthen_advances plain)

lemma give_back_advances: "advances R (give_back_job l J name why)"
  unfolding give_back_job_def by (intro jthen_advances plain)

lemma admit_job_advances: "advances R (admit_job l J b)"
  unfolding admit_job_def by (intro composed plain)

lemma confirm_advances: "advances R (confirm_admission l J b)"
  unfolding confirm_admission_def
  by (auto intro!: jthen_advances admit_job_advances delete_preempted_advances give_back_advances plain)

lemma narrow_advances: "advances R (narrowBootstrapRepository l J b)"
  unfolding narrowBootstrapRepository_def within_boundary_def by (auto intro!: composed plain split: sum.splits)

end

text \<open>A preorder that lets launches happen, too.\<close>

locale launch_order = create_order +
  assumes any_calls: "R w (w\<lparr>jw_warm := ww\<rparr>)"
begin

lemma launch_advances: "launchInstance J name w = (e, w') \<Longrightarrow> R w w'"
  using any_calls by (auto simp: launchInstance_def)

lemma launch_again_advances: "advances R (launch_again l J name)"
  unfolding advances_def launch_again_def
  using launch_advances advancesD [OF give_back_advances] trans by (fastforce split: prod.splits option.splits if_splits)

lemma make_room_advances: "advances R (make_room l J b)"
  unfolding make_room_def by (auto intro!: composed plain give_back_advances delete_preempted_advances launch_again_advances)

lemma launch_cold_advances: "advances R (launchColdInstance l J b)"
  unfolding advances_def launchColdInstance_def
  using launch_advances advancesD [OF make_room_advances] trans by (fastforce split: prod.splits option.splits if_splits)

end

section \<open>Launches and pushes\<close>

definition same_launches :: "job_world \<Rightarrow> job_world \<Rightarrow> bool" where
  "same_launches w w' \<longleftrightarrow> ww_launches (jw_warm w') = ww_launches (jw_warm w)"

interpretation la: create_order same_launches UNIV
  by unfold_locales (simp_all add: same_launches_def)

definition pushed_within :: "string set \<Rightarrow> job_world \<Rightarrow> job_world \<Rightarrow> bool" where
  "pushed_within S w w' \<longleftrightarrow> (\<exists>ps. jw_pushes w' = jw_pushes w @ ps \<and> fst ` set ps \<subseteq> S)"

lemma pushed_within_mono: "pushed_within S w w' \<Longrightarrow> S \<subseteq> T \<Longrightarrow> pushed_within T w w'"
  unfolding pushed_within_def by blast

interpretation pu: launch_order "pushed_within S" S for S
proof unfold_locales
  show "pushed_within S u v \<Longrightarrow> pushed_within S v w \<Longrightarrow> pushed_within S u w" for u v w
    unfolding pushed_within_def by (metis append_assoc image_Un le_sup_iff set_append)
qed (auto simp: pushed_within_def)

lemma narrow_name:
  assumes "narrowBootstrapRepository l J b w = (Inr b', w')"
  shows "bs_Name b' = bs_Name b \<and> bs_Flavor b' = bs_Flavor b"
  using assms
  by (auto simp: narrowBootstrapRepository_def within_boundary_def ask_def ok_def fail_def split: if_splits sum.splits)

lemma request_specs_valid: "request_specs l D b = Inr specs \<Longrightarrow> validateBootstrapParams l b = None"
  by (auto simp: request_specs_def split: option.splits)

text \<open>A create passes through the boundary, then takes one of three ways.\<close>

lemma CreateInstance_ways:
  assumes "CreateInstance l J D b w = (r, w')"
  obtains (refused) e where "r = Inl e" "same_launches w w'" "jw_pushes w' = jw_pushes w"
  | (adopted) b' direct u v where "bs_Name b' = bs_Name b" "adopt_existing l J (de_event D) b' direct u v = (r, w')" "same_launches w v" "jw_pushes v = jw_pushes w"
  | (warm) b' direct claim v where "bs_Name b' = bs_Name b" "bs_Flavor b' = bs_Flavor b" "activateWarmInstance l J (de_event D) b' claim direct v = (r, w')" "same_launches w v" "jw_pushes v = jw_pushes w"
  | (cold) b' direct v where "bs_Name b' = bs_Name b" "bs_Flavor b' = bs_Flavor b" "validateBootstrapParams l b' = None" "create_cold l J (de_event D) b' direct v = (r, w')"
      "same_launches w v" "jw_pushes v = jw_pushes w"
proof -
  have quiet: "same_launches x y \<and> jw_pushes y = jw_pushes x" if "advances same_launches m" "advances (pushed_within {}) m" "m x = (s, y)" for m :: "'x job" and x s y
    using advancesD [OF that(1,3)] advancesD [OF that(2,3)] by (auto simp: pushed_within_def)
  note q = quiet [OF la.narrow_advances pu.narrow_advances]
  show thesis
    using assms unfolding CreateInstance_def
  proof (cases rule: jthen_cases)
    case (failed e)
    then show thesis using refused q by blast
  next
    case (passed b' v1)
    note n = passed(1)
    from passed(2) show thesis
    proof (cases rule: jthen_cases)
      case (failed e)
      then show thesis using refused q [OF n] by (simp add: result_def)
    next
      case (passed specs v2)
      then have v2: "v2 = v1" "validateBootstrapParams l b' = None" by (auto simp: result_def dest: request_specs_valid)
      define an where "an = J (ww_call (jw_warm v1))"
      define v where "v = v1\<lparr>jw_warm := next_call (jw_warm v1)\<rparr>"
      have v: "same_launches w v" "jw_pushes v = jw_pushes w" using q [OF n] by (simp_all add: v_def same_launches_def next_call_def)
      note rest = passed(2) [unfolded v2(1) Let_def ask_def [of J _ v1], folded an_def v_def]
      show thesis
      proof (cases "getManagedInstance (l_admission l) (call_of an) (bs_Name b')")
        case (Inr u)
        then show thesis using rest adopted narrow_name [OF n] v by auto
      next
        case (Inl e)
        show thesis
        proof (cases "is_not_found e")
          case False
          then show thesis using rest Inl refused v by (auto simp: fail_def)
        next
          case True
          let ?claim = "ask J (\<lambda>an. on_journal (nddev_ClaimWarm (l_admission l) (an_env an) (bootstrap.truncate b')))"
          have c: "advances same_launches ?claim" "advances (pushed_within {}) ?claim" by (intro la.composed la.plain pu.composed pu.plain)+
          have "jthen ?claim (\<lambda>claim. if wr_Found claim then activateWarmInstance l J (de_event D) b' claim (es_EncodedJITConfig specs \<noteq> [])
                 else create_cold l J (de_event D) b' (es_EncodedJITConfig specs \<noteq> [])) v = (r, w')" using rest Inl True by simp
          then show thesis
          proof (cases rule: jthen_cases)
            case (failed e')
            then show thesis using refused quiet [OF c failed(1)] v by (simp add: same_launches_def)
          next
            case (passed claim y)
            then show thesis using warm cold quiet [OF c passed(1)] v narrow_name [OF n] v2(2) by (simp add: same_launches_def split: if_splits)
          qed
        qed
      qed
    qed
  qed
qed

lemma confirm_admitted:
  assumes "confirm_admission l J b w = (Inr v, w')"
  shows "\<exists>k f res f'. nddev_Admit (l_admission l) (an_env (J k)) (bootstrap.truncate b) f = (Inr res, f') \<and> Admitted (ar_Decision res)
    \<and> ar_PreemptedWarmWorkers res = []"
proof -
  have admit: "\<exists>k f f'. nddev_Admit (l_admission l) (an_env (J k)) (bootstrap.truncate b) f = (Inr res, f')"
    if "admit_job l J b x = (Inr res, y)" for x res y
    using that by (auto simp: admit_job_def ask_def on_journal_def split: prod.splits sum.splits)
  from assms show ?thesis unfolding confirm_admission_def
  proof (cases rule: jthen_cases)
    case (passed first x)
    show ?thesis
    proof (cases "ar_PreemptedWarmWorkers first = []")
      case True
      then have "Admitted (ar_Decision first)" using passed(2) by (simp add: fail_def split: if_splits)
      then show ?thesis using admit [OF passed(1)] True by blast
    next
      case False
      then have "jthen (deletePreemptedWarmWorkers l J (ar_PreemptedWarmWorkers first)) (\<lambda>_. jthen (admit_job l J b) (\<lambda>confirmed.
           if \<not> Admitted (ar_Decision confirmed) \<or> ar_PreemptedWarmWorkers confirmed \<noteq> []
           then give_back_job l J (bs_Name b) (Reason (ar_Decision confirmed)) else ok ())) x = (Inr v, w')" using passed(2) by simp
      then obtain y where y: "jthen (admit_job l J b) (\<lambda>confirmed.
           if \<not> Admitted (ar_Decision confirmed) \<or> ar_PreemptedWarmWorkers confirmed \<noteq> []
           then give_back_job l J (bs_Name b) (Reason (ar_Decision confirmed)) else ok ()) y = (Inr v, w')" by (cases rule: jthen_cases) auto
      from y show ?thesis
      proof (cases rule: jthen_cases)
        case (passed res z)
        then have "Admitted (ar_Decision res) \<and> ar_PreemptedWarmWorkers res = []"
          by (auto simp: give_back_job_def jthen_def fail_def split: if_splits prod.splits sum.splits)
        then show ?thesis using admit [OF passed(1)] by blast
      qed simp
    qed
  qed simp
qed

text \<open>How often a step asks Incus to launch an instance.\<close>

definition more_launches :: "string \<Rightarrow> nat set \<Rightarrow> job_world \<Rightarrow> job_world \<Rightarrow> bool" where
  "more_launches name M w w' \<longleftrightarrow> (\<exists>m \<in> M. ww_launches (jw_warm w') = ww_launches (jw_warm w) @ replicate m name)"

lemma launch_one: "launchInstance J name w = (e, w') \<Longrightarrow> ww_launches (jw_warm w') = ww_launches (jw_warm w) @ [name]"
  by (auto simp: launchInstance_def next_call_def)

lemma launch_again_names:
  assumes "launch_again l J name w = (r, w')"
  shows "ww_launches (jw_warm w') = ww_launches (jw_warm w) @ [name]"
proof -
  obtain e u where u: "launchInstance J name w = (e, u)" by fastforce
  have "w' = u \<or> (\<exists>s. give_back_job l J name ReasonInsufficientMemory u = (s, w'))"
    using assms u by (auto simp: launch_again_def split: option.splits if_splits)
  then have "same_launches u w'" using advancesD [OF la.give_back_advances] la.refl by blast
  then show ?thesis using launch_one [OF u] by (simp add: same_launches_def)
qed

lemma make_room_names:
  assumes "make_room l J b w = (r, w')"
  shows "more_launches (bs_Name b) {0, 1} w w'"
proof -
  let ?ask = "ask J (\<lambda>an. on_journal (nddev_PreemptForPlacement (l_admission l) (an_env an) (bootstrap.truncate b)))"
  have a: "advances same_launches ?ask" by (intro la.composed la.plain)
  from assms show ?thesis unfolding make_room_def
  proof (cases rule: jthen_cases)
    case (failed e)
    then show ?thesis using advancesD [OF a] by (simp add: same_launches_def more_launches_def)
  next
    case (passed preemption x)
    note x = advancesD [OF a passed(1)]
    show ?thesis
    proof (cases "ar_PreemptedWarmWorkers preemption = []")
      case True
      then have "give_back_job l J (bs_Name b) ReasonInsufficientMemory x = (r, w')" using passed(2) by simp
      from advancesD [OF la.give_back_advances this] show ?thesis using x by (simp add: same_launches_def more_launches_def)
    next
      case False
      then have "jthen (deletePreemptedWarmWorkers l J (ar_PreemptedWarmWorkers preemption)) (\<lambda>_. launch_again l J (bs_Name b)) x = (r, w')"
        using passed(2) by simp
      then show ?thesis
      proof (cases rule: jthen_cases)
        case (failed e)
        then show ?thesis using x advancesD [OF la.delete_preempted_advances failed(1)] by (simp add: same_launches_def more_launches_def)
      next
        case (passed d y)
        then show ?thesis
          using x advancesD [OF la.delete_preempted_advances passed(1)] launch_again_names [OF passed(2)] by (simp add: same_launches_def more_launches_def)
      qed
    qed
  qed
qed

lemma launch_cold_names:
  assumes "launchColdInstance l J b w = (r, w')"
  shows "more_launches (bs_Name b) {1, 2} w w'"
proof -
  obtain e u where u: "launchInstance J (bs_Name b) w = (e, u)" by fastforce
  consider "w' = u" | "make_room l J b u = (r, w')" using assms u by (auto simp: launchColdInstance_def split: option.splits if_splits)
  then show ?thesis
  proof cases
    case 1
    then show ?thesis using launch_one [OF u] by (simp add: more_launches_def)
  next
    case 2
    then show ?thesis using launch_one [OF u] make_room_names [OF 2] by (auto simp: more_launches_def numeral_2_eq_2)
  qed
qed

section \<open>A launch follows an admission\<close>

lemma activate_launches: "advances same_launches (activateWarmInstance l J event_of b claim direct)"
  unfolding activateWarmInstance_def
  by (auto intro!: la.composed la.plain la.bind_warm_advances la.serve_warm_advances split: sum.splits)

text \<open>A cold create that launches has confirmed its admission before, and launches nothing after.\<close>

lemma cold_launch:
  assumes "create_cold l J event_of b direct v = (r, w')" "\<not> same_launches v w'"
  obtains x y z where "confirm_admission l J b x = (Inr (), y)"
    "launchColdInstance l J b y = (z, w') \<or> (\<exists>z'. launchColdInstance l J b y = (Inr (), z') \<and> same_launches z' w')" "same_launches v x"
proof -
  have a: "advances same_launches (ask J (\<lambda>an. result (getCreateInstanceArgs l (call_of an) (ja_tool an) (ja_cloud an) b)))"
    by (intro la.composed la.plain)
  have after: "advances same_launches (if direct then or_delete l J (bs_Name b) (startColdDirectJIT l J event_of b)
     else jthen (or_delete l J (bs_Name b) (injectColdCacheAssignment l J (bs_Name b) b)) (\<lambda>_.
          jthen (mark_created l J (bs_Name b)) (\<lambda>_.
          jthen (publishJobImageIdentity l J (bs_Name b) (bs_Flavor b)) (\<lambda>_. waitInstanceHasIP l J (bs_Name b)))))"
    by (auto intro!: la.jthen_advances la.or_delete_advances la.start_cold_advances la.inject_cold_advances la.mark_advances la.publish_advances
        la.wait_address_advances)
  show thesis using assms(1) unfolding create_cold_def
  proof (cases rule: jthen_cases)
    case (failed e)
    then show thesis using advancesD [OF a] assms(2) by blast
  next
    case (passed args x)
    note x = advancesD [OF a passed(1)]
    from passed(2) show thesis
    proof (cases rule: jthen_cases)
      case (failed e)
      then show thesis using advancesD [OF la.confirm_advances] assms(2) x la.trans by blast
    next
      case (passed c y)
      note y = passed(1)
      from passed(2) show thesis
      proof (cases rule: jthen_cases)
        case (failed e)
        then show thesis using that x y by (cases c) blast
      next
        case (passed d z)
        then show thesis using that x y advancesD [OF after passed(2)] by (cases c; cases d) blast
      qed
    qed
  qed
qed


section \<open>Where the secrets of a job go\<close>

text \<open>An instance that may take this job: this controller's, of the requested pool, and either no job's or already this job's.\<close>

definition free_for :: "incus_provider \<Rightarrow> bootstrap_params \<Rightarrow> listed_instance \<Rightarrow> bool" where
  "free_for l b i \<longleftrightarrow> meta i controllerIDKeyName = nd_controllerID (l_admission l) \<and> meta i flavorKey = bs_Flavor b
     \<and> (meta i garmJobNameKey = [] \<or> meta i garmJobNameKey = bs_Name b)"

lemma bind_warm_free:
  assumes "bind_warm l an b u w = (Inr v, w')"
  shows "free_for l b (iu_instance u)"
proof (cases "meta (iu_instance u) lifecycleKey = lifecycleWarmUnregistered")
  case True
  then have "validateWarmReadyMetadata (l_admission l) (l_current l) u (bs_Flavor b) = None"
    using assms by (simp add: bind_warm_def split: option.splits)
  then obtain pool img where "first_error (warm_key_error WarmWrong (iu_instance u)) (warm_contract (l_admission l) pool img (bs_Flavor b)) = None"
    by (auto simp: validateWarmReadyMetadata_def Let_def split: option.splits sum.splits)
  then show ?thesis by (auto simp: free_for_def warm_contract_def first_error_None_iff warm_key_error_def split: if_splits)
next
  case False
  then have "validateExistingInstance l u b = None" using assms by (simp add: bind_warm_def split: option.splits if_splits)
  then obtain pool img repository where "first_error (job_key_error (iu_instance u)) (existing_contract l b pool img repository) = None"
    by (auto simp: validateExistingInstance_def Let_def split: option.splits sum.splits if_splits)
  then show ?thesis by (auto simp: free_for_def existing_contract_def first_error_None_iff job_key_error_def split: if_splits)
qed

lemma activate_pushes:
  assumes "activateWarmInstance l J event_of b claim direct w = (r, w')"
  shows "\<exists>S. pushed_within S w w' \<and> (\<forall>inst \<in> S. \<exists>i. ii_Name i = inst \<and> free_for l b i)"
proof -
  define an where "an = J (ww_call (jw_warm w))"
  define v where "v = w\<lparr>jw_warm := next_call (jw_warm w)\<rparr>"
  have v: "jw_pushes v = jw_pushes w" by (simp add: v_def)
  note a = assms [unfolded activateWarmInstance_def ask_def [of J _ w], folded an_def v_def]
  have none: ?thesis if "jw_pushes w' = jw_pushes w" using that by (intro exI [of _ "{}"]) (simp add: pushed_within_def)
  show ?thesis
  proof (cases "(bp_CACertBundle b \<noteq> [] \<and> \<not> ja_pem_ok an) \<or> isl (an_instance an)")
    case True
    then show ?thesis using a v none by (auto simp: fail_def isl_def split: if_splits)
  next
    case False
    then obtain u where u: "an_instance an = Inr u" by (cases "an_instance an") auto
    have "jthen (bind_warm l an b u) (\<lambda>_. serve_warm l J event_of b (wr_State claim) direct (iu_instance u)) v = (r, w')"
      using a False u by (simp split: if_splits)
    then show ?thesis
    proof (cases rule: jthen_cases)
      case (failed e)
      then show ?thesis using advancesD [OF pu.bind_warm_advances [where S = "{}"] failed(1)] v none by (simp add: pushed_within_def)
    next
      case (passed x y)
      let ?S = "{ii_Name (iu_instance u)}"
      have "jw_pushes y = jw_pushes w" using advancesD [OF pu.bind_warm_advances [where S = "{}"] passed(1)] v by (simp add: pushed_within_def)
      moreover have "pushed_within ?S y w'" by (rule advancesD [OF pu.serve_warm_advances passed(2)]) simp
      ultimately show ?thesis using bind_warm_free [OF passed(1)] by (intro exI [of _ ?S]) (auto simp: pushed_within_def)
    qed
  qed
qed

lemma create_cold_pushes: "advances (pushed_within {bs_Name b}) (create_cold l J event_of b direct)"
  unfolding create_cold_def
  by (auto intro!: pu.composed pu.plain pu.confirm_advances pu.launch_cold_advances pu.or_delete_advances pu.start_cold_advances pu.inject_cold_advances
      pu.mark_advances pu.publish_advances pu.wait_address_advances)


section \<open>Base 64 gives back what it was given\<close>

lemma index_of_alphabet: "n < 64 \<Longrightarrow> index_of (url_alphabet ! n) url_alphabet = Some n"
  and alphabet_no_breaks: "n < 64 \<Longrightarrow> url_alphabet ! n \<noteq> CHR 0x0D \<and> url_alphabet ! n \<noteq> CHR 0x0A"
proof -
  have "list_all (\<lambda>n. index_of (url_alphabet ! n) url_alphabet = Some n \<and> url_alphabet ! n \<noteq> CHR 0x0D \<and> url_alphabet ! n \<noteq> CHR 0x0A) [0..<64]" by code_simp
  then show "n < 64 \<Longrightarrow> index_of (url_alphabet ! n) url_alphabet = Some n" "n < 64 \<Longrightarrow> url_alphabet ! n \<noteq> CHR 0x0D \<and> url_alphabet ! n \<noteq> CHR 0x0A"
    by (simp_all add: list_all_iff)
qed

text \<open>The sextets of an encoding.\<close>

fun sextets :: "nat list \<Rightarrow> nat list" where
  "sextets [] = []"
| "sextets [a] = [a div 4, (a mod 4) * 16]"
| "sextets [a, b] = [a div 4, (a mod 4) * 16 + b div 16, (b mod 16) * 4]"
| "sextets (a # b # c # rest) = [a div 4, (a mod 4) * 16 + b div 16, (b mod 16) * 4 + c div 64, c mod 64] @ sextets rest"

lemma raw_url_encode_sextets: "raw_url_encode bytes = map ((!) url_alphabet) (sextets bytes)"
  by (induction bytes rule: sextets.induct) simp_all

lemma sextet_bounds: "(a::nat) < 256 \<Longrightarrow> a div 4 < 64" "((a::nat) mod 4) * 16 < 64" "(b::nat) < 256 \<Longrightarrow> (a mod 4) * 16 + b div 16 < 64"
    "((b::nat) mod 16) * 4 < 64" "(c::nat) < 256 \<Longrightarrow> (b mod 16) * 4 + c div 64 < 64" "(c::nat) mod 64 < 64"
proof -
  show "(b::nat) < 256 \<Longrightarrow> (a mod 4) * 16 + b div 16 < 64" using mod_less_divisor [of 4 a] by linarith
  show "(c::nat) < 256 \<Longrightarrow> (b mod 16) * 4 + c div 64 < 64" using mod_less_divisor [of 16 b] by linarith
qed simp_all

lemma sextets_small: "\<forall>b \<in> set bytes. b < 256 \<Longrightarrow> \<forall>s \<in> set (sextets bytes). s < 64"
  by (induction bytes rule: sextets.induct) (simp_all add: sextet_bounds)

lemma first_byte: "(b::nat) < 256 \<Longrightarrow> 4 * (a div 4) + ((a mod 4) * 16 + b div 16) div 16 = a"
  by (simp add: div_mult_self3 flip: div_mult2_eq)

lemma second_byte: "(c::nat) < 256 \<Longrightarrow> b < 256 \<Longrightarrow> ((a mod 4) * 16 + b div 16) mod 16 * 16 + ((b mod 16) * 4 + c div 64) div 4 = b"
proof -
  assume c: "c < 256" and b: "b < 256"
  have "((a mod 4) * 16 + b div 16) mod 16 = b div 16" using b by (simp add: mod_mult_self3 less_mult_imp_div_less)
  moreover have "((b mod 16) * 4 + c div 64) div 4 = b mod 16" using c by (simp add: div_mult_self3 flip: div_mult2_eq)
  ultimately show ?thesis by (simp add: div_mult_mod_eq)
qed

lemma third_byte: "(c::nat) < 256 \<Longrightarrow> ((b mod 16) * 4 + c div 64) mod 4 * 64 + c mod 64 = c"
proof -
  assume "c < 256"
  then have "((b mod 16) * 4 + c div 64) mod 4 = c div 64" by (simp add: mod_mult_self3 less_mult_imp_div_less)
  then show ?thesis by (simp add: div_mult_mod_eq)
qed

lemma sextets_back: "\<forall>b \<in> set bytes. b < 256 \<Longrightarrow> sextets_to_bytes (sextets bytes) = Some bytes"
proof (induction bytes rule: sextets.induct)
  case (2 a)
  then show ?case using first_byte [of 0 a] by simp
next
  case (3 a b)
  then show ?case using first_byte [of b a] second_byte [of 0 a b] by simp
next
  case (4 a b c rest)
  then show ?case using first_byte [of b a] second_byte [of c a b] third_byte [of c b] by simp
qed simp

lemma raw_url_roundtrip:
  assumes "\<forall>b \<in> set bytes. b < 256"
  shows "raw_url_decode (raw_url_encode bytes) = Some bytes"
proof -
  have s: "\<forall>s \<in> set (sextets bytes). s < 64" using sextets_small [OF assms] .
  have "filter (\<lambda>c. c \<noteq> CHR 0x0D \<and> c \<noteq> CHR 0x0A) (raw_url_encode bytes) = raw_url_encode bytes"
    unfolding raw_url_encode_sextets using s alphabet_no_breaks by (simp add: filter_id_conv)
  moreover have "map (\<lambda>c. index_of c url_alphabet) (raw_url_encode bytes) = map Some (sextets bytes)"
    unfolding raw_url_encode_sextets using s index_of_alphabet by simp
  ultimately show ?thesis using sextets_back [OF assms] by (simp add: raw_url_decode_def Let_def comp_def)
qed

lemma std_alphabet_inject: "m < 64 \<Longrightarrow> n < 64 \<Longrightarrow> std_alphabet ! m = std_alphabet ! n \<longleftrightarrow> m = n"
  by (rule nth_eq_iff_index_eq) (simp_all add: std_alphabet_def)

lemma std_alphabet_no_pad: "n < 64 \<Longrightarrow> std_alphabet ! n \<noteq> CHR ''=''"
proof -
  have "list_all (\<lambda>n. std_alphabet ! n \<noteq> CHR ''='') [0..<64]" by code_simp
  then show "n < 64 \<Longrightarrow> std_alphabet ! n \<noteq> CHR ''=''" by (simp add: list_all_iff)
qed

lemma std_encode_sextets:
  "\<forall>b \<in> set bytes. b < 256 \<Longrightarrow> filter (\<lambda>c. c \<noteq> CHR ''='') (std_encode bytes) = map ((!) std_alphabet) (sextets bytes)"
  by (induction bytes rule: sextets.induct) (simp_all add: std_alphabet_no_pad sextet_bounds)

lemma std_encode_inject:
  assumes "\<forall>b \<in> set x. b < 256" "\<forall>b \<in> set y. b < 256" "std_encode x = std_encode y"
  shows "x = y"
proof -
  have "map ((!) std_alphabet) (sextets x) = map ((!) std_alphabet) (sextets y)"
    unfolding std_encode_sextets [OF assms(1), symmetric] std_encode_sextets [OF assms(2), symmetric] assms(3) ..
  moreover have "inj_on ((!) std_alphabet) (set (sextets x) \<union> set (sextets y))"
  proof (rule inj_onI)
    fix m n
    assume m: "m \<in> set (sextets x) \<union> set (sextets y)" and n: "n \<in> set (sextets x) \<union> set (sextets y)" and e: "std_alphabet ! m = std_alphabet ! n"
    have "m < 64" "n < 64" using m n sextets_small [OF assms(1)] sextets_small [OF assms(2)] by blast+
    then show "m = n" using e std_alphabet_inject by blast
  qed
  ultimately have "sextets x = sextets y" by (rule map_inj_on)
  then have "Some x = Some y" unfolding sextets_back [OF assms(1), symmetric] sextets_back [OF assms(2), symmetric] by (rule arg_cong)
  then show ?thesis by (rule option.inject [THEN iffD1])
qed

section \<open>A claim that was delivered\<close>

text \<open>A claim that is added is in the store.\<close>

lemma put_new_length: "get m k = None \<Longrightarrow> length (put k v m) = Suc (length m)"
  by (induction m) auto

lemma added_claim_stored:
  assumes "cb_Add env inst pool role token f = (Inr (), f')" "wf_claim_file f"
  shows "\<exists>c. bound_on_disk inst c f' \<and> k_Role c = role \<and> k_TokenSHA256 c = HashToken token \<and> k_ExpiresAt c = env_now env + ClaimTTL"
proof -
  let ?c = "\<lparr>k_InstanceName = inst, k_PoolName = pool, k_Role = role, k_TokenSHA256 = HashToken token, k_CreatedAt = env_now env,
                     k_ExpiresAt = env_now env + ClaimTTL, k_ClaimedRepository = [], k_ClaimedAt = 0\<rparr>"
  have u: "cb_update env (add_mutation inst pool role token) f = (Inr (), f')" using assms(1) by (simp add: cb_Add_def split: if_splits)
  have "bound_on_disk inst ?c f'"
    using u
  proof (cases rule: cb_update_cases)
    case unchanged
    obtain j j' where j: "read_claims f = Inr j" "add_mutation inst pool role token (env_now env) (purge (env_now env) j) = Inr (j', ())"
        "same_claims (cj_Claims (purge (env_now env) j)) (cj_Claims j')" using unchanged(2) [of "()"] by blast
    have j': "cj_Claims j' = put inst ?c (cj_Claims (purge (env_now env) j))" using j(2) by (auto simp: add_mutation_def split: if_splits)
    have "get (cj_Claims (purge (env_now env) j)) inst \<noteq> None"
      using j(3) put_new_length [of "cj_Claims (purge (env_now env) j)" inst ?c] unfolding same_claims_def j' by auto
    then obtain c where c: "get (cj_Claims (purge (env_now env) j)) inst = Some c" by blast
    then have "get (cj_Claims j') inst = Some c" using j(3) by (auto simp: same_claims_def list_all_iff dest: map_of_SomeD)
    then have "c = ?c" by (simp add: j' get_put)
    moreover have "get (cj_Claims j) inst = Some c"
      using c read_claims_ok [OF j(1) assms(2)] by (auto simp: purge_def claims_ok_def wf_claims_def get_iff_mem wf_filter)
    ultimately show ?thesis using j(1) unchanged(1) by (simp add: bound_on_disk_def)
  next
    case (published j j' r)
    then show ?thesis by (auto simp: bound_on_disk_def read_claims_def add_mutation_def get_put split: if_splits)
  qed
  then show ?thesis by fastforce
qed

lemma HashToken_decodes: "hex_decode (HashToken token) = Some (sha256 token)"
  unfolding HashToken_def using sha256_bytes by (simp add: hex_decode_encode)

lemma stored_claim_verifies:
  assumes "bound_on_disk inst c f" "k_TokenSHA256 c = HashToken token" "k_ExpiresAt c > env_now env" "env_locked env" "length token = ClaimTokenBytes"
  shows "cb_Verify env inst token f = Inr c"
  using assms by (auto simp: bound_on_disk_def cb_Verify_def cb_Read_def check_token_def HashToken_decodes)

text \<open>The state of a guest whose assignment was delivered and not yet consumed: the readiness file, and the claim with its owner and mode.\<close>

definition delivered :: "job_answers \<Rightarrow> worker_claim \<Rightarrow> bool" where
  "delivered an c \<longleftrightarrow> (\<exists>e. ja_consumed an = Inl e \<and> ae_not_found e) \<and> ja_ready an = Inr \<lparr>fa_data = [], fa_response = Some (0, 0, 256, ''file'')\<rparr>
     \<and> ja_assignment an = Some (ClaimAssignment (Some c), Some (0, 0, 256, ''file''))"

lemma certificates_differ: "bundle \<noteq> [] \<Longrightarrow> length (claim_certificates ca bundle) > length ca"
  by (simp add: claim_certificates_def)

lemma bytes_of_small: "\<forall>b \<in> set (bytes_of s). b < 256"
  by (auto simp: bytes_of_def)

lemma bytes_of_length: "length (bytes_of s) = length s"
  by (simp add: bytes_of_def)

text \<open>C38: A worker that was given its claim can only be adopted when the request carries no certificate bundle. A claim is rendered with
  the cache certificate followed by the bundle of the request, but the check of a delivered claim compares it with the cache
  certificate alone. So when a create is repeated before the job has started, with the same contract, an unexpired claim and exactly the
  files that the first attempt left, the delivery is found present if the bundle is empty, and refused as drifted otherwise.\<close>

theorem delivered_claim_adopted_iff_no_bundle:
  assumes "cacheClaimConfigured l b = Inr (Some role)" "wf_claim_file f" "workerImagePolicy (l_admission l) (bs_Flavor b) = Inr img"
    and "cb_Add (ja_store first) inst (bs_Flavor b) role token f = (Inr (), f')" "\<forall>t \<in> set token. t < 256"
    and "ja_contract again = Some (endpoint, ca)" "delivered again (rendered_claim inst b endpoint ca token)"
    and "env_locked (ja_store again)" "env_now (ja_store again) < env_now (ja_store first) + ClaimTTL"
    and "J (ww_call (jw_warm w)) = again" "jw_claims w = f'"
  shows "fst (coldCacheDeliveryPresent l J inst b w) = (if bp_CACertBundle b = [] then Inr True else Inl (JobCache ''drifted''))"
proof -
  have len: "length token = ClaimTokenBytes" using assms(4) by (simp add: cb_Add_def split: if_splits)
  obtain c where c: "bound_on_disk inst c f'" "k_Role c = role" "k_TokenSHA256 c = HashToken token" "k_ExpiresAt c = env_now (ja_store first) + ClaimTTL"
    using added_claim_stored [OF assms(4,2)] by blast
  have verify: "cb_Verify (ja_store again) inst token f' = Inr c" using stored_claim_verifies [OF c(1,3)] c(4) assms(8,9) len by simp
  have drift: "std_encode (bytes_of (claim_certificates ca (bp_CACertBundle b))) = std_encode (bytes_of ca) \<longleftrightarrow> bp_CACertBundle b = []"
  proof
    assume "std_encode (bytes_of (claim_certificates ca (bp_CACertBundle b))) = std_encode (bytes_of ca)"
    from std_encode_inject [OF bytes_of_small bytes_of_small this] have "length (claim_certificates ca (bp_CACertBundle b)) = length ca"
      using bytes_of_length by metis
    then show "bp_CACertBundle b = []" using certificates_differ [of "bp_CACertBundle b" ca] by auto
  qed (simp add: claim_certificates_def)
  have "claim_file_ok l again inst b role (rendered_claim inst b endpoint ca token) f' =
      (if bp_CACertBundle b = [] then Inr () else Inl (JobCache ''drifted''))"
    using raw_url_roundtrip [OF assms(5)] len verify c(2) drift assms(6) by (simp add: claim_file_ok_def rendered_claim_def or_return_def found_def)
  then have "delivery_evidence l again inst b img role f' = (if bp_CACertBundle b = [] then Inr True else Inl (JobCache ''drifted''))"
    using assms(7) by (auto simp: delivery_evidence_def delivered_def ready_assignment_ok_def cacheDeliveryOwnerMatches_def or_return_def)
  then show ?thesis
    using assms(1,3,10,11) by (simp add: coldCacheDeliveryPresent_def jthen_def result_def lift_job_def ask_def)
qed

section \<open>A create at work\<close>

definition demo_params :: bootstrap_params where
  "demo_params = \<lparr>bs_Name = ''worker-2'', bs_PoolID = ''pool-1'', bs_Flavor = ''nddev-linux-standard'', bs_RepoURL = ''https://github.com/example-org/app'',
     bp_Image = ''gha-standard'', bp_CallbackURL = ''https://198.51.100.1:9443/api/v1/callbacks'', bp_MetadataURL = ''https://198.51.100.1:9443/api/v1/metadata'',
     bp_InstanceToken = ''token'', bp_GitHubRunnerGroup = ''Default'', bp_OSType = ''linux'', bp_OSArch = ''amd64'', bp_JitConfigEnabled = True,
     bp_CACertBundle = [], bp_ExtraSpecs = Specs (no_specs\<lparr>es_DisableUpdates := True\<rparr>)\<rparr>"

definition demo_job_provider :: incus_provider where
  "demo_job_provider = \<lparr>l_admission = demo_nddev, l_current = \<lparr>pi_Version = ''v0.1.5-nddev.133'', pi_Commit = ''c1''\<rparr>,
     l_AllowedGitHubAccounts = [''Example-Org''], l_AllowedGitHubRepositories = [], l_WorkerGatewayURL = ''https://198.51.100.1:9443'', l_cacheClaim = True\<rparr>"

definition demo_missing :: api_error where "demo_missing = \<lparr>ae_not_found = True, ae_message = []\<rparr>"

definition demo_job_answers :: job_answers where
  "demo_job_answers = call_answers.extend (demo_answers demo_waiting)
     \<lparr>ja_store = writable, ja_contract = Some (''https://198.51.100.1:9443'', ''ca''), ja_endpoint_ok = True, ja_token = Some (replicate 32 0),
      ja_attempts = [\<lparr>pa_error = None, pa_status = None, pa_context = True\<rparr>], ja_push = None, ja_phases = [], ja_polls = [], ja_phase_file = Inl demo_missing,
      ja_consumed = Inl demo_missing, ja_ready = Inl demo_missing, ja_assignment = None,
      ja_tool = Some (''actions-runner-linux-x64-2.337.0.tar.gz'', ''https://github.com/actions/runner/releases/download/v2.337.0/actions-runner-linux-x64-2.337.0.tar.gz''),
      ja_cloud = (\<lambda>docker cache. Some ''#cloud-config''), ja_state = None, ja_pem_ok = True\<rparr>"

lemma demo_params_valid: "validateBootstrapParams demo_job_provider demo_params = None"
  by code_simp


theorem created_job_validates_witness:
  "\<exists>args. getCreateInstanceArgs demo_job_provider (call_of demo_job_answers) (ja_tool demo_job_answers) (ja_cloud demo_job_answers) demo_params = Inr args
     \<and> validateExistingInstance demo_job_provider (launched_instance (launch_args True args)) demo_params = None"
proof -
  have "case getCreateInstanceArgs demo_job_provider (call_of demo_job_answers) (ja_tool demo_job_answers) (ja_cloud demo_job_answers) demo_params of
      Inr args \<Rightarrow> ag_Type args = ''container'' | Inl e \<Rightarrow> False" by code_simp
  then obtain args where a: "getCreateInstanceArgs demo_job_provider (call_of demo_job_answers) (ja_tool demo_job_answers) (ja_cloud demo_job_answers) demo_params = Inr args"
      "ag_Type args = ''container''" by (auto split: sum.split_asm)
  have n: "newNDDevAdmission demo_setup demo_provider_config ''c1'' = Inr (l_admission demo_job_provider)"
    using demo_nddev_started by (simp add: demo_job_provider_def)
  have d: "\<not> ic_IncludeDefaultProfile (nd_cfg (l_admission demo_job_provider))"
    by (simp add: demo_job_provider_def demo_nddev_def demo_provider_config_def)
  from created_job_validates [OF n a d] a(1) show ?thesis by blast
qed

text \<open>A create that finds no instance and no warm worker, is admitted and launches; the guest then does not report an address.\<close>

definition demo_job_env :: "nat \<Rightarrow> job_answers" where
  "demo_job_env k = demo_job_answers\<lparr>an_instance := Inl demo_missing\<rparr>"

definition demo_decoders :: decoders where
  "demo_decoders = \<lparr>de_files = (\<lambda>raw. None), de_wrapper = (\<lambda>url token. []), de_event = (\<lambda>line. None)\<rparr>"

definition demo_job_world :: job_world where
  "demo_job_world = \<lparr>jw_warm = demo_world, jw_claims = NoClaims, jw_pushes = [], jw_binds = []\<rparr>"

definition demo_created :: "(job_error + provider_instance) \<times> job_world" where
  "demo_created = CreateInstance demo_job_provider demo_job_env demo_decoders demo_params demo_job_world"

lemma demo_created_effects:
  "case demo_created of (r, w) \<Rightarrow> ww_launches (jw_warm w) = [''worker-2''] \<and> map fst (jw_pushes w) = [''worker-2'', ''worker-2'']"
  by code_simp



text \<open>The second attempt finds the claim of the first, with and without a certificate bundle in the request.\<close>

definition demo_retry_answers :: "bootstrap_params \<Rightarrow> job_answers" where
  "demo_retry_answers b = demo_job_answers\<lparr>ja_ready := Inr \<lparr>fa_data = [], fa_response = Some (0, 0, 256, ''file'')\<rparr>,
     ja_assignment := Some (ClaimAssignment (Some (rendered_claim ''worker-2'' b ''https://198.51.100.1:9443'' ''ca'' (replicate 32 0))), Some (0, 0, 256, ''file''))\<rparr>"

theorem delivered_claim_adopted_iff_no_bundle_witness:
  "\<exists>f'. fst (coldCacheDeliveryPresent demo_job_provider (\<lambda>k. demo_retry_answers demo_params) ''worker-2'' demo_params (demo_job_world\<lparr>jw_claims := f'\<rparr>)) = Inr True
     \<and> (let b = demo_params\<lparr>bp_CACertBundle := ''bundle''\<rparr>
        in fst (coldCacheDeliveryPresent demo_job_provider (\<lambda>k. demo_retry_answers b) ''worker-2'' b (demo_job_world\<lparr>jw_claims := f'\<rparr>)) = Inl (JobCache ''drifted''))"
proof -
  have "fst (cb_Add writable ''worker-2'' ''nddev-linux-standard'' ''trusted-writer'' (replicate 32 0) NoClaims) = Inr ()" by code_simp
  then obtain f' where add: "cb_Add writable ''worker-2'' ''nddev-linux-standard'' ''trusted-writer'' (replicate 32 0) NoClaims = (Inr (), f')" by (metis prod.collapse)
  have role: "cacheClaimConfigured demo_job_provider demo_params = Inr (Some ''trusted-writer'')" by code_simp
  have img: "workerImagePolicy (l_admission demo_job_provider) ''nddev-linux-standard'' = Inr demo_image" by code_simp
  have go: "fst (coldCacheDeliveryPresent demo_job_provider (\<lambda>k. demo_retry_answers b) ''worker-2'' b (demo_job_world\<lparr>jw_claims := f'\<rparr>))
      = (if bp_CACertBundle b = [] then Inr True else Inl (JobCache ''drifted''))" if b: "bs_Flavor b = ''nddev-linux-standard''" for b
  proof (rule delivered_claim_adopted_iff_no_bundle [where first = demo_job_answers and f = NoClaims and token = "replicate 32 0" and img = demo_image])
    show "cacheClaimConfigured demo_job_provider b = Inr (Some ''trusted-writer'')" using role b by (simp add: cacheClaimConfigured_def demo_params_def)
    show "wf_claim_file NoClaims" by (simp add: wf_claim_file_def)
    show "workerImagePolicy (l_admission demo_job_provider) (bs_Flavor b) = Inr demo_image" using img b by simp
    show "cb_Add (ja_store demo_job_answers) ''worker-2'' (bs_Flavor b) ''trusted-writer'' (replicate 32 0) NoClaims = (Inr (), f')"
      using add b by (simp add: demo_job_answers_def call_answers.defs)
    show "ja_contract (demo_retry_answers b) = Some (''https://198.51.100.1:9443'', ''ca'')"
      by (simp add: demo_retry_answers_def demo_job_answers_def call_answers.defs)
    show "delivered (demo_retry_answers b) (rendered_claim ''worker-2'' b ''https://198.51.100.1:9443'' ''ca'' (replicate 32 0))"
      by (simp add: delivered_def demo_retry_answers_def demo_job_answers_def call_answers.defs demo_missing_def)
    show "env_locked (ja_store (demo_retry_answers b))" "env_now (ja_store (demo_retry_answers b)) < env_now (ja_store demo_job_answers) + ClaimTTL"
      by (simp_all add: demo_retry_answers_def demo_job_answers_def call_answers.defs ClaimTTL_def writable_def minute_def second_def)
  qed simp_all
  from go [of demo_params] go [of "demo_params\<lparr>bp_CACertBundle := ''bundle''\<rparr>"] show ?thesis by (auto simp: Let_def demo_params_def)
qed

end
