(* ===== verification/Provider_Retry.thy ===== *)
theory Provider_Retry
  imports Queue_Intent
begin

text \<open>
  The retry journal of GARM and its manual recovery (\<open>src/internal/providerretry/recovery_linux.go\<close>): the journal as the tool
  reads it, the identity-free observation that the metrics publish, and the two recoveries, of a scale set and of one job, that close
  a terminal circuit under the lock. The journal is an instance of the durable-store contract. The theorems say that a recovery takes
  out exactly the record that the operator named and may name, and that the published delay depends on the order of the map.
\<close>

section \<open>The retry journal (\<open>providerretry/recovery_linux.go\<close>)\<close>

record retry_record =
  rr_JobID :: string
  rr_Attempts :: int
  rr_LastErrorClass :: string
  rr_UpdatedAt :: time
  rr_NextAllowedAt :: time
  rr_TerminalUntil :: time
  rr_ProbeOwner :: string
  rr_WakeReason :: string
  rr_ScaleSetName :: string
  rr_Owner :: string

record retry_reservation =
  rx_RetryKey :: string
  rx_ScaleSetName :: string
  rx_UpdatedAt :: time

text \<open>A decoded document; either map may be null.\<close>

record retry_doc =
  rj_SchemaVersion :: int
  rj_Generation :: uint64
  rj_UpdatedAt :: time
  rj_Records :: "retry_record gomap option"
  rj_Reservations :: "retry_reservation gomap option"

datatype retry_file = NoRetryFile | BadRetryFile | RetryFile retry_doc

datatype retry_error =
    RetryContextDone | RetryPaths | RetryRequest | RetryParent | RetryLock | RetryUnreadable | RetryIdentity | RetryTimeRequired
  | RetryNotTerminal | RetryChanged | RetryGrace | RetryQueueUnreadable | RetryQueueIdentity | RetryJobInactive | RetryMoved | RetryWrite

definition readRetry :: "retry_file \<Rightarrow> retry_error + retry_doc" where
  "readRetry f =
     (case f of
        RetryFile d \<Rightarrow>
          if rj_SchemaVersion d \<notin> {1, 2} \<or> rj_Records d = None \<or> (rj_SchemaVersion d = 2 \<and> rj_Reservations d = None)
          then Inl RetryIdentity else Inr d
      | _ \<Rightarrow> Inl RetryUnreadable)"

text \<open>\<open>strings.Index\<close>.\<close>

fun string_index :: "string \<Rightarrow> string \<Rightarrow> nat option" where
  "string_index [] p = (if p = [] then Some 0 else None)"
| "string_index (c # cs) p = (if has_prefix (c # cs) p then Some 0 else map_option Suc (string_index cs p))"

definition before_marker :: "string \<Rightarrow> string \<Rightarrow> string option" where
  "before_marker key marker = (case string_index key marker of Some n \<Rightarrow> if n > 0 then Some (take n key) else None | None \<Rightarrow> None)"

definition retryDomainKey :: "string \<Rightarrow> string" where
  "retryDomainKey key =
     (case before_marker key '':instance:'' of
        Some domain \<Rightarrow> domain
      | None \<Rightarrow> (case before_marker key '':job:'' of Some domain \<Rightarrow> domain | None \<Rightarrow> key))"

section \<open>Observation\<close>

definition retryClasses :: "string list" where
  "retryClasses = [''capacity'', ''identity'', ''intent'', ''provider'', ''timeout'', ''unknown'']"

definition retryClassCounts :: "int gomap" where "retryClassCounts = map (\<lambda>c. (c, 0)) retryClasses"

definition count_class :: "string \<Rightarrow> int gomap \<Rightarrow> int gomap" where
  "count_class c m = put c (case get m c of Some k \<Rightarrow> k + 1 | None \<Rightarrow> 1) m"

record retry_snapshot =
  ry_Generation :: uint64
  ry_Records :: nat
  ry_Reservations :: nat
  ry_DeferredRecords :: nat
  ry_TerminalCircuits :: nat
  ry_ByErrorClass :: "int gomap"
  ry_DeferredByErrorClass :: "int gomap"
  ry_OldestTerminalAgeSeconds :: int
  ry_NextRetryDelaySeconds :: int
  ry_SharedCapacitySaturated :: bool
  ry_SharedCapacityProbeOwned :: bool
  ry_SharedCapacityProbeActive :: bool
  ry_SharedCapacityWaiters :: nat
  ry_SharedCapacityAgeSeconds :: int
  ry_SharedCapacityWakeReason :: string

abbreviation capacity_domain :: string where "capacity_domain \<equiv> ''capacity-domain:measured-fleet''"

definition age_seconds :: "time \<Rightarrow> time \<Rightarrow> int" where "age_seconds now t = max 0 (div64 (time_sub now t) second)"

definition retry_class :: "retry_record \<Rightarrow> string" where
  "retry_class r = (if rr_LastErrorClass r \<in> set retryClasses then rr_LastErrorClass r else ''unknown'')"

definition still_held :: "time \<Rightarrow> retry_record \<Rightarrow> bool" where
  "still_held now r \<longleftrightarrow> rr_NextAllowedAt r > now \<or> rr_TerminalUntil r > now"

definition retry_deferred :: "time \<Rightarrow> retry_record \<Rightarrow> bool" where
  "retry_deferred now r \<longleftrightarrow> trim_space (rr_LastErrorClass r) \<noteq> [] \<and> still_held now r"

definition shared_capacity :: "time \<Rightarrow> retry_record \<Rightarrow> retry_snapshot \<Rightarrow> retry_snapshot" where
  "shared_capacity now r s =
     s\<lparr>ry_SharedCapacitySaturated := still_held now r, ry_SharedCapacityProbeOwned := rr_ProbeOwner r \<noteq> [],
       ry_SharedCapacityProbeActive := (rr_WakeReason r = ''probe-leased'' \<and> rr_NextAllowedAt r > now),
       ry_SharedCapacityAgeSeconds := age_seconds now (rr_UpdatedAt r), ry_SharedCapacityWakeReason := rr_WakeReason r\<rparr>"

definition next_delay :: "time \<Rightarrow> retry_record \<Rightarrow> int \<Rightarrow> int" where
  "next_delay now r known =
     (let delay = div64 (time_sub (rr_NextAllowedAt r) now) second
      in if retry_deferred now r \<and> rr_NextAllowedAt r > now \<and> (known = 0 \<or> delay < known) then delay else known)"

definition inspect_step :: "time \<Rightarrow> string \<times> retry_record \<Rightarrow> retry_snapshot \<Rightarrow> retry_snapshot" where
  "inspect_step now x s =
     (let key = fst x; r = snd x; class_name = retry_class r;
          s = (if key = capacity_domain then shared_capacity now r s else s);
          s = (if key \<noteq> capacity_domain \<and> retryDomainKey key = key \<and> rr_LastErrorClass r = ''capacity''
               then s\<lparr>ry_SharedCapacityWaiters := ry_SharedCapacityWaiters s + 1\<rparr> else s);
          s = s\<lparr>ry_ByErrorClass := count_class class_name (ry_ByErrorClass s)\<rparr>;
          s = (if retry_deferred now r
               then s\<lparr>ry_DeferredRecords := ry_DeferredRecords s + 1, ry_DeferredByErrorClass := count_class class_name (ry_DeferredByErrorClass s)\<rparr> else s);
          s = s\<lparr>ry_NextRetryDelaySeconds := next_delay now r (ry_NextRetryDelaySeconds s)\<rparr>
      in if rr_TerminalUntil r > now \<and> retryDomainKey key = key
         then s\<lparr>ry_TerminalCircuits := ry_TerminalCircuits s + 1,
                ry_OldestTerminalAgeSeconds := max (ry_OldestTerminalAgeSeconds s) (age_seconds now (rr_UpdatedAt r))\<rparr>
         else s)"

definition empty_snapshot :: "retry_doc \<Rightarrow> retry_snapshot" where
  "empty_snapshot d =
     \<lparr>ry_Generation = rj_Generation d, ry_Records = length (case rj_Records d of None \<Rightarrow> [] | Some m \<Rightarrow> m),
      ry_Reservations = length (case rj_Reservations d of None \<Rightarrow> [] | Some m \<Rightarrow> m), ry_DeferredRecords = 0, ry_TerminalCircuits = 0,
      ry_ByErrorClass = retryClassCounts, ry_DeferredByErrorClass = retryClassCounts, ry_OldestTerminalAgeSeconds = 0, ry_NextRetryDelaySeconds = 0,
      ry_SharedCapacitySaturated = False, ry_SharedCapacityProbeOwned = False, ry_SharedCapacityProbeActive = False, ry_SharedCapacityWaiters = 0,
      ry_SharedCapacityAgeSeconds = 0, ry_SharedCapacityWakeReason = []\<rparr>"

definition retry_Inspect :: "time \<Rightarrow> retry_file \<Rightarrow> retry_error + retry_snapshot" where
  "retry_Inspect now f =
     (case readRetry f of
        Inl e \<Rightarrow> Inl e
      | Inr d \<Rightarrow>
          if is_zero now then Inl RetryTimeRequired
          else Inr (fold (inspect_step now) (case rj_Records d of None \<Rightarrow> [] | Some m \<Rightarrow> m) (empty_snapshot d)))"

section \<open>Recovery\<close>

definition parse_uint32 :: "string \<Rightarrow> int option" where
  "parse_uint32 s =
     (let v = foldl (\<lambda>n c. 10 * n + (of_char c - 48)) 0 s
      in if s \<noteq> [] \<and> list_all (\<lambda>c. CHR ''0'' \<le> c \<and> c \<le> CHR ''9'') s \<and> v < 2 ^ 32 then Some v else None)"

definition parseScaleSetDomainKey :: "string \<Rightarrow> (string \<times> int) option" where
  "parseScaleSetDomainKey key =
     (if key = [] \<or> length key > 256 then None
      else (case split_on CHR '':'' key of
              [kind, entity, scaleSet] \<Rightarrow>
                if kind \<noteq> ''scale-set'' \<or> trim_space entity = [] then None
                else (case parse_uint32 scaleSet of Some v \<Rightarrow> if v = 0 then None else Some (entity, v) | None \<Rightarrow> None)
            | _ \<Rightarrow> None))"

definition parseExactJobKey :: "string \<Rightarrow> (string \<times> string \<times> int) option" where
  "parseExactJobKey key =
     (case string_index key '':job:'' of
        None \<Rightarrow> None
      | Some n \<Rightarrow>
          (let job = drop (n + 5) key
           in if job = [] \<or> CHR '':'' \<in> set job then None
              else map_option (\<lambda>(entity, scaleSet). (job, entity, scaleSet)) (parseScaleSetDomainKey (take n key))))"

text \<open>The environment of a recovery: the context, the checks of the paths, of the parent directory, of the lock and of the queue
  file, the clock, whether the temporary file is written, whether the journal is still the file that was read, and how the write goes.\<close>

record retry_env =
  rt_context :: bool
  rt_paths :: bool
  rt_queue_path :: bool
  rt_parent :: bool
  rt_locked :: bool
  rt_now :: time
  rt_temporary :: bool
  rt_unmoved :: bool
  rt_write :: write_outcome

record retry_result =
  rz_Applied :: bool
  rz_Key :: string
  rz_EntityID :: string
  rz_ScaleSetID :: int
  rz_ErrorClass :: string
  rz_ExpectedUpdatedAt :: time
  rz_PreviousGeneration :: uint64
  rz_Generation :: uint64
  rz_RecoveredAt :: time

definition minimumTerminalRecoveryAge :: duration where "minimumTerminalRecoveryAge = minute"

definition requireActiveQueueJob :: "queue_file \<Rightarrow> string \<Rightarrow> time \<Rightarrow> retry_error option" where
  "requireActiveQueueJob q job now =
     (case q of
        QueueFile d \<Rightarrow>
          (case qd_Intents d of
             None \<Rightarrow> Some RetryQueueIdentity
           | Some intents \<Rightarrow>
               if qd_SchemaVersion d \<noteq> q_SchemaVersion then Some RetryQueueIdentity
               else if list_ex (\<lambda>(k, i). i_JobID i = job \<and> i_ExpiresAt i > now \<and> i_State i \<in> {StateQueued, StateAcquiring, StateAcquired, StateAssigned}) intents
               then None else Some RetryJobInactive)
      | BadQueue \<Rightarrow> Some RetryQueueIdentity
      | NoQueue \<Rightarrow> Some RetryQueueUnreadable)"

text \<open>What the recovery asks of the record that it removes.\<close>

definition terminal_error ::
    "retry_env \<Rightarrow> string \<Rightarrow> int \<Rightarrow> string \<Rightarrow> time \<Rightarrow> (time \<Rightarrow> retry_error option) \<Rightarrow> retry_record \<Rightarrow> retry_error option" where
  "terminal_error env key attempts errorClass expected prove r =
     then_check (checks [
        (rr_JobID r \<noteq> key \<or> rr_Attempts r \<noteq> attempts \<or> rr_LastErrorClass r \<noteq> errorClass \<or> is_zero (rr_TerminalUntil r), RetryNotTerminal),
        (rr_UpdatedAt r \<noteq> expected, RetryChanged),
        (time_sub (rt_now env) (rr_UpdatedAt r) < minimumTerminalRecoveryAge, RetryGrace)])
     (prove (rt_now env))"

definition recoverTerminalRecord ::
    "retry_env \<Rightarrow> string \<Rightarrow> string \<Rightarrow> int \<Rightarrow> string \<Rightarrow> time \<Rightarrow> int \<Rightarrow> (time \<Rightarrow> retry_error option) \<Rightarrow> bool \<Rightarrow> retry_file
      \<Rightarrow> (retry_error + retry_result) \<times> retry_file" where
  "recoverTerminalRecord env key entityID scaleSetID errorClass expected attempts prove live f =
     (if \<not> rt_context env then (Inl RetryContextDone, f)
      else if \<not> rt_paths env then (Inl RetryPaths, f)
      else if \<not> rt_parent env then (Inl RetryParent, f)
      else if \<not> rt_locked env then (Inl RetryLock, f)
      else (case readRetry f of
         Inl e \<Rightarrow> (Inl e, f)
       | Inr d \<Rightarrow>
           (let records = (case rj_Records d of None \<Rightarrow> [] | Some m \<Rightarrow> m)
            in case get records key of
                 None \<Rightarrow> (Inl RetryNotTerminal, f)
               | Some r \<Rightarrow>
                   (case terminal_error env key attempts errorClass expected prove r of
                      Some e \<Rightarrow> (Inl e, f)
                    | None \<Rightarrow>
                        (let result = \<lparr>rz_Applied = False, rz_Key = key, rz_EntityID = entityID, rz_ScaleSetID = scaleSetID, rz_ErrorClass = errorClass,
                               rz_ExpectedUpdatedAt = rr_UpdatedAt r, rz_PreviousGeneration = rj_Generation d, rz_Generation = rj_Generation d,
                               rz_RecoveredAt = rt_now env\<rparr>;
                             d' = d\<lparr>rj_Records := Some (del key records), rj_Generation := rj_Generation d + 1, rj_UpdatedAt := rt_now env\<rparr>
                         in if \<not> live then (Inr result, f)
                            else if \<not> rt_temporary env then (Inl RetryWrite, f)
                            else if \<not> rt_unmoved env then (Inl RetryMoved, f)
                            else publish (rt_write env) RetryWrite (result\<lparr>rz_Applied := True, rz_Generation := rj_Generation d'\<rparr>) f (RetryFile d'))))))"

definition RecoverTerminal ::
    "retry_env \<Rightarrow> string \<Rightarrow> string \<Rightarrow> int \<Rightarrow> string \<Rightarrow> time \<Rightarrow> bool \<Rightarrow> retry_file \<Rightarrow> (retry_error + retry_result) \<times> retry_file" where
  "RecoverTerminal env key entityID scaleSetID errorClass expected live f =
     (if \<not> rt_context env then (Inl RetryContextDone, f)
      else if \<not> rt_paths env then (Inl RetryPaths, f)
      else if parseScaleSetDomainKey key \<noteq> Some (entityID, scaleSetID)
         \<or> errorClass \<notin> {''provider'', ''intent'', ''identity'', ''timeout''} \<or> is_zero expected then (Inl RetryRequest, f)
      else recoverTerminalRecord env key entityID scaleSetID errorClass expected 8 (\<lambda>now. None) live f)"

definition RecoverExactJobTerminal ::
    "retry_env \<Rightarrow> queue_file \<Rightarrow> string \<Rightarrow> string \<Rightarrow> int \<Rightarrow> string \<Rightarrow> time \<Rightarrow> bool \<Rightarrow> retry_file \<Rightarrow> (retry_error + retry_result) \<times> retry_file" where
  "RecoverExactJobTerminal env q key entityID scaleSetID errorClass expected live f =
     (case parseExactJobKey key of
        None \<Rightarrow> (Inl RetryRequest, f)
      | Some (job, entity, scaleSet) \<Rightarrow>
          if entity \<noteq> entityID \<or> scaleSet \<noteq> scaleSetID \<or> errorClass \<notin> {''provider'', ''identity'', ''timeout''} \<or> is_zero expected
          then (Inl RetryRequest, f)
          else if \<not> rt_queue_path env then (Inl RetryPaths, f)
          else recoverTerminalRecord env key entityID scaleSetID errorClass expected 3 (requireActiveQueueJob q job) live f)"

section \<open>A recovery removes one circuit\<close>

text \<open>The two operations, as one step of the journal.\<close>

datatype retry_op =
    OpDomain string string int string time bool
  | OpJob queue_file string string int string time bool

fun retry_step :: "retry_env \<Rightarrow> retry_op \<Rightarrow> retry_file \<Rightarrow> (retry_error + retry_result) \<times> retry_file" where
  "retry_step env (OpDomain key entity scaleSet errorClass expected live) f = RecoverTerminal env key entity scaleSet errorClass expected live f"
| "retry_step env (OpJob q key entity scaleSet errorClass expected live) f = RecoverExactJobTerminal env q key entity scaleSet errorClass expected live f"

definition retry_ok :: "retry_doc \<Rightarrow> bool" where
  "retry_ok d \<longleftrightarrow> rj_SchemaVersion d \<in> {1, 2} \<and> rj_Records d \<noteq> None \<and> (rj_SchemaVersion d = 2 \<longrightarrow> rj_Reservations d \<noteq> None)"

lemma readRetry_Inr: "readRetry f = Inr d \<longleftrightarrow> f = RetryFile d \<and> retry_ok d"
  by (auto simp: readRetry_def retry_ok_def split: retry_file.splits if_splits)

text \<open>What a recovery of a key changes: nothing, or exactly that record with the generation and the date.\<close>

definition removes_record :: "string \<Rightarrow> time \<Rightarrow> retry_doc \<Rightarrow> retry_doc \<Rightarrow> bool" where
  "removes_record key now d d' \<longleftrightarrow> (\<exists>records. rj_Records d = Some records
     \<and> d' = d\<lparr>rj_Records := Some (del key records), rj_Generation := rj_Generation d + 1, rj_UpdatedAt := now\<rparr>)"

lemma recoverTerminalRecord_cases:
  assumes "recoverTerminalRecord env key entityID scaleSetID errorClass expected attempts prove live f = (res, f')"
  shows "f' = f \<and> (\<forall>r. res = Inr r \<longrightarrow> \<not> rz_Applied r)
    \<or> (\<exists>d d' r records. f = RetryFile d \<and> retry_ok d \<and> f' = RetryFile d' \<and> removes_record key (rt_now env) d d' \<and> rj_Records d = Some records
         \<and> get records key = Some r \<and> terminal_error env key attempts errorClass expected prove r = None \<and> live
         \<and> (res = Inl RetryWrite \<and> rt_write env = WriteFailsAfterRename
            \<or> (\<exists>z. res = Inr z \<and> rz_Applied z \<and> rz_Generation z = rj_Generation d' \<and> rz_PreviousGeneration z = rj_Generation d)))"
  using assms
  by (auto simp: recoverTerminalRecord_def Let_def readRetry_Inr retry_ok_def removes_record_def publish_def
      split: if_splits sum.splits option.splits write_outcome.splits)

lemma retry_ok_removes: "retry_ok d \<Longrightarrow> removes_record key now d d' \<Longrightarrow> retry_ok d'"
  by (auto simp: retry_ok_def removes_record_def)

lemma retry_step_cases:
  assumes "retry_step env op f = (res, f')"
  shows "f' = f \<and> (\<forall>r. res = Inr r \<longrightarrow> \<not> rz_Applied r)
    \<or> (\<exists>d d' key. f = RetryFile d \<and> retry_ok d \<and> f' = RetryFile d' \<and> removes_record key (rt_now env) d d'
         \<and> (\<forall>e. res = Inl e \<longrightarrow> rt_write env = WriteFailsAfterRename))"
proof (cases op)
  case (OpDomain key entity scaleSet errorClass expected live)
  then show ?thesis using assms recoverTerminalRecord_cases [of env key entity scaleSet errorClass expected 8 "\<lambda>now. None" live f res f']
    by (auto simp: RecoverTerminal_def split: if_splits)
next
  case (OpJob q key entity scaleSet errorClass expected live)
  show ?thesis
  proof (cases "parseExactJobKey key")
    case None
    then show ?thesis using assms OpJob by (auto simp: RecoverExactJobTerminal_def)
  next
    case (Some parsed)
    then show ?thesis using assms OpJob
        recoverTerminalRecord_cases [of env key entity scaleSet errorClass expected 3 "requireActiveQueueJob q (fst parsed)" live f res f']
      by (auto simp: RecoverExactJobTerminal_def split: if_splits prod.splits)
  qed
qed

interpretation rj: durable_store retry_step readRetry retry_ok "\<lambda>op. True" "\<lambda>env. rt_write env \<noteq> WriteFailsAfterRename" "\<lambda>f. True"
proof unfold_locales
  fix env op f
  obtain res f' where s: "retry_step env op f = (res, f')" by fastforce
  show "snd (retry_step env op f) \<noteq> f \<Longrightarrow> \<exists>j. readRetry (snd (retry_step env op f)) = Inr j \<and> retry_ok j"
    using retry_step_cases [OF s] retry_ok_removes s by (auto simp: readRetry_Inr)
  show "rt_write env \<noteq> WriteFailsAfterRename \<Longrightarrow> fst (retry_step env op f) = Inl e \<Longrightarrow> snd (retry_step env op f) = f" for e
    using retry_step_cases [OF s] s by auto
qed simp_all

section \<open>Recovery against its specification\<close>

fun op_key :: "retry_op \<Rightarrow> string" where
  "op_key (OpDomain key entity scaleSet errorClass expected live) = key"
| "op_key (OpJob q key entity scaleSet errorClass expected live) = key"

fun op_live :: "retry_op \<Rightarrow> bool" where
  "op_live (OpDomain key entity scaleSet errorClass expected live) = live"
| "op_live (OpJob q key entity scaleSet errorClass expected live) = live"

text \<open>The circuit that an operator may close: a terminal record with the exact identity, class and date of the request, at least a
  minute old; for a job also one that the queue still holds.\<close>

definition exact_circuit :: "string \<Rightarrow> int \<Rightarrow> string \<Rightarrow> time \<Rightarrow> time \<Rightarrow> retry_record \<Rightarrow> bool" where
  "exact_circuit key attempts errorClass expected now r \<longleftrightarrow>
     rr_JobID r = key \<and> rr_Attempts r = attempts \<and> rr_LastErrorClass r = errorClass \<and> \<not> is_zero (rr_TerminalUntil r)
     \<and> rr_UpdatedAt r = expected \<and> \<not> is_zero expected \<and> minute \<le> time_sub now (rr_UpdatedAt r)"

fun recoverable :: "time \<Rightarrow> retry_op \<Rightarrow> retry_record \<Rightarrow> bool" where
  "recoverable now (OpDomain key entity scaleSet errorClass expected live) r \<longleftrightarrow>
     parseScaleSetDomainKey key = Some (entity, scaleSet) \<and> errorClass \<in> {''provider'', ''intent'', ''identity'', ''timeout''}
     \<and> exact_circuit key 8 errorClass expected now r"
| "recoverable now (OpJob q key entity scaleSet errorClass expected live) r \<longleftrightarrow>
     (case parseExactJobKey key of None \<Rightarrow> False | Some (job, e, s) \<Rightarrow> e = entity \<and> s = scaleSet \<and> requireActiveQueueJob q job now = None)
     \<and> errorClass \<in> {''provider'', ''identity'', ''timeout''} \<and> exact_circuit key 3 errorClass expected now r"

definition recover_spec :: "time \<Rightarrow> retry_op \<Rightarrow> retry_record gomap \<Rightarrow> retry_record gomap option" where
  "recover_spec now op records =
     (case get records (op_key op) of
        Some r \<Rightarrow> if op_live op \<and> recoverable now op r then Some (del (op_key op) records) else None
      | None \<Rightarrow> None)"

definition retry_env_ok :: "retry_env \<Rightarrow> bool" where
  "retry_env_ok env \<longleftrightarrow> rt_context env \<and> rt_paths env \<and> rt_queue_path env \<and> rt_parent env \<and> rt_locked env \<and> rt_temporary env
     \<and> rt_unmoved env \<and> rt_write env = WriteOk"

definition was_applied :: "retry_error + retry_result \<Rightarrow> bool" where
  "was_applied res = (case res of Inr z \<Rightarrow> rz_Applied z | Inl e \<Rightarrow> False)"

lemma terminal_error_None:
  "terminal_error env key attempts errorClass expected prove r = None \<longleftrightarrow>
     rr_JobID r = key \<and> rr_Attempts r = attempts \<and> rr_LastErrorClass r = errorClass \<and> \<not> is_zero (rr_TerminalUntil r)
     \<and> rr_UpdatedAt r = expected \<and> minute \<le> time_sub (rt_now env) (rr_UpdatedAt r) \<and> prove (rt_now env) = None"
  by (auto simp: terminal_error_def checks_None_iff minimumTerminalRecoveryAge_def not_less)

lemma recoverTerminalRecord_outcome:
  fixes env d records live key attempts errorClass expected prove entity scaleSet
  assumes "retry_env_ok env" and "retry_ok d" and "rj_Records d = Some records"
  defines "go \<equiv> live \<and> (\<exists>r. get records key = Some r \<and> terminal_error env key attempts errorClass expected prove r = None)"
    and "step \<equiv> recoverTerminalRecord env key entity scaleSet errorClass expected attempts prove live (RetryFile d)"
  shows "was_applied (fst step) = go"
    and "snd step = RetryFile (if go then d\<lparr>rj_Records := Some (del key records), rj_Generation := rj_Generation d + 1, rj_UpdatedAt := rt_now env\<rparr> else d)"
  using assms
  by (auto simp: recoverTerminalRecord_def retry_env_ok_def readRetry_def retry_ok_def was_applied_def publish_def Let_def split: option.splits)


section \<open>The observation\<close>

definition class_total :: "int gomap \<Rightarrow> int" where "class_total m = sum_list (map snd m)"

lemma retry_class_known: "retry_class r \<in> set retryClasses"
  by (simp add: retry_class_def retryClasses_def)

lemma count_class_total: "class_total (count_class c m) = class_total m + 1"
  unfolding class_total_def count_class_def
  by (induction m) (auto split: option.splits)

lemma inspect_step_counts:
  "class_total (ry_ByErrorClass (inspect_step now x s)) = class_total (ry_ByErrorClass s) + 1"
  "class_total (ry_DeferredByErrorClass (inspect_step now x s)) - int (ry_DeferredRecords (inspect_step now x s))
     = class_total (ry_DeferredByErrorClass s) - int (ry_DeferredRecords s)"
  "ry_DeferredRecords (inspect_step now x s) \<le> ry_DeferredRecords s + 1"
  "ry_Records (inspect_step now x s) = ry_Records s"
  by (simp_all add: inspect_step_def shared_capacity_def Let_def count_class_total)

lemma inspect_fold_counts:
  fixes s :: retry_snapshot and now
  defines "run \<equiv> \<lambda>xs. fold (inspect_step now) xs s"
  shows "class_total (ry_ByErrorClass (run xs)) = class_total (ry_ByErrorClass s) + int (length xs)"
    and "class_total (ry_DeferredByErrorClass (run xs)) - int (ry_DeferredRecords (run xs)) = class_total (ry_DeferredByErrorClass s) - int (ry_DeferredRecords s)"
    and "ry_DeferredRecords (run xs) \<le> ry_DeferredRecords s + length xs"
    and "ry_Records (run xs) = ry_Records s"
proof -
  have step: "run (ys @ [y]) = inspect_step now y (run ys)" for y ys by (simp add: run_def)
  have nil: "run [] = s" by (simp add: run_def)
  show "class_total (ry_ByErrorClass (run xs)) = class_total (ry_ByErrorClass s) + int (length xs)"
    by (induction xs rule: rev_induct) (simp_all add: step nil inspect_step_counts)
  show "class_total (ry_DeferredByErrorClass (run xs)) - int (ry_DeferredRecords (run xs)) = class_total (ry_DeferredByErrorClass s) - int (ry_DeferredRecords s)"
    by (induction xs rule: rev_induct) (simp_all add: step nil inspect_step_counts)
  show "ry_DeferredRecords (run xs) \<le> ry_DeferredRecords s + length xs"
  proof (induction xs rule: rev_induct)
    case (snoc y ys)
    then show ?case using inspect_step_counts(3) [of now y "run ys"] by (simp add: step)
  qed (simp add: nil)
  show "ry_Records (run xs) = ry_Records s"
    by (induction xs rule: rev_induct) (simp_all add: step nil inspect_step_counts)
qed

text \<open>Every record is counted in exactly one error class, and every deferred record in exactly one deferred class.\<close>

lemma inspect_classes_partition:
  assumes "retry_Inspect now f = Inr s"
  shows "class_total (ry_ByErrorClass s) = int (ry_Records s) \<and> class_total (ry_DeferredByErrorClass s) = int (ry_DeferredRecords s)
    \<and> ry_DeferredRecords s \<le> ry_Records s"
proof -
  obtain d where d: "readRetry f = Inr d" "s = fold (inspect_step now) (case rj_Records d of None \<Rightarrow> [] | Some m \<Rightarrow> m) (empty_snapshot d)"
    using assms by (auto simp: retry_Inspect_def split: sum.splits if_splits)
  have zero: "class_total retryClassCounts = 0" by (simp add: class_total_def retryClassCounts_def retryClasses_def)
  show ?thesis
    unfolding d(2) inspect_fold_counts(1,4)
    using inspect_fold_counts(2,3) [of now "case rj_Records d of None \<Rightarrow> [] | Some m \<Rightarrow> m" "empty_snapshot d"] zero
    by (simp add: empty_snapshot_def)
qed

section \<open>The next delay depends on the order of the map\<close>

lemma inspect_step_delay: "ry_NextRetryDelaySeconds (inspect_step now x s) = next_delay now (snd x) (ry_NextRetryDelaySeconds s)"
  by (simp add: inspect_step_def shared_capacity_def Let_def)

definition retry_in :: "time \<Rightarrow> retry_record \<Rightarrow> int" where "retry_in now r = div64 (time_sub (rr_NextAllowedAt r) now) second"

text \<open>The published delay until the next retry is not a function of the journal. A record that is due in less than a second has
  the delay zero, which the loop also takes for no delay seen yet, so a longer delay replaces it when the map yields it later: over the
  same two records the observation is the longer delay in one order of the map and zero in the other.\<close>

theorem next_delay_depends_on_order:
  assumes "retry_deferred now soon" and "rr_NextAllowedAt soon > now" and "retry_in now soon = 0"
    and "retry_deferred now late" and "rr_NextAllowedAt late > now" and "0 < retry_in now late"
    and "\<not> is_zero now" and "retry_ok d"
  shows "\<exists>s s'. retry_Inspect now (RetryFile (d\<lparr>rj_Records := Some [(k, soon), (k', late)]\<rparr>)) = Inr s
    \<and> retry_Inspect now (RetryFile (d\<lparr>rj_Records := Some [(k', late), (k, soon)]\<rparr>)) = Inr s'
    \<and> ry_NextRetryDelaySeconds s = retry_in now late \<and> ry_NextRetryDelaySeconds s' = 0"
proof -
  have read: "readRetry (RetryFile (d\<lparr>rj_Records := Some records\<rparr>)) = Inr (d\<lparr>rj_Records := Some records\<rparr>)" for records
    using assms(8) by (simp add: readRetry_Inr retry_ok_def)
  show ?thesis
    using assms by (simp add: retry_Inspect_def read inspect_step_delay next_delay_def retry_in_def empty_snapshot_def Let_def)
qed

section \<open>Examples\<close>

definition demo_retry :: "string \<Rightarrow> int \<Rightarrow> time \<Rightarrow> retry_record" where
  "demo_retry key attempts due =
     \<lparr>rr_JobID = key, rr_Attempts = attempts, rr_LastErrorClass = ''provider'', rr_UpdatedAt = 100 * second, rr_NextAllowedAt = due,
      rr_TerminalUntil = 5000 * second, rr_ProbeOwner = [], rr_WakeReason = [], rr_ScaleSetName = ''linux'', rr_Owner = []\<rparr>"

definition demo_retry_records :: "retry_record gomap" where
  "demo_retry_records = map (\<lambda>(key, n). (key, demo_retry key n (2000 * second))) [(''scale-set:entity:7'', 8), (''scale-set:entity:9'', 8)]"

definition demo_retry_doc :: retry_doc where
  "demo_retry_doc = \<lparr>rj_SchemaVersion = 2, rj_Generation = 4, rj_UpdatedAt = 900 * second, rj_Records = Some demo_retry_records, rj_Reservations = Some []\<rparr>"

definition demo_retry_env :: retry_env where
  "demo_retry_env = \<lparr>rt_context = True, rt_paths = True, rt_queue_path = True, rt_parent = True, rt_locked = True, rt_now = 1000 * second,
     rt_temporary = True, rt_unmoved = True, rt_write = WriteOk\<rparr>"

abbreviation demo_retry_op :: retry_op where
  "demo_retry_op \<equiv> OpDomain ''scale-set:entity:7'' ''entity'' 7 ''provider'' (100 * second) True"


theorem next_delay_depends_on_order_witness:
  "\<exists>s s'. retry_Inspect (1000 * second) (RetryFile (demo_retry_doc\<lparr>rj_Records := Some
       [(''scale-set:a:1'', demo_retry ''scale-set:a:1'' 2 (1000 * second + 1)), (''scale-set:b:2'', demo_retry ''scale-set:b:2'' 2 (1030 * second))]\<rparr>)) = Inr s
   \<and> retry_Inspect (1000 * second) (RetryFile (demo_retry_doc\<lparr>rj_Records := Some
       [(''scale-set:b:2'', demo_retry ''scale-set:b:2'' 2 (1030 * second)), (''scale-set:a:1'', demo_retry ''scale-set:a:1'' 2 (1000 * second + 1))]\<rparr>)) = Inr s'
   \<and> ry_NextRetryDelaySeconds s = 30 \<and> ry_NextRetryDelaySeconds s' = 0"
proof -
  let ?soon = "demo_retry ''scale-set:a:1'' 2 (1000 * second + 1)" and ?late = "demo_retry ''scale-set:b:2'' 2 (1030 * second)"
  have late: "retry_in (1000 * second) ?late = 30" by code_simp
  have "retry_in (1000 * second) ?soon = 0 \<and> retry_deferred (1000 * second) ?soon \<and> rr_NextAllowedAt ?soon > 1000 * second
      \<and> retry_deferred (1000 * second) ?late \<and> rr_NextAllowedAt ?late > 1000 * second \<and> \<not> is_zero (1000 * second)"
    by code_simp
  then show ?thesis
    using next_delay_depends_on_order [of "1000 * second" ?soon ?late demo_retry_doc "''scale-set:a:1''" "''scale-set:b:2''"] late
    by (simp add: demo_retry_doc_def retry_ok_def)
qed

end
