(* ===== verification/Placement.thy ===== *)
theory Placement
  imports Pressure_Publish
begin

text \<open>
The placement of workers on the members of a cluster (\<open>internal/incusplacement/scriptlet.go\<close>): the policy that is rendered from the
platform configuration, and the scriptlet that Incus runs for every create with that policy. Proved: a worker is only placed where the
memory holds every promise and the reserve of the host; and the choice among members with room depends on their order, because ties within
the margin add up. What the server answers about a member is a record; the rounding of floating point numbers is an argument.
\<close>

section \<open>The policy that the scriptlet carries\<close>

text \<open>The values that the template receives. The rendered text is the program of the next section with these values as its
  constants, so the record stands for the text.\<close>

record placement_policy =
  lp_PROJECT :: string
  lp_POOL :: string
  lp_MINIMUM_MEMORY_MIB :: int
  lp_MINIMUM_MEMORY_PERCENT :: int
  lp_MAX_WORKER_MEMORY_MIB :: int
  lp_MAX_WORKER_CPU_UNITS :: int
  lp_RESERVATION_BY_LIMIT :: "(int \<times> int) list"
  lp_CPU_BY_LIMIT :: "(int \<times> int) list"

datatype render_error = ConfigInvalid "Issue list" | ReservationConflict int | AllowanceConflict int | NoMemoryClass

text \<open>One pool of the loop: the two maps and the two maxima.\<close>

record render_acc =
  ra_reservation :: "(int \<times> int) list"
  ra_cpu :: "(int \<times> int) list"
  ra_max_memory :: int
  ra_max_cpu :: int

definition conflicts :: "(int \<times> int) list \<Rightarrow> int \<Rightarrow> int \<Rightarrow> bool" where
  "conflicts m limit v \<longleftrightarrow> (case map_of m limit of None \<Rightarrow> False | Some previous \<Rightarrow> previous \<noteq> v)"

definition render_pool :: "Pool \<Rightarrow> render_acc \<Rightarrow> render_error + render_acc" where
  "render_pool pool a =
     (let limit = rs_MemoryMiB (pl_Resources pool); memory = rv_MemoryMiB (EffectiveReservation pool); vcpu = rs_VCPU (pl_Resources pool)
      in if conflicts (ra_reservation a) limit memory then Inl (ReservationConflict limit)
         else if conflicts (ra_cpu a) limit vcpu then Inl (AllowanceConflict limit)
         else Inr \<lparr>ra_reservation = AList.update limit memory (ra_reservation a), ra_cpu = AList.update limit vcpu (ra_cpu a),
                   ra_max_memory = (if memory > ra_max_memory a then memory else ra_max_memory a),
                   ra_max_cpu = (if vcpu > ra_max_cpu a then vcpu else ra_max_cpu a)\<rparr>)"

definition render_start :: render_acc where
  "render_start = \<lparr>ra_reservation = [], ra_cpu = [], ra_max_memory = 0, ra_max_cpu = 0\<rparr>"

text \<open>The entries of the two dictionaries in the order of their limits.\<close>

definition by_limit :: "(int \<times> int) list \<Rightarrow> (int \<times> int) list" where
  "by_limit m = sort_slice (\<lambda>x y. fst x < fst y) m"

definition placement_Render :: "text_env \<Rightarrow> fleet_config \<Rightarrow> render_error + placement_policy" where
  "placement_Render e c =
     (if fleet_Validate e c \<noteq> [] then Inl (ConfigInvalid (fleet_Validate e c))
      else (case fold_err render_pool (fc_Pools c) render_start of
              Inl err \<Rightarrow> Inl err
            | Inr a \<Rightarrow>
                if ra_max_memory a = 0 then Inl NoMemoryClass
                else Inr \<lparr>lp_PROJECT = in_Project (fc_Incus c), lp_POOL = in_StoragePool (fc_Incus c),
                          lp_MINIMUM_MEMORY_MIB = hr_MinimumMemoryMiB (fc_HostReserve c), lp_MINIMUM_MEMORY_PERCENT = hr_MinimumPercent (fc_HostReserve c),
                          lp_MAX_WORKER_MEMORY_MIB = ra_max_memory a, lp_MAX_WORKER_CPU_UNITS = ra_max_cpu a,
                          lp_RESERVATION_BY_LIMIT = by_limit (ra_reservation a), lp_CPU_BY_LIMIT = by_limit (ra_cpu a)\<rparr>))"

section \<open>The scriptlet\<close>

text \<open>What the server answers about one candidate: its configuration, the total and used space of its storage pools, its memory, its
  cores, its load averages if the system information has them, the number of instances counting creates that are pending, and the
  instances on record with their expanded configuration. Integers of Starlark are unbounded.\<close>

record placement_instance =
  pi_name :: string
  pi_config :: "string gomap"

record placement_member =
  mb_server_name :: string
  mb_config :: "string gomap"
  mb_storage_pools :: "(int \<times> int) gomap"
  mb_memory_total :: int
  mb_cpu_total :: "int option"
  mb_load_averages :: "rat list option"
  mb_pending_count :: int
  mb_instances :: "placement_instance list"

record placement_request =
  rq_project :: string
  rq_name :: string
  rq_memory_size :: int
  rq_root_disk_size :: int

datatype placement_error = NoReservation | NonMiBLimit string | BadLimit string | UnknownLimit string | PendingBelowRecords | NoStoragePool string | NoRoom

definition config_text :: "string gomap \<Rightarrow> string \<Rightarrow> string" where
  "config_text m k = (case get m k of None \<Rightarrow> [] | Some v \<Rightarrow> v)"

definition memory_reserve_bytes :: "placement_policy \<Rightarrow> int \<Rightarrow> int" where
  "memory_reserve_bytes p tot =
     (let percent = (tot * lp_MINIMUM_MEMORY_PERCENT p + 99) div 100; floor_bytes = lp_MINIMUM_MEMORY_MIB p * 1024 * 1024
      in if percent > floor_bytes then percent else floor_bytes)"

text \<open>\<open>int\<close> of a text: an optional sign and decimal digits.\<close>

definition starlark_int :: "string \<Rightarrow> int option" where
  "starlark_int s =
     (let (sgn, body) = (case s of [] \<Rightarrow> (1, []) | c # cs \<Rightarrow> if c = CHR ''-'' then (-1, cs) else if c = CHR ''+'' then (1, cs) else (1, s))
      in if body = [] \<or> \<not> list_all is_digit body then None else Some (sgn * digits_value body))"

text \<open>The common loop of \<open>committed_memory_bytes\<close> and \<open>committed_cpu_units\<close>: every instance on record is looked up by its
  memory limit.\<close>

definition add_instance :: "(int \<times> int) list \<Rightarrow> placement_instance \<Rightarrow> int \<Rightarrow> placement_error + int" where
  "add_instance by_lim inst acc =
     (let memory = config_text (pi_config inst) ''limits.memory''
      in if \<not> has_suffix memory ''MiB'' then Inl (NonMiBLimit (pi_name inst))
         else (case starlark_int (take (length memory - 3) memory) of
                 None \<Rightarrow> Inl (BadLimit (pi_name inst))
               | Some limit \<Rightarrow>
                   (case map_of by_lim limit of
                      None \<Rightarrow> Inl (UnknownLimit (pi_name inst))
                    | Some v \<Rightarrow> Inr (acc + v))))"

definition committed :: "(int \<times> int) list \<Rightarrow> int \<Rightarrow> placement_instance list \<Rightarrow> int \<Rightarrow> placement_error + int" where
  "committed by_lim unknown instances pending =
     (case fold_err (add_instance by_lim) instances 0 of
        Inl e \<Rightarrow> Inl e
      | Inr known \<Rightarrow>
          if pending - int (length instances) < 0 then Inl PendingBelowRecords
          else Inr (known + (pending - int (length instances)) * unknown))"

definition committed_memory_bytes :: "placement_policy \<Rightarrow> placement_instance list \<Rightarrow> int \<Rightarrow> placement_error + int" where
  "committed_memory_bytes p = committed (map (\<lambda>(k, v). (k, v * 1024 * 1024)) (lp_RESERVATION_BY_LIMIT p)) (lp_MAX_WORKER_MEMORY_MIB p * 1024 * 1024)"

definition committed_cpu_units :: "placement_policy \<Rightarrow> placement_instance list \<Rightarrow> int \<Rightarrow> placement_error + int" where
  "committed_cpu_units p = committed (lp_CPU_BY_LIMIT p) (lp_MAX_WORKER_CPU_UNITS p)"

text \<open>Floating point: \<open>rnd\<close> is the rounding of the machine.\<close>

definition load_per_core :: "(rat \<Rightarrow> rat) \<Rightarrow> placement_member \<Rightarrow> rat" where
  "load_per_core rnd m =
     (case (mb_load_averages m, mb_cpu_total m) of
        (Some (l # ls), Some cores) \<Rightarrow> if cores \<le> 0 then 0 else rnd (l / of_int cores)
      | _ \<Rightarrow> 0)"

section \<open>Choosing a member\<close>

record chosen_member =
  ch_name :: string
  ch_remaining :: int
  ch_count :: int
  ch_load :: rat
  ch_projected_cpu :: rat
  ch_score :: rat

definition nothing_chosen :: chosen_member where
  "nothing_chosen = \<lparr>ch_name = [], ch_remaining = -1, ch_count = -1, ch_load = -1, ch_projected_cpu = -1, ch_score = -1\<rparr>"

definition LOAD_TIE_EPSILON :: "(rat \<Rightarrow> rat) \<Rightarrow> rat" where "LOAD_TIE_EPSILON rnd = rnd (1 / 20)"

definition better :: "(rat \<Rightarrow> rat) \<Rightarrow> chosen_member \<Rightarrow> chosen_member \<Rightarrow> bool" where
  "better rnd x c \<longleftrightarrow>
     ch_name c = []
     \<or> ch_score x < rnd (ch_score c - LOAD_TIE_EPSILON rnd)
     \<or> (ch_score x \<le> rnd (ch_score c + LOAD_TIE_EPSILON rnd)
        \<and> (ch_projected_cpu x < ch_projected_cpu c
           \<or> (ch_projected_cpu x = ch_projected_cpu c
              \<and> (ch_load x < ch_load c
                 \<or> (ch_load x = ch_load c \<and> (ch_remaining x < ch_remaining c \<or> (ch_remaining x = ch_remaining c \<and> ch_count x < ch_count c)))))))"

definition is_maintenance :: "placement_request \<Rightarrow> bool" where
  "is_maintenance r \<longleftrightarrow> has_prefix (rq_name r) ''gha-image-builder-'' \<or> has_prefix (rq_name r) ''gha-image-smoke-''"

definition gate_allows :: "placement_request \<Rightarrow> placement_member \<Rightarrow> bool" where
  "gate_allows r m \<longleftrightarrow>
     config_text (mb_config m) ''user.gha_pressure.schema'' = ''1''
     \<and> (is_maintenance r \<or> config_text (mb_config m) ''user.gha_pressure.state'' = ''open'')"

text \<open>One member of the loop up to the comparison: skipped, a failure of the script, or a candidate with its figures.\<close>

definition candidate :: "(rat \<Rightarrow> rat) \<Rightarrow> placement_policy \<Rightarrow> placement_request \<Rightarrow> int \<Rightarrow> int \<Rightarrow> placement_member \<Rightarrow> placement_error + chosen_member option" where
  "candidate rnd p r reservation cpu_units m =
     (if \<not> gate_allows r m then Inr None
      else (case get (mb_storage_pools m) (lp_POOL p) of
              None \<Rightarrow> Inl (NoStoragePool (mb_server_name m))
            | Some (space, used) \<Rightarrow>
                if space - used < rq_root_disk_size r then Inr None
                else (case committed_memory_bytes p (mb_instances m) (mb_pending_count m) of
                        Inl e \<Rightarrow> Inl e
                      | Inr memory \<Rightarrow>
                          (let remaining = mb_memory_total m - memory - reservation - memory_reserve_bytes p (mb_memory_total m)
                           in if remaining < 0 then Inr None
                              else (case mb_cpu_total m of
                                      None \<Rightarrow> Inr None
                                    | Some cores \<Rightarrow>
                                        if cores \<le> 0 then Inr None
                                        else (case committed_cpu_units p (mb_instances m) (mb_pending_count m) of
                                                Inl e \<Rightarrow> Inl e
                                              | Inr units \<Rightarrow>
                                                  (let load = load_per_core rnd m; projected = rnd (of_int (units + cpu_units) / of_int cores)
                                                   in Inr (Some \<lparr>ch_name = mb_server_name m, ch_remaining = remaining, ch_count = mb_pending_count m, ch_load = load,
                                                                 ch_projected_cpu = projected, ch_score = (if projected > load then projected else load)\<rparr>))))))))"

definition placement_step ::
    "(rat \<Rightarrow> rat) \<Rightarrow> placement_policy \<Rightarrow> placement_request \<Rightarrow> int \<Rightarrow> int \<Rightarrow> placement_member \<Rightarrow> chosen_member \<Rightarrow> placement_error + chosen_member" where
  "placement_step rnd p r reservation cpu_units m c =
     (case candidate rnd p r reservation cpu_units m of
        Inl e \<Rightarrow> Inl e
      | Inr None \<Rightarrow> Inr c
      | Inr (Some x) \<Rightarrow> Inr (if better rnd x c then x else c))"

text \<open>The target that is set; \<open>None\<close> for an instance of another project, which the scriptlet leaves to the server.\<close>

definition instance_placement :: "(rat \<Rightarrow> rat) \<Rightarrow> placement_policy \<Rightarrow> placement_request \<Rightarrow> placement_member list \<Rightarrow> placement_error + string option" where
  "instance_placement rnd p r members =
     (if rq_project r \<noteq> lp_PROJECT p then Inr None
      else (let limit = rq_memory_size r div (1024 * 1024)
            in case (map_of (lp_RESERVATION_BY_LIMIT p) limit, map_of (lp_CPU_BY_LIMIT p) limit) of
                 (Some memory, Some cpu_units) \<Rightarrow>
                   (case fold_err (placement_step rnd p r (memory * 1024 * 1024) cpu_units) members nothing_chosen of
                      Inl e \<Rightarrow> Inl e
                    | Inr c \<Rightarrow> if ch_name c = [] then Inl NoRoom else Inr (Some (ch_name c)))
               | _ \<Rightarrow> Inl NoReservation))"

section \<open>What the rendered policy holds\<close>

definition mem_limit :: "Pool \<Rightarrow> int" where "mem_limit q = rs_MemoryMiB (pl_Resources q)"
definition mem_reservation :: "Pool \<Rightarrow> int" where "mem_reservation q = rv_MemoryMiB (EffectiveReservation q)"

lemma render_pool_Inr:
  assumes "render_pool q a = Inr b"
  shows "b = \<lparr>ra_reservation = AList.update (mem_limit q) (mem_reservation q) (ra_reservation a),
      ra_cpu = AList.update (mem_limit q) (rs_VCPU (pl_Resources q)) (ra_cpu a),
      ra_max_memory = max (ra_max_memory a) (mem_reservation q), ra_max_cpu = max (ra_max_cpu a) (rs_VCPU (pl_Resources q))\<rparr>"
    and "map_of (ra_reservation a) (mem_limit q) \<in> {None, Some (mem_reservation q)}"
    and "map_of (ra_cpu a) (mem_limit q) \<in> {None, Some (rs_VCPU (pl_Resources q))}"
  using assms by (auto simp: render_pool_def Let_def mem_limit_def mem_reservation_def conflicts_def max_def split: if_splits option.splits)

definition render_knows :: "render_acc \<Rightarrow> Pool \<Rightarrow> bool" where
  "render_knows a q \<longleftrightarrow> map_of (ra_reservation a) (mem_limit q) = Some (mem_reservation q) \<and> map_of (ra_cpu a) (mem_limit q) = Some (rs_VCPU (pl_Resources q))
     \<and> mem_reservation q \<le> ra_max_memory a"

lemma render_pool_knows:
  assumes "render_pool q a = Inr b"
  shows "render_knows b q" and "render_knows a x \<Longrightarrow> render_knows b x"
    and "distinct (map fst (ra_reservation a)) \<Longrightarrow> distinct (map fst (ra_reservation b))"
    and "distinct (map fst (ra_cpu a)) \<Longrightarrow> distinct (map fst (ra_cpu b))"
  using render_pool_Inr [OF assms] by (auto simp: render_knows_def update_conv distinct_update)

lemma render_all:
  assumes "fold_err render_pool qs a = Inr b"
  shows "\<forall>q \<in> set qs. render_knows b q" and "\<forall>x. render_knows a x \<longrightarrow> render_knows b x"
    and "distinct (map fst (ra_reservation a)) \<longrightarrow> distinct (map fst (ra_reservation b))"
    and "distinct (map fst (ra_cpu a)) \<longrightarrow> distinct (map fst (ra_cpu b))"
  using assms
proof (induction qs arbitrary: a)
  case (Cons q qs)
  { case 1 then show ?case using Cons render_pool_knows by (fastforce split: sum.splits)
  next
    case 2 then show ?case using Cons render_pool_knows by (fastforce split: sum.splits)
  next
    case 3 then show ?case using Cons render_pool_knows by (fastforce split: sum.splits)
  next
    case 4 then show ?case using Cons render_pool_knows by (fastforce split: sum.splits) }
qed simp_all

lemma map_of_by_limit: "distinct (map fst m) \<Longrightarrow> map_of (by_limit m) = map_of m"
  unfolding by_limit_def by (rule map_of_inject_set [THEN iffD2]) (auto simp: distinct_map)

lemma Render_Inr:
  assumes "placement_Render e c = Inr p"
  shows "fleet_Validate e c = []" "lp_PROJECT p = in_Project (fc_Incus c)"
    "lp_MINIMUM_MEMORY_MIB p = hr_MinimumMemoryMiB (fc_HostReserve c)" "lp_MINIMUM_MEMORY_PERCENT p = hr_MinimumPercent (fc_HostReserve c)"
    and "\<forall>q \<in> set (fc_Pools c). map_of (lp_RESERVATION_BY_LIMIT p) (mem_limit q) = Some (mem_reservation q)
       \<and> map_of (lp_CPU_BY_LIMIT p) (mem_limit q) = Some (rs_VCPU (pl_Resources q)) \<and> mem_reservation q \<le> lp_MAX_WORKER_MEMORY_MIB p"
proof -
  obtain a where a: "fleet_Validate e c = []" "fold_err render_pool (fc_Pools c) render_start = Inr a"
      "p = \<lparr>lp_PROJECT = in_Project (fc_Incus c), lp_POOL = in_StoragePool (fc_Incus c),
         lp_MINIMUM_MEMORY_MIB = hr_MinimumMemoryMiB (fc_HostReserve c), lp_MINIMUM_MEMORY_PERCENT = hr_MinimumPercent (fc_HostReserve c),
         lp_MAX_WORKER_MEMORY_MIB = ra_max_memory a, lp_MAX_WORKER_CPU_UNITS = ra_max_cpu a,
         lp_RESERVATION_BY_LIMIT = by_limit (ra_reservation a), lp_CPU_BY_LIMIT = by_limit (ra_cpu a)\<rparr>"
    using assms by (auto simp: placement_Render_def split: if_splits sum.splits)
  have d: "distinct (map fst (ra_reservation a))" "distinct (map fst (ra_cpu a))" using render_all(3,4) [OF a(2)] by (simp_all add: render_start_def)
  show "fleet_Validate e c = []" "lp_PROJECT p = in_Project (fc_Incus c)" "lp_MINIMUM_MEMORY_MIB p = hr_MinimumMemoryMiB (fc_HostReserve c)"
      "lp_MINIMUM_MEMORY_PERCENT p = hr_MinimumPercent (fc_HostReserve c)" by (simp_all add: a)
  show "\<forall>q \<in> set (fc_Pools c). map_of (lp_RESERVATION_BY_LIMIT p) (mem_limit q) = Some (mem_reservation q)
       \<and> map_of (lp_CPU_BY_LIMIT p) (mem_limit q) = Some (rs_VCPU (pl_Resources q)) \<and> mem_reservation q \<le> lp_MAX_WORKER_MEMORY_MIB p"
    using render_all(1) [OF a(2)] by (simp add: a(3) map_of_by_limit d render_knows_def)
qed

section \<open>Memory that is promised\<close>

text \<open>The instances of a member are workers of the given pools: each carries the memory limit that the profile of its pool sets.\<close>

definition workers_of :: "Pool list \<Rightarrow> placement_instance list \<Rightarrow> bool" where
  "workers_of ps is \<longleftrightarrow> map (\<lambda>i. config_text (pi_config i) ''limits.memory'') is = map (\<lambda>q. format_int (mem_limit q) @ ''MiB'') ps"

lemma starlark_int_format: "0 \<le> n \<Longrightarrow> starlark_int (format_int n) = Some n"
proof -
  assume n: "0 \<le> n"
  obtain c cs where d: "dec_nat (nat n) = c # cs" using dec_nat_nonempty by (cases "dec_nat (nat n)") auto
  have "list_all is_digit (dec_nat (nat n))" using dec_nat_digits by (auto simp: list_all_iff is_digit_of_char)
  moreover then have "c \<noteq> CHR ''-''" "c \<noteq> CHR ''+''" by (auto simp: d is_digit_def)
  ultimately show ?thesis using n digits_value_dec_nat [of "nat n"] by (simp add: starlark_int_def format_int_pos d)
qed

lemma valid_mem_limit:
  assumes "fleet_Validate e c = []" "q \<in> set (fc_Pools c)"
  shows "0 \<le> mem_limit q" "0 \<le> mem_reservation q"
proof -
  obtain at_path where "validatePool e at_path q = []" using valid_pool [OF assms] by blast
  then have "resource_issues at_path q = []" by (simp add: validatePool_def)
  then show "0 \<le> mem_limit q" "0 \<le> mem_reservation q" by (auto simp: resource_issues_def Let_def mem_limit_def mem_reservation_def)
qed

lemma add_worker:
  assumes "config_text (pi_config i) ''limits.memory'' = format_int n @ ''MiB''" "0 \<le> n" "map_of by_lim n = Some v"
  shows "add_instance by_lim i acc = Inr (acc + v)"
  using assms by (simp add: add_instance_def Let_def has_suffix_def starlark_int_format)

lemma add_workers:
  assumes "workers_of ps is" "\<forall>q \<in> set ps. 0 \<le> mem_limit q \<and> map_of by_lim (mem_limit q) = Some (f q)"
  shows "fold_err (add_instance by_lim) is acc = Inr (acc + (\<Sum>q \<leftarrow> ps. f q))"
  using assms
proof (induction "is" arbitrary: ps acc)
  case Nil
  then show ?case by (simp add: workers_of_def)
next
  case (Cons i "is")
  from Cons.prems(1) obtain q qs where q: "ps = q # qs" "config_text (pi_config i) ''limits.memory'' = format_int (mem_limit q) @ ''MiB''" "workers_of qs is"
    by (cases ps) (auto simp: workers_of_def)
  with Cons show ?case by (simp add: add_worker)
qed

lemma committed_workers:
  assumes "workers_of ps is" "\<forall>q \<in> set ps. 0 \<le> mem_limit q \<and> map_of (lp_RESERVATION_BY_LIMIT p) (mem_limit q) = Some (mem_reservation q)"
    "committed_memory_bytes p is pending = Inr memory"
  shows "memory = ((\<Sum>q \<leftarrow> ps. mem_reservation q) + (pending - int (length ps)) * lp_MAX_WORKER_MEMORY_MIB p) * 1048576 \<and> int (length ps) \<le> pending"
proof -
  have len: "length is = length ps" using assms(1) by (metis length_map workers_of_def)
  have "fold_err (add_instance (map (\<lambda>(k, v). (k, v * 1024 * 1024)) (lp_RESERVATION_BY_LIMIT p))) is 0
      = Inr (\<Sum>q \<leftarrow> ps. mem_reservation q * 1048576)"
    using add_workers [OF assms(1), of "map (\<lambda>(k, v). (k, v * 1024 * 1024)) (lp_RESERVATION_BY_LIMIT p)" "\<lambda>q. mem_reservation q * 1048576" 0] assms(2)
    by (simp add: map_of_map)
  moreover have "(\<Sum>q \<leftarrow> ps. mem_reservation q * 1048576) = (\<Sum>q \<leftarrow> ps. mem_reservation q) * 1048576" by (rule sum_list_mult_const)
  ultimately show ?thesis using assms(3) by (auto simp: committed_memory_bytes_def committed_def len algebra_simps split: if_splits)
qed

lemma candidate_Some:
  assumes "candidate rnd p r reservation units m = Inr (Some x)"
  obtains space used memory where "ch_name x = mb_server_name m" "gate_allows r m" "get (mb_storage_pools m) (lp_POOL p) = Some (space, used)"
    "rq_root_disk_size r \<le> space - used" "committed_memory_bytes p (mb_instances m) (mb_pending_count m) = Inr memory"
    "memory + reservation + memory_reserve_bytes p (mb_memory_total m) \<le> mb_memory_total m"
  using assms by (fastforce simp: candidate_def Let_def split: if_splits option.splits sum.splits)

lemma placement_step_Inr:
  "placement_step rnd p r reservation units m c = Inr d \<Longrightarrow> d = c \<or> candidate rnd p r reservation units m = Inr (Some d)"
  by (auto simp: placement_step_def split: sum.splits option.splits if_splits)

lemma placement_from_candidate:
  "fold_err (placement_step rnd p r reservation units) members c = Inr c' \<Longrightarrow>
     c' = c \<or> (\<exists>m \<in> set members. candidate rnd p r reservation units m = Inr (Some c'))"
proof (induction members arbitrary: c)
  case (Cons m members)
  then obtain d where d: "placement_step rnd p r reservation units m c = Inr d" "fold_err (placement_step rnd p r reservation units) members d = Inr c'"
    by (auto split: sum.splits)
  show ?case using Cons.IH [OF d(2)] placement_step_Inr [OF d(1)] by auto
qed simp

lemma reserve_covers:
  "lp_MINIMUM_MEMORY_MIB p * 1048576 \<le> memory_reserve_bytes p tot \<and> tot * lp_MINIMUM_MEMORY_PERCENT p \<le> 100 * memory_reserve_bytes p tot"
proof -
  have "x \<le> 100 * ((x + 99) div 100)" for x :: int by presburger
  from this [of "tot * lp_MINIMUM_MEMORY_PERCENT p"] show ?thesis by (auto simp: memory_reserve_bytes_def Let_def)
qed

lemma promised_fits:
  "promised = memory + own \<Longrightarrow> memory + own + reserve \<le> tot \<Longrightarrow> least \<le> reserve \<Longrightarrow> tot * percent \<le> 100 * reserve \<Longrightarrow>
     promised + least \<le> tot \<and> 100 * promised + tot * percent \<le> 100 * (tot :: int)"
  by linarith

lemma placement_Inr:
  assumes "instance_placement rnd p r members = Inr (Some target)" "map_of (lp_RESERVATION_BY_LIMIT p) (rq_memory_size r div 1048576) = Some memory"
  obtains units m x where "m \<in> set members" "candidate rnd p r (memory * 1048576) units m = Inr (Some x)" "ch_name x = target"
proof -
  obtain units c where c: "fold_err (placement_step rnd p r (memory * 1048576) units) members nothing_chosen = Inr c" "ch_name c \<noteq> []" "ch_name c = target"
    using assms by (auto simp: instance_placement_def Let_def mult.commute [of memory] split: if_splits option.splits sum.splits)
  have "c \<noteq> nothing_chosen" using c(2) by (auto simp: nothing_chosen_def)
  with placement_from_candidate [OF c(1)] c(3) that show ?thesis by blast
qed

text \<open>C6: Placement keeps every promise of memory. In a fleet whose configuration was accepted, a worker of a pool is only sent to a member
  that reported its gate under the current schema, open unless an image is being built, with room for the root disk, and whose memory holds
  the reservations of all workers on record, the largest reservation for every create that is not on record yet, the new worker and the
  reserve of the host, both as an absolute amount and as a percentage. This holds whatever the loads and the rounding of their comparison
  are.\<close>

theorem placement_keeps_memory:
  assumes "placement_Render e c = Inr p" "pool \<in> set (fc_Pools c)" "rq_memory_size r = rs_MemoryMiB (pl_Resources pool) * 1048576"
    and "instance_placement rnd p r members = Inr (Some target)"
  shows "\<exists>m \<in> set members. mb_server_name m = target \<and> gate_allows r m
     \<and> (\<exists>space used. get (mb_storage_pools m) (lp_POOL p) = Some (space, used) \<and> rq_root_disk_size r \<le> space - used)
     \<and> (\<forall>ps. set ps \<subseteq> set (fc_Pools c) \<longrightarrow> workers_of ps (mb_instances m) \<longrightarrow>
          (let promised = ((\<Sum>q \<leftarrow> ps. mem_reservation q) + (mb_pending_count m - int (length ps)) * lp_MAX_WORKER_MEMORY_MIB p + mem_reservation pool) * 1048576
           in promised + hr_MinimumMemoryMiB (fc_HostReserve c) * 1048576 \<le> mb_memory_total m
              \<and> 100 * promised + mb_memory_total m * hr_MinimumPercent (fc_HostReserve c) \<le> 100 * mb_memory_total m))"
proof -
  note R = Render_Inr [OF assms(1)]
  have "map_of (lp_RESERVATION_BY_LIMIT p) (rq_memory_size r div 1048576) = Some (mem_reservation pool)"
    using R(5) assms(2,3) by (auto simp: mem_limit_def)
  then obtain units m x where m: "m \<in> set members" "candidate rnd p r (mem_reservation pool * 1048576) units m = Inr (Some x)" "ch_name x = target"
    using placement_Inr [OF assms(4)] by metis
  obtain space used memory where x: "ch_name x = mb_server_name m" "gate_allows r m" "get (mb_storage_pools m) (lp_POOL p) = Some (space, used)"
      "rq_root_disk_size r \<le> space - used" "committed_memory_bytes p (mb_instances m) (mb_pending_count m) = Inr memory"
      "memory + mem_reservation pool * 1048576 + memory_reserve_bytes p (mb_memory_total m) \<le> mb_memory_total m"
    using candidate_Some [OF m(2)] by metis
  have "let promised = ((\<Sum>q \<leftarrow> ps. mem_reservation q) + (mb_pending_count m - int (length ps)) * lp_MAX_WORKER_MEMORY_MIB p + mem_reservation pool) * 1048576
      in promised + hr_MinimumMemoryMiB (fc_HostReserve c) * 1048576 \<le> mb_memory_total m
         \<and> 100 * promised + mb_memory_total m * hr_MinimumPercent (fc_HostReserve c) \<le> 100 * mb_memory_total m"
    if ps: "set ps \<subseteq> set (fc_Pools c)" "workers_of ps (mb_instances m)" for ps
  proof -
    have "\<forall>q \<in> set ps. 0 \<le> mem_limit q \<and> map_of (lp_RESERVATION_BY_LIMIT p) (mem_limit q) = Some (mem_reservation q)"
      using ps(1) R(5) valid_mem_limit [OF R(1)] by blast
    then have "memory = ((\<Sum>q \<leftarrow> ps. mem_reservation q) + (mb_pending_count m - int (length ps)) * lp_MAX_WORKER_MEMORY_MIB p) * 1048576"
      using committed_workers [OF ps(2) _ x(5)] by blast
    then have "((\<Sum>q \<leftarrow> ps. mem_reservation q) + (mb_pending_count m - int (length ps)) * lp_MAX_WORKER_MEMORY_MIB p + mem_reservation pool) * 1048576
        = memory + mem_reservation pool * 1048576" by (simp only: distrib_right)
    from promised_fits [OF this x(6) reserve_covers [of p "mb_memory_total m", THEN conjunct1] reserve_covers [of p "mb_memory_total m", THEN conjunct2]]
    show ?thesis unfolding Let_def R(3,4) .
  qed
  then show ?thesis using m(3) x(1-4) by (intro bexI [OF _ m(1)] conjI exI [of _ space] exI [of _ used] allI impI) simp_all
qed

section \<open>A fleet of three members\<close>

definition demo_policy :: placement_policy where
  "demo_policy = \<lparr>lp_PROJECT = ''gha-fleet'', lp_POOL = ''gha-lvm'', lp_MINIMUM_MEMORY_MIB = 1024, lp_MINIMUM_MEMORY_PERCENT = 10,
     lp_MAX_WORKER_MEMORY_MIB = 8192, lp_MAX_WORKER_CPU_UNITS = 4, lp_RESERVATION_BY_LIMIT = [(4096, 4096), (6144, 6144), (8192, 8192)],
     lp_CPU_BY_LIMIT = [(4096, 2), (6144, 4), (8192, 4)]\<rparr>"

lemma demo_policy_rendered: "placement_Render demo_text_env demo_fleet = Inr demo_policy"
proof -
  have "case fold_err render_pool (fc_Pools demo_fleet) render_start of
      Inl err \<Rightarrow> False
    | Inr a \<Rightarrow> ra_max_memory a = 8192 \<and> ra_max_cpu a = 4 \<and> by_limit (ra_reservation a) = lp_RESERVATION_BY_LIMIT demo_policy
        \<and> by_limit (ra_cpu a) = lp_CPU_BY_LIMIT demo_policy" by code_simp
  moreover have "in_Project (fc_Incus demo_fleet) = ''gha-fleet''" "in_StoragePool (fc_Incus demo_fleet) = ''gha-lvm''"
      "hr_MinimumMemoryMiB (fc_HostReserve demo_fleet) = 1024" "hr_MinimumPercent (fc_HostReserve demo_fleet) = 10"
    by (simp_all add: demo_fleet_def demo_incus_def)
  ultimately show ?thesis by (auto simp: placement_Render_def demo_fleet_valid demo_policy_def split: sum.splits)
qed

definition demo_placed :: placement_request where
  "demo_placed = \<lparr>rq_project = ''gha-fleet'', rq_name = ''worker-2'', rq_memory_size = 4096 * 1048576, rq_root_disk_size = 30\<rparr>"

definition demo_member :: "string \<Rightarrow> int \<Rightarrow> rat \<Rightarrow> placement_member" where
  "demo_member name cores load =
     \<lparr>mb_server_name = name, mb_config = [(''user.gha_pressure.schema'', ''1''), (''user.gha_pressure.state'', ''open'')],
      mb_storage_pools = [(''gha-lvm'', 200, 40)], mb_memory_total = 32768 * 1048576, mb_cpu_total = Some cores, mb_load_averages = Some [load],
      mb_pending_count = 2, mb_instances = [\<lparr>pi_name = ''worker-1'', pi_config = [(''limits.memory'', ''4096MiB'')]\<rparr>]\<rparr>"

text \<open>One worker on record and one create that is not: eight units of CPU with the new worker, on sixteen, twenty and
  twenty-four cores.\<close>

definition demo_three_members :: "placement_member list" where
  "demo_three_members = [demo_member ''m1'' 16 8, demo_member ''m2'' 20 (54 / 5), demo_member ''m3'' 24 (348 / 25)]"

lemma demo_committed:
  "committed_memory_bytes demo_policy (mb_instances (demo_member n k l)) 2 = Inr (12288 * 1048576)" "committed_cpu_units demo_policy (mb_instances (demo_member n k l)) 2 = Inr 6"
proof -
  have "starlark_int ''4096'' = Some 4096" by code_simp
  then show "committed_memory_bytes demo_policy (mb_instances (demo_member n k l)) 2 = Inr (12288 * 1048576)" "committed_cpu_units demo_policy (mb_instances (demo_member n k l)) 2 = Inr 6"
    by (simp_all add: committed_memory_bytes_def committed_cpu_units_def committed_def demo_member_def demo_policy_def add_instance_def config_text_def has_suffix_def)
qed

definition demo_candidate :: "(rat \<Rightarrow> rat) \<Rightarrow> string \<Rightarrow> rat \<Rightarrow> rat \<Rightarrow> chosen_member" where
  "demo_candidate rnd n load projected =
     \<lparr>ch_name = n, ch_remaining = 32768 * 1048576 - 16384 * 1048576 - memory_reserve_bytes demo_policy (32768 * 1048576), ch_count = 2, ch_load = rnd load,
      ch_projected_cpu = rnd projected, ch_score = (if rnd projected > rnd load then rnd projected else rnd load)\<rparr>"

lemma demo_candidate_of:
  assumes "0 < k"
  shows "candidate rnd demo_policy demo_placed (4096 * 1048576) 2 (demo_member n k l) = Inr (Some (demo_candidate rnd n (l / of_int k) (8 / of_int k)))"
proof -
  have "gate_allows demo_placed (demo_member n k l)" by (simp add: gate_allows_def demo_member_def config_text_def)
  moreover have "memory_reserve_bytes demo_policy (32768 * 1048576) = 3435973837" by (simp add: memory_reserve_bytes_def demo_policy_def)
  ultimately show ?thesis using assms demo_committed [of n k l]
    by (simp add: candidate_def demo_placed_def demo_policy_def [THEN arg_cong [of _ _ lp_POOL]] demo_candidate_def load_per_core_def demo_member_def Let_def)
qed

text \<open>A rounding to a thousandth or better, such as that of double precision.\<close>

definition close_rounding :: "(rat \<Rightarrow> rat) \<Rightarrow> bool" where
  "close_rounding rnd \<longleftrightarrow> (\<forall>x. \<bar>x\<bar> \<le> 10 \<longrightarrow> \<bar>rnd x - x\<bar> \<le> 1 / 1000)"

lemma close_roundingD: "close_rounding rnd \<Longrightarrow> - 10 \<le> x \<Longrightarrow> x \<le> 10 \<Longrightarrow> x - 1 / 1000 \<le> rnd x \<and> rnd x \<le> x + 1 / 1000"
  unfolding close_rounding_def by (metis abs_le_iff diff_le_eq le_diff_eq minus_diff_eq add.commute neg_le_iff_le minus_le_iff)

lemma demo_scores:
  assumes "close_rounding rnd"
  defines "a \<equiv> demo_candidate rnd ''m1'' (1 / 2) (1 / 2)" and "b \<equiv> demo_candidate rnd ''m2'' (27 / 50) (2 / 5)" and "c \<equiv> demo_candidate rnd ''m3'' (29 / 50) (1 / 3)"
  shows "better rnd b a" "better rnd c b" "\<not> better rnd b c" "better rnd a c" "ch_score a + LOAD_TIE_EPSILON rnd < ch_score c"
proof -
  note close = close_roundingD [OF assms(1)]
  note at = close [of "1 / 2", simplified] close [of "27 / 50", simplified] close [of "29 / 50", simplified] close [of "2 / 5", simplified] close [of "1 / 3", simplified]
    close [of "1 / 20", simplified]
  note sums = close [of "rnd (1 / 2) + rnd (1 / 20)"] close [of "rnd (1 / 2) - rnd (1 / 20)"] close [of "rnd (27 / 50) + rnd (1 / 20)"]
    close [of "rnd (29 / 50) + rnd (1 / 20)"] close [of "rnd (29 / 50) - rnd (1 / 20)"]
  show "better rnd b a" "better rnd c b" "\<not> better rnd b c" "better rnd a c" "ch_score a + LOAD_TIE_EPSILON rnd < ch_score c"
    using at sums by (simp_all add: better_def a_def b_def c_def demo_candidate_def LOAD_TIE_EPSILON_def; linarith)+
qed

lemma demo_placement:
  assumes "close_rounding rnd"
  shows "instance_placement rnd demo_policy demo_placed demo_three_members = Inr (Some ''m3'')"
    "instance_placement rnd demo_policy demo_placed (rev demo_three_members) = Inr (Some ''m1'')"
proof -
  let ?a = "demo_candidate rnd ''m1'' (1 / 2) (1 / 2)" and ?b = "demo_candidate rnd ''m2'' (27 / 50) (2 / 5)" and ?c = "demo_candidate rnd ''m3'' (29 / 50) (1 / 3)"
  have cand: "candidate rnd demo_policy demo_placed 4294967296 2 (demo_member ''m1'' 16 8) = Inr (Some ?a)"
      "candidate rnd demo_policy demo_placed 4294967296 2 (demo_member ''m2'' 20 (54 / 5)) = Inr (Some ?b)"
      "candidate rnd demo_policy demo_placed 4294967296 2 (demo_member ''m3'' 24 (348 / 25)) = Inr (Some ?c)"
    using demo_candidate_of [of 16 rnd "''m1''" 8] demo_candidate_of [of 20 rnd "''m2''" "54 / 5"] demo_candidate_of [of 24 rnd "''m3''" "348 / 25"] by simp_all
  have first: "better rnd x nothing_chosen" for x by (simp add: better_def nothing_chosen_def)
  have names: "ch_name ?a = ''m1''" "ch_name ?c = ''m3''" by (simp_all add: demo_candidate_def)
  have want: "rq_project demo_placed = lp_PROJECT demo_policy" "rq_memory_size demo_placed div (1024 * 1024) = 4096"
      "map_of (lp_RESERVATION_BY_LIMIT demo_policy) 4096 = Some 4096" "map_of (lp_CPU_BY_LIMIT demo_policy) 4096 = Some 2"
    by (simp_all add: demo_placed_def demo_policy_def)
  note scores = demo_scores [OF assms]
  show "instance_placement rnd demo_policy demo_placed demo_three_members = Inr (Some ''m3'')"
    using want by (simp add: instance_placement_def demo_three_members_def placement_step_def cand first scores names)
  show "instance_placement rnd demo_policy demo_placed (rev demo_three_members) = Inr (Some ''m1'')"
    using want by (simp add: instance_placement_def demo_three_members_def placement_step_def cand first scores names)
qed

theorem placement_keeps_memory_witness:
  "\<exists>m \<in> set demo_three_members. mb_server_name m = ''m3'' \<and> gate_allows demo_placed m
     \<and> ((\<Sum>q \<leftarrow> [demo_standard]. mem_reservation q) + (mb_pending_count m - 1) * 8192 + 4096) * 1048576 + 1024 * 1048576 \<le> mb_memory_total m"
proof -
  have r: "rq_memory_size demo_placed = rs_MemoryMiB (pl_Resources demo_standard) * 1048576" by (simp add: demo_placed_def demo_standard_def demo_pool_def)
  have "close_rounding (\<lambda>x. x)" by (simp add: close_rounding_def)
  note placed = demo_placement(1) [OF this]
  have std: "demo_standard \<in> set (fc_Pools demo_fleet)" by (simp add: demo_fleet_pools)
  have lim: "mem_reservation demo_standard = 4096" "lp_MAX_WORKER_MEMORY_MIB demo_policy = 8192" "hr_MinimumMemoryMiB (fc_HostReserve demo_fleet) = 1024"
    "format_int (mem_limit demo_standard) = ''4096''"
    by (simp_all add: mem_reservation_def mem_limit_def EffectiveReservation_def demo_standard_def demo_pool_def demo_policy_def demo_fleet_def) code_simp
  have "workers_of [demo_standard] (mb_instances m)" if "m \<in> set demo_three_members" for m
    using that by (auto simp: workers_of_def demo_three_members_def demo_member_def config_text_def lim)
  with placement_keeps_memory [OF demo_policy_rendered std r placed] std show ?thesis
    by (fastforce simp: Let_def lim dest: spec [of _ "[demo_standard]"])
qed

text \<open>Placement does not minimise the load it scores. Whatever the rounding of the machine, there are three members, all with room,
  that in one order get the worker placed on the member with the highest score, more than the tie margin above the lowest, and in the
  opposite order on the member with the lowest: the margin is compared with the last choice and not with the best one, so that ties add
  up.\<close>

theorem placement_depends_on_order:
  assumes "close_rounding rnd"
  shows "\<exists>p r members worst best x y.
     instance_placement rnd p r members = Inr (Some (mb_server_name worst)) \<and> instance_placement rnd p r (rev members) = Inr (Some (mb_server_name best))
     \<and> worst \<in> set members \<and> best \<in> set members
     \<and> candidate rnd p r (rq_memory_size r) 2 worst = Inr (Some x) \<and> candidate rnd p r (rq_memory_size r) 2 best = Inr (Some y)
     \<and> ch_score y + LOAD_TIE_EPSILON rnd < ch_score x"
proof -
  let ?worst = "demo_member ''m3'' 24 (348 / 25)" and ?best = "demo_member ''m1'' 16 8"
  have size: "rq_memory_size demo_placed = 4096 * 1048576" by (simp add: demo_placed_def)
  have names: "mb_server_name ?worst = ''m3''" "mb_server_name ?best = ''m1''" by (simp_all add: demo_member_def)
  have mem: "?worst \<in> set demo_three_members" "?best \<in> set demo_three_members" by (simp_all add: demo_three_members_def)
  have "candidate rnd demo_policy demo_placed (rq_memory_size demo_placed) 2 ?worst = Inr (Some (demo_candidate rnd ''m3'' (29 / 50) (1 / 3)))"
      "candidate rnd demo_policy demo_placed (rq_memory_size demo_placed) 2 ?best = Inr (Some (demo_candidate rnd ''m1'' (1 / 2) (1 / 2)))"
    unfolding size using demo_candidate_of [of 24 rnd "''m3''" "348 / 25"] demo_candidate_of [of 16 rnd "''m1''" 8] by simp_all
  then show ?thesis using demo_placement [OF assms] demo_scores(5) [OF assms] mem names by metis
qed

theorem placement_depends_on_order_witness:
  "\<exists>p r members x y. instance_placement (\<lambda>x. x) p r members = Inr (Some x) \<and> instance_placement (\<lambda>x. x) p r (rev members) = Inr (Some y)"
proof -
  have "close_rounding (\<lambda>x. x)" by (simp add: close_rounding_def)
  from placement_depends_on_order [OF this] show ?thesis by metis
qed

end
