(* ===== verification/Incus_Plan.thy ===== *)
theory Incus_Plan
  imports Placement
begin

text \<open>
The plan of a host (\<open>internal/incusplan/plan.go\<close>): every Incus object that the platform configuration implies for the selected pools,
with the access rules of the workers, the profiles and the rules of the host firewall. Proved, where Incus evaluates access rules as it
documents: no planned worker reaches a reserved range or a host of the estate, and which declared destinations a release worker reaches.
\<close>

section \<open>What a plan holds\<close>

record acl_rule =
  ru_Action :: string
  ru_State :: string
  ru_Description :: string
  ru_Source :: string
  ru_Destination :: string
  ru_Protocol :: string
  ru_SourcePort :: string
  ru_DestinationPort :: string

record plan_acl =
  al_Name :: string
  al_Description :: string
  al_Config :: "string gomap"
  al_Ingress :: "acl_rule list"
  al_Egress :: "acl_rule list"

record plan_profile =
  qf_Name :: string
  qf_Description :: string
  qf_Config :: "string gomap"
  qf_Devices :: "string gomap gomap"

record firewall_rule =
  fw_Name :: string
  fw_Args :: "string list"

record host_firewall =
  hf_Backend :: string
  hf_RequiredStatus :: string
  hf_RequiredDefault :: string
  hf_Rules :: "firewall_rule list"

text \<open>Storage, network and project: a name, one text (the driver, the type, the description) and a configuration.\<close>

record plan_object =
  bj_Name :: string
  bj_Text :: string
  bj_Config :: "string gomap"

text \<open>The server configuration has the placement scriptlet as its one entry.\<close>

record incus_plan =
  plan_Version :: string
  plan_APIAddress :: string
  plan_ServerConfig :: "placement_policy gomap"
  plan_HostFirewall :: host_firewall
  plan_Storage :: plan_object
  plan_Network :: plan_object
  plan_Project :: plan_object
  plan_ACL :: plan_acl
  plan_PoolACLs :: "plan_acl list"
  plan_Profiles :: "plan_profile list"

datatype plan_error =
    PlanConfig "Issue list" | NoPoolSelected | SelectedTwice string | BridgeUnparseable | NetworkPolicyUnsupported string | UnknownPools "string list" | PlanPlacement render_error

section \<open>Access rules\<close>

definition format_ipv4 :: "int \<Rightarrow> string" where
  "format_ipv4 v = join_with CHR ''.'' [format_int (v div 16777216), format_int (v div 65536 mod 256), format_int (v div 256 mod 256), format_int (v mod 256)]"

definition reservedDestinations :: "fleet_config \<Rightarrow> string list" where
  "reservedDestinations c =
     (let hosts = in_EstatePublicHostAddresses (fc_Incus c)
      in ReservedEgressDestinations @ map (\<lambda>host. host @ ''/32'') (if hosts = [] then [in_PublicHostAddress (fc_Incus c)] else hosts))"

definition acl_entry :: "string \<Rightarrow> string \<Rightarrow> string \<Rightarrow> string \<Rightarrow> string \<Rightarrow> acl_rule" where
  "acl_entry action description destination protocol ports =
     \<lparr>ru_Action = action, ru_State = ''enabled'', ru_Description = description, ru_Source = [], ru_Destination = destination, ru_Protocol = protocol,
      ru_SourcePort = [], ru_DestinationPort = ports\<rparr>"

definition localServiceAllows :: "fleet_config \<Rightarrow> string \<Rightarrow> bool \<Rightarrow> acl_rule list" where
  "localServiceAllows c bridgeAddress registry =
     (let i = fc_Incus c; bridge = bridgeAddress @ ''/32'';
          cachePorts = format_int (in_RustFSPort i) @ (if in_CacheGatewayPort i \<noteq> in_RustFSPort i then '','' @ format_int (in_CacheGatewayPort i) else []);
          ports = (if registry then format_int (in_RegistryPort i) @ '','' @ cachePorts else cachePorts)
      in [acl_entry ''allow'' ''Allow scoped local cache endpoints'' bridge ''tcp'' ports,
          acl_entry ''allow'' ''Allow the restricted GARM worker gateway'' bridge ''tcp'' (format_int (in_GARMGatewayPort i)),
          acl_entry ''allow'' ''Allow DNS to the managed bridge'' bridge ''udp'' ''53'',
          acl_entry ''allow'' ''Allow TCP DNS fallback to the managed bridge'' bridge ''tcp'' ''53''])"

definition baseEgressRejects :: "fleet_config \<Rightarrow> string \<Rightarrow> acl_rule list" where
  "baseEgressRejects c bridgeAddress =
     [acl_entry ''reject'' ''Block private, metadata, multicast and host public ranges'' (join_with CHR '','' (reservedDestinations c)) [] [],
      acl_entry ''reject'' ''Block sensitive host bridge services'' (bridgeAddress @ ''/32'') ''tcp'' ''22,80,443,8443,8444'']"

definition publicEgressACL :: "fleet_config \<Rightarrow> string \<Rightarrow> plan_acl" where
  "publicEgressACL c bridgeAddress =
     \<lparr>al_Name = in_EgressACL (fc_Incus c), al_Description = ''Deny host and private networks; allow bounded public pilot egress'',
      al_Config = [(''user.nddev.policy'', ''public-internet-v1'')], al_Ingress = [],
      al_Egress =
        [acl_entry ''reject'' ''Block private, metadata, multicast and host public ranges'' (join_with CHR '','' (reservedDestinations c)) [] [],
         acl_entry ''reject'' ''Block sensitive host bridge services'' (bridgeAddress @ ''/32'') ''tcp'' ''22,80,443,8443,8444'',
         acl_entry ''allow'' ''Allow public HTTP and HTTPS for the standard pilot'' [] ''tcp'' ''80,443''] @ localServiceAllows c bridgeAddress True\<rparr>"

definition poolEgressACL :: "fleet_config \<Rightarrow> Pool \<Rightarrow> string \<Rightarrow> plan_acl option" where
  "poolEgressACL c pool bridgeAddress =
     (if ca_NetworkPolicy (pl_Capabilities pool) \<noteq> ''release-allowlist'' then None
      else Some \<lparr>al_Name = in_EgressACL (fc_Incus c) @ ''-'' @ pl_Name pool, al_Description = ''Reviewed release egress for '' @ pl_Name pool,
        al_Config = [(''user.nddev.policy'', ''release-allowlist-v1'')], al_Ingress = [],
        al_Egress = baseEgressRejects c bridgeAddress @ [acl_entry ''allow'' ''Allow public HTTPS for GitHub Actions control plane and OIDC'' [] ''tcp'' ''443'']
          @ localServiceAllows c bridgeAddress False
          @ map (\<lambda>d. acl_entry ''allow'' (ed_Purpose d) (ed_Destination d) (ed_Protocol d) (ed_Ports d)) (ca_EgressAllowlist (pl_Capabilities pool))\<rparr>)"

section \<open>Profiles\<close>

definition plan_nic :: "fleet_config \<Rightarrow> Pool \<Rightarrow> string gomap" where
  "plan_nic c pool =
     [(''name'', ''eth0''), (''network'', in_Network (fc_Incus c)), (''security.ipv4_filtering'', ''true''), (''security.mac_filtering'', ''true''),
      (''security.port_isolation'', ''true''), (''type'', ''nic''),
      (''security.acls'', if ca_NetworkPolicy (pl_Capabilities pool) = ''release-allowlist'' then in_EgressACL (fc_Incus c) @ ''-'' @ pl_Name pool
                         else in_EgressACL (fc_Incus c))]"

definition vm_config :: "Pool \<Rightarrow> string gomap" where
  "vm_config pool =
     [(''boot.autostart'', ''false''), (''limits.cpu'', format_int (rs_VCPU (pl_Resources pool))), (''limits.memory'', format_int (rs_MemoryMiB (pl_Resources pool)) @ ''MiB''),
      (''security.nesting'', ''false''), (''security.secureboot'', ''true''), (''user.nddev.pool'', pl_Name pool), (''user.nddev.scale_set'', pl_ScaleSetName pool),
      (''user.nddev.trust'', pl_Trust pool)]"

definition bool_text :: "bool \<Rightarrow> string" where "bool_text b = (if b then ''true'' else ''false'')"

definition container_config :: "Pool \<Rightarrow> string gomap" where
  "container_config pool =
     put ''security.syscalls.intercept.setxattr'' ''false'' (put ''security.syscalls.intercept.mknod'' ''false''
       (put ''security.nesting'' (bool_text (ca_Docker (pl_Capabilities pool))) (put ''security.privileged'' ''false'' (put ''security.idmap.isolated'' ''true''
       (put ''limits.cpu.allowance'' (format_int (mul64 (rs_VCPU (pl_Resources pool)) 100) @ ''%'') (del ''limits.cpu'' (del ''security.secureboot'' (vm_config pool))))))))"

definition is_container :: "fleet_config \<Rightarrow> Pool \<Rightarrow> bool" where
  "is_container c pool \<longleftrightarrow> (case config_Backend c (pl_Backend pool) of Some b \<Rightarrow> be_Implementation b = ''incus-container'' | None \<Rightarrow> False)"

definition profile :: "fleet_config \<Rightarrow> Pool \<Rightarrow> plan_profile" where
  "profile c pool =
     \<lparr>qf_Name = pl_Name pool,
      qf_Description = (if is_container c pool then ''Managed unprivileged system-container profile for '' else ''Managed full-VM profile for '') @ pl_Name pool,
      qf_Config = (if is_container c pool then container_config pool else vm_config pool),
      qf_Devices = [(''eth0'', plan_nic c pool),
        (''root'', [(''path'', ''/''), (''pool'', in_StoragePool (fc_Incus c)), (''size'', format_int (rs_DiskGiB (pl_Resources pool)) @ ''GiB''), (''type'', ''disk'')])]\<rparr>"

section \<open>The host firewall\<close>

definition service_rule :: "fleet_config \<Rightarrow> string \<Rightarrow> string \<Rightarrow> string \<Rightarrow> string \<Rightarrow> string \<Rightarrow> firewall_rule" where
  "service_rule c bridgeAddress name port proto comment =
     \<lparr>fw_Name = name, fw_Args = [''allow'', ''in'', ''on'', in_Network (fc_Incus c), ''to'', bridgeAddress, ''port'', port, ''proto'', proto, ''comment'', comment]\<rparr>"

definition route_rule :: "fleet_config \<Rightarrow> string \<Rightarrow> string \<Rightarrow> string \<Rightarrow> string \<Rightarrow> string \<Rightarrow> string \<Rightarrow> firewall_rule" where
  "route_rule c bridgeSubnet name destination port proto comment =
     \<lparr>fw_Name = name, fw_Args = [''route'', ''allow'', ''in'', ''on'', in_Network (fc_Incus c), ''from'', bridgeSubnet, ''to'', destination, ''port'', port, ''proto'', proto,
        ''comment'', comment]\<rparr>"

text \<open>The declared destinations of all release pools, each once.\<close>

definition release_step :: "fleet_config \<Rightarrow> string \<Rightarrow> EgressDestination \<Rightarrow> string list \<times> firewall_rule list \<Rightarrow> string list \<times> firewall_rule list" where
  "release_step c bridgeSubnet d acc =
     (case acc of (seen, rules) \<Rightarrow>
        (let key = ed_Destination d @ [CHR 0x00] @ ed_Protocol d @ [CHR 0x00] @ ed_Ports d
         in if key \<in> set seen then acc
            else (seen @ [key], rules @ [route_rule c bridgeSubnet (''release-egress-'' @ dec_nat (length seen + 1)) (ed_Destination d) (ed_Ports d) (ed_Protocol d)
                                           ''gha-fleet-release-egress-v1''])))"

definition hostFirewall :: "fleet_config \<Rightarrow> string \<Rightarrow> string \<Rightarrow> host_firewall" where
  "hostFirewall c bridgeAddress bridgeSubnet =
     (let i = fc_Incus c;
          fixed =
            [\<lparr>fw_Name = ''dhcp'', fw_Args = [''allow'', ''in'', ''on'', in_Network i, ''to'', ''any'', ''port'', ''67'', ''proto'', ''udp'', ''comment'', ''gha-fleet-dhcp-v2'']\<rparr>,
             service_rule c bridgeAddress ''dns-udp'' ''53'' ''udp'' ''gha-fleet-dns-udp-v1'', service_rule c bridgeAddress ''dns-tcp'' ''53'' ''tcp'' ''gha-fleet-dns-tcp-v1'',
             service_rule c bridgeAddress ''registry'' (format_int (in_RegistryPort i)) ''tcp'' ''gha-fleet-registry-v1'',
             service_rule c bridgeAddress ''rustfs'' (format_int (in_RustFSPort i)) ''tcp'' ''gha-fleet-rustfs-v1'',
             service_rule c bridgeAddress ''cache-gateway'' (format_int (in_CacheGatewayPort i)) ''tcp'' ''gha-fleet-cache-gateway-v1'',
             \<lparr>fw_Name = ''services-rustfs-diagnostics'', fw_Args = [''allow'', ''in'', ''on'', ''eth1'', ''from'', in_ServicesHostAddress i, ''to'', bridgeAddress, ''port'',
                format_int (in_RustFSPort i), ''proto'', ''tcp'', ''comment'', ''gha-fleet-services-rustfs-diagnostics-v1'']\<rparr>,
             service_rule c bridgeAddress ''garm-gateway'' (format_int (in_GARMGatewayPort i)) ''tcp'' ''gha-fleet-garm-gateway-v1'',
             route_rule c bridgeSubnet ''public-http'' ''any'' ''80'' ''tcp'' ''gha-fleet-public-http-v1'',
             route_rule c bridgeSubnet ''public-https'' ''any'' ''443'' ''tcp'' ''gha-fleet-public-https-v1''];
          declared = concat (map (\<lambda>q. ca_EgressAllowlist (pl_Capabilities q))
            (filter (\<lambda>q. ca_NetworkPolicy (pl_Capabilities q) = ''release-allowlist'') (fc_Pools c)))
      in \<lparr>hf_Backend = ''ufw'', hf_RequiredStatus = ''active'', hf_RequiredDefault = ''deny (incoming), allow (outgoing), deny (routed)'',
          hf_Rules = snd (fold (release_step c bridgeSubnet) declared ([], fixed))\<rparr>)"

section \<open>Building the plan\<close>

fun first_duplicate :: "string list \<Rightarrow> string list \<Rightarrow> string option" where
  "first_duplicate seen [] = None"
| "first_duplicate seen (x # xs) = (if x \<in> set seen then Some x else first_duplicate (x # seen) xs)"

text \<open>One pool of the loop: the profiles, the ACLs and the names still missing.\<close>

record build_acc =
  ba_profiles :: "plan_profile list"
  ba_acls :: "plan_acl list"
  ba_selected :: "string list"

definition build_pool :: "fleet_config \<Rightarrow> string \<Rightarrow> Pool \<Rightarrow> build_acc \<Rightarrow> plan_error + build_acc" where
  "build_pool c bridgeAddress pool a =
     (if pl_Name pool \<notin> set (ba_selected a) then Inr a
      else (let next = a\<lparr>ba_profiles := ba_profiles a @ [profile c pool], ba_selected := removeAll (pl_Name pool) (ba_selected a)\<rparr>;
                policy = ca_NetworkPolicy (pl_Capabilities pool)
            in if policy = ''public-internet'' then Inr next
               else if policy = ''release-allowlist''
               then Inr (case poolEgressACL c pool bridgeAddress of None \<Rightarrow> next | Some acl \<Rightarrow> next\<lparr>ba_acls := ba_acls a @ [acl]\<rparr>)
               else Inl (NetworkPolicyUnsupported (pl_Name pool))))"

definition has_backend :: "fleet_config \<Rightarrow> string \<Rightarrow> bool" where
  "has_backend c implementation \<longleftrightarrow> list_ex (\<lambda>b. be_Implementation b = implementation) (fc_Backends c)"

definition plan_project :: "fleet_config \<Rightarrow> plan_object" where
  "plan_project c =
     (let i = fc_Incus c; fleet_limit = format_int (FleetMaxInstances i)
      in \<lparr>bj_Name = in_Project i, bj_Text = ''Disposable NDDev GitHub Actions workers'', bj_Config =
          [(''features.images'', ''true''), (''features.networks'', ''false''), (''features.networks.zones'', ''false''), (''features.profiles'', ''true''),
           (''features.storage.buckets'', ''false''), (''features.storage.volumes'', ''true''), (''images.auto_update_interval'', ''0''),
           (''limits.containers'', if has_backend c ''incus-container'' then fleet_limit else ''0''),
           (''limits.disk'', format_int (FleetHardDiskLimitGiB i) @ ''GiB''), (''limits.instances'', fleet_limit),
           (''limits.memory'', format_int (FleetHardMemoryLimitMiB i) @ ''MiB''), (''limits.networks'', ''0''),
           (''limits.virtual-machines'', if has_backend c ''incus-vm'' then fleet_limit else ''0''), (''restricted'', ''true''), (''restricted.backups'', ''block''),
           (''restricted.containers.lowlevel'', ''block''), (''restricted.containers.nesting'', ''allow''), (''restricted.devices.disk'', ''managed''),
           (''restricted.devices.nic'', ''managed''), (''restricted.networks.access'', in_Network i), (''restricted.snapshots'', ''block''),
           (''restricted.virtual-machines.lowlevel'', if has_backend c ''incus-vm'' then ''allow'' else ''block'')]\<rparr>)"

definition plan_storage :: "fleet_config \<Rightarrow> plan_object" where
  "plan_storage c =
     \<lparr>bj_Name = in_StoragePool (fc_Incus c), bj_Text = in_StorageDriver (fc_Incus c), bj_Config =
        [(''lvm.thinpool_name'', ''gha-thin''), (''lvm.use_thinpool'', ''true''), (''size'', format_int (in_StorageSizeGiB (fc_Incus c)) @ ''GiB''),
         (''volume.size'', ''16GiB'')]\<rparr>"

definition plan_network :: "fleet_config \<Rightarrow> plan_object" where
  "plan_network c =
     \<lparr>bj_Name = in_Network (fc_Incus c), bj_Text = ''bridge'', bj_Config =
        [(''dns.domain'', ''gha.internal''), (''dns.mode'', ''managed''), (''ipv4.address'', in_NetworkCIDR (fc_Incus c)), (''ipv4.dhcp'', ''true''),
         (''ipv4.nat'', ''true''), (''ipv6.address'', ''none'')]\<rparr>"

definition format_prefix :: "int \<times> nat \<Rightarrow> string" where "format_prefix n = format_ipv4 (fst n) @ ''/'' @ dec_nat (snd n)"

definition Build :: "text_env \<Rightarrow> fleet_config \<Rightarrow> string list \<Rightarrow> plan_error + incus_plan" where
  "Build e c selectedPools =
     (if fleet_Validate e c \<noteq> [] then Inl (PlanConfig (fleet_Validate e c))
      else if selectedPools = [] then Inl NoPoolSelected
      else (case first_duplicate [] selectedPools of
              Some name \<Rightarrow> Inl (SelectedTwice name)
            | None \<Rightarrow>
              (case parse_prefix (in_NetworkCIDR (fc_Incus c)) of
                 None \<Rightarrow> Inl BridgeUnparseable
               | Some bridge \<Rightarrow>
                 (let bridgeAddress = format_ipv4 (fst bridge); bridgeSubnet = format_prefix (masked bridge)
                  in case fold_err (build_pool c bridgeAddress) (fc_Pools c) \<lparr>ba_profiles = [], ba_acls = [], ba_selected = selectedPools\<rparr> of
                       Inl err \<Rightarrow> Inl err
                     | Inr a \<Rightarrow>
                       if ba_selected a \<noteq> [] then Inl (UnknownPools (sort (ba_selected a)))
                       else (case placement_Render e c of
                               Inl err \<Rightarrow> Inl (PlanPlacement err)
                             | Inr policy \<Rightarrow>
                               Inr \<lparr>plan_Version = in_Version (fc_Incus c), plan_APIAddress = EffectiveAPIAddress (fc_Incus c),
                                    plan_ServerConfig = [(''instances.placement.scriptlet'', policy)], plan_HostFirewall = hostFirewall c bridgeAddress bridgeSubnet,
                                    plan_Storage = plan_storage c, plan_Network = plan_network c, plan_Project = plan_project c,
                                    plan_ACL = publicEgressACL c bridgeAddress, plan_PoolACLs = ba_acls a, plan_Profiles = ba_profiles a\<rparr>)))))"

section \<open>What the access rules let through\<close>

record packet =
  pk_destination :: int
  pk_protocol :: string
  pk_port :: int

definition rule_matches :: "acl_rule \<Rightarrow> packet \<Rightarrow> bool" where
  "rule_matches r k \<longleftrightarrow>
     (ru_Destination r = [] \<or> (\<exists>t \<in> set (split_on CHR '','' (ru_Destination r)). in_range (pk_destination k) t))
     \<and> (ru_Protocol r = [] \<or> ru_Protocol r = pk_protocol k)
     \<and> (ru_DestinationPort r = [] \<or> format_int (pk_port k) \<in> set (split_on CHR '','' (ru_DestinationPort r)))"

definition some_rule :: "string \<Rightarrow> plan_acl \<Rightarrow> packet \<Rightarrow> bool" where
  "some_rule action acl k \<longleftrightarrow> (\<exists>r \<in> set (al_Egress acl). ru_Action r = action \<and> ru_State r = ''enabled'' \<and> rule_matches r k)"

text \<open>How Incus documents the evaluation of an ACL: rejecting rules come before allowing ones whatever their position, and what no rule
  matches is rejected.\<close>

definition incus_evaluates :: "(plan_acl \<Rightarrow> packet \<Rightarrow> bool) \<Rightarrow> bool" where
  "incus_evaluates permits \<longleftrightarrow> (\<forall>acl k. permits acl k \<longleftrightarrow> some_rule ''allow'' acl k \<and> \<not> some_rule ''reject'' acl k)"

lemma split_on_append: "split_on c (w @ c # s) = split_on c w @ split_on c s"
proof (induction w)
  case (Cons x w)
  then show ?case by (cases "split_on c w") auto
qed simp

lemma split_join_mem: "x \<in> set xs \<Longrightarrow> c \<notin> set x \<Longrightarrow> x \<in> set (split_on c (join_with c xs))"
proof (induction xs rule: join_with.induct)
  case (3 c y z xs)
  then show ?case by (auto simp: split_on_append)
qed auto

lemma parse_ipv4_chars: "parse_ipv4 s = Some v \<Longrightarrow> ch \<in> set s \<Longrightarrow> is_digit ch \<or> ch = CHR ''.''"
proof -
  assume a: "parse_ipv4 s = Some v" "ch \<in> set s"
  have part: "list_all is_digit w" if "w \<in> set (split_on CHR ''.'' s)" for w
    using a(1) that unfolding parse_ipv4_def by (auto simp: small_decimal_def split: list.splits option.splits if_splits)
  have "set (join_with d ws) \<subseteq> {d} \<union> \<Union> (set ` set ws)" for d ws by (induction d ws rule: join_with.induct) auto
  from this [of "CHR ''.''" "split_on CHR ''.'' s"] a(2) part show ?thesis by (auto simp: join_split list_all_iff)
qed

lemma host_prefix: "parse_ipv4 h = Some v \<Longrightarrow> parse_prefix (h @ ''/32'') = Some (v, 32) \<and> CHR '','' \<notin> set (h @ ''/32'')"
proof -
  assume a: "parse_ipv4 h = Some v"
  have no: "CHR ''/'' \<notin> set h" "CHR '','' \<notin> set h" using parse_ipv4_chars [OF a, of "CHR ''/''"] parse_ipv4_chars [OF a, of "CHR '',''"] by (auto simp: is_digit_def)
  have "split_on CHR ''/'' (h @ ''/32'') = [h, ''32'']" using split_on_Cons_sep [OF no(1), of "''32''"] by simp
  moreover have "small_decimal 32 ''32'' = Some 32" by code_simp
  ultimately show ?thesis using a no(2) by (simp add: parse_prefix_def)
qed

definition forbidden :: "fleet_config \<Rightarrow> int \<Rightarrow> bool" where
  "forbidden c v \<longleftrightarrow> (\<exists>t \<in> set ReservedEgressDestinations. in_range v t)
     \<or> (\<exists>h \<in> set (let hosts = in_EstatePublicHostAddresses (fc_Incus c) in if hosts = [] then [in_PublicHostAddress (fc_Incus c)] else hosts). parse_ipv4 h = Some v)"

lemma reserved_no_comma: "t \<in> set ReservedEgressDestinations \<Longrightarrow> CHR '','' \<notin> set t"
  by (auto simp: ReservedEgressDestinations_def)

lemma forbidden_listed:
  assumes "forbidden c v"
  shows "\<exists>t \<in> set (split_on CHR '','' (join_with CHR '','' (reservedDestinations c))). in_range v t"
proof -
  obtain t where t: "t \<in> set (reservedDestinations c)" "CHR '','' \<notin> set t" "in_range v t"
  proof -
    from assms consider (range) t where "t \<in> set ReservedEgressDestinations" "in_range v t"
      | (host) h where "h \<in> set (if in_EstatePublicHostAddresses (fc_Incus c) = [] then [in_PublicHostAddress (fc_Incus c)] else in_EstatePublicHostAddresses (fc_Incus c))"
          "parse_ipv4 h = Some v" by (auto simp: forbidden_def Let_def)
    then show thesis
    proof cases
      case range
      then show ?thesis using that reserved_no_comma by (auto simp: reservedDestinations_def Let_def)
    next
      case host
      have "h @ ''/32'' \<in> set (reservedDestinations c)" using host(1) by (auto simp: reservedDestinations_def Let_def)
      moreover have "in_range v (h @ ''/32'')" using host_prefix [OF host(2)] by (auto simp: in_range_def)
      ultimately show ?thesis using that host_prefix [OF host(2)] by blast
    qed
  qed
  then show ?thesis using split_join_mem by blast
qed

section \<open>The ACL of a worker\<close>

abbreviation is_release :: "Pool \<Rightarrow> bool" where "is_release q \<equiv> ca_NetworkPolicy (pl_Capabilities q) = ''release-allowlist''"

definition release_acl :: "fleet_config \<Rightarrow> string \<Rightarrow> Pool \<Rightarrow> plan_acl" where
  "release_acl c bridgeAddress q = the (poolEgressACL c q bridgeAddress)"

lemma release_acl_simps:
  "is_release q \<Longrightarrow> poolEgressACL c q bridgeAddress = Some (release_acl c bridgeAddress q)"
  "is_release q \<Longrightarrow> al_Name (release_acl c bridgeAddress q) = in_EgressACL (fc_Incus c) @ ''-'' @ pl_Name q"
  by (simp_all add: release_acl_def poolEgressACL_def)

lemma build_pools:
  assumes "fold_err (build_pool c bridgeAddress) qs a = Inr a'" "distinct (map pl_Name qs)"
  shows "ba_profiles a' = ba_profiles a @ map (profile c) (filter (\<lambda>q. pl_Name q \<in> set (ba_selected a)) qs)
    \<and> ba_acls a' = ba_acls a @ map (release_acl c bridgeAddress) (filter (\<lambda>q. pl_Name q \<in> set (ba_selected a) \<and> is_release q) qs)"
  using assms
proof (induction qs arbitrary: a)
  case (Cons q qs)
  then obtain b where b: "build_pool c bridgeAddress q a = Inr b" "fold_err (build_pool c bridgeAddress) qs b = Inr a'" by (auto split: sum.splits)
  have rest: "ba_profiles a' = ba_profiles b @ map (profile c) (filter (\<lambda>q. pl_Name q \<in> set (ba_selected b)) qs)
      \<and> ba_acls a' = ba_acls b @ map (release_acl c bridgeAddress) (filter (\<lambda>q. pl_Name q \<in> set (ba_selected b) \<and> is_release q) qs)"
    using Cons.IH [OF b(2)] Cons.prems(2) by simp
  show ?case
  proof (cases "pl_Name q \<in> set (ba_selected a)")
    case False
    then show ?thesis using b(1) rest by (simp add: build_pool_def)
  next
    case True
    have sel: "ba_selected b = removeAll (pl_Name q) (ba_selected a)" and prof: "ba_profiles b = ba_profiles a @ [profile c q]"
      and acls: "ba_acls b = ba_acls a @ (if is_release q then [release_acl c bridgeAddress q] else [])"
      using b(1) True by (auto simp: build_pool_def Let_def release_acl_simps split: if_splits)
    have same: "pl_Name x \<in> set (ba_selected b) \<longleftrightarrow> pl_Name x \<in> set (ba_selected a)" if "x \<in> set qs" for x
    proof -
      have "pl_Name x \<noteq> pl_Name q" using that Cons.prems(2) by (metis distinct.simps(2) image_eqI list.simps(9) set_map)
      then show ?thesis by (simp add: sel)
    qed
    then have "filter (\<lambda>q. pl_Name q \<in> set (ba_selected b)) qs = filter (\<lambda>q. pl_Name q \<in> set (ba_selected a)) qs"
        "filter (\<lambda>q. pl_Name q \<in> set (ba_selected b) \<and> is_release q) qs = filter (\<lambda>q. pl_Name q \<in> set (ba_selected a) \<and> is_release q) qs"
      by (auto intro: filter_cong)
    then show ?thesis using rest True by (simp add: prof acls)
  qed
qed simp

lemma Build_Inr:
  assumes "Build e c sel = Inr plan"
  obtains bridge qs where "fleet_Validate e c = []" "parse_prefix (in_NetworkCIDR (fc_Incus c)) = Some bridge" "qs = filter (\<lambda>q. pl_Name q \<in> set sel) (fc_Pools c)"
    "plan_Profiles plan = map (profile c) qs" "plan_ACL plan = publicEgressACL c (format_ipv4 (fst bridge))"
    "plan_PoolACLs plan = map (release_acl c (format_ipv4 (fst bridge))) (filter is_release qs)" "distinct (map pl_Name qs)"
proof -
  obtain bridge a where a: "fleet_Validate e c = []" "parse_prefix (in_NetworkCIDR (fc_Incus c)) = Some bridge"
      "fold_err (build_pool c (format_ipv4 (fst bridge))) (fc_Pools c) \<lparr>ba_profiles = [], ba_acls = [], ba_selected = sel\<rparr> = Inr a"
      "plan_ACL plan = publicEgressACL c (format_ipv4 (fst bridge))" "plan_PoolACLs plan = ba_acls a" "plan_Profiles plan = ba_profiles a"
    using assms by (auto simp: Build_def Let_def split: if_splits option.splits sum.splits)
  have d: "distinct (map pl_Name (fc_Pools c))" using pool_issues_distinct [OF valid_limits(4) [OF a(1)]] by blast
  have f: "filter is_release (filter (\<lambda>q. pl_Name q \<in> set sel) (fc_Pools c)) = filter (\<lambda>q. pl_Name q \<in> set sel \<and> is_release q) (fc_Pools c)"
    by (simp add: conj_commute)
  show thesis
    using that [OF a(1,2) refl] build_pools [OF a(3) d] a(4-6) distinct_map_filter [OF d] by (simp add: f)
qed

definition nic_acl :: "plan_profile \<Rightarrow> string option" where
  "nic_acl p = Option.bind (get (qf_Devices p) ''eth0'') (\<lambda>nic. get nic ''security.acls'')"

lemma nic_acl_profile: "nic_acl (profile c q) = Some (in_EgressACL (fc_Incus c) @ (if is_release q then ''-'' @ pl_Name q else []))"
  by (simp add: nic_acl_def profile_def plan_nic_def)

lemma base_reject_wins:
  assumes "acl = publicEgressACL c bridgeAddress \<or> (is_release q \<and> acl = release_acl c bridgeAddress q)" "forbidden c (pk_destination k)"
  shows "some_rule ''reject'' acl k"
proof -
  let ?r = "acl_entry ''reject'' ''Block private, metadata, multicast and host public ranges'' (join_with CHR '','' (reservedDestinations c)) [] []"
  have "?r \<in> set (al_Egress acl)" using assms(1) by (auto simp: publicEgressACL_def release_acl_def poolEgressACL_def baseEgressRejects_def)
  moreover have "rule_matches ?r k" using forbidden_listed [OF assms(2)] by (simp add: rule_matches_def acl_entry_def)
  ultimately show ?thesis by (force simp: some_rule_def acl_entry_def)
qed

text \<open>C7: No planned worker reaches a private, reserved or fleet address. The network card of every profile carries exactly one ACL
  of the plan; where Incus evaluates ACLs as documented, a packet to an
  address in a reserved range or of a host of the estate is rejected by that ACL, whatever protocol and port it has and whatever the pool
  declares.\<close>

theorem planned_egress_confined:
  assumes "Build e c sel = Inr plan" "prof \<in> set (plan_Profiles plan)" "incus_evaluates permits" "forbidden c (pk_destination k)"
  shows "\<exists>acl. acl \<in> set (plan_ACL plan # plan_PoolACLs plan) \<and> \<not> permits acl k
    \<and> (\<forall>x \<in> set (plan_ACL plan # plan_PoolACLs plan). nic_acl prof = Some (al_Name x) \<longleftrightarrow> x = acl)"
proof -
  obtain bridge qs where plan: "fleet_Validate e c = []" "parse_prefix (in_NetworkCIDR (fc_Incus c)) = Some bridge" "qs = filter (\<lambda>q. pl_Name q \<in> set sel) (fc_Pools c)"
      "plan_Profiles plan = map (profile c) qs" "plan_ACL plan = publicEgressACL c (format_ipv4 (fst bridge))"
      "plan_PoolACLs plan = map (release_acl c (format_ipv4 (fst bridge))) (filter is_release qs)" "distinct (map pl_Name qs)"
    by (rule Build_Inr [OF assms(1)])
  note b = plan(4-7)
  obtain q where q: "q \<in> set qs" "prof = profile c q" using assms(2) b(1) by auto
  let ?B = "format_ipv4 (fst bridge)"
  have public: "al_Name (publicEgressACL c ?B) = in_EgressACL (fc_Incus c)" by (simp add: publicEgressACL_def)
  have one: "x = q" if "x \<in> set qs" "pl_Name x = pl_Name q" for x
    using that q(1) b(4) by (metis distinct_map inj_onD)
  have rejected: "\<not> permits acl k" if "acl = publicEgressACL c ?B \<or> (is_release q \<and> acl = release_acl c ?B q)" for acl
    using base_reject_wins [OF that assms(4)] assms(3) by (auto simp: incus_evaluates_def)
  show ?thesis
  proof (cases "is_release q")
    case True
    have "nic_acl prof = Some (al_Name (release_acl c ?B q))" using True by (simp add: nic_acl_profile q(2) release_acl_simps(2))
    moreover have "\<forall>x \<in> set (plan_ACL plan # plan_PoolACLs plan). al_Name x = al_Name (release_acl c ?B q) \<longrightarrow> x = release_acl c ?B q"
      using True one by (auto simp: b(2,3) public release_acl_simps(2))
    moreover have "release_acl c ?B q \<in> set (plan_ACL plan # plan_PoolACLs plan)" using True q(1) by (simp add: b(3))
    ultimately show ?thesis using rejected [of "release_acl c ?B q"] True by (metis option.inject)
  next
    case False
    have "nic_acl prof = Some (al_Name (publicEgressACL c ?B))" using False by (simp add: nic_acl_profile q(2) public)
    moreover have "\<forall>x \<in> set (plan_ACL plan # plan_PoolACLs plan). al_Name x = al_Name (publicEgressACL c ?B) \<longrightarrow> x = publicEgressACL c ?B"
      by (auto simp: b(2,3) public release_acl_simps(2))
    moreover have "publicEgressACL c ?B \<in> set (plan_ACL plan # plan_PoolACLs plan)" by (simp add: b(2))
    ultimately show ?thesis using rejected [of "publicEgressACL c ?B"] by (metis option.inject)
  qed
qed

section \<open>Declared destinations\<close>

lemma format_int_inject: "0 \<le> x \<Longrightarrow> 0 \<le> y \<Longrightarrow> format_int x = format_int y \<longleftrightarrow> x = y"
  by (simp add: format_int_pos eq_nat_nat_iff)

lemma format_int_digits: "0 \<le> x \<Longrightarrow> list_all is_digit (format_int x)" "format_int x \<noteq> []"
  using dec_nat_digits by (auto simp: format_int_def list_all_iff is_digit_of_char dec_nat_nonempty)

lemma format_int_no_dot: "0 \<le> x \<and> x \<le> 255 \<Longrightarrow> CHR ''.'' \<notin> set (format_int x)"
  using format_int_digits(1) [of x] by (auto simp: list_all_iff is_digit_def)

lemma dec_nat_leading: "dec_nat n = CHR ''0'' # cs \<Longrightarrow> n = 0"
proof (induction n arbitrary: cs rule: dec_nat.induct)
  case (1 n)
  show ?case
  proof (cases "n < 10")
    case True
    then have "char_of (48 + n) = CHR ''0''" using "1.prems" by (simp add: dec_nat.simps [of n])
    then have "(of_char (char_of (48 + n)) :: nat) = of_char CHR ''0''" by simp
    then show ?thesis using True by simp
  next
    case False
    then obtain ds where "dec_nat (n div 10) = CHR ''0'' # ds"
      using "1.prems" dec_nat_nonempty [of "n div 10"] by (cases "dec_nat (n div 10)") (auto simp: dec_nat.simps [of n])
    then have "n div 10 = 0" using "1.IH" False by blast
    then show ?thesis using False by simp
  qed
qed

lemma small_decimal_format: "0 \<le> x \<Longrightarrow> x \<le> bound \<Longrightarrow> small_decimal bound (format_int x) = Some x"
proof -
  assume x: "0 \<le> x" "x \<le> bound"
  have v: "digits_value (format_int x) = x" using x(1) by (simp add: format_int_pos digits_value_dec_nat)
  have "length (format_int x) = 1 \<or> hd (format_int x) \<noteq> CHR ''0''"
  proof (rule disjCI)
    assume "\<not> hd (format_int x) \<noteq> CHR ''0''"
    then obtain cs where "dec_nat (nat x) = CHR ''0'' # cs" using x(1) format_int_digits(2) [of x] by (cases "format_int x") (simp_all add: format_int_pos)
    then have "nat x = 0" by (rule dec_nat_leading)
    then show "length (format_int x) = 1" using x(1) by (simp add: format_int_pos dec_nat.simps [of 0])
  qed
  then show ?thesis using x format_int_digits [of x] v by (simp add: small_decimal_def)
qed

lemma parse_format_ipv4: "0 \<le> v \<Longrightarrow> v < 4294967296 \<Longrightarrow> parse_ipv4 (format_ipv4 v) = Some v"
proof -
  assume v: "0 \<le> v" "v < 4294967296"
  let ?parts = "[v div 16777216, v div 65536 mod 256, v div 256 mod 256, v mod 256]"
  have r: "0 \<le> x \<and> x \<le> 255" if "x \<in> set ?parts" for x
  proof -
    have "0 \<le> v div 16777216 \<and> v div 16777216 \<le> 255" using v zdiv_mono1 [of v 4294967295 16777216] by (simp add: pos_imp_zdiv_nonneg_iff)
    then show ?thesis using that by auto
  qed
  have "\<forall>w \<in> set (map format_int ?parts). CHR ''.'' \<notin> set w"
    unfolding set_map using r format_int_no_dot by blast
  then have "split_on CHR ''.'' (format_ipv4 v) = map format_int ?parts"
    using split_on_join [of "map format_int ?parts" "CHR ''.''"] by (simp add: format_ipv4_def)
  then have "map (small_decimal 255) (split_on CHR ''.'' (format_ipv4 v)) = map (\<lambda>x. small_decimal 255 (format_int x)) ?parts" by simp
  also have "\<dots> = map Some ?parts" using r small_decimal_format by (intro map_cong [OF refl]) blast
  finally have "map (small_decimal 255) (split_on CHR ''.'' (format_ipv4 v)) = map Some ?parts" .
  moreover have "((v div 16777216 * 256 + v div 65536 mod 256) * 256 + v div 256 mod 256) * 256 + v mod 256 = v"
  proof -
    have "v div 16777216 = v div 65536 div 256" "v div 65536 = v div 256 div 256"
      using zdiv_zmult2_eq [of 256 v 65536] zdiv_zmult2_eq [of 256 v 256] by simp_all
    then show ?thesis by (metis div_mult_mod_eq)
  qed
  ultimately show ?thesis by (simp add: parse_ipv4_def)
qed

lemma small_decimal_range: "small_decimal bound s = Some x \<Longrightarrow> 0 \<le> x \<and> x \<le> bound"
proof -
  assume a: "small_decimal bound s = Some x"
  then have d: "list_all is_digit s" and x: "x = digits_value s" "x \<le> bound" by (auto simp: small_decimal_def split: if_splits)
  have "0 \<le> n \<Longrightarrow> list_all is_digit t \<Longrightarrow> 0 \<le> foldl (\<lambda>n c. 10 * n + (of_char c - 48)) n t" for n :: int and t
  proof (induction t arbitrary: n)
    case (Cons c t)
    have "(48 :: nat) \<le> of_char c" using Cons.prems(2) by (simp add: is_digit_of_char)
    then have "(48 :: int) \<le> of_char c" by (metis of_nat_le_iff of_nat_numeral of_nat_of_char)
    with Cons show ?case by simp
  qed simp
  with d x show ?thesis by (simp add: digits_value_def)
qed

lemma parse_ipv4_range: "parse_ipv4 s = Some v \<Longrightarrow> 0 \<le> v \<and> v < 4294967296"
proof -
  assume "parse_ipv4 s = Some v"
  then obtain a b c d where abcd: "v = ((a * 256 + b) * 256 + c) * 256 + d"
      and m: "map (small_decimal 255) (split_on CHR ''.'' s) = [Some a, Some b, Some c, Some d]"
    unfolding parse_ipv4_def by (auto split: list.splits option.splits)
  have "\<exists>t. small_decimal 255 t = Some y" if "Some y \<in> set (map (small_decimal 255) (split_on CHR ''.'' s))" for y using that by fastforce
  then have "0 \<le> a \<and> a \<le> 255" "0 \<le> b \<and> b \<le> 255" "0 \<le> c \<and> c \<le> 255" "0 \<le> d \<and> d \<le> 255"
    unfolding m using small_decimal_range by (metis list.set_intros(1) list.set_intros(2))+
  then show ?thesis by (simp add: abcd)
qed

lemma in_range_host: "parse_ipv4 h = Some w \<Longrightarrow> in_range v (h @ ''/32'') \<longleftrightarrow> v = w"
  using host_prefix [of h w] by (auto simp: in_range_def network_def)

definition estate_hosts :: "fleet_config \<Rightarrow> string list" where
  "estate_hosts c = (let hosts = in_EstatePublicHostAddresses (fc_Incus c) in if hosts = [] then [in_PublicHostAddress (fc_Incus c)] else hosts)"

lemma estate_issues_public: "estate_issues n seen hs = [] \<Longrightarrow> h \<in> set hs \<Longrightarrow> public_ipv4 h"
  by (induction hs arbitrary: n seen) auto

lemma estate_parses:
  assumes "fleet_Validate e c = []" "cl_Enabled (in_Cluster (fc_Incus c))" "h \<in> set (estate_hosts c)"
  obtains w where "parse_ipv4 h = Some w"
proof -
  have i: "validateIncus e (fc_Incus c) = []" using valid_limits(1) [OF assms(1)] .
  then have "public_ipv4 (in_PublicHostAddress (fc_Incus c))" by (simp add: validateIncus_def)
  moreover have "estate_issues 0 [] (in_EstatePublicHostAddresses (fc_Incus c)) = []" using i assms(2) by (simp add: validateIncus_def validateEstate_def Let_def)
  ultimately have "public_ipv4 h" using assms(3) estate_issues_public by (auto simp: estate_hosts_def Let_def split: if_splits)
  then show thesis using that by (auto simp: public_ipv4_def split: option.splits)
qed

lemma reserved_listed_iff:
  assumes "fleet_Validate e c = []" "cl_Enabled (in_Cluster (fc_Incus c))" "\<forall>t \<in> set ReservedEgressDestinations. \<not> in_range v t"
  shows "(\<exists>t \<in> set (split_on CHR '','' (join_with CHR '','' (reservedDestinations c))). in_range v t) \<longleftrightarrow> (\<exists>h \<in> set (estate_hosts c). parse_ipv4 h = Some v)"
proof -
  have d: "set (reservedDestinations c) = set ReservedEgressDestinations \<union> (\<lambda>h. h @ ''/32'') ` set (estate_hosts c)"
    by (auto simp: reservedDestinations_def estate_hosts_def Let_def)
  have "\<forall>t \<in> set (reservedDestinations c). CHR '','' \<notin> set t"
    using reserved_no_comma estate_parses [OF assms(1,2)] host_prefix unfolding d by (metis (no_types, lifting) UnE imageE)
  moreover have "reservedDestinations c \<noteq> []" by (simp add: reservedDestinations_def ReservedEgressDestinations_def Let_def)
  ultimately have "split_on CHR '','' (join_with CHR '','' (reservedDestinations c)) = reservedDestinations c" by (intro split_on_join)
  moreover have "(\<exists>t \<in> set (reservedDestinations c). in_range v t) \<longleftrightarrow> (\<exists>h \<in> set (estate_hosts c). in_range v (h @ ''/32''))" using assms(3) by (auto simp: d)
  moreover have "in_range v (h @ ''/32'') \<longleftrightarrow> parse_ipv4 h = Some v" if "h \<in> set (estate_hosts c)" for h
    using estate_parses [OF assms(1,2) that] in_range_host by (metis option.inject)
  ultimately show ?thesis by auto
qed

lemma parse_prefix_range: "parse_prefix s = Some (v, bits) \<Longrightarrow> 0 \<le> v \<and> v < 4294967296"
  using parse_ipv4_range by (fastforce simp: parse_prefix_def split: list.splits option.splits)

lemma in_range_bridge:
  assumes "parse_prefix s = Some (b, bits)"
  shows "CHR '','' \<notin> set (format_ipv4 b @ ''/32'')" "in_range v (format_ipv4 b @ ''/32'') \<longleftrightarrow> v = b"
proof -
  have b: "parse_ipv4 (format_ipv4 b) = Some b" using parse_prefix_range [OF assms] by (intro parse_format_ipv4) simp_all
  show "CHR '','' \<notin> set (format_ipv4 b @ ''/32'')" using host_prefix [OF b] by (rule conjunct2)
  show "in_range v (format_ipv4 b @ ''/32'') \<longleftrightarrow> v = b" using b by (rule in_range_host)
qed

definition sensitive_ports :: "int set" where "sensitive_ports = {22, 80, 443, 8443, 8444}"

lemma sensitive_listed: "0 \<le> port \<Longrightarrow> format_int port \<in> set (split_on CHR '','' ''22,80,443,8443,8444'') \<longleftrightarrow> port \<in> sensitive_ports"
proof -
  assume p: "0 \<le> port"
  have "map format_int [22, 80, 443, 8443, 8444] = [''22'', ''80'', ''443'', ''8443'', ''8444'']"
    by (simp add: format_int_def dec_nat.simps char_of_def bit_simps)
  moreover have "split_on CHR '','' ''22,80,443,8443,8444'' = [''22'', ''80'', ''443'', ''8443'', ''8444'']" by simp
  ultimately have "split_on CHR '','' ''22,80,443,8443,8444'' = map format_int [22, 80, 443, 8443, 8444]" by simp
  then have "format_int port \<in> set (split_on CHR '','' ''22,80,443,8443,8444'') \<longleftrightarrow> format_int port \<in> format_int ` sensitive_ports"
    by (simp only: set_map sensitive_ports_def list.set)
  moreover have "format_int port \<in> format_int ` sensitive_ports \<longleftrightarrow> port \<in> sensitive_ports"
    using p by (auto simp: sensitive_ports_def format_int_inject)
  ultimately show ?thesis by (rule trans)
qed

lemma parse_prefix_no_comma: "parse_prefix s = Some n \<Longrightarrow> CHR '','' \<notin> set s"
proof -
  assume a: "parse_prefix s = Some n"
  then obtain x y where xy: "split_on CHR ''/'' s = [x, y]" unfolding parse_prefix_def by (simp split: list.splits)
  have "CHR '','' \<notin> set x" using a parse_ipv4_chars [of x _ "CHR '',''"] by (auto simp: parse_prefix_def xy is_digit_def split: option.splits)
  moreover have "CHR '','' \<notin> set y" using a by (auto simp: parse_prefix_def xy small_decimal_def list_all_iff is_digit_def split: option.splits if_splits)
  moreover have "s = x @ CHR ''/'' # y" using join_split [of "CHR ''/''" s] by (simp add: xy)
  ultimately show ?thesis by simp
qed

lemma reserved_joined: "join_with CHR '','' (reservedDestinations c) \<noteq> []"
  by (simp add: reservedDestinations_def ReservedEgressDestinations_def Let_def)

lemma allowlist_ok:
  assumes "fleet_Validate e c = []" "q \<in> set (fc_Pools c)" "is_release q" "d \<in> set (ca_EgressAllowlist (pl_Capabilities q))"
  shows "\<exists>v. parse_prefix (ed_Destination d) = Some (v, 32) \<and> (\<forall>t \<in> set ReservedEgressDestinations. \<not> in_range v t) \<and> ed_Protocol d = ''tcp''
    \<and> (\<forall>port \<in> set (split_on CHR '','' (ed_Ports d)). exact_port port)"
proof -
  obtain at_path where v: "validatePool e at_path q = []" using assms(1,2) by (rule valid_pool)
  then have "validateEgressAllowlist e at_path q = []" by (simp add: validatePool_def)
  then obtain field where "egress_issues e field 0 (ca_EgressAllowlist (pl_Capabilities q)) [] = []"
    using assms(3) by (auto simp: validateEgressAllowlist_def Let_def split: if_splits)
  from egress_issues_ok [OF this] assms(4) show ?thesis by blast
qed

lemma release_reject_iff:
  assumes "is_release q"
  shows "some_rule ''reject'' (release_acl c B q) k \<longleftrightarrow> (\<exists>r \<in> set (baseEgressRejects c B). rule_matches r k)"
  using assms by (auto simp: some_rule_def release_acl_def poolEgressACL_def baseEgressRejects_def localServiceAllows_def acl_entry_def Let_def)

text \<open>C8: A declared destination is reached unless it is a host of the estate. For a release pool of an accepted cluster configuration, the
  destinations and ports of its allowlist pass its ACL exactly when the address is not one of the public addresses of the estate (and not
  the bridge itself on a sensitive port). The validation compares a destination with the reserved ranges only, so a declared estate host
  is accepted and then rejected by the plan.\<close>

theorem declared_destination_reachable_iff:
  assumes "Build e c sel = Inr plan" "cl_Enabled (in_Cluster (fc_Incus c))" "incus_evaluates permits"
    and "q \<in> set (fc_Pools c)" "pl_Name q \<in> set sel" "is_release q" "d \<in> set (ca_EgressAllowlist (pl_Capabilities q))"
    and "parse_prefix (ed_Destination d) = Some (v, 32)" "format_int port \<in> set (split_on CHR '','' (ed_Ports d))" "0 \<le> port"
    and "parse_prefix (in_NetworkCIDR (fc_Incus c)) = Some bridge"
  shows "\<exists>acl \<in> set (plan_PoolACLs plan). nic_acl (profile c q) = Some (al_Name acl)
    \<and> (permits acl \<lparr>pk_destination = v, pk_protocol = ''tcp'', pk_port = port\<rparr>
         \<longleftrightarrow> \<not> (\<exists>h \<in> set (estate_hosts c). parse_ipv4 h = Some v) \<and> \<not> (v = fst bridge \<and> port \<in> sensitive_ports))"
proof -
  obtain b qs where plan: "fleet_Validate e c = []" "parse_prefix (in_NetworkCIDR (fc_Incus c)) = Some b" "qs = filter (\<lambda>q. pl_Name q \<in> set sel) (fc_Pools c)"
      "plan_Profiles plan = map (profile c) qs" "plan_ACL plan = publicEgressACL c (format_ipv4 (fst b))"
      "plan_PoolACLs plan = map (release_acl c (format_ipv4 (fst b))) (filter is_release qs)" "distinct (map pl_Name qs)"
    by (rule Build_Inr [OF assms(1)])
  let ?B = "format_ipv4 (fst bridge)" and ?k = "\<lparr>pk_destination = v, pk_protocol = ''tcp'', pk_port = port\<rparr>"
  have b: "b = bridge" using plan(2) assms(11) by simp
  have mem: "release_acl c ?B q \<in> set (plan_PoolACLs plan)" using assms(4-6) by (simp add: plan(3,6) b)
  obtain bits where bits: "parse_prefix (in_NetworkCIDR (fc_Incus c)) = Some (fst bridge, bits)" using assms(11) by (metis prod.collapse)
  have ok: "\<forall>t \<in> set ReservedEgressDestinations. \<not> in_range v t" "ed_Protocol d = ''tcp''" using allowlist_ok [OF plan(1) assms(4,6,7)] assms(8) by auto
  have comma: "CHR '','' \<notin> set (ed_Destination d)" using assms(8) by (rule parse_prefix_no_comma)
  have "in_range v (ed_Destination d)" using assms(8) by (auto simp: in_range_def)
  then have "rule_matches (acl_entry ''allow'' (ed_Purpose d) (ed_Destination d) (ed_Protocol d) (ed_Ports d)) ?k"
    using comma assms(9) ok(2) by (simp add: rule_matches_def acl_entry_def)
  then have allow: "some_rule ''allow'' (release_acl c ?B q) ?k"
    using assms(6,7) by (force simp: some_rule_def release_acl_def poolEgressACL_def acl_entry_def)
  have "some_rule ''reject'' (release_acl c ?B q) ?k \<longleftrightarrow> (\<exists>h \<in> set (estate_hosts c). parse_ipv4 h = Some v) \<or> (v = fst bridge \<and> port \<in> sensitive_ports)"
    using reserved_listed_iff [OF plan(1) assms(2) ok(1)] in_range_bridge [OF bits] sensitive_listed [OF assms(10)]
    by (simp add: release_reject_iff [OF assms(6)] baseEgressRejects_def rule_matches_def acl_entry_def reserved_joined)
  moreover have "permits (release_acl c ?B q) ?k \<longleftrightarrow> \<not> some_rule ''reject'' (release_acl c ?B q) ?k" using allow assms(3) by (simp add: incus_evaluates_def)
  moreover have "nic_acl (profile c q) = Some (al_Name (release_acl c ?B q))" using assms(6) by (simp add: nic_acl_profile release_acl_simps(2))
  ultimately show ?thesis by (intro bexI [OF _ mem]) simp
qed

section \<open>The plan of a release pool\<close>

definition documented :: "plan_acl \<Rightarrow> packet \<Rightarrow> bool" where
  "documented acl k \<longleftrightarrow> some_rule ''allow'' acl k \<and> \<not> some_rule ''reject'' acl k"

lemma documented_evaluates: "incus_evaluates documented"
  by (simp add: incus_evaluates_def documented_def)

lemma demo_bridge: "parse_prefix (in_NetworkCIDR (fc_Incus demo_fleet)) = Some (3325256705, 24)"
  by code_simp

lemma demo_plan: "\<exists>plan. Build demo_text_env demo_fleet [''nddev-linux-release''] = Inr plan \<and> plan_Profiles plan = [profile demo_fleet demo_release]"
proof -
  have f: "case fold_err (build_pool demo_fleet B) (fc_Pools demo_fleet) \<lparr>ba_profiles = [], ba_acls = [], ba_selected = [''nddev-linux-release'']\<rparr> of
      Inl err \<Rightarrow> False | Inr a \<Rightarrow> ba_selected a = [] \<and> ba_profiles a = [profile demo_fleet demo_release]" for B
    by (simp add: demo_fleet_def build_pool_def demo_standard_def demo_untrusted_def demo_release_def demo_pool_def Let_def poolEgressACL_def)
  obtain a where "fold_err (build_pool demo_fleet (format_ipv4 3325256705)) (fc_Pools demo_fleet)
      \<lparr>ba_profiles = [], ba_acls = [], ba_selected = [''nddev-linux-release'']\<rparr> = Inr a" "ba_selected a = []" "ba_profiles a = [profile demo_fleet demo_release]"
    using f [of "format_ipv4 3325256705"] by (auto split: sum.split_asm)
  then show ?thesis by (simp add: Build_def Let_def demo_fleet_valid demo_bridge demo_policy_rendered)
qed

theorem planned_egress_confined_witness:
  "\<exists>plan acl. Build demo_text_env demo_fleet [''nddev-linux-release''] = Inr plan \<and> acl \<in> set (plan_ACL plan # plan_PoolACLs plan)
     \<and> nic_acl (profile demo_fleet demo_release) = Some (al_Name acl) \<and> \<not> documented acl \<lparr>pk_destination = 3405803788, pk_protocol = ''tcp'', pk_port = 443\<rparr>"
proof -
  obtain plan where p: "Build demo_text_env demo_fleet [''nddev-linux-release''] = Inr plan" "plan_Profiles plan = [profile demo_fleet demo_release]" using demo_plan by blast
  have "profile demo_fleet demo_release \<in> set (plan_Profiles plan)" by (simp add: p(2))
  moreover have "forbidden demo_fleet 3405803788"
  proof -
    have "parse_ipv4 ''203.0.113.12'' = Some 3405803788" by code_simp
    moreover have "''203.0.113.12'' \<in> set (in_EstatePublicHostAddresses (fc_Incus demo_fleet))" by (simp add: demo_fleet_def demo_incus_def)
    ultimately show ?thesis by (auto simp: forbidden_def Let_def)
  qed
  ultimately show ?thesis using planned_egress_confined [OF p(1) _ documented_evaluates, of _ "\<lparr>pk_destination = 3405803788, pk_protocol = ''tcp'', pk_port = 443\<rparr>"] p(1)
    by (metis packet.select_convs(1))
qed

theorem declared_destination_reachable_iff_witness:
  "\<exists>plan. Build demo_text_env demo_fleet [''nddev-linux-release''] = Inr plan
     \<and> (\<exists>acl \<in> set (plan_PoolACLs plan). documented acl \<lparr>pk_destination = 3405803797, pk_protocol = ''tcp'', pk_port = 22\<rparr>)"
proof -
  obtain plan where p: "Build demo_text_env demo_fleet [''nddev-linux-release''] = Inr plan" using demo_plan by blast
  have on: "cl_Enabled (in_Cluster (fc_Incus demo_fleet))" by (simp add: demo_fleet_def demo_incus_def)
  have q: "demo_release \<in> set (fc_Pools demo_fleet)" by (simp add: demo_fleet_pools)
  have r: "pl_Name demo_release \<in> set [''nddev-linux-release'']" "is_release demo_release" "demo_egress \<in> set (ca_EgressAllowlist (pl_Capabilities demo_release))"
    by (simp_all add: demo_release_def demo_pool_def)
  have v: "parse_prefix (ed_Destination demo_egress) = Some (3405803797, 32)" by code_simp
  have port: "format_int 22 \<in> set (split_on CHR '','' (ed_Ports demo_egress))" by code_simp
  have "\<not> list_ex (\<lambda>h. parse_ipv4 h = Some 3405803797) (estate_hosts demo_fleet)" by code_simp
  then have "\<not> (\<exists>h \<in> set (estate_hosts demo_fleet). parse_ipv4 h = Some 3405803797)" by (simp add: list_ex_iff)
  then show ?thesis
    using declared_destination_reachable_iff [OF p on documented_evaluates q r v port _ demo_bridge] p by auto
qed

end
