(* ===== verification/Stage_Transaction.thy ===== *)
theory Stage_Transaction
  imports Cache_Broker
begin

text \<open>
The staged transactions (\<open>internal/stagetransaction/transaction.go\<close>): the validation of a plan, the bounded capture of output, the
verification of a stage and the receipts that a run writes. What a process does, how files and signals behave and the JSON encoding of a
command line are the environment. Proved: when a run reports success, exactly, and what it has then written down; and that an output beyond
the limit can pass an exact expectation.
\<close>

section \<open>Plans and receipts\<close>

record Expectation =
  xp_ExitStatus :: int
  xp_Signal :: string
  xp_Stdout :: string
  xp_Stderr :: string
  xp_Absent :: "string list"

record transaction_stage =
  sg_ID :: string
  sg_Command :: string
  sg_Args :: "string list"
  sg_Dir :: string
  sg_Env :: "string list"
  sg_Expect :: "Expectation option"

record transaction_plan =
  tp_EvidenceRoot :: string
  tp_OutputLimit :: int
  tp_Stages :: "transaction_stage list"
  tp_HasCleanup :: bool
  tp_StageTimeout :: duration
  tp_GracePeriod :: duration

datatype stage_error =
    PlanIncomplete | NoStageTimeout | NoGracePeriod | RootNotPrivate | RootNotEmpty | StageBad string
  | AppendFailed string | StreamFailed string | CaptureOverflow | CaptureWrite | CloseFailed | RunExit int | RunSignal int string | RunOther | KillFailed
  | OutcomeDiffers | StreamsDiffer | AbsenceNotAbsolute | SideEffectExists string | AbsenceUnknown string | CleanupFailed

text \<open>Texts of errors are the errors themselves; an absent text is \<open>[]\<close>.\<close>

record stage_receipt =
  rt_SchemaVersion :: int
  rt_Sequence :: nat
  rt_StageID :: string
  rt_Event :: string
  rt_ArgvSHA256 :: string
  rt_StartedUnixNS :: int
  rt_FinishedUnixNS :: int
  rt_ExitStatus :: "int option"
  rt_Signal :: string
  rt_StdoutSHA256 :: string
  rt_StderrSHA256 :: string
  rt_Error :: "stage_error list"
  rt_RawError :: "stage_error list"
  rt_VerifierOK :: "bool option"
  rt_VerifierError :: "stage_error list"

section \<open>The environment of a stage\<close>

text \<open>How an append to the receipt file ends: written, lost, or written with an error afterwards.\<close>

datatype append_end = AppendOk | AppendLost | AppendUnsynced

text \<open>How the process ended, without what the copying of its output adds.\<close>

datatype process_end = Exited int | Signaled int string | NotStarted

datatype lstat_answer = PathExists | PathMissing | PathUnknown

text \<open>The chunks that the process writes to its two streams, each with whether the evidence file took it; whether the
  context or the wait for the streams ran out; the answers of the kernel to the kill, the closing of the files and the checks of paths; the clock.\<close>

record stage_env =
  se_started :: append_end
  se_finished :: append_end
  se_open_stdout :: bool
  se_open_stderr :: bool
  se_stdout :: "(string \<times> bool) list"
  se_stderr :: "(string \<times> bool) list"
  se_process :: process_end
  se_overdue :: bool
  se_kill :: bool
  se_close :: bool
  se_lstat :: "string \<Rightarrow> lstat_answer"
  se_start_time :: int
  se_finish_time :: int

section \<open>Capture\<close>

record bounded_writer =
  bw_limit :: int
  bw_written :: int
  bw_hash :: string
  bw_err :: "stage_error option"

definition new_writer :: "int \<Rightarrow> bounded_writer" where
  "new_writer limit = \<lparr>bw_limit = limit, bw_written = 0, bw_hash = [], bw_err = None\<rparr>"

definition writer_Write :: "string \<times> bool \<Rightarrow> bounded_writer \<Rightarrow> bounded_writer" where
  "writer_Write chunk w =
     (if bw_err w \<noteq> None then w
      else if bw_written w + int (length (fst chunk)) > bw_limit w then w\<lparr>bw_err := Some CaptureOverflow\<rparr>
      else if snd chunk then w\<lparr>bw_hash := bw_hash w @ fst chunk, bw_written := bw_written w + int (length (fst chunk))\<rparr>
      else w\<lparr>bw_err := Some CaptureWrite\<rparr>)"

definition capture :: "int \<Rightarrow> (string \<times> bool) list \<Rightarrow> bounded_writer" where
  "capture limit chunks = fold writer_Write chunks (new_writer limit)"

definition writer_digest :: "bounded_writer \<Rightarrow> string" where
  "writer_digest w = hex_encode (sha256 (bytes_of (bw_hash w)))"

section \<open>The outcome of a command\<close>

text \<open>\<open>exec.Cmd.Run\<close>: an unsuccessful process is the error; otherwise the first failed copy of a stream, an overdue stream or
  an ended context is.\<close>

definition run_errors :: "stage_env \<Rightarrow> bounded_writer \<Rightarrow> bounded_writer \<Rightarrow> stage_error list" where
  "run_errors s out err =
     (case se_process s of
        NotStarted \<Rightarrow> [RunOther]
      | Signaled n name \<Rightarrow> [RunSignal n name]
      | Exited code \<Rightarrow> if code \<noteq> 0 then [RunExit code] else if bw_err out \<noteq> None \<or> bw_err err \<noteq> None \<or> se_overdue s then [RunOther] else [])
     @ (if se_process s \<noteq> NotStarted \<and> \<not> se_kill s then [KillFailed] else [])"

fun processStatus :: "stage_error list \<Rightarrow> int \<times> string" where
  "processStatus [] = (0, [])"
| "processStatus (RunExit code # es) = (code, [])"
| "processStatus (RunSignal n name # es) = (128 + n, name)"
| "processStatus (e # es) = (-1, [])"

fun absent_error :: "(string \<Rightarrow> lstat_answer) \<Rightarrow> string list \<Rightarrow> stage_error option" where
  "absent_error lstat [] = None"
| "absent_error lstat (path # paths) =
     (if \<not> has_prefix path ''/'' then Some AbsenceNotAbsolute
      else (case lstat path of
              PathExists \<Rightarrow> Some (SideEffectExists path)
            | PathUnknown \<Rightarrow> Some (AbsenceUnknown path)
            | PathMissing \<Rightarrow> absent_error lstat paths))"

definition verify :: "(string \<Rightarrow> lstat_answer) \<Rightarrow> Expectation option \<Rightarrow> int \<Rightarrow> string \<Rightarrow> string \<Rightarrow> string \<Rightarrow> bool \<times> stage_error option" where
  "verify lstat expectation exitStatus signal out err =
     (case expectation of
        None \<Rightarrow> (exitStatus = 0 \<and> signal = [], None)
      | Some x \<Rightarrow>
          if exitStatus \<noteq> xp_ExitStatus x \<or> signal \<noteq> xp_Signal x then (False, Some OutcomeDiffers)
          else if out \<noteq> xp_Stdout x \<or> err \<noteq> xp_Stderr x then (False, Some StreamsDiffer)
          else (case absent_error lstat (xp_Absent x) of Some e \<Rightarrow> (False, Some e) | None \<Rightarrow> (True, None)))"

section \<open>Running a plan\<close>

definition stageIDPattern :: "string \<Rightarrow> bool" where
  "stageIDPattern s \<longleftrightarrow>
     (case s of [] \<Rightarrow> False
      | c # cs \<Rightarrow> CHR ''a'' \<le> c \<and> c \<le> CHR ''z'' \<and> length cs \<le> 63 \<and> list_all (\<lambda>x. lower_or_digit x \<or> x = CHR ''-'') cs)"

fun stage_check :: "string list \<Rightarrow> transaction_stage list \<Rightarrow> stage_error option" where
  "stage_check seen [] = None"
| "stage_check seen (g # gs) =
     (if \<not> stageIDPattern (sg_ID g) \<or> sg_ID g \<in> set seen \<or> \<not> has_prefix (sg_Command g) ''/'' \<or> \<not> has_prefix (sg_Dir g) ''/'' then Some (StageBad (sg_ID g))
      else stage_check (sg_ID g # seen) gs)"

text \<open>Whether the evidence root is a private directory and whether it is empty are answers of the file system.\<close>

definition validatePlan :: "bool \<Rightarrow> bool \<Rightarrow> transaction_plan \<Rightarrow> stage_error option" where
  "validatePlan root_private root_empty p =
     then_check (checks [
       (\<not> (tp_EvidenceRoot p = ''/'' \<or> clean_path (tp_EvidenceRoot p)) \<or> tp_OutputLimit p \<le> 0 \<or> tp_Stages p = [], PlanIncomplete),
       (tp_StageTimeout p \<le> 0, NoStageTimeout), (tp_GracePeriod p \<le> 0, NoGracePeriod), (\<not> root_private, RootNotPrivate), (\<not> root_empty, RootNotEmpty)])
     (stage_check [] (tp_Stages p))"

text \<open>The digest of a command; its JSON encoding is an argument.\<close>

type_synonym argv_json = "string \<Rightarrow> string \<Rightarrow> string list \<Rightarrow> string list \<Rightarrow> nat list"

definition argvDigest :: "argv_json \<Rightarrow> transaction_stage \<Rightarrow> string" where
  "argvDigest json g = hex_encode (sha256 (json (sg_Command g) (sg_Dir g) (sg_Args g) (sort (sg_Env g))))"

definition started_receipt :: "argv_json \<Rightarrow> nat \<Rightarrow> transaction_stage \<Rightarrow> stage_env \<Rightarrow> stage_receipt" where
  "started_receipt json n g s =
     \<lparr>rt_SchemaVersion = 1, rt_Sequence = n, rt_StageID = sg_ID g, rt_Event = ''started'', rt_ArgvSHA256 = argvDigest json g, rt_StartedUnixNS = se_start_time s,
      rt_FinishedUnixNS = 0, rt_ExitStatus = None, rt_Signal = [], rt_StdoutSHA256 = [], rt_StderrSHA256 = [], rt_Error = [], rt_RawError = [], rt_VerifierOK = None,
      rt_VerifierError = []\<rparr>"

definition opt_list :: "'a option \<Rightarrow> 'a list" where "opt_list x = (case x of None \<Rightarrow> [] | Some v \<Rightarrow> [v])"

text \<open>The receipt of a finished stage; its error is that of the verifier, or the raw one where nothing is expected.\<close>

definition finished_receipt :: "argv_json \<Rightarrow> int \<Rightarrow> nat \<Rightarrow> transaction_stage \<Rightarrow> stage_env \<Rightarrow> stage_receipt" where
  "finished_receipt json limit n g s =
     (let out = capture limit (se_stdout s); err = capture limit (se_stderr s);
          run = run_errors s out err; (exitStatus, signal) = processStatus run;
          raw = run @ opt_list (bw_err out) @ opt_list (bw_err err) @ (if se_close s then [] else [CloseFailed]);
          (verifierOK, verifierErr) = verify (se_lstat s) (sg_Expect g) exitStatus signal (bw_hash out) (bw_hash err)
      in \<lparr>rt_SchemaVersion = 1, rt_Sequence = n, rt_StageID = sg_ID g, rt_Event = ''finished'', rt_ArgvSHA256 = argvDigest json g, rt_StartedUnixNS = se_start_time s,
          rt_FinishedUnixNS = se_finish_time s, rt_ExitStatus = Some exitStatus, rt_Signal = signal, rt_StdoutSHA256 = writer_digest out, rt_StderrSHA256 = writer_digest err,
          rt_Error = (if sg_Expect g = None then raw else opt_list verifierErr), rt_RawError = raw, rt_VerifierOK = Some verifierOK, rt_VerifierError = opt_list verifierErr\<rparr>)"

definition appended :: "append_end \<Rightarrow> stage_receipt \<Rightarrow> stage_receipt list" where
  "appended a r = (if a = AppendLost then [] else [r])"

text \<open>The stages from the \<open>n\<close>-th on: the errors and the receipts that were written. The environment answers by sequence number.\<close>

fun run_stages :: "argv_json \<Rightarrow> int \<Rightarrow> (nat \<Rightarrow> stage_env) \<Rightarrow> nat \<Rightarrow> transaction_stage list \<Rightarrow> stage_error list \<times> stage_receipt list" where
  "run_stages json limit E n [] = ([], [])"
| "run_stages json limit E n (g # gs) =
     (let s = E n; first = started_receipt json n g s; last = finished_receipt json limit n g s
      in if se_started s \<noteq> AppendOk then ([AppendFailed (sg_ID g)], appended (se_started s) first)
         else if \<not> se_open_stdout s \<or> \<not> se_open_stderr s then ([StreamFailed (sg_ID g)], [first])
         else if se_finished s \<noteq> AppendOk then (rt_Error last @ [AppendFailed (sg_ID g)], first # appended (se_finished s) last)
         else if rt_Error last \<noteq> [] then (rt_Error last, [first, last])
         else (case run_stages json limit E (Suc n) gs of (errors, receipts) \<Rightarrow> (errors, first # last # receipts)))"

definition transaction_Run ::
    "argv_json \<Rightarrow> bool \<Rightarrow> bool \<Rightarrow> (nat \<Rightarrow> stage_env) \<Rightarrow> bool \<Rightarrow> transaction_plan \<Rightarrow> stage_error list \<times> stage_receipt list" where
  "transaction_Run json root_private root_empty E cleanup p =
     (case validatePlan root_private root_empty p of
        Some e \<Rightarrow> ([e], [])
      | None \<Rightarrow>
          (case run_stages json (tp_OutputLimit p) E 1 (tp_Stages p) of
             (errors, receipts) \<Rightarrow> (errors @ (if tp_HasCleanup p \<and> \<not> cleanup then [CleanupFailed] else []), receipts)))"

section \<open>What a finished transaction means\<close>

definition output_of :: "(string \<times> bool) list \<Rightarrow> string" where "output_of chunks = concat (map fst chunks)"

lemma writer_failed: "bw_err w \<noteq> None \<Longrightarrow> fold writer_Write chunks w = w"
  by (induction chunks) (simp_all add: writer_Write_def)

lemma writer_fold:
  "bw_err w = None \<Longrightarrow> bw_written w = int (length (bw_hash w)) \<Longrightarrow>
     (bw_err (fold writer_Write chunks w) = None \<longleftrightarrow> list_all snd chunks \<and> (chunks = [] \<or> int (length (bw_hash w @ output_of chunks)) \<le> bw_limit w))
     \<and> (bw_err (fold writer_Write chunks w) = None \<longrightarrow> bw_hash (fold writer_Write chunks w) = bw_hash w @ output_of chunks)"
proof (induction chunks arbitrary: w)
  case (Cons chunk chunks)
  show ?case
  proof (cases "bw_written w + int (length (fst chunk)) \<le> bw_limit w \<and> snd chunk")
    case True
    define v where "v = w\<lparr>bw_hash := bw_hash w @ fst chunk, bw_written := bw_written w + int (length (fst chunk))\<rparr>"
    have "writer_Write chunk w = v" using True Cons.prems by (simp add: writer_Write_def v_def)
    moreover have "bw_err v = None" "bw_written v = int (length (bw_hash v))" "bw_limit v = bw_limit w" "bw_hash v = bw_hash w @ fst chunk" using Cons.prems by (simp_all add: v_def)
    ultimately show ?thesis using Cons.IH [of v] True Cons.prems(2) by (auto simp: output_of_def)
  next
    case False
    then have "bw_err (writer_Write chunk w) \<noteq> None" using Cons.prems by (auto simp: writer_Write_def)
    moreover have "\<not> (list_all snd (chunk # chunks) \<and> int (length (bw_hash w @ output_of (chunk # chunks))) \<le> bw_limit w)"
      using False Cons.prems(2) by (auto simp: output_of_def)
    ultimately show ?thesis using writer_failed [of "writer_Write chunk w" chunks] by auto
  qed
qed (simp add: output_of_def)

lemma capture_complete:
  assumes "0 < limit"
  shows "bw_err (capture limit chunks) = None \<longleftrightarrow> list_all snd chunks \<and> int (length (output_of chunks)) \<le> limit"
    and "bw_err (capture limit chunks) = None \<Longrightarrow> bw_hash (capture limit chunks) = output_of chunks"
  using writer_fold [of "new_writer limit" chunks] assms by (auto simp: capture_def new_writer_def output_of_def)

lemma absent_error_None: "absent_error lstat paths = None \<longleftrightarrow> (\<forall>path \<in> set paths. has_prefix path ''/'' \<and> lstat path = PathMissing)"
  by (induction paths) (auto split: lstat_answer.splits)

lemma opt_list_Nil [simp]: "opt_list x = [] \<longleftrightarrow> x = None"
  by (cases x) (simp_all add: opt_list_def)

text \<open>What must hold of a stage: without an expectation the process succeeded and its whole output is on file; with one, outcome and
  captured streams are as expected and the forbidden paths are missing.\<close>

definition stage_good :: "int \<Rightarrow> transaction_stage \<Rightarrow> stage_env \<Rightarrow> bool" where
  "stage_good limit g s \<longleftrightarrow>
     (case sg_Expect g of
        None \<Rightarrow> se_process s = Exited 0 \<and> \<not> se_overdue s \<and> se_kill s \<and> se_close s
          \<and> list_all snd (se_stdout s @ se_stderr s) \<and> int (length (output_of (se_stdout s))) \<le> limit \<and> int (length (output_of (se_stderr s))) \<le> limit
      | Some x \<Rightarrow>
          processStatus (run_errors s (capture limit (se_stdout s)) (capture limit (se_stderr s))) = (xp_ExitStatus x, xp_Signal x)
          \<and> bw_hash (capture limit (se_stdout s)) = xp_Stdout x \<and> bw_hash (capture limit (se_stderr s)) = xp_Stderr x
          \<and> (\<forall>path \<in> set (xp_Absent x). has_prefix path ''/'' \<and> se_lstat s path = PathMissing))"

lemma run_errors_Nil:
  "run_errors s out err = [] \<longleftrightarrow> se_process s = Exited 0 \<and> \<not> se_overdue s \<and> se_kill s \<and> bw_err out = None \<and> bw_err err = None"
  by (auto simp: run_errors_def split: process_end.splits)

lemma finished_no_error:
  assumes "0 < limit"
  shows "rt_Error (finished_receipt json limit n g s) = [] \<longleftrightarrow> stage_good limit g s"
proof (cases "sg_Expect g")
  case None
  then show ?thesis using capture_complete(1) [OF assms]
    by (auto simp: finished_receipt_def stage_good_def Let_def run_errors_Nil verify_def split: prod.splits if_splits)
next
  case (Some x)
  then show ?thesis
    by (auto simp: finished_receipt_def stage_good_def Let_def verify_def absent_error_None [symmetric] split: prod.splits if_splits option.splits)
qed

definition stage_receipts :: "argv_json \<Rightarrow> int \<Rightarrow> (nat \<Rightarrow> stage_env) \<Rightarrow> nat \<times> transaction_stage \<Rightarrow> stage_receipt list" where
  "stage_receipts json limit E = (\<lambda>(n, g). [started_receipt json n g (E n), finished_receipt json limit n g (E n)])"

definition stage_recorded :: "stage_env \<Rightarrow> bool" where
  "stage_recorded s \<longleftrightarrow> se_started s = AppendOk \<and> se_finished s = AppendOk \<and> se_open_stdout s \<and> se_open_stderr s"

lemma run_stages_Nil:
  assumes "0 < limit"
  shows "fst (run_stages json limit E n gs) = [] \<longleftrightarrow> (\<forall>(i, g) \<in> set (enumerate n gs). stage_recorded (E i) \<and> stage_good limit g (E i))"
    and "fst (run_stages json limit E n gs) = [] \<Longrightarrow> snd (run_stages json limit E n gs) = concat (map (stage_receipts json limit E) (enumerate n gs))"
proof (induction gs arbitrary: n)
  case (Cons g gs)
  { case 1
    then show ?case using Cons(1) [of "Suc n"] finished_no_error [OF assms] by (auto simp: Let_def stage_recorded_def split: prod.splits if_splits)
  next
    case 2
    then show ?case using Cons(2) [of "Suc n"] by (auto simp: Let_def stage_receipts_def split: prod.splits if_splits) }
qed simp_all

text \<open>C39: A transaction that reports success did all of its work and has written it down. \<open>Run\<close> returns no error exactly when the plan is
  valid, every stage was recorded before and after it ran, every stage met its expectation, or without one succeeded with its whole output
  on file, and the cleanup succeeded; then the receipt file holds the started and the finished receipt of every stage, in order and
  numbered from one.\<close>

theorem transaction_success_exact:
  "fst (transaction_Run json root_private root_empty E cleanup p) = [] \<longleftrightarrow>
     validatePlan root_private root_empty p = None \<and> (tp_HasCleanup p \<longrightarrow> cleanup)
     \<and> (\<forall>(i, g) \<in> set (enumerate 1 (tp_Stages p)). stage_recorded (E i) \<and> stage_good (tp_OutputLimit p) g (E i))
     \<and> snd (transaction_Run json root_private root_empty E cleanup p) = concat (map (stage_receipts json (tp_OutputLimit p) E) (enumerate 1 (tp_Stages p)))"
proof (cases "validatePlan root_private root_empty p")
  case None
  then have "0 < tp_OutputLimit p" by (auto simp: validatePlan_def split: if_splits)
  from run_stages_Nil [OF this, of json E 1 "tp_Stages p"] None show ?thesis by (auto simp: transaction_Run_def split: prod.splits)
qed (simp add: transaction_Run_def)

theorem transaction_success_exact_witness:
  "let g = \<lparr>sg_ID = ''probe'', sg_Command = ''/bin/probe'', sg_Args = [], sg_Dir = ''/'', sg_Env = [], sg_Expect = None\<rparr>;
       s = \<lparr>se_started = AppendOk, se_finished = AppendOk, se_open_stdout = True, se_open_stderr = True, se_stdout = [(''ok'', True)], se_stderr = [],
            se_process = Exited 0, se_overdue = False, se_kill = True, se_close = True, se_lstat = (\<lambda>p. PathMissing), se_start_time = 1, se_finish_time = 2\<rparr>;
       p = \<lparr>tp_EvidenceRoot = ''/var/evidence'', tp_OutputLimit = 64, tp_Stages = [g], tp_HasCleanup = False, tp_StageTimeout = 1, tp_GracePeriod = 1\<rparr>
   in fst (transaction_Run (\<lambda>c d a e. []) True True (\<lambda>n. s) False p) = []"
proof -
  have v: "validatePlan True True \<lparr>tp_EvidenceRoot = ''/var/evidence'', tp_OutputLimit = 64, tp_Stages =
      [\<lparr>sg_ID = ''probe'', sg_Command = ''/bin/probe'', sg_Args = [], sg_Dir = ''/'', sg_Env = [], sg_Expect = None\<rparr>], tp_HasCleanup = False,
      tp_StageTimeout = 1, tp_GracePeriod = 1\<rparr> = None" by code_simp
  show ?thesis unfolding Let_def transaction_success_exact
    using v by (simp add: stage_recorded_def stage_good_def output_of_def transaction_Run_def stage_receipts_def finished_receipt_def capture_def new_writer_def
        writer_Write_def run_errors_def verify_def opt_list_def Let_def)
qed

text \<open>C40: An overflowed output can pass an exact expectation. If a stage is expected to fail with some exit status, writes exactly the expected
  output and then more than the limit leaves room for, the surplus is dropped before the comparison: the stage is verified, although its
  receipt shows the overflow among the raw errors and its output was not the expected one.\<close>

theorem overflowed_output_verifies:
  assumes "sg_Expect g = Some x" "xp_ExitStatus x \<noteq> 0" "xp_Signal x = []" "\<forall>path \<in> set (xp_Absent x). has_prefix path ''/'' \<and> se_lstat s path = PathMissing"
    and "se_process s = Exited (xp_ExitStatus x)" "se_stdout s = [(xp_Stdout x, True), (surplus, True)]" "se_stderr s = [(xp_Stderr x, True)]"
    and "int (length (xp_Stdout x)) \<le> limit" "int (length (xp_Stderr x)) \<le> limit" "limit < int (length (xp_Stdout x) + length surplus)"
  shows "let r = finished_receipt json limit n g s
         in rt_Error r = [] \<and> rt_VerifierOK r = Some True \<and> CaptureOverflow \<in> set (rt_RawError r) \<and> output_of (se_stdout s) \<noteq> xp_Stdout x"
proof -
  have out: "bw_hash (capture limit (se_stdout s)) = xp_Stdout x" "bw_err (capture limit (se_stdout s)) = Some CaptureOverflow"
    and err: "bw_hash (capture limit (se_stderr s)) = xp_Stderr x"
    using assms(6-10) by (simp_all add: capture_def new_writer_def writer_Write_def)
  have "processStatus (run_errors s (capture limit (se_stdout s)) (capture limit (se_stderr s))) = (xp_ExitStatus x, [])"
    using assms(2,5) by (simp add: run_errors_def)
  moreover have "absent_error (se_lstat s) (xp_Absent x) = None" using assms(4) by (simp add: absent_error_None)
  moreover have "output_of (se_stdout s) \<noteq> xp_Stdout x" using assms(6,8,10) by (auto simp: output_of_def)
  ultimately show ?thesis using assms(1,3) out err by (simp add: finished_receipt_def Let_def verify_def opt_list_def)
qed

theorem overflowed_output_verifies_witness:
  "let x = \<lparr>xp_ExitStatus = 1, xp_Signal = [], xp_Stdout = ''no'', xp_Stderr = [], xp_Absent = []\<rparr>;
       g = \<lparr>sg_ID = ''probe'', sg_Command = ''/bin/probe'', sg_Args = [], sg_Dir = ''/'', sg_Env = [], sg_Expect = Some x\<rparr>;
       s = \<lparr>se_started = AppendOk, se_finished = AppendOk, se_open_stdout = True, se_open_stderr = True, se_stdout = [(''no'', True), (''surplus'', True)],
            se_stderr = [([], True)], se_process = Exited 1, se_overdue = False, se_kill = True, se_close = True, se_lstat = (\<lambda>p. PathMissing),
            se_start_time = 1, se_finish_time = 2\<rparr>
   in rt_Error (finished_receipt (\<lambda>c d a e. []) 4 1 g s) = []"
  using overflowed_output_verifies [of "\<lparr>sg_ID = ''probe'', sg_Command = ''/bin/probe'', sg_Args = [], sg_Dir = ''/'', sg_Env = [],
      sg_Expect = Some \<lparr>xp_ExitStatus = 1, xp_Signal = [], xp_Stdout = ''no'', xp_Stderr = [], xp_Absent = []\<rparr>\<rparr>"
    "\<lparr>xp_ExitStatus = 1, xp_Signal = [], xp_Stdout = ''no'', xp_Stderr = [], xp_Absent = []\<rparr>"
    "\<lparr>se_started = AppendOk, se_finished = AppendOk, se_open_stdout = True, se_open_stderr = True, se_stdout = [(''no'', True), (''surplus'', True)],
      se_stderr = [([], True)], se_process = Exited 1, se_overdue = False, se_kill = True, se_close = True, se_lstat = (\<lambda>p. PathMissing),
      se_start_time = 1, se_finish_time = 2\<rparr>" "''surplus''" 4 "\<lambda>c d a e. []" 1]
  by (simp add: Let_def)

end
