(* ===== verification/Spec2Isabelle.thy ===== *)
theory Spec2Isabelle
  imports Provider_Laws Provider_Capacity Worker_Lifecycle Pressure_Gate Member_Drain Scheduler_Recovery Vanished_Job Job_Lifecycle
    Cache_Broker Queue_Reclaim Host_Capacity Slab_Heal Job_Create Provider_Retry Incus_Plan Stage_Transaction
begin

text \<open>
  Verification of the fleet engine under \<open>src/internal\<close>: the Go program that decides which ephemeral runner
  instances a cluster of hosts may create for GitHub Actions jobs, keeps the journals those decisions rest on, recovers a
  stuck scheduler and jobs whose runner vanished, and hands cache credentials only to the runner of the right repository.

  \<^bold>\<open>The parts and how they interact.\<close> A queue manager (GARM, with an overlay that is not under \<open>src/internal\<close>) writes
  one \<^emph>\<open>queue intent\<close> per job. The provider asks the \<^emph>\<open>queue reader\<close> whether an admitted intent exists, then asks the
  \<^emph>\<open>provider admission controller\<close> for capacity; the controller reconciles its \<^emph>\<open>provider journal\<close> with the observed
  instances, adds up the leases, asks the pure \<^emph>\<open>admission decision\<close>, and preempts warm leases if need be. On every host
  the \<^emph>\<open>pressure gate\<close> closes and opens the host to new work, and the \<^emph>\<open>member drain\<close> empties one host.
  \<^emph>\<open>Scheduler recovery\<close> restarts the manager when work is stuck, \<^emph>\<open>vanished job recovery\<close> cancels and reruns a workflow
  run whose runner is gone, and the \<^emph>\<open>job lifecycle\<close> stream reports every transition of the queue journal. The
  \<^emph>\<open>cache broker\<close> trades a claim token for the cache credential of a repository, and the \<^emph>\<open>tenant registry\<close> and the
  \<^emph>\<open>cache namespace\<close> say which account and which object prefix belongs to which repository.

  \<^bold>\<open>Theories.\<close>
  \<^item> \<open>Go_Prelude\<close>: Go maps as association lists (\<open>gomap\<close>, \<open>get\<close>, \<open>put\<close>), \<open>sort.Slice\<close> as insertion sort on the order
    the code gives, the string functions the code uses, first-error validation, 64-bit integers that wrap;
    \<open>Go_Time\<close>: instants and durations with Go's saturating subtraction; \<open>Go_Crypto\<close>: SHA-256 and hexadecimal text.
  \<^item> \<open>Durable_Store\<close>: what the journals of the program share: a document under a file lock that is read, validated,
    changed and written back atomically; the locale \<open>durable_store\<close> states the laws and is interpreted for each journal
    of the program.
  \<^item> \<open>Admission\<close> (\<open>admission/admission.go\<close>): \<open>Evaluate\<close>, equal to a specification of what fits, at wrapping integers.
  \<^item> \<open>Provider_Journal\<close> (\<open>providerjournal/*.go\<close>): leases, claims, \<open>journal_Validate\<close> with its exact meaning,
    \<open>store_Update\<close>, image maintenance. \<open>Provider_Admission\<close> (\<open>provideradmission/controller.go\<close>): every operation of the
    controller. \<open>Provider_Laws\<close>: they keep the journal valid and its identities unique, and what claim, drain and release
    do. \<open>Provider_Capacity\<close>: an admission stays within the capacity left by the leases, and a preemption plan is
    minimal.
  \<^item> \<open>Worker_Lifecycle\<close> (\<open>domain/job.go\<close>, \<open>lifecycle/lifecycle.go\<close>): job keys and the worker state machine; a worker
    serves one job and every run ends.
  \<^item> \<open>Pressure_Gate\<close> (\<open>pressuregate/pressure.go\<close>) and \<open>Member_Drain\<close> (\<open>memberdrain/drain.go\<close>).
  \<^item> \<open>Scheduler_Recovery\<close> (\<open>schedulerrecovery/*.go\<close>) and \<open>Vanished_Job\<close> (\<open>vanishedjob/*.go\<close>): effects happen only
    with the authority the policy asks for, and files keep one open attempt.
  \<^item> \<open>Tenant_Registry\<close> (\<open>tenant/*.go\<close>), \<open>Queue_Intent\<close> (\<open>queueintent/*.go\<close>), \<open>Job_Lifecycle\<close>
    (\<open>joblifecycle/joblifecycle.go\<close>), \<open>Cache_Namespace\<close> (\<open>cachenamespace/namespace.go\<close>).
  \<^item> \<open>Cache_Claims\<close> (\<open>cachebroker/journal.go\<close>): the claim store, and that a claim serves one repository;
    \<open>Cache_Broker\<close> (\<open>cachebroker/config.go\<close>, \<open>handler.go\<close>): configuration, lookups and the claim endpoint; \<open>Queue_Reclaim\<close>
    (\<open>cachebroker/reclaim.go\<close>): the release of running intents without a lease.
  \<^item> \<open>Platform_Config\<close> (\<open>config/*.go\<close>): the platform configuration, every issue that its validation reports, pool lookup and the
    quotas of the fleet; what an accepted configuration guarantees of trust, egress, identity and capacity.
    \<open>Host_Capacity\<close> (\<open>hostcapacity\<close>, \<open>queueadmission\<close>): the number of workers of a pool that fit a host, and the scheduler
    configuration that must agree with the platform. \<open>Host_Probe\<close> (\<open>hostprobe\<close>, \<open>hostdisk\<close>): the findings that make a
    host ready for a cold start.
  \<^item> \<open>Pressure_Publish\<close> (\<open>pressurepublish/publish.go\<close>, the metadata part of \<open>pressuregate\<close>, \<open>runPublishPressure\<close> of the
    command): a host publishes its gate as member metadata that the provider reads back; \<open>Slab_Heal\<close>
    (\<open>slabheal/slabheal.go\<close>, \<open>runSlabHeal\<close>): the drain and reboot of a host whose kernel memory leaks.
  \<^item> \<open>Fleet_Host\<close> (\<open>garmproviderincus/provider/cluster.go\<close>): the state of the fleet from its members and their gates;
    \<open>Incus_Admission\<close> (\<open>garmproviderincus/provider/admission.go\<close>): the start of a provider process, the observation of the
    instances and the operations that join queue intents, fleet state and provider journal.
  \<^item> \<open>Warm_Pool\<close> (\<open>garmproviderincus/provider/warm.go\<close>): the pass that converges a pool of unregistered instances to its
    target, the creation and promotion of one instance and its deletion.
  \<^item> \<open>Job_Boundary\<close> (\<open>garmproviderincus/provider/incus.go\<close>, \<open>specs.go\<close>): what a request for the worker of a job must
    satisfy, the metadata that its instance carries and the check of an instance that is already there. \<open>Job_Create\<close>
    (\<open>CreateInstance\<close> with \<open>cache_delivery.go\<close>): the whole create as a state transformer over journal, claim store and
    guests; its two main theorems are proved once over an order on worlds, in locales, for every stream of answers.
  \<^item> \<open>Provider_Retry\<close> (\<open>providerretry/recovery_linux.go\<close>): the retry journal, its observation and the manual recovery of a
    terminal circuit, which is shown to be exactly its specification.
  \<^item> \<open>Placement\<close> (\<open>incusplacement/scriptlet.go\<close>): the scriptlet that chooses the member of a worker, and that its choice keeps the
    memory promised to all workers. \<open>Incus_Plan\<close> (\<open>incusplan/plan.go\<close>): the Incus objects of a host, and what its access rules let
    through. \<open>Stage_Transaction\<close> (\<open>stagetransaction/transaction.go\<close>): staged commands with receipts, and what success means.
  \<^item> This theory: the property that joins provider admission with the reclaimer.

  \<^bold>\<open>Correspondence.\<close> A struct is a record, with a prefix on a field whose name another record has; an enumerated string is
  a datatype; an operation keeps its Go name, with a prefix where HOL or another package has it. A method on a store takes
  the file and the environment and returns the result with the new file. Errors are constructors of one error datatype
  per component; the text of a message is dropped, the branch is not. JSON and YAML decoding, file permissions, locks
  and the outcome of each system call are arguments (the environment): a file is absent, broken or a decoded document,
  and a write may fail before or after the rename. A Go map is an association list without duplicate keys, so a theorem
  over every list covers every iteration order.

  \<^bold>\<open>Bounds and fuel.\<close> Every definition is total. Loops with a retry budget recurse on the number of attempts the code
  has (20 by default in the queue correlator); the polling loop of a drain recurses on the number of polls that
  the timeout allows and \<open>Drain_returns\<close> shows that this is enough; the worker state machine has no loop and
  \<open>worker_terminates\<close> bounds its runs. Integers are \<open>64 word\<close>s where the code adds them up and could overflow, otherwise
  \<open>int\<close>.

  \<^bold>\<open>Not modelled.\<close> The command line programs under \<open>cmd\<close>, which parse flags and wire packages together (but for the two loops
  of \<open>gha-fleet\<close> named above); the packages that
  drive external services (Incus, GARM, GitHub, RustFS, OpenObserve) through HTTP or client libraries; image building;
  the decoding of YAML, JSON and kernel files, whose results are arguments of the model; and code under \<open>third_party\<close>.
@@PLAN@@\<close>

section \<open>Properties that span components\<close>

lemma admitted_has_lease:
  assumes "reachable_file c f" "admit c env now host inventory req b f = (Inr r, f')" "Admitted (ar_Decision r)" "readUnlocked f' = Inr p"
  shows "has (j_Leases p) (a_InstanceName (r_Allocation req))"
proof -
  have "wf_file f" using reachable_file_ok [OF assms(1)] by (simp add: file_ok_def)
  then show ?thesis using admitted_lease_recorded [OF _ assms(2,3)] assms(4) by (auto simp: has_def)
qed

text \<open>C20: What admission grants, reclamation respects. After the provider admission controller has admitted a request, a
  reconciliation of the queue journal against the provider journal that the admission wrote keeps the running intent of
  that runner, whatever the clock, the grace period and the outcome of the reads and writes.\<close>

theorem admitted_runner_not_reclaimed:
  assumes "reachable_file c f" "admit c env now host inventory req b f = (Inr r, f')" "Admitted (ar_Decision r)"
    and "holds_intent k i qf" "i_RunnerName i = a_InstanceName (r_Allocation req)"
  shows "holds_intent k i (snd (Once reclaimer renv qenv f' qf))"
  using assms(4)
proof (rule Once_keeps)
  fix p assume "readUnlocked f' = Inr p"
  then have "has (j_Leases p) (i_RunnerName i)" using admitted_has_lease [OF assms(1,2,3)] assms(5) by simp
  then show "i_RunnerName i \<in> covered_runners p" by (simp add: covered_runners_def has_iff_keys)
qed

definition admitted_intent :: Intent where "admitted_intent = demo_intent ''a'' StateRunning ''job-9''"

definition admitted_queue :: queue_journal where
  "admitted_queue = demo_queue\<lparr>q_Intents := [(''github-scale-set-job:v2:4:a'', admitted_intent)]\<rparr>"

theorem admitted_runner_not_reclaimed_witness:
  "holds_intent ''github-scale-set-job:v2:4:a'' admitted_intent
     (snd (Once demo_reclaimer demo_renv demo_qenv (snd big_outcome) (QueueFile (queue_doc_of admitted_queue))))"
proof -
  have "case fst big_outcome of Inr r \<Rightarrow> Admitted (ar_Decision r) | Inl e \<Rightarrow> False" by code_simp
  then obtain r where r: "fst big_outcome = Inr r" "Admitted (ar_Decision r)" by (auto split: sum.splits)
  then have o: "big_outcome = (Inr r, snd big_outcome)" by (metis prod.collapse)
  have v: "queue_validate admitted_queue = None" by code_simp
  have h: "holds_intent ''github-scale-set-job:v2:4:a'' admitted_intent (QueueFile (queue_doc_of admitted_queue))"
    using v by (simp add: holds_intent_def wf_queue_file_def wf_queue_def admitted_queue_def demo_queue_def wf_map_def keys_def)
  show ?thesis
    using admitted_runner_not_reclaimed [OF warm_file_reachable o [unfolded big_outcome_def] r(2) h, of demo_reclaimer demo_renv demo_qenv]
    by (simp add: admitted_intent_def demo_intent_def sample_big_def big_outcome_def)
qed

end
